(* ===== verification/Go_Strings.thy ===== *)
theory Go_Strings
  imports Dygo_Prelude
begin

text \<open>
  The part of Go's \<^verbatim>\<open>strings\<close> package that the modelled code calls.  A Go string is
  a sequence of bytes; it is a \<open>string\<close> here (a list of 8-bit characters), so a
  non-ASCII rune is its UTF-8 byte sequence.
\<close>

abbreviation byte :: "char \<Rightarrow> nat" where
  "byte c \<equiv> of_char c"

section \<open>White space: \<^verbatim>\<open>strings.TrimSpace\<close>\<close>

text \<open>The UTF-8 encodings of the runes that \<^verbatim>\<open>unicode.IsSpace\<close> accepts.\<close>

definition space_runes :: "string list" where
  "space_runes =
     [[CHR 0x20], [CHR 0x09], [CHR 0x0A], [CHR 0x0B], [CHR 0x0C], [CHR 0x0D],
      [CHR 0xC2, CHR 0x85], [CHR 0xC2, CHR 0xA0], [CHR 0xE1, CHR 0x9A, CHR 0x80],
      [CHR 0xE2, CHR 0x80, CHR 0x80], [CHR 0xE2, CHR 0x80, CHR 0x81],
      [CHR 0xE2, CHR 0x80, CHR 0x82], [CHR 0xE2, CHR 0x80, CHR 0x83],
      [CHR 0xE2, CHR 0x80, CHR 0x84], [CHR 0xE2, CHR 0x80, CHR 0x85],
      [CHR 0xE2, CHR 0x80, CHR 0x86], [CHR 0xE2, CHR 0x80, CHR 0x87],
      [CHR 0xE2, CHR 0x80, CHR 0x88], [CHR 0xE2, CHR 0x80, CHR 0x89],
      [CHR 0xE2, CHR 0x80, CHR 0x8A], [CHR 0xE2, CHR 0x80, CHR 0xA8],
      [CHR 0xE2, CHR 0x80, CHR 0xA9], [CHR 0xE2, CHR 0x80, CHR 0xAF],
      [CHR 0xE2, CHR 0x81, CHR 0x9F], [CHR 0xE3, CHR 0x80, CHR 0x80]]"

lemma space_runes_nonempty: "r \<in> set space_runes \<Longrightarrow> 0 < length r"
  by (auto simp: space_runes_def)

definition front_space :: "string \<Rightarrow> string option" where
  "front_space s = find (\<lambda>r. prefix r s) space_runes"

definition back_space :: "string \<Rightarrow> string option" where
  "back_space s = find (\<lambda>r. suffix r s) space_runes"

lemma front_space_SomeD: "front_space s = Some r \<Longrightarrow> 0 < length r \<and> prefix r s"
  by (auto simp: front_space_def dest!: find_SomeD dest: space_runes_nonempty)

lemma back_space_SomeD: "back_space s = Some r \<Longrightarrow> 0 < length r \<and> suffix r s"
  by (auto simp: back_space_def dest!: find_SomeD dest: space_runes_nonempty)

lemma front_space_drop: "front_space s = Some r \<Longrightarrow> length (drop (length r) s) < length s"
  using front_space_SomeD [of s r] prefix_length_le [of r s] by (cases r) auto

lemma back_space_take:
  "back_space s = Some r \<Longrightarrow> length (take (length s - length r) s) < length s"
  using back_space_SomeD [of s r] suffix_length_le [of r s] by (cases r) auto

function trim_left :: "string \<Rightarrow> string" where
  "trim_left s = (case front_space s of None \<Rightarrow> s | Some r \<Rightarrow> trim_left (drop (length r) s))"
  by pat_completeness auto
termination
  by (relation "measure length") (simp, simp only: in_measure front_space_drop)

function trim_right :: "string \<Rightarrow> string" where
  "trim_right s =
     (case back_space s of None \<Rightarrow> s | Some r \<Rightarrow> trim_right (take (length s - length r) s))"
  by pat_completeness auto
termination
  by (relation "measure length") (simp, simp only: in_measure back_space_take)

declare trim_left.simps [simp del] trim_right.simps [simp del]

definition trim_space :: "string \<Rightarrow> string" where
  "trim_space s = trim_right (trim_left s)"

lemma trim_left_front: "front_space (trim_left s) = None"
proof (induction s rule: trim_left.induct)
  case (1 s)
  show ?case
  proof (cases "front_space s")
    case None
    then show ?thesis by (simp add: trim_left.simps [of s])
  next
    case (Some r)
    then show ?thesis using "1.IH" [OF Some] by (simp add: trim_left.simps [of s])
  qed
qed

lemma trim_right_back: "back_space (trim_right s) = None"
proof (induction s rule: trim_right.induct)
  case (1 s)
  show ?case
  proof (cases "back_space s")
    case None
    then show ?thesis by (simp add: trim_right.simps [of s])
  next
    case (Some r)
    then show ?thesis using "1.IH" [OF Some] by (simp add: trim_right.simps [of s])
  qed
qed

lemma trim_right_prefix: "prefix (trim_right s) s"
proof (induction s rule: trim_right.induct)
  case (1 s)
  show ?case
  proof (cases "back_space s")
    case None
    then show ?thesis by (simp add: trim_right.simps [of s])
  next
    case (Some r)
    have "prefix (take (length s - length r) s) s" by (rule take_is_prefix)
    then show ?thesis
      using "1.IH" [OF Some] Some by (auto simp: trim_right.simps [of s] intro: prefix_order.trans)
  qed
qed

lemma front_space_prefix: "front_space s = None \<Longrightarrow> prefix t s \<Longrightarrow> front_space t = None"
  by (auto simp: front_space_def find_None_iff intro: prefix_order.trans)

lemma trim_space_front: "front_space (trim_space s) = None"
  unfolding trim_space_def by (rule front_space_prefix [OF trim_left_front trim_right_prefix])

lemma trim_space_back: "back_space (trim_space s) = None"
  unfolding trim_space_def by (rule trim_right_back)

lemma trim_space_fixed: "front_space s = None \<Longrightarrow> back_space s = None \<Longrightarrow> trim_space s = s"
  by (simp add: trim_space_def trim_left.simps [of s] trim_right.simps [of s])

lemma trim_space_idem [simp]: "trim_space (trim_space s) = trim_space s"
  by (rule trim_space_fixed [OF trim_space_front trim_space_back])

lemma trim_space_Nil [simp]: "trim_space [] = []"
  by (rule trim_space_fixed) (auto simp: front_space_def back_space_def find_None_iff
      dest: space_runes_nonempty)

text \<open>Printable ASCII at both ends means that nothing is trimmed.\<close>

definition graphic :: "char \<Rightarrow> bool" where
  "graphic c \<longleftrightarrow> 0x20 < byte c \<and> byte c < 0x7F"

lemma space_runes_hd: "r \<in> set space_runes \<Longrightarrow> \<not> graphic (hd r)"
  by (auto simp: space_runes_def graphic_def)

lemma space_runes_last: "r \<in> set space_runes \<Longrightarrow> \<not> graphic (last r)"
  by (auto simp: space_runes_def graphic_def)

lemma trim_space_graphic:
  assumes "s \<noteq> []" "graphic (hd s)" "graphic (last s)"
  shows "trim_space s = s"
proof (rule trim_space_fixed)
  show "front_space s = None"
  proof -
    have "\<not> prefix r s" if "r \<in> set space_runes" for r
      using that assms(2) space_runes_hd [OF that] space_runes_nonempty [OF that]
      by (auto simp: prefix_def)
    then show ?thesis by (simp add: front_space_def find_None_iff)
  qed
  show "back_space s = None"
  proof -
    have "\<not> suffix r s" if "r \<in> set space_runes" for r
      using that assms(3) space_runes_last [OF that] space_runes_nonempty [OF that]
      by (auto simp: suffix_def)
    then show ?thesis by (simp add: back_space_def find_None_iff)
  qed
qed

abbreviation blank :: "string \<Rightarrow> bool" where
  "blank s \<equiv> trim_space s = []"

section \<open>Splitting, joining, searching\<close>

text \<open>\<^verbatim>\<open>strings.IndexByte\<close>: the offset of the first occurrence; \<open>None\<close> is Go's \<open>-1\<close>.\<close>

fun index_byte :: "char \<Rightarrow> string \<Rightarrow> nat option" where
  "index_byte c [] = None"
| "index_byte c (x # xs) = (if x = c then Some 0 else map_option Suc (index_byte c xs))"

lemma index_byte_SomeD:
  "index_byte c s = Some i \<Longrightarrow> i < length s \<and> s ! i = c \<and> c \<notin> set (take i s)"
proof (induction s arbitrary: i)
  case Nil
  then show ?case by simp
next
  case (Cons x xs)
  then show ?case by (cases i) (auto split: if_splits)
qed

lemma index_byte_split:
  "index_byte c s = Some i \<Longrightarrow> s = take i s @ c # drop (Suc i) s"
  by (metis index_byte_SomeD id_take_nth_drop)

lemma index_byte_None_iff: "index_byte c s = None \<longleftrightarrow> c \<notin> set s"
  by (induction s) auto

lemma index_byte_append: "c \<notin> set t \<Longrightarrow> index_byte c (t @ c # u) = Some (length t)"
  by (induction t) auto

text \<open>\<^verbatim>\<open>strings.Split\<close> with a one-byte separator: never empty.\<close>

fun split_on :: "char \<Rightarrow> string \<Rightarrow> string list" where
  "split_on c [] = [[]]"
| "split_on c (x # xs) =
     (if x = c then [] # split_on c xs
      else (case split_on c xs of [] \<Rightarrow> [[x]] | p # ps \<Rightarrow> (x # p) # ps))"

lemma split_on_nonempty [simp]: "split_on c s \<noteq> []"
  by (cases s) (auto split: list.splits)

text \<open>\<^verbatim>\<open>strings.Join\<close>.\<close>

fun join :: "string \<Rightarrow> string list \<Rightarrow> string" where
  "join sep [] = []"
| "join sep [p] = p"
| "join sep (p # q # ps) = p @ sep @ join sep (q # ps)"

lemma join_Cons: "ps \<noteq> [] \<Longrightarrow> join sep (p # ps) = p @ sep @ join sep ps"
  by (cases ps) auto

lemma join_split_on: "join [c] (split_on c s) = s"
proof (induction s)
  case Nil
  then show ?case by simp
next
  case (Cons x xs)
  obtain p ps where sp: "split_on c xs = p # ps"
    using split_on_nonempty by (metis list.exhaust)
  show ?case
  proof (cases "x = c")
    case True
    then show ?thesis using Cons.IH by (simp add: join_Cons)
  next
    case False
    then show ?thesis using Cons.IH sp by (cases ps) auto
  qed
qed

lemma split_on_parts: "p \<in> set (split_on c s) \<Longrightarrow> c \<notin> set p"
proof (induction s arbitrary: p)
  case Nil
  then show ?case by simp
next
  case (Cons x xs)
  obtain q qs where sp: "split_on c xs = q # qs"
    using split_on_nonempty by (metis list.exhaust)
  then show ?case using Cons by (auto split: if_splits)
qed

lemma split_on_no_sep: "c \<notin> set s \<Longrightarrow> split_on c s = [s]"
  by (induction s) auto

lemma split_on_append: "c \<notin> set p \<Longrightarrow> split_on c (p @ c # s) = p # split_on c s"
  by (induction p) auto

lemma split_on_join:
  "ps \<noteq> [] \<Longrightarrow> (\<And>p. p \<in> set ps \<Longrightarrow> c \<notin> set p) \<Longrightarrow> split_on c (join [c] ps) = ps"
proof (induction ps)
  case Nil
  then show ?case by simp
next
  case (Cons p ps)
  then show ?case
    by (cases ps) (auto simp: split_on_no_sep split_on_append)
qed

lemma join_inj:
  assumes "join [c] ps = join [c] qs" "ps \<noteq> []" "qs \<noteq> []"
    and "\<And>p. p \<in> set ps \<Longrightarrow> c \<notin> set p" "\<And>q. q \<in> set qs \<Longrightarrow> c \<notin> set q"
  shows "ps = qs"
proof -
  have "ps = split_on c (join [c] ps)" by (rule split_on_join [OF assms(2,4), symmetric])
  also have "\<dots> = split_on c (join [c] qs)" by (simp only: assms(1))
  also have "\<dots> = qs" by (rule split_on_join [OF assms(3,5)])
  finally show ?thesis .
qed

text \<open>\<^verbatim>\<open>strings.HasPrefix\<close>, \<^verbatim>\<open>strings.TrimPrefix\<close>, \<^verbatim>\<open>strings.Cut\<close>.\<close>

abbreviation has_prefix :: "string \<Rightarrow> string \<Rightarrow> bool" where
  "has_prefix s p \<equiv> prefix p s"

definition trim_prefix :: "string \<Rightarrow> string \<Rightarrow> string" where
  "trim_prefix s p = (if prefix p s then drop (length p) s else s)"

definition cut :: "string \<Rightarrow> char \<Rightarrow> (string \<times> string) option" where
  "cut s c = (case index_byte c s of None \<Rightarrow> None | Some i \<Rightarrow> Some (take i s, drop (Suc i) s))"

lemma cut_SomeD: "cut s c = Some (a, b) \<Longrightarrow> s = a @ c # b \<and> c \<notin> set a"
  by (auto simp: cut_def split: option.splits dest: index_byte_split index_byte_SomeD)

lemma cut_append: "c \<notin> set a \<Longrightarrow> cut (a @ c # b) c = Some (a, b)"
  by (simp add: cut_def index_byte_append)

text \<open>\<^verbatim>\<open>strings.Fields\<close> counts and returns the maximal runs of non-space bytes.  Only
  ASCII white space separates here or a multi-byte space rune, as in \<open>front_space\<close>.\<close>

function fields_acc :: "string \<Rightarrow> string \<Rightarrow> string list" where
  "fields_acc cur [] = (if cur = [] then [] else [cur])"
| "fields_acc cur (x # xs) =
     (case front_space (x # xs) of
        Some r \<Rightarrow> (if cur = [] then fields_acc [] (drop (length r) (x # xs))
                   else cur # fields_acc [] (drop (length r) (x # xs)))
      | None \<Rightarrow> fields_acc (cur @ [x]) xs)"
  by pat_completeness auto
termination
  by (relation "measure (\<lambda>(cur, s). length s)")
    (simp, simp_all only: in_measure split front_space_drop, simp)

definition fields_of :: "string \<Rightarrow> string list" where
  "fields_of s = fields_acc [] s"

section \<open>Letter case\<close>

text \<open>
  \<^verbatim>\<open>strings.ToLower\<close> and \<^verbatim>\<open>strings.ToUpper\<close> on ASCII.  The only non-ASCII runes
  whose lower case is ASCII are U+0130 and U+212A; they are included.  Any other non-ASCII
  rune has a non-ASCII lower case, so it stays different from every ASCII word, which is all
  the callers compare with.
\<close>

definition lower_char :: "char \<Rightarrow> char" where
  "lower_char c = (if 65 \<le> byte c \<and> byte c \<le> 90 then char_of (byte c + 32) else c)"

fun to_lower :: "string \<Rightarrow> string" where
  "to_lower (a # b # c # s) =
     (if a = CHR 0xC4 \<and> b = CHR 0xB0 then CHR ''i'' # to_lower (c # s)
      else if a = CHR 0xE2 \<and> b = CHR 0x84 \<and> c = CHR 0xAA then CHR ''k'' # to_lower s
      else lower_char a # to_lower (b # c # s))"
| "to_lower [a, b] =
     (if a = CHR 0xC4 \<and> b = CHR 0xB0 then [CHR ''i''] else [lower_char a, lower_char b])"
| "to_lower [a] = [lower_char a]"
| "to_lower [] = []"

definition upper_char :: "char \<Rightarrow> char" where
  "upper_char c = (if 97 \<le> byte c \<and> byte c \<le> 122 then char_of (byte c - 32) else c)"

definition to_upper_ascii :: "string \<Rightarrow> string" where
  "to_upper_ascii s = map upper_char s"

section \<open>Decimal numbers\<close>

definition is_digit :: "char \<Rightarrow> bool" where
  "is_digit c \<longleftrightarrow> 48 \<le> byte c \<and> byte c \<le> 57"

definition digit_val :: "char \<Rightarrow> nat" where
  "digit_val c = byte c - 48"

definition digit_char :: "nat \<Rightarrow> char" where
  "digit_char d = char_of (48 + d)"

fun show_nat :: "nat \<Rightarrow> string" where
  "show_nat n = (if n < 10 then [digit_char n] else show_nat (n div 10) @ [digit_char (n mod 10)])"

declare show_nat.simps [simp del]

definition show_int :: "int \<Rightarrow> string" where
  "show_int i = (if i < 0 then CHR ''-'' # show_nat (nat (- i)) else show_nat (nat i))"

definition read_digits :: "string \<Rightarrow> nat" where
  "read_digits s = foldl (\<lambda>n c. 10 * n + digit_val c) 0 s"

lemma digit_char_roundtrip: "d < 10 \<Longrightarrow> digit_val (digit_char d) = d \<and> is_digit (digit_char d)"
  by (simp add: digit_val_def digit_char_def is_digit_def)

lemma show_nat_digits: "list_all is_digit (show_nat n) \<and> show_nat n \<noteq> []"
proof (induction n rule: show_nat.induct)
  case (1 n)
  then show ?case by (auto simp: show_nat.simps [of n] digit_char_roundtrip)
qed

lemma read_show_nat: "read_digits (show_nat n) = n"
proof (induction n rule: show_nat.induct)
  case (1 n)
  then show ?case
    by (auto simp: show_nat.simps [of n] read_digits_def digit_char_roundtrip)
qed

lemma show_nat_inj: "show_nat m = show_nat n \<Longrightarrow> m = n"
  by (metis read_show_nat)

text \<open>
  \<^verbatim>\<open>strconv.Atoi\<close> / \<^verbatim>\<open>strconv.ParseInt(s, 10, 64)\<close>: an optional sign and decimal
  digits, within the signed 64-bit range; \<open>None\<close> is the parse error.
\<close>

definition parse_int64 :: "string \<Rightarrow> int option" where
  "parse_int64 s =
     (let (neg, ds) = (case s of
          c # cs \<Rightarrow> if c = CHR ''-'' then (True, cs) else if c = CHR ''+'' then (False, cs)
                   else (False, s)
        | [] \<Rightarrow> (False, []))
      in if ds = [] \<or> \<not> list_all is_digit ds then None
         else let n = int (read_digits ds)
              in if neg then (if n \<le> 2 ^ 63 then Some (- n) else None)
                 else (if n < 2 ^ 63 then Some n else None))"

lemma parse_int64_range: "parse_int64 s = Some i \<Longrightarrow> - (2 ^ 63) \<le> i \<and> i < 2 ^ 63"
  by (auto simp: parse_int64_def Let_def split: list.splits if_splits)

lemma parse_int64_show_nat:
  assumes "int n < 2 ^ 63"
  shows "parse_int64 (show_nat n) = Some (int n)"
proof -
  obtain c cs where s: "show_nat n = c # cs" "is_digit c" "list_all is_digit cs"
    using show_nat_digits [of n] by (cases "show_nat n") auto
  have "c \<noteq> CHR ''-''" "c \<noteq> CHR ''+''" using s(2) by (auto simp: is_digit_def)
  then show ?thesis using s assms read_show_nat [of n] by (simp add: parse_int64_def)
qed


text \<open>
  Substring operations of \<^verbatim>\<open>strings\<close> (\<^verbatim>\<open>ReplaceAll\<close>, \<^verbatim>\<open>Contains\<close>, \<^verbatim>\<open>Count\<close>,
  \<^verbatim>\<open>Trim\<close>) and \<^verbatim>\<open>strconv.ParseBool\<close>.
\<close>

function replace_all :: "string \<Rightarrow> string \<Rightarrow> string \<Rightarrow> string" where
  "replace_all old new [] = []"
| "replace_all old new (c # s) =
     (if old \<noteq> [] \<and> has_prefix (c # s) old then new @ replace_all old new (drop (length old) (c # s))
      else c # replace_all old new s)"
  by pat_completeness auto
termination by (relation "measure (\<lambda>(_, _, s). length s)") (auto simp: neq_Nil_conv)

fun find_sub :: "string \<Rightarrow> string \<Rightarrow> (string \<times> string) option" where
  "find_sub sub [] = (if sub = [] then Some ([], []) else None)"
| "find_sub sub (c # s) =
     (if has_prefix (c # s) sub then Some ([], drop (length sub) (c # s))
      else map_option (\<lambda>(a, b). (c # a, b)) (find_sub sub s))"

definition contains_sub :: "string \<Rightarrow> string \<Rightarrow> bool" where
  "contains_sub s sub \<longleftrightarrow> find_sub sub s \<noteq> None"

definition trim_chars :: "string \<Rightarrow> string \<Rightarrow> string" where
  "trim_chars cs s = rev (dropWhile (\<lambda>c. c \<in> set cs) (rev (dropWhile (\<lambda>c. c \<in> set cs) s)))"

text \<open>\<^verbatim>\<open>strings.Count\<close> of a non-empty substring: occurrences that do not overlap.\<close>

function count_sub :: "string \<Rightarrow> string \<Rightarrow> nat" where
  "count_sub sub [] = 0"
| "count_sub sub (c # s) =
     (if sub \<noteq> [] \<and> has_prefix (c # s) sub then Suc (count_sub sub (drop (length sub) (c # s))) else count_sub sub s)"
  by pat_completeness auto
termination by (relation "measure (\<lambda>(_, s). length s)") (auto simp: neq_Nil_conv)

definition parse_bool :: "string \<Rightarrow> bool option" where
  "parse_bool v =
     (if v \<in> set [''1'', ''t'', ''T'', ''TRUE'', ''true'', ''True''] then Some True
      else if v \<in> set [''0'', ''f'', ''F'', ''FALSE'', ''false'', ''False''] then Some False else None)"

end
