(* ===== verification/Reserved_Words.thy ===== *)
theory Reserved_Words
  imports Go_Strings
begin

text \<open>
  Framework-reserved words (\<^verbatim>\<open>internal/reserved/reserved.go\<close>): the word lists are
  normalised once and sorted, and a query is a binary search
  (\<^verbatim>\<open>sort.SearchStrings\<close>).  \<open>contains_word_iff\<close> shows that the search decides
  membership of the normalised word.
\<close>

section \<open>Binary search\<close>

text \<open>\<^verbatim>\<open>sort.SearchStrings\<close>: the least index in \<open>[lo, hi)\<close> whose element is at
  least \<open>w\<close>, found by halving.\<close>

function search_from :: "string list \<Rightarrow> string \<Rightarrow> nat \<Rightarrow> nat \<Rightarrow> nat" where
  "search_from ws w lo hi =
     (if lo < hi then
        let h = (lo + hi) div 2
        in if ws ! h < w then search_from ws w (Suc h) hi else search_from ws w lo h
      else lo)"
  by pat_completeness auto
termination
  by (relation "measure (\<lambda>(ws, w, lo, hi). hi - lo)") auto

declare search_from.simps [simp del]

definition search_strings :: "string list \<Rightarrow> string \<Rightarrow> nat" where
  "search_strings ws w = search_from ws w 0 (length ws)"

lemma search_from_bounds:
  assumes "sorted ws" "hi \<le> length ws" "lo \<le> hi"
    and "\<And>i. i < lo \<Longrightarrow> ws ! i < w" and "\<And>i. hi \<le> i \<Longrightarrow> i < length ws \<Longrightarrow> w \<le> ws ! i"
  shows "lo \<le> search_from ws w lo hi \<and> search_from ws w lo hi \<le> hi
    \<and> (\<forall>i < search_from ws w lo hi. ws ! i < w)
    \<and> (\<forall>i. search_from ws w lo hi \<le> i \<longrightarrow> i < length ws \<longrightarrow> w \<le> ws ! i)"
  using assms
proof (induction ws w lo hi rule: search_from.induct)
  case (1 ws w lo hi)
  show ?case
  proof (cases "lo < hi")
    case False
    then have "search_from ws w lo hi = lo" by (simp add: search_from.simps [of ws w lo hi])
    moreover have "lo = hi" using False "1.prems"(3) by simp
    ultimately show ?thesis using "1.prems"(4,5) by simp
  next
    case True
    define h where "h = (lo + hi) div 2"
    have h: "lo \<le> h" "h < hi" using True by (auto simp: h_def)
    show ?thesis
    proof (cases "ws ! h < w")
      case True
      have below: "ws ! i < w" if "i < Suc h" for i
      proof -
        have "ws ! i \<le> ws ! h" using that h "1.prems" by (intro sorted_nth_mono) auto
        then show ?thesis using True by simp
      qed
      have "search_from ws w lo hi = search_from ws w (Suc h) hi"
        using True \<open>lo < hi\<close> by (simp add: search_from.simps [of ws w lo hi] h_def)
      moreover note "1.IH" (1) [OF \<open>lo < hi\<close> h_def True "1.prems"(1,2) _ below "1.prems"(5)]
      ultimately show ?thesis using h by auto
    next
      case False
      have above: "w \<le> ws ! i" if "h \<le> i" "i < length ws" for i
      proof -
        have "ws ! h \<le> ws ! i" using that "1.prems"(1) by (intro sorted_nth_mono) auto
        then show ?thesis using False by simp
      qed
      have "search_from ws w lo hi = search_from ws w lo h"
        using False \<open>lo < hi\<close> by (simp add: search_from.simps [of ws w lo hi] h_def)
      moreover note "1.IH" (2) [OF \<open>lo < hi\<close> h_def False "1.prems"(1) _ h(1) "1.prems"(4) above]
      ultimately show ?thesis using h "1.prems"(2) by auto
    qed
  qed
qed

lemma search_strings_member:
  assumes "sorted ws"
  shows "search_strings ws w < length ws \<and> ws ! search_strings ws w = w \<longleftrightarrow> w \<in> set ws"
proof -
  let ?k = "search_strings ws w"
  have k: "?k \<le> length ws" "\<forall>i < ?k. ws ! i < w" "\<forall>i. ?k \<le> i \<longrightarrow> i < length ws \<longrightarrow> w \<le> ws ! i"
    using search_from_bounds [OF assms, of "length ws" 0 w] by (auto simp: search_strings_def)
  show ?thesis
  proof
    assume "?k < length ws \<and> ws ! ?k = w"
    then show "w \<in> set ws" by (auto simp: in_set_conv_nth)
  next
    assume "w \<in> set ws"
    then obtain i where i: "i < length ws" "ws ! i = w" by (auto simp: in_set_conv_nth)
    then have "?k \<le> i" using k(2) by (meson less_irrefl not_le)
    then have "?k < length ws" "w \<le> ws ! ?k" using i k(3) by auto
    moreover have "ws ! ?k \<le> w"
      using sorted_nth_mono [OF assms \<open>?k \<le> i\<close> i(1)] i(2) by simp
    ultimately show "?k < length ws \<and> ws ! ?k = w" by auto
  qed
qed

section \<open>Word sets\<close>

definition normalize_word :: "string \<Rightarrow> string" where
  "normalize_word v = to_lower (trim_space v)"

definition normalize_category :: "string list \<Rightarrow> string list" where
  "normalize_category vs = sort (dedup (filter (\<lambda>w. w \<noteq> []) (map normalize_word vs)))"

definition contains_word :: "string list \<Rightarrow> string \<Rightarrow> bool" where
  "contains_word ws value =
     (let w = normalize_word value in
      if w = [] then False
      else let i = search_strings ws w in i < length ws \<and> ws ! i = w)"

record word_set =
  ws_apps :: "string list"
  ws_slugs :: "string list"
  ws_fields :: "string list"
  ws_queries :: "string list"

definition load_words :: "word_set \<Rightarrow> word_set" where
  "load_words w = \<lparr>ws_apps = normalize_category (ws_apps w),
     ws_slugs = normalize_category (ws_slugs w),
     ws_fields = normalize_category (ws_fields w),
     ws_queries = normalize_category (ws_queries w)\<rparr>"

text \<open>The embedded \<^verbatim>\<open>words.yml\<close>.\<close>

definition words_yml :: word_set where
  "words_yml = \<lparr>
     ws_apps = [''core'', ''localization'', ''studio''],
     ws_slugs = [''api'', ''assets'', ''boot'', ''health'', ''login'', ''logout'', ''me'', ''setup''],
     ws_fields = [''created-at'', ''created-by'', ''cursor'', ''debug'', ''expand'', ''fields'',
       ''group'', ''id'', ''include'', ''limit'', ''modified-by'', ''name'', ''offset'', ''owner'',
       ''q'', ''search'', ''sort'', ''updated-at'', ''view''],
     ws_queries = [''cursor'', ''debug'', ''expand'', ''fields'', ''group'', ''include'', ''limit'',
       ''offset'', ''q'', ''search'', ''sort'', ''view'']\<rparr>"

definition default_words :: word_set where
  "default_words = load_words words_yml"

definition is_reserved_app :: "string \<Rightarrow> bool" where
  "is_reserved_app v = contains_word (ws_apps default_words) v"

definition is_reserved_slug :: "string \<Rightarrow> bool" where
  "is_reserved_slug v = contains_word (ws_slugs default_words) v"

definition is_reserved_field :: "string \<Rightarrow> bool" where
  "is_reserved_field v = contains_word (ws_fields default_words) v"

definition is_reserved_query :: "string \<Rightarrow> bool" where
  "is_reserved_query v = contains_word (ws_queries default_words) v"

lemma normalize_category_sorted: "sorted (normalize_category vs)"
  by (simp add: normalize_category_def)

lemma set_normalize_category:
  "set (normalize_category vs) = {w \<in> normalize_word ` set vs. w \<noteq> []}"
  by (auto simp: normalize_category_def)

text \<open>The binary search over a normalised category answers exactly whether the trimmed,
  lower-cased value is one of the trimmed, lower-cased words of the category.\<close>

theorem contains_word_iff:
  "contains_word (normalize_category vs) value \<longleftrightarrow>
     normalize_word value \<noteq> [] \<and> normalize_word value \<in> normalize_word ` set vs"
  using search_strings_member [OF normalize_category_sorted, of vs "normalize_word value"]
  by (auto simp: contains_word_def Let_def set_normalize_category)

lemma is_reserved_query_iff:
  "is_reserved_query v \<longleftrightarrow> normalize_word v \<noteq> [] \<and> normalize_word v \<in> normalize_word ` set (ws_queries words_yml)"
  using search_strings_member [OF normalize_category_sorted, of "ws_queries words_yml" "normalize_word v"]
  by (auto simp: is_reserved_query_def default_words_def load_words_def contains_word_def Let_def
      set_normalize_category)

end
