(* ===== verification/Names.thy ===== *)
theory Names
  imports Go_Strings
begin

text \<open>
  Metadata names and app-scoped references (\<^verbatim>\<open>internal/shape/shape.go\<close>,
  \<^verbatim>\<open>internal/entity/fieldtype/names.go\<close>), with the slash-separated path cleaning of
  Go's \<^verbatim>\<open>path\<close> package that the path conventions use.
  The regular expression \<^verbatim>\<open>^[a-z][a-z0-9]*(?:-[a-z0-9]+)*$\<close> is written as the
  automaton it denotes; \<open>is_name_grammar\<close> relates it to the grammar.
\<close>

section \<open>Kebab-case names\<close>

definition lower_letter :: "char \<Rightarrow> bool" where
  "lower_letter c \<longleftrightarrow> 97 \<le> byte c \<and> byte c \<le> 122"

definition lower_alnum :: "char \<Rightarrow> bool" where
  "lower_alnum c \<longleftrightarrow> lower_letter c \<or> is_digit c"

fun kebab_in :: "string \<Rightarrow> bool" and kebab_after_hyphen :: "string \<Rightarrow> bool" where
  "kebab_in [] = True"
| "kebab_in (c # cs) = (if lower_alnum c then kebab_in cs else c = CHR ''-'' \<and> kebab_after_hyphen cs)"
| "kebab_after_hyphen [] = False"
| "kebab_after_hyphen (c # cs) = (lower_alnum c \<and> kebab_in cs)"

fun is_name :: "string \<Rightarrow> bool" where
  "is_name [] = False"
| "is_name (c # cs) = (lower_letter c \<and> kebab_in cs)"

text \<open>The grammar: non-empty alphanumeric words separated by single hyphens, the first one
  starting with a letter.\<close>

definition kebab_words :: "string list \<Rightarrow> bool" where
  "kebab_words ws \<longleftrightarrow> ws \<noteq> [] \<and> list_all (\<lambda>w. w \<noteq> [] \<and> list_all lower_alnum w) ws
     \<and> lower_letter (hd (hd ws))"

lemma lower_alnum_hyphen [simp]: "\<not> lower_alnum (CHR ''-'')"
  by (simp add: lower_alnum_def lower_letter_def is_digit_def)

lemma lower_letter_alnum [simp]: "lower_letter c \<Longrightarrow> lower_alnum c"
  by (simp add: lower_alnum_def)

lemma kebab_in_split:
  "kebab_in s \<longleftrightarrow> (case split_on (CHR ''-'') s of [] \<Rightarrow> False
     | p # ps \<Rightarrow> list_all lower_alnum p \<and> list_all (\<lambda>w. w \<noteq> [] \<and> list_all lower_alnum w) ps)"
  "kebab_after_hyphen s \<longleftrightarrow>
     list_all (\<lambda>w. w \<noteq> [] \<and> list_all lower_alnum w) (split_on (CHR ''-'') s)"
proof (induction s rule: kebab_in_kebab_after_hyphen.induct)
  case 1
  then show ?case by simp
next
  case (2 c cs)
  obtain p ps where sp: "split_on (CHR ''-'') cs = p # ps"
    using split_on_nonempty by (metis list.exhaust)
  show ?case using 2 sp by (auto split: list.splits)
next
  case 3
  then show ?case by simp
next
  case (4 c cs)
  obtain p ps where sp: "split_on (CHR ''-'') cs = p # ps"
    using split_on_nonempty by (metis list.exhaust)
  show ?case using 4 sp by (cases "c = CHR ''-''") auto
qed

lemma is_name_words: "is_name s \<longleftrightarrow> kebab_words (split_on (CHR ''-'') s)"
proof (cases s)
  case Nil
  then show ?thesis by (simp add: kebab_words_def)
next
  case (Cons c cs)
  obtain p ps where sp: "split_on (CHR ''-'') cs = p # ps"
    using split_on_nonempty by (metis list.exhaust)
  show ?thesis
  proof (cases "c = CHR ''-''")
    case True
    then show ?thesis using Cons by (simp add: kebab_words_def lower_letter_def)
  next
    case False
    then show ?thesis using Cons sp kebab_in_split(1) [of cs] by (auto simp: kebab_words_def)
  qed
qed

lemma kebab_words_no_hyphen: "kebab_words ws \<Longrightarrow> w \<in> set ws \<Longrightarrow> CHR ''-'' \<notin> set w"
  by (auto simp: kebab_words_def list_all_iff dest!: bspec [where x = "CHR ''-''"])

text \<open>The name test accepts exactly the hyphen-joined lists of non-empty lower-case
  alphanumeric words whose first word starts with a letter.\<close>

theorem is_name_grammar: "is_name s \<longleftrightarrow> (\<exists>ws. kebab_words ws \<and> s = join ''-'' ws)"
proof
  assume "is_name s"
  then show "\<exists>ws. kebab_words ws \<and> s = join ''-'' ws"
    using is_name_words join_split_on [of "CHR ''-''" s] by (intro exI [of _ "split_on (CHR ''-'') s"]) auto
next
  assume "\<exists>ws. kebab_words ws \<and> s = join ''-'' ws"
  then obtain ws where ws: "kebab_words ws" "s = join ''-'' ws" by blast
  have "split_on (CHR ''-'') (join ''-'' ws) = ws"
    using ws(1) kebab_words_no_hyphen [OF ws(1)] by (intro split_on_join) (auto simp: kebab_words_def)
  then show "is_name s" using ws by (simp add: is_name_words)
qed

text \<open>Characters of a name.\<close>

definition name_char :: "char \<Rightarrow> bool" where
  "name_char c \<longleftrightarrow> lower_alnum c \<or> c = CHR ''-''"

lemma kebab_chars:
  "kebab_in s \<Longrightarrow> list_all name_char s"
  "kebab_after_hyphen s \<Longrightarrow> list_all name_char s"
  by (induction s rule: kebab_in_kebab_after_hyphen.induct)
    (auto simp: name_char_def split: if_splits)

lemma is_name_chars: "is_name s \<Longrightarrow> list_all name_char s"
  by (cases s) (auto dest: kebab_chars simp: name_char_def)

lemma is_name_nonempty: "is_name s \<Longrightarrow> s \<noteq> []"
  by auto

lemma name_char_graphic: "name_char c \<Longrightarrow> graphic c"
  by (auto simp: name_char_def lower_alnum_def lower_letter_def is_digit_def graphic_def)

lemma is_name_no_sep: "is_name s \<Longrightarrow> \<not> name_char c \<Longrightarrow> c \<notin> set s"
  using is_name_chars by (auto simp: list_all_iff)

lemma is_name_trim: "is_name s \<Longrightarrow> trim_space s = s"
  using is_name_chars [of s] is_name_nonempty [of s]
  by (intro trim_space_graphic) (auto simp: list_all_iff intro!: name_char_graphic)

lemma not_name_char [simp]:
  "\<not> name_char (CHR ''/'')" "\<not> name_char (CHR '':'')" "\<not> name_char (CHR ''.'')"
  "\<not> name_char (CHR 0x00)" "\<not> name_char (CHR ''{'')" "\<not> name_char (CHR ''}'')"
  by (simp_all add: name_char_def lower_alnum_def lower_letter_def is_digit_def)

section \<open>Composite keys\<close>

text \<open>
  Several components key a Go map by two names joined with a byte that no name contains
  (\<^verbatim>\<open>app + "\x00" + name\<close>, \<^verbatim>\<open>app + "/" + entity\<close>).  The contract is that
  validated identifiers never contain the separator; then the key determines the pair.
\<close>

locale identifier_pair =
  fixes valid :: "string \<Rightarrow> bool" and sep :: char
  assumes valid_no_sep: "valid s \<Longrightarrow> sep \<notin> set s"
    and valid_nonempty: "valid s \<Longrightarrow> s \<noteq> []"
begin

lemma pair_key_inj:
  assumes "valid a" "valid c" "a @ sep # b = c @ sep # d"
  shows "a = c \<and> b = d"
proof -
  have "Some (a, b) = cut (a @ sep # b) sep"
    by (rule cut_append [OF valid_no_sep [OF assms(1)], symmetric])
  also have "\<dots> = cut (c @ sep # d) sep" by (simp only: assms(3))
  also have "\<dots> = Some (c, d)" by (rule cut_append [OF valid_no_sep [OF assms(2)]])
  finally show ?thesis by simp
qed

lemma split_pair: "valid a \<Longrightarrow> valid b \<Longrightarrow> split_on sep (a @ sep # b) = [a, b]"
  by (simp add: split_on_append split_on_no_sep valid_no_sep)

end

interpretation slash_names: identifier_pair is_name "CHR ''/''"
  by unfold_locales (rule is_name_no_sep, simp_all add: is_name_nonempty)

interpretation nul_names: identifier_pair is_name "CHR 0x00"
  by unfold_locales (rule is_name_no_sep, simp_all add: is_name_nonempty)

section \<open>App references: \<^verbatim>\<open>shape.ParseAppRef\<close>, \<^verbatim>\<open>shape.ValidateMetadataName\<close>\<close>

record app_ref =
  ref_app :: string
  ref_name :: string

datatype shape_error =
    TargetShape string
  | AppNotKebab string
  | NameNotKebab string
  | NameRequired string
  | KindNotKebab string string

definition parse_app_ref :: "string \<Rightarrow> shape_error + app_ref" where
  "parse_app_ref value =
     (let v = trim_space value; parts = split_on (CHR ''/'') v in
      case parts of
        [a, n] \<Rightarrow>
          if a = [] \<or> n = [] then Inl (TargetShape v)
          else if \<not> is_name a then Inl (AppNotKebab a)
          else if \<not> is_name n then Inl (NameNotKebab n)
          else Inr \<lparr>ref_app = a, ref_name = n\<rparr>
      | _ \<Rightarrow> Inl (TargetShape v))"

definition validate_metadata_name :: "string \<Rightarrow> string \<Rightarrow> shape_error option" where
  "validate_metadata_name kind value =
     (let v = trim_space value in
      if v = [] then Some (NameRequired kind)
      else if \<not> is_name v then Some (KindNotKebab kind v)
      else None)"

definition show_app_ref :: "app_ref \<Rightarrow> string" where
  "show_app_ref r = ref_app r @ ''/'' @ ref_name r"

lemma parse_app_ref_Inr_iff:
  "parse_app_ref s = Inr r \<longleftrightarrow>
     trim_space s = show_app_ref r \<and> is_name (ref_app r) \<and> is_name (ref_name r)"
proof
  assume "parse_app_ref s = Inr r"
  then obtain a n where p: "split_on (CHR ''/'') (trim_space s) = [a, n]"
      "is_name a" "is_name n" "r = \<lparr>ref_app = a, ref_name = n\<rparr>"
    by (auto simp: parse_app_ref_def Let_def split: list.splits if_splits)
  have "trim_space s = join ''/'' [a, n]" using p(1) join_split_on [of "CHR ''/''" "trim_space s"] by simp
  then show "trim_space s = show_app_ref r \<and> is_name (ref_app r) \<and> is_name (ref_name r)"
    using p by (simp add: show_app_ref_def)
next
  assume "trim_space s = show_app_ref r \<and> is_name (ref_app r) \<and> is_name (ref_name r)"
  then show "parse_app_ref s = Inr r"
    using slash_names.split_pair [of "ref_app r" "ref_name r"]
    by (auto simp: parse_app_ref_def show_app_ref_def)
qed

text \<open>A reference parses exactly when, after trimming, it is \<^verbatim>\<open><app>/<name>\<close> with two
  valid names, and printing a parsed reference and parsing it again is the identity.\<close>

theorem parse_app_ref_roundtrip:
  "parse_app_ref s = Inr r \<Longrightarrow>
     trim_space s = show_app_ref r \<and> parse_app_ref (show_app_ref r) = Inr r"
  unfolding parse_app_ref_Inr_iff by (metis trim_space_idem)

theorem parse_app_ref_roundtrip_witness:
  "trim_space '' crm/send-mail '' = ''crm/send-mail'' \<and>
   parse_app_ref ''crm/send-mail'' = Inr \<lparr>ref_app = ''crm'', ref_name = ''send-mail''\<rparr>"
proof -
  have "parse_app_ref '' crm/send-mail '' = Inr \<lparr>ref_app = ''crm'', ref_name = ''send-mail''\<rparr>"
    by code_simp
  from parse_app_ref_roundtrip [OF this] show ?thesis by (simp add: show_app_ref_def)
qed

section \<open>Path cleaning\<close>

text \<open>Go's \<^verbatim>\<open>path.Clean\<close> on slash-separated paths, and \<^verbatim>\<open>filepath.Join\<close>.\<close>

fun clean_step :: "bool \<Rightarrow> string list \<Rightarrow> string \<Rightarrow> string list" where
  "clean_step rooted st seg =
     (if seg = [] \<or> seg = ''.'' then st
      else if seg = ''..'' then
        (case st of [] \<Rightarrow> (if rooted then [] else [''..''])
         | seg0 # rest \<Rightarrow> (if seg0 = ''..'' then ''..'' # st else rest))
      else seg # st)"

definition clean_stack :: "bool \<Rightarrow> string list \<Rightarrow> string list" where
  "clean_stack rooted segs = rev (foldl (clean_step rooted) [] segs)"

definition path_is_abs :: "string \<Rightarrow> bool" where
  "path_is_abs s \<longleftrightarrow> prefix ''/'' s"

definition path_clean :: "string \<Rightarrow> string" where
  "path_clean s =
     (if s = [] then ''.''
      else let body = join ''/'' (clean_stack (path_is_abs s) (split_on (CHR ''/'') s))
           in if path_is_abs s then ''/'' @ body else if body = [] then ''.'' else body)"

definition path_join :: "string list \<Rightarrow> string" where
  "path_join ps = (let qs = filter (\<lambda>p. p \<noteq> []) ps in
     if qs = [] then [] else path_clean (join ''/'' qs))"

text \<open>A plain component survives cleaning unchanged.\<close>

definition plain_comp :: "string \<Rightarrow> bool" where
  "plain_comp c \<longleftrightarrow> c \<noteq> [] \<and> c \<noteq> ''.'' \<and> c \<noteq> ''..'' \<and> CHR ''/'' \<notin> set c"

lemma foldl_clean_plain:
  "list_all plain_comp cs \<Longrightarrow> foldl (clean_step rooted) st cs = rev cs @ st"
  by (induction cs arbitrary: st) (auto simp: plain_comp_def)

lemma path_clean_plain:
  assumes "cs \<noteq> []" "list_all plain_comp cs"
  shows "path_clean (join ''/'' cs) = join ''/'' cs"
proof -
  have sp: "split_on (CHR ''/'') (join ''/'' cs) = cs"
    using assms by (intro split_on_join) (auto simp: list_all_iff plain_comp_def)
  have ne: "join ''/'' cs \<noteq> []"
    using assms by (cases cs rule: remdups_adj.cases) (auto simp: plain_comp_def)
  have "\<not> path_is_abs (join ''/'' cs)"
    using assms by (cases cs rule: remdups_adj.cases)
      (auto simp: path_is_abs_def plain_comp_def prefix_def append_eq_Cons_conv)
  then show ?thesis
    using sp ne assms(2) by (simp add: path_clean_def clean_stack_def foldl_clean_plain)
qed

lemma is_name_plain: "is_name s \<Longrightarrow> plain_comp s"
  using is_name_no_sep [of s "CHR ''/''"] is_name_chars [of s]
  by (auto simp: plain_comp_def)

end
