(* ===== verification/App_Manifest.thy ===== *)
theory App_Manifest
  imports Names
begin

text \<open>
  App manifests (\<^verbatim>\<open>internal/app/manifest/manifest.go\<close>): the document, its path
  defaults, the validation of one manifest and of a discovered set.  Reading and decoding the
  YAML file is not modelled; a manifest here is the decoded document.
\<close>

section \<open>The document\<close>

record paths =
  p_entities :: string
  p_patches :: string
  p_docs :: string
  p_assets :: string

record manifest =
  m_name :: string
  m_label :: string
  m_version :: string
  m_description :: string
  m_dependencies :: "string list"
  m_paths :: paths

record loaded_app =
  la_dir :: string
  la_manifest_path :: string
  la_manifest :: manifest

definition default_paths :: paths where
  "default_paths = \<lparr>p_entities = ''entities'', p_patches = ''patches'', p_docs = ''docs'',
     p_assets = ''assets''\<rparr>"

definition or_default :: "string \<Rightarrow> string \<Rightarrow> string" where
  "or_default v d = (if v = [] then d else v)"

definition with_defaults :: "paths \<Rightarrow> paths" where
  "with_defaults p = \<lparr>p_entities = or_default (p_entities p) (p_entities default_paths),
     p_patches = or_default (p_patches p) (p_patches default_paths),
     p_docs = or_default (p_docs p) (p_docs default_paths),
     p_assets = or_default (p_assets p) (p_assets default_paths)\<rparr>"

section \<open>Validation of one manifest\<close>

datatype path_problem =
    PathRequired | PathWhitespace | PathBackslash | PathAbsolute | PathNotClean | PathOutside

datatype manifest_problem =
    NameRequired
  | NameNotKebab string
  | LabelRequired
  | VersionRequired
  | VersionNotSemantic string
  | DependencyNotKebab string
  | DependsOnItself string
  | DuplicateDependency string
  | PathProblem string string path_problem

text \<open>The version pattern
  \<^verbatim>\<open>^[0-9]+\.[0-9]+\.[0-9]+(?:-[0-9A-Za-z.-]+)?(?:\+[0-9A-Za-z.-]+)?$\<close>: the tail class
  contains no \<open>+\<close>, so the match is deterministic.\<close>

definition version_tail_char :: "char \<Rightarrow> bool" where
  "version_tail_char c \<longleftrightarrow> is_digit c \<or> lower_letter c \<or> 65 \<le> byte c \<and> byte c \<le> 90
     \<or> c = CHR ''.'' \<or> c = CHR ''-''"

definition eat_digits :: "string \<Rightarrow> string option" where
  "eat_digits s = (if s \<noteq> [] \<and> is_digit (hd s) then Some (dropWhile is_digit s) else None)"

definition eat_char :: "char \<Rightarrow> string \<Rightarrow> string option" where
  "eat_char c s = (if s \<noteq> [] \<and> hd s = c then Some (tl s) else None)"

definition version_build :: "string \<Rightarrow> bool" where
  "version_build s \<longleftrightarrow> s = [] \<or>
     (case eat_char (CHR ''+'') s of None \<Rightarrow> False
      | Some t \<Rightarrow> t \<noteq> [] \<and> list_all version_tail_char t)"

definition version_tail :: "string \<Rightarrow> bool" where
  "version_tail s =
     (case eat_char (CHR ''-'') s of
        Some t \<Rightarrow> t \<noteq> [] \<and> version_tail_char (hd t) \<and> version_build (dropWhile version_tail_char t)
      | None \<Rightarrow> version_build s)"

definition is_version :: "string \<Rightarrow> bool" where
  "is_version s =
     (case Option.bind (Option.bind (Option.bind (Option.bind (eat_digits s) (eat_char (CHR ''.'')))
              eat_digits) (eat_char (CHR ''.''))) eat_digits of
        None \<Rightarrow> False | Some t \<Rightarrow> version_tail t)"

definition validate_path :: "string \<Rightarrow> string \<Rightarrow> manifest_problem list" where
  "validate_path name value =
     (if value = [] then [PathProblem name value PathRequired]
      else if trim_space value \<noteq> value then [PathProblem name value PathWhitespace]
      else if CHR 0x5C \<in> set value then [PathProblem name value PathBackslash]
      else if path_is_abs value then [PathProblem name value PathAbsolute]
      else let clean = path_clean value in
        if clean \<noteq> value then [PathProblem name value PathNotClean]
        else if clean = ''.'' \<or> clean = ''..'' \<or> has_prefix clean ''../''
          then [PathProblem name value PathOutside]
        else [])"

definition validate_paths :: "paths \<Rightarrow> manifest_problem list" where
  "validate_paths p = validate_path ''entities'' (p_entities p) @ validate_path ''patches'' (p_patches p)
     @ validate_path ''docs'' (p_docs p) @ validate_path ''assets'' (p_assets p)"

fun validate_dependencies :: "string \<Rightarrow> string list \<Rightarrow> string list \<Rightarrow> manifest_problem list" where
  "validate_dependencies name seen [] = []"
| "validate_dependencies name seen (d # ds) =
     (if \<not> is_name d then DependencyNotKebab d # validate_dependencies name seen ds
      else (if d = name then [DependsOnItself name] else [])
         @ (if d \<in> set seen then [DuplicateDependency d] else [])
         @ validate_dependencies name (d # seen) ds)"

definition validate_manifest :: "manifest \<Rightarrow> manifest_problem list" where
  "validate_manifest m =
     (if blank (m_name m) then [NameRequired]
      else if \<not> is_name (m_name m) then [NameNotKebab (m_name m)] else [])
     @ (if blank (m_label m) then [LabelRequired] else [])
     @ (if blank (m_version m) then [VersionRequired]
        else if \<not> is_version (m_version m) then [VersionNotSemantic (m_version m)] else [])
     @ validate_dependencies (m_name m) [] (m_dependencies m)
     @ validate_paths (with_defaults (m_paths m))"

lemma validate_dependencies_Nil_iff:
  "validate_dependencies name seen ds = [] \<longleftrightarrow>
     list_all is_name ds \<and> name \<notin> set ds \<and> distinct ds \<and> set ds \<inter> set seen = {}"
  by (induction name seen ds rule: validate_dependencies.induct) auto

section \<open>Paths stay inside the app\<close>

text \<open>The stack of \<open>clean_step\<close> for a relative path: leading \<^verbatim>\<open>..\<close> below plain
  components.\<close>

definition clean_shape :: "string list \<Rightarrow> bool" where
  "clean_shape st \<longleftrightarrow> (\<exists>ups ps. st = rev ps @ ups \<and> list_all plain_comp ps \<and> list_all (\<lambda>c. c = ''..'') ups)"

lemma clean_shape_Nil [simp]: "clean_shape []"
  unfolding clean_shape_def by (rule exI [of _ "[]"], rule exI [of _ "[]"]) simp

lemma clean_step_shape:
  assumes "clean_shape st" "CHR ''/'' \<notin> set seg"
  shows "clean_shape (clean_step False st seg)"
proof -
  obtain ups ps where st: "st = rev ps @ ups" and ps: "list_all plain_comp ps"
    and ups: "list_all (\<lambda>c. c = ''..'') ups"
    using assms(1) unfolding clean_shape_def by blast
  consider "seg = [] \<or> seg = ''.''" | "seg = ''..''" "ps = []" | q qs where "seg = ''..''" "ps = qs @ [q]"
    | "plain_comp seg"
    using assms(2) by (cases ps rule: rev_cases) (auto simp: plain_comp_def)
  then show ?thesis
  proof cases
    case 1
    then show ?thesis using assms(1) by auto
  next
    case 2
    then have "clean_step False st seg = rev [] @ (''..'' # ups)"
      using st ups by (cases ups) auto
    then show ?thesis using ups unfolding clean_shape_def
      by (intro exI [of _ "''..'' # ups"] exI [of _ "[]"]) auto
  next
    case 3
    then have "clean_step False st seg = rev qs @ ups"
      using st ps by (auto simp: plain_comp_def)
    then show ?thesis using ps ups 3(2) unfolding clean_shape_def
      by (intro exI [of _ ups] exI [of _ qs]) auto
  next
    case 4
    then have "clean_step False st seg = rev (ps @ [seg]) @ ups"
      using st by (auto simp: plain_comp_def)
    then show ?thesis using ps ups 4 unfolding clean_shape_def
      by (intro exI [of _ ups] exI [of _ "ps @ [seg]"]) auto
  qed
qed

lemma foldl_clean_shape:
  "clean_shape st \<Longrightarrow> (\<And>seg. seg \<in> set segs \<Longrightarrow> CHR ''/'' \<notin> set seg) \<Longrightarrow>
   clean_shape (foldl (clean_step False) st segs)"
proof (induction segs arbitrary: st)
  case Nil
  then show ?case by simp
next
  case (Cons seg segs)
  have "clean_shape (clean_step False st seg)" using Cons.prems by (intro clean_step_shape) auto
  then show ?case using Cons.IH Cons.prems(2) by simp
qed

lemma clean_relative:
  assumes "s \<noteq> []" "\<not> path_is_abs s" "path_clean s = s" "s \<noteq> ''.''" "s \<noteq> ''..''" "\<not> prefix ''../'' s"
  shows "list_all plain_comp (split_on (CHR ''/'') s)"
proof -
  let ?segs = "split_on (CHR ''/'') s"
  obtain ups ps where st: "foldl (clean_step False) [] ?segs = rev ps @ ups"
    and ps: "list_all plain_comp ps" and ups: "list_all (\<lambda>c. c = ''..'') ups"
    using foldl_clean_shape [OF clean_shape_Nil, of ?segs] split_on_parts [of _ "CHR ''/''" s]
    unfolding clean_shape_def by blast
  have stack: "clean_stack False ?segs = rev ups @ ps"
    using st by (simp add: clean_stack_def)
  have body: "s = join ''/'' (rev ups @ ps)" "rev ups @ ps \<noteq> []"
    using assms stack by (auto simp: path_clean_def Let_def split: if_splits)
  have "ups = []"
  proof (rule ccontr)
    assume "ups \<noteq> []"
    then obtain us where us: "rev ups = ''..'' # us"
      using ups by (cases ups rule: rev_cases) auto
    show False
      using body(1) us assms(5,6) by (cases "us @ ps") auto
  qed
  then have "s = join ''/'' ps" "ps \<noteq> []" using body by auto
  moreover have "split_on (CHR ''/'') (join ''/'' ps) = ps"
    using ps \<open>ps \<noteq> []\<close> by (intro split_on_join) (auto simp: list_all_iff plain_comp_def)
  ultimately show ?thesis using ps by simp
qed

text \<open>C1: a path that passes validation is a relative path whose components are all proper
  file names: none is empty, \<^verbatim>\<open>.\<close> or \<^verbatim>\<open>..\<close>, so it cannot leave the app directory.\<close>

theorem validate_path_inside:
  "validate_path name p = [] \<Longrightarrow>
     \<not> path_is_abs p \<and> list_all plain_comp (split_on (CHR ''/'') p)"
  using clean_relative [of p]
  by (auto simp: validate_path_def Let_def split: if_splits)

theorem validate_path_inside_witness:
  "\<not> path_is_abs ''assets/public'' \<and> list_all plain_comp (split_on (CHR ''/'') ''assets/public'')"
proof -
  have "validate_path ''assets'' ''assets/public'' = []" by code_simp
  from validate_path_inside [OF this] show ?thesis .
qed

section \<open>Validation of a set of apps\<close>

datatype set_problem =
    ManifestInvalid string "manifest_problem list"
  | DuplicateApp string string string
  | UnknownDependency string string

fun validate_set_apps :: "(string \<times> string) list \<Rightarrow> loaded_app list \<Rightarrow> set_problem list \<times> (string \<times> string) list" where
  "validate_set_apps seen [] = ([], seen)"
| "validate_set_apps seen (a # as) =
     (let ps = validate_manifest (la_manifest a);
          here = (if ps \<noteq> [] then [ManifestInvalid (la_manifest_path a) ps] else []);
          name = m_name (la_manifest a)
      in if name = [] then (let (qs, seen') = validate_set_apps seen as in (here @ qs, seen'))
         else case map_of seen name of
           Some previous \<Rightarrow>
             (let (qs, seen') = validate_set_apps seen as
              in (here @ DuplicateApp name previous (la_manifest_path a) # qs, seen'))
         | None \<Rightarrow>
             (let (qs, seen') = validate_set_apps ((name, la_manifest_path a) # seen) as
              in (here @ qs, seen')))"

definition validate_set :: "loaded_app list \<Rightarrow> set_problem list" where
  "validate_set apps =
     (let (ps, seen) = validate_set_apps [] apps
      in ps @ concat (map (\<lambda>a. map (UnknownDependency (m_name (la_manifest a)))
           (filter (\<lambda>d. map_of seen d = None) (m_dependencies (la_manifest a)))) apps))"

abbreviation app_name :: "loaded_app \<Rightarrow> string" where
  "app_name a \<equiv> m_name (la_manifest a)"

abbreviation app_deps :: "loaded_app \<Rightarrow> string list" where
  "app_deps a \<equiv> m_dependencies (la_manifest a)"

lemma validate_manifest_name: "validate_manifest m = [] \<Longrightarrow> is_name (m_name m)"
  by (auto simp: validate_manifest_def split: if_splits)

lemma validate_set_apps_Nil:
  "validate_set_apps seen apps = ([], seen') \<Longrightarrow>
     (\<forall>a\<in>set apps. validate_manifest (la_manifest a) = []) \<and> distinct (map app_name apps)
     \<and> app_name ` set apps \<inter> fst ` set seen = {}
     \<and> fst ` set seen' = app_name ` set apps \<union> fst ` set seen"
proof (induction apps arbitrary: seen)
  case Nil
  then show ?case by simp
next
  case (Cons a as)
  have ok: "validate_manifest (la_manifest a) = []"
    using Cons.prems by (auto simp: Let_def split: if_splits prod.splits option.splits)
  then have ne: "app_name a \<noteq> []" using validate_manifest_name is_name_nonempty by blast
  have new: "map_of seen (app_name a) = None"
    using Cons.prems ok ne by (auto simp: Let_def split: if_splits prod.splits option.splits)
  have rec: "validate_set_apps ((app_name a, la_manifest_path a) # seen) as = ([], seen')"
    using Cons.prems ok ne new by (auto simp: Let_def split: prod.splits)
  show ?case using Cons.IH [OF rec] ok new by (auto simp: map_of_eq_None_iff)
qed

lemma validate_set_Nil:
  assumes "validate_set apps = []"
  shows "distinct (map app_name apps)"
    and "\<And>a. a \<in> set apps \<Longrightarrow> validate_manifest (la_manifest a) = []"
    and "\<And>a. a \<in> set apps \<Longrightarrow> set (app_deps a) \<subseteq> app_name ` set apps"
proof -
  obtain seen where seen: "validate_set_apps [] apps = ([], seen)"
    using assms by (auto simp: validate_set_def Let_def split: prod.splits)
  note * = validate_set_apps_Nil [OF seen]
  show "distinct (map app_name apps)" using * by simp
  show "validate_manifest (la_manifest a) = []" if "a \<in> set apps" for a using * that by simp
  show "set (app_deps a) \<subseteq> app_name ` set apps" if "a \<in> set apps" for a
  proof
    fix d assume "d \<in> set (app_deps a)"
    then have "map_of seen d \<noteq> None"
      using assms seen that by (auto simp: validate_set_def filter_empty_conv)
    then show "d \<in> app_name ` set apps" using * by (simp add: map_of_eq_None_iff)
  qed
qed

end
