(* ===== verification/App_Order.thy ===== *)
theory App_Order
  imports App_Manifest "HOL-Library.Multiset"
begin

text \<open>
  The dependency order of apps (\<^verbatim>\<open>internal/app/registry/order.go\<close>): a duplicate and
  unknown-dependency check, in-degrees and reverse edges, and a work list that is kept sorted.
  Go's map of in-degrees is an association list over the app names; the reverse edges are a
  total function whose default is the nil slice.
\<close>

section \<open>The code\<close>

datatype order_error =
    AppNameRequired
  | OrderDuplicate string string string
  | OrderUnknown string string
  | OrderCycle "string list"

type_synonym degrees = "(string \<times> int) list"

definition deg :: "degrees \<Rightarrow> string \<Rightarrow> int" where
  "deg ds n = (case map_of ds n of None \<Rightarrow> 0 | Some d \<Rightarrow> d)"

definition add_deg :: "degrees \<Rightarrow> string \<Rightarrow> int \<Rightarrow> degrees" where
  "add_deg ds n k =
     (if n \<in> fst ` set ds then map (\<lambda>(m, d). (m, if m = n then d + k else d)) ds else (n, k) # ds)"

fun index_apps :: "(string \<times> loaded_app) list \<Rightarrow> loaded_app list \<Rightarrow> order_error + (string \<times> loaded_app) list" where
  "index_apps seen [] = Inr seen"
| "index_apps seen (a # as) =
     (if blank (app_name a) then Inl AppNameRequired
      else case map_of seen (app_name a) of
        Some p \<Rightarrow> Inl (OrderDuplicate (app_name a) (la_manifest_path p) (la_manifest_path a))
      | None \<Rightarrow> index_apps ((app_name a, a) # seen) as)"

record dep_graph =
  g_indegree :: degrees
  g_dependents :: "string \<Rightarrow> string list"

fun add_dependencies :: "string list \<Rightarrow> string \<Rightarrow> string list \<Rightarrow> dep_graph \<Rightarrow> string list \<Rightarrow> order_error + dep_graph" where
  "add_dependencies names name seen g [] = Inr g"
| "add_dependencies names name seen g (d # ds) =
     (if d \<notin> set names then Inl (OrderUnknown name d)
      else if d \<in> set seen then add_dependencies names name seen g ds
      else add_dependencies names name (d # seen)
        (g\<lparr>g_indegree := add_deg (g_indegree g) name 1,
           g_dependents := (g_dependents g)(d := g_dependents g d @ [name])\<rparr>) ds)"

fun build_graph :: "string list \<Rightarrow> dep_graph \<Rightarrow> loaded_app list \<Rightarrow> order_error + dep_graph" where
  "build_graph names g [] = Inr g"
| "build_graph names g (a # as) =
     (case add_dependencies names (app_name a) [] g (app_deps a) of
        Inl e \<Rightarrow> Inl e | Inr g' \<Rightarrow> build_graph names g' as)"

fun relax :: "degrees \<Rightarrow> string list \<Rightarrow> degrees \<times> string list" where
  "relax ds [] = (ds, [])"
| "relax ds (n # ns) =
     (let ds1 = add_deg ds n (- 1); (ds2, out) = relax ds1 ns
      in (ds2, if deg ds1 n = 0 then n # out else out))"

definition positives :: "degrees \<Rightarrow> nat" where
  "positives ds = length (filter (\<lambda>(n, d). 0 < d) ds)"

lemma keys_add_deg: "fst ` set (add_deg ds n k) = insert n (fst ` set ds)"
  by (auto simp: add_deg_def image_iff split: if_splits) force+

lemma map_fst_add_deg: "n \<in> fst ` set ds \<Longrightarrow> map fst (add_deg ds n k) = map fst ds"
  by (auto simp: add_deg_def)

lemma deg_add_deg: "deg (add_deg ds n k) m = (if m = n then deg ds n + k else deg ds m)"
proof (cases "n \<in> fst ` set ds")
  case True
  have "map_of (map (\<lambda>(m, d). (m, if m = n then d + k else d)) xs) m =
      map_option (\<lambda>d. if m = n then d + k else d) (map_of xs m)" for xs m
    by (induction xs) auto
  then have m: "map_of (add_deg ds n k) m = map_option (\<lambda>d. if m = n then d + k else d) (map_of ds m)"
    using True by (simp add: add_deg_def)
  obtain d where "map_of ds n = Some d" using True by (metis map_of_eq_None_iff not_None_eq)
  with m show ?thesis by (cases "map_of ds m") (auto simp: deg_def)
next
  case False
  then have "map_of ds n = None" by (simp add: map_of_eq_None_iff)
  with False show ?thesis by (auto simp: deg_def add_deg_def)
qed

lemma positives_dec:
  "positives (add_deg ds n (- 1)) + (if deg (add_deg ds n (- 1)) n = 0 then 1 else 0) \<le> positives ds"
proof (cases "n \<in> fst ` set ds")
  case False
  then show ?thesis by (simp add: deg_add_deg positives_def add_deg_def deg_def map_of_eq_None_iff)
next
  case True
  have mono: "positives (map (\<lambda>(m, d). (m, if m = n then d + - 1 else d)) xs) \<le> positives xs" for xs
    by (induction xs) (auto simp: positives_def split: if_splits)
  have "positives (map (\<lambda>(m, d). (m, if m = n then d + - 1 else d)) xs) + (if deg xs n = 1 then 1 else 0)
      \<le> positives xs" for xs
  proof (induction xs)
    case Nil
    then show ?case by (simp add: positives_def deg_def)
  next
    case (Cons x xs)
    then show ?case using mono [of xs]
      by (cases x) (auto simp: positives_def deg_def split: if_splits)
  qed
  from this [of ds] show ?thesis using True deg_add_deg [of ds n "- 1" n]
    by (auto simp: add_deg_def)
qed

lemma relax_measure: "relax ds ns = (ds', out) \<Longrightarrow> positives ds' + length out \<le> positives ds"
proof (induction ds ns arbitrary: ds' out rule: relax.induct)
  case (1 ds)
  then show ?case by simp
next
  case (2 ds n ns)
  obtain ds2 out2 where r: "relax (add_deg ds n (- 1)) ns = (ds2, out2)" by fastforce
  have "positives ds2 + length out2 \<le> positives (add_deg ds n (- 1))"
    using "2.IH" r by simp
  moreover have "ds' = ds2" "length out = length out2 + (if deg (add_deg ds n (- 1)) n = 0 then 1 else 0)"
    using "2.prems" r by (auto simp: Let_def split: if_splits)
  ultimately show ?case using positives_dec [of ds n] by (auto split: if_splits)
qed

function kahn :: "(string \<Rightarrow> string list) \<Rightarrow> string list \<Rightarrow> degrees \<Rightarrow> string list \<times> degrees" where
  "kahn dep [] ds = ([], ds)"
| "kahn dep (n # ready) ds =
     (let (ds', out) = relax ds (dep n); (ord, dsF) = kahn dep (sort (ready @ out)) ds'
      in (n # ord, dsF))"
  by pat_completeness auto
termination
proof (relation "measure (\<lambda>(dep, ready, ds). length ready + positives ds)", simp)
  fix dep :: "string \<Rightarrow> string list" and n :: string and ready :: "string list"
    and ds ds' :: degrees and p out
  assume "p = relax ds (dep n)" "(ds', out) = p"
  then have "positives ds' + length out \<le> positives ds"
    using relax_measure by metis
  then show "((dep, sort (ready @ out), ds'), dep, n # ready, ds)
      \<in> measure (\<lambda>(dep, ready, ds). length ready + positives ds)" by simp
qed

definition dependency_order :: "loaded_app list \<Rightarrow> order_error + loaded_app list" where
  "dependency_order apps =
     (case index_apps [] apps of Inl e \<Rightarrow> Inl e
      | Inr by_name \<Rightarrow>
        let names = map app_name apps;
            g0 = \<lparr>g_indegree = map (\<lambda>n. (n, 0)) names, g_dependents = (\<lambda>_. [])\<rparr>
        in case build_graph names g0 apps of Inl e \<Rightarrow> Inl e
           | Inr g \<Rightarrow>
             let dependents = (\<lambda>d. sort (g_dependents g d));
                 ready = sort (map fst (filter (\<lambda>(n, d). d = 0) (g_indegree g)));
                 (ord, dsF) = kahn dependents ready (g_indegree g);
                 ordered = List.map_filter (map_of by_name) ord
             in if length ordered \<noteq> length apps
                then Inl (OrderCycle (sort (map fst (filter (\<lambda>(n, d). 0 < d) dsF))))
                else Inr ordered)"

section \<open>The work list on an abstract graph\<close>

text \<open>
  The abstract data: a finite list of names without duplicates and, for each, the set of names it
  depends on.  The invariant of the work list says that the in-degree of a name is the number
  of its unprocessed dependencies.
\<close>

locale dependency_graph =
  fixes names :: "string list" and deps :: "string \<Rightarrow> string set" and dep :: "string \<Rightarrow> string list"
  assumes names_distinct: "distinct names"
    and deps_closed: "n \<in> set names \<Longrightarrow> deps n \<subseteq> set names"
    and dep_distinct: "distinct (dep d)"
    and dep_set: "set (dep d) = {n \<in> set names. d \<in> deps n}"
begin

definition work_inv :: "string set \<Rightarrow> string list \<Rightarrow> degrees \<Rightarrow> bool" where
  "work_inv proc ready ds \<longleftrightarrow>
     map fst ds = names \<and> proc \<subseteq> set names \<and> (\<forall>m\<in>proc. deps m \<subseteq> proc)
     \<and> (\<forall>n\<in>set names. deg ds n = int (card (deps n - proc)))
     \<and> distinct ready \<and> set ready = {n \<in> set names. n \<notin> proc \<and> deps n \<subseteq> proc}"

lemma finite_deps: "n \<in> set names \<Longrightarrow> finite (deps n)"
  using deps_closed finite_subset by blast

lemma relax_spec:
  assumes "distinct ns" "set ns \<subseteq> fst ` set ds" "relax ds ns = (ds', out)"
  shows "map fst ds' = map fst ds \<and> (\<forall>m. deg ds' m = deg ds m - (if m \<in> set ns then 1 else 0))
     \<and> out = filter (\<lambda>m. deg ds m = 1) ns"
  using assms
proof (induction ns arbitrary: ds out)
  case Nil
  then show ?case by simp
next
  case (Cons n ns)
  let ?ds1 = "add_deg ds n (- 1)"
  obtain out2 where r: "relax ?ds1 ns = (ds', out2)"
    and out: "out = (if deg ?ds1 n = 0 then n # out2 else out2)"
    using Cons.prems(3) by (auto simp: Let_def split: prod.splits)
  have keys: "map fst ?ds1 = map fst ds" using Cons.prems(2) by (intro map_fst_add_deg) auto
  then have "fst ` set ?ds1 = fst ` set ds" by (metis set_map)
  then have IH: "map fst ds' = map fst ?ds1 \<and>
      (\<forall>m. deg ds' m = deg ?ds1 m - (if m \<in> set ns then 1 else 0)) \<and>
      out2 = filter (\<lambda>m. deg ?ds1 m = 1) ns"
    using Cons.IH [OF _ _ r] Cons.prems by auto
  have "out2 = filter (\<lambda>m. deg ds m = 1) ns"
    using IH Cons.prems(1) by (auto simp: deg_add_deg intro!: filter_cong)
  then show ?case using IH keys out Cons.prems(1) by (auto simp: deg_add_deg)
qed

lemma work_inv_step:
  assumes inv: "work_inv proc (n # ready) ds" and r: "relax ds (dep n) = (ds', out)"
  shows "work_inv (insert n proc) (sort (ready @ out)) ds'"
proof -
  have keys: "map fst ds = names" and sub: "proc \<subseteq> set names"
    and closed: "\<And>m. m \<in> proc \<Longrightarrow> deps m \<subseteq> proc"
    and dg: "\<And>m. m \<in> set names \<Longrightarrow> deg ds m = int (card (deps m - proc))"
    and dist: "distinct (n # ready)"
    and rdy: "set (n # ready) = {m \<in> set names. m \<notin> proc \<and> deps m \<subseteq> proc}"
    using inv unfolding work_inv_def by auto
  have n: "n \<in> set names" "n \<notin> proc" "deps n \<subseteq> proc" using rdy by auto
  have "set (dep n) \<subseteq> fst ` set ds" using dep_set keys by (metis (no_types, lifting) mem_Collect_eq set_map subsetI)
  note rs = relax_spec [OF dep_distinct this r]
  have dg': "deg ds' m = int (card (deps m - insert n proc))" if m: "m \<in> set names" for m
  proof (cases "n \<in> deps m")
    case True
    have "deps m - insert n proc = (deps m - proc) - {n}" by blast
    then have "card (deps m - insert n proc) = card (deps m - proc) - 1"
      using n(2) True by simp
    moreover have "0 < card (deps m - proc)"
      using True n(2) finite_deps [OF m] by (auto simp: card_gt_0_iff)
    ultimately show ?thesis using rs True m dg [OF m] by (auto simp: dep_set)
  next
    case False
    then have "deps m - insert n proc = deps m - proc" by blast
    then show ?thesis using rs False dg [OF m] by (auto simp: dep_set)
  qed
  have out: "set out = {m \<in> set names. n \<in> deps m \<and> deps m \<subseteq> insert n proc}"
  proof -
    have "deg ds m = 1 \<longleftrightarrow> deps m \<subseteq> insert n proc" if "m \<in> set names" "n \<in> deps m" for m
    proof -
      have nin: "n \<in> deps m - proc" using that(2) n(2) by simp
      have "deg ds m = 1 \<longleftrightarrow> card (deps m - proc) = 1" using dg [OF that(1)] by linarith
      also have "\<dots> \<longleftrightarrow> deps m - proc = {n}"
      proof
        assume "card (deps m - proc) = 1"
        then obtain x where x: "deps m - proc = {x}" by (rule card_1_singletonE)
        have "n = x" using nin unfolding x by (rule singletonD)
        with x show "deps m - proc = {n}" by (simp only:)
      qed simp
      also have "\<dots> \<longleftrightarrow> deps m \<subseteq> insert n proc" using that n(2) by auto
      finally show ?thesis .
    qed
    then show ?thesis using rs by (auto simp: dep_set)
  qed
  have nn: "n \<notin> deps m" if "m \<in> set ready" for m
    using that rdy n(2) by auto
  have outdist: "distinct out" using rs dep_distinct by simp
  have disj: "set ready \<inter> set out = {}" using nn out by auto
  have "n \<notin> deps n" using n by auto
  have eq: "set (ready @ out) = {m \<in> set names. m \<notin> insert n proc \<and> deps m \<subseteq> insert n proc}"
  proof (rule set_eqI)
    fix m
    have "m \<in> set ready \<longleftrightarrow> m \<in> set names \<and> m \<notin> insert n proc \<and> deps m \<subseteq> proc"
      using rdy dist by auto
    moreover have "m \<notin> proc" if "m \<in> set names" "n \<in> deps m" for m
      using closed [of m] that n(2) by blast
    ultimately show "m \<in> set (ready @ out) \<longleftrightarrow>
        m \<in> {m \<in> set names. m \<notin> insert n proc \<and> deps m \<subseteq> insert n proc}"
      using out \<open>n \<notin> deps n\<close> by auto
  qed
  have closed': "\<forall>m\<in>insert n proc. deps m \<subseteq> insert n proc" using closed n(3) by blast
  have keys': "map fst ds' = names" using rs keys by simp
  have sub': "insert n proc \<subseteq> set names" using sub n(1) by simp
  have dist': "distinct (sort (ready @ out))" using outdist disj dist by simp
  show ?thesis unfolding work_inv_def
    using keys' sub' closed' dg' dist' eq by simp
qed

lemma kahn_spec:
  "work_inv proc ready ds \<Longrightarrow> kahn dep ready ds = (ord, dsF) \<Longrightarrow>
     distinct ord \<and> set ord \<inter> proc = {} \<and> work_inv (proc \<union> set ord) [] dsF
     \<and> (\<forall>i < length ord. deps (ord ! i) \<subseteq> proc \<union> set (take i ord))"
proof (induction "length ready + positives ds" arbitrary: proc ready ds ord dsF rule: less_induct)
  case less
  show ?case
  proof (cases ready)
    case Nil
    then show ?thesis using less.prems by simp
  next
    case (Cons n rest)
    obtain ds' out where r: "relax ds (dep n) = (ds', out)" by fastforce
    obtain ord1 where k: "kahn dep (sort (rest @ out)) ds' = (ord1, dsF)" and ord: "ord = n # ord1"
      using less.prems(2) r Cons by (auto split: prod.splits)
    have inv: "work_inv proc (n # rest) ds" using less.prems(1) Cons by simp
    have inv': "work_inv (insert n proc) (sort (rest @ out)) ds'" by (rule work_inv_step [OF inv r])
    have n: "n \<notin> proc" "deps n \<subseteq> proc" using inv by (auto simp: work_inv_def)
    have IH: "distinct ord1 \<and> set ord1 \<inter> insert n proc = {} \<and>
        work_inv (insert n proc \<union> set ord1) [] dsF \<and>
        (\<forall>i < length ord1. deps (ord1 ! i) \<subseteq> insert n proc \<union> set (take i ord1))"
      using less.hyps [OF _ inv' k] relax_measure [OF r] Cons by simp
    have before: "deps (ord ! i) \<subseteq> proc \<union> set (take i ord)" if i: "i < length ord" for i
    proof (cases i)
      case 0
      then show ?thesis using ord n(2) by simp
    next
      case (Suc j)
      then have "j < length ord1" using i ord by simp
      then have "deps (ord1 ! j) \<subseteq> insert n proc \<union> set (take j ord1)" using IH by blast
      then show ?thesis using Suc ord by simp
    qed
    have "proc \<union> set ord = insert n proc \<union> set ord1" using ord by simp
    then have "work_inv (proc \<union> set ord) [] dsF" using IH by metis
    moreover have "distinct ord" "set ord \<inter> proc = {}" using IH ord n(1) by auto
    ultimately show ?thesis using before by blast
  qed
qed

text \<open>Everything is ordered, or what is left is a set of names each of which depends on another
  of them.\<close>

lemma work_inv_stuck:
  assumes "work_inv proc [] ds" "n \<in> set names - proc"
  shows "\<exists>d \<in> set names - proc. d \<in> deps n"
proof (rule ccontr)
  assume "\<not> ?thesis"
  then have "deps n \<subseteq> proc" using deps_closed [of n] assms(2) by blast
  then have "n \<in> set []" using assms unfolding work_inv_def by blast
  then show False by simp
qed

definition dep_rel :: "(string \<times> string) set" where
  "dep_rel = {(d, n). n \<in> set names \<and> d \<in> deps n}"

lemma finite_dep_rel: "finite dep_rel"
proof (rule finite_subset)
  show "dep_rel \<subseteq> set names \<times> set names" using deps_closed by (auto simp: dep_rel_def)
qed simp

lemma work_inv_complete:
  assumes "work_inv proc [] ds" "acyclic dep_rel"
  shows "proc = set names"
proof (rule ccontr)
  assume "proc \<noteq> set names"
  then have "set names - proc \<noteq> {}" using assms(1) by (auto simp: work_inv_def)
  moreover have "wf dep_rel" using finite_dep_rel assms(2) by (rule finite_acyclic_wf)
  ultimately obtain z where z: "z \<in> set names - proc"
      "\<And>y. (y, z) \<in> dep_rel \<Longrightarrow> y \<notin> set names - proc"
    using wf_eq_minimal by (metis all_not_in_conv)
  then show False using work_inv_stuck [OF assms(1) z(1)] by (auto simp: dep_rel_def)
qed

lemma topological_acyclic:
  assumes "distinct ord" "set ord = set names" "\<forall>i < length ord. deps (ord ! i) \<subseteq> set (take i ord)"
  shows "acyclic dep_rel"
proof -
  define pos where "pos n = (LEAST i. i < length ord \<and> ord ! i = n)" for n
  have pos: "pos (ord ! i) = i" if "i < length ord" for i
    unfolding pos_def using assms(1) that by (intro Least_equality) (auto simp: nth_eq_iff_index_eq)
  have "dep_rel \<subseteq> measure pos"
  proof
    fix e assume "e \<in> dep_rel"
    then obtain d n where e: "e = (d, n)" "n \<in> set ord" "d \<in> deps n"
      using assms(2) by (auto simp: dep_rel_def)
    then obtain i where i: "i < length ord" "ord ! i = n" by (auto simp: in_set_conv_nth)
    then have "d \<in> set (take i ord)" using assms(3) e(3) by auto
    then obtain j where "j < i" "ord ! j = d" "j < length ord"
      using i(1) by (auto simp: in_set_conv_nth)
    then show "e \<in> measure pos" using pos i e(1) by auto
  qed
  then show ?thesis using wf_acyclic wf_measure wf_subset by blast
qed

end

section \<open>The apps as a dependency graph\<close>

definition node_names :: "loaded_app list \<Rightarrow> string list" where
  "node_names apps = dedup (map app_name apps)"

definition deps_of :: "loaded_app list \<Rightarrow> string \<Rightarrow> string set" where
  "deps_of apps n = \<Union> ((set \<circ> app_deps) ` {a \<in> set apps. app_name a = n}) \<inter> set (node_names apps)"

definition dependents_of :: "loaded_app list \<Rightarrow> string \<Rightarrow> string list" where
  "dependents_of apps d = sort (filter (\<lambda>n. d \<in> deps_of apps n) (node_names apps))"

interpretation app_graph: dependency_graph "node_names apps" "deps_of apps" "dependents_of apps"
  for apps
  by unfold_locales (auto simp: node_names_def deps_of_def dependents_of_def)

lemma index_apps_Inr:
  "index_apps seen apps = Inr m \<Longrightarrow>
     distinct (map app_name apps) \<and> (\<forall>a\<in>set apps. \<not> blank (app_name a))
     \<and> app_name ` set apps \<inter> fst ` set seen = {}
     \<and> map_of m = map_of seen ++ map_of (map (\<lambda>a. (app_name a, a)) apps)"
proof (induction seen apps rule: index_apps.induct)
  case (1 seen)
  then show ?case by simp
next
  case (2 seen a as)
  have new: "\<not> blank (app_name a)" "map_of seen (app_name a) = None"
    using "2.prems" by (auto split: if_splits option.splits)
  then have rec: "index_apps ((app_name a, a) # seen) as = Inr m" using "2.prems" by simp
  note IH = "2.IH" [OF new rec]
  have fresh: "app_name a \<notin> app_name ` set as" using IH by auto
  have "map_of m x = (map_of seen ++ map_of (map (\<lambda>a. (app_name a, a)) (a # as))) x" for x
  proof -
    have "map_of (map (\<lambda>a. (app_name a, a)) as) (app_name a) = None"
      using fresh by (force simp: map_of_eq_None_iff)
    then show ?thesis using IH by (auto simp: map_add_def split: option.splits)
  qed
  then have "map_of m = map_of seen ++ map_of (map (\<lambda>a. (app_name a, a)) (a # as))" by (rule ext)
  moreover have "distinct (map app_name (a # as))" "\<forall>b\<in>set (a # as). \<not> blank (app_name b)"
    "app_name ` set (a # as) \<inter> fst ` set seen = {}"
    using IH new fresh by (auto simp: map_of_eq_None_iff)
  ultimately show ?case by (intro conjI)
qed

lemma index_apps_ok:
  "distinct (map app_name apps) \<Longrightarrow> (\<forall>a\<in>set apps. \<not> blank (app_name a)) \<Longrightarrow>
   app_name ` set apps \<inter> fst ` set seen = {} \<Longrightarrow> \<exists>m. index_apps seen apps = Inr m"
proof (induction seen apps rule: index_apps.induct)
  case (1 seen)
  then show ?case by simp
next
  case (2 seen a as)
  have "map_of seen (app_name a) = None" using "2.prems"(3) by (simp add: map_of_eq_None_iff)
  then show ?case using 2 by auto
qed

lemma add_dependencies_Inr:
  "add_dependencies names n seen g ds = Inr g' \<Longrightarrow> n \<in> fst ` set (g_indegree g) \<Longrightarrow>
     set ds \<subseteq> set names
     \<and> map fst (g_indegree g') = map fst (g_indegree g)
     \<and> (\<forall>m. deg (g_indegree g') m = deg (g_indegree g) m + (if m = n then int (card (set ds - set seen)) else 0))
     \<and> (\<forall>d. g_dependents g' d = g_dependents g d @ (if d \<in> set ds - set seen then [n] else []))"
proof (induction names n seen g ds rule: add_dependencies.induct)
  case (1 names name seen g)
  then show ?case by simp
next
  case (2 names name seen g d ds)
  have known: "d \<in> set names" using "2.prems"(1) by (auto split: if_splits)
  show ?case
  proof (cases "d \<in> set seen")
    case True
    have "add_dependencies names name seen g ds = Inr g'" using "2.prems"(1) known True by simp
    moreover have "set (d # ds) - set seen = set ds - set seen" using True by auto
    ultimately show ?thesis using "2.IH"(1) [OF _ True _ "2.prems"(2)] known by simp
  next
    case False
    let ?g = "g\<lparr>g_indegree := add_deg (g_indegree g) name 1,
           g_dependents := (g_dependents g)(d := g_dependents g d @ [name])\<rparr>"
    have rec: "add_dependencies names name (d # seen) ?g ds = Inr g'"
      using "2.prems"(1) known False by simp
    have keys: "map fst (g_indegree ?g) = map fst (g_indegree g)"
      using map_fst_add_deg [OF "2.prems"(2)] by simp
    have "name \<in> fst ` set (g_indegree ?g)" by (simp add: keys_add_deg)
    note IH = "2.IH"(2) [OF _ False rec this]
    have "set (d # ds) - set seen = insert d (set ds - set (d # seen))" using False by auto
    then have "card (set (d # ds) - set seen) = Suc (card (set ds - set (d # seen)))" by simp
    then show ?thesis using IH known keys False by (auto simp: deg_add_deg)
  qed
qed

lemma build_graph_Inr:
  "build_graph names g apps = Inr g' \<Longrightarrow> app_name ` set apps \<subseteq> fst ` set (g_indegree g) \<Longrightarrow>
   distinct (map app_name apps) \<Longrightarrow>
     (\<forall>a\<in>set apps. set (app_deps a) \<subseteq> set names)
     \<and> map fst (g_indegree g') = map fst (g_indegree g)
     \<and> (\<forall>m. deg (g_indegree g') m = deg (g_indegree g) m
          + (\<Sum>a\<leftarrow>apps. if app_name a = m then int (card (set (app_deps a))) else 0))
     \<and> (\<forall>d. g_dependents g' d = g_dependents g d @ map app_name (filter (\<lambda>a. d \<in> set (app_deps a)) apps))"
proof (induction names g apps rule: build_graph.induct)
  case (1 names g)
  then show ?case by simp
next
  case (2 names g a as)
  obtain g1 where g1: "add_dependencies names (app_name a) [] g (app_deps a) = Inr g1"
    "build_graph names g1 as = Inr g'"
    using "2.prems"(1) by (auto split: sum.splits)
  have a1: "set (app_deps a) \<subseteq> set names"
    "map fst (g_indegree g1) = map fst (g_indegree g)"
    "\<And>m. deg (g_indegree g1) m = deg (g_indegree g) m + (if m = app_name a then int (card (set (app_deps a))) else 0)"
    "\<And>d. g_dependents g1 d = g_dependents g d @ (if d \<in> set (app_deps a) then [app_name a] else [])"
    using add_dependencies_Inr [OF g1(1)] "2.prems"(2) by auto
  have "fst ` set (g_indegree g1) = fst ` set (g_indegree g)" using a1(2) by (metis set_map)
  then have "app_name ` set as \<subseteq> fst ` set (g_indegree g1)" using "2.prems"(2) by auto
  note IH = "2.IH" [OF g1(1) g1(2) this]
  show ?case using IH "2.prems"(3) a1 by auto
qed

lemma node_names_distinct: "distinct (map app_name apps) \<Longrightarrow> node_names apps = map app_name apps"
  by (simp add: node_names_def dedup_distinct_id)

lemma deps_of_app:
  assumes "distinct (map app_name apps)" "a \<in> set apps" "set (app_deps a) \<subseteq> app_name ` set apps"
  shows "deps_of apps (app_name a) = set (app_deps a)"
proof -
  have "{b \<in> set apps. app_name b = app_name a} = {a}"
    using assms(1,2) by (auto dest: distinct_key_eq)
  then show ?thesis using assms(3) by (auto simp: deps_of_def node_names_def)
qed

lemma sum_list_distinct_key:
  "distinct (map f xs) \<Longrightarrow> x \<in> set xs \<Longrightarrow> (\<Sum>y\<leftarrow>xs. if f y = f x then (h y :: int) else 0) = h x"
proof (induction xs)
  case Nil
  then show ?case by simp
next
  case (Cons z zs)
  show ?case
  proof (cases "z = x")
    case True
    have "(\<Sum>y\<leftarrow>zs. if f y = f x then h y else 0) = (\<Sum>y\<leftarrow>zs. 0)"
    proof (intro arg_cong [where f = sum_list] map_cong refl)
      fix y assume "y \<in> set zs"
      then have "f y \<in> f ` set zs" by simp
      then have "f y \<noteq> f x" using Cons.prems(1) True by (metis distinct.simps(2) list.map(2) list.set_map)
      then show "(if f y = f x then h y else 0) = 0" by simp
    qed
    then show ?thesis using True by simp
  next
    case False
    then have "x \<in> set zs" "f z \<noteq> f x" using Cons.prems by auto
    then show ?thesis using Cons by simp
  qed
qed

lemma build_graph_ok:
  "(\<And>a. a \<in> set apps \<Longrightarrow> set (app_deps a) \<subseteq> set names) \<Longrightarrow> \<exists>g'. build_graph names g apps = Inr g'"
proof (induction names g apps rule: build_graph.induct)
  case (1 names g)
  then show ?case by simp
next
  case (2 names g a as)
  have "\<exists>g'. add_dependencies names n seen h ds = Inr g'" if "set ds \<subseteq> set names" for n seen h ds
    using that by (induction names n seen h ds rule: add_dependencies.induct) auto
  then obtain g1 where "add_dependencies names (app_name a) [] g (app_deps a) = Inr g1"
    using "2.prems" by fastforce
  then show ?case using "2.IH" "2.prems" by auto
qed

text \<open>What the first two passes leave for the work list.\<close>

lemma graph_facts:
  assumes dist: "distinct (map app_name apps)"
    and g: "build_graph (map app_name apps)
      \<lparr>g_indegree = map (\<lambda>n. (n, 0)) (map app_name apps), g_dependents = (\<lambda>_. [])\<rparr> apps = Inr g"
  shows "(\<forall>a\<in>set apps. deps_of apps (app_name a) = set (app_deps a))
    \<and> (\<forall>a\<in>set apps. set (app_deps a) \<subseteq> app_name ` set apps)
    \<and> (\<forall>d. sort (g_dependents g d) = dependents_of apps d)
    \<and> app_graph.work_inv apps {} (sort (map fst (filter (\<lambda>(n, d). d = 0) (g_indegree g)))) (g_indegree g)"
proof -
  have zero: "deg (map (\<lambda>n. (n, 0)) ns) m = 0" for ns m
    by (induction ns) (auto simp: deg_def split: option.splits)
  note b = build_graph_Inr [OF g _ dist]
  have sub: "\<And>a. a \<in> set apps \<Longrightarrow> set (app_deps a) \<subseteq> app_name ` set apps"
    and keys: "map fst (g_indegree g) = map app_name apps"
    and dg: "\<And>m. deg (g_indegree g) m = (\<Sum>a\<leftarrow>apps. if app_name a = m then int (card (set (app_deps a))) else 0)"
    and dep: "\<And>d. g_dependents g d = map app_name (filter (\<lambda>a. d \<in> set (app_deps a)) apps)"
    using b zero [of "map app_name apps"] by (auto simp: comp_def image_image)
  have deps: "\<And>a. a \<in> set apps \<Longrightarrow> deps_of apps (app_name a) = set (app_deps a)"
    using deps_of_app [OF dist] sub by blast
  have dependents: "sort (g_dependents g d) = dependents_of apps d" for d
  proof -
    have "filter (\<lambda>n. d \<in> deps_of apps n) (map app_name apps) = g_dependents g d"
      unfolding dep filter_map comp_def using deps
      by (intro arg_cong [where f = "map app_name"] filter_cong) auto
    then show ?thesis by (simp add: dependents_of_def node_names_distinct [OF dist])
  qed
  have degree: "deg (g_indegree g) (app_name a) = int (card (deps_of apps (app_name a)))" if "a \<in> set apps" for a
    using dg [of "app_name a"] sum_list_distinct_key [OF dist that, of "\<lambda>a. int (card (set (app_deps a)))"]
      deps [OF that] by simp
  have lookup: "d = deg (g_indegree g) n" if "(n, d) \<in> set (g_indegree g)" for n d
    using that keys dist by (simp add: deg_def map_of_is_SomeI)
  have entry: "\<exists>d. (n, d) \<in> set (g_indegree g)" if "n \<in> app_name ` set apps" for n
    using that keys by (metis (no_types, lifting) fst_conv imageE list.set_map prod.collapse)
  have ready: "set (sort (map fst (filter (\<lambda>(n, d). d = 0) (g_indegree g))))
      = {n \<in> set (node_names apps). n \<notin> {} \<and> deps_of apps n \<subseteq> {}}" (is "?L = ?R")
  proof -
    have names: "n \<in> app_name ` set apps" if "(n, d) \<in> set (g_indegree g)" for n d
      using that keys by (metis fst_conv image_eqI list.set_map)
    have fin: "finite (deps_of apps n)" for n by (simp add: deps_of_def)
    have "n \<in> ?L \<longleftrightarrow> n \<in> app_name ` set apps \<and> deg (g_indegree g) n = 0" for n
    proof
      assume "n \<in> ?L"
      then have "(n, 0) \<in> set (g_indegree g)" by auto
      then show "n \<in> app_name ` set apps \<and> deg (g_indegree g) n = 0"
        using lookup [of n 0] names [of n 0] by simp
    next
      assume n: "n \<in> app_name ` set apps \<and> deg (g_indegree g) n = 0"
      then obtain d where d: "(n, d) \<in> set (g_indegree g)" using entry by blast
      then have "d = 0" using lookup n by metis
      then have "n \<in> fst ` {x \<in> set (g_indegree g). case x of (n, d) \<Rightarrow> d = 0}"
        using d by (intro image_eqI [of _ _ "(n, d)"]) auto
      then show "n \<in> ?L" by simp
    qed
    moreover have "deg (g_indegree g) n = 0 \<longleftrightarrow> deps_of apps n = {}" if "n \<in> app_name ` set apps" for n
      using that degree fin by auto
    ultimately show ?thesis by (auto simp: node_names_def)
  qed
  have inv: "app_graph.work_inv apps {} (sort (map fst (filter (\<lambda>(n, d). d = 0) (g_indegree g)))) (g_indegree g)"
    unfolding app_graph.work_inv_def
  proof (intro conjI)
    show "map fst (g_indegree g) = node_names apps" by (simp add: keys node_names_distinct [OF dist])
    show "\<forall>n\<in>set (node_names apps). deg (g_indegree g) n = int (card (deps_of apps n - {}))"
      using degree by (auto simp: node_names_def)
    show "distinct (sort (map fst (filter (\<lambda>(n, d). d = 0) (g_indegree g))))"
      using keys dist by (simp add: distinct_map_filter_imp)
  qed (use ready in auto)
  show ?thesis using sub deps dependents inv by blast
qed

section \<open>Correctness of the order\<close>

text \<open>The run of the code on a set of apps that passes the first two passes.\<close>

lemma order_run:
  assumes idx: "index_apps [] apps = Inr m"
    and g: "build_graph (map app_name apps)
      \<lparr>g_indegree = map (\<lambda>n. (n, 0)) (map app_name apps), g_dependents = (\<lambda>_. [])\<rparr> apps = Inr g"
    and k: "kahn (dependents_of apps) (sort (map fst (filter (\<lambda>(n, d). d = 0) (g_indegree g)))) (g_indegree g)
      = (ord, dsF)"
  shows "dependency_order apps =
      (if set ord = app_name ` set apps then Inr (List.map_filter (map_of m) ord)
       else Inl (OrderCycle (sort (map fst (filter (\<lambda>(n, d). 0 < d) dsF)))))
    \<and> distinct ord \<and> set ord \<subseteq> app_name ` set apps
    \<and> map app_name (List.map_filter (map_of m) ord) = ord
    \<and> set (List.map_filter (map_of m) ord) \<subseteq> set apps"
proof -
  have m: "map_of m = map_of (map (\<lambda>a. (app_name a, a)) apps)" and dist: "distinct (map app_name apps)"
    using index_apps_Inr [OF idx] by auto
  note gf = graph_facts [OF dist g]
  have inv: "app_graph.work_inv apps {} (sort (map fst (filter (\<lambda>(n, d). d = 0) (g_indegree g)))) (g_indegree g)"
    using gf by blast
  note ks = app_graph.kahn_spec [OF inv k]
  have "set ord \<subseteq> set (node_names apps)"
    using ks unfolding app_graph.work_inv_def by blast
  then have ord: "distinct ord" "set ord \<subseteq> app_name ` set apps"
    using ks by (simp_all add: node_names_def)
  have look: "map_of m (app_name a) = Some a" if "a \<in> set apps" for a
    using that dist unfolding m by (auto intro!: map_of_is_SomeI simp: comp_def)
  have mf: "map app_name (List.map_filter (map_of m) ns) = ns \<and> set (List.map_filter (map_of m) ns) \<subseteq> set apps"
    if "set ns \<subseteq> app_name ` set apps" for ns
    using that look by (induction ns) (auto simp: List.map_filter_simps)
  have len: "length (List.map_filter (map_of m) ord) = length ord"
    using mf [OF ord(2)] by (metis length_map)
  have "length ord = length apps \<longleftrightarrow> set ord = app_name ` set apps"
  proof -
    have "length ord = card (set ord)" "length apps = card (app_name ` set apps)"
      using ord(1) dist distinct_card [of ord] distinct_card [OF dist] by auto
    then show ?thesis using ord(2) card_subset_eq [of "app_name ` set apps" "set ord"] by auto
  qed
  moreover have "(\<lambda>d. sort (g_dependents g d)) = dependents_of apps" using gf by auto
  ultimately have "dependency_order apps =
      (if set ord = app_name ` set apps then Inr (List.map_filter (map_of m) ord)
       else Inl (OrderCycle (sort (map fst (filter (\<lambda>(n, d). 0 < d) dsF)))))"
    using idx g k len by (simp add: dependency_order_def Let_def)
  then show ?thesis using ord mf [OF ord(2)] by blast
qed

lemma order_stages:
  assumes "dependency_order apps = r" "\<And>e. r = Inl e \<Longrightarrow> \<exists>ns. e = OrderCycle ns"
  obtains m g ord dsF where "index_apps [] apps = Inr m"
    "build_graph (map app_name apps)
      \<lparr>g_indegree = map (\<lambda>n. (n, 0)) (map app_name apps), g_dependents = (\<lambda>_. [])\<rparr> apps = Inr g"
    "kahn (dependents_of apps) (sort (map fst (filter (\<lambda>(n, d). d = 0) (g_indegree g)))) (g_indegree g)
      = (ord, dsF)"
proof -
  have no_cycle_index: "\<exists>m. index_apps seen as = Inr m \<or> (\<exists>e. index_apps seen as = Inl e \<and> (\<forall>ns. e \<noteq> OrderCycle ns))"
    for seen as
    by (induction seen as rule: index_apps.induct) (auto split: option.splits)
  have no_cycle_deps: "\<exists>h'. add_dependencies names n seen h ds = Inr h' \<or>
      (\<exists>e. add_dependencies names n seen h ds = Inl e \<and> (\<forall>ns. e \<noteq> OrderCycle ns))" for names n seen h ds
    by (induction names n seen h ds rule: add_dependencies.induct) auto
  have no_cycle_graph: "\<exists>h'. build_graph names h as = Inr h' \<or>
      (\<exists>e. build_graph names h as = Inl e \<and> (\<forall>ns. e \<noteq> OrderCycle ns))" for names h as
  proof (induction names h as rule: build_graph.induct)
    case (2 names h a as)
    then show ?case using no_cycle_deps [of names "app_name a" "[]" h "app_deps a"]
      by (auto split: sum.splits)
  qed simp
  obtain m where m: "index_apps [] apps = Inr m"
    using no_cycle_index [of "[]" apps] assms by (auto simp: dependency_order_def)
  obtain g where g: "build_graph (map app_name apps)
      \<lparr>g_indegree = map (\<lambda>n. (n, 0)) (map app_name apps), g_dependents = (\<lambda>_. [])\<rparr> apps = Inr g"
    using no_cycle_graph [of "map app_name apps"
        "\<lparr>g_indegree = map (\<lambda>n. (n, 0)) (map app_name apps), g_dependents = (\<lambda>_. [])\<rparr>" apps] assms m
    by (auto simp: dependency_order_def Let_def)
  show ?thesis using that [OF m g] by fastforce
qed

text \<open>C2: a returned order is a rearrangement of the discovered apps in which every declared
  dependency of an app comes before it.\<close>

theorem dependency_order_sound:
  assumes "dependency_order apps = Inr out"
  shows "mset out = mset apps \<and>
    (\<forall>i < length out. \<forall>d \<in> set (app_deps (out ! i)). \<exists>j < i. app_name (out ! j) = d)"
proof -
  obtain m g ord dsF where run: "index_apps [] apps = Inr m"
    "build_graph (map app_name apps)
      \<lparr>g_indegree = map (\<lambda>n. (n, 0)) (map app_name apps), g_dependents = (\<lambda>_. [])\<rparr> apps = Inr g"
    "kahn (dependents_of apps) (sort (map fst (filter (\<lambda>(n, d). d = 0) (g_indegree g)))) (g_indegree g)
      = (ord, dsF)"
    by (rule order_stages [OF assms]) simp_all
  note r = order_run [OF run]
  have out: "out = List.map_filter (map_of m) ord" "set ord = app_name ` set apps"
    using r assms by (auto split: if_splits)
  have dist: "distinct (map app_name apps)" using index_apps_Inr [OF run(1)] by simp
  note gf = graph_facts [OF dist run(2)]
  have names: "map app_name out = ord" "set out \<subseteq> set apps" using r out by auto
  have "distinct out" using names(1) r by (metis distinct_map)
  moreover have "set out = set apps"
  proof
    show "set apps \<subseteq> set out"
    proof
      fix a assume a: "a \<in> set apps"
      then obtain b where b: "b \<in> set out" "app_name b = app_name a"
        using out(2) names(1) by (metis (no_types, lifting) image_iff list.set_map)
      then show "a \<in> set out" using a names(2) dist by (metis distinct_key_eq subsetD)
    qed
  qed (use names in auto)
  moreover have "distinct apps" using dist by (simp add: distinct_map)
  ultimately have perm: "mset out = mset apps" by (simp add: set_eq_iff_mset_eq_distinct)
  have before: "\<forall>i < length ord. deps_of apps (ord ! i) \<subseteq> set (take i ord)"
    using app_graph.kahn_spec [OF _ run(3)] gf by auto
  have "\<exists>j < i. app_name (out ! j) = d" if i: "i < length out" and d: "d \<in> set (app_deps (out ! i))" for i d
  proof -
    have mem: "out ! i \<in> set apps" using i names(2) by auto
    have len: "length ord = length out" using names(1) by auto
    have "app_name (out ! i) = ord ! i" using i names(1) by auto
    then have "d \<in> deps_of apps (ord ! i)" using gf mem d by metis
    then have "d \<in> set (take i ord)" using before i len by auto
    then obtain j where "j < i" "ord ! j = d" "j < length ord" using i len by (auto simp: in_set_conv_nth)
    then show ?thesis using names(1) len by (metis nth_map)
  qed
  then show ?thesis using perm by blast
qed

text \<open>The declared dependencies as a relation.\<close>

definition depends_rel :: "loaded_app list \<Rightarrow> (string \<times> string) set" where
  "depends_rel apps = {(d, app_name a) | a d. a \<in> set apps \<and> d \<in> set (app_deps a)}"

lemma dep_rel_apps:
  assumes "\<forall>a\<in>set apps. deps_of apps (app_name a) = set (app_deps a)"
  shows "app_graph.dep_rel apps = depends_rel apps"
proof -
  have "set (node_names apps) = app_name ` set apps" by (simp add: node_names_def)
  then show ?thesis using assms unfolding app_graph.dep_rel_def depends_rel_def by auto
qed

text \<open>C3: on a set of apps that passed the set validation, an order is returned exactly when the
  declared dependencies have no cycle.\<close>

theorem dependency_order_iff_acyclic:
  assumes "validate_set apps = []"
  shows "(\<exists>out. dependency_order apps = Inr out) \<longleftrightarrow> acyclic (depends_rel apps)"
proof -
  note v = validate_set_Nil [OF assms]
  have nb: "\<forall>a\<in>set apps. \<not> blank (app_name a)"
    using v(2) validate_manifest_name is_name_trim is_name_nonempty by fastforce
  obtain m where m: "index_apps [] apps = Inr m" using index_apps_ok [OF v(1) nb, of "[]"] by auto
  obtain g where g: "build_graph (map app_name apps)
      \<lparr>g_indegree = map (\<lambda>n. (n, 0)) (map app_name apps), g_dependents = (\<lambda>_. [])\<rparr> apps = Inr g"
    using build_graph_ok [of apps "map app_name apps"] v(3) by fastforce
  obtain ord dsF where k: "kahn (dependents_of apps)
      (sort (map fst (filter (\<lambda>(n, d). d = 0) (g_indegree g)))) (g_indegree g) = (ord, dsF)"
    by fastforce
  note r = order_run [OF m g k] and gf = graph_facts [OF v(1) g]
  have rel: "app_graph.dep_rel apps = depends_rel apps"
    by (rule dep_rel_apps) (use gf in blast)
  have ks: "app_graph.work_inv apps (set ord) [] dsF"
    "\<forall>i < length ord. deps_of apps (ord ! i) \<subseteq> set (take i ord)" "distinct ord"
  proof -
    have "app_graph.work_inv apps {} (sort (map fst (filter (\<lambda>(n, d). d = 0) (g_indegree g)))) (g_indegree g)"
      using gf by blast
    from app_graph.kahn_spec [OF this k]
    show "app_graph.work_inv apps (set ord) [] dsF"
      "\<forall>i < length ord. deps_of apps (ord ! i) \<subseteq> set (take i ord)" "distinct ord"
      by simp_all
  qed
  have "set ord = app_name ` set apps \<longleftrightarrow> acyclic (depends_rel apps)"
  proof
    assume "set ord = app_name ` set apps"
    then show "acyclic (depends_rel apps)"
      using app_graph.topological_acyclic [OF ks(3) _ ks(2)] rel by (simp add: node_names_def)
  next
    assume "acyclic (depends_rel apps)"
    then show "set ord = app_name ` set apps"
      using app_graph.work_inv_complete [OF ks(1)] rel by (simp add: node_names_def)
  qed
  then show ?thesis using r by (auto split: if_splits)
qed

text \<open>A set of three apps for the witnesses.\<close>

definition sample_manifest :: "string \<Rightarrow> string list \<Rightarrow> manifest" where
  "sample_manifest n ds = \<lparr>m_name = n, m_label = ''App'', m_version = ''1.0.0'', m_description = [],
     m_dependencies = ds, m_paths = default_paths\<rparr>"

definition sample_apps :: "loaded_app list" where
  "sample_apps =
     [\<lparr>la_dir = ''apps/crm'', la_manifest_path = ''apps/crm/app.yml'',
        la_manifest = sample_manifest ''crm'' [''core'', ''base'']\<rparr>,
      \<lparr>la_dir = ''apps/base'', la_manifest_path = ''apps/base/app.yml'',
        la_manifest = sample_manifest ''base'' [''core'']\<rparr>,
      \<lparr>la_dir = ''apps/core'', la_manifest_path = ''apps/core/app.yml'',
        la_manifest = sample_manifest ''core'' []\<rparr>]"

lemma sample_order: "dependency_order sample_apps = Inr (rev sample_apps)"
  by code_simp

theorem dependency_order_sound_witness:
  "mset (rev sample_apps) = mset sample_apps \<and> (\<exists>j < 2. app_name (rev sample_apps ! j) = ''base'')"
proof -
  have "2 < length (rev sample_apps)" "''base'' \<in> set (app_deps (rev sample_apps ! 2))" by code_simp+
  with dependency_order_sound [OF sample_order] show ?thesis by blast
qed

theorem dependency_order_iff_acyclic_witness:
  "(\<exists>out. dependency_order sample_apps = Inr out) \<longleftrightarrow> acyclic (depends_rel sample_apps)"
proof -
  have "validate_set sample_apps = []" by code_simp
  then show ?thesis by (rule dependency_order_iff_acyclic)
qed

end
