(* ===== verification/Queue_Config.thy ===== *)
theory Queue_Config
  imports Names
begin

text \<open>
  Queue registration (\<^verbatim>\<open>internal/queues/queues.go\<close>): validation of
  \<^verbatim>\<open>config/queues.yml\<close>, membership and listing.  Reading and decoding the file is not
  modelled.
\<close>

record queue =
  q_name :: string
  q_concurrency :: int

record queue_config =
  qc_queues :: "queue list"
  qc_retention_days :: int

definition default_queue_name :: string where
  "default_queue_name = ''default''"

definition default_queue_config :: queue_config where
  "default_queue_config = \<lparr>qc_queues = [\<lparr>q_name = default_queue_name, q_concurrency = 4\<rparr>],
     qc_retention_days = 0\<rparr>"

datatype queue_problem =
    RetentionOutOfRange
  | QueueNameRequired nat
  | QueueNameNotKebab nat string
  | DuplicateQueue string
  | ConcurrencyNotPositive nat
  | NoDefaultQueue

text \<open>The loop of \<^verbatim>\<open>Config.Validate\<close>: \<open>seen\<close> and \<open>has_default\<close> are its
  variables, \<open>i\<close> the index of the queue.\<close>

fun validate_queues :: "nat \<Rightarrow> string list \<Rightarrow> bool \<Rightarrow> queue list \<Rightarrow> queue_problem list \<times> bool" where
  "validate_queues i seen has_default [] = ([], has_default)"
| "validate_queues i seen has_default (q # qs) =
     (let name = trim_space (q_name q);
          named = (name \<noteq> [] \<and> is_name name);
          here = (if name = [] then [QueueNameRequired i]
                  else if \<not> is_name name then [QueueNameNotKebab i (q_name q)]
                  else if name \<in> set seen then [DuplicateQueue name] else []);
          conc = (if q_concurrency q < 1 then [ConcurrencyNotPositive i] else []);
          (ps, d) = validate_queues (Suc i) (if named then name # seen else seen)
             (has_default \<or> named \<and> name = default_queue_name) qs
      in (here @ conc @ ps, d))"

definition validate_queue_config :: "queue_config \<Rightarrow> queue_problem list" where
  "validate_queue_config c =
     (let (ps, d) = validate_queues 0 [] False (qc_queues c)
      in (if qc_retention_days c < 0 \<or> 36500 < qc_retention_days c then [RetentionOutOfRange] else [])
         @ ps @ (if \<not> d then [NoDefaultQueue] else []))"

definition has_queue :: "queue_config \<Rightarrow> string \<Rightarrow> bool" where
  "has_queue c name = list_ex (\<lambda>q. q_name q = trim_space name) (qc_queues c)"

definition queue_names :: "queue_config \<Rightarrow> string list" where
  "queue_names c = sort (map q_name (qc_queues c))"

lemma validate_queues_ok:
  "validate_queues i seen hd0 qs = ([], d) \<longleftrightarrow>
     (\<forall>q\<in>set qs. is_name (trim_space (q_name q)) \<and> 1 \<le> q_concurrency q)
     \<and> distinct (map (trim_space \<circ> q_name) qs)
     \<and> (trim_space \<circ> q_name) ` set qs \<inter> set seen = {}
     \<and> d = (hd0 \<or> default_queue_name \<in> (trim_space \<circ> q_name) ` set qs)"
proof (induction i seen hd0 qs arbitrary: d rule: validate_queues.induct)
  case (1 i seen hd0)
  then show ?case by auto
next
  case (2 i seen hd0 q qs)
  let ?n = "trim_space (q_name q)"
  show ?case
  proof (cases "is_name ?n \<and> ?n \<notin> set seen \<and> 1 \<le> q_concurrency q")
    case False
    then show ?thesis by (auto simp: Let_def is_name_nonempty split: prod.splits if_splits)
  next
    case True
    then have ne: "?n \<noteq> []" using is_name_nonempty by blast
    have "validate_queues i seen hd0 (q # qs) =
        validate_queues (Suc i) (?n # seen) (hd0 \<or> ?n = default_queue_name) qs"
      using True ne by (simp add: Let_def split: prod.splits)
    then show ?thesis
      using "2.IH" [OF refl, of True "[]" "[]" d] True ne by auto
  qed
qed

lemma validate_queue_config_ok:
  "validate_queue_config c = [] \<longleftrightarrow>
     0 \<le> qc_retention_days c \<and> qc_retention_days c \<le> 36500
     \<and> (\<forall>q\<in>set (qc_queues c). is_name (trim_space (q_name q)) \<and> 1 \<le> q_concurrency q)
     \<and> distinct (map (trim_space \<circ> q_name) (qc_queues c))
     \<and> default_queue_name \<in> (trim_space \<circ> q_name) ` set (qc_queues c)"
proof -
  obtain ps d where v: "validate_queues 0 [] False (qc_queues c) = (ps, d)" by fastforce
  show ?thesis
  proof (cases "ps = []")
    case True
    then show ?thesis
      using v validate_queues_ok [of 0 "[]" False "qc_queues c" d]
      by (auto simp: validate_queue_config_def)
  next
    case False
    then show ?thesis
      using v validate_queues_ok [of 0 "[]" False "qc_queues c" True]
      by (auto simp: validate_queue_config_def)
  qed
qed

text \<open>In a validated configuration whose names carry no surrounding white space, the
  registered queues are found by exactly their names (in particular the default queue), every
  queue allows at least one execution, and the listing has no duplicates.\<close>

theorem validated_queues:
  assumes "validate_queue_config c = []" "\<forall>q\<in>set (qc_queues c). trim_space (q_name q) = q_name q"
  shows "has_queue c default_queue_name
    \<and> (\<forall>n. has_queue c n \<longleftrightarrow> trim_space n \<in> set (queue_names c))
    \<and> (\<forall>q\<in>set (qc_queues c). 1 \<le> q_concurrency q) \<and> distinct (queue_names c)"
proof -
  note v = assms(1) [unfolded validate_queue_config_ok]
  have same: "map (trim_space \<circ> q_name) (qc_queues c) = map q_name (qc_queues c)"
    using assms(2) by simp
  have def: "trim_space default_queue_name = default_queue_name"
    by (rule is_name_trim) (simp add: default_queue_name_def lower_letter_def lower_alnum_def)
  have mem: "has_queue c n \<longleftrightarrow> trim_space n \<in> set (queue_names c)" for n
    by (simp add: has_queue_def queue_names_def list_ex_iff image_iff) metis
  have "default_queue_name \<in> set (queue_names c)"
    using v same by (metis list.set_map queue_names_def set_sort)
  moreover have "distinct (queue_names c)"
    using v same by (simp add: queue_names_def)
  ultimately show ?thesis using v mem def by auto
qed

theorem validated_queues_witness:
  "has_queue default_queue_config default_queue_name
    \<and> (\<forall>n. has_queue default_queue_config n \<longleftrightarrow> trim_space n \<in> set (queue_names default_queue_config))
    \<and> 1 \<le> q_concurrency (hd (qc_queues default_queue_config)) \<and> distinct (queue_names default_queue_config)"
proof -
  have "validate_queue_config default_queue_config = []"
    "\<forall>q\<in>set (qc_queues default_queue_config). trim_space (q_name q) = q_name q"
    "hd (qc_queues default_queue_config) \<in> set (qc_queues default_queue_config)" by code_simp+
  then show ?thesis using validated_queues [of default_queue_config] by blast
qed

text \<open>Without the condition on white space the membership test disagrees with the validation,
  which trims: a configuration whose default queue is written with a space is accepted, and its
  default queue is then not registered.\<close>

definition padded_queue_config :: queue_config where
  "padded_queue_config = \<lparr>qc_queues = [\<lparr>q_name = '' default'', q_concurrency = 4\<rparr>], qc_retention_days = 0\<rparr>"

lemma padded_default_not_registered:
  "validate_queue_config padded_queue_config = [] \<and> \<not> has_queue padded_queue_config default_queue_name"
  by code_simp

end
