(* ===== verification/Go_Time.thy ===== *)
theory Go_Time
  imports Go_Strings
begin

text \<open>
  Instants and durations.  An instant (\<^verbatim>\<open>time.Time\<close>) is an \<open>int\<close> of nanoseconds
  since the Unix epoch, a duration (\<^verbatim>\<open>time.Duration\<close>) a signed 64-bit number of
  nanoseconds, held as an \<open>int\<close> with the wrap-around written out by \<open>wrap64\<close>.
  \<open>parse_duration\<close> follows \<^verbatim>\<open>time.ParseDuration\<close>; the fraction of a segment is
  multiplied exactly where Go multiplies in double precision.
\<close>

type_synonym instant = int
type_synonym duration = int

text \<open>Year 1, January 1, 00:00 UTC: \<^verbatim>\<open>Time.IsZero\<close>.\<close>

definition zero_time :: instant where
  "zero_time = - 62135596800 * 1000000000"

definition wrap64 :: "int \<Rightarrow> int" where
  "wrap64 x = (x + 2 ^ 63) mod 2 ^ 64 - 2 ^ 63"

definition in_i64 :: "int \<Rightarrow> bool" where
  "in_i64 x \<longleftrightarrow> - (2 ^ 63) \<le> x \<and> x < 2 ^ 63"

lemma wrap64_range: "in_i64 (wrap64 x)"
proof -
  have "0 \<le> (x + 2 ^ 63) mod 2 ^ 64" "(x + 2 ^ 63) mod 2 ^ 64 < 2 ^ 64" by simp_all
  then show ?thesis by (simp add: wrap64_def in_i64_def)
qed

lemma wrap64_id: "in_i64 x \<Longrightarrow> wrap64 x = x"
  by (simp add: wrap64_def in_i64_def mod_pos_pos_trivial)

text \<open>Go's integer division truncates towards zero.\<close>

definition quot64 :: "int \<Rightarrow> int \<Rightarrow> int" where
  "quot64 a b = sgn a * sgn b * (\<bar>a\<bar> div \<bar>b\<bar>)"

lemma quot64_nonneg: "0 \<le> a \<Longrightarrow> 0 < b \<Longrightarrow> quot64 a b = a div b"
  by (cases "a = 0") (auto simp: quot64_def)

section \<open>\<^verbatim>\<open>time.ParseDuration\<close>\<close>

text \<open>\<^verbatim>\<open>leadingInt\<close> with its two overflow tests, and \<^verbatim>\<open>leadingFraction\<close>, which
  drops the digits that would overflow; the fraction is returned as numerator and scale.\<close>

fun leading_int :: "int \<Rightarrow> string \<Rightarrow> (int \<times> string) option" where
  "leading_int x [] = Some (x, [])"
| "leading_int x (c # cs) =
     (if \<not> is_digit c then Some (x, c # cs)
      else if x > 2 ^ 63 div 10 then None
      else let y = 10 * x + int (digit_val c) in if y > 2 ^ 63 then None else leading_int y cs)"

fun leading_fraction :: "int \<Rightarrow> int \<Rightarrow> bool \<Rightarrow> string \<Rightarrow> int \<times> int \<times> string" where
  "leading_fraction x scale overflow [] = (x, scale, [])"
| "leading_fraction x scale overflow (c # cs) =
     (if \<not> is_digit c then (x, scale, c # cs)
      else if overflow then leading_fraction x scale True cs
      else if x > (2 ^ 63 - 1) div 10 then leading_fraction x scale True cs
      else let y = 10 * x + int (digit_val c)
           in if y > 2 ^ 63 then leading_fraction x scale True cs
              else leading_fraction y (10 * scale) False cs)"

definition unit_ns :: "string \<Rightarrow> int option" where
  "unit_ns u =
     (if u = ''ns'' then Some 1
      else if u = ''us'' \<or> u = [CHR 0xC2, CHR 0xB5, CHR ''s''] \<or> u = [CHR 0xCE, CHR 0xBC, CHR ''s'']
        then Some 1000
      else if u = ''ms'' then Some 1000000
      else if u = ''s'' then Some 1000000000
      else if u = ''m'' then Some 60000000000
      else if u = ''h'' then Some 3600000000000
      else None)"

definition unit_char :: "char \<Rightarrow> bool" where
  "unit_char c \<longleftrightarrow> c \<noteq> CHR ''.'' \<and> \<not> is_digit c"

text \<open>One segment, for example \<^verbatim>\<open>1.5h\<close>.\<close>

definition duration_segment :: "string \<Rightarrow> (int \<times> string) option" where
  "duration_segment s =
     (if s = [] \<or> unit_char (hd s) then None
      else case leading_int 0 s of None \<Rightarrow> None
      | Some (v, s1) \<Rightarrow>
        let pre = (length s1 \<noteq> length s);
            (post, f, scale, s2) =
              (if s1 \<noteq> [] \<and> hd s1 = CHR ''.'' then
                 let (f, scale, t) = leading_fraction 0 1 False (tl s1)
                 in (length t \<noteq> length (tl s1), f, scale, t)
               else (False, 0, 1, s1));
            u = takeWhile unit_char s2; s3 = dropWhile unit_char s2
        in if \<not> pre \<and> \<not> post then None
           else if u = [] then None
           else case unit_ns u of None \<Rightarrow> None
           | Some unit' \<Rightarrow>
             if v > 2 ^ 63 div unit' then None
             else let v1 = v * unit' in
               if f > 0 then
                 (let v2 = v1 + f * unit' div scale in if v2 > 2 ^ 63 then None else Some (v2, s3))
               else Some (v1, s3))"

lemma leading_int_length: "leading_int x s = Some (v, t) \<Longrightarrow> length t \<le> length s"
  by (induction x s rule: leading_int.induct) (auto simp: Let_def split: if_splits)

lemma leading_fraction_length: "leading_fraction x sc ov s = (f, sc', t) \<Longrightarrow> length t \<le> length s"
  by (induction x sc ov s rule: leading_fraction.induct) (auto simp: Let_def split: if_splits)

lemma duration_segment_shrinks:
  assumes "duration_segment s = Some (v, t)"
  shows "length t < length s"
proof -
  obtain x s1 where s1: "leading_int 0 s = Some (x, s1)"
    using assms by (auto simp: duration_segment_def split: if_splits option.splits)
  define s2 where "s2 = (if s1 \<noteq> [] \<and> hd s1 = CHR ''.''
    then snd (snd (leading_fraction 0 1 False (tl s1))) else s1)"
  obtain f sc r where lf: "leading_fraction 0 1 False (tl s1) = (f, sc, r)" by (metis prod_cases3)
  have "takeWhile unit_char s2 \<noteq> [] \<and> t = dropWhile unit_char s2"
    using assms s1 lf
    by (auto simp: duration_segment_def Let_def s2_def split: if_splits option.splits)
  moreover have "length s2 \<le> length s1"
    using leading_fraction_length [OF lf] lf by (auto simp: s2_def)
  moreover have "length (takeWhile unit_char s2) + length (dropWhile unit_char s2) = length s2"
    by (metis length_append takeWhile_dropWhile_id)
  ultimately show ?thesis using leading_int_length [OF s1] by (cases "takeWhile unit_char s2") auto
qed

function duration_loop :: "int \<Rightarrow> string \<Rightarrow> int option" where
  "duration_loop d s =
     (if s = [] then Some d
      else case duration_segment s of None \<Rightarrow> None
      | Some (v, t) \<Rightarrow> if d + v > 2 ^ 63 then None else duration_loop (d + v) t)"
  by pat_completeness auto
termination
  by (relation "measure (\<lambda>(d, s). length s)") (auto dest: duration_segment_shrinks)

declare duration_loop.simps [simp del]

definition parse_duration :: "string \<Rightarrow> duration option" where
  "parse_duration orig =
     (let (neg, s) = (case orig of
          c # cs \<Rightarrow> if c = CHR ''-'' then (True, cs) else if c = CHR ''+'' then (False, cs)
                   else (False, orig)
        | [] \<Rightarrow> (False, []))
      in if s = ''0'' then Some 0
         else if s = [] then None
         else case duration_loop 0 s of None \<Rightarrow> None
         | Some d \<Rightarrow> if neg then Some (wrap64 (- d))
                    else if d > 2 ^ 63 - 1 then None else Some d)"

lemma digit_val_nonneg [simp]: "0 \<le> int (digit_val c)"
  by simp

lemma leading_int_nonneg: "0 \<le> x \<Longrightarrow> leading_int x s = Some (v, t) \<Longrightarrow> 0 \<le> v"
  by (induction x s rule: leading_int.induct) (auto simp: Let_def split: if_splits)

lemma leading_fraction_nonneg:
  "0 \<le> x \<Longrightarrow> 0 < sc \<Longrightarrow> leading_fraction x sc ov s = (f, sc', t) \<Longrightarrow> 0 \<le> f \<and> 0 < sc'"
  by (induction x sc ov s rule: leading_fraction.induct) (auto simp: Let_def split: if_splits)

lemma unit_ns_pos: "unit_ns u = Some k \<Longrightarrow> 0 < k"
  by (auto simp: unit_ns_def split: if_splits)

lemma duration_segment_nonneg:
  assumes "duration_segment s = Some (v, t)"
  shows "0 \<le> v"
proof -
  obtain x s1 where s1: "leading_int 0 s = Some (x, s1)"
    using assms by (auto simp: duration_segment_def split: if_splits option.splits)
  have x: "0 \<le> x" using leading_int_nonneg [OF _ s1] by simp
  obtain f sc r where lf: "leading_fraction 0 1 False (tl s1) = (f, sc, r)" by (metis prod_cases3)
  have f: "0 \<le> f" "0 < sc" using leading_fraction_nonneg [OF _ _ lf] by simp_all
  show ?thesis
    using assms s1 lf x f
    by (auto simp: duration_segment_def Let_def pos_imp_zdiv_nonneg_iff
        split: if_splits option.splits intro!: add_nonneg_nonneg mult_nonneg_nonneg
        dest!: unit_ns_pos)
qed

lemma duration_loop_bound:
  "0 \<le> d \<Longrightarrow> d \<le> 2 ^ 63 \<Longrightarrow> duration_loop d s = Some r \<Longrightarrow> 0 \<le> r \<and> r \<le> 2 ^ 63"
proof (induction d s rule: duration_loop.induct)
  case (1 d s)
  show ?case
  proof (cases "s = []")
    case True
    then have "duration_loop d s = Some d" using duration_loop.simps [of d s] by simp
    then show ?thesis using "1.prems" by simp
  next
    case False
    then obtain v t where vt: "duration_segment s = Some (v, t)" "\<not> d + v > 2 ^ 63"
      "duration_loop (d + v) t = Some r"
      using "1.prems"(3) by (auto simp: duration_loop.simps [of d s] split: option.splits if_splits)
    then show ?thesis
      using "1.IH" [OF False vt(1) refl vt(2)] "1.prems"(1) duration_segment_nonneg [OF vt(1)] by simp
  qed
qed

lemma parse_duration_range: "parse_duration s = Some d \<Longrightarrow> in_i64 d"
proof -
  have small: "in_i64 d" if "duration_loop 0 t = Some d" "\<not> d > 2 ^ 63 - 1" for t
    using duration_loop_bound [OF _ _ that(1)] that(2) by (simp add: in_i64_def)
  have "in_i64 0" by (simp add: in_i64_def)
  then show "parse_duration s = Some d \<Longrightarrow> in_i64 d"
    using small by (auto simp: parse_duration_def Let_def wrap64_range
      split: list.splits if_splits option.splits)
qed


text \<open>
  The calendar part of Go's \<^verbatim>\<open>time\<close> package that the program uses: the civil date of an
  instant in UTC and the \<^verbatim>\<open>time.RFC3339\<close> layout for a UTC instant.
\<close>

definition day_ns :: int where
  "day_ns = 86400000000000"

text \<open>The proleptic Gregorian date of a day counted from the Unix epoch, by 400-year eras
  beginning on March 1.\<close>

definition civil_of_days :: "int \<Rightarrow> int \<times> int \<times> int" where
  "civil_of_days days =
     (let z = days + 719468;
          era = z div 146097;
          doe = z mod 146097;
          yoe = (doe - doe div 1460 + doe div 36524 - doe div 146096) div 365;
          doy = doe - (365 * yoe + yoe div 4 - yoe div 100);
          mp = (5 * doy + 2) div 153;
          d = doy - (153 * mp + 2) div 5 + 1;
          m = (if mp < 10 then mp + 3 else mp - 9);
          y = yoe + era * 400 + (if m \<le> 2 then 1 else 0)
      in (y, m, d))"

definition utc_date :: "instant \<Rightarrow> int \<times> int \<times> int" where
  "utc_date t = civil_of_days (t div day_ns)"

text \<open>A decimal of at least \<open>w\<close> digits, padded with zeros.\<close>

definition pad_nat :: "nat \<Rightarrow> nat \<Rightarrow> string" where
  "pad_nat w n = (let s = show_nat n in replicate (w - length s) (CHR ''0'') @ s)"

definition rfc3339 :: "instant \<Rightarrow> string" where
  "rfc3339 t =
     (let (y, m, d) = utc_date t;
          s = (t mod day_ns) div 1000000000
      in (if y < 0 then ''-'' else []) @ pad_nat 4 (nat \<bar>y\<bar>) @ ''-'' @ pad_nat 2 (nat m) @ ''-'' @ pad_nat 2 (nat d)
         @ ''T'' @ pad_nat 2 (nat (s div 3600)) @ '':'' @ pad_nat 2 (nat (s mod 3600 div 60))
         @ '':'' @ pad_nat 2 (nat (s mod 60)) @ ''Z'')"

lemma length_pad_nat: "w \<le> length (pad_nat w n)"
  by (simp add: pad_nat_def Let_def)

lemma calendar_examples:
  "utc_date 0 = (1970, 1, 1)"
  "rfc3339 951782400000000000 = ''2000-02-29T00:00:00Z''"
  "rfc3339 zero_time = ''0001-01-01T00:00:00Z''"
  by code_simp+

end
