(* ===== verification/Job_Meta.thy ===== *)
theory Job_Meta
  imports Queue_Config Go_Time
begin

text \<open>
  Job metadata (\<^verbatim>\<open>internal/jobs/jobs.go\<close>): the document, its effective values, the
  validation of one Job and of the catalog.  \<open>cron_ok\<close> stands for the third-party cron
  parser (\<^verbatim>\<open>github.com/robfig/cron\<close>): whether it accepts an expression.
\<close>

section \<open>The document\<close>

record retry =
  r_attempts :: int
  r_initial_delay :: string
  r_max_delay :: string

record job =
  jb_name :: string
  jb_label :: string
  jb_description :: string
  jb_queue :: string
  jb_cron :: string
  jb_timeout :: string
  jb_retry :: "retry option"

record loaded_job =
  lj_app_name :: string
  lj_app_dir :: string
  lj_path :: string
  lj_job :: job

definition effective_queue :: "job \<Rightarrow> string" where
  "effective_queue j = (let q = trim_space (jb_queue j) in if q = [] then default_queue_name else q)"

definition max_attempts :: "job \<Rightarrow> int" where
  "max_attempts j = (case jb_retry j of None \<Rightarrow> 1 | Some r \<Rightarrow> r_attempts r)"

definition default_retry_initial_delay :: string where
  "default_retry_initial_delay = ''10s''"

definition default_retry_max_delay :: string where
  "default_retry_max_delay = ''5m''"

definition effective_retry :: "job \<Rightarrow> retry option" where
  "effective_retry j = map_option (\<lambda>r. r\<lparr>
      r_initial_delay := (if blank (r_initial_delay r) then default_retry_initial_delay else r_initial_delay r),
      r_max_delay := (if blank (r_max_delay r) then default_retry_max_delay else r_max_delay r)\<rparr>) (jb_retry j)"

section \<open>Validation\<close>

datatype duration_problem = DurationRequired string | DurationInvalid string string | DurationNotPositive string

datatype job_problem =
    JobNameNotKebab string
  | JobLabelRequired
  | JobQueueNotKebab string
  | JobCronFields
  | JobCronInvalid string
  | JobDuration duration_problem
  | RetryAttempts
  | RetryMaxBelowInitial

definition positive_duration :: "string \<Rightarrow> string \<Rightarrow> duration_problem + duration" where
  "positive_duration v name =
     (let t = trim_space v in
      if t = [] then Inl (DurationRequired name)
      else case parse_duration t of None \<Rightarrow> Inl (DurationInvalid name t)
      | Some d \<Rightarrow> if d \<le> 0 then Inl (DurationNotPositive name) else Inr d)"

definition optional_positive_duration :: "string \<Rightarrow> string \<Rightarrow> string \<Rightarrow> duration_problem + duration" where
  "optional_positive_duration v fallback name =
     (let t = trim_space v in
      if t = [] then (case parse_duration fallback of None \<Rightarrow> Inl (DurationInvalid name fallback) | Some d \<Rightarrow> Inr d)
      else positive_duration t name)"

definition problems_of :: "duration_problem + duration \<Rightarrow> job_problem list" where
  "problems_of r = (case r of Inl p \<Rightarrow> [JobDuration p] | Inr d \<Rightarrow> [])"

text \<open>Go keeps the zero duration next to an error.\<close>

definition value_or_zero :: "duration_problem + duration \<Rightarrow> duration" where
  "value_or_zero r = (case r of Inl p \<Rightarrow> 0 | Inr d \<Rightarrow> d)"

definition validate_retry :: "retry option \<Rightarrow> job_problem list" where
  "validate_retry ro =
     (case ro of None \<Rightarrow> []
      | Some r \<Rightarrow>
        let initial = optional_positive_duration (r_initial_delay r) default_retry_initial_delay ''retry.initial-delay'';
            maxd = optional_positive_duration (r_max_delay r) default_retry_max_delay ''retry.max-delay'';
            i = value_or_zero initial; m = value_or_zero maxd
        in (if r_attempts r < 2 then [RetryAttempts] else [])
           @ problems_of initial @ problems_of maxd
           @ (if 0 < i \<and> 0 < m \<and> m < i then [RetryMaxBelowInitial] else []))"

definition validate_job :: "(string \<Rightarrow> bool) \<Rightarrow> job \<Rightarrow> job_problem list" where
  "validate_job cron_ok j =
     (if \<not> blank (jb_name j) \<and> \<not> is_name (jb_name j) then [JobNameNotKebab (jb_name j)] else [])
     @ (if blank (jb_label j) then [JobLabelRequired] else [])
     @ (let q = trim_space (jb_queue j) in if q \<noteq> [] \<and> \<not> is_name q then [JobQueueNotKebab (jb_queue j)] else [])
     @ (let c = trim_space (jb_cron j) in
        if c \<noteq> [] then
          (if length (fields_of c) \<noteq> 5 then [JobCronFields]
           else if \<not> cron_ok c then [JobCronInvalid (jb_cron j)] else [])
        else [])
     @ problems_of (positive_duration (jb_timeout j) ''timeout'')
     @ validate_retry (jb_retry j)"

datatype job_catalog_problem =
    DuplicateJob string string string string
  | JobUnregisteredQueue string string string string

definition job_key :: "string \<Rightarrow> string \<Rightarrow> string" where
  "job_key app name = app @ CHR 0x00 # name"

fun validate_job_catalog_loop :: "queue_config \<Rightarrow> (string \<times> string) list \<Rightarrow> loaded_job list \<Rightarrow> job_catalog_problem list" where
  "validate_job_catalog_loop qc seen [] = []"
| "validate_job_catalog_loop qc seen (l # ls) =
     (let key = job_key (lj_app_name l) (jb_name (lj_job l)); q = effective_queue (lj_job l)
      in (case map_of seen key of None \<Rightarrow> []
          | Some previous \<Rightarrow> [DuplicateJob (lj_path l) (lj_app_name l) (jb_name (lj_job l)) previous])
         @ (if \<not> has_queue qc q then [JobUnregisteredQueue (lj_path l) (lj_app_name l) (jb_name (lj_job l)) q] else [])
         @ validate_job_catalog_loop qc ((key, lj_path l) # seen) ls)"

definition validate_job_catalog :: "queue_config \<Rightarrow> loaded_job list \<Rightarrow> job_catalog_problem list" where
  "validate_job_catalog qc ls = validate_job_catalog_loop qc [] ls"

definition sort_jobs :: "loaded_job list \<Rightarrow> loaded_job list" where
  "sort_jobs ls = sort_key (\<lambda>l. [lj_app_name l, jb_name (lj_job l), lj_path l]) ls"

text \<open>A Job is usable by the queue when its timeout is a positive duration and its retry plan has
  at least one attempt and positive delays.\<close>

definition retry_usable :: "retry \<Rightarrow> bool" where
  "retry_usable r \<longleftrightarrow> 1 \<le> r_attempts r
     \<and> (\<exists>i m. parse_duration (r_initial_delay r) = Some i \<and> 0 < i
            \<and> parse_duration (r_max_delay r) = Some m \<and> 0 < m)"

lemma positive_duration_Inr:
  "positive_duration v name = Inr d \<longleftrightarrow> \<not> blank v \<and> parse_duration (trim_space v) = Some d \<and> 0 < d"
  by (auto simp: positive_duration_def Let_def split: option.splits)

lemma default_delays:
  "parse_duration default_retry_initial_delay = Some 10000000000"
  "parse_duration default_retry_max_delay = Some 300000000000"
  by code_simp+

lemma optional_positive_duration_Inr:
  assumes "problems_of (optional_positive_duration v fallback name) = []"
    and "parse_duration fallback = Some f" "0 < f" "\<not> blank v \<longrightarrow> trim_space v = v"
  shows "\<exists>d. parse_duration (if blank v then fallback else v) = Some d \<and> 0 < d"
proof -
  obtain d where "optional_positive_duration v fallback name = Inr d"
    using assms(1) by (auto simp: problems_of_def split: sum.splits)
  then show ?thesis
    using assms(2-4) by (auto simp: optional_positive_duration_def Let_def positive_duration_Inr
        split: if_splits)
qed

text \<open>A Job that passes validation has a positive timeout, allows at least one attempt, and
  its effective retry plan (with the defaults filled in) parses to positive delays, when the
  delays are written without surrounding white space.\<close>

theorem validated_job_usable:
  assumes "validate_job cron_ok j = []"
    and "\<forall>r. jb_retry j = Some r \<longrightarrow>
      (\<not> blank (r_initial_delay r) \<longrightarrow> trim_space (r_initial_delay r) = r_initial_delay r) \<and>
      (\<not> blank (r_max_delay r) \<longrightarrow> trim_space (r_max_delay r) = r_max_delay r)"
  shows "(\<exists>d. parse_duration (trim_space (jb_timeout j)) = Some d \<and> 0 < d) \<and> 1 \<le> max_attempts j
    \<and> (\<forall>r. effective_retry j = Some r \<longrightarrow> retry_usable r \<and> r_attempts r = max_attempts j)"
proof -
  have t: "problems_of (positive_duration (jb_timeout j) ''timeout'') = []"
    and r: "validate_retry (jb_retry j) = []"
    using assms(1) by (auto simp: validate_job_def)
  have timeout: "\<exists>d. parse_duration (trim_space (jb_timeout j)) = Some d \<and> 0 < d"
    using t by (auto simp: problems_of_def positive_duration_Inr split: sum.splits)
  show ?thesis
  proof (cases "jb_retry j")
    case None
    then show ?thesis using timeout by (simp add: max_attempts_def effective_retry_def)
  next
    case (Some p)
    have v: "2 \<le> r_attempts p"
      "problems_of (optional_positive_duration (r_initial_delay p) default_retry_initial_delay ''retry.initial-delay'') = []"
      "problems_of (optional_positive_duration (r_max_delay p) default_retry_max_delay ''retry.max-delay'') = []"
      using r Some by (auto simp: validate_retry_def Let_def split: if_splits)
    have "\<exists>i. parse_duration (if blank (r_initial_delay p) then default_retry_initial_delay else r_initial_delay p) = Some i \<and> 0 < i"
      using assms(2) Some by (intro optional_positive_duration_Inr [OF v(2) default_delays(1)]) auto
    moreover have "\<exists>i. parse_duration (if blank (r_max_delay p) then default_retry_max_delay else r_max_delay p) = Some i \<and> 0 < i"
      using assms(2) Some by (intro optional_positive_duration_Inr [OF v(3) default_delays(2)]) auto
    ultimately show ?thesis
      using timeout Some v(1) by (auto simp: max_attempts_def effective_retry_def retry_usable_def)
  qed
qed

definition sample_job :: job where
  "sample_job = \<lparr>jb_name = ''send-mail'', jb_label = ''Send'', jb_description = [], jb_queue = [],
     jb_cron = [], jb_timeout = ''30s'',
     jb_retry = Some \<lparr>r_attempts = 3, r_initial_delay = [], r_max_delay = ''1m''\<rparr>\<rparr>"

theorem validated_job_usable_witness:
  "(\<exists>d. parse_duration (trim_space (jb_timeout sample_job)) = Some d \<and> 0 < d)
    \<and> (\<exists>r. effective_retry sample_job = Some r \<and> retry_usable r \<and> r_attempts r = max_attempts sample_job)"
proof -
  have v: "validate_job (\<lambda>_. True) sample_job = []" by code_simp
  have "trim_space ''1m'' = ''1m''" by code_simp
  then have "\<forall>r. jb_retry sample_job = Some r \<longrightarrow>
      (\<not> blank (r_initial_delay r) \<longrightarrow> trim_space (r_initial_delay r) = r_initial_delay r) \<and>
      (\<not> blank (r_max_delay r) \<longrightarrow> trim_space (r_max_delay r) = r_max_delay r)"
    by (simp add: sample_job_def)
  moreover have "effective_retry sample_job \<noteq> None" by code_simp
  ultimately show ?thesis using validated_job_usable [OF v] by blast
qed

end
