(* ===== verification/Schedules_Meta.thy ===== *)
theory Schedules_Meta
  imports Job_Meta
begin

text \<open>
  Schedule metadata (\<^verbatim>\<open>internal/schedules/schedules.go\<close>): validation of a document,
  the catalog with the Schedules that Jobs with a cron line imply, the cross-file rules and the
  next occurrence.  Parameters: \<open>cron_parse\<close>, the third-party cron parser, gives the
  \<^verbatim>\<open>Next\<close> function of an expression; \<open>load_location\<close> is the time zone database
  (\<^verbatim>\<open>time.LoadLocation\<close>), which gives the name of the location.
\<close>

record schedule =
  s_name :: string
  s_label :: string
  s_description :: string
  s_cron :: string
  s_timezone :: string
  s_job :: string
  s_enabled :: "bool option"

record loaded_schedule =
  ls_app_name :: string
  ls_app_dir :: string
  ls_path :: string
  ls_schedule :: schedule

definition effective_enabled :: "schedule \<Rightarrow> bool" where
  "effective_enabled s = (s_enabled s = None \<or> s_enabled s = Some True)"

definition job_ref :: "schedule \<Rightarrow> shape_error + app_ref" where
  "job_ref s = parse_app_ref (s_job s)"

definition has_cron_timezone_prefix :: "string \<Rightarrow> bool" where
  "has_cron_timezone_prefix expr =
     (case fields_of (trim_space expr) of [] \<Rightarrow> False
      | f # _ \<Rightarrow> has_prefix (to_upper_ascii f) ''CRON_TZ='' \<or> has_prefix (to_upper_ascii f) ''TZ='')"

section \<open>The next occurrence: \<^verbatim>\<open>NextRunAt\<close>\<close>

datatype next_run_error = TimezoneInvalid string | CronHasTimezone string | CronInvalid string | CronNeverRuns string

definition next_run_at :: "(string \<Rightarrow> string option) \<Rightarrow> (string \<Rightarrow> (instant \<Rightarrow> instant) option) \<Rightarrow>
    string \<Rightarrow> string \<Rightarrow> instant \<Rightarrow> next_run_error + instant" where
  "next_run_at load_location cron_parse expr timezone after =
     (case load_location (trim_space timezone) of None \<Rightarrow> Inl (TimezoneInvalid timezone)
      | Some loc \<Rightarrow>
        if has_cron_timezone_prefix expr then Inl (CronHasTimezone expr)
        else case cron_parse (''CRON_TZ='' @ loc @ '' '' @ trim_space expr) of None \<Rightarrow> Inl (CronInvalid expr)
        | Some next \<Rightarrow> if next after = zero_time then Inl (CronNeverRuns expr) else Inr (next after))"

section \<open>Validation of one document\<close>

datatype schedule_problem =
    ScheduleNameNotKebab nat string
  | ScheduleLabelRequired nat
  | ScheduleCronRequired nat
  | ScheduleCronTimezone nat
  | ScheduleCronInvalid nat string
  | ScheduleTimezoneRequired nat
  | ScheduleTimezoneInvalid nat string
  | ScheduleJobRequired nat
  | ScheduleJobRef nat shape_error

definition validate_schedule :: "(string \<Rightarrow> bool) \<Rightarrow> (string \<Rightarrow> bool) \<Rightarrow> nat \<Rightarrow> schedule \<Rightarrow> schedule_problem list" where
  "validate_schedule cron_ok tz_ok i s =
     (if \<not> is_name (s_name s) then [ScheduleNameNotKebab i (s_name s)] else [])
     @ (if blank (s_label s) then [ScheduleLabelRequired i] else [])
     @ (if blank (s_cron s) then [ScheduleCronRequired i]
        else if has_cron_timezone_prefix (s_cron s) then [ScheduleCronTimezone i]
        else if \<not> cron_ok (trim_space (s_cron s)) then [ScheduleCronInvalid i (s_cron s)] else [])
     @ (if blank (s_timezone s) then [ScheduleTimezoneRequired i]
        else if \<not> tz_ok (trim_space (s_timezone s)) then [ScheduleTimezoneInvalid i (s_timezone s)] else [])
     @ (if blank (s_job s) then [ScheduleJobRequired i]
        else case job_ref s of Inl e \<Rightarrow> [ScheduleJobRef i e] | Inr r \<Rightarrow> [])"

definition validate_schedule_file :: "(string \<Rightarrow> bool) \<Rightarrow> (string \<Rightarrow> bool) \<Rightarrow> schedule list \<Rightarrow> schedule_problem list" where
  "validate_schedule_file cron_ok tz_ok ss =
     concat (map (\<lambda>(i, s). validate_schedule cron_ok tz_ok i s) (zip [0..<length ss] ss))"

section \<open>The catalog\<close>

definition job_schedule :: "loaded_job \<Rightarrow> loaded_schedule" where
  "job_schedule l = \<lparr>ls_app_name = lj_app_name l, ls_app_dir = lj_app_dir l, ls_path = lj_path l,
     ls_schedule = \<lparr>s_name = ''job-'' @ jb_name (lj_job l), s_label = jb_label (lj_job l),
       s_description = ''Schedule for Job '' @ lj_app_name l @ ''/'' @ jb_name (lj_job l),
       s_cron = jb_cron (lj_job l), s_timezone = ''UTC'',
       s_job = lj_app_name l @ ''/'' @ jb_name (lj_job l), s_enabled = None\<rparr>\<rparr>"

definition sort_schedules :: "loaded_schedule list \<Rightarrow> loaded_schedule list" where
  "sort_schedules ss = sort_key (\<lambda>l. [ls_app_name l, s_name (ls_schedule l), ls_path l]) ss"

text \<open>\<^verbatim>\<open>Discover\<close>, given the Schedules read from the files of the apps.\<close>

definition discover_schedules :: "loaded_schedule list \<Rightarrow> loaded_job list \<Rightarrow> loaded_schedule list" where
  "discover_schedules from_files jobs =
     sort_schedules (from_files @ map job_schedule (filter (\<lambda>l. \<not> blank (jb_cron (lj_job l))) jobs))"

datatype schedule_catalog_problem =
    DuplicateSchedule string string string
  | ScheduleTargetInvalid string string shape_error
  | ScheduleTargetMissing string string string

fun validate_schedules_loop :: "string list \<Rightarrow> string list \<Rightarrow> loaded_schedule list \<Rightarrow> schedule_catalog_problem list" where
  "validate_schedules_loop job_keys seen [] = []"
| "validate_schedules_loop job_keys seen (l # ls) =
     (let key = job_key (ls_app_name l) (s_name (ls_schedule l))
      in (if key \<in> set seen then [DuplicateSchedule (ls_path l) (ls_app_name l) (s_name (ls_schedule l))] else [])
         @ (case job_ref (ls_schedule l) of
              Inl e \<Rightarrow> [ScheduleTargetInvalid (ls_path l) (s_name (ls_schedule l)) e]
            | Inr r \<Rightarrow> if job_key (ref_app r) (ref_name r) \<notin> set job_keys
                then [ScheduleTargetMissing (ls_path l) (s_name (ls_schedule l)) (s_job (ls_schedule l))] else [])
         @ validate_schedules_loop job_keys (key # seen) ls)"

definition validate_schedule_catalog :: "loaded_schedule list \<Rightarrow> loaded_job list \<Rightarrow> schedule_catalog_problem list" where
  "validate_schedule_catalog ss jobs =
     validate_schedules_loop (map (\<lambda>l. job_key (lj_app_name l) (jb_name (lj_job l))) jobs) [] ss"

section \<open>Properties\<close>

lemma validate_schedules_loop_ok:
  "validate_schedules_loop job_keys seen ss = [] \<Longrightarrow>
     distinct (map (\<lambda>l. job_key (ls_app_name l) (s_name (ls_schedule l))) ss)
     \<and> (\<forall>l\<in>set ss. job_key (ls_app_name l) (s_name (ls_schedule l)) \<notin> set seen
          \<and> (\<exists>r. job_ref (ls_schedule l) = Inr r \<and> job_key (ref_app r) (ref_name r) \<in> set job_keys))"
  by (induction job_keys seen ss rule: validate_schedules_loop.induct)
    (auto simp: Let_def split: if_splits sum.splits)

lemma parse_app_ref_names:
  "parse_app_ref v = Inr r \<Longrightarrow> is_name (ref_app r) \<and> is_name (ref_name r)"
  by (auto simp: parse_app_ref_def Let_def split: list.splits if_splits)

text \<open>When every app of the catalog has a kebab-case name, an accepted catalog identifies
  each Schedule by its app and name, and each Schedule's target is a discovered Job: the keys the
  code joins with a NUL byte never confuse two identities.\<close>

theorem schedule_catalog_sound:
  assumes "validate_schedule_catalog ss jobs = []"
    and "\<forall>l\<in>set ss. is_name (ls_app_name l)" "\<forall>l\<in>set jobs. is_name (lj_app_name l)"
  shows "distinct (map (\<lambda>l. (ls_app_name l, s_name (ls_schedule l))) ss)
    \<and> (\<forall>s\<in>set ss. \<exists>r. \<exists>j\<in>set jobs. job_ref (ls_schedule s) = Inr r
         \<and> lj_app_name j = ref_app r \<and> jb_name (lj_job j) = ref_name r)"
proof (intro conjI ballI)
  note ok = validate_schedules_loop_ok [OF assms(1) [unfolded validate_schedule_catalog_def]]
  have "distinct (map (\<lambda>(a, n). job_key a n) (map (\<lambda>l. (ls_app_name l, s_name (ls_schedule l))) ss))"
    using ok by (simp add: comp_def)
  then show "distinct (map (\<lambda>l. (ls_app_name l, s_name (ls_schedule l))) ss)"
    by (simp only: distinct_map)
  fix s assume "s \<in> set ss"
  then obtain r j where r: "job_ref (ls_schedule s) = Inr r" and j: "j \<in> set jobs"
      "job_key (lj_app_name j) (jb_name (lj_job j)) = job_key (ref_app r) (ref_name r)"
    using ok by fastforce
  have "is_name (ref_app r)" using r parse_app_ref_names by (auto simp: job_ref_def)
  then have "lj_app_name j = ref_app r \<and> jb_name (lj_job j) = ref_name r"
    using nul_names.pair_key_inj [OF _ _ j(2) [unfolded job_key_def]] j(1) assms(3) by blast
  then show "\<exists>r. \<exists>j\<in>set jobs. job_ref (ls_schedule s) = Inr r
      \<and> lj_app_name j = ref_app r \<and> jb_name (lj_job j) = ref_name r"
    using r j(1) by blast
qed

definition sample_loaded_job :: loaded_job where
  "sample_loaded_job = \<lparr>lj_app_name = ''crm'', lj_app_dir = ''apps/crm'', lj_path = ''apps/crm/jobs/send-mail/job.yml'',
     lj_job = sample_job\<lparr>jb_cron := ''0 * * * *''\<rparr>\<rparr>"

theorem schedule_catalog_sound_witness:
  "\<exists>s r j. discover_schedules [] [sample_loaded_job] = [s] \<and> job_ref (ls_schedule s) = Inr r
     \<and> j \<in> set [sample_loaded_job] \<and> lj_app_name j = ref_app r \<and> jb_name (lj_job j) = ref_name r"
proof -
  let ?jobs = "[sample_loaded_job]"
  let ?ss = "discover_schedules [] ?jobs"
  have "length ?ss = 1" by code_simp
  then obtain s where s: "?ss = [s]" by (cases ?ss) auto
  have "validate_schedule_catalog ?ss ?jobs = []" "\<forall>l\<in>set ?ss. is_name (ls_app_name l)"
    "\<forall>l\<in>set ?jobs. is_name (lj_app_name l)"
    by code_simp+
  from schedule_catalog_sound [OF this] show ?thesis unfolding s by force
qed

text \<open>The Schedule implied by a Job with a kebab-case identity has a valid name and refers back to
  that Job.\<close>

lemma job_prefix_name: "is_name n \<Longrightarrow> is_name (''job-'' @ n)"
  by (cases n) (simp_all add: lower_letter_def lower_alnum_def)

lemma job_schedule_refers_back:
  assumes "is_name (lj_app_name l)" "is_name (jb_name (lj_job l))"
  shows "is_name (s_name (ls_schedule (job_schedule l)))
    \<and> job_ref (ls_schedule (job_schedule l)) =
        Inr \<lparr>ref_app = lj_app_name l, ref_name = jb_name (lj_job l)\<rparr>"
proof -
  let ?r = "lj_app_name l @ CHR ''/'' # jb_name (lj_job l)"
  have "\<forall>c\<in>set ?r. graphic c"
    using is_name_chars [OF assms(1)] is_name_chars [OF assms(2)]
    by (auto simp: list_all_iff name_char_graphic) (simp add: graphic_def)
  moreover have ne: "?r \<noteq> []" by simp
  ultimately have "trim_space ?r = ?r"
    using trim_space_graphic [OF ne] hd_in_set [OF ne] last_in_set [OF ne] by blast
  then have "job_ref (ls_schedule (job_schedule l)) =
      Inr \<lparr>ref_app = lj_app_name l, ref_name = jb_name (lj_job l)\<rparr>"
    using slash_names.split_pair [OF assms] assms is_name_nonempty
    by (auto simp: job_schedule_def job_ref_def parse_app_ref_def Let_def)
  moreover have "s_name (ls_schedule (job_schedule l)) = ''job-'' @ jb_name (lj_job l)"
    by (simp add: job_schedule_def)
  ultimately show ?thesis using job_prefix_name [OF assms(2)] by (simp only: simp_thms)
qed

lemma next_run_at_after:
  assumes "next_run_at load_location cron_parse expr tz now = Inr t"
    and "\<forall>e next. cron_parse e = Some next \<longrightarrow> next now = zero_time \<or> now < next now"
  shows "now < t"
  using assms by (auto simp: next_run_at_def split: option.splits if_splits)

end
