(* ===== verification/Job_Backoff.thy ===== *)
theory Job_Backoff
  imports Job_Meta
begin

text \<open>
  The delay before the next attempt of a failed Job Execution
  (\<^verbatim>\<open>retryDelay\<close> in \<^verbatim>\<open>internal/jobs/store/store.go\<close>): exponential backoff capped at
  the maximal delay, with equal jitter.  \<open>rnd\<close> stands for \<^verbatim>\<open>rand.Int64N\<close>, which panics
  when its argument is not positive.
\<close>

datatype delay_error = DelayUnreadable string | DelaysNotPositive | RandPanic

text \<open>The doubling loop, \<open>n\<close> iterations of which are left; the second branch is the
  \<^verbatim>\<open>break\<close>.\<close>

fun backoff_loop :: "nat \<Rightarrow> duration \<Rightarrow> duration \<Rightarrow> duration" where
  "backoff_loop 0 delay max_delay = delay"
| "backoff_loop (Suc n) delay max_delay =
     (if max_delay \<le> delay \<or> quot64 max_delay 2 < delay then max_delay
      else backoff_loop n (wrap64 (delay * 2)) max_delay)"

definition jittered :: "(int \<Rightarrow> int) \<Rightarrow> duration \<Rightarrow> delay_error + duration" where
  "jittered rnd delay =
     (let half0 = quot64 delay 2;
          half = (if half0 = 0 then 1 else half0);
          n = wrap64 (wrap64 (delay - half) + 1)
      in if n \<le> 0 then Inl RandPanic else Inr (wrap64 (half + rnd n)))"

definition retry_delay :: "(int \<Rightarrow> int) \<Rightarrow> retry option \<Rightarrow> int \<Rightarrow> delay_error + duration" where
  "retry_delay rnd ro attempt =
     (case ro of None \<Rightarrow> Inr 0
      | Some r \<Rightarrow>
        (case parse_duration (r_initial_delay r) of None \<Rightarrow> Inl (DelayUnreadable (r_initial_delay r))
         | Some initial \<Rightarrow>
        (case parse_duration (r_max_delay r) of None \<Rightarrow> Inl (DelayUnreadable (r_max_delay r))
         | Some max_delay \<Rightarrow>
          if initial \<le> 0 \<or> max_delay \<le> 0 then Inl DelaysNotPositive
          else let delay = backoff_loop (nat (attempt - 1)) initial max_delay;
                   capped = (if max_delay < delay then max_delay else delay)
               in jittered rnd capped)))"

text \<open>What the loop computes, without the order of its tests and without wrap-around.\<close>

definition capped_backoff :: "duration \<Rightarrow> duration \<Rightarrow> int \<Rightarrow> duration" where
  "capped_backoff initial max_delay attempt = min max_delay (initial * 2 ^ nat (attempt - 1))"

lemma backoff_loop_capped:
  assumes "0 < d" "0 < m" "in_i64 d" "in_i64 m"
  shows "min m (backoff_loop n d m) = min m (d * 2 ^ n)"
  using assms
proof (induction n arbitrary: d)
  case 0
  then show ?case by simp
next
  case (Suc n)
  have half: "quot64 m 2 = m div 2" using Suc.prems(2) by (simp add: quot64_nonneg)
  have one: "(1::int) \<le> 2 ^ n" by simp
  show ?case
  proof (cases "m \<le> d \<or> m div 2 < d")
    case True
    with Suc.prems(1) have "m \<le> 2 * d" by linarith
    also have "\<dots> \<le> 2 * d * 2 ^ n" using Suc.prems(1) one mult_left_mono [OF one, of "2 * d"] by simp
    also have "\<dots> = d * 2 ^ Suc n" by simp
    finally have "m \<le> d * 2 ^ Suc n" .
    moreover have "backoff_loop (Suc n) d m = m" using True half by auto
    ultimately show ?thesis by (simp only: min.idem min.absorb1)
  next
    case False
    have small: "2 * d \<le> m" using False by linarith
    then have i64: "in_i64 (d * 2)" using Suc.prems by (simp add: in_i64_def)
    have "backoff_loop (Suc n) d m = backoff_loop n (d * 2) m"
      using False half wrap64_id [OF i64] by simp
    moreover have "min m (backoff_loop n (d * 2) m) = min m (d * 2 * 2 ^ n)"
      using Suc.IH [of "d * 2"] i64 Suc.prems by simp
    ultimately show ?thesis by (simp add: mult.assoc)
  qed
qed

lemma jittered_range:
  assumes "0 < delay" "in_i64 delay" "\<forall>n>0. 0 \<le> rnd n \<and> rnd n < n"
  shows "\<exists>d. jittered rnd delay = Inr d \<and> 1 \<le> d \<and> delay div 2 \<le> d \<and> d \<le> delay"
proof -
  define half where "half = (if delay div 2 = 0 then 1 else delay div 2)"
  have q: "quot64 delay 2 = delay div 2" using assms(1) by (simp add: quot64_nonneg)
  have h: "1 \<le> half" "half \<le> delay" "delay div 2 \<le> half" using assms(1) by (auto simp: half_def)
  have i1: "in_i64 (delay - half)" and i2: "in_i64 (delay - half + 1)"
    using h assms(1,2) by (simp_all add: in_i64_def)
  define n where "n = delay - half + 1"
  have n: "0 < n" using h by (simp add: n_def)
  have r: "0 \<le> rnd n" "rnd n < n" using assms(3) n by auto
  have i3: "in_i64 (half + rnd n)" using r h assms(2) by (simp add: in_i64_def n_def)
  have "jittered rnd delay = Inr (half + rnd n)"
    using n by (simp add: jittered_def Let_def q wrap64_id i1 i2 [folded n_def] i3 flip: half_def n_def)
  then show ?thesis using h r by (auto simp: n_def)
qed

text \<open>C4: for a usable retry plan the computation never fails or panics on an empty range, never
  overflows, and the delay it returns lies in the upper half of the capped exponential backoff
  \<open>min max (initial * 2 ^ (attempt - 1))\<close>.\<close>

theorem retry_delay_bounds:
  assumes "parse_duration (r_initial_delay r) = Some i" "0 < i"
    and "parse_duration (r_max_delay r) = Some m" "0 < m"
    and "\<forall>n>0. 0 \<le> rnd n \<and> rnd n < n"
  shows "\<exists>d. retry_delay rnd (Some r) attempt = Inr d \<and> 1 \<le> d
    \<and> capped_backoff i m attempt div 2 \<le> d \<and> d \<le> capped_backoff i m attempt"
proof -
  let ?n = "nat (attempt - 1)"
  have i64: "in_i64 i" "in_i64 m" using parse_duration_range assms(1,3) by auto
  have c: "capped_backoff i m attempt = min m (backoff_loop ?n i m)"
    using backoff_loop_capped [OF assms(2,4) i64, of ?n] by (simp add: capped_backoff_def)
  have pos: "0 < capped_backoff i m attempt" using assms(2,4) by (simp add: capped_backoff_def)
  have range: "in_i64 (capped_backoff i m attempt)"
    using pos i64(2) by (auto simp: in_i64_def capped_backoff_def)
  have "(if m < backoff_loop ?n i m then m else backoff_loop ?n i m) = capped_backoff i m attempt"
    using c by (simp add: min_def)
  then have "retry_delay rnd (Some r) attempt = jittered rnd (capped_backoff i m attempt)"
    using assms(1-4) by (simp add: retry_delay_def Let_def)
  then show ?thesis using jittered_range [OF pos range assms(5)] by simp
qed

definition sample_retry :: retry where
  "sample_retry = \<lparr>r_attempts = 5, r_initial_delay = ''10s'', r_max_delay = ''1m''\<rparr>"

theorem retry_delay_bounds_witness:
  "\<exists>d. retry_delay (\<lambda>n. n - 1) (Some sample_retry) 4 = Inr d \<and> 1 \<le> d
    \<and> capped_backoff 10000000000 60000000000 4 div 2 \<le> d \<and> d \<le> capped_backoff 10000000000 60000000000 4"
proof (rule retry_delay_bounds)
  show "parse_duration (r_initial_delay sample_retry) = Some 10000000000" by code_simp
  show "parse_duration (r_max_delay sample_retry) = Some 60000000000" by code_simp
qed simp_all

text \<open>Without a retry plan there is no delay.\<close>

lemma retry_delay_None [simp]: "retry_delay rnd None attempt = Inr 0"
  by (simp add: retry_delay_def)

end
