(* ===== verification/Go_Json.thy ===== *)
theory Go_Json
  imports Go_Strings
begin

text \<open>
  \<^verbatim>\<open>encoding/json.Valid\<close>: the syntax check of Go's JSON scanner, by recursive descent.
  Every call consumes a byte or descends to a shorter production, so fuel of twice the input
  length plus two is enough; nesting deeper than 10000 is rejected, as in Go.
\<close>

definition json_ws :: "char \<Rightarrow> bool" where
  "json_ws c \<longleftrightarrow> c = CHR '' '' \<or> c = CHR 0x09 \<or> c = CHR 0x0A \<or> c = CHR 0x0D"

abbreviation skip_ws :: "string \<Rightarrow> string" where
  "skip_ws s \<equiv> dropWhile json_ws s"

definition is_hex :: "char \<Rightarrow> bool" where
  "is_hex c \<longleftrightarrow> is_digit c \<or> 97 \<le> byte c \<and> byte c \<le> 102 \<or> 65 \<le> byte c \<and> byte c \<le> 70"

text \<open>The rest of a string literal, after its opening quote.\<close>

fun json_string :: "string \<Rightarrow> string option" where
  "json_string [] = None"
| "json_string (c # cs) =
     (if c = CHR 0x22 then Some cs
      else if byte c < 32 then None
      else if c = CHR 0x5C then
        (case cs of [] \<Rightarrow> None
         | e # es \<Rightarrow>
             if e \<in> set [CHR 0x22, CHR 0x5C, CHR ''/'', CHR ''b'', CHR ''f'', CHR ''n'', CHR ''r'', CHR ''t'']
             then json_string es
             else if e = CHR ''u'' then
               (case es of a # b # c' # d # rest \<Rightarrow>
                  if is_hex a \<and> is_hex b \<and> is_hex c' \<and> is_hex d then json_string rest else None
                | _ \<Rightarrow> None)
             else None)
      else json_string cs)"

definition digits1 :: "string \<Rightarrow> string option" where
  "digits1 s = (if s \<noteq> [] \<and> is_digit (hd s) then Some (dropWhile is_digit s) else None)"

definition json_exponent :: "string \<Rightarrow> string option" where
  "json_exponent s =
     (case s of c # cs \<Rightarrow>
        if c = CHR ''e'' \<or> c = CHR ''E'' then
          (case cs of d # ds \<Rightarrow> if d = CHR ''+'' \<or> d = CHR ''-'' then digits1 ds else digits1 cs
           | [] \<Rightarrow> None)
        else Some s
      | [] \<Rightarrow> Some [])"

definition json_fraction :: "string \<Rightarrow> string option" where
  "json_fraction s =
     (case s of c # cs \<Rightarrow> if c = CHR ''.'' then Option.bind (digits1 cs) json_exponent else json_exponent s
      | [] \<Rightarrow> Some [])"

definition json_number :: "string \<Rightarrow> string option" where
  "json_number s =
     (let t = (case s of c # cs \<Rightarrow> if c = CHR ''-'' then cs else s | [] \<Rightarrow> [])
      in case t of [] \<Rightarrow> None
         | d # ds \<Rightarrow> if d = CHR ''0'' then json_fraction ds
                     else if is_digit d then json_fraction (dropWhile is_digit ds) else None)"

definition eat_literal :: "string \<Rightarrow> string \<Rightarrow> string option" where
  "eat_literal w s = (if prefix w s then Some (drop (length w) s) else None)"

fun json_value :: "nat \<Rightarrow> nat \<Rightarrow> string \<Rightarrow> string option"
  and json_members :: "nat \<Rightarrow> nat \<Rightarrow> string \<Rightarrow> string option"
  and json_elements :: "nat \<Rightarrow> nat \<Rightarrow> string \<Rightarrow> string option" where
  "json_value 0 depth s = None"
| "json_value (Suc k) depth s =
     (case skip_ws s of [] \<Rightarrow> None
      | c # cs \<Rightarrow>
        if c = CHR ''{'' then
          (if depth \<ge> 10000 then None
           else case skip_ws cs of d # ds \<Rightarrow> if d = CHR ''}'' then Some ds
                  else json_members k (Suc depth) (d # ds)
                | [] \<Rightarrow> None)
        else if c = CHR ''['' then
          (if depth \<ge> 10000 then None
           else case skip_ws cs of d # ds \<Rightarrow> if d = CHR '']'' then Some ds
                  else json_elements k (Suc depth) (d # ds)
                | [] \<Rightarrow> None)
        else if c = CHR 0x22 then json_string cs
        else if c = CHR ''t'' then eat_literal ''true'' (c # cs)
        else if c = CHR ''f'' then eat_literal ''false'' (c # cs)
        else if c = CHR ''n'' then eat_literal ''null'' (c # cs)
        else json_number (c # cs))"
| "json_members 0 depth s = None"
| "json_members (Suc k) depth s =
     (case skip_ws s of c # cs \<Rightarrow>
        if c \<noteq> CHR 0x22 then None
        else (case Option.bind (json_string cs) (\<lambda>t. eat_literal '':'' (skip_ws t)) of None \<Rightarrow> None
          | Some t \<Rightarrow> (case json_value k depth t of None \<Rightarrow> None
            | Some u \<Rightarrow> (case skip_ws u of d # ds \<Rightarrow>
                if d = CHR '','' then json_members k depth ds
                else if d = CHR ''}'' then Some ds else None
              | [] \<Rightarrow> None)))
      | [] \<Rightarrow> None)"
| "json_elements 0 depth s = None"
| "json_elements (Suc k) depth s =
     (case json_value k depth s of None \<Rightarrow> None
      | Some u \<Rightarrow> (case skip_ws u of d # ds \<Rightarrow>
          if d = CHR '','' then json_elements k depth ds
          else if d = CHR '']'' then Some ds else None
        | [] \<Rightarrow> None))"

definition json_valid :: "string \<Rightarrow> bool" where
  "json_valid s = (case json_value (2 * length s + 2) 0 s of None \<Rightarrow> False | Some t \<Rightarrow> skip_ws t = [])"


end
