(* ===== verification/Job_Db.thy ===== *)
theory Job_Db
  imports Job_Backoff Go_Json "HOL-Library.Product_Lexorder"
begin

text \<open>
  The tables the Job store works on, and the reading of their rows
  (\<^verbatim>\<open>internal/jobs/store/store.go\<close>).  A table is the list of its rows in insertion order; a
  nullable column is an \<open>option\<close>; a column of JSON retry metadata is absent, a decodable plan or
  bytes that do not decode.  Instants are stored exactly (PostgreSQL rounds to microseconds).
\<close>

section \<open>Rows\<close>

datatype status = Queued | Running | Succeeded | Failed | Cancelled

definition terminal :: "status \<Rightarrow> bool" where
  "terminal s \<longleftrightarrow> s = Succeeded \<or> s = Failed \<or> s = Cancelled"

datatype retry_col = NullRetry | RetryPlan retry | CorruptRetry

record app_row =
  ar_id :: int
  ar_name :: string
  ar_status :: string

record job_row =
  jr_id :: int
  jr_name :: string
  jr_app :: int
  jr_key :: string
  jr_source :: string
  jr_label :: string
  jr_description :: "string option"
  jr_queue :: string
  jr_timeout :: string
  jr_retry :: retry_col
  jr_enabled :: bool
  jr_retired :: bool

record exec_row =
  er_id :: int
  er_name :: string
  er_job :: int
  er_app_name :: string
  er_job_name :: string
  er_queue :: string
  er_status :: status
  er_priority :: int
  er_payload :: "string option"
  er_result :: "string option"
  er_error :: "string option"
  er_attempts :: int
  er_max_attempts :: int
  er_retry :: retry_col
  er_run_after :: instant
  er_started :: "instant option"
  er_finished :: "instant option"
  er_locked_by :: "string option"
  er_locked_until :: "instant option"
  er_key :: "string option"

text \<open>The messages a Schedule keeps about a run that enqueued nothing.\<close>

datatype schedule_failure =
    JobIsDisabled string string
  | JobIsRetired string string
  | JobHasInvalidTimeout string string string
  | JobRetryUnreadable string string

record sched_row =
  sr_id :: int
  sr_app :: int
  sr_key :: string
  sr_cron :: string
  sr_timezone :: string
  sr_job_app_name :: string
  sr_job_name :: string
  sr_job :: "int option"
  sr_enabled :: bool
  sr_retired :: bool
  sr_next :: "instant option"
  sr_last :: "instant option"
  sr_last_error :: "schedule_failure option"

text \<open>\<open>db_next\<close> is the sequence of the execution ids, \<open>db_notified\<close> the payloads sent on
  the channel \<^verbatim>\<open>dygo_job_execution_queued\<close>, oldest first.\<close>

record jobs_db =
  db_apps :: "app_row list"
  db_jobs :: "job_row list"
  db_execs :: "exec_row list"
  db_scheds :: "sched_row list"
  db_next :: int
  db_notified :: "string list"

section \<open>The Go values read from the rows\<close>

record job_record =
  jd_id :: int
  jd_name :: string
  jd_app :: string
  jd_key :: string
  jd_source :: string
  jd_label :: string
  jd_description :: string
  jd_queue :: string
  jd_timeout :: string
  jd_retry :: retry_col
  jd_enabled :: bool
  jd_retired :: bool

record registered_job =
  rj_id :: int
  rj_name :: string
  rj_app :: string
  rj_key :: string
  rj_source :: string
  rj_label :: string
  rj_description :: string
  rj_queue :: string
  rj_timeout :: string
  rj_retry :: "retry option"
  rj_enabled :: bool
  rj_retired :: bool

record execution =
  ex_id :: int
  ex_name :: string
  ex_job :: int
  ex_app :: string
  ex_job_name :: string
  ex_queue :: string
  ex_status :: status
  ex_priority :: int
  ex_payload :: string
  ex_result :: string
  ex_error :: string
  ex_attempts :: int
  ex_max_attempts :: int
  ex_retry :: "retry option"
  ex_run_after :: instant
  ex_started :: "instant option"
  ex_finished :: "instant option"
  ex_locked_by :: string
  ex_locked_until :: "instant option"
  ex_key :: string
  ex_timeout :: duration

datatype store_error =
    AppAndJobRequired
  | PayloadNotJson
  | JobNotRegistered string string
  | JobDisabled string string
  | JobRetired string string
  | JobQueueUnregistered string string string
  | JobTimeoutInvalid string string string
  | RetryMetadataInvalid
  | RandomNameFailed
  | DuplicateName string
  | NoRows
  | TimeoutInvalid string
  | ListLimitNotPositive
  | ReferenceRequired
  | IdNotPositive
  | ExecutionNotFound string
  | OnlyQueuedCancellable string status
  | NoLongerQueued string
  | RetryKeyRequired
  | OnlyFailedRetryable string status
  | RetryDelayFailed int delay_error
  | WorkerRequired
  | QueueNotRegistered string
  | ClaimTimeoutInvalid int string
  | ResultNotJson
  | ClaimLost int
  | PruneArguments
  | NextRunFailed string

definition or_empty :: "string option \<Rightarrow> string" where
  "or_empty v = (case v of None \<Rightarrow> [] | Some s \<Rightarrow> s)"

definition payload_or_nil :: "string \<Rightarrow> string option" where
  "payload_or_nil p = (if p = [] then None else Some p)"

definition null_if_empty :: "string \<Rightarrow> string option" where
  "null_if_empty v = (if blank v then None else Some v)"

definition decode_retry :: "retry_col \<Rightarrow> store_error + retry option" where
  "decode_retry c = (case c of NullRetry \<Rightarrow> Inr None | RetryPlan r \<Rightarrow> Inr (Some r)
     | CorruptRetry \<Rightarrow> Inl RetryMetadataInvalid)"

definition encode_retry :: "retry option \<Rightarrow> retry_col" where
  "encode_retry r = (case r of None \<Rightarrow> NullRetry | Some p \<Rightarrow> RetryPlan p)"

text \<open>A timeout is usable when it parses to a positive duration.\<close>

definition positive_timeout :: "string \<Rightarrow> duration option" where
  "positive_timeout t = (case parse_duration t of None \<Rightarrow> None | Some d \<Rightarrow> if d \<le> 0 then None else Some d)"

definition scan_job_record :: "app_row \<Rightarrow> job_row \<Rightarrow> job_record" where
  "scan_job_record a j = \<lparr>jd_id = jr_id j, jd_name = jr_name j, jd_app = ar_name a, jd_key = jr_key j,
     jd_source = jr_source j, jd_label = jr_label j, jd_description = or_empty (jr_description j),
     jd_queue = jr_queue j, jd_timeout = jr_timeout j, jd_retry = jr_retry j,
     jd_enabled = jr_enabled j, jd_retired = jr_retired j\<rparr>"

definition job_from_record :: "job_record \<Rightarrow> store_error + registered_job" where
  "job_from_record d = bindR (decode_retry (jd_retry d)) (\<lambda>r. Inr
     \<lparr>rj_id = jd_id d, rj_name = jd_name d, rj_app = jd_app d, rj_key = jd_key d,
      rj_source = jd_source d, rj_label = jd_label d, rj_description = jd_description d,
      rj_queue = jd_queue d, rj_timeout = jd_timeout d, rj_retry = r,
      rj_enabled = jd_enabled d, rj_retired = jd_retired d\<rparr>)"

definition scan_execution :: "exec_row \<Rightarrow> job_row \<Rightarrow> store_error + execution" where
  "scan_execution e j =
     bindR (decode_retry (er_retry e)) (\<lambda>r.
     case positive_timeout (jr_timeout j) of None \<Rightarrow> Inl (TimeoutInvalid (jr_timeout j))
     | Some timeout \<Rightarrow> Inr
       \<lparr>ex_id = er_id e, ex_name = er_name e, ex_job = er_job e, ex_app = er_app_name e,
        ex_job_name = er_job_name e, ex_queue = er_queue e, ex_status = er_status e,
        ex_priority = er_priority e, ex_payload = or_empty (er_payload e),
        ex_result = or_empty (er_result e), ex_error = or_empty (er_error e),
        ex_attempts = er_attempts e, ex_max_attempts = er_max_attempts e, ex_retry = r,
        ex_run_after = er_run_after e, ex_started = er_started e, ex_finished = er_finished e,
        ex_locked_by = or_empty (er_locked_by e), ex_locked_until = er_locked_until e,
        ex_key = or_empty (er_key e), ex_timeout = timeout\<rparr>)"

lemma decode_encode_retry [simp]: "decode_retry (encode_retry r) = Inr r"
  by (cases r) (simp_all add: decode_retry_def encode_retry_def)

lemma or_empty_simps [simp]: "or_empty None = []" "or_empty (Some s) = s"
  by (simp_all add: or_empty_def)

lemma or_empty_payload_or_nil [simp]: "or_empty (payload_or_nil p) = p"
  by (simp add: payload_or_nil_def)

lemma scan_execution_Inr:
  assumes "scan_execution e j = Inr ex"
  shows "ex_id ex = er_id e" "ex_status ex = er_status e" "ex_attempts ex = er_attempts e"
    "ex_max_attempts ex = er_max_attempts e" "ex_locked_by ex = or_empty (er_locked_by e)"
    "ex_name ex = er_name e" "ex_job ex = er_job e" "ex_queue ex = er_queue e"
    "ex_payload ex = or_empty (er_payload e)" "ex_key ex = or_empty (er_key e)"
    "ex_priority ex = er_priority e" "ex_run_after ex = er_run_after e"
    "ex_app ex = er_app_name e" "ex_job_name ex = er_job_name e"
    "ex_locked_until ex = er_locked_until e"
  using assms by (auto simp: scan_execution_def bindR_def split: sum.splits option.splits)

section \<open>Joins\<close>

text \<open>\<^verbatim>\<open>"job" j JOIN "app" a ON a.id = j.app_id\<close> and
  \<^verbatim>\<open>"job_execution" e JOIN "job" j ON j.id = e.job_id\<close>.\<close>

definition joined_jobs :: "jobs_db \<Rightarrow> (app_row \<times> job_row) list" where
  "joined_jobs db = [(a, j). j \<leftarrow> db_jobs db, a \<leftarrow> db_apps db, ar_id a = jr_app j]"

definition joined_execs :: "jobs_db \<Rightarrow> (exec_row \<times> job_row) list" where
  "joined_execs db = [(e, j). e \<leftarrow> db_execs db, j \<leftarrow> db_jobs db, jr_id j = er_job e]"

lemma joined_execs_mem: "(e, j) \<in> set (joined_execs db) \<longleftrightarrow>
    e \<in> set (db_execs db) \<and> j \<in> set (db_jobs db) \<and> jr_id j = er_job e"
  by (auto simp: joined_execs_def)

lemma joined_jobs_mem: "(a, j) \<in> set (joined_jobs db) \<longleftrightarrow>
    a \<in> set (db_apps db) \<and> j \<in> set (db_jobs db) \<and> ar_id a = jr_app j"
  by (auto simp: joined_jobs_def)

text \<open>\<^verbatim>\<open>QueryRow(...).Scan\<close> through \<^verbatim>\<open>scanExecution\<close>: the first row, or
  \<^verbatim>\<open>pgx.ErrNoRows\<close>.\<close>

definition first_execution :: "(exec_row \<times> job_row) list \<Rightarrow> store_error + execution" where
  "first_execution rows = (case rows of [] \<Rightarrow> Inl NoRows | (e, j) # _ \<Rightarrow> scan_execution e j)"

definition find_by_id :: "int \<Rightarrow> jobs_db \<Rightarrow> store_error + execution" where
  "find_by_id i db = first_execution (filter (\<lambda>(e, j). er_id e = i) (joined_execs db))"

definition find_by_name :: "string \<Rightarrow> jobs_db \<Rightarrow> store_error + execution" where
  "find_by_name n db = first_execution (filter (\<lambda>(e, j). er_name e = n) (joined_execs db))"

definition find_by_reference :: "string \<Rightarrow> jobs_db \<Rightarrow> store_error + execution" where
  "find_by_reference ref db =
     (case parse_int64 ref of
        Some i \<Rightarrow> if i < 1 then Inl IdNotPositive else find_by_id i db
      | None \<Rightarrow> find_by_name ref db)"

definition find_by_key :: "int \<Rightarrow> string \<Rightarrow> jobs_db \<Rightarrow> store_error + execution option" where
  "find_by_key job k db =
     (case first_execution (sort_key (\<lambda>(e, j). er_id e)
          (filter (\<lambda>(e, j). er_job e = job \<and> er_key e = Some k) (joined_execs db))) of
        Inl NoRows \<Rightarrow> Inr None
      | Inl err \<Rightarrow> Inl err
      | Inr ex \<Rightarrow> Inr (Some ex))"

lemma first_execution_Inr:
  assumes "first_execution rows = Inr ex"
  obtains e j where "(e, j) \<in> set rows" "scan_execution e j = Inr ex"
  using assms by (auto simp: first_execution_def split: list.splits)

lemma first_execution_NoRows: "first_execution rows = Inl NoRows \<longleftrightarrow> rows = []"
  by (auto simp: first_execution_def scan_execution_def bindR_def decode_retry_def
      split: list.splits sum.splits option.splits retry_col.splits)

lemma find_by_id_Inr:
  assumes "find_by_id i db = Inr ex"
  obtains e j where "e \<in> set (db_execs db)" "j \<in> set (db_jobs db)" "jr_id j = er_job e" "er_id e = i"
    "scan_execution e j = Inr ex"
  using assms by (auto simp: find_by_id_def joined_execs_mem elim!: first_execution_Inr)

lemma find_by_key_Some:
  assumes "find_by_key job k db = Inr (Some ex)"
  obtains e j where "e \<in> set (db_execs db)" "j \<in> set (db_jobs db)" "jr_id j = er_job e" "er_job e = job"
    "er_key e = Some k" "scan_execution e j = Inr ex"
  using assms
  by (auto simp: find_by_key_def joined_execs_mem split: sum.splits store_error.splits
      elim!: first_execution_Inr)

lemma find_by_key_None:
  "find_by_key job k db = Inr None \<longleftrightarrow>
     (\<forall>e\<in>set (db_execs db). \<forall>j\<in>set (db_jobs db). jr_id j = er_job e \<longrightarrow>
        \<not> (er_job e = job \<and> er_key e = Some k))"
proof -
  let ?rows = "filter (\<lambda>(e, j). er_job e = job \<and> er_key e = Some k) (joined_execs db)"
  have "find_by_key job k db = Inr None \<longleftrightarrow> first_execution (sort_key (\<lambda>(e, j). er_id e) ?rows) = Inl NoRows"
    by (auto simp: find_by_key_def split: sum.splits store_error.splits)
  also have "\<dots> \<longleftrightarrow> set ?rows = {}"
    by (simp add: first_execution_NoRows flip: set_empty)
  also have "\<dots> \<longleftrightarrow> (\<forall>e\<in>set (db_execs db). \<forall>j\<in>set (db_jobs db). jr_id j = er_job e \<longrightarrow>
        \<not> (er_job e = job \<and> er_key e = Some k))"
    by (auto simp: joined_execs_mem)
  finally show ?thesis .
qed

end
