(* ===== verification/Job_Store.thy ===== *)
theory Job_Store
  imports Job_Db
begin

text \<open>
  The operations of the Job store (\<^verbatim>\<open>internal/jobs/store/store.go\<close> and
  \<^verbatim>\<open>retention.go\<close>).  Each one is a transaction: a function of the database into an error
  (the transaction is rolled back, the database is the old one) or the result and the new
  database.  What the transaction sees of other sessions is an argument: \<open>skip\<close> holds the ids
  of the executions locked elsewhere, which \<^verbatim>\<open>SKIP LOCKED\<close> passes over.
  \<open>rnd\<close> is the jitter source of each execution, \<open>name\<close> the random name of a new row
  (\<open>None\<close> when the random source fails).
\<close>

record store_env =
  se_queues :: "queue_config option"
  se_installing :: "string list"
  se_now :: instant

record enqueue_options =
  eo_key :: string
  eo_priority :: int
  eo_run_after :: instant

section \<open>Loading Jobs\<close>

definition runtime_app :: "string list \<Rightarrow> app_row \<Rightarrow> bool" where
  "runtime_app installing a \<longleftrightarrow> ar_status a = ''active'' \<or> ar_name a \<in> set installing"

definition load_job :: "string list \<Rightarrow> string \<Rightarrow> string \<Rightarrow> jobs_db \<Rightarrow> store_error + job_record" where
  "load_job installing app job db =
     (let app' = trim_space app; job' = trim_space job
      in if app' = [] \<or> job' = [] then Inl AppAndJobRequired
         else case filter (\<lambda>(a, j). ar_name a = app' \<and> jr_key j = job' \<and> runtime_app installing a)
                (joined_jobs db) of
           [] \<Rightarrow> Inl (JobNotRegistered app' job')
         | (a, j) # _ \<Rightarrow> Inr (scan_job_record a j))"

definition get_job :: "string list \<Rightarrow> string \<Rightarrow> string \<Rightarrow> jobs_db \<Rightarrow> store_error + registered_job" where
  "get_job installing app job db = bindR (load_job installing app job db) job_from_record"

definition list_jobs :: "jobs_db \<Rightarrow> store_error + registered_job list" where
  "list_jobs db = mapR (\<lambda>(a, j). job_from_record (scan_job_record a j))
     (sort_key (\<lambda>(a, j). (ar_name a, jr_key j)) (filter (\<lambda>(a, j). ar_status a = ''active'') (joined_jobs db)))"

text \<open>The change is committed before the record is decoded: unreadable retry metadata is reported
  next to the new database.\<close>

definition set_job_enabled :: "string list \<Rightarrow> string \<Rightarrow> string \<Rightarrow> bool \<Rightarrow> jobs_db \<Rightarrow>
    store_error + (store_error + registered_job) \<times> jobs_db" where
  "set_job_enabled installing app job enabled db =
     bindR (load_job installing app job db) (\<lambda>d.
     if enabled \<and> jd_retired d then Inl (JobRetired (jd_app d) (jd_key d))
     else let db' = db\<lparr>db_jobs := update_where (\<lambda>j. jr_id j = jd_id d) (\<lambda>j. j\<lparr>jr_enabled := enabled\<rparr>) (db_jobs db)\<rparr>
          in Inr (job_from_record (d\<lparr>jd_enabled := enabled\<rparr>), db'))"

section \<open>Enqueueing\<close>

definition notify_queue :: "string \<Rightarrow> jobs_db \<Rightarrow> jobs_db" where
  "notify_queue q db = db\<lparr>db_notified := db_notified db @ [q]\<rparr>"

text \<open>\<^verbatim>\<open>INSERT ... ON CONFLICT ON CONSTRAINT ... DO NOTHING RETURNING id\<close>: no row comes back
  when the Job already has an execution with the key; a name in use is an error.\<close>

definition key_taken :: "int \<Rightarrow> string option \<Rightarrow> jobs_db \<Rightarrow> bool" where
  "key_taken job key db = (key \<noteq> None \<and> list_ex (\<lambda>e. er_job e = job \<and> er_key e = key) (db_execs db))"

definition new_row :: "string \<Rightarrow> job_record \<Rightarrow> retry option \<Rightarrow> int \<Rightarrow> string option \<Rightarrow> instant \<Rightarrow>
    string \<Rightarrow> int \<Rightarrow> int \<Rightarrow> exec_row" where
  "new_row name job retry maxa payload run_after key priority i =
     \<lparr>er_id = i, er_name = name, er_job = jd_id job, er_app_name = jd_app job, er_job_name = jd_key job,
      er_queue = jd_queue job, er_status = Queued, er_priority = priority, er_payload = payload,
      er_result = None, er_error = None, er_attempts = 0, er_max_attempts = maxa,
      er_retry = encode_retry retry, er_run_after = run_after, er_started = None, er_finished = None,
      er_locked_by = None, er_locked_until = None, er_key = null_if_empty key\<rparr>"

definition insert_execution :: "string \<Rightarrow> job_record \<Rightarrow> duration \<Rightarrow> retry option \<Rightarrow> int \<Rightarrow> string option \<Rightarrow>
    instant \<Rightarrow> string \<Rightarrow> int \<Rightarrow> jobs_db \<Rightarrow> store_error + execution \<times> bool \<times> jobs_db" where
  "insert_execution name job timeout retry maxa payload run_after key priority db =
     (if key_taken (jd_id job) (null_if_empty key) db then
        (if key = [] then Inl NoRows
         else bindR (find_by_key (jd_id job) key db) (\<lambda>found.
           case found of Some ex \<Rightarrow> Inr (ex, False, db) | None \<Rightarrow> Inl NoRows))
      else if list_ex (\<lambda>e. er_name e = name) (db_execs db) then Inl (DuplicateName name)
      else let i = db_next db;
               db' = db\<lparr>db_execs := db_execs db @ [new_row name job retry maxa payload run_after key priority i],
                        db_next := i + 1\<rparr>
           in bindR (find_by_id i db') (\<lambda>ex. Inr (ex\<lparr>ex_timeout := timeout\<rparr>, True, db')))"

definition notify_if :: "bool \<Rightarrow> string \<Rightarrow> jobs_db \<Rightarrow> jobs_db" where
  "notify_if b q db = (if b then notify_queue q db else db)"

definition enqueue :: "store_env \<Rightarrow> string option \<Rightarrow> string \<Rightarrow> string \<Rightarrow> string \<Rightarrow> enqueue_options \<Rightarrow> jobs_db \<Rightarrow>
    store_error + execution \<times> jobs_db" where
  "enqueue env name app job payload opts db =
     (if blank app \<or> blank job then Inl AppAndJobRequired
      else if payload \<noteq> [] \<and> \<not> json_valid payload then Inl PayloadNotJson
      else bindR (load_job (se_installing env) app job db) (\<lambda>d.
      if \<not> jd_enabled d then Inl (JobDisabled app job)
      else if jd_retired d then Inl (JobRetired app job)
      else if (case se_queues env of None \<Rightarrow> False | Some qc \<Rightarrow> \<not> has_queue qc (jd_queue d))
        then Inl (JobQueueUnregistered app job (jd_queue d))
      else case positive_timeout (jd_timeout d) of None \<Rightarrow> Inl (JobTimeoutInvalid app job (jd_timeout d))
      | Some timeout \<Rightarrow>
        bindR (decode_retry (jd_retry d)) (\<lambda>retry.
        let maxa = (case retry of None \<Rightarrow> 1 | Some r \<Rightarrow> r_attempts r);
            key = trim_space (eo_key opts)
        in bindR (if key \<noteq> [] then find_by_key (jd_id d) key db else Inr None) (\<lambda>existing.
           case existing of Some ex \<Rightarrow> Inr (ex, db)
           | None \<Rightarrow>
             let run_after = (if eo_run_after opts = zero_time then se_now env else eo_run_after opts)
             in (case name of None \<Rightarrow> Inl RandomNameFailed
                | Some n \<Rightarrow>
                  bindR (insert_execution n d timeout retry maxa (payload_or_nil payload) run_after key
                    (eo_priority opts) db) (\<lambda>(ex, inserted, db').
                  Inr (ex, notify_if inserted (ex_queue ex) db')))))))"

section \<open>Reading, cancelling and retrying by hand\<close>

definition list_executions :: "int \<Rightarrow> jobs_db \<Rightarrow> store_error + execution list" where
  "list_executions lim db =
     (let n = (if lim = 0 then 20 else lim)
      in if n < 1 then Inl ListLimitNotPositive
         else mapR (\<lambda>(e, j). scan_execution e j)
                (take (nat n) (sort_key (\<lambda>(e, j). - er_id e) (joined_execs db))))"

definition get :: "string \<Rightarrow> jobs_db \<Rightarrow> store_error + execution" where
  "get reference db =
     (let ref = trim_space reference
      in if ref = [] then Inl ReferenceRequired
         else case find_by_reference ref db of
           Inl NoRows \<Rightarrow> Inl (ExecutionNotFound ref)
         | r \<Rightarrow> r)"

definition cancel :: "int \<Rightarrow> instant \<Rightarrow> jobs_db \<Rightarrow> bool \<times> jobs_db" where
  "cancel i now db =
     (let P = (\<lambda>e. er_id e = i \<and> er_status e = Queued)
      in (list_ex P (db_execs db),
          db\<lparr>db_execs := update_where P (\<lambda>e. e\<lparr>er_status := Cancelled, er_finished := Some now\<rparr>) (db_execs db)\<rparr>))"

definition cancel_queued :: "string \<Rightarrow> instant \<Rightarrow> jobs_db \<Rightarrow> store_error + execution \<times> jobs_db" where
  "cancel_queued reference now db =
     (let ref = trim_space reference
      in bindR (get ref db) (\<lambda>ex.
         if ex_status ex \<noteq> Queued then Inl (OnlyQueuedCancellable ref (ex_status ex))
         else let (cancelled, db') = cancel (ex_id ex) now db
              in if \<not> cancelled then Inl (NoLongerQueued ref)
                 else Inr (ex\<lparr>ex_status := Cancelled, ex_finished := Some now\<rparr>, db')))"

definition retry_execution :: "store_env \<Rightarrow> string option \<Rightarrow> string \<Rightarrow> string \<Rightarrow> jobs_db \<Rightarrow>
    store_error + execution \<times> jobs_db" where
  "retry_execution env name reference key db =
     (let ref = trim_space reference; k = trim_space key
      in if k = [] then Inl RetryKeyRequired
         else bindR (get ref db) (\<lambda>ex.
           if ex_status ex \<noteq> Failed then Inl (OnlyFailedRetryable ref (ex_status ex))
           else enqueue env name (ex_app ex) (ex_job_name ex) (ex_payload ex)
             \<lparr>eo_key = k, eo_priority = 0, eo_run_after = zero_time\<rparr> db))"

section \<open>Claiming\<close>

definition normalize_queue_names :: "string list \<Rightarrow> string list" where
  "normalize_queue_names names = dedup (filter (\<lambda>n. n \<noteq> []) (map trim_space names))"

text \<open>The loop that rejects the first queue the configuration does not register.\<close>

definition check_queues :: "store_env \<Rightarrow> string list \<Rightarrow> store_error + unit" where
  "check_queues env names =
     (case se_queues env of None \<Rightarrow> Inr ()
      | Some qc \<Rightarrow> (case find (\<lambda>q. \<not> has_queue qc q) names of None \<Rightarrow> Inr () | Some q \<Rightarrow> Inl (QueueNotRegistered q)))"

definition claimable :: "string list \<Rightarrow> instant \<Rightarrow> exec_row \<Rightarrow> bool" where
  "claimable queues now e \<longleftrightarrow> er_status e = Queued \<and> er_run_after e \<le> now \<and> er_queue e \<in> set queues"

definition claim_rank :: "exec_row \<Rightarrow> int \<times> instant \<times> int" where
  "claim_rank e = (- er_priority e, er_run_after e, er_id e)"

text \<open>The rows of the selecting query, before \<^verbatim>\<open>LIMIT\<close>.\<close>

definition claim_candidates :: "string list \<Rightarrow> instant \<Rightarrow> int list \<Rightarrow> jobs_db \<Rightarrow> (exec_row \<times> job_row) list" where
  "claim_candidates queues now skip db =
     sort_key (\<lambda>(e, j). claim_rank e)
       (filter (\<lambda>(e, j). claimable queues now e \<and> er_id e \<notin> set skip
            \<and> list_ex (\<lambda>a. ar_id a = jr_app j \<and> ar_status a = ''active'') (db_apps db)) (joined_execs db))"

text \<open>\<^verbatim>\<open>claimExecutionSQL\<close> on one row.\<close>

definition claim_row :: "instant \<Rightarrow> duration \<Rightarrow> string \<Rightarrow> exec_row \<Rightarrow> exec_row" where
  "claim_row now timeout worker e =
     e\<lparr>er_status := Running, er_started := Some now, er_locked_until := Some (now + timeout),
       er_locked_by := Some worker, er_attempts := er_attempts e + 1\<rparr>"

definition claim_one :: "instant \<Rightarrow> string \<Rightarrow> jobs_db \<times> execution list \<Rightarrow> int \<times> duration \<Rightarrow>
    store_error + jobs_db \<times> execution list" where
  "claim_one now worker s c =
     (let (db, acc) = s; (i, timeout) = c;
          db' = db\<lparr>db_execs := update_where (\<lambda>e. er_id e = i \<and> list_ex (\<lambda>j. jr_id j = er_job e) (db_jobs db))
                   (claim_row now timeout worker) (db_execs db)\<rparr>
      in bindR (find_by_id i db') (\<lambda>ex. Inr (db', acc @ [ex\<lparr>ex_timeout := timeout\<rparr>])))"

definition scan_claim :: "exec_row \<times> job_row \<Rightarrow> store_error + int \<times> duration" where
  "scan_claim p = (let (e, j) = p in case positive_timeout (jr_timeout j) of
       None \<Rightarrow> Inl (ClaimTimeoutInvalid (er_id e) (jr_timeout j)) | Some t \<Rightarrow> Inr (er_id e, t))"

definition claim :: "store_env \<Rightarrow> string list \<Rightarrow> int \<Rightarrow> string \<Rightarrow> instant \<Rightarrow> int list \<Rightarrow> jobs_db \<Rightarrow>
    store_error + execution list \<times> jobs_db" where
  "claim env names limit worker now skip db =
     (let queues = normalize_queue_names names
      in if queues = [] \<or> limit < 1 then Inr ([], db)
         else if blank worker then Inl WorkerRequired
         else bindR (check_queues env queues) (\<lambda>_.
              bindR (mapR scan_claim (take (nat limit) (claim_candidates queues now skip db))) (\<lambda>claimed.
              bindR (foldR (claim_one now worker) (db, []) claimed) (\<lambda>(db', exs).
              Inr (exs, db')))))"

definition next_run_after :: "store_env \<Rightarrow> string list \<Rightarrow> instant \<Rightarrow> jobs_db \<Rightarrow> store_error + instant option" where
  "next_run_after env names now db =
     (let queues = normalize_queue_names names
      in if queues = [] then Inr None
         else bindR (check_queues env queues) (\<lambda>_.
           let ts = map er_run_after (filter (\<lambda>e. er_status e = Queued \<and> er_queue e \<in> set queues
                \<and> now < er_run_after e) (db_execs db))
           in Inr (if ts = [] then None else Some (Min (set ts)))))"

section \<open>Finishing\<close>

text \<open>The condition every finishing statement puts on the row: the worker still owns this
  attempt of the execution.\<close>

definition owns :: "execution \<Rightarrow> exec_row \<Rightarrow> bool" where
  "owns ex e \<longleftrightarrow> er_id e = ex_id ex \<and> er_status e = Running
     \<and> er_locked_by e = Some (ex_locked_by ex) \<and> er_attempts e = ex_attempts ex"

definition complete_row :: "string option \<Rightarrow> instant \<Rightarrow> exec_row \<Rightarrow> exec_row" where
  "complete_row result now e = e\<lparr>er_status := Succeeded, er_result := result, er_finished := Some now,
     er_locked_by := None, er_locked_until := None\<rparr>"

definition final_row :: "string \<Rightarrow> instant \<Rightarrow> exec_row \<Rightarrow> exec_row" where
  "final_row message now e = e\<lparr>er_status := Failed, er_error := Some message, er_finished := Some now,
     er_locked_by := None, er_locked_until := None\<rparr>"

definition requeue_row :: "string \<Rightarrow> instant \<Rightarrow> exec_row \<Rightarrow> exec_row" where
  "requeue_row message at e = e\<lparr>er_status := Queued, er_error := Some message, er_run_after := at,
     er_locked_by := None, er_locked_until := None\<rparr>"

definition complete :: "execution \<Rightarrow> string \<Rightarrow> instant \<Rightarrow> jobs_db \<Rightarrow> store_error + jobs_db" where
  "complete ex result now db =
     (if result \<noteq> [] \<and> \<not> json_valid result then Inl ResultNotJson
      else if \<not> list_ex (owns ex) (db_execs db) then Inl (ClaimLost (ex_id ex))
      else Inr (db\<lparr>db_execs := update_where (owns ex) (complete_row (payload_or_nil result) now) (db_execs db)\<rparr>))"

definition retry_or_fail :: "(int \<Rightarrow> int \<Rightarrow> int) \<Rightarrow> int \<Rightarrow> int \<Rightarrow> int \<Rightarrow> retry option \<Rightarrow> string \<Rightarrow> instant \<Rightarrow>
    jobs_db \<Rightarrow> store_error + jobs_db" where
  "retry_or_fail rnd i attempts maxa retry message now db =
     (let msg = trim_space message
      in if attempts < maxa then
           (case retry_delay (rnd i) retry attempts of Inl err \<Rightarrow> Inl (RetryDelayFailed i err)
            | Inr delay \<Rightarrow>
              (case find (\<lambda>e. er_id e = i) (db_execs db) of None \<Rightarrow> Inl NoRows
               | Some e \<Rightarrow> Inr (notify_queue (er_queue e)
                   (db\<lparr>db_execs := update_where (\<lambda>e. er_id e = i) (requeue_row msg (now + delay)) (db_execs db)\<rparr>))))
         else Inr (db\<lparr>db_execs := update_where (\<lambda>e. er_id e = i) (final_row msg now) (db_execs db)\<rparr>))"

definition fail :: "(int \<Rightarrow> int \<Rightarrow> int) \<Rightarrow> execution \<Rightarrow> string \<Rightarrow> instant \<Rightarrow> jobs_db \<Rightarrow> store_error + jobs_db" where
  "fail rnd ex message now db =
     (case find (owns ex) (db_execs db) of None \<Rightarrow> Inl (ClaimLost (ex_id ex))
      | Some e \<Rightarrow> bindR (decode_retry (er_retry e)) (\<lambda>retry.
          retry_or_fail rnd (ex_id ex) (er_attempts e) (er_max_attempts e) retry message now db))"

definition fail_final :: "execution \<Rightarrow> string \<Rightarrow> instant \<Rightarrow> jobs_db \<Rightarrow> store_error + jobs_db" where
  "fail_final ex message now db =
     (if \<not> list_ex (owns ex) (db_execs db) then Inl (ClaimLost (ex_id ex))
      else Inr (db\<lparr>db_execs := update_where (owns ex) (final_row (trim_space message) now) (db_execs db)\<rparr>))"

definition expire_claim :: "execution \<Rightarrow> instant \<Rightarrow> jobs_db \<Rightarrow> store_error + jobs_db" where
  "expire_claim ex now db =
     (case find (owns ex) (db_execs db) of None \<Rightarrow> Inl (ClaimLost (ex_id ex))
      | Some e \<Rightarrow> Inr (notify_queue (er_queue e)
          (db\<lparr>db_execs := update_where (owns ex) (\<lambda>e. e\<lparr>er_locked_until := Some now\<rparr>) (db_execs db)\<rparr>)))"

text \<open>\<^verbatim>\<open>RecoverExpired\<close>: the rows whose lease has run out, each retried or failed.\<close>

definition lease_expired :: "instant \<Rightarrow> exec_row \<Rightarrow> bool" where
  "lease_expired now e \<longleftrightarrow> er_status e = Running
     \<and> (case er_locked_until e of None \<Rightarrow> False | Some t \<Rightarrow> t \<le> now)"

definition recover_one :: "(int \<Rightarrow> int \<Rightarrow> int) \<Rightarrow> instant \<Rightarrow> jobs_db \<Rightarrow> exec_row \<Rightarrow> store_error + jobs_db" where
  "recover_one rnd now db e = bindR (decode_retry (er_retry e)) (\<lambda>retry.
     retry_or_fail rnd (er_id e) (er_attempts e) (er_max_attempts e) retry ''worker lease expired'' now db)"

definition recover_expired :: "(int \<Rightarrow> int \<Rightarrow> int) \<Rightarrow> instant \<Rightarrow> int list \<Rightarrow> jobs_db \<Rightarrow> store_error + int \<times> jobs_db" where
  "recover_expired rnd now skip db =
     (let rows = filter (\<lambda>e. lease_expired now e \<and> er_id e \<notin> set skip) (db_execs db)
      in bindR (foldR (recover_one rnd now) db rows) (\<lambda>db'. Inr (int (length rows), db')))"

section \<open>Retention\<close>

definition prunable :: "string list \<Rightarrow> instant \<Rightarrow> exec_row \<Rightarrow> bool" where
  "prunable queues cutoff e \<longleftrightarrow> er_queue e \<in> set queues \<and> terminal (er_status e)
     \<and> (case er_finished e of None \<Rightarrow> False | Some t \<Rightarrow> t < cutoff) \<and> er_key e = None"

definition prune_candidates :: "string list \<Rightarrow> instant \<Rightarrow> int \<Rightarrow> int list \<Rightarrow> jobs_db \<Rightarrow> int list" where
  "prune_candidates queues cutoff limit skip db =
     map er_id (take (nat limit) (sort_key (\<lambda>e. (the (er_finished e), er_id e))
       (filter (\<lambda>e. prunable queues cutoff e \<and> er_id e \<notin> set skip) (db_execs db))))"

definition prune_terminal :: "string list \<Rightarrow> instant \<Rightarrow> int \<Rightarrow> int list \<Rightarrow> jobs_db \<Rightarrow> store_error + int \<times> jobs_db" where
  "prune_terminal queues cutoff limit skip db =
     (if queues = [] \<or> cutoff = zero_time \<or> limit < 1 then Inl PruneArguments
      else let ids = prune_candidates queues cutoff limit skip db;
               gone = filter (\<lambda>e. er_id e \<in> set ids) (db_execs db)
           in Inr (int (length gone), db\<lparr>db_execs := filter (\<lambda>e. er_id e \<notin> set ids) (db_execs db)\<rparr>))"

end
