(* ===== verification/Job_Schedules.thy ===== *)
theory Job_Schedules
  imports Job_Store Schedules_Meta Go_Time
begin

text \<open>
  Running due Schedules (\<^verbatim>\<open>internal/jobs/store/schedules.go\<close>): one transaction that
  enqueues an execution per due occurrence, keyed by the occurrence, and moves every Schedule it
  touched to its next occurrence.  \<open>next_run\<close> is \<^verbatim>\<open>schedules.NextRunAt\<close> with its
  library parameters applied, \<open>names\<close> the random name drawn for the row of a Schedule.
\<close>

record due_schedule =
  du_id :: int
  du_app :: string
  du_key :: string
  du_cron :: string
  du_timezone :: string
  du_job_app :: string
  du_job_name :: string
  du_next :: instant
  du_job :: job_record

definition schedule_queue_names :: "store_env \<Rightarrow> string list \<Rightarrow> store_error + string list" where
  "schedule_queue_names env names =
     (let queues = normalize_queue_names names
      in bindR (check_queues env queues) (\<lambda>_. Inr queues))"

text \<open>The four-way join: Schedule, its app, its Job, the app of the Job; the \<^verbatim>\<open>WHERE\<close>
  clause shared by both queries.\<close>

definition joined_schedules :: "jobs_db \<Rightarrow> (sched_row \<times> app_row \<times> job_row \<times> app_row) list" where
  "joined_schedules db = [(s, a, j, ja). s \<leftarrow> db_scheds db, a \<leftarrow> db_apps db, ar_id a = sr_app s,
     j \<leftarrow> db_jobs db, sr_job s = Some (jr_id j), ja \<leftarrow> db_apps db, ar_id ja = jr_app j]"

definition schedule_live :: "string list \<Rightarrow> sched_row \<times> app_row \<times> job_row \<times> app_row \<Rightarrow> bool" where
  "schedule_live queues p = (case p of (s, a, j, ja) \<Rightarrow>
     ar_status a = ''active'' \<and> ar_status ja = ''active'' \<and> sr_enabled s \<and> \<not> sr_retired s
     \<and> sr_next s \<noteq> None \<and> jr_queue j \<in> set queues)"

definition to_due :: "sched_row \<times> app_row \<times> job_row \<times> app_row \<Rightarrow> due_schedule" where
  "to_due p = (case p of (s, a, j, ja) \<Rightarrow>
     \<lparr>du_id = sr_id s, du_app = ar_name a, du_key = sr_key s, du_cron = sr_cron s,
      du_timezone = sr_timezone s, du_job_app = sr_job_app_name s, du_job_name = sr_job_name s,
      du_next = the (sr_next s), du_job = scan_job_record ja j\<rparr>)"

definition find_due_schedules :: "string list \<Rightarrow> instant \<Rightarrow> int \<Rightarrow> int list \<Rightarrow> jobs_db \<Rightarrow> due_schedule list" where
  "find_due_schedules queues now limit skip db =
     map to_due (take (nat limit) (sort_key (\<lambda>(s, a, j, ja). (the (sr_next s), sr_id s))
       (filter (\<lambda>p. schedule_live queues p \<and> the (sr_next (fst p)) \<le> now \<and> sr_id (fst p) \<notin> set skip)
         (joined_schedules db))))"

definition schedule_job_blocker :: "job_record \<Rightarrow> schedule_failure option" where
  "schedule_job_blocker d =
     (if \<not> jd_enabled d then Some (JobIsDisabled (jd_app d) (jd_key d))
      else if jd_retired d then Some (JobIsRetired (jd_app d) (jd_key d)) else None)"

definition schedule_idempotency_key :: "string \<Rightarrow> string \<Rightarrow> instant \<Rightarrow> string" where
  "schedule_idempotency_key app name due_at = ''schedule:'' @ app @ ''/'' @ name @ '':'' @ rfc3339 due_at"

definition update_schedule_success :: "int \<Rightarrow> instant \<Rightarrow> instant \<Rightarrow> jobs_db \<Rightarrow> jobs_db" where
  "update_schedule_success i last_run next_run db = db\<lparr>db_scheds := update_where (\<lambda>s. sr_id s = i)
     (\<lambda>s. s\<lparr>sr_last := Some last_run, sr_last_error := None, sr_next := Some next_run\<rparr>) (db_scheds db)\<rparr>"

definition update_schedule_failure :: "int \<Rightarrow> schedule_failure \<Rightarrow> instant \<Rightarrow> jobs_db \<Rightarrow> jobs_db" where
  "update_schedule_failure i message next_run db = db\<lparr>db_scheds := update_where (\<lambda>s. sr_id s = i)
     (\<lambda>s. s\<lparr>sr_last_error := Some message, sr_next := Some next_run\<rparr>) (db_scheds db)\<rparr>"

definition run_due_schedule :: "(string \<Rightarrow> string \<Rightarrow> instant \<Rightarrow> next_run_error + instant) \<Rightarrow>
    (int \<Rightarrow> string option) \<Rightarrow> instant \<Rightarrow> jobs_db \<Rightarrow> due_schedule \<Rightarrow> store_error + jobs_db" where
  "run_due_schedule next_run names now db s =
     (case next_run (du_cron s) (du_timezone s) now of Inl e \<Rightarrow> Inl (NextRunFailed (du_key s))
      | Inr next_at \<Rightarrow>
        let d = du_job s
        in (case schedule_job_blocker d of Some message \<Rightarrow> Inr (update_schedule_failure (du_id s) message next_at db)
            | None \<Rightarrow>
              (case positive_timeout (jd_timeout d) of
                 None \<Rightarrow> Inr (update_schedule_failure (du_id s)
                   (JobHasInvalidTimeout (jd_app d) (jd_key d) (jd_timeout d)) next_at db)
               | Some timeout \<Rightarrow>
                 (case decode_retry (jd_retry d) of
                    Inl e \<Rightarrow> Inr (update_schedule_failure (du_id s) (JobRetryUnreadable (jd_app d) (jd_key d)) next_at db)
                  | Inr retry \<Rightarrow>
                    let maxa = (case retry of None \<Rightarrow> 1 | Some r \<Rightarrow> r_attempts r)
                    in (case names (du_id s) of None \<Rightarrow> Inl RandomNameFailed
                        | Some n \<Rightarrow>
                          bindR (insert_execution n d timeout retry maxa None (du_next s)
                            (schedule_idempotency_key (du_app s) (du_key s) (du_next s)) 0 db)
                            (\<lambda>(ex, inserted, db').
                             Inr (update_schedule_success (du_id s) (du_next s) next_at
                               (notify_if inserted (ex_queue ex) db'))))))))"

definition default_schedule_claim_limit :: int where
  "default_schedule_claim_limit = 20"

definition run_due_schedules :: "(string \<Rightarrow> string \<Rightarrow> instant \<Rightarrow> next_run_error + instant) \<Rightarrow>
    (int \<Rightarrow> string option) \<Rightarrow> store_env \<Rightarrow> string list \<Rightarrow> string \<Rightarrow> instant \<Rightarrow> int \<Rightarrow> int list \<Rightarrow> jobs_db \<Rightarrow>
    store_error + int \<times> jobs_db" where
  "run_due_schedules next_run names env queue_list worker now limit skip db =
     bindR (schedule_queue_names env queue_list) (\<lambda>queues.
     if queues = [] then Inr (0, db)
     else if blank worker then Inl WorkerRequired
     else let lim = (if limit < 1 then default_schedule_claim_limit else limit);
              due = find_due_schedules queues now lim skip db
          in bindR (foldR (run_due_schedule next_run names now) db due) (\<lambda>db'.
             Inr (int (length due), db')))"

definition next_schedule_run_at :: "store_env \<Rightarrow> string list \<Rightarrow> jobs_db \<Rightarrow> store_error + instant option" where
  "next_schedule_run_at env queue_list db =
     bindR (schedule_queue_names env queue_list) (\<lambda>queues.
     if queues = [] then Inr None
     else let ts = map (\<lambda>p. the (sr_next (fst p))) (filter (schedule_live queues) (joined_schedules db))
          in Inr (if ts = [] then None else Some (Min (set ts))))"

end
