(* ===== verification/Transition_Systems.thy ===== *)
theory Transition_Systems
  imports Dygo_Prelude
begin

text \<open>
  The contracts the stateful components share: a step relation that keeps an invariant, a store
  whose entries carry an owner and a counter that only grows, so that an owner that has lost an
  entry never owns the same generation of it again (a fencing token), and a registry whose
  bindings are written once.
\<close>

locale invariant_system =
  fixes step :: "'s \<Rightarrow> 's \<Rightarrow> bool" and inv :: "'s \<Rightarrow> bool"
  assumes inv_step: "inv s \<Longrightarrow> step s t \<Longrightarrow> inv t"
begin

lemma inv_steps: "step\<^sup>*\<^sup>* s t \<Longrightarrow> inv s \<Longrightarrow> inv t"
  by (induction rule: rtranclp_induct) (auto intro: inv_step)

lemma inv_step_inv_steps: "step\<^sup>*\<^sup>* s t \<Longrightarrow> inv s \<Longrightarrow> (\<lambda>a b. inv a \<and> step a b)\<^sup>*\<^sup>* s t"
proof (induction rule: rtranclp_induct)
  case base
  then show ?case by simp
next
  case (step t u)
  then show ?case using inv_steps by (auto intro: rtranclp.rtrancl_into_rtrancl)
qed

end

text \<open>\<open>owner s i w n\<close>: in state \<open>s\<close> worker \<open>w\<close> owns generation \<open>n\<close> of entry \<open>i\<close>;
  \<open>past s i n\<close>: entry \<open>i\<close> has already reached generation \<open>n\<close>, or is gone for good.\<close>

locale fencing = invariant_system +
  fixes owner :: "'s \<Rightarrow> 'i \<Rightarrow> 'w \<Rightarrow> int \<Rightarrow> bool" and past :: "'s \<Rightarrow> 'i \<Rightarrow> int \<Rightarrow> bool"
  assumes past_step: "inv s \<Longrightarrow> step s t \<Longrightarrow> past s i n \<Longrightarrow> past t i n"
    and owner_step: "inv s \<Longrightarrow> step s t \<Longrightarrow> past s i n \<Longrightarrow> owner t i w n \<Longrightarrow> owner s i w n"
begin

lemma lost_stays_lost:
  assumes "step\<^sup>*\<^sup>* s t" "inv s" "past s i n" "\<not> owner s i w n"
  shows "\<not> owner t i w n \<and> past t i n"
  using assms
proof (induction rule: rtranclp_induct)
  case base
  then show ?case by simp
next
  case (step t u)
  have "inv t" using step inv_steps by blast
  then show ?case using step past_step owner_step by blast
qed

end

text \<open>The contract of every registry that rejects duplicates: a successful registration adds one
  binding for an unbound key and touches no other.\<close>

locale write_once =
  fixes put :: "'r \<Rightarrow> 'k \<Rightarrow> 'v \<Rightarrow> 'e + 'r" and get :: "'r \<Rightarrow> 'k \<Rightarrow> 'v option"
  assumes put_fresh: "put r k v = Inr r' \<Longrightarrow> get r k = None"
    and put_same: "put r k v = Inr r' \<Longrightarrow> get r' k = Some v"
    and put_other: "put r k v = Inr r' \<Longrightarrow> k' \<noteq> k \<Longrightarrow> get r' k' = get r k'"
begin

lemma put_keeps: "put r k v = Inr r' \<Longrightarrow> get r k0 = Some v0 \<Longrightarrow> get r' k0 = Some v0"
  using put_fresh [of r k v r'] put_other [of r k v r' k0] by (cases "k0 = k") auto

lemma puts_keep:
  "foldR (\<lambda>r (k, v). put r k v) r kvs = Inr r' \<Longrightarrow> get r k0 = Some v0 \<Longrightarrow> get r' k0 = Some v0"
proof (induction kvs arbitrary: r)
  case Nil
  then show ?case by simp
next
  case (Cons kv kvs)
  then show ?case by (cases kv) (auto split: sum.splits intro: put_keeps)
qed

lemma puts_bind:
  "foldR (\<lambda>r (k, v). put r k v) r kvs = Inr r' \<Longrightarrow>
     distinct (map fst kvs) \<and> (\<forall>(k, v)\<in>set kvs. get r k = None \<and> get r' k = Some v)"
proof (induction kvs arbitrary: r)
  case Nil
  then show ?case by simp
next
  case (Cons kv kvs)
  obtain k v where kv: "kv = (k, v)" by fastforce
  obtain r1 where r1: "put r k v = Inr r1" "foldR (\<lambda>r (k, v). put r k v) r1 kvs = Inr r'"
    using Cons.prems kv by (auto split: sum.splits)
  note IH = Cons.IH [OF r1(2)]
  have "k \<notin> fst ` set kvs" using IH put_same [OF r1(1)] by fastforce
  moreover have "get r k' = None" if "(k', v') \<in> set kvs" for k' v'
  proof -
    have "get r1 k' = None" using IH that by auto
    then show ?thesis using put_keeps [OF r1(1), of k'] by (cases "get r k'") auto
  qed
  ultimately show ?case
    using IH kv put_fresh [OF r1(1)] puts_keep [OF r1(2) put_same [OF r1(1)]] by auto
qed

end

end
