(* ===== verification/Job_Lifecycle.thy ===== *)
theory Job_Lifecycle
  imports Job_Schedules Transition_Systems
begin

text \<open>
  The life of a Job Execution as an abstract machine, the invariant of the table, and the
  refinement: every operation of the store (\<^verbatim>\<open>internal/jobs/store\<close>) is a sequence of
  steps of that machine.
\<close>

section \<open>The abstract machine\<close>

inductive exec_trans :: "exec_row \<Rightarrow> exec_row \<Rightarrow> bool" where
  Claimed: "er_status e = Queued \<Longrightarrow> exec_trans e (claim_row now timeout worker e)"
| Completed: "er_status e = Running \<Longrightarrow> exec_trans e (complete_row result now e)"
| FailedForGood: "er_status e = Running \<Longrightarrow> exec_trans e (final_row message now e)"
| Requeued: "er_status e = Running \<Longrightarrow> er_attempts e < er_max_attempts e \<Longrightarrow>
    exec_trans e (requeue_row message at e)"
| CancelledQueued: "er_status e = Queued \<Longrightarrow>
    exec_trans e (e\<lparr>er_status := Cancelled, er_finished := Some now\<rparr>)"
| LeaseCut: "er_status e = Running \<Longrightarrow> exec_trans e (e\<lparr>er_locked_until := Some now\<rparr>)"

inductive_cases exec_transE: "exec_trans e e'"

definition fresh_row :: "exec_row \<Rightarrow> bool" where
  "fresh_row e \<longleftrightarrow> er_status e = Queued \<and> er_attempts e = 0 \<and> 1 \<le> er_max_attempts e
     \<and> er_started e = None \<and> er_finished e = None \<and> er_locked_by e = None \<and> er_locked_until e = None"

definition plan_ok :: "retry_col \<Rightarrow> bool" where
  "plan_ok c = (case c of RetryPlan r \<Rightarrow> 1 \<le> r_attempts r | _ \<Rightarrow> True)"

definition jobs_ok :: "job_row list \<Rightarrow> bool" where
  "jobs_ok js \<longleftrightarrow> distinct (map jr_id js) \<and> (\<forall>j\<in>set js. plan_ok (jr_retry j))"

inductive life_step :: "jobs_db \<Rightarrow> jobs_db \<Rightarrow> bool" where
  life_change: "e \<in> set (db_execs db) \<Longrightarrow> exec_trans e e' \<Longrightarrow>
    db_execs db' = update_where (\<lambda>x. er_id x = er_id e) (\<lambda>_. e') (db_execs db) \<Longrightarrow>
    db_next db' = db_next db \<Longrightarrow> db_jobs db' = db_jobs db \<Longrightarrow> life_step db db'"
| life_insert: "fresh_row e \<Longrightarrow> er_id e = db_next db \<Longrightarrow>
    er_name e \<notin> er_name ` set (db_execs db) \<Longrightarrow> \<not> key_taken (er_job e) (er_key e) db \<Longrightarrow>
    db_execs db' = db_execs db @ [e] \<Longrightarrow> db_next db' = db_next db + 1 \<Longrightarrow> db_jobs db' = db_jobs db \<Longrightarrow>
    life_step db db'"
| life_prune: "(\<And>e. e \<in> set (db_execs db) \<Longrightarrow> er_id e \<in> set ids \<Longrightarrow> terminal (er_status e) \<and> er_key e = None) \<Longrightarrow>
    db_execs db' = filter (\<lambda>e. er_id e \<notin> set ids) (db_execs db) \<Longrightarrow>
    db_next db' = db_next db \<Longrightarrow> db_jobs db' = db_jobs db \<Longrightarrow> life_step db db'"
| life_idle: "db_execs db' = db_execs db \<Longrightarrow> db_next db' = db_next db \<Longrightarrow> jobs_ok (db_jobs db') \<Longrightarrow>
    life_step db db'"

inductive_cases life_stepE: "life_step db db'"

section \<open>The invariant\<close>

definition row_ok :: "exec_row \<Rightarrow> bool" where
  "row_ok e \<longleftrightarrow>
     (er_status e = Running \<longleftrightarrow> er_locked_by e \<noteq> None) \<and> (er_status e = Running \<longleftrightarrow> er_locked_until e \<noteq> None)
     \<and> (terminal (er_status e) \<longleftrightarrow> er_finished e \<noteq> None)
     \<and> 0 \<le> er_attempts e \<and> er_attempts e \<le> er_max_attempts e
     \<and> (er_status e = Queued \<longrightarrow> er_attempts e < er_max_attempts e)
     \<and> (er_status e = Running \<longrightarrow> 1 \<le> er_attempts e)"

definition keyed :: "exec_row list \<Rightarrow> (int \<times> string option) list" where
  "keyed es = map (\<lambda>e. (er_job e, er_key e)) (filter (\<lambda>e. er_key e \<noteq> None) es)"

definition store_inv :: "jobs_db \<Rightarrow> bool" where
  "store_inv db \<longleftrightarrow> distinct (map er_id (db_execs db)) \<and> distinct (map er_name (db_execs db))
     \<and> distinct (keyed (db_execs db)) \<and> (\<forall>e\<in>set (db_execs db). row_ok e \<and> 1 \<le> er_id e \<and> er_id e < db_next db)
     \<and> 1 \<le> db_next db \<and> jobs_ok (db_jobs db)"

lemma exec_trans_fixed:
  assumes "exec_trans e e'"
  shows "er_id e' = er_id e" "er_name e' = er_name e" "er_job e' = er_job e" "er_key e' = er_key e"
    "er_queue e' = er_queue e" "er_max_attempts e' = er_max_attempts e" "er_attempts e \<le> er_attempts e'"
    "\<not> terminal (er_status e)"
  using assms
  by (induction rule: exec_trans.induct)
    (simp_all add: claim_row_def complete_row_def final_row_def requeue_row_def terminal_def)

lemma exec_trans_row_ok: "exec_trans e e' \<Longrightarrow> row_ok e \<Longrightarrow> row_ok e'"
  by (induction rule: exec_trans.induct)
    (simp_all add: row_ok_def claim_row_def complete_row_def final_row_def requeue_row_def terminal_def)

lemma keyed_append: "keyed (xs @ ys) = keyed xs @ keyed ys"
  by (simp add: keyed_def)

lemma keyed_mem: "(j, k) \<in> set (keyed es) \<longleftrightarrow> k \<noteq> None \<and> (\<exists>e\<in>set es. er_job e = j \<and> er_key e = k)"
  by (auto simp: keyed_def)

lemma keyed_update:
  "(\<And>x. P x \<Longrightarrow> x \<in> set es \<Longrightarrow> er_job (f x) = er_job x \<and> er_key (f x) = er_key x) \<Longrightarrow>
   keyed (update_where P f es) = keyed es"
  by (induction es) (auto simp: keyed_def)

lemma keyed_filter: "distinct (keyed es) \<Longrightarrow> distinct (keyed (filter P es))"
proof -
  assume d: "distinct (keyed es)"
  have "keyed (filter P es) = map (\<lambda>e. (er_job e, er_key e)) (filter P (filter (\<lambda>e. er_key e \<noteq> None) es))"
    by (induction es) (auto simp: keyed_def)
  then show ?thesis using distinct_map_filter_imp [OF d [unfolded keyed_def]] by simp
qed

lemma map_update_where_mem:
  "(\<And>x. P x \<Longrightarrow> x \<in> set xs \<Longrightarrow> g (f x) = g x) \<Longrightarrow> map g (update_where P f xs) = map g xs"
  by (induction xs) auto

lemma life_step_inv:
  assumes "store_inv db" "life_step db db'"
  shows "store_inv db'"
  using assms(2)
proof cases
  case (life_change e e')
  note fixed = exec_trans_fixed [OF life_change(2)]
  have only: "x = e" if "x \<in> set (db_execs db)" "er_id x = er_id e" for x
    using distinct_key_eq [of er_id "db_execs db" x e] that life_change(1) assms(1)
    by (simp add: store_inv_def)
  have "map g (db_execs db') = map g (db_execs db)" if "g e' = g e" for g :: "exec_row \<Rightarrow> 'b"
    unfolding life_change(3) by (rule map_update_where_mem) (use only that in auto)
  note same = this
  have keys: "keyed (db_execs db') = keyed (db_execs db)"
    unfolding life_change(3) by (rule keyed_update) (use only fixed in auto)
  have rows: "row_ok x \<and> 1 \<le> er_id x \<and> er_id x < db_next db" if "x \<in> set (db_execs db')" for x
  proof -
    from that obtain y where y: "y \<in> set (db_execs db)" "x = (if er_id y = er_id e then e' else y)"
      unfolding life_change(3) by (rule update_where_memE)
    show ?thesis
      using y exec_trans_row_ok [OF life_change(2)] assms(1) life_change(1) fixed
      by (auto simp: store_inv_def)
  qed
  show ?thesis
    using assms(1) same [of er_id] same [of er_name] keys rows fixed life_change(4,5)
    by (simp add: store_inv_def)
next
  case (life_insert e)
  have "distinct (keyed (db_execs db @ [e]))"
    using assms(1) life_insert(4)
    by (auto simp: keyed_append store_inv_def keyed_def key_taken_def list_ex_iff)
  moreover have "row_ok e" using life_insert(1) by (auto simp: fresh_row_def row_ok_def terminal_def)
  ultimately show ?thesis
    using assms(1) life_insert by (auto simp: store_inv_def)
next
  case (life_prune ids)
  have "distinct (keyed (filter (\<lambda>e. er_id e \<notin> set ids) (db_execs db)))"
    using assms(1) by (intro keyed_filter) (simp add: store_inv_def)
  then show ?thesis
    using assms(1) life_prune(2-4) by (auto simp: store_inv_def distinct_map_filter_imp)
next
  case life_idle
  then show ?thesis using assms(1) by (auto simp: store_inv_def)
qed

interpretation life: invariant_system life_step store_inv
  by unfold_locales (rule life_step_inv)

lemma life_step_frame:
  "life_step db db1 \<Longrightarrow> db_execs db2 = db_execs db1 \<Longrightarrow> db_next db2 = db_next db1 \<Longrightarrow>
   db_jobs db2 = db_jobs db1 \<Longrightarrow> life_step db db2"
  by (erule life_stepE) (auto intro: life_step.intros)

lemma life_idle_same:
  "store_inv db \<Longrightarrow> db_execs db' = db_execs db \<Longrightarrow> db_next db' = db_next db \<Longrightarrow>
   db_jobs db' = db_jobs db \<Longrightarrow> life_step db db'"
  by (rule life_idle) (auto simp: store_inv_def)

text \<open>An update that reaches only the row \<open>e\<close> is the abstract change of \<open>e\<close>.\<close>

lemma life_update:
  assumes "store_inv db" "e \<in> set (db_execs db)" "P e"
    and "\<And>x. x \<in> set (db_execs db) \<Longrightarrow> P x \<Longrightarrow> er_id x = er_id e" "exec_trans e (f e)"
  shows "life_step db (db\<lparr>db_execs := update_where P f (db_execs db)\<rparr>)"
proof (rule life_step.life_change [OF assms(2,5)])
  have "(if P x then f x else x) = (if er_id x = er_id e then f e else x)"
    if x: "x \<in> set (db_execs db)" for x
  proof (cases "er_id x = er_id e")
    case True
    have "distinct (map er_id (db_execs db))" using assms(1) by (simp add: store_inv_def)
    then have "x = e" using x assms(2) True by (rule distinct_key_eq)
    then show ?thesis using assms(3) by simp
  next
    case False
    then have "\<not> P x" using assms(4) x by blast
    then show ?thesis using False by simp
  qed
  then have "update_where P f (db_execs db) = update_where (\<lambda>x. er_id x = er_id e) (\<lambda>_. f e) (db_execs db)"
    by (simp add: update_where_def)
  then show "db_execs (db\<lparr>db_execs := update_where P f (db_execs db)\<rparr>) =
      update_where (\<lambda>x. er_id x = er_id e) (\<lambda>_. f e) (db_execs db)"
    by simp
qed simp_all

end
