(* ===== verification/Job_Refinement.thy ===== *)
theory Job_Refinement
  imports Job_Lifecycle
begin

text \<open>
  The store refines the life cycle: every successful transaction of
  \<^verbatim>\<open>internal/jobs/store\<close> is a sequence of abstract steps, so the invariant holds in every
  reachable database.
\<close>

section \<open>The concrete step relation\<close>

text \<open>One constructor per transaction, and one for the synchronisation of the metadata tables,
  which is other code: it may replace apps, Jobs and Schedules as long as every stored retry plan
  allows an attempt (which the Job validation guarantees).\<close>

inductive store_step :: "jobs_db \<Rightarrow> jobs_db \<Rightarrow> bool" where
  step_enqueue: "enqueue env name app job payload opts db = Inr (ex, db') \<Longrightarrow> store_step db db'"
| step_retry: "retry_execution env name ref key db = Inr (ex, db') \<Longrightarrow> store_step db db'"
| step_enable: "set_job_enabled installing app job enabled db = Inr (r, db') \<Longrightarrow> store_step db db'"
| step_cancel: "cancel i now db = (b, db') \<Longrightarrow> store_step db db'"
| step_cancel_queued: "cancel_queued ref now db = Inr (ex, db') \<Longrightarrow> store_step db db'"
| step_claim: "claim env names limit worker now skip db = Inr (exs, db') \<Longrightarrow> store_step db db'"
| step_complete: "complete ex result now db = Inr db' \<Longrightarrow> store_step db db'"
| step_fail: "fail rnd ex message now db = Inr db' \<Longrightarrow> store_step db db'"
| step_fail_final: "fail_final ex message now db = Inr db' \<Longrightarrow> store_step db db'"
| step_expire: "expire_claim ex now db = Inr db' \<Longrightarrow> store_step db db'"
| step_recover: "recover_expired rnd now skip db = Inr (n, db') \<Longrightarrow> store_step db db'"
| step_prune: "prune_terminal queues cutoff limit skip db = Inr (n, db') \<Longrightarrow> store_step db db'"
| step_schedules: "run_due_schedules next_run draw env names worker now limit skip db = Inr (n, db') \<Longrightarrow>
    store_step db db'"
| step_metadata: "jobs_ok jobs \<Longrightarrow>
    store_step db (db\<lparr>db_apps := apps, db_jobs := jobs, db_scheds := scheds\<rparr>)"

section \<open>Enqueueing\<close>

lemma load_job_mem:
  assumes "load_job installing app job db = Inr d"
  obtains a j where "j \<in> set (db_jobs db)" "a \<in> set (db_apps db)" "ar_id a = jr_app j"
    "d = scan_job_record a j" "runtime_app installing a" "ar_name a = trim_space app" "jr_key j = trim_space job"
proof -
  let ?rows = "filter (\<lambda>(a, j). ar_name a = trim_space app \<and> jr_key j = trim_space job \<and> runtime_app installing a)
      (joined_jobs db)"
  obtain a j rest where r: "?rows = (a, j) # rest" "d = scan_job_record a j"
    using assms by (auto simp: load_job_def Let_def split: if_splits list.splits)
  then have "(a, j) \<in> set ?rows" by simp
  then show thesis using that [of j a] r(2) by (auto simp: joined_jobs_mem)
qed

lemma plan_attempts:
  assumes "jobs_ok (db_jobs db)" "j \<in> set (db_jobs db)" "decode_retry (jr_retry j) = Inr retry"
  shows "1 \<le> (case retry of None \<Rightarrow> 1 | Some r \<Rightarrow> r_attempts r)"
  using assms by (auto simp: jobs_ok_def plan_ok_def decode_retry_def split: retry_col.splits)

lemma fresh_new_row [simp]: "fresh_row (new_row n d retry maxa p at key prio i) \<longleftrightarrow> 1 \<le> maxa"
  by (simp add: fresh_row_def new_row_def)

lemma insert_execution_inserts:
  assumes "insert_execution n d timeout retry maxa p at key prio db = Inr (ex, True, db')"
  shows "db' = db\<lparr>db_execs := db_execs db @ [new_row n d retry maxa p at key prio (db_next db)], db_next := db_next db + 1\<rparr>"
    "\<not> key_taken (jd_id d) (null_if_empty key) db" "n \<notin> er_name ` set (db_execs db)"
  using assms by (auto simp: insert_execution_def bindR_Inr_iff Let_def list_ex_iff split: if_splits option.splits)

lemma insert_execution_finds:
  assumes "insert_execution n d timeout retry maxa p at key prio db = Inr (ex, False, db')"
  shows "db' = db \<and> find_by_key (jd_id d) key db = Inr (Some ex)"
  using assms by (auto simp: insert_execution_def bindR_Inr_iff Let_def split: if_splits option.splits)

lemma insert_execution_refines:
  assumes "insert_execution n d timeout retry maxa p at key prio db = Inr (ex, inserted, db')"
    and "store_inv db" "1 \<le> maxa"
  shows "life_step db db'"
proof (cases inserted)
  case True
  then have "insert_execution n d timeout retry maxa p at key prio db = Inr (ex, True, db')"
    using assms(1) by simp
  note ins = insert_execution_inserts [OF this]
  show ?thesis
    by (rule life_insert [of "new_row n d retry maxa p at key prio (db_next db)"])
      (use ins assms(3) in \<open>simp_all add: new_row_def fresh_row_def\<close>)
next
  case False
  then have "db' = db" using insert_execution_finds [of n d timeout retry maxa p at key prio db ex db'] assms(1) by simp
  then show ?thesis using assms(2) by (simp add: life_idle_same)
qed

lemma notify_frame [simp]:
  "db_execs (notify_queue q db) = db_execs db" "db_next (notify_queue q db) = db_next db"
  "db_jobs (notify_queue q db) = db_jobs db" "db_scheds (notify_queue q db) = db_scheds db"
  "db_execs (notify_if b q db) = db_execs db" "db_next (notify_if b q db) = db_next db"
  "db_jobs (notify_if b q db) = db_jobs db" "db_scheds (notify_if b q db) = db_scheds db"
  by (simp_all add: notify_if_def notify_queue_def)

lemma enqueue_cases:
  assumes "enqueue env name app job payload opts db = Inr (ex, db')"
  obtains (existing) d where "load_job (se_installing env) app job db = Inr d"
      "trim_space (eo_key opts) \<noteq> []"
      "find_by_key (jd_id d) (trim_space (eo_key opts)) db = Inr (Some ex)" "db' = db"
  | (tried) d retry n timeout inserted db1 where "load_job (se_installing env) app job db = Inr d"
      "decode_retry (jd_retry d) = Inr retry" "name = Some n" "jd_enabled d" "\<not> jd_retired d"
      "insert_execution n d timeout retry (case retry of None \<Rightarrow> 1 | Some r \<Rightarrow> r_attempts r)
         (payload_or_nil payload) (if eo_run_after opts = zero_time then se_now env else eo_run_after opts)
         (trim_space (eo_key opts)) (eo_priority opts) db = Inr (ex, inserted, db1)"
      "db' = notify_if inserted (ex_queue ex) db1"
proof -
  have nb: "blank app = False" "blank job = False" "(payload \<noteq> [] \<and> \<not> json_valid payload) = False"
    using assms by (auto simp: enqueue_def split: if_splits)
  obtain d where d: "load_job (se_installing env) app job db = Inr d"
    using assms nb by (auto simp: enqueue_def bindR_Inr_iff simp del: trim_space_idem)
  have dis: "jd_enabled d" "\<not> jd_retired d"
    "(case se_queues env of None \<Rightarrow> False | Some qc \<Rightarrow> \<not> has_queue qc (jd_queue d)) = False"
    using assms d unfolding enqueue_def by (simp_all only: nb d bindR_simps if_False split: if_splits) auto
  obtain timeout where t: "positive_timeout (jd_timeout d) = Some timeout"
    using assms unfolding enqueue_def
    by (cases "positive_timeout (jd_timeout d)")
      (simp_all only: nb d dis bindR_simps if_False if_True simp_thms option.case sum.distinct)
  obtain retry where r: "decode_retry (jd_retry d) = Inr retry"
    using assms unfolding enqueue_def
    by (auto simp only: nb d dis t bindR_simps bindR_Inr_iff if_False if_True simp_thms option.case)
  let ?key = "trim_space (eo_key opts)"
  let ?at = "if eo_run_after opts = zero_time then se_now env else eo_run_after opts"
  let ?max = "case retry of None \<Rightarrow> 1 | Some r \<Rightarrow> r_attempts r"
  define look where "look = (if ?key \<noteq> [] then find_by_key (jd_id d) ?key db else Inr None)"
  have eq: "enqueue env name app job payload opts db = bindR look (\<lambda>existing.
      case existing of Some ex \<Rightarrow> Inr (ex, db)
      | None \<Rightarrow> (case name of None \<Rightarrow> Inl RandomNameFailed
         | Some n \<Rightarrow> bindR (insert_execution n d timeout retry ?max (payload_or_nil payload) ?at ?key
             (eo_priority opts) db) (\<lambda>(ex, inserted, db'). Inr (ex, notify_if inserted (ex_queue ex) db'))))"
    unfolding enqueue_def
    by (simp only: nb d dis t r bindR_simps if_False if_True simp_thms option.case Let_def look_def)
  obtain found where f: "look = Inr found" using assms eq by (cases look) simp_all
  show thesis
  proof (cases found)
    case (Some ex1)
    have "bindR look g = g found" for g :: "execution option \<Rightarrow> store_error + execution \<times> jobs_db"
      using f by simp
    then have same: "ex1 = ex" "db = db'" using assms Some unfolding eq by simp_all
    have look: "look = Inr (Some ex1)" using f Some by (simp only:)
    have ne: "?key \<noteq> []"
    proof
      assume "?key = []"
      then have "look = Inr None" unfolding look_def by (simp only: simp_thms if_False)
      then show False using look by simp
    qed
    moreover have "find_by_key (jd_id d) ?key db = Inr (Some ex1)"
      using look ne unfolding look_def by (simp only: simp_thms if_True)
    ultimately show ?thesis
      using existing [OF d] same(1) same(2) [symmetric] by (simp only: simp_thms)
  next
    case None
    then obtain n ex1 ins db1 where "name = Some n"
      "insert_execution n d timeout retry ?max (payload_or_nil payload) ?at ?key (eo_priority opts) db = Inr (ex1, ins, db1)"
      "Inr (ex1, notify_if ins (ex_queue ex1) db1) = (Inr (ex, db') :: store_error + execution \<times> jobs_db)"
      using assms eq f by (auto simp: bindR_Inr_iff split: option.splits)
    then show ?thesis
      by (intro tried [OF d r _ dis(1,2), of n timeout ins db1]) auto
  qed
qed

lemma enqueue_refines:
  assumes "enqueue env name app job payload opts db = Inr (ex, db')" "store_inv db"
  shows "life_step db db'"
  using assms(1)
proof (cases rule: enqueue_cases)
  case (existing d)
  then show ?thesis using assms(2) by (auto intro: life_idle_same)
next
  case (tried d retry n timeout inserted db1)
  obtain a j where j: "j \<in> set (db_jobs db)" "d = scan_job_record a j"
    using load_job_mem [OF tried(1)] by metis
  then have "1 \<le> (case retry of None \<Rightarrow> 1 | Some r \<Rightarrow> r_attempts r)"
    using tried(2) assms(2) by (intro plan_attempts [of db j]) (auto simp: store_inv_def scan_job_record_def)
  then have "life_step db db1" using insert_execution_refines [OF tried(6) assms(2)] by blast
  then show ?thesis using tried(7) by (auto intro: life_step_frame)
qed

lemma retry_execution_enqueues:
  assumes "retry_execution env name ref key db = Inr (ex, db')"
  obtains old where "get (trim_space ref) db = Inr old" "ex_status old = Failed"
    "enqueue env name (ex_app old) (ex_job_name old) (ex_payload old)
       \<lparr>eo_key = trim_space key, eo_priority = 0, eo_run_after = zero_time\<rparr> db = Inr (ex, db')"
  using assms that by (auto simp: retry_execution_def bindR_Inr_iff Let_def split: if_splits)

section \<open>Single-row transactions\<close>

lemma update_none_id: "\<not> list_ex P (db_execs db) \<Longrightarrow> db\<lparr>db_execs := update_where P f (db_execs db)\<rparr> = db"
  by (simp add: list_ex_iff update_where_none)

lemma cancel_refines:
  assumes "store_inv db" "cancel i now db = (b, db')"
  shows "life_step db db'"
proof (cases b)
  case True
  then obtain e where e: "e \<in> set (db_execs db)" "er_id e = i" "er_status e = Queued"
    using assms(2) by (auto simp: cancel_def list_ex_iff Let_def)
  have "life_step db (db\<lparr>db_execs := update_where (\<lambda>e. er_id e = i \<and> er_status e = Queued)
      (\<lambda>e. e\<lparr>er_status := Cancelled, er_finished := Some now\<rparr>) (db_execs db)\<rparr>)"
    by (rule life_update [where e = e]) (use assms(1) e in \<open>simp_all add: CancelledQueued\<close>)
  then show ?thesis using assms(2) by (simp add: cancel_def Let_def)
next
  case False
  then show ?thesis
    using assms update_none_id [of "\<lambda>e. er_id e = i \<and> er_status e = Queued" db]
    by (auto simp: cancel_def Let_def intro: life_idle_same)
qed

lemma owns_update_refines:
  assumes "store_inv db" "list_ex (owns ex) (db_execs db)"
    and "\<And>e. er_status e = Running \<Longrightarrow> exec_trans e (f e)"
  shows "life_step db (db\<lparr>db_execs := update_where (owns ex) f (db_execs db)\<rparr>)"
proof -
  obtain e where e: "e \<in> set (db_execs db)" "owns ex e" using assms(2) by (auto simp: list_ex_iff)
  show ?thesis
    by (rule life_update [where e = e]) (use assms(1,3) e in \<open>simp_all add: owns_def\<close>)
qed

lemma complete_refines: "store_inv db \<Longrightarrow> complete ex result now db = Inr db' \<Longrightarrow> life_step db db'"
  by (auto simp: complete_def split: if_splits intro!: owns_update_refines Completed)

lemma fail_final_refines: "store_inv db \<Longrightarrow> fail_final ex message now db = Inr db' \<Longrightarrow> life_step db db'"
  by (auto simp: fail_final_def split: if_splits intro!: owns_update_refines FailedForGood)

lemma find_list_ex: "find P xs = Some x \<Longrightarrow> list_ex P xs"
  by (auto simp: list_ex_iff dest: find_SomeD)

lemma expire_claim_refines: "store_inv db \<Longrightarrow> expire_claim ex now db = Inr db' \<Longrightarrow> life_step db db'"
  by (auto simp: expire_claim_def split: option.splits dest!: find_list_ex
      intro!: life_step_frame [OF owns_update_refines] LeaseCut)

lemma retry_or_fail_refines:
  assumes "store_inv db" "e \<in> set (db_execs db)" "er_status e = Running"
    and "retry_or_fail rnd (er_id e) (er_attempts e) (er_max_attempts e) retry message now db = Inr db'"
  shows "life_step db db'"
proof -
  have upd: "life_step db (db\<lparr>db_execs := update_where (\<lambda>x. er_id x = er_id e) f (db_execs db)\<rparr>)"
    if "exec_trans e (f e)" for f
    by (rule life_update [where e = e]) (use that assms(1,2) in simp_all)
  show ?thesis
  proof (cases "er_attempts e < er_max_attempts e")
    case True
    then obtain at q where "db' = notify_queue q
        (db\<lparr>db_execs := update_where (\<lambda>x. er_id x = er_id e) (requeue_row (trim_space message) at) (db_execs db)\<rparr>)"
      using assms(4) by (auto simp: retry_or_fail_def Let_def split: sum.splits option.splits)
    then show ?thesis
      using upd [of "requeue_row (trim_space message) at", OF Requeued [OF assms(3) True]] by (auto intro: life_step_frame)
  next
    case False
    then show ?thesis
      using assms(4) upd [of "final_row (trim_space message) now", OF FailedForGood [OF assms(3)]] by (auto simp: retry_or_fail_def Let_def)
  qed
qed

lemma fail_refines:
  assumes "store_inv db" "fail rnd ex message now db = Inr db'"
  shows "life_step db db'"
proof -
  obtain e retry where e: "find (owns ex) (db_execs db) = Some e"
    "retry_or_fail rnd (ex_id ex) (er_attempts e) (er_max_attempts e) retry message now db = Inr db'"
    using assms(2) by (auto simp: fail_def bindR_Inr_iff split: option.splits)
  then have "e \<in> set (db_execs db)" "er_status e = Running" "ex_id ex = er_id e"
    by (auto dest!: find_SomeD simp: owns_def)
  then show ?thesis using retry_or_fail_refines assms(1) e(2) by metis
qed

section \<open>Transactions over several rows\<close>

lemma update_id_other:
  "x \<in> set xs \<Longrightarrow> er_id x \<noteq> i \<Longrightarrow> x \<in> set (update_where (\<lambda>e. er_id e = i \<and> P e) f xs)"
  by (rule update_where_in_same) auto

lemma retry_or_fail_keeps:
  assumes "retry_or_fail rnd i a m retry message now db = Inr db'" "x \<in> set (db_execs db)" "er_id x \<noteq> i"
  shows "x \<in> set (db_execs db')"
  using assms update_where_in_same [of x "db_execs db" "\<lambda>e. er_id e = i"]
  by (auto simp: retry_or_fail_def Let_def split: if_splits sum.splits option.splits)

lemma recover_loop_refines:
  assumes "foldR (recover_one rnd now) db rows = Inr db'" "store_inv db" "distinct (map er_id rows)"
    and "\<forall>e\<in>set rows. e \<in> set (db_execs db) \<and> er_status e = Running"
  shows "life_step\<^sup>*\<^sup>* db db'"
  using assms
proof (induction rows arbitrary: db)
  case Nil
  then show ?case by simp
next
  case (Cons e rows)
  obtain db1 where db1: "recover_one rnd now db e = Inr db1" "foldR (recover_one rnd now) db1 rows = Inr db'"
    using Cons.prems(1) by (auto split: sum.splits)
  obtain retry where rf: "retry_or_fail rnd (er_id e) (er_attempts e) (er_max_attempts e) retry
      ''worker lease expired'' now db = Inr db1"
    using db1(1) by (auto simp: recover_one_def bindR_Inr_iff)
  have step: "life_step db db1" using retry_or_fail_refines [OF Cons.prems(2) _ _ rf] Cons.prems(4) by simp
  have "\<forall>x\<in>set rows. x \<in> set (db_execs db1) \<and> er_status x = Running"
  proof
    fix x assume x: "x \<in> set rows"
    then have "er_id x \<noteq> er_id e" using Cons.prems(3) by (simp add: image_iff) metis
    then show "x \<in> set (db_execs db1) \<and> er_status x = Running"
      using retry_or_fail_keeps [OF rf] Cons.prems(4) x by simp
  qed
  then have "life_step\<^sup>*\<^sup>* db1 db'"
    using Cons.IH [OF db1(2) life_step_inv [OF Cons.prems(2) step]] Cons.prems(3) by simp
  then show ?case using step by (rule converse_rtranclp_into_rtranclp [rotated])
qed

lemma recover_expired_refines:
  assumes "store_inv db" "recover_expired rnd now skip db = Inr (n, db')"
  shows "life_step\<^sup>*\<^sup>* db db'"
proof -
  let ?rows = "filter (\<lambda>e. lease_expired now e \<and> er_id e \<notin> set skip) (db_execs db)"
  have "foldR (recover_one rnd now) db ?rows = Inr db'"
    using assms(2) by (auto simp: recover_expired_def bindR_Inr_iff Let_def)
  moreover have "distinct (map er_id ?rows)"
    using assms(1) by (auto simp: store_inv_def intro: distinct_map_filter_imp)
  ultimately show ?thesis
    using recover_loop_refines assms(1) by (auto simp: lease_expired_def)
qed

text \<open>Claiming, one row at a time.\<close>

lemma claim_one_db:
  assumes "claim_one now worker (db, acc) (i, timeout) = Inr (db', acc')"
  shows "db' = db\<lparr>db_execs := update_where
      (\<lambda>e. er_id e = i \<and> list_ex (\<lambda>j. jr_id j = er_job e) (db_jobs db)) (claim_row now timeout worker) (db_execs db)\<rparr>"
    and "\<exists>ex. find_by_id i db' = Inr ex \<and> acc' = acc @ [ex\<lparr>ex_timeout := timeout\<rparr>]"
  using assms by (auto simp: claim_one_def bindR_Inr_iff Let_def)

lemma claim_loop_refines:
  assumes "foldR (claim_one now worker) (db, acc) claimed = Inr (db', acc')" "store_inv db"
    and "distinct (map fst claimed)"
    and "\<forall>c\<in>set claimed. \<exists>e\<in>set (db_execs db). er_id e = fst c \<and> er_status e = Queued
          \<and> list_ex (\<lambda>j. jr_id j = er_job e) (db_jobs db)"
  shows "life_step\<^sup>*\<^sup>* db db'"
  using assms
proof (induction claimed arbitrary: db acc)
  case Nil
  then show ?case by simp
next
  case (Cons c claimed)
  obtain i timeout where c: "c = (i, timeout)" by fastforce
  obtain db1 acc1 where one: "claim_one now worker (db, acc) (i, timeout) = Inr (db1, acc1)"
    and rest: "foldR (claim_one now worker) (db1, acc1) claimed = Inr (db', acc')"
    using Cons.prems(1) c by (auto split: sum.splits)
  let ?P = "\<lambda>e. er_id e = i \<and> list_ex (\<lambda>j. jr_id j = er_job e) (db_jobs db)"
  have db1: "db1 = db\<lparr>db_execs := update_where ?P (claim_row now timeout worker) (db_execs db)\<rparr>"
    by (rule claim_one_db [OF one])
  obtain e where e: "e \<in> set (db_execs db)" "?P e" "er_status e = Queued"
    using Cons.prems(4) c by auto
  have step: "life_step db db1" unfolding db1
    by (rule life_update [where e = e]) (use e Cons.prems(2) Claimed in simp_all)
  have keep: "\<exists>e\<in>set (db_execs db1). er_id e = fst d \<and> er_status e = Queued
          \<and> list_ex (\<lambda>j. jr_id j = er_job e) (db_jobs db1)" if d: "d \<in> set claimed" for d
  proof -
    have ne: "fst d \<noteq> i" using Cons.prems(3) c d by auto
    obtain x where x: "x \<in> set (db_execs db)" "er_id x = fst d" "er_status x = Queued"
        "list_ex (\<lambda>j. jr_id j = er_job x) (db_jobs db)"
      using Cons.prems(4) d by (meson list.set_intros(2))
    have "er_id x \<noteq> i" using x(2) ne by simp
    then have "x \<in> set (db_execs db1)"
      using update_id_other [OF x(1)] unfolding db1 by simp
    then show ?thesis using x by (auto simp: db1)
  qed
  have "life_step\<^sup>*\<^sup>* db1 db'"
    using Cons.IH [OF rest life_step_inv [OF Cons.prems(2) step]] keep Cons.prems(3) by simp
  then show ?case using step by (rule converse_rtranclp_into_rtranclp [rotated])
qed

lemma claim_candidates_mem:
  "(e, j) \<in> set (claim_candidates queues now skip db) \<longleftrightarrow>
     e \<in> set (db_execs db) \<and> j \<in> set (db_jobs db) \<and> jr_id j = er_job e \<and> claimable queues now e
     \<and> er_id e \<notin> set skip \<and> (\<exists>a\<in>set (db_apps db). ar_id a = jr_app j \<and> ar_status a = ''active'')"
  by (auto simp: claim_candidates_def joined_execs_mem list_ex_iff)

lemma scan_claim_ids: "mapR scan_claim rows = Inr claimed \<Longrightarrow> map fst claimed = map (er_id \<circ> fst) rows"
proof (induction rows arbitrary: claimed)
  case Nil
  then show ?case by simp
next
  case (Cons r rows)
  then show ?case by (cases r) (auto simp: scan_claim_def split: sum.splits option.splits)
qed

lemma joined_execs_distinct:
  assumes "distinct (map jr_id js)" "distinct (map er_id es)"
  shows "distinct (map (er_id \<circ> fst) [(e, j). e \<leftarrow> es, j \<leftarrow> js, jr_id j = er_job e])"
  using assms(2)
proof (induction es)
  case Nil
  then show ?case by simp
next
  case (Cons e es)
  have one: "length (filter (\<lambda>j. jr_id j = k) js) \<le> 1" for k
    using assms(1) by (induction js) (force simp: filter_empty_conv image_iff)+
  have map: "[(e, j). j \<leftarrow> js, jr_id j = er_job e] = map (Pair e) (filter (\<lambda>j. jr_id j = er_job e) js)"
    by (induction js) auto
  have "distinct (map (er_id \<circ> fst) [(e, j). j \<leftarrow> js, jr_id j = er_job e])"
    unfolding map using one [of "er_job e"]
    by (cases "filter (\<lambda>j. jr_id j = er_job e) js") auto
  then show ?case using Cons by (auto simp: comp_def)
qed

lemma sorted_filter_distinct: "distinct (map f xs) \<Longrightarrow> distinct (map f (take n (sort_key g (filter P xs))))"
proof -
  assume d: "distinct (map f xs)"
  have "distinct xs" "inj_on f (set xs)" using d by (auto simp: distinct_map)
  then show ?thesis
    by (auto simp: distinct_map intro: inj_on_subset dest!: in_set_takeD)
qed

lemma claim_refines:
  assumes "store_inv db" "claim env names limit worker now skip db = Inr (exs, db')"
  shows "life_step\<^sup>*\<^sup>* db db'"
proof (cases "normalize_queue_names names = [] \<or> limit < 1")
  case True
  then show ?thesis using assms(2) by (auto simp: claim_def Let_def)
next
  case False
  let ?rows = "take (nat limit) (claim_candidates (normalize_queue_names names) now skip db)"
  obtain claimed where claimed: "mapR scan_claim ?rows = Inr claimed"
    "foldR (claim_one now worker) (db, []) claimed = Inr (db', exs)"
    using assms(2) False by (auto simp: claim_def bindR_Inr_iff Let_def split: if_splits)
  have ids: "map fst claimed = map (er_id \<circ> fst) ?rows" by (rule scan_claim_ids [OF claimed(1)])
  have "distinct (map (er_id \<circ> fst) ?rows)"
    unfolding claim_candidates_def
    by (rule sorted_filter_distinct, unfold joined_execs_def, rule joined_execs_distinct)
      (use assms(1) in \<open>simp_all add: store_inv_def jobs_ok_def\<close>)
  moreover have "\<exists>e\<in>set (db_execs db). er_id e = fst c \<and> er_status e = Queued
          \<and> list_ex (\<lambda>j. jr_id j = er_job e) (db_jobs db)" if c: "c \<in> set claimed" for c
  proof -
    have "fst c \<in> set (map (er_id \<circ> fst) ?rows)" unfolding ids [symmetric] using c by simp
    then obtain e j where ej: "(e, j) \<in> set ?rows" "er_id e = fst c" by auto
    show ?thesis
      by (rule bexI [of _ e])
        (use ej in \<open>auto simp: claim_candidates_mem claimable_def list_ex_iff dest!: in_set_takeD\<close>)
  qed
  ultimately show ?thesis
    using claim_loop_refines [OF claimed(2) assms(1)] ids by simp
qed

lemma prune_refines:
  assumes "store_inv db" "prune_terminal queues cutoff limit skip db = Inr (n, db')"
  shows "life_step db db'"
proof (rule life_prune [of db "prune_candidates queues cutoff limit skip db"])
  fix e assume e: "e \<in> set (db_execs db)" "er_id e \<in> set (prune_candidates queues cutoff limit skip db)"
  then obtain x where x: "x \<in> set (db_execs db)" "er_id x = er_id e" "prunable queues cutoff x"
    by (auto simp: prune_candidates_def dest!: in_set_takeD)
  have "x = e" using distinct_key_eq [of er_id, OF _ x(1) e(1) x(2)] assms(1) by (simp add: store_inv_def)
  then show "terminal (er_status e) \<and> er_key e = None" using x(3) by (simp add: prunable_def)
qed (use assms(2) in \<open>auto simp: prune_terminal_def Let_def split: if_splits\<close>)

section \<open>Schedules\<close>

lemma find_due_mem:
  assumes "s \<in> set (find_due_schedules queues now limit skip db)"
  obtains a j where "j \<in> set (db_jobs db)" "du_job s = scan_job_record a j"
  using assms
  by (auto simp: find_due_schedules_def joined_schedules_def to_due_def dest!: in_set_takeD)

lemma update_schedule_frame [simp]:
  "db_execs (update_schedule_success i l t db) = db_execs db" "db_next (update_schedule_success i l t db) = db_next db"
  "db_jobs (update_schedule_success i l t db) = db_jobs db"
  "db_execs (update_schedule_failure i m t db) = db_execs db" "db_next (update_schedule_failure i m t db) = db_next db"
  "db_jobs (update_schedule_failure i m t db) = db_jobs db"
  by (simp_all add: update_schedule_success_def update_schedule_failure_def)

text \<open>One due Schedule either records a failure or inserts (or finds) its execution.\<close>

lemma run_due_schedule_cases:
  assumes "run_due_schedule next_run draw now db s = Inr db'"
  obtains (failed) message t where "db' = update_schedule_failure (du_id s) message t db"
      "next_run (du_cron s) (du_timezone s) now = Inr t"
  | (ran) n timeout retry ex inserted db1 t where "draw (du_id s) = Some n"
      "decode_retry (jd_retry (du_job s)) = Inr retry"
      "insert_execution n (du_job s) timeout retry (case retry of None \<Rightarrow> 1 | Some r \<Rightarrow> r_attempts r) None
         (du_next s) (schedule_idempotency_key (du_app s) (du_key s) (du_next s)) 0 db = Inr (ex, inserted, db1)"
      "db' = update_schedule_success (du_id s) (du_next s) t (notify_if inserted (ex_queue ex) db1)"
      "next_run (du_cron s) (du_timezone s) now = Inr t"
proof -
  obtain t where t: "next_run (du_cron s) (du_timezone s) now = Inr t"
    using assms by (cases "next_run (du_cron s) (du_timezone s) now") (simp_all add: run_due_schedule_def)
  show thesis
  proof (cases "\<exists>message. db' = update_schedule_failure (du_id s) message t db")
    case True
    then show ?thesis using failed t by blast
  next
    case False
    have blk: "schedule_job_blocker (du_job s) = None"
      using assms t False by (cases "schedule_job_blocker (du_job s)") (auto simp: run_due_schedule_def)
    obtain timeout where to: "positive_timeout (jd_timeout (du_job s)) = Some timeout"
      using assms t False blk
      by (cases "positive_timeout (jd_timeout (du_job s))") (auto simp: run_due_schedule_def Let_def)
    obtain retry where r: "decode_retry (jd_retry (du_job s)) = Inr retry"
      using assms t False blk to
      by (cases "decode_retry (jd_retry (du_job s))") (auto simp: run_due_schedule_def Let_def)
    obtain n where n: "draw (du_id s) = Some n"
      using assms t blk to r by (cases "draw (du_id s)") (auto simp: run_due_schedule_def Let_def)
    let ?ins = "insert_execution n (du_job s) timeout retry (case retry of None \<Rightarrow> 1 | Some r \<Rightarrow> r_attempts r) None
         (du_next s) (schedule_idempotency_key (du_app s) (du_key s) (du_next s)) 0 db"
    have "run_due_schedule next_run draw now db s = bindR ?ins (\<lambda>(ex, inserted, db').
        Inr (update_schedule_success (du_id s) (du_next s) t (notify_if inserted (ex_queue ex) db')))"
      using t blk to r n by (simp add: run_due_schedule_def Let_def)
    then obtain ex inserted db1 where i: "?ins = Inr (ex, inserted, db1)"
        "db' = update_schedule_success (du_id s) (du_next s) t (notify_if inserted (ex_queue ex) db1)"
      using assms by (cases ?ins) auto
    show ?thesis by (rule ran [OF n r i t])
  qed
qed

lemma run_due_schedule_refines:
  assumes "run_due_schedule next_run draw now db s = Inr db'" "store_inv db"
    and "j \<in> set (db_jobs db)" "du_job s = scan_job_record a j"
  shows "life_step db db'"
  using assms(1)
proof (cases rule: run_due_schedule_cases)
  case (failed message t)
  then show ?thesis using assms(2) by (auto intro: life_idle_same)
next
  case (ran n timeout retry ex inserted db1 t)
  have "1 \<le> (case retry of None \<Rightarrow> 1 | Some r \<Rightarrow> r_attempts r)"
    using ran(2) assms(2-4) by (intro plan_attempts [of db j]) (auto simp: store_inv_def scan_job_record_def)
  then have "life_step db db1" using insert_execution_refines [OF ran(3) assms(2)] by blast
  then show ?thesis using ran(4) by (auto intro: life_step_frame)
qed

lemma insert_execution_jobs:
  "insert_execution n d timeout retry maxa p at key prio db = Inr (ex, inserted, db') \<Longrightarrow> db_jobs db' = db_jobs db"
  by (auto simp: insert_execution_def bindR_Inr_iff Let_def split: if_splits option.splits)

lemma run_due_schedule_jobs:
  assumes "run_due_schedule next_run draw now db s = Inr db'"
  shows "db_jobs db' = db_jobs db"
  using assms
proof (cases rule: run_due_schedule_cases)
  case failed
  then show ?thesis by simp
next
  case ran
  then show ?thesis using insert_execution_jobs [OF ran(3)] by simp
qed

lemma schedules_loop_refines:
  assumes "foldR (run_due_schedule next_run draw now) db due = Inr db'" "store_inv db"
    and "\<forall>s\<in>set due. \<exists>a. \<exists>j\<in>set (db_jobs db). du_job s = scan_job_record a j"
  shows "life_step\<^sup>*\<^sup>* db db'"
  using assms
proof (induction due arbitrary: db)
  case Nil
  then show ?case by simp
next
  case (Cons s due)
  obtain db1 where db1: "run_due_schedule next_run draw now db s = Inr db1"
    "foldR (run_due_schedule next_run draw now) db1 due = Inr db'"
    using Cons.prems(1) by (auto split: sum.splits)
  obtain a j where j: "j \<in> set (db_jobs db)" "du_job s = scan_job_record a j" using Cons.prems(3) by auto
  have step: "life_step db db1" by (rule run_due_schedule_refines [OF db1(1) Cons.prems(2) j])
  have "life_step\<^sup>*\<^sup>* db1 db'"
    using Cons.IH [OF db1(2) life_step_inv [OF Cons.prems(2) step]] Cons.prems(3)
      run_due_schedule_jobs [OF db1(1)] by simp
  then show ?case using step by (rule converse_rtranclp_into_rtranclp [rotated])
qed

lemma run_due_schedules_Inr:
  assumes "run_due_schedules next_run draw env names worker now limit skip db = Inr (n, db')"
  obtains (none) "db' = db" "n = 0"
  | (some) queues lim where "queues = normalize_queue_names names" "1 \<le> lim"
      "foldR (run_due_schedule next_run draw now) db (find_due_schedules queues now lim skip db) = Inr db'"
      "n = int (length (find_due_schedules queues now lim skip db))"
proof -
  obtain queues where q: "schedule_queue_names env names = Inr queues"
    using assms by (auto simp: run_due_schedules_def bindR_Inr_iff)
  then have qn: "queues = normalize_queue_names names"
    by (auto simp: schedule_queue_names_def Let_def bindR_Inr_iff)
  let ?lim = "if limit < 1 then default_schedule_claim_limit else limit"
  have lim: "1 \<le> ?lim" by (simp add: default_schedule_claim_limit_def)
  show thesis
  proof (cases "queues = []")
    case True
    then show ?thesis using assms q none by (simp add: run_due_schedules_def)
  next
    case False
    then have "bindR (foldR (run_due_schedule next_run draw now) db (find_due_schedules queues now ?lim skip db))
        (\<lambda>db'. Inr (int (length (find_due_schedules queues now ?lim skip db)), db')) = Inr (n, db')"
      using assms q by (cases "blank worker") (simp_all add: run_due_schedules_def Let_def)
    then show ?thesis using some [OF qn lim] by (auto simp: bindR_Inr_iff)
  qed
qed

lemma run_due_schedules_refines:
  assumes "store_inv db" "run_due_schedules next_run draw env names worker now limit skip db = Inr (n, db')"
  shows "life_step\<^sup>*\<^sup>* db db'"
  using assms(2)
proof (cases rule: run_due_schedules_Inr)
  case none
  then show ?thesis by simp
next
  case (some queues lim)
  show ?thesis
    by (rule schedules_loop_refines [OF some(3) assms(1)]) (metis find_due_mem)
qed

end
