(* ===== verification/Job_Guarantees.thy ===== *)
theory Job_Guarantees
  imports Job_Refinement
begin

text \<open>
  What the Job store guarantees (\<^verbatim>\<open>internal/jobs/store\<close>): the refinement theorem, the
  invariant of every reachable database, idempotent enqueueing, the order of claims, fencing of
  lost claims, recovery, retention and the progress of Schedules.
\<close>

section \<open>Every transaction refines the life cycle\<close>

lemma set_job_enabled_refines:
  assumes "store_inv db" "set_job_enabled installing app job enabled db = Inr (r, db')"
  shows "life_step db db'"
proof (rule life_idle)
  obtain i where db': "db' = db\<lparr>db_jobs := update_where (\<lambda>j. jr_id j = i) (\<lambda>j. j\<lparr>jr_enabled := enabled\<rparr>) (db_jobs db)\<rparr>"
    using assms(2) by (auto simp: set_job_enabled_def bindR_Inr_iff Let_def split: if_splits)
  then show "db_execs db' = db_execs db" "db_next db' = db_next db" by simp_all
  have "map jr_id (update_where (\<lambda>j. jr_id j = i) (\<lambda>j. j\<lparr>jr_enabled := enabled\<rparr>) (db_jobs db)) = map jr_id (db_jobs db)"
    by (rule map_update_where) simp
  then show "jobs_ok (db_jobs db')"
    using assms(1) by (auto simp: db' store_inv_def jobs_ok_def set_update_where)
qed

lemma cancel_queued_cancels:
  assumes "cancel_queued ref now db = Inr (ex, db')"
  obtains i b where "cancel i now db = (b, db')"
proof -
  obtain x where x: "get (trim_space ref) db = Inr x"
    using assms by (auto simp: cancel_queued_def bindR_Inr_iff Let_def)
  then have "cancel (ex_id x) now db = (fst (cancel (ex_id x) now db), db')"
    using assms by (auto simp: cancel_queued_def Let_def split: if_splits prod.splits)
  then show thesis by (rule that)
qed

lemma store_step_life:
  assumes "store_step db db'" "store_inv db"
  shows "life_step\<^sup>*\<^sup>* db db'"
  using assms(1)
proof cases
  case (step_enqueue env name app job payload opts ex)
  then show ?thesis using enqueue_refines assms(2) by blast
next
  case (step_retry env name ref key ex)
  from step_retry assms(2) show ?thesis by (elim retry_execution_enqueues) (blast dest: enqueue_refines)
next
  case (step_enable installing app job enabled r)
  then show ?thesis using set_job_enabled_refines assms(2) by blast
next
  case (step_cancel i now b)
  then show ?thesis using cancel_refines assms(2) by blast
next
  case (step_cancel_queued ref now ex)
  from step_cancel_queued assms(2) show ?thesis by (elim cancel_queued_cancels) (blast dest: cancel_refines)
next
  case step_claim
  then show ?thesis using claim_refines assms(2) by blast
next
  case step_complete
  then show ?thesis using complete_refines assms(2) by blast
next
  case step_fail
  then show ?thesis using fail_refines assms(2) by blast
next
  case step_fail_final
  then show ?thesis using fail_final_refines assms(2) by blast
next
  case step_expire
  then show ?thesis using expire_claim_refines assms(2) by blast
next
  case step_recover
  then show ?thesis using recover_expired_refines assms(2) by blast
next
  case step_prune
  then show ?thesis using prune_refines assms(2) by blast
next
  case step_schedules
  then show ?thesis using run_due_schedules_refines assms(2) by blast
next
  case (step_metadata jobs apps scheds)
  then have "life_step db db'" by (intro life_idle) simp_all
  then show ?thesis by blast
qed

lemma store_step_inv: "store_inv db \<Longrightarrow> store_step db db' \<Longrightarrow> store_inv db'"
  using store_step_life life.inv_steps by blast

interpretation store: invariant_system store_step store_inv
  by unfold_locales (rule store_step_inv)

lemma store_steps_life: "store_step\<^sup>*\<^sup>* db db' \<Longrightarrow> store_inv db \<Longrightarrow> life_step\<^sup>*\<^sup>* db db'"
proof (induction rule: rtranclp_induct)
  case base
  then show ?case by simp
next
  case (step db1 db2)
  then have "store_inv db1" using store.inv_steps by blast
  then show ?case using step store_step_life by (meson rtranclp_trans)
qed

section \<open>A sample database\<close>

definition sample_db :: jobs_db where
  "sample_db = \<lparr>db_apps = [\<lparr>ar_id = 1, ar_name = ''crm'', ar_status = ''active''\<rparr>],
     db_jobs = [\<lparr>jr_id = 1, jr_name = ''send-mail'', jr_app = 1, jr_key = ''send-mail'', jr_source = ''file'',
       jr_label = ''Send'', jr_description = None, jr_queue = ''default'', jr_timeout = ''30s'',
       jr_retry = RetryPlan sample_retry, jr_enabled = True, jr_retired = False\<rparr>],
     db_execs = [],
     db_scheds = [\<lparr>sr_id = 1, sr_app = 1, sr_key = ''hourly'', sr_cron = ''0 * * * *'', sr_timezone = ''UTC'',
       sr_job_app_name = ''crm'', sr_job_name = ''send-mail'', sr_job = Some 1, sr_enabled = True,
       sr_retired = False, sr_next = Some 0, sr_last = None, sr_last_error = None\<rparr>],
     db_next = 1, db_notified = []\<rparr>"

definition sample_env :: store_env where
  "sample_env = \<lparr>se_queues = Some default_queue_config, se_installing = [], se_now = 5\<rparr>"

definition sample_options :: enqueue_options where
  "sample_options = \<lparr>eo_key = '' k1 '', eo_priority = 0, eo_run_after = zero_time\<rparr>"

definition db_of :: "store_error + 'a \<times> jobs_db \<Rightarrow> jobs_db" where
  "db_of r = (case r of Inl e \<Rightarrow> sample_db | Inr p \<Rightarrow> snd p)"

definition val_of :: "store_error + 'a \<times> jobs_db \<Rightarrow> 'a" where
  "val_of r = (case r of Inl e \<Rightarrow> undefined | Inr p \<Rightarrow> fst p)"

definition sample_enqueued :: jobs_db where
  "sample_enqueued = db_of (enqueue sample_env (Some ''n1'') ''crm'' ''send-mail'' ''{}'' sample_options sample_db)"

definition sample_claim :: "store_error + execution list \<times> jobs_db" where
  "sample_claim = claim sample_env [''default''] 3 ''w1'' 10 [] sample_enqueued"

definition sample_claimed :: jobs_db where
  "sample_claimed = db_of sample_claim"

lemma db_of_Inr: "r = Inr p \<Longrightarrow> db_of r = snd p"
  by (simp add: db_of_def)

lemma isr_Inr: "isl r = False \<Longrightarrow> r = Inr (projr r)"
  by (cases r) simp_all

lemma sample_db_inv: "store_inv sample_db"
  by code_simp

lemma sample_enqueue_ok:
  "enqueue sample_env (Some ''n1'') ''crm'' ''send-mail'' ''{}'' sample_options sample_db =
     Inr (projr (find_by_id 1 sample_enqueued), sample_enqueued)"
  by code_simp

section \<open>Refinement and invariant\<close>

text \<open>C5: every transaction of the store, started in a consistent database, is a sequence of
  steps of the execution life cycle.\<close>

theorem store_refines_lifecycle:
  assumes "store_inv db" "store_step db db'"
  shows "life_step\<^sup>*\<^sup>* db db'"
  using assms(2,1) by (rule store_step_life)

theorem store_refines_lifecycle_witness: "life_step\<^sup>*\<^sup>* sample_db sample_enqueued"
  by (rule store_refines_lifecycle [OF sample_db_inv step_enqueue [OF sample_enqueue_ok]])

text \<open>C6: from a consistent database every reachable one is consistent: ids, names and
  idempotency keys are unique, a row is locked exactly while it is running and has a finishing time
  exactly when it is terminal, and attempts never exceed the allowed number.\<close>

theorem reachable_store_consistent:
  assumes "store_inv db" "store_step\<^sup>*\<^sup>* db db'"
  shows "distinct (map er_id (db_execs db')) \<and> distinct (map er_name (db_execs db'))
    \<and> (\<forall>x\<in>set (db_execs db'). \<forall>y\<in>set (db_execs db').
         er_job x = er_job y \<and> er_key x = er_key y \<and> er_key x \<noteq> None \<longrightarrow> er_id x = er_id y)
    \<and> (\<forall>e\<in>set (db_execs db'). (er_status e = Running \<longleftrightarrow> er_locked_by e \<noteq> None)
         \<and> (terminal (er_status e) \<longleftrightarrow> er_finished e \<noteq> None)
         \<and> er_attempts e \<le> er_max_attempts e \<and> (er_status e = Queued \<longrightarrow> er_attempts e < er_max_attempts e))"
proof -
  have inv: "store_inv db'" using store.inv_steps assms by blast
  have "er_id x = er_id y"
    if "x \<in> set (db_execs db')" "y \<in> set (db_execs db')" "er_job x = er_job y" "er_key x = er_key y" "er_key x \<noteq> None" for x y
  proof -
    let ?es = "filter (\<lambda>e. er_key e \<noteq> None) (db_execs db')"
    have "distinct (map (\<lambda>e. (er_job e, er_key e)) ?es)" using inv by (simp add: store_inv_def keyed_def)
    then show ?thesis using distinct_key_eq [of "\<lambda>e. (er_job e, er_key e)" ?es x y] that by simp
  qed
  then have "\<forall>x\<in>set (db_execs db'). \<forall>y\<in>set (db_execs db').
         er_job x = er_job y \<and> er_key x = er_key y \<and> er_key x \<noteq> None \<longrightarrow> er_id x = er_id y" by blast
  with inv show ?thesis by (simp add: store_inv_def row_ok_def)
qed

theorem reachable_store_consistent_witness:
  "distinct (map er_id (db_execs sample_enqueued)) \<and> distinct (map er_name (db_execs sample_enqueued))
    \<and> er_attempts (hd (db_execs sample_enqueued)) < er_max_attempts (hd (db_execs sample_enqueued))
    \<and> er_locked_by (hd (db_execs sample_enqueued)) = None"
proof -
  have "hd (db_execs sample_enqueued) \<in> set (db_execs sample_enqueued)"
    "er_status (hd (db_execs sample_enqueued)) = Queued" by code_simp+
  with reachable_store_consistent [OF sample_db_inv
      r_into_rtranclp [of store_step, OF step_enqueue [OF sample_enqueue_ok]]]
  show ?thesis by auto
qed

section \<open>What happens to a row\<close>

text \<open>One abstract step keeps a row (with its identity, its attempts not decreasing, unchanged when
  terminal), or deletes it for good, which only happens to terminal rows without a key.\<close>

definition kept_as :: "exec_row \<Rightarrow> exec_row \<Rightarrow> bool" where
  "kept_as e x \<longleftrightarrow> er_id x = er_id e \<and> er_job x = er_job e \<and> er_key x = er_key e
     \<and> er_attempts e \<le> er_attempts x \<and> (terminal (er_status e) \<longrightarrow> x = e)"

definition gone :: "exec_row \<Rightarrow> jobs_db \<Rightarrow> bool" where
  "gone e db \<longleftrightarrow> er_id e < db_next db \<and> (\<forall>x\<in>set (db_execs db). er_id x \<noteq> er_id e)"

lemma kept_as_refl [simp]: "kept_as e e"
  by (simp add: kept_as_def)

lemma life_step_row:
  assumes "life_step db db'" "store_inv db" "e \<in> set (db_execs db)"
  shows "(\<exists>x\<in>set (db_execs db'). kept_as e x) \<or> terminal (er_status e) \<and> er_key e = None \<and> gone e db'"
  using assms(1)
proof cases
  case (life_change e0 e')
  show ?thesis
  proof (cases "er_id e = er_id e0")
    case True
    then have "e = e0" using distinct_key_eq [of er_id "db_execs db" e e0] assms(2,3) life_change(1) by (simp add: store_inv_def)
    then have "e' \<in> set (db_execs db')" "kept_as e e'"
      using exec_trans_fixed [OF life_change(2)] assms(3) update_where_in_changed [of e "db_execs db"]
      by (simp_all add: life_change(3) kept_as_def set_update_where image_iff)
        (metis \<open>e = e0\<close>)
    then show ?thesis by blast
  next
    case False
    then have "e \<in> set (db_execs db')" unfolding life_change(3) using assms(3) by (intro update_where_in_same)
    then show ?thesis by (meson kept_as_refl)
  qed
next
  case (life_insert e0)
  then show ?thesis using assms(3) by (intro disjI1 bexI [of _ e]) simp_all
next
  case (life_prune ids)
  then show ?thesis
    using assms(2,3) by (cases "er_id e \<in> set ids") (auto simp: gone_def store_inv_def intro!: bexI [of _ e])
next
  case life_idle
  then show ?thesis using assms(3) by (intro disjI1 bexI [of _ e]) simp_all
qed

lemma life_step_gone:
  assumes "life_step db db'" "store_inv db" "gone e db"
  shows "gone e db'"
  using assms(1)
proof cases
  case (life_change e0 e')
  have "er_id x \<in> er_id ` set (db_execs db)" if "x \<in> set (db_execs db')" for x
    using that exec_trans_fixed(1) [OF life_change(2)] life_change(1)
    unfolding life_change(3) by (auto simp: set_update_where)
  then show ?thesis using assms(3) life_change(4) by (force simp: gone_def)
qed (use assms(3) in \<open>auto simp: gone_def\<close>)

lemma life_steps_row:
  assumes "life_step\<^sup>*\<^sup>* db db'" "store_inv db" "e \<in> set (db_execs db)"
  shows "(\<exists>x\<in>set (db_execs db'). kept_as e x)
    \<or> er_key e = None \<and> gone e db'"
  using assms
proof (induction rule: rtranclp_induct)
  case base
  then show ?case by (meson kept_as_refl)
next
  case (step db1 db2)
  have inv: "store_inv db1" using step life.inv_steps by blast
  show ?case
  proof (cases "\<exists>x\<in>set (db_execs db1). kept_as e x")
    case True
    then obtain x where x: "x \<in> set (db_execs db1)" "kept_as e x" by blast
    from life_step_row [OF step(2) inv x(1)] show ?thesis
    proof
      assume "\<exists>y\<in>set (db_execs db2). kept_as x y"
      then show ?thesis using x(2) by (auto simp: kept_as_def intro: order_trans)
    next
      assume "terminal (er_status x) \<and> er_key x = None \<and> gone x db2"
      then show ?thesis using x(2) by (auto simp: kept_as_def gone_def)
    qed
  next
    case False
    then show ?thesis using step life_step_gone [OF step(2) inv] by blast
  qed
qed

text \<open>C7: a terminal execution never changes again, whatever transactions follow: its row stays as
  it is or, if it carries no idempotency key, is deleted and its id is never used again.\<close>

theorem terminal_rows_final:
  assumes "store_inv db" "store_step\<^sup>*\<^sup>* db db'" "e \<in> set (db_execs db)" "terminal (er_status e)"
  shows "e \<in> set (db_execs db') \<or> er_key e = None \<and> (\<forall>x\<in>set (db_execs db'). er_id x \<noteq> er_id e)"
  using life_steps_row [OF store_steps_life [OF assms(2,1)] assms(1,3)] assms(4)
  by (auto simp: kept_as_def gone_def)

definition sample_finished :: jobs_db where
  "sample_finished = (case complete (hd (val_of sample_claim)) ''1'' 12 sample_claimed of Inl e \<Rightarrow> sample_db | Inr db \<Rightarrow> db)"

lemma sample_claim_ok: "sample_claim = Inr (val_of sample_claim, sample_claimed)"
  by code_simp

lemma sample_complete_ok: "complete (hd (val_of sample_claim)) ''1'' 12 sample_claimed = Inr sample_finished"
  by code_simp

lemma sample_enqueued_inv: "store_inv sample_enqueued"
  by (rule store_step_inv [OF sample_db_inv step_enqueue [OF sample_enqueue_ok]])

lemma sample_claimed_inv: "store_inv sample_claimed"
  by (rule store_step_inv [OF sample_enqueued_inv step_claim [OF sample_claim_ok [unfolded sample_claim_def]]])

definition sample_done_row :: exec_row where
  "sample_done_row = hd (db_execs sample_finished)"

theorem terminal_rows_final_witness:
  "sample_done_row \<in> set (db_execs sample_finished)
    \<or> er_key sample_done_row = None \<and> (\<forall>x\<in>set (db_execs sample_finished). er_id x \<noteq> er_id sample_done_row)"
proof (rule terminal_rows_final)
  show "store_inv sample_finished"
    by (rule store_step_inv [OF sample_claimed_inv step_complete [OF sample_complete_ok]])
  show "store_step\<^sup>*\<^sup>* sample_finished sample_finished" by (rule rtranclp.rtrancl_refl)
  show "sample_done_row \<in> set (db_execs sample_finished)" "terminal (er_status sample_done_row)" by code_simp+
qed

section \<open>Idempotent enqueueing\<close>

lemma enqueue_row:
  assumes "enqueue env name app job payload opts db = Inr (ex, db')" "trim_space (eo_key opts) \<noteq> []"
    and "store_inv db"
  obtains e where "e \<in> set (db_execs db')" "er_id e = ex_id ex" "er_job e = ex_job ex"
    "er_key e = Some (trim_space (eo_key opts))"
  using assms(1)
proof (cases rule: enqueue_cases)
  case (existing d)
  then show ?thesis
    using that scan_execution_Inr(1,7) by (elim find_by_key_Some) metis
next
  case (tried d retry n timeout inserted db1)
  let ?key = "trim_space (eo_key opts)"
  show ?thesis
  proof (cases inserted)
    case False
    then have same: "db' = db" and found: "find_by_key (jd_id d) ?key db = Inr (Some ex)"
      using insert_execution_finds tried(6,7) by (auto simp: notify_if_def)
    from found show ?thesis
      using that scan_execution_Inr(1,7) unfolding same by (elim find_by_key_Some) metis
  next
    case True
    let ?at = "if eo_run_after opts = zero_time then se_now env else eo_run_after opts"
    let ?max = "case retry of None \<Rightarrow> 1 | Some r \<Rightarrow> r_attempts r"
    let ?row = "new_row n d retry ?max (payload_or_nil payload) ?at ?key (eo_priority opts) (db_next db)"
    have ins: "insert_execution n d timeout retry ?max (payload_or_nil payload) ?at ?key (eo_priority opts) db
        = Inr (ex, True, db1)" using tried(6) True by simp
    obtain ex0 where ex0: "find_by_id (db_next db) db1 = Inr ex0" "ex = ex0\<lparr>ex_timeout := timeout\<rparr>"
      using ins by (auto simp: insert_execution_def bindR_Inr_iff Let_def split: if_splits option.splits)
    obtain e j where e: "e \<in> set (db_execs db1)" "er_id e = db_next db" "scan_execution e j = Inr ex0"
      by (rule find_by_id_Inr [OF ex0(1)])
    have "\<forall>x\<in>set (db_execs db). er_id x < db_next db" using assms(3) by (simp add: store_inv_def)
    then have "e = ?row" using e(1,2) insert_execution_inserts(1) [OF ins] by auto
    moreover have "null_if_empty ?key = Some ?key" using assms(2) by (simp add: null_if_empty_def)
    ultimately show ?thesis
      using that [of e] e tried(7) scan_execution_Inr(1,7) [OF e(3)] ex0(2) by (simp add: new_row_def)
  qed
qed

text \<open>C8: enqueueing is idempotent for good.  After an enqueue with a non-blank key, any later
  successful enqueue for the same Job with the same key (up to surrounding white space), after any
  further transactions and whatever its payload, priority or time, returns the same execution and
  changes nothing.\<close>

theorem enqueue_idempotent:
  assumes "store_inv db" "enqueue env name app job payload opts db = Inr (ex, db1)"
    and "store_step\<^sup>*\<^sup>* db1 db2" "enqueue env2 name2 app2 job2 payload2 opts2 db2 = Inr (ex2, db3)"
    and "trim_space (eo_key opts2) = trim_space (eo_key opts)" "trim_space (eo_key opts) \<noteq> []"
    and "ex_job ex2 = ex_job ex"
  shows "ex_id ex2 = ex_id ex \<and> db3 = db2"
proof -
  let ?key = "trim_space (eo_key opts)"
  have inv1: "store_inv db1" using store_step_inv [OF assms(1) step_enqueue [OF assms(2)]] .
  have inv2: "store_inv db2" using store.inv_steps [OF assms(3) inv1] .
  obtain e where e: "e \<in> set (db_execs db1)" "er_id e = ex_id ex" "er_job e = ex_job ex" "er_key e = Some ?key"
    by (rule enqueue_row [OF assms(2,6,1)])
  obtain x where x: "x \<in> set (db_execs db2)" "er_id x = ex_id ex" "er_job x = ex_job ex" "er_key x = Some ?key"
    using life_steps_row [OF store_steps_life [OF assms(3) inv1] inv1 e(1)] e by (auto simp: kept_as_def)
  have inv3: "store_inv db3" using store_step_inv [OF inv2 step_enqueue [OF assms(4)]] .
  obtain y where y: "y \<in> set (db_execs db3)" "er_id y = ex_id ex2" "er_job y = ex_job ex2" "er_key y = Some ?key"
    using enqueue_row [OF assms(4) _ inv2] assms(5,6) by metis
  obtain x3 where x3: "x3 \<in> set (db_execs db3)" "er_id x3 = ex_id ex" "er_job x3 = ex_job ex" "er_key x3 = Some ?key"
    using life_steps_row [OF r_into_rtranclp [of life_step, OF enqueue_refines [OF assms(4) inv2]] inv2 x(1)] x
    by (auto simp: kept_as_def)
  let ?es = "filter (\<lambda>e. er_key e \<noteq> None) (db_execs db3)"
  have "distinct (map (\<lambda>e. (er_job e, er_key e)) ?es)" using inv3 by (simp add: store_inv_def keyed_def)
  then have same: "y = x3"
    using distinct_key_eq [of "\<lambda>e. (er_job e, er_key e)" ?es y x3] x3 y assms(7) by simp
  have "db3 = db2" using assms(4)
  proof (cases rule: enqueue_cases)
    case (existing d)
    then show ?thesis by simp
  next
    case (tried d retry n timeout inserted db4)
    have "\<not> inserted"
    proof
      assume ins: "inserted"
      then have i: "insert_execution n d timeout retry (case retry of None \<Rightarrow> 1 | Some r \<Rightarrow> r_attempts r)
          (payload_or_nil payload2) (if eo_run_after opts2 = zero_time then se_now env2 else eo_run_after opts2)
          (trim_space (eo_key opts2)) (eo_priority opts2) db2 = Inr (ex2, True, db4)"
        using tried(6) by simp
      have new: "ex_id ex2 = db_next db2"
        using i by (auto simp: insert_execution_def bindR_Inr_iff Let_def split: if_splits option.splits
            elim!: find_by_id_Inr dest: scan_execution_Inr(1))
      have "ex_id ex2 = ex_id ex" using same x3 y by simp
      then have "er_id x = db_next db2" using new x(2) by simp
      then show False using inv2 x(1) by (auto simp: store_inv_def)
    qed
    then show ?thesis using insert_execution_finds tried(6,7) by (auto simp: notify_if_def)
  qed
  then show ?thesis using same x3 y by simp
qed

definition sample_again :: "store_error + execution \<times> jobs_db" where
  "sample_again = enqueue sample_env (Some ''n2'') ''crm'' '' send-mail'' []
     (sample_options\<lparr>eo_key := ''k1'', eo_priority := 7\<rparr>) sample_claimed"

theorem enqueue_idempotent_witness:
  "ex_id (val_of sample_again) = ex_id (projr (find_by_id 1 sample_enqueued)) \<and> db_of sample_again = sample_claimed"
proof (rule enqueue_idempotent [OF sample_db_inv sample_enqueue_ok])
  show "store_step\<^sup>*\<^sup>* sample_enqueued sample_claimed"
    by (rule r_into_rtranclp [of store_step, OF step_claim [OF sample_claim_ok [unfolded sample_claim_def]]])
  show "enqueue sample_env (Some ''n2'') ''crm'' '' send-mail'' []
     (sample_options\<lparr>eo_key := ''k1'', eo_priority := 7\<rparr>) sample_claimed = Inr (val_of sample_again, db_of sample_again)"
    by code_simp
  show "trim_space (eo_key (sample_options\<lparr>eo_key := ''k1'', eo_priority := 7\<rparr>)) = trim_space (eo_key sample_options)"
    "trim_space (eo_key sample_options) \<noteq> []"
    "ex_job (val_of sample_again) = ex_job (projr (find_by_id 1 sample_enqueued))"
    by code_simp+
qed

end
