(* ===== verification/Job_Claims.thy ===== *)
theory Job_Claims
  imports Job_Guarantees
begin

text \<open>
  Claims (\<^verbatim>\<open>Claim\<close>, \<^verbatim>\<open>Complete\<close>, \<^verbatim>\<open>Fail\<close>,
  \<^verbatim>\<open>FailFinal\<close>, \<^verbatim>\<open>ExpireClaim\<close>, \<^verbatim>\<open>RecoverExpired\<close> of
  \<^verbatim>\<open>internal/jobs/store/store.go\<close>): which rows are claimed, that a lost claim can never
  write again, and that recovery leaves no expired lease behind.
\<close>

section \<open>Fencing\<close>

text \<open>Worker \<open>w\<close> owns attempt \<open>n\<close> of execution \<open>i\<close>; the attempts of \<open>i\<close> have reached \<open>n\<close>.\<close>

definition owner_of :: "jobs_db \<Rightarrow> int \<Rightarrow> string \<Rightarrow> int \<Rightarrow> bool" where
  "owner_of db i w n \<longleftrightarrow> (\<exists>e\<in>set (db_execs db). er_id e = i \<and> er_status e = Running
     \<and> er_locked_by e = Some w \<and> er_attempts e = n)"

definition past_attempt :: "jobs_db \<Rightarrow> int \<Rightarrow> int \<Rightarrow> bool" where
  "past_attempt db i n \<longleftrightarrow> i < db_next db \<and> (\<forall>e\<in>set (db_execs db). er_id e = i \<longrightarrow> n \<le> er_attempts e)"

lemma changed_row_owner:
  assumes "exec_trans e e'" "er_status e' = Running" "er_locked_by e' = Some w" "er_attempts e' = n" "n \<le> er_attempts e"
  shows "er_status e = Running \<and> er_locked_by e = Some w \<and> er_attempts e = n"
  using assms
  by (induction rule: exec_trans.induct)
    (simp_all add: claim_row_def complete_row_def final_row_def requeue_row_def)

lemma update_memE:
  assumes "x \<in> set (update_where (\<lambda>x. er_id x = er_id e) (\<lambda>_. e') es)"
  obtains "x = e'" "e \<in> set es \<or> (\<exists>y\<in>set es. er_id y = er_id e)" | "x \<in> set es" "er_id x \<noteq> er_id e"
  using assms by (auto simp: set_update_where split: if_splits)

interpretation claim_fence: fencing life_step store_inv owner_of past_attempt
proof unfold_locales
  fix db db' :: jobs_db and i n
  assume inv: "store_inv db" and step: "life_step db db'" and past: "past_attempt db i n"
  show "past_attempt db' i n" using step
  proof cases
    case (life_change e e')
    have "n \<le> er_attempts x" if x: "x \<in> set (db_execs db')" "er_id x = i" for x
      using x(1) unfolding life_change(3)
    proof (cases rule: update_memE)
      case 1
      then show ?thesis
        using x(2) past life_change(1) exec_trans_fixed(1,7) [OF life_change(2)]
        by (fastforce simp: past_attempt_def)
    next
      case 2
      then show ?thesis using x(2) past by (simp add: past_attempt_def)
    qed
    then show ?thesis using past life_change(4) by (simp add: past_attempt_def)
  qed (use past in \<open>auto simp: past_attempt_def\<close>)
next
  fix db db' :: jobs_db and i n w
  assume inv: "store_inv db" and step: "life_step db db'" and past: "past_attempt db i n"
    and own: "owner_of db' i w n"
  obtain x where x: "x \<in> set (db_execs db')" "er_id x = i" "er_status x = Running"
    "er_locked_by x = Some w" "er_attempts x = n"
    using own by (auto simp: owner_of_def)
  show "owner_of db i w n" using step
  proof cases
    case (life_change e e')
    show ?thesis using x(1) unfolding life_change(3)
    proof (cases rule: update_memE)
      case 1
      then have "n \<le> er_attempts e"
        using x(2) past life_change(1) exec_trans_fixed(1) [OF life_change(2)] by (simp add: past_attempt_def)
      then have "er_status e = Running \<and> er_locked_by e = Some w \<and> er_attempts e = n"
        using changed_row_owner [OF life_change(2)] x 1 by simp
      then show ?thesis
        using life_change(1) x(2) 1 exec_trans_fixed(1) [OF life_change(2)] by (auto simp: owner_of_def)
    next
      case 2
      then show ?thesis using x by (auto simp: owner_of_def)
    qed
  next
    case (life_insert e)
    then show ?thesis using x past by (auto simp: owner_of_def past_attempt_def)
  next
    case life_prune
    then show ?thesis using x by (auto simp: owner_of_def)
  next
    case life_idle
    then show ?thesis using x by (auto simp: owner_of_def)
  qed
qed

lemma owner_of_owns: "owner_of db (ex_id ex) (ex_locked_by ex) (ex_attempts ex) \<longleftrightarrow> list_ex (owns ex) (db_execs db)"
  by (auto simp: owner_of_def owns_def list_ex_iff)

text \<open>Without ownership every finishing statement is refused.\<close>

lemma not_owner_refused:
  assumes "\<not> list_ex (owns ex) (db_execs db)"
  shows "fail rnd ex message now db = Inl (ClaimLost (ex_id ex))"
    "fail_final ex message now db = Inl (ClaimLost (ex_id ex))"
    "expire_claim ex now db = Inl (ClaimLost (ex_id ex))"
    "complete ex result now db = Inl (ClaimLost (ex_id ex)) \<or> complete ex result now db = Inl ResultNotJson"
proof -
  have "find (owns ex) (db_execs db) = None" using assms by (auto simp: find_None_iff list_ex_iff)
  then show "fail rnd ex message now db = Inl (ClaimLost (ex_id ex))"
    "expire_claim ex now db = Inl (ClaimLost (ex_id ex))"
    by (simp_all add: fail_def expire_claim_def)
  show "fail_final ex message now db = Inl (ClaimLost (ex_id ex))"
    "complete ex result now db = Inl (ClaimLost (ex_id ex)) \<or> complete ex result now db = Inl ResultNotJson"
    using assms by (simp_all add: fail_final_def complete_def)
qed

definition finishes :: "execution \<Rightarrow> jobs_db \<Rightarrow> jobs_db \<Rightarrow> bool" where
  "finishes ex db db' \<longleftrightarrow> (\<exists>result now. complete ex result now db = Inr db')
     \<or> (\<exists>rnd message now. fail rnd ex message now db = Inr db')
     \<or> (\<exists>message now. fail_final ex message now db = Inr db')"

lemma owned_row_unique:
  assumes "store_inv db" "x \<in> set (db_execs db)" "y \<in> set (db_execs db)" "er_id x = er_id y"
  shows "x = y"
  using assms distinct_key_eq [of er_id "db_execs db" x y] by (simp add: store_inv_def)

lemma owns_update_ends:
  assumes "store_inv db" "list_ex (owns ex) (db_execs db)"
    and f: "\<forall>e. er_id (f e) = er_id e \<and> er_attempts (f e) = er_attempts e \<and> er_status (f e) \<noteq> Running"
    and P: "P = owns ex \<or> P = (\<lambda>e. er_id e = ex_id ex)"
    and db': "db_execs db' = update_where P f (db_execs db)" "db_next db' = db_next db"
  shows "\<not> owner_of db' (ex_id ex) w n \<and> past_attempt db' (ex_id ex) (ex_attempts ex)"
proof -
  obtain e where e: "e \<in> set (db_execs db)" "owns ex e" using assms(2) by (auto simp: list_ex_iff)
  have id: "er_id e = ex_id ex" "er_attempts e = ex_attempts ex" using e(2) by (auto simp: owns_def)
  have "x = f e" if x: "x \<in> set (db_execs db')" "er_id x = ex_id ex" for x
  proof -
    obtain y where y: "y \<in> set (db_execs db)" "x = (if P y then f y else y)"
      using x(1) unfolding db' by (rule update_where_memE)
    have "er_id y = ex_id ex" using y(2) x(2) f by (auto split: if_splits)
    then have "y = e" using owned_row_unique [OF assms(1) y(1) e(1)] id by simp
    then show ?thesis using y(2) P e(2) id by auto
  qed
  moreover have "ex_id ex < db_next db'" using assms(1) e(1) id db'(2) by (auto simp: store_inv_def)
  ultimately show ?thesis using f [rule_format, of e] id by (auto simp: owner_of_def past_attempt_def)
qed

lemma retry_or_fail_update:
  assumes "retry_or_fail rnd i a m retry message now db = Inr db'"
  obtains f where "\<forall>e. er_id (f e) = er_id e \<and> er_attempts (f e) = er_attempts e \<and> er_status (f e) \<noteq> Running"
    "db_execs db' = update_where (\<lambda>e. er_id e = i) f (db_execs db)" "db_next db' = db_next db"
proof (cases "a < m")
  case True
  then obtain at where "db_execs db' = update_where (\<lambda>e. er_id e = i) (requeue_row (trim_space message) at) (db_execs db)"
    "db_next db' = db_next db"
    using assms by (auto simp: retry_or_fail_def Let_def split: sum.splits option.splits)
  then show ?thesis by (intro that [of "requeue_row (trim_space message) at"]) (simp_all add: requeue_row_def)
next
  case False
  then show ?thesis
    using assms by (intro that [of "final_row (trim_space message) now"])
      (auto simp: retry_or_fail_def Let_def final_row_def)
qed

lemma finishes_ends:
  assumes "store_inv db" "finishes ex db db'"
  shows "\<not> owner_of db' (ex_id ex) w n \<and> past_attempt db' (ex_id ex) (ex_attempts ex)"
proof -
  have own: "list_ex (owns ex) (db_execs db)"
  proof (rule ccontr)
    assume "\<not> list_ex (owns ex) (db_execs db)"
    note refused = not_owner_refused [OF this]
    have "complete ex result now db \<noteq> Inr db'" for result now using refused(4) [of result now] by auto
    then show False using assms(2) refused(1,2) by (auto simp: finishes_def)
  qed
  note ends = owns_update_ends [OF assms(1) own]
  consider result now where "complete ex result now db = Inr db'"
    | rnd message now where "fail rnd ex message now db = Inr db'"
    | message now where "fail_final ex message now db = Inr db'"
    using assms(2) by (auto simp: finishes_def)
  then show ?thesis
  proof cases
    case 1
    then show ?thesis
      by (intro ends [of "complete_row (payload_or_nil result) now" "owns ex"])
        (auto simp: complete_def complete_row_def split: if_splits)
  next
    case 3
    then show ?thesis
      by (intro ends [of "final_row (trim_space message) now" "owns ex"])
        (auto simp: fail_final_def final_row_def split: if_splits)
  next
    case 2
    then obtain e retry where e: "find (owns ex) (db_execs db) = Some e"
      "retry_or_fail rnd (ex_id ex) (er_attempts e) (er_max_attempts e) retry message now db = Inr db'"
      by (auto simp: fail_def bindR_Inr_iff split: option.splits)
    obtain f where f: "\<forall>e. er_id (f e) = er_id e \<and> er_attempts (f e) = er_attempts e \<and> er_status (f e) \<noteq> Running"
      "db_execs db' = update_where (\<lambda>e. er_id e = ex_id ex) f (db_execs db)" "db_next db' = db_next db"
      by (rule retry_or_fail_update [OF e(2)])
    show ?thesis by (rule ends [OF f(1) disjI2 [OF refl] f(2,3)])
  qed
qed

lemma finishes_step: "finishes ex db db' \<Longrightarrow> store_step db db'"
  by (auto simp: finishes_def intro: store_step.intros)

text \<open>C9: a claim is finished at most once.  Once a worker's claim has been completed, failed or
  failed for good, then after any further transactions (including new claims of the same execution
  by the same worker) no statement of that claim has an effect: failing, failing for good and
  expiring are refused as lost, and completing is refused too.\<close>

theorem finished_claim_fenced:
  assumes "store_inv db" "finishes ex db db1" "store_step\<^sup>*\<^sup>* db1 db2"
  shows "fail rnd ex message now db2 = Inl (ClaimLost (ex_id ex))
    \<and> fail_final ex message now db2 = Inl (ClaimLost (ex_id ex))
    \<and> expire_claim ex now db2 = Inl (ClaimLost (ex_id ex))
    \<and> (\<forall>result db3. complete ex result now db2 \<noteq> Inr db3)"
proof -
  have inv1: "store_inv db1" by (rule store_step_inv [OF assms(1) finishes_step [OF assms(2)]])
  have "\<not> owner_of db2 (ex_id ex) (ex_locked_by ex) (ex_attempts ex)"
    using claim_fence.lost_stays_lost [OF store_steps_life [OF assms(3) inv1] inv1]
      finishes_ends [OF assms(1,2)] by blast
  then have "\<not> list_ex (owns ex) (db_execs db2)" by (simp add: owner_of_owns)
  note refused = not_owner_refused [OF this]
  have "complete ex result now db2 \<noteq> Inr db3" for result db3 using refused(4) [of result now] by auto
  then show ?thesis using refused by blast
qed

theorem finished_claim_fenced_witness:
  "let ex = hd (val_of sample_claim) in
    fail (\<lambda>i n. 0) ex ''late'' 20 sample_finished = Inl (ClaimLost (ex_id ex))
    \<and> fail_final ex ''late'' 20 sample_finished = Inl (ClaimLost (ex_id ex))
    \<and> expire_claim ex 20 sample_finished = Inl (ClaimLost (ex_id ex))
    \<and> (\<forall>result db3. complete ex result 20 sample_finished \<noteq> Inr db3)"
  unfolding Let_def
proof (rule finished_claim_fenced [OF sample_claimed_inv])
  show "finishes (hd (val_of sample_claim)) sample_claimed sample_finished"
    using sample_complete_ok by (auto simp: finishes_def)
  show "store_step\<^sup>*\<^sup>* sample_finished sample_finished" by (rule rtranclp.rtrancl_refl)
qed

section \<open>The order of claims\<close>

lemma claim_loop_ids:
  assumes "foldR (claim_one now worker) (db, acc) claimed = Inr (db', acc')"
  shows "map ex_id acc' = map ex_id acc @ map fst claimed"
  using assms
proof (induction claimed arbitrary: db acc)
  case Nil
  then show ?case by simp
next
  case (Cons c claimed)
  obtain i timeout where c: "c = (i, timeout)" by fastforce
  obtain db1 acc1 where one: "claim_one now worker (db, acc) (i, timeout) = Inr (db1, acc1)"
    and rest: "foldR (claim_one now worker) (db1, acc1) claimed = Inr (db', acc')"
    using Cons.prems c by (auto split: sum.splits)
  obtain ex where ex: "find_by_id i db1 = Inr ex" "acc1 = acc @ [ex\<lparr>ex_timeout := timeout\<rparr>]"
    using claim_one_db(2) [OF one] by blast
  have "ex_id ex = i" using ex(1) by (auto elim!: find_by_id_Inr dest: scan_execution_Inr(1))
  then show ?case using Cons.IH [OF rest] ex(2) c by simp
qed

lemma claim_Inr:
  assumes "claim env names limit worker now skip db = Inr (exs, db')"
    and "normalize_queue_names names \<noteq> []" "1 \<le> limit"
  obtains claimed where
    "mapR scan_claim (take (nat limit) (claim_candidates (normalize_queue_names names) now skip db)) = Inr claimed"
    "foldR (claim_one now worker) (db, []) claimed = Inr (db', exs)"
  using assms by (auto simp: claim_def bindR_Inr_iff Let_def split: if_splits)

text \<open>C10: a claim takes the best-ranked claimable executions and no others.  The claimed ids are, in
  order, the first \<open>limit\<close> of the queued, due rows of the selected queues whose app is active, by
  descending priority, then earliest time, then lowest id; and an eligible row that was passed over
  ranks behind every claimed one, the limit being used up.\<close>

theorem claim_takes_best:
  assumes "claim env names limit worker now skip db = Inr (exs, db')"
    and "normalize_queue_names names \<noteq> []" "1 \<le> limit" "store_inv db"
  shows "map ex_id exs = map (er_id \<circ> fst) (take (nat limit) (claim_candidates (normalize_queue_names names) now skip db))
    \<and> distinct (map ex_id exs)
    \<and> (\<forall>(e, j)\<in>set (claim_candidates (normalize_queue_names names) now skip db).
         er_id e \<notin> set (map ex_id exs) \<longrightarrow> length exs = nat limit
           \<and> (\<forall>e'\<in>set (db_execs db). er_id e' \<in> set (map ex_id exs) \<longrightarrow> claim_rank e' \<le> claim_rank e))"
proof -
  let ?all = "claim_candidates (normalize_queue_names names) now skip db"
  let ?rows = "take (nat limit) ?all"
  obtain claimed where c: "mapR scan_claim ?rows = Inr claimed"
    "foldR (claim_one now worker) (db, []) claimed = Inr (db', exs)"
    by (rule claim_Inr [OF assms(1-3)])
  have ids: "map ex_id exs = map (er_id \<circ> fst) ?rows"
    using claim_loop_ids [OF c(2)] scan_claim_ids [OF c(1)] by simp
  have dist: "distinct (map (er_id \<circ> fst) ?rows)"
    unfolding claim_candidates_def
    by (rule sorted_filter_distinct, unfold joined_execs_def, rule joined_execs_distinct)
      (use assms(4) in \<open>simp_all add: store_inv_def jobs_ok_def\<close>)
  have sorted: "sorted (map (\<lambda>(e, j). claim_rank e) ?all)" by (simp add: claim_candidates_def)
  have "length exs = nat limit \<and> (\<forall>e'\<in>set (db_execs db). er_id e' \<in> set (map ex_id exs) \<longrightarrow> claim_rank e' \<le> claim_rank e)"
    if e: "(e, j) \<in> set ?all" "er_id e \<notin> set (map ex_id exs)" for e j
  proof
    have "(e, j) \<notin> set ?rows" using e(2) unfolding ids by (force simp: image_iff)
    then have later: "(e, j) \<in> set (drop (nat limit) ?all)"
      using e(1) append_take_drop_id [of "nat limit" ?all] by (metis Un_iff set_append)
    then have "nat limit < length ?all" by (cases "nat limit < length ?all") simp_all
    then show "length exs = nat limit" using arg_cong [OF ids, of length] by simp
    show "\<forall>e'\<in>set (db_execs db). er_id e' \<in> set (map ex_id exs) \<longrightarrow> claim_rank e' \<le> claim_rank e"
    proof (intro ballI impI)
      fix e' assume e': "e' \<in> set (db_execs db)" "er_id e' \<in> set (map ex_id exs)"
      then obtain x k where x: "(x, k) \<in> set ?rows" "er_id x = er_id e'" unfolding ids by auto
      then have "x \<in> set (db_execs db)" by (auto simp: claim_candidates_mem dest!: in_set_takeD)
      then have "x = e'" using owned_row_unique [OF assms(4) _ e'(1) x(2)] by simp
      moreover have "sorted (map (\<lambda>(e, j). claim_rank e) ?rows @ map (\<lambda>(e, j). claim_rank e) (drop (nat limit) ?all))"
        using sorted by (simp flip: map_append)
      ultimately show "claim_rank e' \<le> claim_rank e"
        using x(1) later by (fastforce simp: sorted_append)
    qed
  qed
  then show ?thesis using ids dist by auto
qed

definition sample_two :: jobs_db where
  "sample_two = db_of (enqueue sample_env (Some ''n2'') ''crm'' ''send-mail'' ''{}''
     (sample_options\<lparr>eo_key := ''k2'', eo_priority := 7\<rparr>) sample_enqueued)"

definition sample_best :: "store_error + execution list \<times> jobs_db" where
  "sample_best = claim sample_env [''default''] 1 ''w1'' 10 [] sample_two"

theorem claim_takes_best_witness:
  "map ex_id (val_of sample_best) = [2] \<and> length (val_of sample_best) = nat 1
    \<and> claim_rank (db_execs sample_two ! 1) \<le> claim_rank (db_execs sample_two ! 0)"
proof -
  have c: "claim sample_env [''default''] 1 ''w1'' 10 [] sample_two = Inr (val_of sample_best, db_of sample_best)"
    by code_simp
  have ids: "map ex_id (val_of sample_best) = [2]" by code_simp
  have n: "normalize_queue_names [''default''] \<noteq> []" by code_simp
  have i: "store_inv sample_two" by code_simp
  have left: "(db_execs sample_two ! 0, hd (db_jobs sample_db))
      \<in> set (claim_candidates (normalize_queue_names [''default'']) 10 [] sample_two)" by code_simp
  have rows: "db_execs sample_two ! 1 \<in> set (db_execs sample_two)" "er_id (db_execs sample_two ! 1) = 2"
    "er_id (db_execs sample_two ! 0) = 1" by code_simp+
  show ?thesis using claim_takes_best [OF c n _ i] left ids rows by fastforce
qed

text \<open>What a claim writes: the row is running, locked by the worker, on its next attempt.\<close>

definition claimed_for :: "string \<Rightarrow> jobs_db \<Rightarrow> execution \<Rightarrow> bool" where
  "claimed_for worker db ex \<longleftrightarrow> list_ex (owns ex) (db_execs db) \<and> ex_locked_by ex = worker \<and> ex_status ex = Running"

lemma claimed_for_update:
  assumes "claimed_for worker db ex" "ex_id ex \<noteq> i"
  shows "claimed_for worker (db\<lparr>db_execs := update_where (\<lambda>e. er_id e = i \<and> Q e) f (db_execs db)\<rparr>) ex"
proof -
  obtain e where e: "e \<in> set (db_execs db)" "owns ex e" using assms(1) by (auto simp: claimed_for_def list_ex_iff)
  then have "er_id e \<noteq> i" using assms(2) by (simp add: owns_def)
  then have "e \<in> set (update_where (\<lambda>e. er_id e = i \<and> Q e) f (db_execs db))"
    using update_id_other [OF e(1)] by simp
  then show ?thesis using e(2) assms(1) by (auto simp: claimed_for_def list_ex_iff)
qed

lemma claim_one_claims:
  assumes "claim_one now worker (db, acc) (i, timeout) = Inr (db1, acc1)" "store_inv db"
    and "e \<in> set (db_execs db)" "er_id e = i" "list_ex (\<lambda>j. jr_id j = er_job e) (db_jobs db)"
  shows "\<exists>ex. acc1 = acc @ [ex] \<and> claimed_for worker db1 ex \<and> ex_attempts ex = er_attempts e + 1 \<and> ex_id ex = i"
proof -
  let ?P = "\<lambda>e. er_id e = i \<and> list_ex (\<lambda>j. jr_id j = er_job e) (db_jobs db)"
  have db1: "db1 = db\<lparr>db_execs := update_where ?P (claim_row now timeout worker) (db_execs db)\<rparr>"
    by (rule claim_one_db(1) [OF assms(1)])
  obtain ex where ex: "find_by_id i db1 = Inr ex" "acc1 = acc @ [ex\<lparr>ex_timeout := timeout\<rparr>]"
    using claim_one_db(2) [OF assms(1)] by blast
  obtain x j where x: "x \<in> set (db_execs db1)" "er_id x = i" "scan_execution x j = Inr ex"
    by (rule find_by_id_Inr [OF ex(1)])
  have "x \<in> set (update_where ?P (claim_row now timeout worker) (db_execs db))" using x(1) by (simp add: db1)
  then obtain y where y: "y \<in> set (db_execs db)" "x = (if ?P y then claim_row now timeout worker y else y)"
    by (rule update_where_memE)
  have "er_id y = i" using y(2) x(2) by (auto simp: claim_row_def split: if_splits)
  then have "y = e" using owned_row_unique [OF assms(2) y(1) assms(3)] assms(4) by simp
  then have xe: "x = claim_row now timeout worker e" using y(2) assms(4,5) by simp
  have "owns (ex\<lparr>ex_timeout := timeout\<rparr>) x" "ex_locked_by ex = worker" "ex_status ex = Running"
    using xe scan_execution_Inr(1-5) [OF x(3)] by (simp_all add: owns_def claim_row_def)
  then have "claimed_for worker db1 (ex\<lparr>ex_timeout := timeout\<rparr>)"
    using x(1) by (auto simp: claimed_for_def list_ex_iff)
  then show ?thesis using ex(2) scan_execution_Inr(1,3) [OF x(3)] xe assms(4) by (auto simp: claim_row_def)
qed

lemma claim_loop_claims:
  assumes "foldR (claim_one now worker) (db, acc) claimed = Inr (db', acc')" "store_inv db"
    and "distinct (map fst claimed)"
    and "\<forall>c\<in>set claimed. \<exists>e\<in>set (db_execs db). er_id e = fst c \<and> er_status e = Queued
          \<and> list_ex (\<lambda>j. jr_id j = er_job e) (db_jobs db)"
    and "\<forall>ex\<in>set acc. claimed_for worker db ex \<and> ex_id ex \<notin> fst ` set claimed"
  shows "\<forall>ex\<in>set acc'. claimed_for worker db' ex"
  using assms
proof (induction claimed arbitrary: db acc)
  case Nil
  then show ?case by simp
next
  case (Cons c claimed)
  obtain i timeout where c: "c = (i, timeout)" by fastforce
  obtain db1 acc1 where one: "claim_one now worker (db, acc) (i, timeout) = Inr (db1, acc1)"
    and rest: "foldR (claim_one now worker) (db1, acc1) claimed = Inr (db', acc')"
    using Cons.prems(1) c by (auto split: sum.splits)
  let ?P = "\<lambda>e. er_id e = i \<and> list_ex (\<lambda>j. jr_id j = er_job e) (db_jobs db)"
  have db1: "db1 = db\<lparr>db_execs := update_where ?P (claim_row now timeout worker) (db_execs db)\<rparr>"
    by (rule claim_one_db(1) [OF one])
  obtain e where e: "e \<in> set (db_execs db)" "?P e" "er_status e = Queued"
    using Cons.prems(4) c by auto
  obtain ex where ex: "acc1 = acc @ [ex]" "claimed_for worker db1 ex" "ex_id ex = i"
    using claim_one_claims [OF one Cons.prems(2) e(1)] e(2) by blast
  have step: "life_step db db1" unfolding db1
    by (rule life_update [where e = e]) (use e Cons.prems(2) Claimed in simp_all)
  have keep: "\<exists>e\<in>set (db_execs db1). er_id e = fst d \<and> er_status e = Queued
          \<and> list_ex (\<lambda>j. jr_id j = er_job e) (db_jobs db1)" if d: "d \<in> set claimed" for d
  proof -
    have ne: "fst d \<noteq> i" using Cons.prems(3) c d by auto
    obtain x where x: "x \<in> set (db_execs db)" "er_id x = fst d" "er_status x = Queued"
        "list_ex (\<lambda>j. jr_id j = er_job x) (db_jobs db)"
      using Cons.prems(4) d by (meson list.set_intros(2))
    have "er_id x \<noteq> i" using x(2) ne by simp
    then have "x \<in> set (db_execs db1)"
      using update_id_other [OF x(1)] unfolding db1 by simp
    then show ?thesis using x by (auto simp: db1)
  qed
  have "claimed_for worker db1 x \<and> ex_id x \<notin> fst ` set claimed" if x: "x \<in> set acc1" for x
  proof (cases "x \<in> set acc")
    case True
    then have "claimed_for worker db x" "ex_id x \<noteq> i" "ex_id x \<notin> fst ` set claimed"
      using Cons.prems(5) c by auto
    then show ?thesis
      using claimed_for_update [of worker db x i "\<lambda>e. list_ex (\<lambda>j. jr_id j = er_job e) (db_jobs db)"]
      unfolding db1 by simp
  next
    case False
    then have "x = ex" using x ex(1) by simp
    then show ?thesis using ex(2,3) Cons.prems(3) c by auto
  qed
  then show ?case
    using Cons.IH [OF rest life_step_inv [OF Cons.prems(2) step]] keep Cons.prems(3) by simp
qed

lemma claimed_ids_queued:
  assumes "store_inv db" "mapR scan_claim (take n (claim_candidates queues now skip db)) = Inr claimed"
  shows "distinct (map fst claimed) \<and> (\<forall>c\<in>set claimed. \<exists>e\<in>set (db_execs db). er_id e = fst c
      \<and> er_status e = Queued \<and> list_ex (\<lambda>j. jr_id j = er_job e) (db_jobs db))"
proof
  let ?rows = "take n (claim_candidates queues now skip db)"
  have ids: "map fst claimed = map (er_id \<circ> fst) ?rows" by (rule scan_claim_ids [OF assms(2)])
  have "distinct (map (er_id \<circ> fst) ?rows)"
    unfolding claim_candidates_def
    by (rule sorted_filter_distinct, unfold joined_execs_def, rule joined_execs_distinct)
      (use assms(1) in \<open>simp_all add: store_inv_def jobs_ok_def\<close>)
  then show "distinct (map fst claimed)" using ids by simp
  show "\<forall>c\<in>set claimed. \<exists>e\<in>set (db_execs db). er_id e = fst c
      \<and> er_status e = Queued \<and> list_ex (\<lambda>j. jr_id j = er_job e) (db_jobs db)"
  proof
    fix c assume "c \<in> set claimed"
    then have "fst c \<in> set (map (er_id \<circ> fst) ?rows)" unfolding ids [symmetric] by simp
    then obtain e j where ej: "(e, j) \<in> set ?rows" "er_id e = fst c" by auto
    show "\<exists>e\<in>set (db_execs db). er_id e = fst c
      \<and> er_status e = Queued \<and> list_ex (\<lambda>j. jr_id j = er_job e) (db_jobs db)"
      by (rule bexI [of _ e])
        (use ej in \<open>auto simp: claim_candidates_mem claimable_def list_ex_iff dest!: in_set_takeD\<close>)
  qed
qed

text \<open>Every execution a claim returns is, in the new database, running and locked by the
  claiming worker on the attempt the returned value carries, so the worker can finish it.\<close>

theorem claim_grants_ownership:
  assumes "claim env names limit worker now skip db = Inr (exs, db')" "store_inv db" "ex \<in> set exs"
  shows "ex_locked_by ex = worker \<and> ex_status ex = Running \<and> owner_of db' (ex_id ex) worker (ex_attempts ex)
    \<and> (\<exists>db''. complete ex [] later db' = Inr db'')"
proof -
  have "normalize_queue_names names \<noteq> []" "1 \<le> limit"
    using assms(1,3) by (auto simp: claim_def Let_def split: if_splits)
  then obtain claimed where c:
    "mapR scan_claim (take (nat limit) (claim_candidates (normalize_queue_names names) now skip db)) = Inr claimed"
    "foldR (claim_one now worker) (db, []) claimed = Inr (db', exs)"
    using claim_Inr [OF assms(1)] by blast
  have "\<forall>ex\<in>set exs. claimed_for worker db' ex"
    using claim_loop_claims [OF c(2) assms(2)] claimed_ids_queued [OF assms(2) c(1)] by simp
  then have "claimed_for worker db' ex" using assms(3) by blast
  then show ?thesis using owner_of_owns [of db' ex] by (auto simp: claimed_for_def complete_def)
qed

theorem claim_grants_ownership_witness:
  "let ex = hd (val_of sample_claim) in ex_locked_by ex = ''w1'' \<and> ex_status ex = Running
    \<and> owner_of sample_claimed (ex_id ex) ''w1'' (ex_attempts ex)
    \<and> (\<exists>db''. complete ex [] 11 sample_claimed = Inr db'')"
proof -
  have "hd (val_of sample_claim) \<in> set (val_of sample_claim)" by code_simp
  from claim_grants_ownership [OF sample_claim_ok [unfolded sample_claim_def] sample_enqueued_inv
      this [unfolded sample_claim_def]]
  show ?thesis unfolding Let_def sample_claim_def by blast
qed

section \<open>Recovery\<close>

lemma retry_or_fail_old_running:
  assumes "retry_or_fail rnd i a m retry message now db = Inr db'" "x \<in> set (db_execs db')" "er_status x = Running"
  shows "x \<in> set (db_execs db) \<and> er_id x \<noteq> i"
proof -
  obtain f where f: "\<forall>e. er_id (f e) = er_id e \<and> er_attempts (f e) = er_attempts e \<and> er_status (f e) \<noteq> Running"
    "db_execs db' = update_where (\<lambda>e. er_id e = i) f (db_execs db)" "db_next db' = db_next db"
    by (rule retry_or_fail_update [OF assms(1)])
  obtain y where "y \<in> set (db_execs db)" "x = (if er_id y = i then f y else y)"
    using assms(2) unfolding f(2) by (rule update_where_memE)
  then show ?thesis using assms(3) f(1) by (auto split: if_splits)
qed

lemma recover_loop_old_running:
  assumes "foldR (recover_one rnd now) db rows = Inr db'" "x \<in> set (db_execs db')" "er_status x = Running"
  shows "x \<in> set (db_execs db) \<and> er_id x \<notin> er_id ` set rows"
  using assms
proof (induction rows arbitrary: db)
  case Nil
  then show ?case by simp
next
  case (Cons e rows)
  obtain db1 where db1: "recover_one rnd now db e = Inr db1" "foldR (recover_one rnd now) db1 rows = Inr db'"
    using Cons.prems(1) by (auto split: sum.splits)
  obtain retry where rf: "retry_or_fail rnd (er_id e) (er_attempts e) (er_max_attempts e) retry
      ''worker lease expired'' now db = Inr db1"
    using db1(1) by (auto simp: recover_one_def bindR_Inr_iff)
  have "x \<in> set (db_execs db1) \<and> er_id x \<notin> er_id ` set rows"
    using Cons.IH [OF db1(2) Cons.prems(2,3)] .
  then show ?case using retry_or_fail_old_running [OF rf _ Cons.prems(3)] by auto
qed

text \<open>C11: a successful recovery leaves no expired lease behind, except on rows another session had
  locked; and it touches no lease that has not expired.\<close>

theorem recovery_complete:
  assumes "recover_expired rnd now skip db = Inr (n, db')" "e \<in> set (db_execs db')" "er_status e = Running"
  shows "e \<in> set (db_execs db) \<and> (lease_expired now e \<longrightarrow> er_id e \<in> set skip)"
proof -
  let ?rows = "filter (\<lambda>e. lease_expired now e \<and> er_id e \<notin> set skip) (db_execs db)"
  have "foldR (recover_one rnd now) db ?rows = Inr db'"
    using assms(1) by (auto simp: recover_expired_def bindR_Inr_iff Let_def)
  from recover_loop_old_running [OF this assms(2,3)] show ?thesis by auto
qed

definition sample_recovered :: jobs_db where
  "sample_recovered = db_of (recover_expired (\<lambda>i n. 0) 99999999999 [1] sample_claimed)"

definition sample_running_row :: exec_row where
  "sample_running_row = hd (db_execs sample_recovered)"

theorem recovery_complete_witness:
  "lease_expired 99999999999 sample_running_row \<and> er_id sample_running_row \<in> set [1]"
proof -
  have "recover_expired (\<lambda>i n. 0) 99999999999 [1] sample_claimed = Inr (0, sample_recovered)"
    "sample_running_row \<in> set (db_execs sample_recovered)" "er_status sample_running_row = Running"
    by code_simp+
  from recovery_complete [OF this]
  have "lease_expired 99999999999 sample_running_row \<longrightarrow> er_id sample_running_row \<in> set [1]" by blast
  moreover have "lease_expired 99999999999 sample_running_row" by code_simp
  ultimately show ?thesis by blast
qed

end
