(* ===== verification/Job_Progress.thy ===== *)
theory Job_Progress
  imports Job_Claims
begin

text \<open>
  Retention (\<^verbatim>\<open>internal/jobs/store/retention.go\<close>) and the progress of Schedules
  (\<^verbatim>\<open>internal/jobs/store/schedules.go\<close>).
\<close>

section \<open>Retention\<close>

lemma length_by_ids:
  assumes "distinct (map f xs)" "f ` set xs \<subseteq> set ids"
  shows "length xs \<le> length ids"
proof -
  have "length xs = card (f ` set xs)"
    using assms(1) by (metis distinct_card length_map list.set_map)
  also have "\<dots> \<le> card (set ids)" using assms(2) by (intro card_mono) simp_all
  also have "\<dots> \<le> length ids" by (rule card_length)
  finally show ?thesis .
qed

text \<open>C12: pruning removes only old terminal executions of the selected queues that carry no
  idempotency key, at most \<open>limit\<close> of them, and reports how many; and when fewer than the limit
  went, no such row is left except the ones locked by other sessions.\<close>

theorem prune_safe:
  assumes "prune_terminal queues cutoff limit skip db = Inr (n, db')" "store_inv db"
  shows "set (db_execs db') \<subseteq> set (db_execs db)
    \<and> (\<forall>e\<in>set (db_execs db) - set (db_execs db'). prunable queues cutoff e \<and> er_id e \<notin> set skip)
    \<and> n \<le> limit \<and> int (length (db_execs db)) = int (length (db_execs db')) + n
    \<and> (n < limit \<longrightarrow> (\<forall>e\<in>set (db_execs db'). prunable queues cutoff e \<longrightarrow> er_id e \<in> set skip))"
proof -
  let ?c = "sort_key (\<lambda>e. (the (er_finished e), er_id e))
       (filter (\<lambda>e. prunable queues cutoff e \<and> er_id e \<notin> set skip) (db_execs db))"
  let ?ids = "prune_candidates queues cutoff limit skip db"
  let ?gone = "filter (\<lambda>e. er_id e \<in> set ?ids) (db_execs db)"
  have lim: "1 \<le> limit" and n: "n = int (length ?gone)"
    and db': "db_execs db' = filter (\<lambda>e. er_id e \<notin> set ?ids) (db_execs db)"
    using assms(1) by (auto simp: prune_terminal_def Let_def split: if_splits)
  have dist: "distinct (map er_id (db_execs db))" using assms(2) by (simp add: store_inv_def)
  have removed: "prunable queues cutoff e \<and> er_id e \<notin> set skip"
    if e: "e \<in> set (db_execs db)" "er_id e \<in> set ?ids" for e
  proof -
    obtain x where x: "x \<in> set (db_execs db)" "er_id x = er_id e" "prunable queues cutoff x" "er_id x \<notin> set skip"
      using e(2) by (auto simp: prune_candidates_def dest!: in_set_takeD)
    then have "x = e" using owned_row_unique [OF assms(2) x(1) e(1)] by simp
    then show ?thesis using x by simp
  qed
  have "length ?gone \<le> length ?ids"
    by (rule length_by_ids [of er_id]) (use dist distinct_map_filter_imp in auto)
  moreover have "length ?ids \<le> nat limit" by (simp add: prune_candidates_def)
  ultimately have bound: "n \<le> limit" using lim n by linarith
  have total: "int (length (db_execs db)) = int (length (db_execs db')) + n"
    using sum_length_filter_compl [of "\<lambda>e. er_id e \<in> set ?ids" "db_execs db"] n db' by simp
  have none: "er_id e \<in> set skip"
    if few: "n < limit" and e: "e \<in> set (db_execs db')" "prunable queues cutoff e" for e
  proof (rule ccontr)
    assume s: "er_id e \<notin> set skip"
    have ec: "e \<in> set ?c" using e s by (auto simp: db')
    have "length ?ids \<le> length ?gone"
    proof -
      have "distinct (map er_id (take (nat limit) ?c))" by (rule sorted_filter_distinct [OF dist])
      then have "distinct ?ids" by (simp add: prune_candidates_def)
      moreover have "set ?ids \<subseteq> set (map er_id ?gone)"
      proof
        fix i assume i: "i \<in> set ?ids"
        then obtain x where "x \<in> set (db_execs db)" "er_id x = i"
          by (auto simp: prune_candidates_def dest!: in_set_takeD)
        with i show "i \<in> set (map er_id ?gone)" by auto
      qed
      ultimately show ?thesis using length_by_ids [of "\<lambda>x. x" ?ids "map er_id ?gone"] by simp
    qed
    then have "length ?ids < nat limit" using few n by linarith
    then have "take (nat limit) ?c = ?c" by (simp add: prune_candidates_def)
    then have "er_id e \<in> set ?ids" using ec by (simp add: prune_candidates_def)
    then show False using e(1) by (simp add: db')
  qed
  show ?thesis using removed bound total none by (auto simp: db')
qed

definition sample_keyless :: "store_error + execution \<times> jobs_db" where
  "sample_keyless = enqueue sample_env (Some ''n3'') ''crm'' ''send-mail'' ''{}''
     (sample_options\<lparr>eo_key := []\<rparr>) sample_db"

definition sample_keyless_claim :: "store_error + execution list \<times> jobs_db" where
  "sample_keyless_claim = claim sample_env [''default''] 3 ''w1'' 10 [] (db_of sample_keyless)"

definition sample_keyless_done :: jobs_db where
  "sample_keyless_done = projr (complete (hd (val_of sample_keyless_claim)) ''1'' 12 (db_of sample_keyless_claim))"

definition sample_pruned :: "store_error + int \<times> jobs_db" where
  "sample_pruned = prune_terminal [''default''] 100 5 [] sample_keyless_done"

theorem prune_safe_witness:
  "db_execs sample_keyless_done \<noteq> [] \<and> db_execs (db_of sample_pruned) = []
    \<and> prunable [''default''] 100 (hd (db_execs sample_keyless_done))
    \<and> int (length (db_execs sample_keyless_done)) = 1"
proof -
  have p: "prune_terminal [''default''] 100 5 [] sample_keyless_done = Inr (1, db_of sample_pruned)" by code_simp
  have i: "store_inv sample_keyless_done" by code_simp
  have "hd (db_execs sample_keyless_done) \<in> set (db_execs sample_keyless_done)"
    "db_execs sample_keyless_done \<noteq> []" "db_execs (db_of sample_pruned) = []" by code_simp+
  with prune_safe [OF p i] show ?thesis by auto
qed

section \<open>Schedules move on\<close>

lemma insert_execution_frame:
  "insert_execution n d timeout retry maxa p at key prio db = Inr (ex, inserted, db') \<Longrightarrow>
   db_jobs db' = db_jobs db \<and> db_apps db' = db_apps db \<and> db_scheds db' = db_scheds db"
  by (auto simp: insert_execution_def bindR_Inr_iff Let_def split: if_splits option.splits)

lemma notify_if_apps [simp]: "db_apps (notify_if b q db) = db_apps db"
  by (simp add: notify_if_def notify_queue_def)

lemma run_due_schedule_moves:
  assumes "run_due_schedule next_run draw now db s = Inr db'"
    and "\<forall>c tz t. next_run c tz now = Inr t \<longrightarrow> now < t"
  shows "db_apps db' = db_apps db \<and> db_jobs db' = db_jobs db
    \<and> (\<forall>x\<in>set (db_scheds db'). x \<in> set (db_scheds db) \<and> sr_id x \<noteq> du_id s \<or> (\<exists>t. sr_next x = Some t \<and> now < t))"
  using assms(1)
proof (cases rule: run_due_schedule_cases)
  case (failed message t)
  then show ?thesis
    using assms(2) by (auto simp: update_schedule_failure_def set_update_where)
next
  case (ran n timeout retry ex inserted db1 t)
  then show ?thesis
    using assms(2) insert_execution_frame [OF ran(3)]
    by (auto simp: update_schedule_success_def set_update_where)
qed

lemma schedules_loop_moves:
  assumes "foldR (run_due_schedule next_run draw now) db due = Inr db'"
    and "\<forall>c tz t. next_run c tz now = Inr t \<longrightarrow> now < t"
  shows "db_apps db' = db_apps db \<and> db_jobs db' = db_jobs db
    \<and> (\<forall>x\<in>set (db_scheds db'). x \<in> set (db_scheds db) \<and> sr_id x \<notin> du_id ` set due
          \<or> (\<exists>t. sr_next x = Some t \<and> now < t))"
  using assms(1)
proof (induction due arbitrary: db)
  case Nil
  then show ?case by simp
next
  case (Cons s due)
  obtain db1 where db1: "run_due_schedule next_run draw now db s = Inr db1"
    "foldR (run_due_schedule next_run draw now) db1 due = Inr db'"
    using Cons.prems by (auto split: sum.splits)
  show ?case using Cons.IH [OF db1(2)] run_due_schedule_moves [OF db1(1) assms(2)] by auto
qed

text \<open>C13: running Schedules makes progress.  When the cron library returns occurrences after the
  given time, as it documents, and the run handled fewer Schedules than its limit, no live Schedule
  of the selected queues is due any more, except those another session had locked.\<close>

theorem schedules_progress:
  assumes "run_due_schedules next_run draw env names worker now limit skip db = Inr (n, db')"
    and "\<forall>c tz t. next_run c tz now = Inr t \<longrightarrow> now < t" "1 \<le> limit" "n < limit"
    and "normalize_queue_names names \<noteq> []"
  shows "\<forall>p\<in>set (joined_schedules db'). schedule_live (normalize_queue_names names) p
     \<longrightarrow> now < the (sr_next (fst p)) \<or> sr_id (fst p) \<in> set skip"
proof
  fix p assume p: "p \<in> set (joined_schedules db')"
  obtain s a j ja where pe: "p = (s, a, j, ja)" by (cases p)
  let ?queues = "normalize_queue_names names"
  let ?due = "find_due_schedules ?queues now limit skip db"
  have q: "schedule_queue_names env names = Inr ?queues" and w: "\<not> blank worker"
    using assms(1,5) by (auto simp: run_due_schedules_def schedule_queue_names_def Let_def bindR_Inr_iff split: if_splits)
  have loop: "foldR (run_due_schedule next_run draw now) db ?due = Inr db'" and n: "n = int (length ?due)"
    using assms(1,3,5) q w by (auto simp: run_due_schedules_def Let_def bindR_Inr_iff)
  note moves = schedules_loop_moves [OF loop assms(2)]
  show "schedule_live ?queues p \<longrightarrow> now < the (sr_next (fst p)) \<or> sr_id (fst p) \<in> set skip"
  proof (intro impI, rule ccontr)
    assume live: "schedule_live ?queues p" and late: "\<not> (now < the (sr_next (fst p)) \<or> sr_id (fst p) \<in> set skip)"
    have old: "s \<in> set (db_scheds db)" "sr_id s \<notin> du_id ` set ?due"
      using moves p late live by (auto simp: pe joined_schedules_def schedule_live_def)
    have "p \<in> set (joined_schedules db)"
      using p old(1) moves by (auto simp: pe joined_schedules_def)
    let ?rows = "sort_key (\<lambda>(s, a, j, ja). (the (sr_next s), sr_id s))
       (filter (\<lambda>p. schedule_live ?queues p \<and> the (sr_next (fst p)) \<le> now \<and> sr_id (fst p) \<notin> set skip)
         (joined_schedules db))"
    have "p \<in> set ?rows" using \<open>p \<in> set (joined_schedules db)\<close> live late by simp
    moreover have "length (take (nat limit) ?rows) < nat limit"
      using n assms(3,4) by (simp add: find_due_schedules_def)
    ultimately have "p \<in> set (take (nat limit) ?rows)" by simp
    then have "to_due p \<in> set ?due" by (simp add: find_due_schedules_def)
    then have "du_id (to_due p) \<in> du_id ` set ?due" by (rule imageI)
    then show False using old(2) by (simp add: to_due_def pe)
  qed
qed

definition sample_next_run :: "string \<Rightarrow> string \<Rightarrow> instant \<Rightarrow> next_run_error + instant" where
  "sample_next_run = next_run_at (\<lambda>tz. Some tz) (\<lambda>e. Some (\<lambda>t. t + 3600))"

definition sample_run :: "store_error + int \<times> jobs_db" where
  "sample_run = run_due_schedules sample_next_run (\<lambda>i. Some ''n9'') sample_env [''default''] ''w1'' 10 20 [] sample_db"

theorem schedules_progress_witness:
  "10 < the (sr_next (fst (hd (joined_schedules (db_of sample_run)))))"
proof -
  let ?p = "hd (joined_schedules (db_of sample_run))"
  have r: "run_due_schedules sample_next_run (\<lambda>i. Some ''n9'') sample_env [''default''] ''w1'' 10 20 [] sample_db
      = Inr (1, db_of sample_run)" by code_simp
  have c: "\<forall>c tz t. sample_next_run c tz 10 = Inr t \<longrightarrow> 10 < t"
    using next_run_at_after by (auto simp: sample_next_run_def zero_time_def)
  have n: "normalize_queue_names [''default''] \<noteq> []" by code_simp
  have "?p \<in> set (joined_schedules (db_of sample_run))"
    "schedule_live (normalize_queue_names [''default'']) ?p" by code_simp+
  with schedules_progress [OF r c _ _ n] show ?thesis by fastforce
qed

end
