(* ===== verification/Job_Worker.thy ===== *)
theory Job_Worker
  imports Job_Progress
begin

text \<open>
  The worker (\<^verbatim>\<open>internal/jobs/runtime/runtime.go\<close>): the registry of compiled
  handlers, running one execution and recording its outcome, a batch (\<^verbatim>\<open>--once\<close>), and
  the slots and the active set of the continuous loop.  A handler is user code: \<open>run h ex db\<close> is
  what it returns and the database after its own transactions; \<open>deadline\<close> tells whether its
  context timed out.  Goroutines are a list in the order they get to run.  Logging is not modelled.
\<close>

section \<open>The handler registry\<close>

type_synonym 'h registry = "(string \<times> 'h) list"

datatype registry_error = HandlerRequired string string | HandlerNamesRequired | HandlerDuplicate string string

definition handler_key :: "string \<Rightarrow> string \<Rightarrow> registry_error + string" where
  "handler_key app name =
     (let a = trim_space app; n = trim_space name
      in if a = [] \<or> n = [] then Inl HandlerNamesRequired else Inr (job_key a n))"

text \<open>\<open>None\<close> is the nil function.\<close>

definition register_job :: "'h registry \<Rightarrow> string \<times> string \<Rightarrow> 'h option \<Rightarrow> registry_error + 'h registry" where
  "register_job reg names fn = (case names of (app, name) \<Rightarrow>
     (case fn of None \<Rightarrow> Inl (HandlerRequired app name)
      | Some h \<Rightarrow> bindR (handler_key app name) (\<lambda>key.
          if map_of reg key \<noteq> None then Inl (HandlerDuplicate app name) else Inr ((key, h) # reg))))"

definition handler :: "'h registry \<Rightarrow> string \<Rightarrow> string \<Rightarrow> 'h option" where
  "handler reg app name = map_of reg (job_key app name)"

text \<open>Registration seen through the key: the write-once contract.\<close>

definition put_handler :: "'h registry \<Rightarrow> string \<Rightarrow> 'h \<Rightarrow> unit + 'h registry" where
  "put_handler reg key h = (if map_of reg key \<noteq> None then Inl () else Inr ((key, h) # reg))"

interpretation handlers: write_once put_handler map_of
  by unfold_locales (auto simp: put_handler_def split: if_splits)

lemma register_job_put:
  assumes "register_job reg (app, name) fn = Inr reg'"
  obtains h where "fn = Some h" "trim_space app \<noteq> []" "trim_space name \<noteq> []"
    "put_handler reg (job_key (trim_space app) (trim_space name)) h = Inr reg'"
  using assms
  by (auto simp: register_job_def handler_key_def bindR_Inr_iff put_handler_def Let_def
      split: option.splits if_splits)

text \<open>A registered handler is found under its trimmed app and Job names, was not there before,
  and no later registration replaces it.\<close>

theorem registered_handler_found:
  assumes "register_job reg (app, name) fn = Inr reg1"
    and "foldR (\<lambda>r (names, f). register_job r names f) reg1 later = Inr reg2"
  shows "handler reg2 (trim_space app) (trim_space name) = fn \<and> fn \<noteq> None
    \<and> handler reg (trim_space app) (trim_space name) = None"
proof -
  obtain h where h: "fn = Some h" "put_handler reg (job_key (trim_space app) (trim_space name)) h = Inr reg1"
    by (rule register_job_put [OF assms(1)])
  have "map_of reg2 k = Some h'" if "map_of reg1 k = Some h'" for k h'
  proof (rule foldR_invariant [where P = "\<lambda>r. map_of r k = Some h'", OF _ that assms(2)])
    fix r x r' assume "map_of r k = Some h'" "(case x of (names, f) \<Rightarrow> register_job r names f) = Inr r'"
    then show "map_of r' k = Some h'"
      by (cases x, cases "fst x") (auto elim!: register_job_put dest: handlers.put_keeps)
  qed
  then show ?thesis
    using handlers.put_same [OF h(2)] handlers.put_fresh [OF h(2)] h(1) by (simp add: handler_def)
qed

theorem registered_handler_found_witness:
  "let reg1 = projr (register_job [] ('' crm'', ''send-mail'') (Some (7::nat)));
       reg2 = projr (register_job reg1 (''crm'', ''sync'') (Some 8))
   in handler reg2 (trim_space '' crm'') (trim_space ''send-mail'') = Some 7 \<and> Some (7::nat) \<noteq> None
    \<and> handler ([] :: nat registry) (trim_space '' crm'') (trim_space ''send-mail'') = None"
  unfolding Let_def
proof (rule registered_handler_found)
  show "register_job [] ('' crm'', ''send-mail'') (Some (7::nat))
      = Inr (projr (register_job [] ('' crm'', ''send-mail'') (Some 7)))" by code_simp
  show "foldR (\<lambda>r (names, f). register_job r names f)
      (projr (register_job [] ('' crm'', ''send-mail'') (Some (7::nat)))) [((''crm'', ''sync''), Some 8)]
      = Inr (projr (register_job (projr (register_job [] ('' crm'', ''send-mail'') (Some 7))) (''crm'', ''sync'') (Some 8)))"
    by code_simp
qed

section \<open>Results and options\<close>

record run_result =
  rr_recovered :: int
  rr_scheduled :: int
  rr_claimed :: int
  rr_succeeded :: int
  rr_failed :: int

definition no_result :: run_result where
  "no_result = \<lparr>rr_recovered = 0, rr_scheduled = 0, rr_claimed = 0, rr_succeeded = 0, rr_failed = 0\<rparr>"

definition add_result :: "run_result \<Rightarrow> run_result \<Rightarrow> run_result" where
  "add_result a b = \<lparr>rr_recovered = rr_recovered a + rr_recovered b, rr_scheduled = rr_scheduled a + rr_scheduled b,
     rr_claimed = rr_claimed a + rr_claimed b, rr_succeeded = rr_succeeded a + rr_succeeded b,
     rr_failed = rr_failed a + rr_failed b\<rparr>"

record worker_options =
  wo_queues :: "queue list"
  wo_worker :: string
  wo_poll :: duration
  wo_shutdown :: duration
  wo_retention_days :: int

datatype run_error =
    NoQueues
  | WorkerQueueName
  | WorkerConcurrency string
  | WorkerRetention
  | StoreFailed store_error

text \<open>The checks at the start of \<^verbatim>\<open>Run\<close>.\<close>

fun check_worker_queues :: "queue list \<Rightarrow> run_error option" where
  "check_worker_queues [] = None"
| "check_worker_queues (q # qs) =
     (if blank (q_name q) then Some WorkerQueueName
      else if q_concurrency q < 1 then Some (WorkerConcurrency (q_name q))
      else check_worker_queues qs)"

definition check_options :: "worker_options \<Rightarrow> run_error option" where
  "check_options opt =
     (if wo_queues opt = [] then Some NoQueues
      else case check_worker_queues (wo_queues opt) of Some e \<Rightarrow> Some e
      | None \<Rightarrow> if wo_retention_days opt < 0 \<or> 36500 < wo_retention_days opt then Some WorkerRetention else None)"

text \<open>\<^verbatim>\<open>normalizeOptions\<close>; \<open>fresh_id\<close> is the generated worker id.\<close>

definition normalize_options :: "string \<Rightarrow> worker_options \<Rightarrow> worker_options" where
  "normalize_options fresh_id opt = opt\<lparr>
     wo_worker := (if blank (wo_worker opt) then fresh_id else wo_worker opt),
     wo_poll := (if wo_poll opt \<le> 0 then 60000000000 else wo_poll opt),
     wo_shutdown := (if wo_shutdown opt \<le> 0 then 30000000000 else wo_shutdown opt)\<rparr>"

definition retention_batch_size :: int where
  "retention_batch_size = 500"

definition worker_prune :: "worker_options \<Rightarrow> instant \<Rightarrow> int list \<Rightarrow> jobs_db \<Rightarrow> jobs_db" where
  "worker_prune opt now skip db =
     (let cutoff = now + wrap64 (wrap64 (wrap64 (- wo_retention_days opt) * 24) * 3600000000000)
      in case prune_terminal (map q_name (wo_queues opt)) cutoff retention_batch_size skip db of
           Inl e \<Rightarrow> db | Inr (n, db') \<Rightarrow> db')"

definition sooner_duration :: "duration \<Rightarrow> instant option \<Rightarrow> instant \<Rightarrow> duration" where
  "sooner_duration fallback next now =
     (case next of None \<Rightarrow> fallback
      | Some t \<Rightarrow> let w = (if t - now < 0 then 0 else t - now) in if w < fallback then w else fallback)"

lemma sooner_duration_bounds:
  "0 \<le> fallback \<Longrightarrow> 0 \<le> sooner_duration fallback next now \<and> sooner_duration fallback next now \<le> fallback"
  by (auto simp: sooner_duration_def Let_def split: option.splits)

section \<open>Running one execution\<close>

datatype outcome = Returned | ReturnedError string | Panicked string

definition succeeded_one :: run_result where
  "succeeded_one = no_result\<lparr>rr_succeeded := 1\<rparr>"

definition failed_one :: run_result where
  "failed_one = no_result\<lparr>rr_failed := 1\<rparr>"

definition is_claim_lost :: "store_error \<Rightarrow> bool" where
  "is_claim_lost e = (case e of ClaimLost i \<Rightarrow> True | _ \<Rightarrow> False)"

text \<open>\<^verbatim>\<open>runJobHandler\<close> and the deadline check: the error of the run, if any.\<close>

definition run_error_of :: "outcome \<Rightarrow> bool \<Rightarrow> string option" where
  "run_error_of out deadline =
     (case out of Returned \<Rightarrow> if deadline then Some ''context deadline exceeded'' else None
      | ReturnedError m \<Rightarrow> Some m | Panicked v \<Rightarrow> Some (''panic: '' @ v))"

definition after_failure :: "store_error + jobs_db \<Rightarrow> jobs_db \<Rightarrow> run_result \<times> store_error option \<times> jobs_db" where
  "after_failure r db =
     (case r of Inl e \<Rightarrow> if is_claim_lost e then (no_result, None, db) else (failed_one, Some e, db)
      | Inr db' \<Rightarrow> (failed_one, None, db'))"

definition run_execution :: "'h registry \<Rightarrow> ('h \<Rightarrow> execution \<Rightarrow> jobs_db \<Rightarrow> outcome \<times> jobs_db) \<Rightarrow>
    (int \<Rightarrow> int \<Rightarrow> int) \<Rightarrow> instant \<Rightarrow> bool \<Rightarrow> execution \<Rightarrow> jobs_db \<Rightarrow> run_result \<times> store_error option \<times> jobs_db" where
  "run_execution reg run rnd now deadline ex db =
     (case handler reg (ex_app ex) (ex_job_name ex) of
        None \<Rightarrow> after_failure (fail_final ex (''missing job handler for '' @ ex_app ex @ ''/'' @ ex_job_name ex) now db) db
      | Some h \<Rightarrow>
        let (out, db1) = run h ex db
        in (case run_error_of out deadline of
              None \<Rightarrow> (case complete ex [] now db1 of
                  Inl e \<Rightarrow> if is_claim_lost e then (no_result, None, db1) else (no_result, Some e, db1)
                | Inr db2 \<Rightarrow> (succeeded_one, None, db2))
            | Some err \<Rightarrow>
              let message = (if deadline then ''timeout'' else trim_space err)
              in after_failure (fail rnd ex message now db1) db1))"

text \<open>The database the finishing transaction starts from.\<close>

definition after_handler :: "'h registry \<Rightarrow> ('h \<Rightarrow> execution \<Rightarrow> jobs_db \<Rightarrow> outcome \<times> jobs_db) \<Rightarrow>
    execution \<Rightarrow> jobs_db \<Rightarrow> jobs_db" where
  "after_handler reg run ex db =
     (case handler reg (ex_app ex) (ex_job_name ex) of None \<Rightarrow> db | Some h \<Rightarrow> snd (run h ex db))"

lemma lost_iff_not_owned:
  "fail_final ex message now db = Inl e \<Longrightarrow> is_claim_lost e \<Longrightarrow> \<not> list_ex (owns ex) (db_execs db)"
  "complete ex result now db = Inl e \<Longrightarrow> is_claim_lost e \<Longrightarrow> \<not> list_ex (owns ex) (db_execs db)"
  by (auto simp: fail_final_def complete_def is_claim_lost_def split: if_splits)

lemma retry_or_fail_not_lost: "retry_or_fail rnd i a m retry message now db = Inl e \<Longrightarrow> \<not> is_claim_lost e"
  by (auto simp: retry_or_fail_def Let_def is_claim_lost_def split: if_splits sum.splits option.splits)

lemma fail_lost_not_owned:
  assumes "fail rnd ex message now db = Inl e" "is_claim_lost e"
  shows "\<not> list_ex (owns ex) (db_execs db)"
proof (cases "find (owns ex) (db_execs db)")
  case None
  then show ?thesis by (auto simp: find_None_iff list_ex_iff)
next
  case (Some x)
  then have "bindR (decode_retry (er_retry x)) (\<lambda>retry.
      retry_or_fail rnd (ex_id ex) (er_attempts x) (er_max_attempts x) retry message now db) = Inl e"
    using assms(1) by (simp add: fail_def)
  then have "\<not> is_claim_lost e"
    using retry_or_fail_not_lost
    by (auto simp: bindR_Inl_iff decode_retry_def is_claim_lost_def split: retry_col.splits)
  then show ?thesis using assms(2) by simp
qed

lemma after_failure_cases:
  assumes "after_failure r db = (res, None, db')"
  shows "res = failed_one \<and> r = Inr db' \<or> res = no_result \<and> db' = db \<and> (\<exists>e. r = Inl e \<and> is_claim_lost e)"
  using assms by (auto simp: after_failure_def split: sum.splits if_splits)


definition sample_handlers :: "nat registry" where
  "sample_handlers = projr (register_job [] (''crm'', ''send-mail'') (Some 7))"

definition sample_handler_run :: "nat \<Rightarrow> execution \<Rightarrow> jobs_db \<Rightarrow> outcome \<times> jobs_db" where
  "sample_handler_run h ex db = (Panicked ''boom'', db)"


section \<open>A batch\<close>

text \<open>The goroutines of a batch in the order they get to run; \<open>late\<close> tells whose deadline passed.\<close>

fun run_all :: "'h registry \<Rightarrow> ('h \<Rightarrow> execution \<Rightarrow> jobs_db \<Rightarrow> outcome \<times> jobs_db) \<Rightarrow>
    (int \<Rightarrow> int \<Rightarrow> int) \<Rightarrow> instant \<Rightarrow> (int \<Rightarrow> bool) \<Rightarrow> execution list \<Rightarrow> run_result \<Rightarrow> store_error option \<Rightarrow>
    jobs_db \<Rightarrow> run_result \<times> store_error option \<times> jobs_db" where
  "run_all reg run rnd now late [] res err db = (res, err, db)"
| "run_all reg run rnd now late (ex # exs) res err db =
     (let (r, e, db') = run_execution reg run rnd now (late (ex_id ex)) ex db
      in run_all reg run rnd now late exs (add_result res r)
           (if e \<noteq> None \<and> err = None then e else err) db')"

definition run_queue_batch :: "'h registry \<Rightarrow> ('h \<Rightarrow> execution \<Rightarrow> jobs_db \<Rightarrow> outcome \<times> jobs_db) \<Rightarrow>
    (int \<Rightarrow> int \<Rightarrow> int) \<Rightarrow> (string \<Rightarrow> string \<Rightarrow> instant \<Rightarrow> next_run_error + instant) \<Rightarrow> (int \<Rightarrow> string option) \<Rightarrow>
    store_env \<Rightarrow> (execution list \<Rightarrow> execution list) \<Rightarrow> (int \<Rightarrow> bool) \<Rightarrow> int list \<Rightarrow> instant \<Rightarrow> worker_options \<Rightarrow> queue \<Rightarrow>
    jobs_db \<Rightarrow> run_result \<times> store_error option \<times> jobs_db" where
  "run_queue_batch reg run rnd next_run draw env order late skip now opt q db =
     (case run_due_schedules next_run draw env [q_name q] (wo_worker opt) now (q_concurrency q) skip db of
        Inl e \<Rightarrow> (no_result, Some e, db)
      | Inr (scheduled, db1) \<Rightarrow>
     (case recover_expired rnd now skip db1 of
        Inl e \<Rightarrow> (no_result, Some e, db1)
      | Inr (recovered, db2) \<Rightarrow>
        let base = no_result\<lparr>rr_recovered := recovered, rr_scheduled := scheduled\<rparr>
        in (case claim env [q_name q] (q_concurrency q) (wo_worker opt) now skip db2 of
              Inl e \<Rightarrow> (base, Some e, db2)
            | Inr (exs, db3) \<Rightarrow>
              run_all reg run rnd now late (order exs) (base\<lparr>rr_claimed := int (length exs)\<rparr>) None db3)))"

text \<open>\<^verbatim>\<open>runOnce\<close>: the queues one after the other, stopping at the first error.\<close>

fun run_once :: "(queue \<Rightarrow> jobs_db \<Rightarrow> run_result \<times> store_error option \<times> jobs_db) \<Rightarrow> queue list \<Rightarrow> run_result \<Rightarrow>
    jobs_db \<Rightarrow> run_result \<times> store_error option \<times> jobs_db" where
  "run_once batch [] acc db = (acc, None, db)"
| "run_once batch (q # qs) acc db =
     (let (r, e, db') = batch q db; acc' = add_result acc r
      in case e of Some err \<Rightarrow> (acc', Some err, db') | None \<Rightarrow> run_once batch qs acc' db')"

lemma run_execution_result: "fst (run_execution reg run rnd now dl ex db) \<in> {no_result, succeeded_one, failed_one}"
proof -
  have af: "fst (after_failure r db) \<in> {no_result, succeeded_one, failed_one}" for r db
    by (auto simp: after_failure_def split: sum.splits)
  show ?thesis
  proof (cases "handler reg (ex_app ex) (ex_job_name ex)")
    case None
    then show ?thesis unfolding run_execution_def by (simp only: option.case af)
  next
    case (Some h)
    obtain out db1 where run: "run h ex db = (out, db1)" by fastforce
    show ?thesis
    proof (cases "run_error_of out dl")
      case None
      then show ?thesis using Some run by (auto simp: run_execution_def split: sum.splits)
    next
      case err: (Some err)
      have "fst (run_execution reg run rnd now dl ex db) =
          fst (after_failure (fail rnd ex (if dl then ''timeout'' else trim_space err) now db1) db1)"
        using err Some run by (simp add: run_execution_def Let_def)
      then show ?thesis by (simp only: af)
    qed
  qed
qed

lemma run_all_counts:
  assumes "run_all reg run rnd now late exs res err db = (res', err', db')"
  shows "rr_claimed res' = rr_claimed res \<and> rr_recovered res' = rr_recovered res \<and> rr_scheduled res' = rr_scheduled res
    \<and> rr_succeeded res \<le> rr_succeeded res' \<and> rr_failed res \<le> rr_failed res'
    \<and> rr_succeeded res' + rr_failed res' \<le> rr_succeeded res + rr_failed res + int (length exs)"
  using assms
proof (induction reg run rnd now late exs res err db rule: run_all.induct)
  case (1 reg run rnd now late res err db)
  then show ?case by simp
next
  case (2 reg run rnd now late ex exs res err db)
  obtain r e db1 where r: "run_execution reg run rnd now (late (ex_id ex)) ex db = (r, e, db1)"
    by (metis prod_cases3)
  have "r = no_result \<or> r = succeeded_one \<or> r = failed_one"
    using run_execution_result [of reg run rnd now "late (ex_id ex)" ex db] r by auto
  moreover have "run_all reg run rnd now late exs (add_result res r) (if e \<noteq> None \<and> err = None then e else err) db1
      = (res', err', db')"
    using "2.prems" r by simp
  ultimately show ?case
    using "2.IH" [OF r [symmetric] refl refl]
    by (auto simp: add_result_def no_result_def succeeded_one_def failed_one_def)
qed

text \<open>The counters of a batch never exceed what it claimed, whatever order the executions run
  in, and the batch claims no more than the queue's concurrency.\<close>

theorem batch_counters:
  assumes "run_queue_batch reg run rnd next_run draw env order late skip now opt q db = (res, err, db')"
    and "\<forall>xs. length (order xs) = length xs" "1 \<le> q_concurrency q"
  shows "0 \<le> rr_succeeded res \<and> 0 \<le> rr_failed res
    \<and> rr_succeeded res + rr_failed res \<le> rr_claimed res \<and> rr_claimed res \<le> q_concurrency q"
proof (cases "\<exists>exs db2 db3 base. claim env [q_name q] (q_concurrency q) (wo_worker opt) now skip db2 = Inr (exs, db3)
    \<and> rr_succeeded base = 0 \<and> rr_failed base = 0 \<and> rr_claimed base = int (length exs)
    \<and> run_all reg run rnd now late (order exs) base None db3 = (res, err, db')")
  case True
  then obtain exs db2 db3 base where c: "claim env [q_name q] (q_concurrency q) (wo_worker opt) now skip db2 = Inr (exs, db3)"
    and b: "rr_succeeded base = 0" "rr_failed base = 0" "rr_claimed base = int (length exs)"
    and r: "run_all reg run rnd now late (order exs) base None db3 = (res, err, db')" by blast
  have "int (length exs) \<le> q_concurrency q"
  proof (cases "normalize_queue_names [q_name q] = []")
    case True
    then show ?thesis using c assms(3) by (simp add: claim_def)
  next
    case False
    obtain claimed where cl: "mapR scan_claim (take (nat (q_concurrency q))
        (claim_candidates (normalize_queue_names [q_name q]) now skip db2)) = Inr claimed"
      "foldR (claim_one now (wo_worker opt)) (db2, []) claimed = Inr (db3, exs)"
      by (rule claim_Inr [OF c False assms(3)])
    have "length exs = length claimed" using arg_cong [OF claim_loop_ids [OF cl(2)], of length] by simp
    also have "\<dots> \<le> nat (q_concurrency q)" using mapR_length [OF cl(1)] by simp
    finally show ?thesis using assms(3) by linarith
  qed
  then show ?thesis using run_all_counts [OF r] b assms(2) by simp
next
  case False
  then have "rr_succeeded res = 0 \<and> rr_failed res = 0 \<and> rr_claimed res = 0"
    using assms(1)
    by (auto simp: run_queue_batch_def no_result_def Let_def split: sum.splits prod.splits)
  then show ?thesis using assms(3) by simp
qed

definition sample_queue :: queue where
  "sample_queue = \<lparr>q_name = ''default'', q_concurrency = 4\<rparr>"

definition sample_worker_options :: worker_options where
  "sample_worker_options = \<lparr>wo_queues = [sample_queue], wo_worker = ''w2'', wo_poll = 0, wo_shutdown = 0, wo_retention_days = 0\<rparr>"

definition sample_batch :: "run_result \<times> store_error option \<times> jobs_db" where
  "sample_batch = run_queue_batch sample_handlers sample_handler_run (\<lambda>i n. 0) sample_next_run (\<lambda>i. Some ''n9'')
     sample_env rev (\<lambda>i. False) [] 10 sample_worker_options sample_queue sample_enqueued"

theorem batch_counters_witness:
  "rr_failed (fst sample_batch) = 2 \<and> 0 \<le> rr_succeeded (fst sample_batch) \<and> 0 \<le> rr_failed (fst sample_batch)
    \<and> rr_succeeded (fst sample_batch) + rr_failed (fst sample_batch) \<le> rr_claimed (fst sample_batch)
    \<and> rr_claimed (fst sample_batch) \<le> q_concurrency sample_queue"
proof -
  have two: "rr_failed (fst sample_batch) = 2" by code_simp
  have "sample_batch = (fst sample_batch, fst (snd sample_batch), snd (snd sample_batch))" by simp
  from batch_counters [OF this [unfolded sample_batch_def]] two show ?thesis
    unfolding sample_batch_def by (simp add: sample_queue_def)
qed

section \<open>The continuous loop of one queue\<close>

text \<open>\<^verbatim>\<open>runQueueLoop\<close> as a step relation: \<open>ql_slots\<close> is \<^verbatim>\<open>len(slots)\<close>,
  \<open>ql_flying\<close> the executions whose goroutines are in flight, \<open>ql_active\<close> the map
  \<^verbatim>\<open>activeExecutions\<close>, keyed by execution id.\<close>

record queue_loop =
  ql_slots :: nat
  ql_flying :: "execution list"
  ql_active :: "int \<Rightarrow> execution option"

definition loop_start :: queue_loop where
  "loop_start = \<lparr>ql_slots = 0, ql_flying = [], ql_active = (\<lambda>_. None)\<rparr>"

definition start_execution :: "queue_loop \<Rightarrow> execution \<Rightarrow> queue_loop" where
  "start_execution l ex = \<lparr>ql_slots = ql_slots l + 1, ql_flying = ql_flying l @ [ex],
     ql_active = (ql_active l)(ex_id ex \<mapsto> ex)\<rparr>"

definition finish_execution :: "queue_loop \<Rightarrow> execution \<Rightarrow> queue_loop" where
  "finish_execution l ex = \<lparr>ql_slots = ql_slots l - 1, ql_flying = remove1 ex (ql_flying l),
     ql_active = (ql_active l)(ex_id ex := None)\<rparr>"

text \<open>One poll starts what the claim returned, at most the free slots; a goroutine that ends gives
  its slot back.  The executions a shutdown expires are those of the active map.\<close>

inductive loop_step :: "nat \<Rightarrow> queue_loop \<Rightarrow> queue_loop \<Rightarrow> bool" for concurrency where
  poll: "ql_slots l < concurrency \<Longrightarrow> length exs \<le> concurrency - ql_slots l \<Longrightarrow>
    loop_step concurrency l (foldl start_execution l exs)"
| ended: "ex \<in> set (ql_flying l) \<Longrightarrow> loop_step concurrency l (finish_execution l ex)"

definition loop_inv :: "nat \<Rightarrow> queue_loop \<Rightarrow> bool" where
  "loop_inv concurrency l \<longleftrightarrow> ql_slots l = length (ql_flying l) \<and> ql_slots l \<le> concurrency
     \<and> (\<forall>i ex. ql_active l i = Some ex \<longrightarrow> ex_id ex = i \<and> ex \<in> set (ql_flying l))"

lemma start_all:
  "ql_slots (foldl start_execution l exs) = ql_slots l + length exs"
  "ql_flying (foldl start_execution l exs) = ql_flying l @ exs"
  by (induction exs arbitrary: l) (simp_all add: start_execution_def)

lemma start_all_active:
  "ql_active (foldl start_execution l exs) i = Some ex \<Longrightarrow>
     ql_active l i = Some ex \<or> ex \<in> set exs \<and> ex_id ex = i"
proof (induction exs arbitrary: l)
  case Nil
  then show ?case by simp
next
  case (Cons e exs)
  have "ql_active (start_execution l e) i = Some ex \<or> ex \<in> set exs \<and> ex_id ex = i"
    by (rule Cons.IH) (use Cons.prems in simp)
  then show ?case by (auto simp: start_execution_def split: if_splits)
qed

lemma loop_step_inv:
  assumes "loop_inv c l" "loop_step c l l'"
  shows "loop_inv c l'"
  using assms(2)
proof cases
  case (poll exs)
  then show ?thesis
    using assms(1) start_all_active [of l exs] by (fastforce simp: loop_inv_def start_all)
next
  case (ended ex)
  have "e \<in> set (remove1 ex (ql_flying l))" if "e \<in> set (ql_flying l)" "ex_id e \<noteq> ex_id ex" for e
  proof -
    have "e \<noteq> ex" using that(2) by auto
    then show ?thesis using that(1) by simp
  qed
  then show ?thesis
    using assms(1) ended by (auto simp: loop_inv_def finish_execution_def length_remove1)
qed

interpretation queue_loop: invariant_system "loop_step c" "loop_inv c" for c
  by unfold_locales (rule loop_step_inv)

text \<open>The loop of a queue never runs more executions than its concurrency, so sending on the
  slots channel never blocks, and everything a shutdown would expire is really in flight.\<close>

theorem loop_bounded:
  assumes "(loop_step concurrency)\<^sup>*\<^sup>* loop_start l"
  shows "length (ql_flying l) = ql_slots l \<and> ql_slots l \<le> concurrency
    \<and> (\<forall>i ex. ql_active l i = Some ex \<longrightarrow> ex_id ex = i \<and> ex \<in> set (ql_flying l))"
proof -
  have "loop_inv concurrency loop_start" by (simp add: loop_inv_def loop_start_def)
  then have "loop_inv concurrency l" using queue_loop.inv_steps [OF assms] by blast
  then show ?thesis by (simp add: loop_inv_def)
qed

definition sample_loop :: queue_loop where
  "sample_loop = foldl start_execution loop_start (val_of sample_claim)"

theorem loop_bounded_witness:
  "length (ql_flying sample_loop) = ql_slots sample_loop \<and> ql_slots sample_loop \<le> 4
    \<and> (\<exists>ex. ql_active sample_loop 1 = Some ex \<and> ex_id ex = 1 \<and> ex \<in> set (ql_flying sample_loop))"
proof -
  have l: "length (val_of sample_claim) = 1" by code_simp
  have "(loop_step 4)\<^sup>*\<^sup>* loop_start sample_loop"
    unfolding sample_loop_def
    by (rule r_into_rtranclp [of "loop_step 4"], rule poll) (simp_all add: l loop_start_def)
  moreover have "ql_active sample_loop 1 \<noteq> None" by code_simp
  ultimately show ?thesis using loop_bounded [of 4 sample_loop] by fastforce
qed

text \<open>The converse fails, because the active map is keyed by the execution and not by the claim.  If
  an execution is claimed again by the same worker while its stale goroutine is still in flight, the
  end of the stale goroutine removes the entry of the new claim: a running execution that a shutdown
  will not expire.\<close>

lemma stale_finish_drops_active:
  assumes "ex_id new = ex_id old" "new \<noteq> old"
  shows "\<exists>l. (loop_step 2)\<^sup>*\<^sup>* loop_start l \<and> new \<in> set (ql_flying l) \<and> ql_active l (ex_id new) = None"
proof -
  let ?l1 = "foldl start_execution loop_start [old]"
  let ?l2 = "foldl start_execution ?l1 [new]"
  let ?l3 = "finish_execution ?l2 old"
  have "loop_step 2 loop_start ?l1" by (rule poll) (simp_all add: loop_start_def)
  moreover have "loop_step 2 ?l1 ?l2" by (rule poll) (simp_all add: loop_start_def start_execution_def)
  moreover have "loop_step 2 ?l2 ?l3" by (rule ended) (simp add: loop_start_def start_execution_def)
  ultimately have "(loop_step 2)\<^sup>*\<^sup>* loop_start ?l3" by (meson rtranclp.rtrancl_into_rtrancl rtranclp.rtrancl_refl)
  moreover have "new \<in> set (ql_flying ?l3)" "ql_active ?l3 (ex_id new) = None"
    using assms by (simp_all add: finish_execution_def start_execution_def loop_start_def)
  ultimately show ?thesis by blast
qed

section \<open>Wake-ups\<close>

text \<open>One channel of capacity one per queue name (\<^verbatim>\<open>queueWakeups\<close>): whether it holds a
  signal.  A signal to a full channel is dropped; nothing is sent after the channels are closed.\<close>

record wakeups =
  wk_channels :: "(string \<times> bool) list"
  wk_closed :: bool

fun wakeup_channels :: "string list \<Rightarrow> queue list \<Rightarrow> (string \<times> bool) list" where
  "wakeup_channels seen [] = []"
| "wakeup_channels seen (q # qs) =
     (if q_name q \<in> set seen then wakeup_channels seen qs
      else (q_name q, False) # wakeup_channels (q_name q # seen) qs)"

definition new_wakeups :: "queue list \<Rightarrow> wakeups" where
  "new_wakeups qs = \<lparr>wk_channels = wakeup_channels [] qs, wk_closed = False\<rparr>"

definition wake :: "string \<Rightarrow> wakeups \<Rightarrow> wakeups" where
  "wake q w = (if wk_closed w then w
     else w\<lparr>wk_channels := map (\<lambda>(n, b). (n, if n = q then True else b)) (wk_channels w)\<rparr>)"

definition wake_all :: "wakeups \<Rightarrow> wakeups" where
  "wake_all w = (if wk_closed w then w else w\<lparr>wk_channels := map (\<lambda>(n, b). (n, True)) (wk_channels w)\<rparr>)"

definition close_wakeups :: "wakeups \<Rightarrow> wakeups" where
  "close_wakeups w = w\<lparr>wk_closed := True\<rparr>"

definition fanout :: "string \<Rightarrow> wakeups \<Rightarrow> wakeups" where
  "fanout notification w = (let q = trim_space notification in if q = [] then wake_all w else wake q w)"

lemma wakeup_channels_names:
  "map fst (wakeup_channels seen qs) = dedup_acc seen (map q_name qs)"
  by (induction seen qs rule: wakeup_channels.induct) auto

text \<open>A notification reaches the loop it names.  After it the channel of that queue holds a
  signal, no other signal is lost, and no channel appears or disappears; a blank notification wakes
  every loop.\<close>

theorem notification_wakes:
  assumes "\<not> wk_closed w"
  shows "map fst (wk_channels (fanout m w)) = map fst (wk_channels w)
    \<and> (\<forall>(n, b)\<in>set (wk_channels (fanout m w)). (trim_space m = [] \<or> n = trim_space m) \<longrightarrow> b)
    \<and> (\<forall>n. (n, True) \<in> set (wk_channels w) \<longrightarrow> (n, True) \<in> set (wk_channels (fanout m w)))"
  using assms by (force simp: fanout_def wake_all_def wake_def Let_def comp_def case_prod_beta)

theorem notification_wakes_witness:
  "map fst (wk_channels (fanout ''default'' (new_wakeups [sample_queue]))) = [''default'']
    \<and> (\<exists>b. (''default'', b) \<in> set (wk_channels (fanout ''default'' (new_wakeups [sample_queue]))) \<and> b)"
proof -
  have "\<not> wk_closed (new_wakeups [sample_queue])" "trim_space ''default'' = ''default''"
    "map fst (wk_channels (new_wakeups [sample_queue])) = [''default'']" by code_simp+
  moreover from this notification_wakes [of "new_wakeups [sample_queue]" "''default''"]
  have m: "map fst (wk_channels (fanout ''default'' (new_wakeups [sample_queue]))) = [''default'']" by simp
  then obtain b where "(''default'', b) \<in> set (wk_channels (fanout ''default'' (new_wakeups [sample_queue])))"
    by (cases "wk_channels (fanout ''default'' (new_wakeups [sample_queue]))") auto
  ultimately show ?thesis using notification_wakes [of "new_wakeups [sample_queue]" "''default''"] m by fastforce
qed

end
