(* ===== verification/Record_Naming.thy ===== *)
theory Record_Naming
  imports Go_Time Names
begin

text \<open>
  Record names: the naming plan of an Entity (\<^verbatim>\<open>internal/entity/schema/schema.go\<close>), its pattern
  validators, the generator (\<^verbatim>\<open>internal/naming\<close>) and the series counter of the Record store
  (\<^verbatim>\<open>internal/db/naming.go\<close>).  Resolving a field token and drawing random bytes are parameters;
  a civil date stands for the \<^verbatim>\<open>time.Time\<close> a pattern is rendered with.
\<close>

section \<open>Naming plans\<close>

record naming =
  nm_line :: int
  nm_strategy :: string
  nm_label :: string
  nm_length :: int
  nm_pattern :: string
  nm_format :: string

definition naming_strategies :: "string list" where
  "naming_strategies = [''manual'', ''random'', ''series'', ''format'']"

definition default_random_name_length :: int where
  "default_random_name_length = 16"

definition collection_row_name_length :: int where
  "collection_row_name_length = 16"

definition min_random_name_length :: int where
  "min_random_name_length = 8"

definition max_random_name_length :: int where
  "max_random_name_length = 64"

definition no_naming :: naming where
  "no_naming = \<lparr>nm_line = 0, nm_strategy = [], nm_label = [], nm_length = 0, nm_pattern = [], nm_format = []\<rparr>"

definition collection_row_naming :: naming where
  "collection_row_naming = no_naming\<lparr>nm_strategy := ''random'', nm_length := collection_row_name_length\<rparr>"

definition default_record_naming :: naming where
  "default_record_naming = no_naming\<lparr>nm_strategy := ''random'', nm_length := default_random_name_length\<rparr>"

definition has_explicit_naming :: "naming \<Rightarrow> bool" where
  "has_explicit_naming n \<longleftrightarrow> nm_line n \<noteq> 0 \<or> \<not> blank (nm_strategy n) \<or> \<not> blank (nm_label n)
     \<or> nm_length n \<noteq> 0 \<or> \<not> blank (nm_pattern n) \<or> \<not> blank (nm_format n)"

text \<open>The defaults of \<^verbatim>\<open>EffectiveNaming\<close> and \<^verbatim>\<open>parseRecordNaming\<close>; the generator also trims the strategy.\<close>

definition default_length :: "naming \<Rightarrow> naming" where
  "default_length n =
     (if nm_strategy n = ''random'' \<and> nm_length n = 0 then n\<lparr>nm_length := default_random_name_length\<rparr> else n)"

definition effective_naming :: "bool \<Rightarrow> naming \<Rightarrow> naming" where
  "effective_naming is_collection n =
     (if is_collection then collection_row_naming
      else default_length (if blank (nm_strategy n) then n\<lparr>nm_strategy := ''random''\<rparr> else n))"

definition normalize_plan :: "naming \<Rightarrow> naming" where
  "normalize_plan n =
     (let s = trim_space (nm_strategy n)
      in default_length (n\<lparr>nm_strategy := (if s = [] then ''random'' else s)\<rparr>))"

section \<open>Format templates\<close>

datatype naming_error =
    ValueUnavailable string
  | ValueFailed string string
  | SeriesCounterRequired
  | SeriesCounterFailed
  | SeriesOverflow
  | SeriesEntityRequired
  | SeriesCounterTokens
  | RandomFailed
  | RandomPanic
  | StrategyUnsupported string
  | NotDeterministic string
  | FormatUnclosed
  | FormatUnopened
  | FormatResolverRequired

type_synonym resolver = "string \<Rightarrow> naming_error + string"

definition map_resolver :: "(string \<rightharpoonup> string) \<Rightarrow> resolver" where
  "map_resolver m token = (case m token of None \<Rightarrow> Inl (ValueUnavailable token) | Some v \<Rightarrow> Inr v)"

definition resolve_value :: "resolver option \<Rightarrow> resolver" where
  "resolve_value r token = (case r of None \<Rightarrow> Inl (ValueUnavailable token) | Some f \<Rightarrow> f token)"

text \<open>Both loops over a format advance past a token or by one byte.\<close>

function render_loop :: "resolver \<Rightarrow> string \<Rightarrow> naming_error + string" where
  "render_loop f [] = Inr []"
| "render_loop f (c # s) =
     (if c = CHR ''{'' then
        (case cut s (CHR ''}'') of None \<Rightarrow> Inl FormatUnclosed
         | Some (token, rest) \<Rightarrow> bindR (f token) (\<lambda>v. bindR (render_loop f rest) (\<lambda>r. Inr (v @ r))))
      else if c = CHR ''}'' then Inl FormatUnopened
      else bindR (render_loop f s) (\<lambda>r. Inr (c # r)))"
  by pat_completeness auto
termination
  by (relation "measure (\<lambda>(f, s). length s)") (auto dest: cut_SomeD)

definition render_format :: "string \<Rightarrow> resolver option \<Rightarrow> naming_error + string" where
  "render_format fmt r = (case r of None \<Rightarrow> Inl FormatResolverRequired | Some f \<Rightarrow> render_loop f fmt)"

datatype pattern_problem =
    TokenUnclosed
  | TokenNested
  | TokenNotField string
  | TokenUnopened
  | TokenUnsupported string
  | CounterCount

function naming_format_tokens :: "string \<Rightarrow> pattern_problem + string list" where
  "naming_format_tokens [] = Inr []"
| "naming_format_tokens (c # s) =
     (if c = CHR ''{'' then
        (case cut s (CHR ''}'') of None \<Rightarrow> Inl TokenUnclosed
         | Some (token, rest) \<Rightarrow>
             if CHR ''{'' \<in> set token then Inl TokenNested
             else if \<not> is_name token then Inl (TokenNotField token)
             else bindR (naming_format_tokens rest) (\<lambda>ts. Inr (token # ts)))
      else if c = CHR ''}'' then Inl TokenUnopened
      else naming_format_tokens s)"
  by pat_completeness auto
termination
  by (relation "measure length") (auto dest: cut_SomeD)

section \<open>Series patterns\<close>

datatype piece = Lit char | Year2 | Year4 | Month2 | Counter nat

text \<open>The regular expression \<^verbatim>\<open>\{(YY|YYYY|MM|#+)\}\<close> at the head of the input.\<close>

definition match_token :: "string \<Rightarrow> (piece \<times> string) option" where
  "match_token s =
     (case s of [] \<Rightarrow> None
      | c # r \<Rightarrow> if c \<noteq> CHR ''{'' then None
          else (case cut r (CHR ''}'') of None \<Rightarrow> None
            | Some (t, rest) \<Rightarrow>
                if t = ''YY'' then Some (Year2, rest)
                else if t = ''YYYY'' then Some (Year4, rest)
                else if t = ''MM'' then Some (Month2, rest)
                else if t \<noteq> [] \<and> list_all (\<lambda>x. x = CHR ''#'') t then Some (Counter (length t), rest)
                else None))"

lemma match_token_shorter: "match_token s = Some (p, rest) \<Longrightarrow> length rest < length s"
  by (auto simp: match_token_def split: list.splits if_splits option.splits dest!: cut_SomeD)

text \<open>\<^verbatim>\<open>ReplaceAllStringFunc\<close> replaces the leftmost, non-overlapping matches.\<close>

function pieces :: "string \<Rightarrow> piece list" where
  "pieces [] = []"
| "pieces (c # s) =
     (case match_token (c # s) of Some (p, rest) \<Rightarrow> p # pieces rest | None \<Rightarrow> Lit c # pieces s)"
  by pat_completeness auto
termination
  by (relation "measure length") (auto dest: match_token_shorter)

type_synonym civil = "int \<times> int \<times> int"

definition append_int :: "nat \<Rightarrow> int \<Rightarrow> string" where
  "append_int w x = (if x < 0 then CHR ''-'' # pad_nat w (nat (- x)) else pad_nat w (nat x))"

fun render_piece :: "civil \<Rightarrow> piece \<Rightarrow> string" where
  "render_piece d (Lit c) = [c]"
| "render_piece (y, m, d) Year2 = append_int 2 ((if y < 0 then 0 else y) mod 100)"
| "render_piece (y, m, d) Year4 = append_int 4 y"
| "render_piece (y, m, d) Month2 = append_int 2 m"
| "render_piece d (Counter w) = ''{#}''"

definition render_pieces :: "civil \<Rightarrow> piece list \<Rightarrow> string" where
  "render_pieces d ps = concat (map (render_piece d) ps)"

fun counter_widths :: "piece list \<Rightarrow> nat list" where
  "counter_widths [] = []"
| "counter_widths (Counter w # ps) = w # counter_widths ps"
| "counter_widths (p # ps) = counter_widths ps"

text \<open>\<^verbatim>\<open>strings.Replace(s, old, new, 1)\<close> for a non-empty \<open>old\<close>.\<close>

fun replace_first :: "string \<Rightarrow> string \<Rightarrow> string \<Rightarrow> string" where
  "replace_first old new [] = []"
| "replace_first old new (c # s) =
     (if has_prefix (c # s) old then new @ drop (length old) (c # s) else c # replace_first old new s)"

definition render_series_pattern :: "string \<Rightarrow> string \<Rightarrow> civil \<Rightarrow> naming_error + string \<times> nat \<times> string" where
  "render_series_pattern entity pattern now =
     (let ps = pieces pattern; rendered = render_pieces now ps
      in case counter_widths ps of
           [w] \<Rightarrow> Inr (rendered, w,
             entity @ '':'' @ replace_first ''{#}'' (''{'' @ replicate w (CHR ''#'') @ ''}'') rendered)
         | _ \<Rightarrow> Inl SeriesCounterTokens)"

function series_loop :: "string \<Rightarrow> pattern_problem + nat" where
  "series_loop [] = Inr 0"
| "series_loop (c # s) =
     (if c \<noteq> CHR ''{'' then series_loop s
      else case cut s (CHR ''}'') of None \<Rightarrow> Inl TokenUnclosed
       | Some (t, rest) \<Rightarrow>
           if t = ''YY'' \<or> t = ''YYYY'' \<or> t = ''MM'' then series_loop rest
           else if t \<noteq> [] \<and> list_all (\<lambda>x. x = CHR ''#'') t then bindR (series_loop rest) (\<lambda>n. Inr (n + 1))
           else Inl (TokenUnsupported t))"
  by pat_completeness auto
termination
  by (relation "measure length") (auto dest: cut_SomeD)

definition validate_series_pattern :: "string \<Rightarrow> pattern_problem option" where
  "validate_series_pattern p =
     (case series_loop p of Inl e \<Rightarrow> Some e
      | Inr n \<Rightarrow> if CHR ''}'' \<in> set p \<and> CHR ''{'' \<notin> set p then Some TokenUnopened
          else if n \<noteq> 1 then Some CounterCount else None)"

section \<open>Generation\<close>

text \<open>\<^verbatim>\<open>Random\<close>: one index below 58 is drawn for each position (\<^verbatim>\<open>None\<close> when the source of
  randomness fails); \<^verbatim>\<open>Builder.Grow\<close> panics on a negative length.\<close>

definition alphabet :: string where
  "alphabet = ''123456789ABCDEFGHJKLMNPQRSTUVWXYZabcdefghijkmnopqrstuvwxyz''"

definition random_name :: "(nat \<Rightarrow> nat option) \<Rightarrow> int \<Rightarrow> naming_error + string" where
  "random_name draw len =
     (if len < 0 then Inl RandomPanic
      else mapR (\<lambda>i. case draw i of None \<Rightarrow> Inl RandomFailed | Some n \<Rightarrow> Inr (alphabet ! n)) [0..<nat len])"

record 's naming_options =
  no_entity :: string
  no_now :: "civil option"
  no_random :: "(int \<Rightarrow> naming_error + string) option"
  no_series :: "(string \<Rightarrow> string \<Rightarrow> 's \<Rightarrow> naming_error + int \<times> 's) option"

definition no_naming_options :: "'s naming_options" where
  "no_naming_options = \<lparr>no_entity = [], no_now = None, no_random = None, no_series = None\<rparr>"

definition naming_now :: "instant \<Rightarrow> 's naming_options \<Rightarrow> civil" where
  "naming_now clock opts = (case no_now opts of Some d \<Rightarrow> d | None \<Rightarrow> utc_date clock)"

text \<open>\<^verbatim>\<open>Sprintf("%0*d", w, n)\<close>: the width counts the sign.\<close>

definition format_width :: "nat \<Rightarrow> int \<Rightarrow> string" where
  "format_width w n = (if n < 0 then CHR ''-'' # pad_nat (w - 1) (nat (- n)) else pad_nat w (nat n))"

definition generate_series_name :: "instant \<Rightarrow> naming \<Rightarrow> 's naming_options \<Rightarrow> 's \<Rightarrow> naming_error + string \<times> 's" where
  "generate_series_name clock plan opts st =
     (if blank (no_entity opts) then Inl SeriesEntityRequired
      else bindR (render_series_pattern (no_entity opts) (nm_pattern plan) (naming_now clock opts)) (\<lambda>(rendered, w, key).
        case no_series opts of None \<Rightarrow> Inl SeriesCounterRequired
        | Some step \<Rightarrow> bindR (step key (nm_pattern plan) st) (\<lambda>(current, st').
            Inr (replace_first ''{#}'' (format_width w current) rendered, st'))))"

definition generate :: "(nat \<Rightarrow> nat option) \<Rightarrow> instant \<Rightarrow> naming \<Rightarrow> resolver option \<Rightarrow> 's naming_options \<Rightarrow> 's \<Rightarrow>
    naming_error + string \<times> 's" where
  "generate draw clock plan0 r opts st =
     (let plan = normalize_plan plan0; s = nm_strategy plan
      in if s = ''manual'' then bindR (resolve_value r ''name'') (\<lambda>v. Inr (v, st))
         else if s = ''random'' then
           bindR ((case no_random opts of Some f \<Rightarrow> f | None \<Rightarrow> random_name draw) (nm_length plan)) (\<lambda>v. Inr (v, st))
         else if s = ''series'' then generate_series_name clock plan opts st
         else if s = ''format'' then bindR (render_format (nm_format plan) (Some (resolve_value r))) (\<lambda>v. Inr (v, st))
         else Inl (StrategyUnsupported s))"

definition generate_deterministic :: "(nat \<Rightarrow> nat option) \<Rightarrow> instant \<Rightarrow> naming \<Rightarrow> resolver option \<Rightarrow> naming_error + string" where
  "generate_deterministic draw clock plan0 r =
     (let plan = normalize_plan plan0
      in if nm_strategy plan = ''random'' \<or> nm_strategy plan = ''series'' then Inl (NotDeterministic (nm_strategy plan))
         else bindR (generate draw clock plan r no_naming_options ()) (\<lambda>(v, _). Inr v))"

section \<open>The series counter\<close>

record series_row =
  sn_entity :: int
  sn_key :: string
  sn_pattern :: string
  sn_current :: int

definition record_identity_name :: "string \<Rightarrow> string \<Rightarrow> string" where
  "record_identity_name app entity = app @ ''/'' @ entity"

definition legacy_series_key :: "string \<Rightarrow> string \<Rightarrow> string \<Rightarrow> string" where
  "legacy_series_key key app entity =
     (let p = record_identity_name app entity @ '':''
      in if has_prefix key p then entity @ '':'' @ trim_prefix key p else key)"

text \<open>The upsert: the inserted value continues a legacy row of the same Entity; on a conflict the
  row's own counter is raised.  PostgreSQL refuses a result outside \<^verbatim>\<open>bigint\<close>.\<close>

definition next_series :: "string \<Rightarrow> string \<Rightarrow> int \<Rightarrow> string \<Rightarrow> string \<Rightarrow> series_row list \<Rightarrow>
    naming_error + int \<times> series_row list" where
  "next_series app entity eid key pattern rows =
     (let legacy = legacy_series_key key app entity;
          start = (case find (\<lambda>r. sn_key r = legacy \<and> sn_entity r = eid) rows of None \<Rightarrow> 0 | Some r \<Rightarrow> sn_current r) + 1
      in if \<not> in_i64 start then Inl SeriesOverflow
         else case find (\<lambda>r. sn_key r = key) rows of
           None \<Rightarrow> Inr (start, rows @ [\<lparr>sn_entity = eid, sn_key = key, sn_pattern = pattern, sn_current = start\<rparr>])
         | Some r \<Rightarrow>
             if in_i64 (sn_current r + 1)
             then Inr (sn_current r + 1,
               update_where (\<lambda>r. sn_key r = key) (\<lambda>r. r\<lparr>sn_current := sn_current r + 1\<rparr>) rows)
             else Inl SeriesOverflow)"

definition generate_record_name :: "(nat \<Rightarrow> nat option) \<Rightarrow> instant \<Rightarrow> string \<Rightarrow> string \<Rightarrow> int \<Rightarrow> naming \<Rightarrow> resolver \<Rightarrow>
    series_row list \<Rightarrow> naming_error + string \<times> series_row list" where
  "generate_record_name draw clock app entity eid plan r rows =
     generate draw clock plan (Some r)
       (no_naming_options\<lparr>no_entity := record_identity_name app entity, no_series := Some (next_series app entity eid)\<rparr>) rows"

definition single_record_name :: "string \<Rightarrow> string" where
  "single_record_name entity_key = entity_key"

end
