(* ===== verification/Field_Types.thy ===== *)
theory Field_Types
  imports Names Transition_Systems
begin

text \<open>
  Field types (\<^verbatim>\<open>internal/entity/fieldtype\<close>): the option validators, the registry and
  the built-in definitions.  A YAML node keeps its kind, tag and text; \<open>NoNode\<close> is the zero
  node of an absent key.
\<close>

datatype node =
    NoNode
  | Scalar (node_tag: string) (node_value: string)
  | Sequence (node_items: "node list")
  | MappingNode "(node \<times> node) list"
  | AliasNode string

section \<open>Options\<close>

record link_filter =
  lf_field :: string
  lf_operator :: string
  lf_value :: "node option"
  lf_from :: string

record field_options =
  fo_values :: "string list"
  fo_app :: string
  fo_entity :: string
  fo_display_field :: string
  fo_filters :: "link_filter list"
  fo_foreign_key :: "bool option"

definition no_field_options :: field_options where
  "no_field_options = \<lparr>fo_values = [], fo_app = [], fo_entity = [], fo_display_field = [],
     fo_filters = [], fo_foreign_key = None\<rparr>"

datatype option_problem =
    OptionUnsupported string
  | ValuesRequired
  | ValueEmpty
  | ValueDuplicate string
  | OptionNotKebab string string
  | EntityRequired
  | FilterValueRequired string
  | FilterValueAndFrom string

definition unsupported :: "bool \<Rightarrow> string \<Rightarrow> option_problem list" where
  "unsupported b what = (if b then [OptionUnsupported what] else [])"

definition no_options :: "field_options \<Rightarrow> option_problem list" where
  "no_options opts =
     unsupported (fo_values opts \<noteq> []) ''values'' @ unsupported (fo_app opts \<noteq> []) ''app''
     @ unsupported (fo_entity opts \<noteq> []) ''entity'' @ unsupported (fo_foreign_key opts \<noteq> None) ''foreign-key''
     @ unsupported (fo_display_field opts \<noteq> []) ''display-field'' @ unsupported (fo_filters opts \<noteq> []) ''filters''"

fun select_values :: "string list \<Rightarrow> string list \<Rightarrow> option_problem list" where
  "select_values seen [] = []"
| "select_values seen (v # vs) =
     (if blank v then ValueEmpty # select_values seen vs
      else (if v \<in> set seen then [ValueDuplicate v] else []) @ select_values (v # seen) vs)"

definition select_options :: "field_options \<Rightarrow> option_problem list" where
  "select_options opts =
     unsupported (fo_app opts \<noteq> []) ''app'' @ unsupported (fo_entity opts \<noteq> []) ''entity''
     @ unsupported (fo_foreign_key opts \<noteq> None) ''foreign-key''
     @ unsupported (fo_display_field opts \<noteq> []) ''display-field'' @ unsupported (fo_filters opts \<noteq> []) ''filters''
     @ (if fo_values opts = [] then [ValuesRequired] else []) @ select_values [] (fo_values opts)"

definition filter_problems :: "link_filter \<Rightarrow> option_problem list" where
  "filter_problems f =
     (if \<not> is_name (lf_field f) then [OptionNotKebab ''filter field'' (lf_field f)] else [])
     @ (if lf_from f \<noteq> [] \<and> \<not> is_name (lf_from f) then [OptionNotKebab ''filter source'' (lf_from f)] else [])
     @ (if lf_value f = None \<and> lf_from f = [] then [FilterValueRequired (lf_field f)]
        else if lf_value f \<noteq> None \<and> lf_from f \<noteq> [] then [FilterValueAndFrom (lf_field f)] else [])"

definition entity_options :: "bool \<Rightarrow> field_options \<Rightarrow> option_problem list" where
  "entity_options allow_foreign_key opts =
     unsupported (fo_values opts \<noteq> []) ''values''
     @ unsupported (\<not> allow_foreign_key \<and> fo_foreign_key opts \<noteq> None) ''foreign-key''
     @ (if \<not> blank (fo_app opts) \<and> \<not> is_name (fo_app opts) then [OptionNotKebab ''app'' (fo_app opts)] else [])
     @ (if blank (fo_entity opts) then [EntityRequired]
        else if \<not> is_name (fo_entity opts) then [OptionNotKebab ''entity'' (fo_entity opts)] else [])
     @ (if fo_display_field opts \<noteq> [] \<and> \<not> is_name (fo_display_field opts)
        then [OptionNotKebab ''display-field'' (fo_display_field opts)] else [])
     @ concat (map filter_problems (fo_filters opts))"

section \<open>Definitions and the registry\<close>

record behavior =
  bh_stored :: bool
  bh_column_suffix :: string
  bh_sql_type :: string
  bh_placeholder_cast :: string
  bh_value_kind :: string
  bh_write_only :: bool
  bh_listable :: bool
  bh_name_renderable :: bool
  bh_system_name :: bool
  bh_checkable :: bool
  bh_studio_editor :: string
  bh_studio_display :: string

record field_type =
  ft_name :: string
  ft_label :: string
  ft_allow_required :: bool
  ft_allow_unique :: bool
  ft_allow_default :: bool
  ft_allow_index :: bool
  ft_behavior :: behavior
  ft_validate :: "field_options \<Rightarrow> option_problem list"

datatype register_error =
    TypeNameRequired
  | TypeNameNotKebab string
  | TypeLabelRequired string
  | TypeDuplicate string

type_synonym type_registry = "(string \<times> field_type) list"

definition register_type :: "type_registry \<Rightarrow> field_type \<Rightarrow> register_error + type_registry" where
  "register_type reg d =
     (if blank (ft_name d) then Inl TypeNameRequired
      else if \<not> is_name (ft_name d) then Inl (TypeNameNotKebab (ft_name d))
      else if blank (ft_label d) then Inl (TypeLabelRequired (ft_name d))
      else if map_of reg (ft_name d) \<noteq> None then Inl (TypeDuplicate (ft_name d))
      else Inr ((ft_name d, d) # reg))"

definition get_type :: "type_registry \<Rightarrow> string \<Rightarrow> field_type option" where
  "get_type reg name = map_of reg name"

definition type_names :: "type_registry \<Rightarrow> string list" where
  "type_names reg = sort (map fst reg)"

section \<open>The built-in types\<close>

definition stored_behavior :: "string \<Rightarrow> string \<Rightarrow> string \<Rightarrow> string \<Rightarrow> string \<Rightarrow> bool \<Rightarrow> bool \<Rightarrow> bool \<Rightarrow> behavior" where
  "stored_behavior sql cast kind editor display name_renderable system_name checkable =
     \<lparr>bh_stored = True, bh_column_suffix = [], bh_sql_type = sql, bh_placeholder_cast = cast,
      bh_value_kind = kind, bh_write_only = False, bh_listable = True, bh_name_renderable = name_renderable,
      bh_system_name = system_name, bh_checkable = checkable, bh_studio_editor = editor,
      bh_studio_display = display\<rparr>"

definition scalar :: "string \<Rightarrow> string \<Rightarrow> string \<Rightarrow> string \<Rightarrow> string \<Rightarrow> string \<Rightarrow> string \<Rightarrow>
    bool \<Rightarrow> bool \<Rightarrow> bool \<Rightarrow> bool \<Rightarrow> bool \<Rightarrow> bool \<Rightarrow> bool \<Rightarrow> field_type" where
  "scalar name label sql cast kind editor display required unique dflt index name_renderable system_name checkable =
     \<lparr>ft_name = name, ft_label = label, ft_allow_required = required, ft_allow_unique = unique,
      ft_allow_default = dflt, ft_allow_index = index,
      ft_behavior = stored_behavior sql cast kind editor display name_renderable system_name checkable,
      ft_validate = no_options\<rparr>"

definition hidden_behavior :: "string \<Rightarrow> string \<Rightarrow> string \<Rightarrow> behavior" where
  "hidden_behavior col_suffix kind editor =
     \<lparr>bh_stored = True, bh_column_suffix = col_suffix, bh_sql_type = ''text'', bh_placeholder_cast = [],
      bh_value_kind = kind, bh_write_only = True, bh_listable = False, bh_name_renderable = False,
      bh_system_name = False, bh_checkable = False, bh_studio_editor = editor, bh_studio_display = ''hidden''\<rparr>"

definition built_ins :: "field_type list" where
  "built_ins =
    [
     scalar ''text'' ''Text'' ''text'' [] ''string'' ''text'' ''text'' True True True True True True True,
     scalar ''email'' ''Email'' ''text'' [] ''string'' ''email'' ''email'' True True True True True True True,
     scalar ''phone'' ''Phone'' ''text'' [] ''string'' ''text'' ''phone'' True True True True True True True,
     scalar ''long-text'' ''Long Text'' ''text'' [] ''string'' ''textarea'' ''text'' True False True False False False True,
     scalar ''int'' ''Integer'' ''integer'' ''integer'' ''integer'' ''number'' ''number'' True True True True True False True,
     scalar ''bigint'' ''Big Integer'' ''bigint'' ''bigint'' ''integer'' ''number'' ''number'' True True True True True False True,
     scalar ''decimal'' ''Decimal'' ''numeric'' ''numeric'' ''number'' ''number'' ''number'' True True True True True False True,
     scalar ''currency'' ''Currency'' ''numeric'' ''numeric'' ''number'' ''number'' ''currency'' True True True True True False True,
     scalar ''boolean'' ''Boolean'' ''boolean'' ''boolean'' ''boolean'' ''switch'' ''boolean'' True True True True True False True,
     scalar ''date'' ''Date'' ''date'' ''date'' ''date'' ''date'' ''date'' True True True True True False True,
     scalar ''datetime'' ''Datetime'' ''timestamptz'' ''timestamptz'' ''datetime'' ''datetime'' ''datetime'' True True True True True False True,
     scalar ''time'' ''Time'' ''time'' ''time'' ''time'' ''time'' ''time'' True True True True True False True,
     \<lparr>ft_name = ''secret'', ft_label = ''Secret'', ft_allow_required = True, ft_allow_unique = False,
      ft_allow_default = False, ft_allow_index = False,
      ft_behavior = hidden_behavior ''_encrypted'' ''secret'' ''secret'', ft_validate = no_options\<rparr>,
     \<lparr>ft_name = ''password'', ft_label = ''Password'', ft_allow_required = True, ft_allow_unique = False,
      ft_allow_default = False, ft_allow_index = False,
      ft_behavior = hidden_behavior ''_hash'' ''password'' ''password'', ft_validate = no_options\<rparr>,
     \<lparr>ft_name = ''select'', ft_label = ''Select'', ft_allow_required = True, ft_allow_unique = True,
      ft_allow_default = True, ft_allow_index = True,
      ft_behavior = stored_behavior ''text'' [] ''string'' ''select'' ''text'' True True True,
      ft_validate = select_options\<rparr>,
     \<lparr>ft_name = ''link'', ft_label = ''Link'', ft_allow_required = True, ft_allow_unique = True,
      ft_allow_default = True, ft_allow_index = True,
      ft_behavior = \<lparr>bh_stored = True, bh_column_suffix = ''_id'', bh_sql_type = ''bigint'',
        bh_placeholder_cast = ''bigint'', bh_value_kind = ''integer'', bh_write_only = False,
        bh_listable = True, bh_name_renderable = True, bh_system_name = False, bh_checkable = False,
        bh_studio_editor = ''link'', bh_studio_display = ''link''\<rparr>,
      ft_validate = entity_options True\<rparr>,
     \<lparr>ft_name = ''collection'', ft_label = ''Record Collection'', ft_allow_required = True, ft_allow_unique = False,
      ft_allow_default = False, ft_allow_index = False,
      ft_behavior = \<lparr>bh_stored = False, bh_column_suffix = [], bh_sql_type = [], bh_placeholder_cast = [],
        bh_value_kind = [], bh_write_only = False, bh_listable = False, bh_name_renderable = False,
        bh_system_name = False, bh_checkable = False, bh_studio_editor = ''collection'',
        bh_studio_display = ''collection''\<rparr>,
      ft_validate = entity_options False\<rparr>,
     scalar ''attachment'' ''Attachment'' ''text'' [] ''string'' ''attachment'' ''attachment'' True False False False False False False,
     scalar ''json'' ''JSON'' ''jsonb'' ''jsonb'' ''json'' ''json'' ''json'' True False False False False False False]"

text \<open>\<^verbatim>\<open>DefaultRegistry\<close>, which panics when a registration fails.\<close>

definition default_registry :: "register_error + type_registry" where
  "default_registry = foldR register_type [] built_ins"

definition default_definition :: "string \<Rightarrow> field_type option" where
  "default_definition name = find (\<lambda>d. ft_name d = name) built_ins"

section \<open>Properties\<close>

definition put_type :: "type_registry \<Rightarrow> string \<Rightarrow> field_type \<Rightarrow> register_error + type_registry" where
  "put_type reg name d = (if name = ft_name d then register_type reg d else Inl TypeNameRequired)"

interpretation types: write_once put_type get_type
  by unfold_locales (auto simp: put_type_def register_type_def get_type_def split: if_splits)

lemma register_all_puts:
  "foldR register_type reg ds = Inr reg' \<Longrightarrow>
     foldR (\<lambda>r (k, v). put_type r k v) reg (map (\<lambda>d. (ft_name d, d)) ds) = Inr reg'"
  by (induction ds arbitrary: reg) (auto simp: put_type_def split: sum.splits)

lemma built_ins_register: "\<exists>reg. default_registry = Inr reg"
proof -
  have "isl default_registry = False" by code_simp
  then show ?thesis by (metis isl_def sum.exhaust)
qed

text \<open>The default registry is complete and its construction never panics: every built-in type
  registers, is found under its own name, and lookups agree with the list of built-ins.\<close>

theorem default_registry_complete:
  "\<exists>reg. default_registry = Inr reg
     \<and> list_all (\<lambda>d. get_type reg (ft_name d) = Some d \<and> is_name (ft_name d)) built_ins
     \<and> distinct (map ft_name built_ins)"
proof -
  obtain reg where reg: "default_registry = Inr reg" using built_ins_register by blast
  note bound = types.puts_bind [OF register_all_puts [OF reg [unfolded default_registry_def]]]
  have "\<forall>d\<in>set built_ins. is_name (ft_name d)" by code_simp
  moreover have "\<forall>d\<in>set built_ins. get_type reg (ft_name d) = Some d" using bound by auto
  moreover have "distinct (map ft_name built_ins)" using bound by (simp add: comp_def)
  ultimately show ?thesis using reg by (auto simp: list_all_iff)
qed

text \<open>The behaviours the rest of the system relies on: only stored types can be indexed, unique,
  checked, listed or used in names, and a write-only type is never listed, checked or rendered.\<close>

definition behavior_consistent :: "field_type \<Rightarrow> bool" where
  "behavior_consistent d = (let b = ft_behavior d in
     (ft_allow_unique d \<or> ft_allow_index d \<or> ft_allow_default d \<or> bh_checkable b \<or> bh_listable b
        \<or> bh_name_renderable b \<longrightarrow> bh_stored b)
     \<and> (bh_write_only b \<longrightarrow> \<not> bh_listable b \<and> \<not> bh_checkable b \<and> \<not> bh_name_renderable b
          \<and> \<not> ft_allow_unique d \<and> \<not> ft_allow_index d \<and> \<not> ft_allow_default d)
     \<and> (bh_stored b \<longleftrightarrow> bh_sql_type b \<noteq> []))"

lemma built_ins_consistent: "\<forall>d\<in>set built_ins. behavior_consistent d"
  by code_simp

lemma default_registry_only_built_ins:
  assumes "default_registry = Inr reg" "get_type reg n = Some d"
  shows "d \<in> set built_ins \<and> ft_name d = n"
proof -
  have "(n, d) \<in> set reg \<Longrightarrow> foldR register_type reg0 ds = Inr reg \<Longrightarrow> (n, d) \<in> set reg0 \<or> d \<in> set ds \<and> ft_name d = n" for reg0 ds
  proof (induction ds arbitrary: reg0)
    case Nil
    then show ?case by simp
  next
    case (Cons x ds)
    obtain r1 where r1: "register_type reg0 x = Inr r1" "foldR register_type r1 ds = Inr reg"
      using Cons.prems(2) by (auto split: sum.splits)
    have "r1 = (ft_name x, x) # reg0" using r1(1) by (auto simp: register_type_def split: if_splits)
    then show ?case using Cons.IH [OF Cons.prems(1) r1(2)] by auto
  qed
  then show ?thesis using assms map_of_SomeD by (fastforce simp: default_registry_def get_type_def)
qed

end
