(* ===== verification/Entity_Schema.thy ===== *)
theory Entity_Schema
  imports Record_Naming Reserved_Words Field_Types
begin

text \<open>
  Entity metadata (\<^verbatim>\<open>internal/entity/schema\<close>): the decoded document as records, the validators of
  one Entity, the form layout that tabs are flattened to, and the load-time composition of both.
  Decoding YAML is a parameter: the model starts at the decoded document.  A problem is a line, the
  message template of the source and its arguments; Go's maps built from the fields keep the last declaration.
\<close>

section \<open>The document\<close>

record check =
  ck_operator :: string
  ck_value :: node

record fetch =
  fe_from :: string

record field =
  fd_line :: int
  fd_name :: string
  fd_label :: string
  fd_type :: string
  fd_description :: string
  fd_required :: bool
  fd_unique :: bool
  fd_index :: bool
  fd_default :: node
  fd_check :: "check option"
  fd_fetch :: "fetch option"
  fd_options :: field_options

record route =
  rt_line :: int
  rt_slug :: string

record tree =
  tr_parent_field :: string
  tr_label_field :: string

record index =
  ix_line :: int
  ix_name :: string
  ix_fields :: "string list"

record constraint =
  cn_line :: int
  cn_name :: string
  cn_type :: string
  cn_fields :: "string list"
  cn_field :: string
  cn_operator :: string
  cn_value :: node

record tab =
  tb_line :: int
  tb_label :: string
  tb_name :: string
  tb_icon :: string
  tb_fields :: "field list"

record form_item =
  fi_kind :: string
  fi_name :: string
  fi_label :: string
  fi_description :: string

record form_tab =
  fm_key :: string
  fm_label :: string
  fm_icon :: string
  fm_items :: "form_item list"

record entity =
  en_line :: int
  en_name :: string
  en_label :: string
  en_description :: string
  en_icon :: string
  en_is_single :: bool
  en_is_system :: bool
  en_is_collection :: bool
  en_is_private :: bool
  en_private_owner_field :: string
  en_route :: route
  en_naming :: naming
  en_tree :: "tree option"
  en_fields :: "field list"
  en_tabs :: "tab list"
  en_form :: "form_tab list option"
  en_indexes :: "index list"
  en_constraints :: "constraint list"

definition check_operators :: "string list" where
  "check_operators = [''eq'', ''neq'', ''gt'', ''gte'', ''lt'', ''lte'', ''in'', ''not-in'']"

definition constraint_types :: "string list" where
  "constraint_types = [''unique'', ''check'', ''exactly-one'']"

definition index_effective_name :: "entity \<Rightarrow> index \<Rightarrow> string" where
  "index_effective_name e i =
     (if \<not> blank (ix_name i) then ix_name i else join ''-'' ([en_name e] @ ix_fields i @ [''idx'']))"

definition constraint_effective_name :: "entity \<Rightarrow> constraint \<Rightarrow> string" where
  "constraint_effective_name e c =
     (if \<not> blank (cn_name c) then cn_name c
      else if cn_type c = ''unique'' then join ''-'' ([en_name e] @ cn_fields c @ [''key''])
      else if cn_type c = ''check'' then join ''-'' [en_name e, cn_field c, cn_operator c, ''check'']
      else if cn_type c = ''exactly-one'' then join ''-'' ([en_name e] @ cn_fields c @ [''exactly-one''])
      else join ''-'' [en_name e, ''constraint''])"

definition effective_route_slug :: "entity \<Rightarrow> string" where
  "effective_route_slug e = (if \<not> blank (rt_slug (en_route e)) then rt_slug (en_route e) else en_name e)"

definition entity_naming :: "entity \<Rightarrow> naming" where
  "entity_naming e = effective_naming (en_is_collection e) (en_naming e)"

section \<open>Problems\<close>

type_synonym problem = "int \<times> string \<times> string list"

definition prob :: "bool \<Rightarrow> int \<Rightarrow> string \<times> string list \<Rightarrow> problem list" where
  "prob b line p = (if b then [(line, p)] else [])"

lemma prob_Nil [simp]: "prob b line p = [] \<longleftrightarrow> \<not> b"
  by (simp add: prob_def)

section \<open>Values and checks\<close>

fun is_scalar :: "node \<Rightarrow> bool" where
  "is_scalar (Scalar t v) = True"
| "is_scalar _ = False"

fun is_null :: "node \<Rightarrow> bool" where
  "is_null (Scalar t v) = (t = ''!!null'')"
| "is_null _ = False"

fun check_items :: "int \<Rightarrow> string \<Rightarrow> node list \<Rightarrow> problem list" where
  "check_items line owner [] = []"
| "check_items line owner (x # xs) =
     (if \<not> is_scalar x then [(line, ''%s list values must be scalar'', [owner])]
      else if is_null x then [(line, ''%s list values must not be null'', [owner])]
      else check_items line owner xs)"

definition validate_check_value :: "int \<Rightarrow> string \<Rightarrow> string \<Rightarrow> node \<Rightarrow> problem list" where
  "validate_check_value line owner operator v =
     (if operator = ''in'' \<or> operator = ''not-in'' then
        (case v of NoNode \<Rightarrow> [(line, ''%s value is required'', [owner])]
         | Sequence items \<Rightarrow> if items = [] then [(line, ''%s value must be a non-empty list for in and not-in'', [owner])] else check_items line owner items
         | _ \<Rightarrow> [(line, ''%s value must be a non-empty list for in and not-in'', [owner])])
      else if v = NoNode then [(line, ''%s value is required'', [owner])]
      else if \<not> is_scalar v then [(line, ''%s value must be scalar'', [owner])]
      else prob (is_null v) line (''%s value must not be null'', [owner]))"

definition validate_check_rule :: "int \<Rightarrow> string \<Rightarrow> string \<Rightarrow> node \<Rightarrow> problem list" where
  "validate_check_rule line owner operator v =
     prob (operator \<notin> set check_operators) line (''%s operator %q is not supported'', [owner, operator])
     @ validate_check_value line owner operator v"

text \<open>\<^verbatim>\<open>Tag + "=" + Value\<close>; collections keep the tag the parser resolves for them.\<close>

fun node_key :: "node \<Rightarrow> string" where
  "node_key NoNode = ''=''"
| "node_key (Scalar t v) = t @ ''='' @ v"
| "node_key (Sequence items) = ''!!seq=''"
| "node_key (MappingNode ps) = ''!!map=''"
| "node_key (AliasNode a) = ''='' @ a"

fun check_value_key :: "node \<Rightarrow> string" where
  "check_value_key NoNode = []"
| "check_value_key (Sequence items) = join '','' (map node_key items)"
| "check_value_key n = node_key n"

section \<open>One field\<close>

fun fetch_segments :: "int \<Rightarrow> string \<Rightarrow> string list \<Rightarrow> problem list" where
  "fetch_segments line name [] = []"
| "fetch_segments line name (s # ss) =
     (if blank s then [(line, ''field %q fetch.from contains an empty path segment'', [name])]
      else prob (\<not> is_name s) line (''field %q fetch.from segment %q must be kebab-case'', [name, s]) @ fetch_segments line name ss)"

definition validate_fetch :: "field \<Rightarrow> problem list" where
  "validate_fetch f =
     (case fd_fetch f of None \<Rightarrow> []
      | Some fe \<Rightarrow>
        (let path = trim_space (fe_from fe); segments = split_on (CHR ''.'') path
         in if path = [] then [(fd_line f, ''field %q fetch.from is required'', [fd_name f])]
            else if length segments < 2 then [(fd_line f, ''field %q fetch.from must include a link field and target field'', [fd_name f])]
            else fetch_segments (fd_line f) (fd_name f) segments))"

definition validate_field_type :: "type_registry \<Rightarrow> field \<Rightarrow> string \<Rightarrow> problem list" where
  "validate_field_type reg f label =
     (let ln = fd_line f; ty = fd_type f in
      if blank ty then [(ln, ''field %q type is required'', [label])]
      else if \<not> is_name ty then [(ln, ''field %q type %q must be kebab-case'', [label, ty])]
      else case get_type reg ty of None \<Rightarrow> [(ln, ''field %q uses unknown type %q'', [label, ty])]
      | Some d \<Rightarrow>
          prob (fd_required f \<and> \<not> ft_allow_required d) ln (''field %q type %q cannot be required'', [label, ty])
          @ prob (fd_unique f \<and> \<not> ft_allow_unique d) ln (''field %q type %q cannot be unique'', [label, ty])
          @ prob (fd_index f \<and> \<not> ft_allow_index d) ln (''field %q type %q cannot be indexed'', [label, ty])
          @ prob (fd_default f \<noteq> NoNode \<and> \<not> ft_allow_default d) ln (''field %q type %q does not support default values'', [label, ty])
          @ (case fd_check f of None \<Rightarrow> []
             | Some c \<Rightarrow> prob (\<not> bh_checkable (ft_behavior d)) ln (''field %q type %q does not support checks'', [label, ty])
                 @ validate_check_rule ln (''field '' @ label @ '' check'') (ck_operator c) (ck_value c))
          @ validate_fetch f
          @ prob (ft_validate d (fd_options f) \<noteq> []) ln (''field %q options invalid for type %q'', [label, ty]))"

definition validate_field :: "type_registry \<Rightarrow> string list \<Rightarrow> field \<Rightarrow> problem list" where
  "validate_field reg seen f =
     (let ln = fd_line f; name = fd_name f; label = (if name = [] then ''<missing>'' else name) in
      (if blank name then [(ln, ''field name is required'', [])]
       else if \<not> is_name name then [(ln, ''field %q name must be kebab-case'', [name])]
       else prob (name \<noteq> ''name'' \<and> is_reserved_field name) ln (''field %q is reserved'', [name]))
      @ prob (name \<in> set seen) ln (''duplicate field %q'', [name])
      @ prob (blank (fd_label f)) ln (''field %q label is required'', [label])
      @ validate_field_type reg f label)"

definition is_collection_system_field_name :: "string \<Rightarrow> bool" where
  "is_collection_system_field_name name \<longleftrightarrow>
     name \<in> set [''ordinal'', ''parent-entity-id'', ''parent-record-id'', ''parent-field-id'']"

definition validate_single_field_default :: "field \<Rightarrow> field_type \<Rightarrow> problem list" where
  "validate_single_field_default f d =
     (if \<not> fd_required f \<or> \<not> bh_stored (ft_behavior d) then []
      else if fd_default f = NoNode then [(fd_line f, ''single Entity required field %q must define a non-null default'', [fd_name f])]
      else if \<not> is_scalar (fd_default f) then [(fd_line f, ''single Entity required field %q default must be scalar'', [fd_name f])]
      else prob (is_null (fd_default f)) (fd_line f) (''single Entity required field %q default must not be null'', [fd_name f]))"

definition validate_field_in :: "type_registry \<Rightarrow> entity \<Rightarrow> string list \<Rightarrow> field \<Rightarrow> problem list" where
  "validate_field_in reg e seen f =
     validate_field reg seen f
     @ prob (en_is_collection e \<and> is_collection_system_field_name (fd_name f)) (fd_line f)
         (''collection field %q is reserved for framework collection row storage'', [fd_name f])
     @ prob (en_is_collection e \<and> fd_type f = ''collection'') (fd_line f) (''collection Entities cannot define collection fields in v1'', [])
     @ (if fd_name f \<noteq> [] \<and> en_is_single e
        then (case get_type reg (fd_type f) of None \<Rightarrow> [] | Some d \<Rightarrow> validate_single_field_default f d)
        else [])"

fun validate_fields :: "type_registry \<Rightarrow> entity \<Rightarrow> string list \<Rightarrow> field list \<Rightarrow> problem list" where
  "validate_fields reg e seen [] = []"
| "validate_fields reg e seen (f # fs) =
     validate_field_in reg e seen f
     @ validate_fields reg e (if fd_name f \<noteq> [] then fd_name f # seen else seen) fs"

text \<open>The maps \<^verbatim>\<open>fields\<close> and \<^verbatim>\<open>fieldTypes\<close>.\<close>

definition field_map :: "field list \<Rightarrow> string \<Rightarrow> field option" where
  "field_map fs n = map_of (rev (map (\<lambda>f. (fd_name f, f)) (filter (\<lambda>f. fd_name f \<noteq> []) fs))) n"

definition field_types :: "type_registry \<Rightarrow> field list \<Rightarrow> string \<Rightarrow> field_type option" where
  "field_types reg fs n =
     map_of (rev (concat (map (\<lambda>f. case get_type reg (fd_type f) of None \<Rightarrow> [] | Some d \<Rightarrow> [(fd_name f, d)])
       (filter (\<lambda>f. fd_name f \<noteq> []) fs)))) n"

section \<open>Naming\<close>

definition naming_line :: "entity \<Rightarrow> int" where
  "naming_line e = (if nm_line (en_naming e) = 0 then en_line e else nm_line (en_naming e))"

definition validate_manual_naming :: "naming \<Rightarrow> int \<Rightarrow> problem list" where
  "validate_manual_naming n line =
     prob (nm_length n \<noteq> 0 \<or> \<not> blank (nm_pattern n) \<or> \<not> blank (nm_format n)) line
       (''manual name supports label only'', [])"

definition validate_random_naming :: "naming \<Rightarrow> int \<Rightarrow> problem list" where
  "validate_random_naming n line =
     prob (\<not> blank (nm_label n) \<or> \<not> blank (nm_pattern n) \<or> \<not> blank (nm_format n)) line
       (''random naming supports length only'', [])
     @ prob (nm_length n < min_random_name_length \<or> max_random_name_length < nm_length n) line
       (''random naming length must be between %d and %d'', [])"

definition validate_series_naming :: "naming \<Rightarrow> int \<Rightarrow> problem list" where
  "validate_series_naming n line =
     prob (\<not> blank (nm_label n) \<or> nm_length n \<noteq> 0 \<or> \<not> blank (nm_format n)) line
       (''series naming supports pattern only'', [])
     @ (if blank (nm_pattern n) then [(line, ''series naming pattern is required'', [])]
        else prob (validate_series_pattern (nm_pattern n) \<noteq> None) line (''series naming pattern'', [nm_pattern n]))"

definition format_token_problems :: "(string \<Rightarrow> field option) \<Rightarrow> (string \<Rightarrow> field_type option) \<Rightarrow> int \<Rightarrow> string \<Rightarrow> problem list" where
  "format_token_problems fm tm line token =
     (case fm token of None \<Rightarrow> [(line, ''format naming references unknown field %q'', [token])]
      | Some f \<Rightarrow> (case tm token of
          None \<Rightarrow> [(fd_line f, ''format naming field %q type %q is unknown'', [token, fd_type f])]
        | Some d \<Rightarrow>
            prob (\<not> fd_required f) (fd_line f) (''format naming field %q must be required'', [token])
            @ prob (\<not> bh_name_renderable (ft_behavior d)) (fd_line f)
                (''format naming field %q type %q cannot be used for naming'', [token, fd_type f])
            @ prob (\<not> bh_stored (ft_behavior d)) (fd_line f)
                (''format naming field %q type %q is not stored'', [token, fd_type f])
            @ prob (bh_write_only (ft_behavior d)) (fd_line f)
                (''format naming field %q type %q is write-only'', [token, fd_type f])))"

definition validate_format_naming :: "(string \<Rightarrow> field option) \<Rightarrow> (string \<Rightarrow> field_type option) \<Rightarrow> naming \<Rightarrow> int \<Rightarrow> problem list" where
  "validate_format_naming fm tm n line =
     prob (\<not> blank (nm_label n) \<or> nm_length n \<noteq> 0 \<or> \<not> blank (nm_pattern n)) line
       (''format naming supports format only'', [])
     @ (if blank (nm_format n) then [(line, ''format naming format is required'', [])]
        else case naming_format_tokens (nm_format n) of
          Inl _ \<Rightarrow> [(line, ''format naming format'', [nm_format n])]
        | Inr tokens \<Rightarrow>
            if tokens = [] then [(line, ''format naming must include at least one field token'', [])]
            else concat (map (format_token_problems fm tm line) tokens))"

definition validate_naming :: "(string \<Rightarrow> field option) \<Rightarrow> (string \<Rightarrow> field_type option) \<Rightarrow> entity \<Rightarrow> problem list" where
  "validate_naming fm tm e =
     (case fm ''name'' of None \<Rightarrow> []
      | Some f \<Rightarrow> [(fd_line f, ''field \"name\" is reserved; configure Record names with top-level name metadata'', [])])
     @ (let n = default_length (en_naming e); line = naming_line e; s = nm_strategy n in
        if \<not> has_explicit_naming (en_naming e) then []
        else if blank s then [(line, ''name strategy is required'', [])]
        else if s = ''manual'' then validate_manual_naming n line
        else if s = ''random'' then validate_random_naming n line
        else if s = ''series'' then validate_series_naming n line
        else if s = ''format'' then validate_format_naming fm tm n line
        else [(line, ''naming strategy %q is not supported'', [s])])"

definition validate_naming_presence :: "entity \<Rightarrow> problem list" where
  "validate_naming_presence e =
     (if en_is_collection e \<and> has_explicit_naming (en_naming e)
      then [(naming_line e, ''collection Entities do not support explicit name configuration'', [])]
      else if en_is_single e \<and> has_explicit_naming (en_naming e)
      then [(naming_line e, ''single Entities do not support explicit name configuration'', [])]
      else prob (\<not> en_is_single e \<and> \<not> en_is_collection e \<and> \<not> has_explicit_naming (en_naming e)) (en_line e)
        (''Entity must define name. Use name.strategy: random for generated names.'', []))"

section \<open>Field references, indexes and constraints\<close>

definition ref_problem :: "int \<Rightarrow> string \<Rightarrow> (string \<Rightarrow> field option) \<Rightarrow> (string \<Rightarrow> field_type option) \<Rightarrow>
    (field_type \<Rightarrow> bool) \<Rightarrow> string \<Rightarrow> string \<Rightarrow> problem list" where
  "ref_problem line owner fm tm allowed capability r =
     (case fm r of None \<Rightarrow> [(line, ''%s references unknown field %q'', [owner, r])]
      | Some f \<Rightarrow> (case tm r of None \<Rightarrow> [(line, ''%s field %q type %q is unknown'', [owner, r, fd_type f])]
        | Some d \<Rightarrow> prob (\<not> allowed d) line (''%s field %q type %q cannot be %s'', [owner, r, fd_type f, capability])))"

fun validate_field_references :: "int \<Rightarrow> string \<Rightarrow> (string \<Rightarrow> field option) \<Rightarrow> (string \<Rightarrow> field_type option) \<Rightarrow>
    (field_type \<Rightarrow> bool) \<Rightarrow> string \<Rightarrow> string list \<Rightarrow> string list \<Rightarrow> problem list" where
  "validate_field_references line owner fm tm allowed capability seen [] = []"
| "validate_field_references line owner fm tm allowed capability seen (r # rs) =
     (if blank r then (line, ''%s field names must not be empty'', [owner])
          # validate_field_references line owner fm tm allowed capability seen rs
      else if \<not> is_name r then (line, ''%s field %q must be kebab-case'', [owner, r])
          # validate_field_references line owner fm tm allowed capability seen rs
      else if r \<in> set seen then (line, ''%s has duplicate field %q'', [owner, r])
          # validate_field_references line owner fm tm allowed capability seen rs
      else ref_problem line owner fm tm allowed capability r
          @ validate_field_references line owner fm tm allowed capability (r # seen) rs)"

definition nul :: string where
  "nul = [CHR 0x00]"

definition index_problems :: "(string \<Rightarrow> field option) \<Rightarrow> (string \<Rightarrow> field_type option) \<Rightarrow> index \<Rightarrow> problem list" where
  "index_problems fm tm i =
     prob (\<not> blank (ix_name i) \<and> \<not> is_name (ix_name i)) (ix_line i) (''index name %q must be kebab-case'', [ix_name i])
     @ prob (ix_fields i = []) (ix_line i) (''index fields are required'', [])
     @ validate_field_references (ix_line i) ''index'' fm tm ft_allow_index ''indexed'' [] (ix_fields i)"

fun validate_indexes_loop :: "(string \<Rightarrow> field option) \<Rightarrow> (string \<Rightarrow> field_type option) \<Rightarrow> entity \<Rightarrow> string list \<Rightarrow> string list \<Rightarrow>
    index list \<Rightarrow> problem list" where
  "validate_indexes_loop fm tm e names defs [] = []"
| "validate_indexes_loop fm tm e names defs (i # is) =
     (let name = index_effective_name e i; key = join nul (ix_fields i)
      in index_problems fm tm i
         @ prob (\<not> blank name \<and> name \<in> set names) (ix_line i) (''duplicate index name %q'', [name])
         @ prob (key \<noteq> [] \<and> key \<in> set defs) (ix_line i) (''duplicate index fields %q'', ix_fields i)
         @ validate_indexes_loop fm tm e (if blank name then names else name # names)
             (if key = [] then defs else key # defs) is)"

definition validate_indexes :: "(string \<Rightarrow> field option) \<Rightarrow> (string \<Rightarrow> field_type option) \<Rightarrow> entity \<Rightarrow> problem list" where
  "validate_indexes fm tm e = validate_indexes_loop fm tm e [] [] (en_indexes e)"

text \<open>Each kind of constraint gives its problems and the key it enters into \<^verbatim>\<open>seenDefinitions\<close>.\<close>

definition validate_unique_constraint :: "(string \<Rightarrow> field option) \<Rightarrow> (string \<Rightarrow> field_type option) \<Rightarrow> string list \<Rightarrow>
    constraint \<Rightarrow> problem list \<times> string list" where
  "validate_unique_constraint fm tm defs c =
     (let ln = cn_line c; key = cn_type c @ nul @ join nul (cn_fields c) in
      (prob (length (cn_fields c) < 2) ln (''unique constraint requires at least two fields'', [])
       @ prob (\<not> blank (cn_field c)) ln (''unique constraint uses fields, not field'', [])
       @ prob (\<not> blank (cn_operator c) \<or> cn_value c \<noteq> NoNode) ln
           (''unique constraint does not support operator or value'', [])
       @ validate_field_references ln ''unique constraint'' fm tm ft_allow_unique ''unique'' [] (cn_fields c)
       @ prob (key \<noteq> cn_type c @ nul \<and> key \<in> set defs) ln (''duplicate unique constraint fields %q'', cn_fields c),
       if key = cn_type c @ nul then defs else key # defs))"

definition check_field_problems :: "(string \<Rightarrow> field option) \<Rightarrow> (string \<Rightarrow> field_type option) \<Rightarrow> constraint \<Rightarrow> problem list" where
  "check_field_problems fm tm c =
     (let ln = cn_line c; r = cn_field c in
      if blank r then [(ln, ''check constraint field is required'', [])]
      else if \<not> is_name r then [(ln, ''check constraint field %q must be kebab-case'', [r])]
      else case fm r of None \<Rightarrow> [(ln, ''check constraint references unknown field %q'', [r])]
      | Some f \<Rightarrow> (case tm r of
          Some d \<Rightarrow> prob (\<not> bh_checkable (ft_behavior d)) ln
            (''check constraint field %q type %q is not supported'', [r, fd_type f])
        | None \<Rightarrow> [(ln, ''check constraint field %q type %q is unknown'', [r, fd_type f])]))"

definition validate_check_constraint :: "(string \<Rightarrow> field option) \<Rightarrow> (string \<Rightarrow> field_type option) \<Rightarrow> string list \<Rightarrow>
    constraint \<Rightarrow> problem list \<times> string list" where
  "validate_check_constraint fm tm defs c =
     (let ln = cn_line c;
          key = join nul [cn_type c, cn_field c, cn_operator c, check_value_key (cn_value c)] in
      (prob (cn_fields c \<noteq> []) ln (''check constraint uses field, not fields'', [])
       @ check_field_problems fm tm c
       @ validate_check_rule ln ''check constraint'' (cn_operator c) (cn_value c)
       @ prob (key \<in> set defs) ln (''duplicate check constraint on field %q'', [cn_field c]),
       key # defs))"

definition validate_exactly_one_constraint :: "(string \<Rightarrow> field option) \<Rightarrow> (string \<Rightarrow> field_type option) \<Rightarrow> string list \<Rightarrow>
    constraint \<Rightarrow> problem list \<times> string list" where
  "validate_exactly_one_constraint fm tm defs c =
     (let ln = cn_line c; key = cn_type c @ nul @ join nul (cn_fields c) in
      (prob (length (cn_fields c) < 2) ln (''exactly-one constraint requires at least two fields'', [])
       @ prob (\<not> blank (cn_field c) \<or> \<not> blank (cn_operator c) \<or> cn_value c \<noteq> NoNode) ln
           (''exactly-one constraint uses fields only'', [])
       @ validate_field_references ln ''exactly-one constraint'' fm tm (\<lambda>d. bh_stored (ft_behavior d)) ''stored'' []
           (cn_fields c)
       @ prob (key \<in> set defs) ln (''duplicate exactly-one constraint'', []),
       key # defs))"

definition constraint_body :: "(string \<Rightarrow> field option) \<Rightarrow> (string \<Rightarrow> field_type option) \<Rightarrow> string list \<Rightarrow>
    constraint \<Rightarrow> problem list \<times> string list" where
  "constraint_body fm tm defs c =
     (if cn_type c = ''unique'' then validate_unique_constraint fm tm defs c
      else if cn_type c = ''check'' then validate_check_constraint fm tm defs c
      else if cn_type c = ''exactly-one'' then validate_exactly_one_constraint fm tm defs c
      else ([(cn_line c, ''constraint type %q is not supported'', [cn_type c])], defs))"

fun validate_constraints_loop :: "(string \<Rightarrow> field option) \<Rightarrow> (string \<Rightarrow> field_type option) \<Rightarrow> entity \<Rightarrow> string list \<Rightarrow> string list \<Rightarrow>
    constraint list \<Rightarrow> problem list" where
  "validate_constraints_loop fm tm e names defs [] = []"
| "validate_constraints_loop fm tm e names defs (c # cs) =
     prob (\<not> blank (cn_name c) \<and> \<not> is_name (cn_name c)) (cn_line c) (''constraint name %q must be kebab-case'', [cn_name c])
     @ (if blank (cn_type c)
        then (cn_line c, ''constraint type is required'', []) # validate_constraints_loop fm tm e names defs cs
        else let (ps, defs') = constraint_body fm tm defs c; name = constraint_effective_name e c
          in ps @ prob (\<not> blank name \<and> name \<in> set names) (cn_line c) (''duplicate constraint name %q'', [name])
             @ validate_constraints_loop fm tm e (if blank name then names else name # names) defs' cs)"

definition validate_constraints :: "(string \<Rightarrow> field option) \<Rightarrow> (string \<Rightarrow> field_type option) \<Rightarrow> entity \<Rightarrow> problem list" where
  "validate_constraints fm tm e = validate_constraints_loop fm tm e [] [] (en_constraints e)"

section \<open>Trees\<close>

text \<open>A missing parent field reads as Go's zero \<^verbatim>\<open>Field\<close>: no name, no index.\<close>

definition tree_parent_ok :: "field \<Rightarrow> bool" where
  "tree_parent_ok f \<longleftrightarrow> fd_type f = ''link'' \<and> \<not> fd_required f \<and> \<not> fd_unique f \<and> fd_default f = NoNode
     \<and> fd_fetch f = None \<and> fo_foreign_key (fd_options f) \<noteq> Some False"

definition validate_tree :: "(string \<Rightarrow> field option) \<Rightarrow> entity \<Rightarrow> problem list" where
  "validate_tree fm e =
     (case en_tree e of None \<Rightarrow> []
      | Some t \<Rightarrow>
        (let parent = fm (tr_parent_field t);
             pname = (case parent of None \<Rightarrow> [] | Some f \<Rightarrow> fd_name f);
             indexed = (case parent of None \<Rightarrow> False | Some f \<Rightarrow> fd_index f)
               \<or> list_ex (\<lambda>i. ix_fields i \<noteq> [] \<and> hd (ix_fields i) = pname) (en_indexes e)
         in prob (en_is_single e \<or> en_is_collection e) 0 (''tree is not supported on Single or Collection Entities'', [])
            @ prob (\<not> (case parent of None \<Rightarrow> False | Some f \<Rightarrow> tree_parent_ok f)) 0
                (''tree parent-field must be a nullable writable Link with a foreign key, without default, fetch, or uniqueness'', [])
            @ concat (map (\<lambda>c. prob (cn_type c = ''unique'' \<and> cn_fields c = [pname]) 0
                (''tree parent-field must not be unique'', [])) (en_constraints e))
            @ prob (\<not> indexed) 0 (''tree parent-field requires an index'', [])
            @ (if tr_label_field t = [] then []
               else prob (\<not> (case fm (tr_label_field t) of None \<Rightarrow> False | Some l \<Rightarrow> fd_type l = ''text'')) 0
                 (''tree label-field must be a stored text field'', []))))"

section \<open>The Entity\<close>

definition validate_entity_header :: "entity \<Rightarrow> problem list" where
  "validate_entity_header e =
     prob (\<not> blank (en_name e) \<and> \<not> is_name (en_name e)) (en_line e) (''name %q must be kebab-case'', [en_name e])
     @ prob (blank (en_label e)) (en_line e) (''label is required'', [])
     @ prob (\<not> blank (rt_slug (en_route e)) \<and> \<not> is_name (rt_slug (en_route e)))
         (if rt_line (en_route e) = 0 then en_line e else rt_line (en_route e))
         (''route slug %q must be kebab-case'', [rt_slug (en_route e)])
     @ prob (en_fields e = []) (en_line e) (''at least one field is required'', [])
     @ prob (en_is_private e \<and> blank (en_private_owner_field e)) (en_line e)
         (''private Entity must define private-owner-field'', [])"

definition validate_private_owner :: "(string \<Rightarrow> field option) \<Rightarrow> entity \<Rightarrow> problem list" where
  "validate_private_owner fm e =
     (if \<not> en_is_private e \<or> blank (en_private_owner_field e) then []
      else case fm (en_private_owner_field e) of
        None \<Rightarrow> [(en_line e, ''private owner field %q does not exist'', [en_private_owner_field e])]
      | Some f \<Rightarrow> prob (fd_type f \<noteq> ''link'') (fd_line f)
          (''private owner field %q must be a link field'', [en_private_owner_field e]))"

definition validate_entity :: "type_registry \<Rightarrow> entity \<Rightarrow> problem list" where
  "validate_entity reg e =
     (let fm = field_map (en_fields e); tm = field_types reg (en_fields e)
      in validate_entity_header e
         @ validate_fields reg e [] (en_fields e)
         @ validate_private_owner fm e
         @ validate_indexes fm tm e
         @ validate_tree fm e
         @ validate_constraints fm tm e
         @ validate_naming_presence e
         @ validate_naming fm tm e)"

end
