(* ===== verification/Record_Filter.thy ===== *)
theory Record_Filter
  imports Field_Types
begin

text \<open>Filter operators of Record lists (\<^verbatim>\<open>internal/recordfilter\<close>): the operators each field type
  supports and how many values an operator takes.\<close>

datatype arity = ArityNone | ArityOne | ArityRange

record operator =
  op_key :: string
  op_label :: string
  op_arity :: arity

definition operator_table :: "operator list" where
  "operator_table =
    [\<lparr>op_key = ''eq'', op_label = ''is'', op_arity = ArityOne\<rparr>,
     \<lparr>op_key = ''ne'', op_label = ''is not'', op_arity = ArityOne\<rparr>,
     \<lparr>op_key = ''contains'', op_label = ''contains'', op_arity = ArityOne\<rparr>,
     \<lparr>op_key = ''not-contains'', op_label = ''does not contain'', op_arity = ArityOne\<rparr>,
     \<lparr>op_key = ''gt'', op_label = ''greater than'', op_arity = ArityOne\<rparr>,
     \<lparr>op_key = ''gte'', op_label = ''greater than or equal to'', op_arity = ArityOne\<rparr>,
     \<lparr>op_key = ''lt'', op_label = ''less than'', op_arity = ArityOne\<rparr>,
     \<lparr>op_key = ''lte'', op_label = ''less than or equal to'', op_arity = ArityOne\<rparr>,
     \<lparr>op_key = ''before'', op_label = ''before'', op_arity = ArityOne\<rparr>,
     \<lparr>op_key = ''after'', op_label = ''after'', op_arity = ArityOne\<rparr>,
     \<lparr>op_key = ''between'', op_label = ''between'', op_arity = ArityRange\<rparr>,
     \<lparr>op_key = ''empty'', op_label = ''is empty'', op_arity = ArityNone\<rparr>,
     \<lparr>op_key = ''not-empty'', op_label = ''is not empty'', op_arity = ArityNone\<rparr>]"

definition operators_by_key :: "string \<Rightarrow> operator option" where
  "operators_by_key k = find (\<lambda>p. op_key p = k) operator_table"

definition basic_operators :: "string list" where
  "basic_operators = [''eq'', ''ne'', ''empty'', ''not-empty'']"

definition temporal_operators :: "string list" where
  "temporal_operators = [''eq'', ''before'', ''after'', ''between'', ''empty'', ''not-empty'']"

definition numeric_operators :: "string list" where
  "numeric_operators = [''eq'', ''ne'', ''gt'', ''gte'', ''lt'', ''lte'', ''between'', ''empty'', ''not-empty'']"

definition text_operators :: "string list" where
  "text_operators = [''eq'', ''ne'', ''contains'', ''not-contains'', ''empty'', ''not-empty'']"

definition profile_by_field_type :: "string \<Rightarrow> string list option" where
  "profile_by_field_type = map_of
     [(''link'', basic_operators), (''select'', basic_operators), (''boolean'', basic_operators),
      (''date'', temporal_operators), (''datetime'', temporal_operators), (''time'', temporal_operators)]"

definition operators_for_keys :: "string list \<Rightarrow> operator list" where
  "operators_for_keys ks = List.map_filter operators_by_key ks"

definition operators_for_field_type :: "string \<Rightarrow> string \<Rightarrow> operator list" where
  "operators_for_field_type ty kind =
     (case profile_by_field_type ty of Some ks \<Rightarrow> operators_for_keys ks
      | None \<Rightarrow> if kind = ''string'' then operators_for_keys text_operators
          else if kind = ''integer'' \<or> kind = ''number'' then operators_for_keys numeric_operators
          else [])"

definition supports_operator :: "string \<Rightarrow> string \<Rightarrow> string \<Rightarrow> bool" where
  "supports_operator ty kind operator = list_ex (\<lambda>p. op_key p = operator) (operators_for_field_type ty kind)"

definition operator_arity :: "string \<Rightarrow> arity option" where
  "operator_arity operator = map_option op_arity (operators_by_key operator)"

definition is_zero_arity :: "string \<Rightarrow> bool" where
  "is_zero_arity operator \<longleftrightarrow> operator_arity operator = Some ArityNone"

lemma every_profile_operator_known:
  "list_all (\<lambda>k. operators_by_key k \<noteq> None) (basic_operators @ temporal_operators @ numeric_operators @ text_operators)"
  by code_simp

end
