(* ===== verification/Entity_Catalog.thy ===== *)
theory Entity_Catalog
  imports Entity_Schema Record_Filter
begin

text \<open>
  The Entity catalog (\<^verbatim>\<open>internal/entity/catalog\<close>): loaded Entities, the index that resolves Entity
  references, and the rules that span Entities.  Walking the directories is I/O; what \<^verbatim>\<open>os.Stat\<close> says
  of a hook file is a parameter.
\<close>

record loaded_entity =
  le_app :: string
  le_dir :: string
  le_path :: string
  le_entity :: entity

definition catalog_key :: "string \<Rightarrow> string \<Rightarrow> string" where
  "catalog_key app name = app @ nul @ name"

definition le_key :: "loaded_entity \<Rightarrow> string" where
  "le_key e = catalog_key (le_app e) (en_name (le_entity e))"

definition le_is_collection :: "loaded_entity \<Rightarrow> bool" where
  "le_is_collection e = en_is_collection (le_entity e)"

definition has_route_slug :: "loaded_entity \<Rightarrow> bool" where
  "has_route_slug e = (\<not> le_is_collection e)"

definition route_slug :: "loaded_entity \<Rightarrow> string" where
  "route_slug e = (if \<not> has_route_slug e then [] else effective_route_slug (le_entity e))"

definition entity_kind :: "loaded_entity \<Rightarrow> string" where
  "entity_kind e = (if le_is_collection e then ''collection'' else if en_is_single (le_entity e) then ''single'' else ''normal'')"

definition sort_entities :: "loaded_entity list \<Rightarrow> loaded_entity list" where
  "sort_entities es = sort_key (\<lambda>e. [le_app e, en_name (le_entity e), le_path e]) es"

section \<open>Resolving references\<close>

record target_index =
  ti_identity :: "(string \<times> loaded_entity) list"
  ti_entities :: "loaded_entity list"

definition new_target_index :: "loaded_entity list \<Rightarrow> target_index" where
  "new_target_index es = \<lparr>ti_identity = rev (map (\<lambda>e. (le_key e, e)) es), ti_entities = es\<rparr>"

definition ti_lookup :: "target_index \<Rightarrow> string \<Rightarrow> string \<Rightarrow> loaded_entity option" where
  "ti_lookup ix app name = map_of (ti_identity ix) (catalog_key app name)"

definition ti_by_name :: "target_index \<Rightarrow> string \<Rightarrow> loaded_entity list" where
  "ti_by_name ix name = filter (\<lambda>e. en_name (le_entity e) = name) (ti_entities ix)"

datatype resolve_error =
    UnknownInApp string string
  | UnknownTarget string
  | AmbiguousTarget string "string list"

definition resolve_target :: "target_index \<Rightarrow> loaded_entity \<Rightarrow> string \<Rightarrow> string \<Rightarrow> resolve_error + loaded_entity" where
  "resolve_target ix owner app name =
     (if \<not> blank app then
        (case ti_lookup ix app name of None \<Rightarrow> Inl (UnknownInApp name app) | Some t \<Rightarrow> Inr t)
      else case ti_lookup ix (le_app owner) name of Some t \<Rightarrow> Inr t
      | None \<Rightarrow>
          (case ti_by_name ix name of [] \<Rightarrow> Inl (UnknownTarget name) | [t] \<Rightarrow> Inr t
           | ts \<Rightarrow> Inl (AmbiguousTarget name (sort (map le_app ts)))))"

section \<open>Fields across Entities\<close>

text \<open>\<^verbatim>\<open>catalogField\<close> and the reads that also know the system field \<^verbatim>\<open>name\<close>.\<close>

definition catalog_field :: "loaded_entity \<Rightarrow> string \<Rightarrow> field option" where
  "catalog_field e name = find (\<lambda>f. fd_name f = name) (en_fields (le_entity e))"

definition name_field :: field where
  "name_field = \<lparr>fd_line = 0, fd_name = ''name'', fd_label = ''Name'', fd_type = ''text'', fd_description = [],
     fd_required = True, fd_unique = False, fd_index = False, fd_default = NoNode, fd_check = None, fd_fetch = None,
     fd_options = no_field_options\<rparr>"

definition link_target_field :: "loaded_entity \<Rightarrow> string \<Rightarrow> field option" where
  "link_target_field e name = (if name = ''name'' then Some name_field else catalog_field e name)"

definition fetch_path_field :: "loaded_entity \<Rightarrow> string \<Rightarrow> field option" where
  "fetch_path_field e name = (if name = ''name'' then Some name_field else catalog_field e name)"

definition readable_stored :: "type_registry \<Rightarrow> string \<Rightarrow> bool" where
  "readable_stored reg ty = (case get_type reg ty of None \<Rightarrow> False
     | Some d \<Rightarrow> bh_stored (ft_behavior d) \<and> \<not> bh_write_only (ft_behavior d))"

definition validate_link_target_field :: "type_registry \<Rightarrow> loaded_entity \<Rightarrow> string \<Rightarrow> bool \<Rightarrow> bool" where
  "validate_link_target_field reg target name allow_collection =
     (case link_target_field target name of None \<Rightarrow> False
      | Some f \<Rightarrow> readable_stored reg (fd_type f) \<and> (allow_collection \<or> fd_type f \<noteq> ''collection''))"

text \<open>A problem of the catalog: the file, the line, the field and the message.\<close>

type_synonym catalog_problem = "string \<times> int \<times> string \<times> string \<times> string list"

definition entity_diagnostic :: "loaded_entity \<Rightarrow> string \<times> string list \<Rightarrow> catalog_problem" where
  "entity_diagnostic e msg = (le_path e, en_line (le_entity e), [], msg)"

definition field_diagnostic :: "loaded_entity \<Rightarrow> field \<Rightarrow> string \<times> string list \<Rightarrow> catalog_problem" where
  "field_diagnostic e f msg = (le_path e, (if fd_line f = 0 then en_line (le_entity e) else fd_line f),
     (if fd_name f = [] then ''<missing>'' else fd_name f), msg)"

definition hook_diagnostic :: "string \<Rightarrow> string \<times> string list \<Rightarrow> catalog_problem" where
  "hook_diagnostic path msg = (path, 0, [], msg)"

definition link_filter_problem :: "type_registry \<Rightarrow> loaded_entity \<Rightarrow> loaded_entity \<Rightarrow> link_filter \<Rightarrow> (string \<times> string list) option" where
  "link_filter_problem reg owner target lf =
     (case link_target_field target (lf_field lf) of
        None \<Rightarrow> Some (''filter field: target Entity %q has no field %q'', [en_name (le_entity target), lf_field lf])
      | Some tf \<Rightarrow>
        (let supported = (case get_type reg (fd_type tf) of None \<Rightarrow> None
             | Some d \<Rightarrow>
                 if supports_operator (fd_type tf) (bh_value_kind (ft_behavior d)) (if lf_operator lf = [] then ''eq'' else lf_operator lf)
                 then None
                 else Some (''filter operator %q is not supported for target field %q'', [lf_operator lf, lf_field lf]))
         in if lf_from lf = [] then supported
            else case catalog_field owner (lf_from lf) of
              None \<Rightarrow> Some (''filter source field %q does not exist'', [lf_from lf])
            | Some sf \<Rightarrow> if fd_type sf \<noteq> fd_type tf
                then Some (''filter source field %q does not match target field %q'', [lf_from lf, lf_field lf])
                else supported))"

definition validate_link_options :: "type_registry \<Rightarrow> loaded_entity \<Rightarrow> field \<Rightarrow> loaded_entity \<Rightarrow> catalog_problem list" where
  "validate_link_options reg owner f target =
     (let tree_bad = (case en_tree (le_entity owner) of None \<Rightarrow> False
            | Some t \<Rightarrow> tr_parent_field t = fd_name f \<and> le_key owner \<noteq> le_key target);
          display = trim_space (fo_display_field (fd_options f))
      in (if tree_bad then [field_diagnostic owner f (''tree parent must link to the same Entity'', [])] else [])
         @ (if display \<noteq> [] \<and> \<not> validate_link_target_field reg target display False
            then [field_diagnostic owner f (''display-field'', [display])] else [])
         @ List.map_filter (\<lambda>lf. map_option (field_diagnostic owner f) (link_filter_problem reg owner target lf))
             (fo_filters (fd_options f)))"

definition validate_field_target :: "type_registry \<Rightarrow> target_index \<Rightarrow> loaded_entity \<Rightarrow> field \<Rightarrow> catalog_problem list" where
  "validate_field_target reg ix e f =
     (if (fd_type f \<noteq> ''link'' \<and> fd_type f \<noteq> ''collection'') \<or> fo_entity (fd_options f) = [] then []
      else case resolve_target ix e (fo_app (fd_options f)) (fo_entity (fd_options f)) of
        Inl _ \<Rightarrow> [field_diagnostic e f (''references unknown or ambiguous entity target %q'', [fo_entity (fd_options f)])]
      | Inr target \<Rightarrow>
          (let tn = en_name (le_entity target) in
           if en_is_single (le_entity target) then
             (if fd_type f = ''collection''
              then [field_diagnostic e f (''targets single Entity %q, but collection fields must target a collection Entity'', [tn])]
              else [field_diagnostic e f (''links to single Entity %q; single Entities cannot be link targets'', [tn])])
           else if fd_type f = ''link'' \<and> le_is_collection target
             then [field_diagnostic e f (''links to collection Entity %q; collection Entities cannot be link targets'', [tn])]
           else if fd_type f = ''collection'' \<and> \<not> le_is_collection target
             then [field_diagnostic e f (''targets Entity %q, but collection fields must target a collection Entity'', [tn])]
           else if fd_type f = ''link'' then validate_link_options reg e f target else []))"

definition validate_field_targets :: "type_registry \<Rightarrow> target_index \<Rightarrow> loaded_entity list \<Rightarrow> catalog_problem list" where
  "validate_field_targets reg ix es =
     concat (map (\<lambda>e. concat (map (validate_field_target reg ix e) (en_fields (le_entity e)))) es)"

section \<open>Fetch paths\<close>

datatype fetch_problem =
    FetchCollection
  | FetchTypeUnusable string
  | FetchUnknownField string string
  | FetchNotLink string string
  | FetchUnresolved resolve_error
  | FetchSourceUnreadable string string
  | FetchTypeMismatch string string string
  | FetchTargetMismatch string

definition fetch_compatible :: "type_registry \<Rightarrow> target_index \<Rightarrow> loaded_entity \<Rightarrow> field \<Rightarrow> loaded_entity \<Rightarrow> field \<Rightarrow> fetch_problem + unit" where
  "fetch_compatible reg ix owner dest source_owner source =
     (if \<not> readable_stored reg (fd_type source)
      then Inl (FetchSourceUnreadable (fd_name source) (en_name (le_entity source_owner)))
      else if fd_type dest \<noteq> fd_type source then Inl (FetchTypeMismatch (fd_name source) (fd_type source) (fd_type dest))
      else if fd_type dest \<noteq> ''link'' then Inr ()
      else case resolve_target ix owner (fo_app (fd_options dest)) (fo_entity (fd_options dest)) of
        Inl e \<Rightarrow> Inl (FetchUnresolved e)
      | Inr dt \<Rightarrow> (case resolve_target ix source_owner (fo_app (fd_options source)) (fo_entity (fd_options source)) of
            Inl e \<Rightarrow> Inl (FetchUnresolved e)
          | Inr st \<Rightarrow> if le_key dt \<noteq> le_key st then Inl (FetchTargetMismatch (fd_name source)) else Inr ()))"

fun fetch_walk :: "type_registry \<Rightarrow> target_index \<Rightarrow> loaded_entity \<Rightarrow> field \<Rightarrow> loaded_entity \<Rightarrow> string list \<Rightarrow> fetch_problem + unit" where
  "fetch_walk reg ix owner dest current [] = Inr ()"
| "fetch_walk reg ix owner dest current (seg # segs) =
     (case fetch_path_field current seg of
        None \<Rightarrow> Inl (FetchUnknownField seg (en_name (le_entity current)))
      | Some source \<Rightarrow>
          if segs = [] then fetch_compatible reg ix owner dest current source
          else if fd_type source \<noteq> ''link'' then Inl (FetchNotLink seg (en_name (le_entity current)))
          else case resolve_target ix current (fo_app (fd_options source)) (fo_entity (fd_options source)) of
            Inl e \<Rightarrow> Inl (FetchUnresolved e)
          | Inr target \<Rightarrow> fetch_walk reg ix owner dest target segs)"

definition validate_field_fetch :: "type_registry \<Rightarrow> target_index \<Rightarrow> loaded_entity \<Rightarrow> field \<Rightarrow> fetch \<Rightarrow> fetch_problem + unit" where
  "validate_field_fetch reg ix owner f fe =
     (if fd_type f = ''collection'' then Inl FetchCollection
      else if \<not> readable_stored reg (fd_type f) then Inl (FetchTypeUnusable (fd_type f))
      else fetch_walk reg ix owner f owner (split_on (CHR ''.'') (trim_space (fe_from fe))))"

definition field_fetch_problem :: "type_registry \<Rightarrow> target_index \<Rightarrow> loaded_entity \<Rightarrow> field \<Rightarrow> catalog_problem list" where
  "field_fetch_problem reg ix e f =
     (case fd_fetch f of None \<Rightarrow> []
      | Some fe \<Rightarrow> (case validate_field_fetch reg ix e f fe of Inr _ \<Rightarrow> []
          | Inl _ \<Rightarrow> [field_diagnostic e f (''fetch'', [fe_from fe])]))"

definition validate_field_fetches :: "type_registry \<Rightarrow> target_index \<Rightarrow> loaded_entity list \<Rightarrow> catalog_problem list" where
  "validate_field_fetches reg ix es =
     concat (map (\<lambda>e. concat (map (field_fetch_problem reg ix e) (en_fields (le_entity e)))) es)"

section \<open>The catalog\<close>

datatype file_state = FileMissing | FileUnreadable | FileIrregular | FileRegular

text \<open>Hook files: an unreadable one ends the validation with an error.\<close>

fun validate_hook_files :: "(loaded_entity \<Rightarrow> file_state) \<Rightarrow> loaded_entity list \<Rightarrow> string + catalog_problem list" where
  "validate_hook_files hook [] = Inr []"
| "validate_hook_files hook (e # es) =
     (if le_is_collection e then validate_hook_files hook es
      else case hook e of
        FileUnreadable \<Rightarrow> Inl (le_path e)
      | FileIrregular \<Rightarrow> bindR (validate_hook_files hook es) (\<lambda>ps. Inr (hook_diagnostic (le_path e) (''must be a regular file'', []) # ps))
      | _ \<Rightarrow> validate_hook_files hook es)"

definition identity_problems :: "string list \<Rightarrow> string list \<Rightarrow> loaded_entity \<Rightarrow> catalog_problem list" where
  "identity_problems keys slugs e =
     (if le_key e \<in> set keys then [entity_diagnostic e (''app %q entity %q duplicates Entity identity'', [le_app e])] else [])
     @ (if le_is_collection e \<and> \<not> blank (rt_slug (en_route (le_entity e)))
        then [entity_diagnostic e (''collection Entity %q cannot define route.slug'', [])] else [])
     @ (if has_route_slug e \<and> is_reserved_slug (route_slug e)
        then [entity_diagnostic e (''uses reserved root route slug %q'', [route_slug e])] else [])
     @ (if has_route_slug e \<and> route_slug e \<in> set slugs
        then [entity_diagnostic e (''route slug %q conflicts'', [route_slug e])] else [])"

fun validate_identities :: "string list \<Rightarrow> string list \<Rightarrow> loaded_entity list \<Rightarrow> catalog_problem list" where
  "validate_identities keys slugs [] = []"
| "validate_identities keys slugs (e # es) =
     identity_problems keys slugs e
     @ validate_identities (le_key e # keys) (if has_route_slug e then route_slug e # slugs else slugs) es"

definition validate_entity_catalog :: "type_registry \<Rightarrow> (loaded_entity \<Rightarrow> file_state) \<Rightarrow> loaded_entity list \<Rightarrow> string + catalog_problem list" where
  "validate_entity_catalog reg hook es =
     (let ix = new_target_index es
      in bindR (validate_hook_files hook es) (\<lambda>hooks.
        Inr (validate_identities [] [] es @ validate_field_targets reg ix es @ validate_field_fetches reg ix es @ hooks)))"

end
