(* ===== verification/Entity_Form.thy ===== *)
theory Entity_Form
  imports Entity_Schema
begin

text \<open>
  Tabs and loading (\<^verbatim>\<open>schema/form.go\<close> and the load functions of \<^verbatim>\<open>schema/schema.go\<close>): authored tabs
  are flattened into the storage fields and a form of layout items; the name of an Entity comes from
  its path, after validation.
\<close>

section \<open>The form layout\<close>

definition is_layout_field_type :: "string \<Rightarrow> bool" where
  "is_layout_field_type t \<longleftrightarrow> trim_space t = ''column'' \<or> trim_space t = ''section''"

definition layout_has_storage :: "field \<Rightarrow> bool" where
  "layout_has_storage f \<longleftrightarrow> is_layout_field_type (fd_type f) \<and>
     (fd_required f \<or> fd_unique f \<or> fd_index f \<or> fd_default f \<noteq> NoNode \<or> fd_check f \<noteq> None
      \<or> fd_fetch f \<noteq> None \<or> no_options (fd_options f) \<noteq> [])"

text \<open>One entry of a tab: the item it becomes and the storage field it declares, if any.\<close>

definition form_entry :: "string \<Rightarrow> string list \<Rightarrow> field \<Rightarrow> problem + form_item \<times> field option" where
  "form_entry label seen f =
     (if layout_has_storage f then Inl (fd_line f, ''layout markers cannot define storage field settings'', [])
      else if trim_space (fd_type f) = ''column''
      then Inr (\<lparr>fi_kind = ''column'', fi_name = [], fi_label = [], fi_description = []\<rparr>, None)
      else if trim_space (fd_type f) = ''section'' then
        (let section_label = trim_space (fd_label f)
         in if section_label = [] then Inl (fd_line f, ''tab %q section requires label'', [label])
            else Inr (\<lparr>fi_kind = ''section'', fi_name = trim_space (fd_name f), fi_label = section_label,
              fi_description = trim_space (fd_description f)\<rparr>, None))
      else
        (let name = trim_space (fd_name f)
         in if name = [] then Inl (fd_line f, ''tab %q field is missing name'', [label])
            else if name \<in> set seen then Inl (fd_line f, ''duplicate field %q across tabs'', [name])
            else Inr (\<lparr>fi_kind = ''field'', fi_name = name, fi_label = [], fi_description = []\<rparr>, Some f)))"

fun form_entries :: "string \<Rightarrow> string list \<Rightarrow> field list \<Rightarrow> problem + form_item list \<times> field list" where
  "form_entries label seen [] = Inr ([], [])"
| "form_entries label seen (f # fs) =
     bindR (form_entry label seen f) (\<lambda>(item, sto).
     bindR (form_entries label (case sto of None \<Rightarrow> seen | Some g \<Rightarrow> trim_space (fd_name g) # seen) fs) (\<lambda>(items, gs).
       Inr (item # items, (case sto of None \<Rightarrow> gs | Some g \<Rightarrow> g # gs))))"

definition form_tab_of :: "string list \<Rightarrow> string list \<Rightarrow> tab \<Rightarrow> problem + form_tab \<times> field list" where
  "form_tab_of seen_tabs seen t =
     (let label = trim_space (tb_label t); key = trim_space (tb_name t) in
      if label = [] then Inl (tb_line t, ''tab label is required'', [])
      else if key = [] then Inl (tb_line t, ''tab %q requires name'', [label])
      else if \<not> is_name key then Inl (tb_line t, ''tab name %q must be kebab-case'', [key])
      else if key \<in> set seen_tabs then Inl (tb_line t, ''duplicate tab name %q'', [key])
      else if tb_fields t = [] then Inl (tb_line t, ''tab %q requires fields'', [label])
      else bindR (form_entries label seen (tb_fields t)) (\<lambda>(items, fs).
        Inr (\<lparr>fm_key = key, fm_label = label, fm_icon = trim_space (tb_icon t), fm_items = items\<rparr>, fs)))"

fun form_tabs :: "string list \<Rightarrow> string list \<Rightarrow> tab list \<Rightarrow> problem + form_tab list \<times> field list" where
  "form_tabs seen_tabs seen [] = Inr ([], [])"
| "form_tabs seen_tabs seen (t # ts) =
     bindR (form_tab_of seen_tabs seen t) (\<lambda>(ft, fs).
     bindR (form_tabs (fm_key ft # seen_tabs) (map (trim_space \<circ> fd_name) fs @ seen) ts) (\<lambda>(fts, gs).
       Inr (ft # fts, fs @ gs)))"

definition normalize_form_layout :: "entity \<Rightarrow> problem + entity" where
  "normalize_form_layout e =
     (if en_tabs e = [] then Inr e
      else if en_fields e \<noteq> [] then Inl (0, ''entity cannot define both fields and tabs'', [])
      else bindR (form_tabs [] [] (en_tabs e)) (\<lambda>(fts, fs).
        if fs = [] then Inl (0, ''tabs must include at least one storage field'', [])
        else Inr (e\<lparr>en_fields := fs, en_form := Some fts, en_tabs := []\<rparr>)))"

section \<open>The name of an Entity\<close>

text \<open>\<^verbatim>\<open>filepath.Base\<close>, \<^verbatim>\<open>Dir\<close> and \<^verbatim>\<open>Ext\<close> on slash-separated paths.\<close>

definition path_base :: "string \<Rightarrow> string" where
  "path_base p =
     (if p = [] then ''.''
      else let s = rev (dropWhile (\<lambda>c. c = CHR ''/'') (rev p))
        in if s = [] then ''/'' else last (split_on (CHR ''/'') s))"

definition path_dir :: "string \<Rightarrow> string" where
  "path_dir p = path_clean (rev (dropWhile (\<lambda>c. c \<noteq> CHR ''/'') (rev p)))"

definition path_ext :: "string \<Rightarrow> string" where
  "path_ext p =
     (let b = last (split_on (CHR ''/'') p)
      in if CHR ''.'' \<in> set b then CHR ''.'' # last (split_on (CHR ''.'') b) else [])"

definition trim_suffix :: "string \<Rightarrow> string \<Rightarrow> string" where
  "trim_suffix s t = (if suffix t s then take (length s - length t) s else s)"

datatype name_problem = FilenameEmpty | FilenameNotKebab string

definition entity_name_from_path :: "string \<Rightarrow> name_problem + string" where
  "entity_name_from_path path =
     (let base = path_base path;
          name0 = (if suffix ''.entity.yml'' base then trim_suffix base ''.entity.yml'' else trim_suffix base (path_ext base));
          parent = path_base (path_dir path);
          name = (if name0 = ''entity'' \<and> parent \<noteq> [] \<and> parent \<noteq> ''.'' \<and> parent \<noteq> ''entities'' \<and> parent \<noteq> ''_collections''
                  then parent else name0)
      in if blank name then Inl FilenameEmpty
         else if \<not> is_name name then Inl (FilenameNotKebab base)
         else Inr name)"

section \<open>Loading\<close>

datatype load_error =
    FieldsAndTabs
  | FormInvalid problem
  | SchemaInvalid "problem list"
  | NameInvalid name_problem

text \<open>\<^verbatim>\<open>DecodeWithOptions\<close> after the YAML decoder: which of the two keys the document has comes from
  the source map.\<close>

definition decode_entity :: "type_registry \<Rightarrow> bool \<Rightarrow> bool \<Rightarrow> bool \<Rightarrow> entity \<Rightarrow> load_error + entity" where
  "decode_entity reg is_collection has_fields has_tabs e =
     (if has_fields \<and> has_tabs then Inl FieldsAndTabs
      else case normalize_form_layout (e\<lparr>en_is_collection := is_collection\<rparr>) of
        Inl p \<Rightarrow> Inl (FormInvalid p)
      | Inr e' \<Rightarrow> if validate_entity reg e' \<noteq> [] then Inl (SchemaInvalid (validate_entity reg e')) else Inr e')"

definition load_entity :: "type_registry \<Rightarrow> bool \<Rightarrow> bool \<Rightarrow> bool \<Rightarrow> entity \<Rightarrow> string \<Rightarrow> load_error + entity" where
  "load_entity reg is_collection has_fields has_tabs e path =
     bindR (decode_entity reg is_collection has_fields has_tabs e) (\<lambda>e'.
       case entity_name_from_path path of Inl p \<Rightarrow> Inl (NameInvalid p) | Inr n \<Rightarrow> Inr (e'\<lparr>en_name := n\<rparr>))"

end
