(* ===== verification/Naming_Guarantees.thy ===== *)
theory Naming_Guarantees
  imports Record_Naming
begin

text \<open>
  What the naming component promises: validated patterns render, a series name is its pattern with
  the counter in place, series names never repeat, and a validated format only asks for its tokens.
\<close>

section \<open>Padded decimals\<close>

lemma read_digits_zero: "read_digits (replicate k (CHR ''0'') @ s) = read_digits s"
proof (induction k)
  case (Suc k)
  have "digit_val (CHR ''0'') = 0" by code_simp
  then show ?case using Suc by (simp add: read_digits_def)
qed simp

lemma read_pad_nat: "read_digits (pad_nat w n) = n"
  by (simp add: pad_nat_def Let_def read_digits_zero read_show_nat)

lemma pad_nat_digits: "list_all is_digit (pad_nat w n) \<and> pad_nat w n \<noteq> []"
proof -
  have "is_digit (CHR ''0'')" by code_simp
  then show ?thesis using show_nat_digits [of n] by (auto simp: pad_nat_def Let_def list_all_iff)
qed

lemma not_digit: "\<not> is_digit (CHR ''-'')" "\<not> is_digit (CHR ''{'')" "\<not> is_digit (CHR ''}'')" "\<not> is_digit (CHR ''#'')"
  by code_simp+

lemma format_width_inj:
  assumes "format_width w a = format_width w b"
  shows "a = b"
proof -
  have hd_pad: "hd (pad_nat v n) \<noteq> CHR ''-''" "pad_nat v n \<noteq> []" for v n
    using pad_nat_digits [of v n] not_digit(1) by (cases "pad_nat v n"; auto)+
  show ?thesis
  proof (cases "a < 0"; cases "b < 0")
    assume "a < 0" "b < 0"
    with assms have "pad_nat (w - 1) (nat (- a)) = pad_nat (w - 1) (nat (- b))" by (simp add: format_width_def)
    then have "nat (- a) = nat (- b)" by (metis read_pad_nat)
    with \<open>a < 0\<close> \<open>b < 0\<close> show ?thesis by simp
  next
    assume "\<not> a < 0" "\<not> b < 0"
    with assms have "nat a = nat b" by (metis format_width_def read_pad_nat)
    with \<open>\<not> a < 0\<close> \<open>\<not> b < 0\<close> show ?thesis by simp
  qed (use assms hd_pad in \<open>fastforce simp: format_width_def dest: arg_cong [where f = hd]\<close>)+
qed

section \<open>Rendering a series pattern\<close>

lemma cut_None_iff: "cut s c = None \<longleftrightarrow> c \<notin> set s"
  by (simp add: cut_def index_byte_None_iff [symmetric] split: option.splits)

lemma pieces_Counter: "t \<noteq> [] \<Longrightarrow> list_all (\<lambda>x. x = CHR ''#'') t \<Longrightarrow> cut s (CHR ''}'') = Some (t, rest) \<Longrightarrow>
   pieces (CHR ''{'' # s) = Counter (length t) # pieces rest"
  by (cases t) (auto simp: match_token_def)

lemma series_loop_counts:
  "series_loop s = Inr n \<Longrightarrow> length (counter_widths (pieces s)) = n \<and> (\<forall>w\<in>set (counter_widths (pieces s)). 1 \<le> w)"
proof (induction s arbitrary: n rule: series_loop.induct)
  case (2 c s)
  show ?case
  proof (cases "c = CHR ''{''")
    case False
    then show ?thesis using 2 by (simp add: match_token_def)
  next
    case True
    then obtain t rest where cut: "cut s (CHR ''}'') = Some (t, rest)"
      using 2(4) by (auto split: option.splits)
    show ?thesis
    proof (cases "t = ''YY'' \<or> t = ''YYYY'' \<or> t = ''MM''")
      case dates: True
      then show ?thesis using 2(2) [of "(t, rest)" t rest] 2(4) True cut by (auto simp: match_token_def)
    next
      case False
      then have t: "t \<noteq> []" "list_all (\<lambda>x. x = CHR ''#'') t"
        using 2(4) True cut by (auto split: if_splits)
      from 2(4) True cut False t obtain k where k: "series_loop rest = Inr k" "n = k + 1"
        by (auto simp: bindR_Inr_iff)
      have "length (counter_widths (pieces rest)) = k \<and> (\<forall>w\<in>set (counter_widths (pieces rest)). 1 \<le> w)"
        using 2(3) [of "(t, rest)" t rest] True cut False t k(1) by simp
      then show ?thesis using pieces_Counter [OF t cut] True t(1) k(2) by (simp add: Suc_le_eq)
    qed
  qed
qed simp

text \<open>The placeholder appears in a rendered pattern first where the counter token is: date pieces
  render to digits, and a placeholder spelled by literals would have been a token.\<close>

lemma append_int_hd: "append_int w x = h # t \<Longrightarrow> h = CHR ''-'' \<or> is_digit h"
  using pad_nat_digits [of w "nat x"] by (auto simp: append_int_def list_all_iff split: if_splits)

lemma append_int_nonempty: "append_int w x \<noteq> []"
  using pad_nat_digits [of w "nat x"] by (simp add: append_int_def)

lemma append_int_no_brace: "CHR ''{'' \<notin> set (append_int w x)"
proof -
  have "CHR ''{'' \<notin> set (pad_nat w n)" for n
    using pad_nat_digits [of w n] not_digit(2) by (auto simp: list_all_iff)
  then show ?thesis by (simp add: append_int_def)
qed

lemma render_hd:
  assumes "concat (map (render_piece d) (pieces s)) = h # t" "h \<noteq> CHR ''{''" "h \<noteq> CHR ''-''" "\<not> is_digit h"
  shows "\<exists>u. s = h # u \<and> pieces s = Lit h # pieces u \<and> t = concat (map (render_piece d) (pieces u))"
proof (cases s)
  case (Cons c u)
  obtain y m k where d: "d = (y, m, k)" by (cases d)
  show ?thesis
  proof (cases "match_token (c # u)")
    case None
    then show ?thesis using assms Cons by simp
  next
    case (Some pr)
    then obtain p rest where pr: "match_token (c # u) = Some (p, rest)" by (cases pr) simp
    then have ps: "pieces s = p # pieces rest" using Cons by simp
    have "p = Year2 \<or> p = Year4 \<or> p = Month2 \<or> (\<exists>w. p = Counter w)"
      using pr by (auto simp: match_token_def split: if_splits option.splits)
    then have "\<exists>h' t'. render_piece d p = h' # t' \<and> (h' = CHR ''-'' \<or> is_digit h' \<or> h' = CHR ''{'')"
      using append_int_hd append_int_nonempty unfolding d
      by (elim disjE exE) (simp_all, (metis neq_Nil_conv)+)
    then show ?thesis using assms ps by auto
  qed
qed (use assms in simp)

lemma lit_no_placeholder:
  assumes "match_token (c # s) = None"
  shows "\<not> has_prefix (c # concat (map (render_piece d) (pieces s))) ''{#}''"
proof
  assume pre: "has_prefix (c # concat (map (render_piece d) (pieces s))) ''{#}''"
  then have c: "c = CHR ''{''" by simp
  from pre obtain r where r: "concat (map (render_piece d) (pieces s)) = CHR ''#'' # CHR ''}'' # r"
    by (auto simp: prefix_def)
  from render_hd [OF r] not_digit obtain u where u: "s = CHR ''#'' # u"
      "CHR ''}'' # r = concat (map (render_piece d) (pieces u))" by auto
  from render_hd [OF u(2) [symmetric]] not_digit obtain v where v: "u = CHR ''}'' # v" by auto
  have "match_token (c # s) = Some (Counter 1, v)"
    unfolding c u v by (simp add: match_token_def cut_def)
  with assms show False by simp
qed

lemma replace_skip:
  "CHR ''{'' \<notin> set a \<Longrightarrow> replace_first ''{#}'' x (a @ s) = a @ replace_first ''{#}'' x s"
  by (induction a) auto

definition final_piece :: "civil \<Rightarrow> string \<Rightarrow> piece \<Rightarrow> string" where
  "final_piece d x p = (case p of Counter w \<Rightarrow> x | _ \<Rightarrow> render_piece d p)"

lemma final_piece_Counter [simp]: "final_piece d x (Counter w) = x"
  by (simp add: final_piece_def)

lemma replace_rendered:
  "length (counter_widths (pieces s)) \<le> 1 \<Longrightarrow>
   replace_first ''{#}'' x (render_pieces d (pieces s)) = concat (map (final_piece d x) (pieces s))"
proof (induction s rule: pieces.induct)
  case (2 c s)
  obtain y m k where d: "d = (y, m, k)" by (cases d)
  show ?case
  proof (cases "match_token (c # s)")
    case None
    have "length (counter_widths (pieces s)) \<le> 1" using 2(3) None by simp
    from 2(1) [OF None this] None lit_no_placeholder [OF None, of d] show ?thesis
      by (auto simp: render_pieces_def final_piece_def)
  next
    case (Some pr)
    then obtain p rest where p: "match_token (c # s) = Some (p, rest)" by (cases pr) simp
    show ?thesis
    proof (cases p)
      case (Counter w)
      have none: "counter_widths (pieces rest) = []" using 2(3) p Counter by simp
      have same: "counter_widths ps = [] \<Longrightarrow>
          concat (map (render_piece d) ps) = concat (map (final_piece d x) ps)" for ps
        by (induction ps rule: counter_widths.induct) (simp_all add: final_piece_def)
      show ?thesis using p Counter same [OF none] by (simp add: render_pieces_def)
    next
      case (Lit l)
      then show ?thesis using p by (auto simp: match_token_def split: if_splits option.splits)
    qed (use 2(2) [OF p refl] 2(3) p append_int_no_brace replace_skip in
        \<open>simp_all add: render_pieces_def final_piece_def d\<close>)
  qed
qed (simp add: render_pieces_def)

lemma series_renders:
  assumes "validate_series_pattern (nm_pattern plan) = None" "trim_space (nm_strategy plan) = ''series''"
    and "\<not> blank (no_entity opts)" "no_series opts = Some step"
  shows "\<exists>w key. 1 \<le> w \<and> counter_widths (pieces (nm_pattern plan)) = [w] \<and>
    generate draw clock plan r opts st = bindR (step key (nm_pattern plan) st) (\<lambda>(n, st').
      Inr (concat (map (final_piece (naming_now clock opts) (format_width w n)) (pieces (nm_pattern plan))), st'))"
proof -
  from assms(1) have "series_loop (nm_pattern plan) = Inr 1"
    by (auto simp: validate_series_pattern_def split: sum.splits if_splits)
  from series_loop_counts [OF this] obtain w where w: "counter_widths (pieces (nm_pattern plan)) = [w]" "1 \<le> w"
    by (auto simp: length_Suc_conv)
  show ?thesis
    using w assms(2-4) replace_rendered [of "nm_pattern plan"]
    by (auto simp: generate_def normalize_plan_def default_length_def generate_series_name_def
        render_series_pattern_def Let_def intro!: exI [of _ w] exI)
qed

text \<open>For a plan whose series pattern was validated, generating a name fails only when the
  counter fails, and otherwise gives the pattern with its date tokens and, at the one counter token,
  the counter padded to the token's width.\<close>

theorem validated_series_renders:
  assumes "validate_series_pattern (nm_pattern plan) = None" "trim_space (nm_strategy plan) = ''series''"
    and "\<not> blank (no_entity opts)" "no_series opts = Some step"
  shows "\<exists>w key. 1 \<le> w \<and> counter_widths (pieces (nm_pattern plan)) = [w] \<and>
    generate draw clock plan r opts st = bindR (step key (nm_pattern plan) st) (\<lambda>(n, st').
      Inr (concat (map (final_piece (naming_now clock opts) (format_width w n)) (pieces (nm_pattern plan))), st'))"
  using assms by (rule series_renders)

section \<open>Series names never repeat\<close>

definition current_of :: "series_row list \<Rightarrow> string \<Rightarrow> int option" where
  "current_of rows k = map_option sn_current (find (\<lambda>r. sn_key r = k) rows)"

definition counters_grow :: "series_row list \<Rightarrow> series_row list \<Rightarrow> bool" where
  "counters_grow rows rows' \<longleftrightarrow>
     (\<forall>k c. current_of rows k = Some c \<longrightarrow> (\<exists>c'. current_of rows' k = Some c' \<and> c \<le> c'))"

lemma counters_grow_refl: "counters_grow rows rows"
  by (auto simp: counters_grow_def)

lemma find_append_new:
  "find P (xs @ [x]) = (case find P xs of Some y \<Rightarrow> Some y | None \<Rightarrow> if P x then Some x else None)"
  by (induction xs) auto

lemma find_raised:
  assumes "\<And>r. sn_key (f r) = sn_key r"
  shows "find (\<lambda>r. sn_key r = k) (update_where (\<lambda>r. sn_key r = key) f rows)
    = (if k = key then map_option f (find (\<lambda>r. sn_key r = k) rows) else find (\<lambda>r. sn_key r = k) rows)"
  by (induction rows) (auto simp: assms)

lemma next_series_step:
  assumes "next_series app entity eid key pattern rows = Inr (n, rows')"
  shows "current_of rows' key = Some n \<and> (\<forall>c. current_of rows key = Some c \<longrightarrow> c < n) \<and> counters_grow rows rows'"
proof (cases "find (\<lambda>r. sn_key r = key) rows")
  case None
  then have "rows' = rows @ [\<lparr>sn_entity = eid, sn_key = key, sn_pattern = pattern, sn_current = n\<rparr>]"
    using assms by (auto simp: next_series_def Let_def split: if_splits option.splits)
  then show ?thesis using None
    by (auto simp: current_of_def counters_grow_def find_append_new split: option.splits)
next
  case (Some r)
  let ?f = "\<lambda>r. r\<lparr>sn_current := sn_current r + 1\<rparr>"
  have "rows' = update_where (\<lambda>r. sn_key r = key) ?f rows" "n = sn_current r + 1"
    using assms Some by (auto simp: next_series_def Let_def split: if_splits)
  then show ?thesis using Some by (auto simp: current_of_def counters_grow_def find_raised)
qed

text \<open>A series name determines its counter and its key: at the same pattern, dates of four digit
  years render to texts of equal length.\<close>

definition plain_date :: "civil \<Rightarrow> bool" where
  "plain_date d = (case d of (y, m, k) \<Rightarrow> 0 \<le> y \<and> y < 10000 \<and> 1 \<le> m \<and> m \<le> 12)"

lemma show_nat_small: "n < 10 ^ k \<Longrightarrow> 0 < k \<Longrightarrow> length (show_nat n) \<le> k"
proof (induction k arbitrary: n)
  case (Suc k)
  show ?case
  proof (cases "n < 10")
    case False
    then have "0 < k" using Suc.prems by (cases k) auto
    moreover have "n div 10 < 10 ^ k" using Suc.prems(1) by (simp add: less_mult_imp_div_less mult.commute)
    ultimately show ?thesis using Suc.IH [of "n div 10"] False by (simp add: show_nat.simps [of n])
  qed (simp add: show_nat.simps [of n])
qed simp

lemma append_int_length: "0 \<le> x \<Longrightarrow> x < 10 ^ w \<Longrightarrow> 0 < w \<Longrightarrow> length (append_int w x) = w"
  using show_nat_small [of "nat x" w] by (simp add: append_int_def pad_nat_def Let_def nat_less_iff)

lemma final_piece_length:
  assumes "plain_date d" "plain_date d'" "counter_widths [p] = []"
  shows "length (final_piece d x p) = length (final_piece d' x' p)"
  using assms append_int_length [of _ 2] append_int_length [of _ 4]
  by (cases p; cases d; cases d') (auto simp: final_piece_def plain_date_def)

lemma counter_widths_Cons: "counter_widths (p # ps) = counter_widths [p] @ counter_widths ps"
  by (cases p) simp_all

lemma final_pieces_length:
  assumes "plain_date d" "plain_date d'" "counter_widths ps = []"
  shows "length (concat (map (final_piece d x) ps)) = length (concat (map (final_piece d' x') ps))"
  using assms(3)
proof (induction ps)
  case (Cons p ps)
  then have "counter_widths [p] = []" "counter_widths ps = []" by (metis append_is_Nil_conv counter_widths_Cons)+
  with Cons.IH final_piece_length [OF assms(1,2), of p x x'] show ?case by simp
qed simp

lemma final_no_counter: "counter_widths ps = [] \<Longrightarrow> concat (map (final_piece d x) ps) = render_pieces d ps"
  by (induction ps rule: counter_widths.induct) (simp_all add: final_piece_def render_pieces_def)

lemma render_Cons: "render_pieces d (p # ps) = render_piece d p @ render_pieces d ps"
  by (simp add: render_pieces_def)

lemma final_pieces_inj:
  assumes "plain_date d" "plain_date d'"
  shows "counter_widths ps = [w] \<Longrightarrow>
    concat (map (final_piece d x) ps) = concat (map (final_piece d' x') ps) \<Longrightarrow>
    x = x' \<and> render_pieces d ps = render_pieces d' ps"
proof (induction ps)
  case (Cons p ps)
  show ?case
  proof (cases "counter_widths [p]")
    case Nil
    then have "length (final_piece d x p) = length (final_piece d' x' p)"
      by (rule final_piece_length [OF assms])
    with Cons.prems(2) have "final_piece d x p = final_piece d' x' p"
      "concat (map (final_piece d x) ps) = concat (map (final_piece d' x') ps)" by auto
    moreover have "counter_widths ps = [w]" using Cons.prems(1) Nil by (metis append_Nil counter_widths_Cons)
    moreover have "final_piece d x p = render_piece d p" "final_piece d' x' p = render_piece d' p"
      using Nil by (cases p; simp add: final_piece_def)+
    ultimately show ?thesis using Cons.IH by (simp add: render_Cons)
  next
    case (Cons v vs)
    then have p: "p = Counter v" by (cases p) auto
    then have none: "counter_widths ps = []" using Cons.prems(1) by simp
    have "x @ concat (map (final_piece d x) ps) = x' @ concat (map (final_piece d' x') ps)"
      using Cons.prems(2) p by simp
    with final_pieces_length [OF assms none, of x x']
    have "x = x'" "concat (map (final_piece d x) ps) = concat (map (final_piece d' x') ps)" by auto
    then show ?thesis using p by (simp add: render_Cons final_no_counter [OF none])
  qed
qed simp

text \<open>A history of record creations: any Entities and plans, in any order; a failed creation
  rolls its transaction back.\<close>

record naming_request =
  rq_app :: string
  rq_entity :: string
  rq_id :: int
  rq_plan :: naming
  rq_clock :: instant

definition name_request :: "(nat \<Rightarrow> nat option) \<Rightarrow> resolver \<Rightarrow> naming_request \<Rightarrow> series_row list \<Rightarrow>
    naming_error + string \<times> series_row list" where
  "name_request draw f q rows =
     generate_record_name draw (rq_clock q) (rq_app q) (rq_entity q) (rq_id q) (rq_plan q) f rows"

fun name_history :: "(nat \<Rightarrow> nat option) \<Rightarrow> resolver \<Rightarrow> naming_request list \<Rightarrow> series_row list \<Rightarrow> string option list" where
  "name_history draw f [] rows = []"
| "name_history draw f (q # qs) rows =
     (case name_request draw f q rows of Inl e \<Rightarrow> None # name_history draw f qs rows
      | Inr (n, rows') \<Rightarrow> Some n # name_history draw f qs rows')"

definition series_request :: "string \<Rightarrow> string \<Rightarrow> string \<Rightarrow> naming_request \<Rightarrow> bool" where
  "series_request app entity pattern q \<longleftrightarrow> rq_app q = app \<and> rq_entity q = entity \<and> nm_pattern (rq_plan q) = pattern
     \<and> trim_space (nm_strategy (rq_plan q)) = ''series'' \<and> plain_date (utc_date (rq_clock q))"

lemma name_request_grows: "name_request draw f q rows = Inr (n, rows') \<Longrightarrow> counters_grow rows rows'"
  using counters_grow_refl next_series_step
  by (auto simp: name_request_def generate_record_name_def generate_def generate_series_name_def Let_def
      bindR_Inr_iff no_naming_options_def split: if_splits)

definition series_key :: "string \<Rightarrow> string \<Rightarrow> nat \<Rightarrow> string \<Rightarrow> civil \<Rightarrow> string" where
  "series_key app entity w pattern d = record_identity_name app entity @ '':'' @
     replace_first ''{#}'' (''{'' @ replicate w (CHR ''#'') @ ''}'') (render_pieces d (pieces pattern))"

definition names_at :: "string \<Rightarrow> string \<Rightarrow> string \<Rightarrow> nat \<Rightarrow> civil \<Rightarrow> int \<Rightarrow> string \<Rightarrow> bool" where
  "names_at app entity pattern w d n a \<longleftrightarrow> counter_widths (pieces pattern) = [w] \<and> plain_date d
     \<and> a = concat (map (final_piece d (format_width w n)) (pieces pattern))"

lemma name_request_series:
  assumes "name_request draw f q rows = Inr (a, rows')" "series_request app entity pattern q"
  shows "\<exists>w n. names_at app entity pattern w (utc_date (rq_clock q)) n a
     \<and> current_of rows' (series_key app entity w pattern (utc_date (rq_clock q))) = Some n
     \<and> (\<forall>c. current_of rows (series_key app entity w pattern (utc_date (rq_clock q))) = Some c \<longrightarrow> c < n)"
proof -
  let ?d = "utc_date (rq_clock q)"
  from assms obtain w n where w: "counter_widths (pieces pattern) = [w]"
    and st: "next_series app entity (rq_id q) (series_key app entity w pattern ?d) pattern rows = Inr (n, rows')"
    and a: "a = replace_first ''{#}'' (format_width w n) (render_pieces ?d (pieces pattern))"
    by (auto simp: name_request_def generate_record_name_def generate_def generate_series_name_def Let_def
        bindR_Inr_iff no_naming_options_def normalize_plan_def default_length_def series_request_def
        render_series_pattern_def naming_now_def series_key_def split: if_splits list.splits)
  have "a = concat (map (final_piece ?d (format_width w n)) (pieces pattern))"
    using a replace_rendered [of pattern] w by simp
  with next_series_step [OF st] w assms(2) show ?thesis
    by (intro exI [of _ w] exI [of _ n]) (auto simp: names_at_def series_request_def)
qed

lemma names_at_inj:
  assumes "names_at app entity pattern w d n a" "names_at app entity pattern w' d' n' a"
  shows "w' = w \<and> n' = n \<and> series_key app entity w' pattern d' = series_key app entity w pattern d"
proof -
  have w: "counter_widths (pieces pattern) = [w]" "w' = w" using assms by (auto simp: names_at_def)
  have "format_width w n = format_width w n' \<and> render_pieces d (pieces pattern) = render_pieces d' (pieces pattern)"
    using assms w by (intro final_pieces_inj [OF _ _ w(1)]) (auto simp: names_at_def)
  with format_width_inj w(2) show ?thesis by (auto simp: series_key_def)
qed

lemma later_names_exceed:
  assumes "current_of rows k = Some c" "j < length qs" "series_request app entity pattern (qs ! j)"
    "name_history draw f qs rows ! j = Some b"
  shows "\<exists>w d n. names_at app entity pattern w d n b \<and> (series_key app entity w pattern d = k \<longrightarrow> c < n)"
  using assms
proof (induction qs arbitrary: rows c j)
  case (Cons q qs)
  show ?case
  proof (cases "name_request draw f q rows")
    case (Inl e)
    with Cons.prems Cons.IH [of rows c "j - 1"] show ?thesis by (cases j) auto
  next
    case (Inr p)
    then obtain a rows' where p: "name_request draw f q rows = Inr (a, rows')" by (cases p) auto
    from name_request_grows [OF p] Cons.prems(1) obtain c' where c': "current_of rows' k = Some c'" "c \<le> c'"
      by (auto simp: counters_grow_def)
    show ?thesis
    proof (cases j)
      case 0
      then have "b = a" "series_request app entity pattern q" using Cons.prems p by simp_all
      with name_request_series [OF p] Cons.prems(1) show ?thesis by metis
    next
      case (Suc i)
      then show ?thesis using Cons.IH [OF c'(1), of i] Cons.prems p c'(2) by fastforce
    qed
  qed
qed simp

text \<open>C15: whatever records are created in between, two names drawn from the series of one Entity with
  one pattern are never equal, also across the periods of a date token.\<close>

theorem series_names_never_repeat:
  assumes "i < j" "j < length qs"
    and "series_request app entity pattern (qs ! i)" "series_request app entity pattern (qs ! j)"
    and "name_history draw f qs rows ! i = Some a" "name_history draw f qs rows ! j = Some b"
  shows "a \<noteq> b"
  using assms
proof (induction qs arbitrary: rows i j)
  case (Cons q qs)
  show ?case
  proof (cases "name_request draw f q rows")
    case (Inl e)
    with Cons.prems Cons.IH [of "i - 1" "j - 1" rows] show ?thesis by (cases i; cases j) auto
  next
    case (Inr p)
    then obtain a' rows' where p: "name_request draw f q rows = Inr (a', rows')" by (cases p) auto
    obtain j' where j: "j = Suc j'" using Cons.prems(1) by (cases j) auto
    show ?thesis
    proof (cases i)
      case 0
      then have "a = a'" and q: "series_request app entity pattern q" using Cons.prems p by simp_all
      then obtain w n where a: "names_at app entity pattern w (utc_date (rq_clock q)) n a"
        and cur: "current_of rows' (series_key app entity w pattern (utc_date (rq_clock q))) = Some n"
        using name_request_series [OF p q] by blast
      have "j' < length qs" "series_request app entity pattern (qs ! j')" "name_history draw f qs rows' ! j' = Some b"
        using Cons.prems p j by simp_all
      from later_names_exceed [OF cur this] names_at_inj [OF a] show ?thesis by blast
    next
      case (Suc i')
      then show ?thesis using Cons.IH [of i' j' rows'] Cons.prems p j by simp
    qed
  qed
qed simp

definition sample_plan :: naming where
  "sample_plan = no_naming\<lparr>nm_strategy := ''series'', nm_pattern := ''SINV-{YYYY}-{MM}-{#####}''\<rparr>"

definition sample_request :: "instant \<Rightarrow> naming_request" where
  "sample_request t = \<lparr>rq_app = ''sales'', rq_entity = ''invoice'', rq_id = 3, rq_plan = sample_plan, rq_clock = t\<rparr>"

definition sample_history :: "string option list" where
  "sample_history = name_history (\<lambda>i. None) (\<lambda>t. Inl (ValueUnavailable t))
     [sample_request 1778371200000000000, sample_request 1778371200000000001, sample_request 1781049600000000000] []"

lemma sample_names:
  "sample_history = [Some ''SINV-2026-05-00001'', Some ''SINV-2026-05-00002'', Some ''SINV-2026-06-00001'']"
  by code_simp

theorem series_names_never_repeat_witness: "''SINV-2026-05-00001'' \<noteq> ''SINV-2026-06-00001''"
proof (rule series_names_never_repeat [of 0 2])
  let ?qs = "[sample_request 1778371200000000000, sample_request 1778371200000000001, sample_request 1781049600000000000]"
  let ?h = "name_history (\<lambda>i. None) (\<lambda>t. Inl (ValueUnavailable t)) ?qs []"
  show "2 < length ?qs" by simp
  show "series_request ''sales'' ''invoice'' ''SINV-{YYYY}-{MM}-{#####}'' (?qs ! 0)"
    "series_request ''sales'' ''invoice'' ''SINV-{YYYY}-{MM}-{#####}'' (?qs ! 2)" by code_simp+
  show "?h ! 0 = Some ''SINV-2026-05-00001''" "?h ! 2 = Some ''SINV-2026-06-00001''"
    using sample_names by (simp_all add: sample_history_def)
qed simp

theorem validated_series_renders_witness:
  "\<exists>w key. 1 \<le> w \<and> counter_widths (pieces ''SINV-{YYYY}-{MM}-{#####}'') = [w] \<and>
    generate (\<lambda>i. None) 0 sample_plan None
      (no_naming_options\<lparr>no_entity := ''sales/invoice'', no_series := Some (next_series ''sales'' ''invoice'' 3)\<rparr>) []
    = bindR (next_series ''sales'' ''invoice'' 3 key ''SINV-{YYYY}-{MM}-{#####}'' []) (\<lambda>(n, st').
        Inr (concat (map (final_piece (1970, 1, 1) (format_width w n)) (pieces ''SINV-{YYYY}-{MM}-{#####}'')), st'))"
proof -
  let ?opts = "no_naming_options\<lparr>no_entity := ''sales/invoice'', no_series := Some (next_series ''sales'' ''invoice'' 3)\<rparr>"
  have v: "validate_series_pattern (nm_pattern sample_plan) = None" by code_simp
  have t: "trim_space (nm_strategy sample_plan) = ''series''" by code_simp
  have b: "\<not> blank (no_entity ?opts)" by code_simp
  have n: "no_series ?opts = Some (next_series ''sales'' ''invoice'' 3)" by simp
  have now: "naming_now 0 ?opts = (1970, 1, 1)" by code_simp
  have pat: "nm_pattern sample_plan = ''SINV-{YYYY}-{MM}-{#####}''" by (simp add: sample_plan_def)
  from validated_series_renders [OF v t b n, where draw = "\<lambda>i. None" and clock = 0 and r = None and st = "[]"]
  show ?thesis unfolding now pat .
qed

section \<open>Formats and random names\<close>

lemma format_tokens_render:
  assumes "naming_format_tokens fmt = Inr toks"
  shows "(\<forall>e. render_loop f fmt = Inl e \<longrightarrow> (\<exists>t\<in>set toks. f t = Inl e)) \<and> list_all is_name toks"
  using assms
proof (induction fmt arbitrary: toks rule: naming_format_tokens.induct)
  case (2 c s)
  then show ?case
    by (cases "c = CHR ''{''")
      (force simp: bindR_Inr_iff bindR_Inl_iff split: option.splits if_splits)+
qed simp

lemma random_name_shape:
  assumes "random_name draw len = Inr s" "\<forall>i n. draw i = Some n \<longrightarrow> n < 58"
  shows "0 \<le> len \<and> int (length s) = len \<and> set s \<subseteq> set alphabet"
proof -
  have l: "length alphabet = 58" by code_simp
  from assms(1) have "0 \<le> len" and m: "list_all2 (\<lambda>i c. (case draw i of None \<Rightarrow> Inl RandomFailed | Some n \<Rightarrow> Inr (alphabet ! n)) = Inr c)
      [0..<nat len] s"
    by (auto simp: random_name_def mapR_Inr_iff split: if_splits)
  moreover have "c \<in> set alphabet" if c: "c \<in> set s" for c
  proof -
    from c obtain k where k: "k < length s" "c = s ! k" by (metis in_set_conv_nth)
    with m obtain n where "draw k = Some n" "c = alphabet ! n"
      by (auto simp: list_all2_conv_all_nth split: option.splits)
    with assms(2) l show ?thesis by auto
  qed
  ultimately show ?thesis by (auto dest: list_all2_lengthD)
qed

end
