(* ===== verification/Schema_Guarantees.thy ===== *)
theory Schema_Guarantees
  imports Entity_Form Naming_Guarantees
begin

text \<open>
  What validation of an Entity guarantees: well-formed fields, references that resolve, a naming plan
  that always produces a name, and a form that shows every storage field once.
\<close>

section \<open>Fields\<close>

lemma validate_entity_parts:
  assumes "validate_entity reg e = []"
  shows "validate_entity_header e = []" "validate_fields reg e [] (en_fields e) = []"
    "validate_indexes (field_map (en_fields e)) (field_types reg (en_fields e)) e = []"
    "validate_constraints (field_map (en_fields e)) (field_types reg (en_fields e)) e = []"
    "validate_naming_presence e = []"
    "validate_naming (field_map (en_fields e)) (field_types reg (en_fields e)) e = []"
    "validate_tree (field_map (en_fields e)) e = []"
    "validate_private_owner (field_map (en_fields e)) e = []"
  using assms by (simp_all add: validate_entity_def Let_def)

lemma validate_field_name:
  assumes "validate_field_in reg e seen f = []"
  shows "is_name (fd_name f) \<and> fd_name f \<notin> set seen \<and> (fd_name f \<noteq> ''name'' \<longrightarrow> \<not> is_reserved_field (fd_name f))"
  using assms by (auto simp: validate_field_in_def validate_field_def Let_def split: if_splits)

lemma validate_fields_sound:
  assumes "validate_fields reg e seen fs = []"
  shows "distinct (map fd_name fs) \<and> (\<forall>f\<in>set fs. fd_name f \<notin> set seen \<and> (\<exists>s. validate_field_in reg e s f = []))"
  using assms
proof (induction fs arbitrary: seen)
  case (Cons f fs)
  then have f: "validate_field_in reg e seen f = []" by simp
  from validate_field_name [OF f] is_name_nonempty
  have "fd_name f \<noteq> []" "fd_name f \<notin> set seen" by blast+
  with Cons f show ?case by fastforce
qed simp

lemma field_map_iff:
  assumes "distinct (map fd_name fs)" "\<forall>f\<in>set fs. fd_name f \<noteq> []"
  shows "field_map fs n = Some f \<longleftrightarrow> f \<in> set fs \<and> fd_name f = n"
proof -
  have all: "filter (\<lambda>f. fd_name f \<noteq> []) fs = fs" using assms(2) by simp
  have "distinct (map fst (rev (map (\<lambda>f. (fd_name f, f)) fs)))"
    using assms(1) by (simp add: rev_map [symmetric] comp_def)
  from map_of_eq_Some_iff [OF this] show ?thesis by (auto simp: field_map_def all)
qed

lemma field_types_iff:
  assumes "distinct (map fd_name fs)" "\<forall>f\<in>set fs. fd_name f \<noteq> []"
  shows "field_types reg fs n = Some d \<longleftrightarrow> (\<exists>f\<in>set fs. fd_name f = n \<and> get_type reg (fd_type f) = Some d)"
proof -
  let ?one = "\<lambda>f. case get_type reg (fd_type f) of None \<Rightarrow> [] | Some d \<Rightarrow> [(fd_name f, d)]"
  have all: "filter (\<lambda>f. fd_name f \<noteq> []) fs = fs" using assms(2) by simp
  have "map fst (concat (map ?one fs)) = map fd_name (filter (\<lambda>f. get_type reg (fd_type f) \<noteq> None) fs)"
    by (induction fs) (auto split: option.splits)
  then have "distinct (map fst (rev (concat (map ?one fs))))"
    using distinct_map_filter_imp [OF assms(1)] by (simp add: rev_map [symmetric] del: map_concat)
  from map_of_eq_Some_iff [OF this]
  have "field_types reg fs n = Some d \<longleftrightarrow> (n, d) \<in> set (concat (map ?one fs))"
    by (simp only: field_types_def all set_rev)
  also have "\<dots> \<longleftrightarrow> (\<exists>f\<in>set fs. (n, d) \<in> set (?one f))" by simp
  also have "\<dots> \<longleftrightarrow> (\<exists>f\<in>set fs. fd_name f = n \<and> get_type reg (fd_type f) = Some d)"
    by (rule bex_cong) (auto split: option.splits)
  finally show ?thesis .
qed

definition field_ok :: "type_registry \<Rightarrow> field \<Rightarrow> bool" where
  "field_ok reg f \<longleftrightarrow> is_name (fd_name f) \<and> fd_name f \<noteq> ''name'' \<and> \<not> is_reserved_field (fd_name f)
     \<and> (\<exists>d. get_type reg (fd_type f) = Some d \<and> ft_validate d (fd_options f) = []
          \<and> (fd_required f \<longrightarrow> ft_allow_required d) \<and> (fd_unique f \<longrightarrow> ft_allow_unique d)
          \<and> (fd_index f \<longrightarrow> ft_allow_index d) \<and> (fd_default f \<noteq> NoNode \<longrightarrow> ft_allow_default d)
          \<and> (fd_check f \<noteq> None \<longrightarrow> bh_checkable (ft_behavior d)))"

lemma validate_field_type_ok:
  assumes "validate_field_in reg e seen f = []"
  shows "\<exists>d. get_type reg (fd_type f) = Some d \<and> ft_validate d (fd_options f) = []
    \<and> (fd_required f \<longrightarrow> ft_allow_required d) \<and> (fd_unique f \<longrightarrow> ft_allow_unique d)
    \<and> (fd_index f \<longrightarrow> ft_allow_index d) \<and> (fd_default f \<noteq> NoNode \<longrightarrow> ft_allow_default d)
    \<and> (fd_check f \<noteq> None \<longrightarrow> bh_checkable (ft_behavior d))"
proof -
  obtain label where "validate_field_type reg f label = []"
    using assms by (auto simp: validate_field_in_def validate_field_def Let_def)
  then show ?thesis
    by (auto simp: validate_field_type_def Let_def split: if_splits option.splits)
qed

lemma validated_fields_parts:
  assumes "validate_entity reg e = []"
  shows "en_fields e \<noteq> [] \<and> distinct (map fd_name (en_fields e)) \<and> (\<forall>f\<in>set (en_fields e). field_ok reg f)"
proof -
  note parts = validate_entity_parts [OF assms]
  note fs = validate_fields_sound [OF parts(2)]
  have names: "\<forall>f\<in>set (en_fields e). fd_name f \<noteq> []"
    using fs validate_field_name is_name_nonempty by blast
  have no_name: "field_map (en_fields e) ''name'' = None"
    using parts(6) by (auto simp: validate_naming_def split: option.splits)
  have "field_ok reg f" if f: "f \<in> set (en_fields e)" for f
  proof -
    obtain s where s: "validate_field_in reg e s f = []" using fs f by blast
    have "fd_name f \<noteq> ''name''"
      using no_name f field_map_iff [of "en_fields e" "''name''" f] fs names by auto
    with validate_field_name [OF s] validate_field_type_ok [OF s] show ?thesis by (auto simp: field_ok_def)
  qed
  then show ?thesis using parts(1) fs by (auto simp: validate_entity_header_def)
qed

text \<open>C16: an Entity that passes validation has at least one field; its field names are distinct, kebab-case
  and not reserved, and each field has a registered type that allows its options and everything it
  declares.\<close>

theorem validated_fields_sound:
  assumes "validate_entity reg e = []"
  shows "en_fields e \<noteq> [] \<and> distinct (map fd_name (en_fields e)) \<and> (\<forall>f\<in>set (en_fields e). field_ok reg f)"
  using assms by (rule validated_fields_parts)

lemma entity_maps:
  assumes "validate_entity reg e = []"
  shows "field_map (en_fields e) n = Some f \<longleftrightarrow> f \<in> set (en_fields e) \<and> fd_name f = n"
    and "field_types reg (en_fields e) n = Some d \<longleftrightarrow>
      (\<exists>f\<in>set (en_fields e). fd_name f = n \<and> get_type reg (fd_type f) = Some d)"
proof -
  have "distinct (map fd_name (en_fields e))" "\<forall>f\<in>set (en_fields e). fd_name f \<noteq> []"
    using validated_fields_parts [OF assms] is_name_nonempty by (auto simp: field_ok_def)
  then show "field_map (en_fields e) n = Some f \<longleftrightarrow> f \<in> set (en_fields e) \<and> fd_name f = n"
    and "field_types reg (en_fields e) n = Some d \<longleftrightarrow>
      (\<exists>f\<in>set (en_fields e). fd_name f = n \<and> get_type reg (fd_type f) = Some d)"
    by (simp_all add: field_map_iff field_types_iff)
qed

section \<open>References\<close>

lemma graphic_last_not_blank:
  assumes "s \<noteq> []" "graphic (last s)"
  shows "\<not> blank s"
proof -
  have left: "trim_left s \<noteq> [] \<and> last (trim_left s) = last s" using assms
  proof (induction s rule: trim_left.induct)
    case (1 s)
    show ?case
    proof (cases "front_space s")
      case None
      then show ?thesis using 1(2) by (simp add: trim_left.simps [of s])
    next
      case (Some r)
      then have r: "r \<in> set space_runes" "prefix r s" by (auto simp: front_space_def dest: find_SomeD)
      then have "r \<noteq> s" using space_runes_last 1(3) by blast
      with r(2) obtain zs where "s = r @ zs" "zs \<noteq> []" by (auto simp: prefix_def)
      then have d: "drop (length r) s \<noteq> []" "last (drop (length r) s) = last s" by simp_all
      with 1(1) [OF Some] 1(3) Some show ?thesis by (simp add: trim_left.simps [of s])
    qed
  qed
  have "\<not> suffix r (trim_left s)" if "r \<in> set space_runes" for r
    using left assms(2) space_runes_last [OF that] space_runes_nonempty [OF that]
    by (auto simp: suffix_def)
  then have "back_space (trim_left s) = None" by (simp add: back_space_def find_None_iff)
  then show ?thesis using left by (simp add: trim_space_def trim_right.simps [of "trim_left s"])
qed

lemma join_last: "ps \<noteq> [] \<Longrightarrow> last ps \<noteq> [] \<Longrightarrow> join sep ps \<noteq> [] \<and> last (join sep ps) = last (last ps)"
  by (induction ps rule: induct_list012) (auto simp: join_Cons)

lemma join_not_blank: "graphic (last t) \<Longrightarrow> t \<noteq> [] \<Longrightarrow> \<not> blank (join sep (ps @ [t]))"
  using join_last [of "ps @ [t]" sep] by (intro graphic_last_not_blank) auto

lemma index_effective_name_not_blank: "\<not> blank (index_effective_name e i)"
  using join_not_blank [of "''idx''" "''-''" "en_name e # ix_fields i"]
  by (simp add: index_effective_name_def graphic_def)

text \<open>A reference list without problems names distinct declared fields whose type allows the use.\<close>

definition refs_ok :: "type_registry \<Rightarrow> entity \<Rightarrow> (field_type \<Rightarrow> bool) \<Rightarrow> string list \<Rightarrow> bool" where
  "refs_ok reg e allowed rs \<longleftrightarrow> distinct rs \<and> (\<forall>r\<in>set rs. \<exists>f\<in>set (en_fields e). fd_name f = r \<and>
     (\<exists>d. get_type reg (fd_type f) = Some d \<and> allowed d))"

lemma validate_field_references_sound:
  assumes "validate_field_references line owner fm tm allowed capability seen rs = []"
  shows "distinct rs \<and> set rs \<inter> set seen = {} \<and> (\<forall>r\<in>set rs. is_name r \<and> ref_problem line owner fm tm allowed capability r = [])"
  using assms
proof (induction rs arbitrary: seen)
  case (Cons r rs)
  from Cons.prems have "r \<notin> set seen" "is_name r" "ref_problem line owner fm tm allowed capability r = []"
    "validate_field_references line owner fm tm allowed capability (r # seen) rs = []"
    by (auto split: if_splits)
  with Cons.IH [of "r # seen"] show ?case by auto
qed simp

lemma refs_resolve:
  assumes "validate_entity reg e = []"
    and "validate_field_references line owner (field_map (en_fields e)) (field_types reg (en_fields e)) allowed capability [] rs = []"
  shows "refs_ok reg e allowed rs"
proof -
  have "\<exists>f\<in>set (en_fields e). fd_name f = r \<and> (\<exists>d. get_type reg (fd_type f) = Some d \<and> allowed d)"
    if "r \<in> set rs" for r
  proof -
    have "ref_problem line owner (field_map (en_fields e)) (field_types reg (en_fields e)) allowed capability r = []"
      using validate_field_references_sound [OF assms(2)] that by blast
    then obtain d where "field_types reg (en_fields e) r = Some d" "allowed d"
      by (auto simp: ref_problem_def split: option.splits)
    then show ?thesis using entity_maps(2) [OF assms(1)] by blast
  qed
  with validate_field_references_sound [OF assms(2)] show ?thesis by (auto simp: refs_ok_def)
qed

lemma validate_indexes_sound:
  assumes "validate_indexes_loop fm tm e names defs is = []"
  shows "distinct (map (index_effective_name e) is) \<and> set (map (index_effective_name e) is) \<inter> set names = {}
    \<and> distinct (map (\<lambda>i. join nul (ix_fields i)) (filter (\<lambda>i. join nul (ix_fields i) \<noteq> []) is))
    \<and> (\<forall>i\<in>set is. (join nul (ix_fields i) \<noteq> [] \<longrightarrow> join nul (ix_fields i) \<notin> set defs) \<and> index_problems fm tm i = [])"
  using assms
proof (induction "is" arbitrary: names defs)
  case (Cons i "is")
  let ?key = "join nul (ix_fields i)"
  have i: "index_problems fm tm i = []" "index_effective_name e i \<notin> set names" "?key \<noteq> [] \<longrightarrow> ?key \<notin> set defs"
    and rest: "validate_indexes_loop fm tm e (index_effective_name e i # names)
      (if ?key = [] then defs else ?key # defs) is = []"
    using Cons.prems index_effective_name_not_blank [of e i] by (auto simp: Let_def)
  from Cons.IH [OF rest] i show ?case by (cases "?key = []") auto
qed simp

lemma validated_indexes:
  assumes "validate_entity reg e = []"
  shows "(\<forall>i\<in>set (en_indexes e). ix_fields i \<noteq> [] \<and> refs_ok reg e ft_allow_index (ix_fields i))
    \<and> distinct (map (index_effective_name e) (en_indexes e)) \<and> distinct (map ix_fields (en_indexes e))"
proof -
  note sound = validate_indexes_sound [OF validate_entity_parts(3) [OF assms, unfolded validate_indexes_def]]
  have refs: "ix_fields i \<noteq> []" "refs_ok reg e ft_allow_index (ix_fields i)" if "i \<in> set (en_indexes e)" for i
    using sound that refs_resolve [OF assms] by (auto simp: index_problems_def)
  have names: "\<forall>f\<in>set (en_fields e). is_name (fd_name f)"
    using validated_fields_parts [OF assms] by (simp add: field_ok_def)
  have key: "join nul (ix_fields i) \<noteq> []" if i: "i \<in> set (en_indexes e)" for i
  proof -
    obtain r rs where "ix_fields i = r # rs" using refs(1) [OF i] by (cases "ix_fields i") auto
    moreover from this refs(2) [OF i] names is_name_nonempty have "r \<noteq> []" by (fastforce simp: refs_ok_def)
    ultimately show ?thesis by (cases rs) auto
  qed
  have all: "filter (\<lambda>i. join nul (ix_fields i) \<noteq> []) (en_indexes e) = en_indexes e" using key by simp
  have "distinct (map (join nul) (map ix_fields (en_indexes e)))" using sound all by (simp add: comp_def)
  then have "distinct (map ix_fields (en_indexes e))" by (simp only: distinct_map)
  with refs sound show ?thesis by blast
qed

text \<open>A check compares with a scalar other than null, or with a non-empty list of such scalars.\<close>

definition check_value_ok :: "string \<Rightarrow> node \<Rightarrow> bool" where
  "check_value_ok operator v \<longleftrightarrow>
     (if operator = ''in'' \<or> operator = ''not-in''
      then (\<exists>items. v = Sequence items \<and> items \<noteq> [] \<and> (\<forall>x\<in>set items. is_scalar x \<and> \<not> is_null x))
      else is_scalar v \<and> \<not> is_null v)"

lemma check_items_sound: "check_items line owner xs = [] \<Longrightarrow> \<forall>x\<in>set xs. is_scalar x \<and> \<not> is_null x"
  by (induction xs) (auto split: if_splits)

lemma validate_check_rule_sound:
  assumes "validate_check_rule line owner operator v = []"
  shows "operator \<in> set check_operators \<and> check_value_ok operator v"
proof (cases "operator = ''in'' \<or> operator = ''not-in''")
  case True
  then show ?thesis using assms check_items_sound
    by (cases v) (auto simp: validate_check_rule_def validate_check_value_def check_value_ok_def split: if_splits)
next
  case False
  then show ?thesis using assms
    by (simp add: validate_check_rule_def validate_check_value_def check_value_ok_def split: if_splits)
qed

definition constraint_ok :: "type_registry \<Rightarrow> entity \<Rightarrow> constraint \<Rightarrow> bool" where
  "constraint_ok reg e c \<longleftrightarrow>
     cn_type c = ''unique'' \<and> 2 \<le> length (cn_fields c) \<and> refs_ok reg e ft_allow_unique (cn_fields c)
     \<or> cn_type c = ''exactly-one'' \<and> 2 \<le> length (cn_fields c) \<and> refs_ok reg e (\<lambda>d. bh_stored (ft_behavior d)) (cn_fields c)
     \<or> cn_type c = ''check'' \<and> refs_ok reg e (\<lambda>d. bh_checkable (ft_behavior d)) [cn_field c]
        \<and> cn_operator c \<in> set check_operators \<and> check_value_ok (cn_operator c) (cn_value c)"

lemma check_field_resolves:
  assumes "validate_entity reg e = []"
    and "check_field_problems (field_map (en_fields e)) (field_types reg (en_fields e)) c = []"
  shows "refs_ok reg e (\<lambda>d. bh_checkable (ft_behavior d)) [cn_field c]"
proof -
  obtain d where "field_types reg (en_fields e) (cn_field c) = Some d" "bh_checkable (ft_behavior d)"
    using assms(2) by (auto simp: check_field_problems_def Let_def split: if_splits option.splits)
  then show ?thesis using entity_maps(2) [OF assms(1)] by (auto simp: refs_ok_def)
qed

lemma constraint_body_ok:
  assumes "validate_entity reg e = []"
    and "fst (constraint_body (field_map (en_fields e)) (field_types reg (en_fields e)) defs c) = []"
  shows "constraint_ok reg e c"
proof -
  let ?fm = "field_map (en_fields e)" and ?tm = "field_types reg (en_fields e)"
  consider "cn_type c = ''unique''" "fst (validate_unique_constraint ?fm ?tm defs c) = []"
    | "cn_type c = ''check''" "fst (validate_check_constraint ?fm ?tm defs c) = []"
    | "cn_type c = ''exactly-one''" "fst (validate_exactly_one_constraint ?fm ?tm defs c) = []"
    using assms(2) by (auto simp: constraint_body_def split: if_splits)
  then show ?thesis
  proof cases
    case 1
    then have "2 \<le> length (cn_fields c)" "refs_ok reg e ft_allow_unique (cn_fields c)"
      using refs_resolve [OF assms(1)] by (auto simp: validate_unique_constraint_def Let_def)
    with 1(1) show ?thesis by (simp add: constraint_ok_def)
  next
    case 2
    then have "check_field_problems ?fm ?tm c = []"
      "validate_check_rule (cn_line c) ''check constraint'' (cn_operator c) (cn_value c) = []"
      by (simp_all add: validate_check_constraint_def Let_def)
    with 2(1) check_field_resolves [OF assms(1)] validate_check_rule_sound show ?thesis
      by (simp add: constraint_ok_def)
  next
    case 3
    then have "2 \<le> length (cn_fields c)" "refs_ok reg e (\<lambda>d. bh_stored (ft_behavior d)) (cn_fields c)"
      using refs_resolve [OF assms(1)] by (auto simp: validate_exactly_one_constraint_def Let_def)
    with 3(1) show ?thesis by (simp add: constraint_ok_def)
  qed
qed

lemma constraint_effective_name_not_blank: "\<not> blank (constraint_effective_name e c)"
  using join_not_blank [of "''key''" "''-''" "en_name e # cn_fields c"]
    join_not_blank [of "''exactly-one''" "''-''" "en_name e # cn_fields c"]
    join_not_blank [of "''check''" "''-''" "[en_name e, cn_field c, cn_operator c]"]
    join_not_blank [of "''constraint''" "''-''" "[en_name e]"]
  by (simp add: constraint_effective_name_def graphic_def)

lemma validate_constraints_sound:
  assumes "validate_constraints_loop fm tm e names defs cs = []"
  shows "distinct (map (constraint_effective_name e) cs) \<and> set (map (constraint_effective_name e) cs) \<inter> set names = {}
    \<and> (\<forall>c\<in>set cs. \<exists>defs. fst (constraint_body fm tm defs c) = [])"
  using assms
proof (induction cs arbitrary: names defs)
  case (Cons c cs)
  obtain ps defs' where b: "constraint_body fm tm defs c = (ps, defs')" by fastforce
  have c: "ps = []" "constraint_effective_name e c \<notin> set names"
    and rest: "validate_constraints_loop fm tm e (constraint_effective_name e c # names) defs' cs = []"
    using Cons.prems constraint_effective_name_not_blank [of e c] b by (auto simp: Let_def split: if_splits)
  have "fst (constraint_body fm tm defs c) = []" using b c(1) by simp
  with Cons.IH [OF rest] c(2) show ?case by auto
qed simp

text \<open>C17: in a validated Entity every index covers distinct declared fields of indexable types and every
  constraint is one of the three kinds over declared fields whose types support it, with a usable
  value; no two indexes and no two constraints share an effective name, and no two indexes cover the
  same fields in the same order.\<close>

theorem validated_references_resolve:
  assumes "validate_entity reg e = []"
  shows "(\<forall>i\<in>set (en_indexes e). ix_fields i \<noteq> [] \<and> refs_ok reg e ft_allow_index (ix_fields i))
    \<and> (\<forall>c\<in>set (en_constraints e). constraint_ok reg e c)
    \<and> distinct (map (index_effective_name e) (en_indexes e)) \<and> distinct (map ix_fields (en_indexes e))
    \<and> distinct (map (constraint_effective_name e) (en_constraints e))"
  using validated_indexes [OF assms] constraint_body_ok [OF assms]
    validate_constraints_sound [OF validate_entity_parts(4) [OF assms, unfolded validate_constraints_def]]
  by blast

section \<open>Names can always be generated\<close>

definition required_fields :: "entity \<Rightarrow> string set" where
  "required_fields e = {fd_name f | f. f \<in> set (en_fields e) \<and> fd_required f}"

text \<open>The plan of a validated Entity: one of the four strategies, with what it needs.\<close>

definition naming_ok :: "entity \<Rightarrow> naming \<Rightarrow> bool" where
  "naming_ok e n \<longleftrightarrow>
     nm_strategy n = ''manual''
     \<or> nm_strategy n = ''random'' \<and> min_random_name_length \<le> nm_length n \<and> nm_length n \<le> max_random_name_length
     \<or> nm_strategy n = ''series'' \<and> validate_series_pattern (nm_pattern n) = None
     \<or> nm_strategy n = ''format'' \<and> (\<exists>toks. naming_format_tokens (nm_format n) = Inr toks \<and> set toks \<subseteq> required_fields e)"

lemma naming_cases:
  assumes "naming_ok e n"
    and "nm_strategy n = ''manual'' \<Longrightarrow> P"
    and "nm_strategy n = ''random'' \<Longrightarrow> 8 \<le> nm_length n \<Longrightarrow> P"
    and "nm_strategy n = ''series'' \<Longrightarrow> validate_series_pattern (nm_pattern n) = None \<Longrightarrow> P"
    and "nm_strategy n = ''format'' \<Longrightarrow>
      \<exists>toks. naming_format_tokens (nm_format n) = Inr toks \<and> set toks \<subseteq> required_fields e \<Longrightarrow> P"
  shows P
  using assms(1) unfolding naming_ok_def min_random_name_length_def
  by (elim disjE conjE) (rule assms(2), assumption | rule assms(3), assumption+ | rule assms(4), assumption+ | rule assms(5), assumption+)+

lemma format_tokens_required:
  assumes "validate_entity reg e = []"
    and "validate_format_naming (field_map (en_fields e)) (field_types reg (en_fields e)) n line = []"
  shows "\<exists>toks. naming_format_tokens (nm_format n) = Inr toks \<and> set toks \<subseteq> required_fields e"
proof -
  obtain toks where toks: "naming_format_tokens (nm_format n) = Inr toks"
    and ok: "\<forall>t\<in>set toks. format_token_problems (field_map (en_fields e)) (field_types reg (en_fields e)) line t = []"
    using assms(2) by (auto simp: validate_format_naming_def split: if_splits sum.splits)
  have "t \<in> required_fields e" if "t \<in> set toks" for t
  proof -
    have "format_token_problems (field_map (en_fields e)) (field_types reg (en_fields e)) line t = []"
      using ok that by blast
    then obtain f where "field_map (en_fields e) t = Some f" "fd_required f"
      by (auto simp: format_token_problems_def split: option.splits)
    then show ?thesis using entity_maps(1) [OF assms(1)] by (auto simp: required_fields_def)
  qed
  with toks show ?thesis by blast
qed

lemma blank_default_length: "blank (nm_strategy (default_length n)) = blank (nm_strategy n)"
  by (simp add: default_length_def)

lemma validated_naming_ok:
  assumes "validate_entity reg e = []"
  shows "naming_ok e (entity_naming e)"
proof (cases "en_is_collection e")
  case True
  then show ?thesis by (simp add: entity_naming_def effective_naming_def naming_ok_def collection_row_naming_def
      collection_row_name_length_def min_random_name_length_def max_random_name_length_def)
next
  case False
  show ?thesis
  proof (cases "has_explicit_naming (en_naming e)")
    case explicit: False
    then show ?thesis using False
      by (simp add: has_explicit_naming_def entity_naming_def effective_naming_def default_length_def naming_ok_def
          default_random_name_length_def min_random_name_length_def max_random_name_length_def)
  next
    case explicit: True
    let ?n = "default_length (en_naming e)"
    let ?fm = "field_map (en_fields e)" and ?tm = "field_types reg (en_fields e)"
    have v: "validate_naming ?fm ?tm e = []" by (rule validate_entity_parts(6) [OF assms])
    have strat: "nm_strategy ?n = nm_strategy (en_naming e)" by (simp add: default_length_def)
    have nb: "\<not> blank (nm_strategy (en_naming e))"
      using v explicit strat by (auto simp: validate_naming_def Let_def)
    then have eff: "entity_naming e = ?n" using False by (simp add: entity_naming_def effective_naming_def)
    consider "nm_strategy ?n = ''manual''"
      | "nm_strategy ?n = ''random''" "validate_random_naming ?n (naming_line e) = []"
      | "nm_strategy ?n = ''series''" "validate_series_naming ?n (naming_line e) = []"
      | "nm_strategy ?n = ''format''" "validate_format_naming ?fm ?tm ?n (naming_line e) = []"
      using v explicit nb strat by (auto simp: validate_naming_def Let_def split: if_splits)
    then show ?thesis
    proof cases
      case 2
      then show ?thesis by (auto simp: eff naming_ok_def validate_random_naming_def)
    next
      case 3
      then show ?thesis by (auto simp: eff naming_ok_def validate_series_naming_def split: if_splits)
    next
      case 4
      then show ?thesis using format_tokens_required [OF assms 4(2)] by (auto simp: eff naming_ok_def)
    qed (simp add: eff naming_ok_def)
  qed
qed

lemma generate_manual:
  assumes "nm_strategy n = ''manual''"
  shows "generate draw clock n r opts st = bindR (resolve_value r ''name'') (\<lambda>v. Inr (v, st))"
proof -
  have "trim_space ''manual'' = ''manual''" by code_simp
  then show ?thesis by (simp add: assms generate_def normalize_plan_def default_length_def Let_def)
qed

lemma generate_random:
  assumes "nm_strategy n = ''random''" "no_random opts = None" "nm_length n \<noteq> 0"
  shows "generate draw clock n r opts st = bindR (random_name draw (nm_length n)) (\<lambda>v. Inr (v, st))"
proof -
  have "trim_space ''random'' = ''random''" by code_simp
  then show ?thesis by (simp add: assms generate_def normalize_plan_def default_length_def Let_def)
qed

lemma generate_format:
  assumes "nm_strategy n = ''format''"
  shows "generate draw clock n r opts st = bindR (render_loop (resolve_value r) (nm_format n)) (\<lambda>v. Inr (v, st))"
proof -
  have "trim_space ''format'' = ''format''" by code_simp
  then show ?thesis
    by (simp add: assms generate_def normalize_plan_def default_length_def render_format_def Let_def)
qed

lemma random_name_total:
  assumes "0 \<le> len" "\<forall>i. draw i \<noteq> None"
  shows "\<exists>s. random_name draw len = Inr s"
proof -
  have "mapR (\<lambda>i. case draw i of None \<Rightarrow> Inl RandomFailed | Some n \<Rightarrow> Inr (alphabet ! n)) [0..<nat len]
      = Inr (map (\<lambda>i. alphabet ! the (draw i)) [0..<nat len])"
    using assms(2) by (intro mapR_pure) (auto split: option.splits)
  then show ?thesis using assms(1) by (simp add: random_name_def)
qed

lemma render_format_total:
  assumes "naming_format_tokens fmt = Inr toks" "\<forall>t\<in>set toks. \<exists>v. f t = Inr v"
  shows "\<exists>v. render_loop f fmt = Inr v"
proof (cases "render_loop f fmt")
  case (Inl e)
  then show ?thesis using format_tokens_render [OF assms(1), of f] assms(2) by fastforce
qed blast

text \<open>C18: a record of a validated Entity can always be named: generation succeeds whenever the input
  provides a name and the required fields, random indexes can be drawn and the series counter works.\<close>

theorem validated_naming_generates:
  assumes "validate_entity reg e = []"
    and "\<forall>t. t = ''name'' \<or> t \<in> required_fields e \<longrightarrow> (\<exists>v. r t = Inr v)" "\<forall>i. draw i \<noteq> None"
    and "\<not> blank (no_entity opts)" "no_random opts = None" "no_series opts = Some step"
    and "\<forall>key st. \<exists>n st'. step key (nm_pattern (entity_naming e)) st = Inr (n, st')"
  shows "\<exists>name st'. generate draw clock (entity_naming e) (Some r) opts st = Inr (name, st')"
proof -
  let ?n = "entity_naming e"
  consider "nm_strategy ?n = ''manual''" | "nm_strategy ?n = ''random''" "8 \<le> nm_length ?n"
    | "nm_strategy ?n = ''series''" "validate_series_pattern (nm_pattern ?n) = None"
    | "nm_strategy ?n = ''format''" "\<exists>toks. naming_format_tokens (nm_format ?n) = Inr toks \<and> set toks \<subseteq> required_fields e"
    by (rule naming_cases [OF validated_naming_ok [OF assms(1)]])
  then show ?thesis
  proof cases
    case 1
    then show ?thesis using assms(2) by (force simp: generate_manual resolve_value_def)
  next
    case 2
    then obtain s where "random_name draw (nm_length ?n) = Inr s"
      using random_name_total [OF _ assms(3), of "nm_length ?n"] by auto
    then show ?thesis using 2 assms(5) by (simp add: generate_random)
  next
    case 3
    have "trim_space (nm_strategy ?n) = ''series''" unfolding 3(1) by code_simp
    from series_renders [OF 3(2) this assms(4,6), where draw = draw and clock = clock and r = "Some r" and st = st]
    obtain w key where g: "generate draw clock ?n (Some r) opts st = bindR (step key (nm_pattern ?n) st) (\<lambda>(n, st').
        Inr (concat (map (final_piece (naming_now clock opts) (format_width w n)) (pieces (nm_pattern ?n))), st'))"
      by blast
    obtain n st' where "step key (nm_pattern ?n) st = Inr (n, st')" using assms(7) by blast
    then show ?thesis by (simp add: g)
  next
    case 4
    then obtain toks where toks: "naming_format_tokens (nm_format ?n) = Inr toks" "set toks \<subseteq> required_fields e" by blast
    have "\<forall>t\<in>set toks. \<exists>v. resolve_value (Some r) t = Inr v" using toks(2) assms(2) by (auto simp: resolve_value_def)
    from render_format_total [OF toks(1) this] show ?thesis using 4(1) by (auto simp: generate_format)
  qed
qed

section \<open>The form\<close>

definition field_items :: "form_tab list \<Rightarrow> string list" where
  "field_items ts = map fi_name (filter (\<lambda>i. fi_kind i = ''field'') (concat (map fm_items ts)))"

lemma form_entries_Cons:
  assumes "form_entries label seen (f # fs) = Inr (items, gs)"
  obtains (marker) item items' where "items = item # items'" "fi_kind item \<noteq> ''field''"
      "is_layout_field_type (fd_type f)" "form_entries label seen fs = Inr (items', gs)"
    | (sto) item items' gs' where "items = item # items'" "gs = f # gs'" "fi_kind item = ''field''"
      "fi_name item = trim_space (fd_name f)" "\<not> is_layout_field_type (fd_type f)"
      "trim_space (fd_name f) \<notin> set seen" "form_entries label (trim_space (fd_name f) # seen) fs = Inr (items', gs')"
proof -
  from assms obtain item sto items' gs' where f: "form_entry label seen f = Inr (item, sto)"
    and rest: "form_entries label (case sto of None \<Rightarrow> seen | Some g \<Rightarrow> trim_space (fd_name g) # seen) fs = Inr (items', gs')"
    and eqs: "items = item # items'" "gs = (case sto of None \<Rightarrow> gs' | Some g \<Rightarrow> g # gs')"
    by (auto simp: bindR_Inr_iff)
  consider "sto = None" "fi_kind item \<noteq> ''field''" "is_layout_field_type (fd_type f)"
    | "sto = Some f" "fi_kind item = ''field''" "fi_name item = trim_space (fd_name f)"
      "\<not> is_layout_field_type (fd_type f)" "trim_space (fd_name f) \<notin> set seen"
    using f by (auto simp: form_entry_def is_layout_field_type_def Let_def split: if_splits)
  then show thesis
  proof cases
    case 1
    then show thesis using marker rest eqs by simp
  next
    case 2
    then show thesis using sto rest eqs by simp
  qed
qed

lemma form_entries_filter:
  "form_entries label seen fs = Inr (items, gs) \<Longrightarrow> gs = filter (\<lambda>f. \<not> is_layout_field_type (fd_type f)) fs"
proof (induction fs arbitrary: seen items gs)
  case (Cons f fs)
  from Cons.prems show ?case by (cases rule: form_entries_Cons) (simp_all add: Cons.IH)
qed simp

lemma form_entries_fields:
  "form_entries label seen fs = Inr (items, gs) \<Longrightarrow>
   map fi_name (filter (\<lambda>i. fi_kind i = ''field'') items) = map (trim_space \<circ> fd_name) gs
    \<and> distinct (map (trim_space \<circ> fd_name) gs) \<and> set (map (trim_space \<circ> fd_name) gs) \<inter> set seen = {}"
proof (induction fs arbitrary: seen items gs)
  case (Cons f fs)
  from Cons.prems show ?case
  proof (cases rule: form_entries_Cons)
    case (marker item items')
    then show ?thesis using Cons.IH [OF marker(4)] by simp
  next
    case (sto item items' gs')
    then show ?thesis using Cons.IH [OF sto(7)] by auto
  qed
qed simp

lemma form_tabs_Cons:
  assumes "form_tabs seen_tabs seen (t # ts) = Inr (fts, gs)"
  obtains ft fs fts' gs' label where "fts = ft # fts'" "gs = fs @ gs'" "fm_key ft \<notin> set seen_tabs"
    "form_entries label seen (tb_fields t) = Inr (fm_items ft, fs)"
    "form_tabs (fm_key ft # seen_tabs) (map (trim_space \<circ> fd_name) fs @ seen) ts = Inr (fts', gs')"
proof -
  from assms obtain ft fs fts' gs' where "form_tab_of seen_tabs seen t = Inr (ft, fs)"
    "form_tabs (fm_key ft # seen_tabs) (map (trim_space \<circ> fd_name) fs @ seen) ts = Inr (fts', gs')"
    "fts = ft # fts'" "gs = fs @ gs'"
    by (auto simp: bindR_Inr_iff)
  then show thesis
    by (auto simp: form_tab_of_def Let_def bindR_Inr_iff split: if_splits intro: that)
qed

lemma form_tabs_filter:
  "form_tabs seen_tabs seen ts = Inr (fts, gs) \<Longrightarrow>
   gs = filter (\<lambda>f. \<not> is_layout_field_type (fd_type f)) (concat (map tb_fields ts))"
proof (induction ts arbitrary: seen_tabs seen fts gs)
  case (Cons t ts)
  from Cons.prems show ?case
    by (rule form_tabs_Cons) (auto dest!: Cons.IH form_entries_filter)
qed simp

lemma form_tabs_fields:
  "form_tabs seen_tabs seen ts = Inr (fts, gs) \<Longrightarrow>
   field_items fts = map (trim_space \<circ> fd_name) gs
    \<and> distinct (map (trim_space \<circ> fd_name) gs) \<and> set (map (trim_space \<circ> fd_name) gs) \<inter> set seen = {}
    \<and> distinct (map fm_key fts) \<and> set (map fm_key fts) \<inter> set seen_tabs = {}"
proof (induction ts arbitrary: seen_tabs seen fts gs)
  case Nil
  then show ?case by (simp add: field_items_def)
next
  case (Cons t ts)
  from Cons.prems show ?case
  proof (rule form_tabs_Cons)
    fix ft fs fts' gs' label
    assume t: "fts = ft # fts'" "gs = fs @ gs'" "fm_key ft \<notin> set seen_tabs"
      "form_entries label seen (tb_fields t) = Inr (fm_items ft, fs)"
      "form_tabs (fm_key ft # seen_tabs) (map (trim_space \<circ> fd_name) fs @ seen) ts = Inr (fts', gs')"
    from Cons.IH [OF t(5)] form_entries_fields [OF t(4)] t(3) show ?thesis
      unfolding t(1,2) by (auto simp: field_items_def comp_def)
  qed
qed

text \<open>C19: when a document with tabs decodes, its form shows every storage field of the Entity exactly
  once, in the order of the fields, and its tabs have distinct keys.\<close>

theorem form_shows_every_field:
  assumes "decode_entity reg is_collection has_fields has_tabs e = Inr e'" "en_form e = None" "en_form e' = Some fts"
  shows "field_items fts = map fd_name (en_fields e') \<and> distinct (field_items fts) \<and> distinct (map fm_key fts)
    \<and> en_fields e' = filter (\<lambda>f. \<not> is_layout_field_type (fd_type f)) (concat (map tb_fields (en_tabs e)))"
proof -
  from assms(1) have n: "normalize_form_layout (e\<lparr>en_is_collection := is_collection\<rparr>) = Inr e'"
    and v: "validate_entity reg e' = []"
    by (auto simp: decode_entity_def split: if_splits sum.splits)
  from n assms(2,3) have "en_tabs e \<noteq> []" "form_tabs [] [] (en_tabs e) = Inr (fts, en_fields e')"
    by (auto simp: normalize_form_layout_def bindR_Inr_iff split: if_splits)
  note form = form_tabs_fields [OF this(2)] form_tabs_filter [OF this(2)]
  have "map (trim_space \<circ> fd_name) (en_fields e') = map fd_name (en_fields e')"
    using validated_fields_parts [OF v] is_name_trim by (auto simp: field_ok_def)
  with form show ?thesis by (metis map_map)
qed

section \<open>An example\<close>

definition sample_registry :: type_registry where
  "sample_registry = map (\<lambda>d. (ft_name d, d)) (take 5 built_ins)"

definition sample_field :: "string \<Rightarrow> string \<Rightarrow> bool \<Rightarrow> field" where
  "sample_field name ty req = \<lparr>fd_line = 0, fd_name = name, fd_label = ''Label'', fd_type = ty, fd_description = [],
     fd_required = req, fd_unique = False, fd_index = False, fd_default = NoNode, fd_check = None, fd_fetch = None,
     fd_options = no_field_options\<rparr>"

definition sample_tab :: tab where
  "sample_tab = \<lparr>tb_line = 0, tb_label = ''Main'', tb_name = ''main'', tb_icon = [],
     tb_fields = [sample_field ''title'' ''text'' True, sample_field [] ''column'' False, sample_field ''amount'' ''int'' False]\<rparr>"

definition sample_document :: entity where
  "sample_document = \<lparr>en_line = 1, en_name = [], en_label = ''Task'', en_description = [], en_icon = [], en_is_single = False,
     en_is_system = False, en_is_collection = False, en_is_private = False, en_private_owner_field = [],
     en_route = \<lparr>rt_line = 0, rt_slug = []\<rparr>,
     en_naming = no_naming\<lparr>nm_line := 2, nm_strategy := ''format'', nm_format := ''T-{title}''\<rparr>,
     en_tree = None, en_fields = [], en_tabs = [sample_tab], en_form = None,
     en_indexes = [\<lparr>ix_line = 0, ix_name = [], ix_fields = [''title'']\<rparr>,
       \<lparr>ix_line = 0, ix_name = ''task-title-idx'', ix_fields = [''amount'']\<rparr>],
     en_constraints = [\<lparr>cn_line = 0, cn_name = [], cn_type = ''unique'', cn_fields = [''title'', ''amount''],
       cn_field = [], cn_operator = [], cn_value = NoNode\<rparr>]\<rparr>"

definition sample_entity :: entity where
  "sample_entity = sample_document\<lparr>en_tabs := [],
     en_fields := [sample_field ''title'' ''text'' True, sample_field ''amount'' ''int'' False],
     en_form := Some [\<lparr>fm_key = ''main'', fm_label = ''Main'', fm_icon = [],
       fm_items = [\<lparr>fi_kind = ''field'', fi_name = ''title'', fi_label = [], fi_description = []\<rparr>,
         \<lparr>fi_kind = ''column'', fi_name = [], fi_label = [], fi_description = []\<rparr>,
         \<lparr>fi_kind = ''field'', fi_name = ''amount'', fi_label = [], fi_description = []\<rparr>]\<rparr>]\<rparr>"

lemma sample_normalizes:
  "normalize_form_layout (sample_document\<lparr>en_is_collection := False\<rparr>) = Inr sample_entity"
  by code_simp

lemma sample_entity_valid: "validate_entity sample_registry sample_entity = []"
  by code_simp

lemma sample_decodes: "decode_entity sample_registry False False True sample_document = Inr sample_entity"
  by (simp add: decode_entity_def sample_normalizes sample_entity_valid)

theorem validated_fields_sound_witness:
  "en_fields sample_entity \<noteq> [] \<and> distinct (map fd_name (en_fields sample_entity))
    \<and> field_ok sample_registry (hd (en_fields sample_entity))"
  using validated_fields_sound [OF sample_entity_valid] by simp

theorem validated_references_resolve_witness:
  "refs_ok sample_registry sample_entity ft_allow_index (ix_fields (hd (en_indexes sample_entity)))
    \<and> constraint_ok sample_registry sample_entity (hd (en_constraints sample_entity))"
proof -
  have "hd (en_indexes sample_entity) \<in> set (en_indexes sample_entity)"
    "hd (en_constraints sample_entity) \<in> set (en_constraints sample_entity)" by code_simp+
  with validated_references_resolve [OF sample_entity_valid] show ?thesis by blast
qed

definition sample_options' :: "series_row list naming_options" where
  "sample_options' = no_naming_options\<lparr>no_entity := ''crm/task'', no_series := Some (\<lambda>k p st. Inr (1, st))\<rparr>"

theorem validated_naming_generates_witness:
  "\<exists>name st'. generate (\<lambda>i. Some 0) 0 (entity_naming sample_entity) (Some (\<lambda>t. Inr ''x'')) sample_options' [] = Inr (name, st')"
proof (rule validated_naming_generates [OF sample_entity_valid])
  show "\<not> blank (no_entity sample_options')" by code_simp
  show "no_random sample_options' = None" "no_series sample_options' = Some (\<lambda>k p st. Inr (1, st))"
    by (simp_all add: sample_options'_def no_naming_options_def)
qed simp_all

theorem form_shows_every_field_witness:
  "field_items (the (en_form sample_entity)) = [''title'', ''amount'']"
proof -
  have "en_form sample_document = None" by code_simp
  moreover have "en_form sample_entity = Some (the (en_form sample_entity))"
    "map fd_name (en_fields sample_entity) = [''title'', ''amount'']" by code_simp+
  ultimately show ?thesis using form_shows_every_field [OF sample_decodes] by metis
qed

text \<open>The same document shows what the validation at load time misses: the name of the Entity is set
  after validation, so the name an index gets automatically is compared without it.\<close>

lemma loaded_index_names_collide:
  "map_sum id (\<lambda>e. map (index_effective_name e) (en_indexes e))
     (load_entity sample_registry False False True sample_document ''entities/task/task.entity.yml'')
   = Inr [''task-title-idx'', ''task-title-idx'']"
proof -
  have "entity_name_from_path ''entities/task/task.entity.yml'' = Inr ''task''" by code_simp
  moreover have "map (index_effective_name (sample_entity\<lparr>en_name := ''task''\<rparr>)) (en_indexes (sample_entity\<lparr>en_name := ''task''\<rparr>))
    = [''task-title-idx'', ''task-title-idx'']" by code_simp
  ultimately show ?thesis by (simp add: load_entity_def sample_decodes)
qed

end
