(* ===== verification/Catalog_Guarantees.thy ===== *)
theory Catalog_Guarantees
  imports Entity_Catalog Schema_Guarantees
begin

text \<open>What validation of the Entity catalog guarantees: unique identities and routes, links and
  collections that resolve to Entities of the right kind, and well-typed fetch paths.\<close>

section \<open>Identities and routes\<close>

lemma validate_identities_sound:
  assumes "validate_identities keys slugs es = []"
  shows "distinct (map le_key es) \<and> set (map le_key es) \<inter> set keys = {}
    \<and> distinct (map route_slug (filter has_route_slug es)) \<and> set (map route_slug (filter has_route_slug es)) \<inter> set slugs = {}
    \<and> (\<forall>e\<in>set es. has_route_slug e \<longrightarrow> \<not> is_reserved_slug (route_slug e))"
  using assms
proof (induction es arbitrary: keys slugs)
  case (Cons e es)
  have e: "le_key e \<notin> set keys" "has_route_slug e \<longrightarrow> route_slug e \<notin> set slugs \<and> \<not> is_reserved_slug (route_slug e)"
    and rest: "validate_identities (le_key e # keys) (if has_route_slug e then route_slug e # slugs else slugs) es = []"
    using Cons.prems by (auto simp: identity_problems_def split: if_splits)
  from Cons.IH [OF rest] e show ?case by (cases "has_route_slug e") auto
qed simp

section \<open>References\<close>

lemma resolve_target_member:
  assumes "resolve_target (new_target_index es) owner app name = Inr t"
  shows "t \<in> set es"
proof -
  have "ti_lookup (new_target_index es) a n = Some t \<Longrightarrow> t \<in> set es" for a n
    by (auto simp: ti_lookup_def new_target_index_def dest!: map_of_SomeD)
  moreover have "t \<in> set (ti_by_name (new_target_index es) n) \<Longrightarrow> t \<in> set es" for n
    by (simp add: ti_by_name_def new_target_index_def)
  ultimately show ?thesis using assms
    by (auto simp: resolve_target_def split: if_splits option.splits list.splits) (metis list.set_intros(1))
qed

definition target_ok :: "loaded_entity list \<Rightarrow> loaded_entity \<Rightarrow> field \<Rightarrow> bool" where
  "target_ok es e f \<longleftrightarrow> fo_entity (fd_options f) = [] \<or>
     (\<exists>t\<in>set es. resolve_target (new_target_index es) e (fo_app (fd_options f)) (fo_entity (fd_options f)) = Inr t
        \<and> \<not> en_is_single (le_entity t) \<and> (le_is_collection t \<longleftrightarrow> fd_type f = ''collection''))"

lemma validate_field_target_sound:
  assumes "validate_field_target reg (new_target_index es) e f = []" "fd_type f = ''link'' \<or> fd_type f = ''collection''"
  shows "target_ok es e f"
proof (cases "fo_entity (fd_options f) = []")
  case False
  let ?r = "resolve_target (new_target_index es) e (fo_app (fd_options f)) (fo_entity (fd_options f))"
  have ne: "(''link'' :: string) \<noteq> ''collection''" by simp
  obtain t where t: "?r = Inr t" using assms False by (cases ?r) (auto simp: validate_field_target_def)
  then have "\<not> en_is_single (le_entity t)" "le_is_collection t \<longleftrightarrow> fd_type f = ''collection''"
    using assms False ne by (auto simp: validate_field_target_def Let_def split: if_splits)
  with t resolve_target_member [OF t] show ?thesis by (auto simp: target_ok_def)
qed (simp add: target_ok_def)

section \<open>Fetch paths\<close>

text \<open>Following link fields from an Entity reaches the field that owns the fetched value.\<close>

inductive fetch_reaches :: "target_index \<Rightarrow> loaded_entity \<Rightarrow> string list \<Rightarrow> loaded_entity \<Rightarrow> field \<Rightarrow> bool" for ix where
  here: "fetch_path_field e seg = Some f \<Longrightarrow> fetch_reaches ix e [seg] e f"
| hop: "fetch_path_field e seg = Some l \<Longrightarrow> fd_type l = ''link'' \<Longrightarrow>
    resolve_target ix e (fo_app (fd_options l)) (fo_entity (fd_options l)) = Inr t \<Longrightarrow>
    fetch_reaches ix t segs owner f \<Longrightarrow> fetch_reaches ix e (seg # segs) owner f"

inductive_cases fetch_reaches_single: "fetch_reaches ix e [seg] owner f"

lemma fetch_walk_sound:
  assumes "fetch_walk reg ix owner dest current segs = Inr ()" "segs \<noteq> []"
  shows "\<exists>so s. fetch_reaches ix current segs so s \<and> readable_stored reg (fd_type s) \<and> fd_type s = fd_type dest"
  using assms
proof (induction segs arbitrary: current)
  case (Cons seg segs)
  obtain source where s: "fetch_path_field current seg = Some source"
    using Cons.prems(1) by (auto split: option.splits)
  show ?case
  proof (cases "segs = []")
    case True
    then have "fetch_compatible reg ix owner dest current source = Inr ()" using Cons.prems(1) s by simp
    then have "readable_stored reg (fd_type source)" "fd_type source = fd_type dest"
      by (auto simp: fetch_compatible_def split: if_splits)
    with here [OF s] True show ?thesis by blast
  next
    case False
    then obtain t where l: "fd_type source = ''link''"
      "resolve_target ix current (fo_app (fd_options source)) (fo_entity (fd_options source)) = Inr t"
      "fetch_walk reg ix owner dest t segs = Inr ()"
      using Cons.prems(1) s by (auto split: if_splits sum.splits)
    from Cons.IH [OF l(3) False] hop [OF s l(1,2)] show ?thesis by blast
  qed
qed simp

definition fetch_ok :: "type_registry \<Rightarrow> target_index \<Rightarrow> loaded_entity \<Rightarrow> field \<Rightarrow> bool" where
  "fetch_ok reg ix e f \<longleftrightarrow> (case fd_fetch f of None \<Rightarrow> True
     | Some fe \<Rightarrow> (\<exists>so s. fetch_reaches ix e (split_on (CHR ''.'') (trim_space (fe_from fe))) so s
         \<and> readable_stored reg (fd_type s) \<and> fd_type s = fd_type f))"

lemma field_fetch_sound: "field_fetch_problem reg ix e f = [] \<Longrightarrow> fetch_ok reg ix e f"
  using fetch_walk_sound
  by (auto simp: field_fetch_problem_def fetch_ok_def validate_field_fetch_def split: option.splits sum.splits if_splits)

text \<open>C20: in an accepted catalog identities and route slugs are unique and no slug is reserved; every link and
  collection field resolves to an Entity of the catalog of the kind it needs; and every fetch path
  follows links to a readable field of the type of the fetching field.\<close>

theorem accepted_catalog_sound:
  assumes "validate_entity_catalog reg hook es = Inr []"
  shows "distinct (map le_key es) \<and> distinct (map route_slug (filter has_route_slug es))
    \<and> (\<forall>e\<in>set es. (has_route_slug e \<longrightarrow> \<not> is_reserved_slug (route_slug e))
        \<and> (\<forall>f\<in>set (en_fields (le_entity e)).
            (fd_type f = ''link'' \<or> fd_type f = ''collection'' \<longrightarrow> target_ok es e f) \<and> fetch_ok reg (new_target_index es) e f))"
proof -
  let ?ix = "new_target_index es"
  have ids: "validate_identities [] [] es = []" and targets: "validate_field_targets reg ?ix es = []"
    and fetches: "validate_field_fetches reg ?ix es = []"
    using assms by (auto simp: validate_entity_catalog_def Let_def bindR_Inr_iff)
  have "validate_field_target reg ?ix e f = []" "field_fetch_problem reg ?ix e f = []"
    if "e \<in> set es" "f \<in> set (en_fields (le_entity e))" for e f
    using targets fetches that by (auto simp: validate_field_targets_def validate_field_fetches_def)
  with validate_identities_sound [OF ids] validate_field_target_sound field_fetch_sound show ?thesis by blast
qed

definition sample_link :: "string \<Rightarrow> string \<Rightarrow> field" where
  "sample_link name target = (sample_field name ''link'' False)\<lparr>fd_options := no_field_options\<lparr>fo_entity := target\<rparr>\<rparr>"

definition sample_loaded :: "string \<Rightarrow> field list \<Rightarrow> loaded_entity" where
  "sample_loaded name fs = \<lparr>le_app = ''crm'', le_dir = ''apps/crm'', le_path = name,
     le_entity = sample_document\<lparr>en_name := name, en_tabs := [], en_fields := fs\<rparr>\<rparr>"

definition sample_catalog :: "loaded_entity list" where
  "sample_catalog = [sample_loaded ''customer'' [sample_field ''city'' ''text'' True],
     sample_loaded ''invoice'' [sample_link ''customer'' ''customer'',
       (sample_field ''city'' ''text'' False)\<lparr>fd_fetch := Some \<lparr>fe_from = ''customer.city''\<rparr>\<rparr>]]"

definition sample_types :: type_registry where
  "sample_types = map (\<lambda>d. (ft_name d, d)) (filter (\<lambda>d. ft_name d \<in> {''text'', ''link''}) built_ins)"

theorem accepted_catalog_sound_witness:
  "distinct (map route_slug sample_catalog)
    \<and> target_ok sample_catalog (sample_catalog ! 1) (sample_link ''customer'' ''customer'')"
proof -
  have c: "validate_entity_catalog sample_types (\<lambda>e. FileMissing) sample_catalog = Inr []" by code_simp
  have "filter has_route_slug sample_catalog = sample_catalog" "sample_catalog ! 1 \<in> set sample_catalog"
    "sample_link ''customer'' ''customer'' \<in> set (en_fields (le_entity (sample_catalog ! 1)))"
    "fd_type (sample_link ''customer'' ''customer'') = ''link''" by code_simp+
  with accepted_catalog_sound [OF c] show ?thesis by metis
qed

end
