(* ===== verification/Access_Policy.thy ===== *)
theory Access_Policy
  imports Entity_Schema
begin

text \<open>
  Access policies (\<^verbatim>\<open>internal/accesspolicy\<close>, the file decoder and encoder of \<^verbatim>\<open>internal/access\<close>, and
  \<^verbatim>\<open>internal/permissions/actions.go\<close>): roles, actions, row conditions and field rules, decoded from
  a parsed YAML document.  An error is the message template of the source with its arguments.  Go maps
  with string keys are association lists sorted by key.
\<close>

type_synonym message = "string \<times> string list"

section \<open>YAML helpers\<close>

text \<open>\<^verbatim>\<open>node.Value\<close>; only scalars and aliases have a text.\<close>

fun node_text :: "node \<Rightarrow> string" where
  "node_text (Scalar t v) = v"
| "node_text (AliasNode a) = a"
| "node_text _ = []"

definition scalar_string :: "node \<Rightarrow> string \<Rightarrow> message + string" where
  "scalar_string n what = (case n of Scalar t v \<Rightarrow> Inr (trim_space v) | _ \<Rightarrow> Inl (''%s must be a string'', [what]))"

definition scalar_string_sequence :: "node \<Rightarrow> string \<Rightarrow> message + string list" where
  "scalar_string_sequence n what =
     (case n of Sequence items \<Rightarrow> mapR (\<lambda>x. scalar_string x what) items
      | _ \<Rightarrow> Inl (''%s must be a sequence'', [what]))"

definition value_mapping :: "node \<Rightarrow> (node \<times> node) list option" where
  "value_mapping n = (case n of MappingNode ps \<Rightarrow> Some ps | _ \<Rightarrow> None)"

text \<open>The first duplicate key in document order, if any.\<close>

fun duplicate_key :: "node \<Rightarrow> string option"
  and duplicate_keys :: "string list \<Rightarrow> (node \<times> node) list \<Rightarrow> string option"
  and duplicate_items :: "node list \<Rightarrow> string option" where
  "duplicate_key (Sequence xs) = duplicate_items xs"
| "duplicate_key (MappingNode ps) = duplicate_keys [] ps"
| "duplicate_key _ = None"
| "duplicate_items [] = None"
| "duplicate_items (x # xs) = (case duplicate_key x of Some k \<Rightarrow> Some k | None \<Rightarrow> duplicate_items xs)"
| "duplicate_keys seen [] = None"
| "duplicate_keys seen ((k, v) # ps) =
     (if node_text k \<in> set seen then Some (node_text k)
      else case duplicate_key v of Some d \<Rightarrow> Some d | None \<Rightarrow> duplicate_keys (node_text k # seen) ps)"

section \<open>Actions\<close>

type_synonym action = string

definition action_specs :: "(action \<times> string) list" where
  "action_specs = [(''read'', ''\"read\"''), (''create'', ''\"create\"''), (''update'', ''\"update\"''),
     (''delete'', ''\"delete\"''), (''export'', ''\"export\"''), (''print'', ''\"print\"'')]"

definition supported_actions :: "action list" where
  "supported_actions = map fst action_specs"

definition action_column :: "action \<Rightarrow> string option" where
  "action_column a = map_of action_specs a"

definition is_built_in_action :: "action \<Rightarrow> bool" where
  "is_built_in_action a = (action_column a \<noteq> None)"

definition parse_action :: "string \<Rightarrow> shape_error + action" where
  "parse_action v =
     (let a = trim_space v
      in case validate_metadata_name ''permission action'' a of Some e \<Rightarrow> Inl e | None \<Rightarrow> Inr a)"

section \<open>Policies\<close>

record membership =
  mb_entity :: string
  mb_value :: string
  mb_where :: "(string \<times> string) list"

record condition =
  co_field :: string
  co_equals :: string
  co_in :: "membership option"

record policy_when =
  wh_match :: string
  wh_conditions :: "condition list"

record policy_fields =
  pf_deny_read :: "string list"
  pf_deny_write :: "string list"

record policy_item =
  pi_role :: string
  pi_can :: "action list"
  pi_when :: "policy_when option"
  pi_fields :: policy_fields
  pi_override :: bool

record role =
  ro_app :: string
  ro_name :: string
  ro_label :: string
  ro_description :: string

record policy_file =
  po_contributor :: string
  po_target :: string
  po_entity :: string
  po_page :: string
  po_items :: "policy_item list"

definition no_policy_fields :: policy_fields where
  "no_policy_fields = \<lparr>pf_deny_read = [], pf_deny_write = []\<rparr>"

text \<open>Assignment to a Go map, kept as the list sorted by key.\<close>

fun put_key :: "'k::linorder \<Rightarrow> 'v \<Rightarrow> ('k \<times> 'v) list \<Rightarrow> ('k \<times> 'v) list" where
  "put_key k v [] = [(k, v)]"
| "put_key k v ((k', v') # m) =
     (if k = k' then (k, v) # m else if k < k' then (k, v) # (k', v') # m else (k', v') # put_key k v m)"

definition check_name :: "string \<Rightarrow> string \<Rightarrow> message + unit" where
  "check_name kind v = (case validate_metadata_name kind v of None \<Rightarrow> Inr () | Some e \<Rightarrow> Inl (kind, [v]))"

section \<open>Decoding\<close>

definition decode_where_entry :: "(string \<times> string) list \<Rightarrow> node \<times> node \<Rightarrow> message + (string \<times> string) list" where
  "decode_where_entry m p =
     (case scalar_string (snd p) ''policy in where value'' of
        Inr v \<Rightarrow> if v = ''actor.user'' then Inr (put_key (node_text (fst p)) v m)
          else Inl (''policy in where supports actor.user only'', [])
      | Inl e \<Rightarrow> Inl (''policy in where supports actor.user only'', []))"

definition decode_membership_entry :: "membership \<Rightarrow> node \<times> node \<Rightarrow> message + membership" where
  "decode_membership_entry m p =
     (let k = node_text (fst p); v = snd p in
      if k = ''entity'' then bindR (scalar_string v ''policy in entity'') (\<lambda>s. Inr (m\<lparr>mb_entity := s\<rparr>))
      else if k = ''value'' then bindR (scalar_string v ''policy in value'') (\<lambda>s. Inr (m\<lparr>mb_value := s\<rparr>))
      else if k = ''where'' then
        (case value_mapping v of
           None \<Rightarrow> Inl (''policy in where must be a non-empty mapping'', [])
         | Some ps \<Rightarrow> if ps = [] then Inl (''policy in where must be a non-empty mapping'', [])
             else bindR (foldR decode_where_entry (mb_where m) ps) (\<lambda>w. Inr (m\<lparr>mb_where := w\<rparr>)))
      else Inl (''unknown policy in field %q'', [k]))"

definition decode_policy_membership :: "node \<Rightarrow> message + membership" where
  "decode_policy_membership n =
     (case value_mapping n of None \<Rightarrow> Inl (''policy in must be a mapping'', [])
      | Some ps \<Rightarrow>
        bindR (foldR decode_membership_entry \<lparr>mb_entity = [], mb_value = [], mb_where = []\<rparr> ps) (\<lambda>m.
        bindR (check_name ''policy in entity'' (mb_entity m)) (\<lambda>_.
        bindR (check_name ''policy in value'' (mb_value m)) (\<lambda>_.
          if mb_where m = [] then Inl (''policy in where is required'', []) else Inr m))))"

definition decode_policy_condition :: "string \<Rightarrow> node \<Rightarrow> message + condition" where
  "decode_policy_condition field n =
     (case n of
        Scalar t v \<Rightarrow>
          if trim_space v \<noteq> ''actor.user'' then Inl (''policy equality supports actor.user only'', [])
          else Inr \<lparr>co_field = field, co_equals = trim_space v, co_in = None\<rparr>
      | MappingNode [(k, v)] \<Rightarrow>
          if node_text k \<noteq> ''in'' then Inl (''policy condition must be actor.user or an in expression'', [])
          else bindR (decode_policy_membership v) (\<lambda>m. Inr \<lparr>co_field = field, co_equals = [], co_in = Some m\<rparr>)
      | _ \<Rightarrow> Inl (''policy condition must be actor.user or an in expression'', []))"

definition decode_when_entry :: "policy_when \<Rightarrow> node \<times> node \<Rightarrow> message + policy_when" where
  "decode_when_entry w p =
     (let k = node_text (fst p) in
      if k = ''match'' then bindR (scalar_string (snd p) ''policy when match'') (\<lambda>s. Inr (w\<lparr>wh_match := s\<rparr>))
      else if \<not> has_prefix k ''record.'' then Inl (''policy when field %q must start with record.'', [k])
      else bindR (decode_policy_condition k (snd p)) (\<lambda>c. Inr (w\<lparr>wh_conditions := wh_conditions w @ [c]\<rparr>)))"

definition decode_policy_when :: "node \<Rightarrow> message + policy_when" where
  "decode_policy_when n =
     (case value_mapping n of None \<Rightarrow> Inl (''policy when must be a mapping'', [])
      | Some ps \<Rightarrow>
        bindR (foldR decode_when_entry \<lparr>wh_match = ''all'', wh_conditions = []\<rparr> ps) (\<lambda>w.
          if wh_match w \<noteq> ''all'' \<and> wh_match w \<noteq> ''any'' then Inl (''policy when match must be all or any'', [])
          else if wh_conditions w = [] then Inl (''policy when conditions are required'', [])
          else Inr w))"

definition decode_fields_entry :: "policy_fields \<Rightarrow> node \<times> node \<Rightarrow> message + policy_fields" where
  "decode_fields_entry f p =
     (let k = node_text (fst p) in
      bindR (scalar_string_sequence (snd p) (''policy fields '' @ k)) (\<lambda>vs.
        if k = ''deny-read'' then Inr (f\<lparr>pf_deny_read := vs\<rparr>)
        else if k = ''deny-write'' then Inr (f\<lparr>pf_deny_write := vs\<rparr>)
        else Inl (''unknown policy fields field %q'', [k])))"

definition decode_policy_fields :: "node \<Rightarrow> message + policy_fields" where
  "decode_policy_fields n =
     (case value_mapping n of None \<Rightarrow> Inl (''policy fields must be a mapping'', [])
      | Some ps \<Rightarrow> foldR decode_fields_entry no_policy_fields ps)"

fun collect_actions :: "action list \<Rightarrow> string list \<Rightarrow> message + action list" where
  "collect_actions acc [] = Inr acc"
| "collect_actions acc (v # vs) =
     (case parse_action v of Inl e \<Rightarrow> Inl (''permission action'', [v])
      | Inr a \<Rightarrow> if a \<in> set acc then Inl (''policy can contains duplicate action %q'', [a])
          else collect_actions (acc @ [a]) vs)"

definition decode_actions :: "node \<Rightarrow> message + action list" where
  "decode_actions n = bindR (scalar_string_sequence n ''policy can'') (collect_actions [])"

text \<open>\<^verbatim>\<open>value.Decode(&override)\<close> is the YAML library's; its boolean reading is a parameter.\<close>

definition decode_item_entry :: "(node \<Rightarrow> bool option) \<Rightarrow> policy_item \<Rightarrow> node \<times> node \<Rightarrow> message + policy_item" where
  "decode_item_entry decode_bool i p =
     (let k = node_text (fst p); v = snd p in
      if k = ''role'' then bindR (scalar_string v ''policy role'') (\<lambda>s. Inr (i\<lparr>pi_role := s\<rparr>))
      else if k = ''can'' then bindR (decode_actions v) (\<lambda>a. Inr (i\<lparr>pi_can := a\<rparr>))
      else if k = ''when'' then bindR (decode_policy_when v) (\<lambda>w. Inr (i\<lparr>pi_when := Some w\<rparr>))
      else if k = ''fields'' then bindR (decode_policy_fields v) (\<lambda>f. Inr (i\<lparr>pi_fields := f\<rparr>))
      else if k = ''override'' then
        (case decode_bool v of None \<Rightarrow> Inl (''override must be a boolean'', []) | Some b \<Rightarrow> Inr (i\<lparr>pi_override := b\<rparr>))
      else Inl (''unknown policy field %q'', [k]))"

definition no_policy_item :: policy_item where
  "no_policy_item = \<lparr>pi_role = [], pi_can = [], pi_when = None, pi_fields = no_policy_fields, pi_override = False\<rparr>"

definition decode_policy_item :: "(node \<Rightarrow> bool option) \<Rightarrow> node \<Rightarrow> message + policy_item" where
  "decode_policy_item decode_bool n =
     (case value_mapping n of None \<Rightarrow> Inl (''policy item must be a mapping'', [])
      | Some ps \<Rightarrow>
        bindR (foldR (decode_item_entry decode_bool) no_policy_item ps) (\<lambda>i.
          if ''role'' \<notin> set (map (node_text \<circ> fst) ps) \<or> pi_role i = [] then Inl (''policy role is required'', [])
          else if ''can'' \<notin> set (map (node_text \<circ> fst) ps) then Inl (''policy can is required'', [])
          else bindR (check_name ''policy role'' (pi_role i)) (\<lambda>_. Inr i)))"

definition decode_role_entry :: "role \<Rightarrow> node \<times> node \<Rightarrow> message + role" where
  "decode_role_entry r p =
     (let k = node_text (fst p); v = snd p in
      if k = ''name'' then bindR (scalar_string v ''role name'') (\<lambda>s. Inr (r\<lparr>ro_name := s\<rparr>))
      else if k = ''label'' then bindR (scalar_string v ''role label'') (\<lambda>s. Inr (r\<lparr>ro_label := s\<rparr>))
      else if k = ''description'' then bindR (scalar_string v ''role description'') (\<lambda>s. Inr (r\<lparr>ro_description := s\<rparr>))
      else Inl (''unknown role field %q'', [k]))"

definition decode_role :: "string \<Rightarrow> node \<Rightarrow> message + role" where
  "decode_role app n =
     (case value_mapping n of None \<Rightarrow> Inl (''role item must be a mapping'', [])
      | Some ps \<Rightarrow>
        bindR (foldR decode_role_entry \<lparr>ro_app = app, ro_name = [], ro_label = [], ro_description = []\<rparr> ps) (\<lambda>r.
          if ro_name r = [] then Inl (''role name is required'', [])
          else if ro_label r = [] then Inl (''role label is required'', [])
          else bindR (check_name ''role name'' (ro_name r)) (\<lambda>_. Inr r)))"

text \<open>Both files hold one sequence under one known key.\<close>

fun single_list :: "string \<Rightarrow> (node \<Rightarrow> message + 'a) \<Rightarrow> 'a list option \<Rightarrow> (node \<times> node) list \<Rightarrow> message + 'a list" where
  "single_list key f acc [] = (case acc of None \<Rightarrow> Inl (''%s is required'', [key]) | Some xs \<Rightarrow> Inr xs)"
| "single_list key f acc ((k, v) # ps) =
     (if node_text k \<noteq> key then Inl (''unknown field %q'', [node_text k])
      else case v of Sequence items \<Rightarrow>
          bindR (mapR f items) (\<lambda>ys. single_list key f (Some ((case acc of None \<Rightarrow> [] | Some xs \<Rightarrow> xs) @ ys)) ps)
        | _ \<Rightarrow> Inl (''%s must be a sequence'', [key]))"

definition load_list :: "string \<Rightarrow> (node \<Rightarrow> message + 'a) \<Rightarrow> node \<Rightarrow> message + 'a list" where
  "load_list key f n =
     (case duplicate_key n of Some k \<Rightarrow> Inl (''duplicate access key %q'', [k])
      | None \<Rightarrow> (case value_mapping n of None \<Rightarrow> Inl (''file must be a mapping'', []) | Some ps \<Rightarrow> single_list key f None ps))"

definition load_roles_file :: "string \<Rightarrow> node \<Rightarrow> message + role list" where
  "load_roles_file app n = load_list ''roles'' (decode_role app) n"

definition load_policy_file :: "(node \<Rightarrow> bool option) \<Rightarrow> string \<Rightarrow> string \<Rightarrow> string \<Rightarrow> string \<Rightarrow> node \<Rightarrow> message + policy_file" where
  "load_policy_file decode_bool contributor target entity page n =
     (if entity = [] \<and> page = [] then Inl (''access target is required'', [])
      else if entity \<noteq> [] \<and> page \<noteq> [] then Inl (''access target must be one of Entity or Page'', [])
      else bindR (if entity \<noteq> [] then check_name ''access entity'' entity else check_name ''access page'' page) (\<lambda>_.
        bindR (load_list ''policy'' (decode_policy_item decode_bool) n) (\<lambda>items.
          Inr \<lparr>po_contributor = contributor, po_target = target, po_entity = entity, po_page = page, po_items = items\<rparr>)))"

section \<open>Encoding\<close>

definition yaml_string :: "string \<Rightarrow> node" where
  "yaml_string s = Scalar ''!!str'' s"

definition yaml_bool :: "bool \<Rightarrow> node" where
  "yaml_bool b = Scalar ''!!bool'' (if b then ''true'' else ''false'')"

definition membership_node :: "membership \<Rightarrow> node" where
  "membership_node m = MappingNode
     [(yaml_string ''entity'', yaml_string (mb_entity m)),
      (yaml_string ''value'', yaml_string (mb_value m)),
      (yaml_string ''where'', MappingNode
        (map (\<lambda>k. (yaml_string k, yaml_string (the (map_of (mb_where m) k)))) (sort (map fst (mb_where m)))))]"

definition condition_entry :: "condition \<Rightarrow> node \<times> node" where
  "condition_entry c = (yaml_string (co_field c),
     (case co_in c of None \<Rightarrow> yaml_string (co_equals c)
      | Some m \<Rightarrow> MappingNode [(yaml_string ''in'', membership_node m)]))"

definition policy_when_node :: "policy_when \<Rightarrow> node" where
  "policy_when_node w = MappingNode
     ((if wh_match w = ''any'' then [(yaml_string ''match'', yaml_string ''any'')] else [])
      @ map condition_entry (wh_conditions w))"

text \<open>\<^verbatim>\<open>yamlValueNode\<close> hands a struct to the YAML library; the node it gives for field rules is a
  parameter.\<close>

definition policy_item_node :: "(policy_fields \<Rightarrow> node) \<Rightarrow> policy_item \<Rightarrow> node" where
  "policy_item_node fields_node i = MappingNode
     ([(yaml_string ''role'', yaml_string (pi_role i)),
       (yaml_string ''can'', Sequence (map yaml_string (pi_can i)))]
      @ (if pi_override i then [(yaml_string ''override'', yaml_bool True)] else [])
      @ (case pi_when i of None \<Rightarrow> [] | Some w \<Rightarrow> [(yaml_string ''when'', policy_when_node w)])
      @ (if pf_deny_read (pi_fields i) \<noteq> [] \<or> pf_deny_write (pi_fields i) \<noteq> []
         then [(yaml_string ''fields'', fields_node (pi_fields i))] else []))"

definition encode_policy_file :: "(policy_fields \<Rightarrow> node) \<Rightarrow> policy_item list \<Rightarrow> node" where
  "encode_policy_file fields_node items =
     MappingNode [(yaml_string ''policy'', Sequence (map (policy_item_node fields_node) items))]"

definition role_node :: "role \<Rightarrow> node" where
  "role_node r = MappingNode
     ([(yaml_string ''name'', yaml_string (ro_name r)), (yaml_string ''label'', yaml_string (ro_label r))]
      @ (if blank (ro_description r) then [] else [(yaml_string ''description'', yaml_string (ro_description r))]))"

definition encode_roles_file :: "role list \<Rightarrow> node" where
  "encode_roles_file roles = MappingNode [(yaml_string ''roles'', Sequence (map role_node roles))]"

end
