(* ===== verification/Access_Roundtrip.thy ===== *)
theory Access_Roundtrip
  imports Access_Policy
begin

text \<open>
  Decoding and encoding of policies: every policy item the decoder accepts is canonical, and the node
  the exporter writes for a canonical item decodes to the same item.
\<close>

section \<open>Canonical items\<close>

definition membership_ok :: "membership \<Rightarrow> bool" where
  "membership_ok m \<longleftrightarrow> is_name (mb_entity m) \<and> is_name (mb_value m) \<and> mb_where m \<noteq> []
     \<and> sorted_wrt (<) (map fst (mb_where m)) \<and> (\<forall>p\<in>set (mb_where m). snd p = ''actor.user'')"

definition condition_ok :: "condition \<Rightarrow> bool" where
  "condition_ok c \<longleftrightarrow> has_prefix (co_field c) ''record.''
     \<and> (case co_in c of None \<Rightarrow> co_equals c = ''actor.user'' | Some m \<Rightarrow> co_equals c = [] \<and> membership_ok m)"

definition when_ok :: "policy_when \<Rightarrow> bool" where
  "when_ok w \<longleftrightarrow> (wh_match w = ''all'' \<or> wh_match w = ''any'') \<and> wh_conditions w \<noteq> []
     \<and> (\<forall>c\<in>set (wh_conditions w). condition_ok c)"

definition actions_ok :: "action list \<Rightarrow> bool" where
  "actions_ok as \<longleftrightarrow> distinct as \<and> (\<forall>a\<in>set as. is_name a)"

definition item_ok :: "policy_item \<Rightarrow> bool" where
  "item_ok i \<longleftrightarrow> is_name (pi_role i) \<and> actions_ok (pi_can i) \<and> (\<forall>w. pi_when i = Some w \<longrightarrow> when_ok w)"

lemma put_key_keys: "set (map fst (put_key k v m)) = insert k (set (map fst m))"
  by (induction k v m rule: put_key.induct) auto

lemma put_key_sorted: "sorted_wrt (<) (map fst m) \<Longrightarrow> sorted_wrt (<) (map fst (put_key k v m))"
proof (induction m)
  case (Cons p m)
  obtain k' v' where p: "p = (k', v')" by fastforce
  show ?case
  proof (cases "k = k' \<or> k < k'")
    case True
    then show ?thesis using Cons.prems p by auto
  next
    case False
    then have "k' < k" by auto
    with Cons p put_key_keys [of k v m] show ?thesis by auto
  qed
qed simp

lemma put_key_last: "\<forall>p\<in>set m. fst p < k \<Longrightarrow> put_key k v m = m @ [(k, v)]"
  by (induction m) auto

lemma put_key_values: "p \<in> set (put_key k v m) \<Longrightarrow> p = (k, v) \<or> p \<in> set m"
  by (induction m) (auto split: if_splits)

lemma put_key_nonempty: "put_key k v m \<noteq> []"
  by (cases "(k, v, m)" rule: put_key.cases) auto

lemma check_name_Inr: "check_name kind v = Inr u \<longleftrightarrow> is_name (trim_space v)"
  by (auto simp: check_name_def validate_metadata_name_def Let_def split: option.splits)

section \<open>The decoder gives canonical items\<close>

definition where_ok :: "(string \<times> string) list \<Rightarrow> bool" where
  "where_ok w \<longleftrightarrow> sorted_wrt (<) (map fst w) \<and> (\<forall>p\<in>set w. snd p = ''actor.user'')"

lemma decode_where_entry_ok: "where_ok w \<Longrightarrow> decode_where_entry w p = Inr w' \<Longrightarrow> where_ok w'"
  using put_key_sorted put_key_values
  by (fastforce simp: where_ok_def decode_where_entry_def split: sum.splits if_splits)

lemma scalar_string_trimmed: "scalar_string n what = Inr s \<Longrightarrow> trim_space s = s"
  by (auto simp: scalar_string_def split: node.splits)

definition membership_part :: "membership \<Rightarrow> bool" where
  "membership_part m \<longleftrightarrow> trim_space (mb_entity m) = mb_entity m \<and> trim_space (mb_value m) = mb_value m \<and> where_ok (mb_where m)"

lemma decode_membership_entry_ok:
  assumes "membership_part m" "decode_membership_entry m p = Inr m'"
  shows "membership_part m'"
proof -
  have w: "foldR decode_where_entry (mb_where m) ps = Inr w' \<Longrightarrow> where_ok w'" for ps w'
    using assms(1) decode_where_entry_ok by (auto simp: membership_part_def intro: foldR_keeps)
  show ?thesis
    using assms w scalar_string_trimmed
    by (auto simp: decode_membership_entry_def membership_part_def Let_def bindR_Inr_iff
        split: if_splits option.splits)
qed

lemma decode_policy_membership_ok:
  assumes "decode_policy_membership n = Inr m"
  shows "membership_ok m"
proof -
  obtain ps where ps: "foldR decode_membership_entry \<lparr>mb_entity = [], mb_value = [], mb_where = []\<rparr> ps = Inr m"
    and c: "is_name (trim_space (mb_entity m))" "is_name (trim_space (mb_value m))" "mb_where m \<noteq> []"
    using assms
    by (auto simp: decode_policy_membership_def bindR_Inr_iff check_name_Inr split: option.splits if_splits)
  have "membership_part m"
  proof (rule foldR_keeps [OF ps])
    show "membership_part \<lparr>mb_entity = [], mb_value = [], mb_where = []\<rparr>" by (simp add: membership_part_def where_ok_def)
  qed (rule decode_membership_entry_ok)
  with c show ?thesis by (simp add: membership_ok_def membership_part_def where_ok_def)
qed

lemma decode_policy_condition_ok:
  assumes "decode_policy_condition k n = Inr c" "has_prefix k ''record.''"
  shows "condition_ok c"
  using assms decode_policy_membership_ok
  by (auto simp: decode_policy_condition_def condition_ok_def bindR_Inr_iff
      split: node.splits if_splits list.splits prod.splits)

lemma decode_policy_when_ok:
  assumes "decode_policy_when n = Inr w"
  shows "when_ok w"
proof -
  obtain ps where ps: "foldR decode_when_entry \<lparr>wh_match = ''all'', wh_conditions = []\<rparr> ps = Inr w"
    and c: "wh_match w = ''all'' \<or> wh_match w = ''any''" "wh_conditions w \<noteq> []"
    using assms by (auto simp: decode_policy_when_def bindR_Inr_iff split: option.splits if_splits)
  have "\<forall>c\<in>set (wh_conditions w). condition_ok c"
    by (rule foldR_keeps [OF ps])
      (auto simp: decode_when_entry_def Let_def bindR_Inr_iff split: if_splits dest: decode_policy_condition_ok)
  with c show ?thesis by (simp add: when_ok_def)
qed

lemma collect_actions_ok: "collect_actions acc vs = Inr as \<Longrightarrow> actions_ok acc \<Longrightarrow> actions_ok as"
proof (induction vs arbitrary: acc)
  case (Cons v vs)
  then obtain a where a: "parse_action v = Inr a" "a \<notin> set acc" "collect_actions (acc @ [a]) vs = Inr as"
    by (auto split: sum.splits if_splits)
  then have "is_name a"
    by (auto simp: parse_action_def validate_metadata_name_def Let_def split: option.splits if_splits)
  with Cons.IH [OF a(3)] a(2) Cons.prems(2) show ?case by (auto simp: actions_ok_def)
qed simp

definition item_part :: "policy_item \<Rightarrow> bool" where
  "item_part i \<longleftrightarrow> trim_space (pi_role i) = pi_role i \<and> actions_ok (pi_can i) \<and> (\<forall>w. pi_when i = Some w \<longrightarrow> when_ok w)"

lemma decode_item_entry_ok:
  assumes "item_part i" "decode_item_entry db i p = Inr i'"
  shows "item_part i'"
proof -
  have "actions_ok []" by (simp add: actions_ok_def)
  with assms scalar_string_trimmed collect_actions_ok decode_policy_when_ok show ?thesis
    by (auto simp: decode_item_entry_def item_part_def decode_actions_def Let_def bindR_Inr_iff
        split: if_splits option.splits)
qed

lemma decode_policy_item_ok:
  assumes "decode_policy_item db n = Inr i"
  shows "item_ok i"
proof -
  obtain ps where ps: "foldR (decode_item_entry db) no_policy_item ps = Inr i" and r: "is_name (trim_space (pi_role i))"
    using assms by (auto simp: decode_policy_item_def bindR_Inr_iff check_name_Inr split: option.splits if_splits)
  have "item_part i"
  proof (rule foldR_keeps [OF ps])
    show "item_part no_policy_item" by (simp add: item_part_def no_policy_item_def actions_ok_def)
  qed (rule decode_item_entry_ok)
  with r show ?thesis by (simp add: item_part_def item_ok_def)
qed

section \<open>Encoding a canonical item and decoding it again\<close>

lemma actor_user_trimmed: "trim_space ''actor.user'' = ''actor.user''"
  by code_simp

lemma where_entries:
  assumes "where_ok w"
  shows "map (\<lambda>k. (yaml_string k, yaml_string (the (map_of w k)))) (sort (map fst w))
    = map (\<lambda>p. (yaml_string (fst p), yaml_string (snd p))) w"
proof -
  have "sorted_wrt (<) (map fst w)" using assms by (simp add: where_ok_def)
  then have s: "sort (map fst w) = map fst w" and d: "distinct (map fst w)"
    by (auto simp: strict_sorted_iff sorted_sort_id)
  have "map_of w (fst p) = Some (snd p)" if "p \<in> set w" for p
    using map_of_is_SomeI [OF d, of "fst p" "snd p"] that by simp
  then show ?thesis by (simp add: s)
qed

lemma decode_where:
  assumes "where_ok (acc @ w)"
  shows "foldR decode_where_entry acc (map (\<lambda>p. (yaml_string (fst p), yaml_string (snd p))) w) = Inr (acc @ w)"
  using assms
proof (induction w arbitrary: acc)
  case (Cons p w)
  have v: "snd p = ''actor.user''" and l: "\<forall>q\<in>set acc. fst q < fst p"
    using Cons.prems by (auto simp: where_ok_def sorted_wrt_append)
  have "decode_where_entry acc (yaml_string (fst p), yaml_string (snd p)) = Inr (acc @ [p])"
    using put_key_last [OF l, of "snd p"] v
    by (cases p) (simp add: decode_where_entry_def scalar_string_def yaml_string_def actor_user_trimmed)
  with Cons.IH [of "acc @ [p]"] Cons.prems show ?case by simp
qed simp

lemma decode_membership_node:
  assumes "membership_ok m"
  shows "decode_policy_membership (membership_node m) = Inr m"
proof -
  have w: "where_ok (mb_where m)" "mb_where m \<noteq> []" and n: "is_name (mb_entity m)" "is_name (mb_value m)"
    using assms by (auto simp: membership_ok_def where_ok_def)
  have "foldR decode_membership_entry \<lparr>mb_entity = [], mb_value = [], mb_where = []\<rparr>
      [(yaml_string ''entity'', yaml_string (mb_entity m)), (yaml_string ''value'', yaml_string (mb_value m)),
       (yaml_string ''where'', MappingNode (map (\<lambda>p. (yaml_string (fst p), yaml_string (snd p))) (mb_where m)))] = Inr m"
    using decode_where [of "[]" "mb_where m"] w is_name_trim [OF n(1)] is_name_trim [OF n(2)]
    by (simp add: decode_membership_entry_def yaml_string_def scalar_string_def value_mapping_def)
  then show ?thesis
    using w n is_name_trim
    by (simp add: decode_policy_membership_def membership_node_def where_entries [OF w(1)] value_mapping_def
        check_name_def validate_metadata_name_def is_name_nonempty)
qed

lemma decode_condition_entry:
  assumes "condition_ok c"
  shows "decode_policy_condition (co_field c) (snd (condition_entry c)) = Inr c"
proof (cases "co_in c")
  case None
  then show ?thesis using assms
    by (simp add: condition_ok_def condition_entry_def decode_policy_condition_def yaml_string_def actor_user_trimmed)
next
  case (Some m)
  then show ?thesis using assms decode_membership_node [of m]
    by (simp add: condition_ok_def condition_entry_def decode_policy_condition_def yaml_string_def)
qed

lemma decode_conditions:
  assumes "\<forall>c\<in>set cs. condition_ok c"
  shows "foldR decode_when_entry w (map condition_entry cs) = Inr (w\<lparr>wh_conditions := wh_conditions w @ cs\<rparr>)"
  using assms
proof (induction cs arbitrary: w)
  case (Cons c cs)
  have f: "fst (condition_entry c) = yaml_string (co_field c)" by (simp add: condition_entry_def)
  have p: "has_prefix (co_field c) ''record.''" using Cons.prems by (simp add: condition_ok_def)
  then have "co_field c \<noteq> ''match''" by auto
  then have "decode_when_entry w (condition_entry c) = Inr (w\<lparr>wh_conditions := wh_conditions w @ [c]\<rparr>)"
    using p Cons.prems decode_condition_entry [of c]
    by (simp add: decode_when_entry_def f yaml_string_def)
  with Cons show ?case by simp
qed simp

lemma decode_when_node:
  assumes "when_ok w"
  shows "decode_policy_when (policy_when_node w) = Inr w"
proof -
  have any: "trim_space ''any'' = ''any''" by code_simp
  have cs: "\<forall>c\<in>set (wh_conditions w). condition_ok c" and ne: "wh_conditions w \<noteq> []"
    and m: "wh_match w = ''all'' \<or> wh_match w = ''any''"
    using assms by (auto simp: when_ok_def)
  have "foldR decode_when_entry \<lparr>wh_match = ''all'', wh_conditions = []\<rparr>
    ((if wh_match w = ''any'' then [(yaml_string ''match'', yaml_string ''any'')] else [])
      @ map condition_entry (wh_conditions w)) = Inr w"
    using m decode_conditions [OF cs]
    by (auto simp: decode_when_entry_def yaml_string_def scalar_string_def any)
  then show ?thesis using m ne
    by (auto simp: decode_policy_when_def policy_when_node_def value_mapping_def)
qed

lemma collect_canonical:
  assumes "actions_ok (acc @ as)"
  shows "collect_actions acc as = Inr (acc @ as)"
  using assms
proof (induction as arbitrary: acc)
  case (Cons a as)
  then have "is_name a" "a \<notin> set acc" by (auto simp: actions_ok_def)
  with Cons.IH [of "acc @ [a]"] Cons.prems is_name_trim [of a] is_name_nonempty [of a] show ?case
    by (simp add: parse_action_def validate_metadata_name_def)
qed simp

lemma decode_actions_node:
  assumes "actions_ok as"
  shows "decode_actions (Sequence (map yaml_string as)) = Inr as"
proof -
  have "mapR (\<lambda>x. scalar_string x ''policy can'') (map yaml_string as) = Inr as"
    using assms is_name_trim
    by (auto simp: mapR_Inr_iff list_all2_conv_all_nth actions_ok_def scalar_string_def yaml_string_def)
  with collect_canonical [of "[]" as] assms show ?thesis
    by (simp add: decode_actions_def scalar_string_sequence_def)
qed

lemma decode_item_node:
  assumes ok: "item_ok i" and nf: "pi_fields i = no_policy_fields" and db: "decode_bool (yaml_bool True) = Some True"
  shows "decode_policy_item decode_bool (policy_item_node fields_node i) = Inr i"
proof -
  let ?ps = "[(yaml_string ''role'', yaml_string (pi_role i)), (yaml_string ''can'', Sequence (map yaml_string (pi_can i)))]
      @ (if pi_override i then [(yaml_string ''override'', yaml_bool True)] else [])
      @ (case pi_when i of None \<Rightarrow> [] | Some w \<Rightarrow> [(yaml_string ''when'', policy_when_node w)])"
  have node: "policy_item_node fields_node i = MappingNode ?ps"
    by (simp add: policy_item_node_def nf no_policy_fields_def)
  have r: "is_name (pi_role i)" and a: "actions_ok (pi_can i)" and w: "\<And>w. pi_when i = Some w \<Longrightarrow> when_ok w"
    using ok by (auto simp: item_ok_def)
  have role: "decode_item_entry decode_bool no_policy_item (yaml_string ''role'', yaml_string (pi_role i))
      = Inr (no_policy_item\<lparr>pi_role := pi_role i\<rparr>)"
    using is_name_trim [OF r] by (simp add: decode_item_entry_def yaml_string_def scalar_string_def)
  have can: "decode_item_entry decode_bool j (yaml_string ''can'', Sequence (map yaml_string (pi_can i)))
      = Inr (j\<lparr>pi_can := pi_can i\<rparr>)" for j
    using decode_actions_node [OF a] by (simp add: decode_item_entry_def yaml_string_def)
  have over: "decode_item_entry decode_bool j (yaml_string ''override'', yaml_bool True) = Inr (j\<lparr>pi_override := True\<rparr>)" for j
    using db by (simp add: decode_item_entry_def yaml_string_def)
  have wh: "decode_item_entry decode_bool j (yaml_string ''when'', policy_when_node v) = Inr (j\<lparr>pi_when := Some v\<rparr>)"
    if "pi_when i = Some v" for j v
    using decode_when_node [OF w [OF that]] by (simp add: decode_item_entry_def yaml_string_def)
  have "foldR (decode_item_entry decode_bool) no_policy_item ?ps = Inr i"
  proof (cases "pi_when i"; cases "pi_override i")
  qed (use nf in \<open>simp_all add: role can over wh, simp_all add: no_policy_item_def\<close>)
  then show ?thesis using is_name_trim [OF r] is_name_nonempty [OF r] r
    by (simp add: decode_policy_item_def node value_mapping_def yaml_string_def check_name_def validate_metadata_name_def)
qed


definition sample_decode_bool :: "node \<Rightarrow> bool option" where
  "sample_decode_bool n = (case n of Scalar t v \<Rightarrow> if t = ''!!bool'' then Some (v = ''true'') else None | _ \<Rightarrow> None)"

definition sample_policy_node :: node where
  "sample_policy_node = MappingNode
     [(yaml_string ''can'', Sequence [yaml_string ''read'', yaml_string ''approve'']),
      (yaml_string ''role'', yaml_string '' sales-user ''),
      (yaml_string ''when'', MappingNode
        [(yaml_string ''record.team'', MappingNode [(yaml_string ''in'', MappingNode
           [(yaml_string ''where'', MappingNode [(yaml_string ''user'', yaml_string ''actor.user''),
               (yaml_string ''backup'', yaml_string ''actor.user'')]),
            (yaml_string ''entity'', yaml_string ''membership''), (yaml_string ''value'', yaml_string ''team'')])]),
         (yaml_string ''match'', yaml_string ''any''),
         (yaml_string ''record.owner'', yaml_string ''actor.user'')]),
      (yaml_string ''override'', yaml_bool True)]"

definition sample_policy :: policy_item where
  "sample_policy = projr (decode_policy_item sample_decode_bool sample_policy_node)"

lemma sample_policy_decodes: "decode_policy_item sample_decode_bool sample_policy_node = Inr sample_policy"
  by code_simp


text \<open>Field rules are handed to the YAML library as a struct without \<^verbatim>\<open>yaml\<close> tags, and the library names
  such fields by their lower-cased Go names: the exported file is refused when it is loaded.\<close>

lemma exported_field_rules_refused:
  assumes "fields_node (pi_fields i) = MappingNode ((yaml_string ''denyread'', Sequence vs) # ps)"
    and "pf_deny_read (pi_fields i) \<noteq> []"
  shows "isl (decode_policy_fields (fields_node (pi_fields i)))"
proof -
  have "isl (decode_fields_entry no_policy_fields (yaml_string ''denyread'', Sequence vs))"
    by (cases "scalar_string_sequence (Sequence vs) ''policy fields denyread''")
      (simp_all add: decode_fields_entry_def yaml_string_def)
  then show ?thesis
    by (auto simp: assms(1) decode_policy_fields_def value_mapping_def split: sum.splits)
qed

end
