(* ===== verification/Access_Plan.thy ===== *)
theory Access_Plan
  imports Access_Policy Entity_Catalog
begin

text \<open>
  The access plan (\<^verbatim>\<open>internal/access/access.go\<close>): validation of roles and policies against the loaded
  metadata, the resolution of overlapping policies into grants, the merge of live permissions into
  exported files, and the writes that apply a plan to the Core tables.
\<close>

record grant =
  gr_app :: string
  gr_entity :: string
  gr_page :: string
  gr_role :: string
  gr_can :: "action list"
  gr_when :: "policy_when option"
  gr_fields :: policy_fields

record access_plan =
  ap_roles :: "role list"
  ap_policies :: "policy_file list"
  ap_grants :: "grant list"

section \<open>Discovery order\<close>

definition sort_roles :: "role list \<Rightarrow> role list" where
  "sort_roles rs = sort_key (\<lambda>r. [ro_app r, ro_name r]) rs"

text \<open>The project path breaks ties; it is a parameter here.\<close>

definition sort_policies :: "(policy_file \<Rightarrow> string) \<Rightarrow> policy_file list \<Rightarrow> policy_file list" where
  "sort_policies path ps = sort_key (\<lambda>p. join nul [po_contributor p, po_target p, po_entity p, po_page p, path p]) ps"

section \<open>Validation\<close>

fun check_unique_roles :: "string list \<Rightarrow> role list \<Rightarrow> message + unit" where
  "check_unique_roles seen [] = Inr ()"
| "check_unique_roles seen (r # rs) =
     (if ro_name r \<in> set seen then Inl (''role %q duplicates role'', [ro_name r])
      else check_unique_roles (ro_name r # seen) rs)"

type_synonym entity_map = "string \<Rightarrow> string \<Rightarrow> loaded_entity option"

definition entity_map :: "loaded_entity list \<Rightarrow> entity_map" where
  "entity_map es app name = map_of (rev (map (\<lambda>e. (le_key e, e)) es)) (catalog_key app name)"

fun record_path :: "entity_map \<Rightarrow> string \<Rightarrow> loaded_entity \<Rightarrow> string list \<Rightarrow> message + field" where
  "record_path em raw current [] = Inl (''condition path is required'', [])"
| "record_path em raw current (n # ns) =
     (if n = ''id'' \<and> ns = [] then Inr (name_field\<lparr>fd_name := ''id'', fd_type := ''bigint''\<rparr>)
      else if n = ''owner'' \<and> ns = [] then Inr (name_field\<lparr>fd_name := ''owner'', fd_type := ''link''\<rparr>)
      else case catalog_field current n of
        None \<Rightarrow> Inl (''condition path %q references unknown field %q'', [raw, n])
      | Some f \<Rightarrow>
          if ns = [] then Inr f
          else if fd_type f \<noteq> ''link'' then Inl (''condition path %q traverses non-Link field %q'', [raw, n])
          else let app = (if fo_app (fd_options f) = [] then le_app current else fo_app (fd_options f)) in
            case em app (fo_entity (fd_options f)) of
              None \<Rightarrow> Inl (''condition path %q target %s/%s is not loaded'', [raw, app, fo_entity (fd_options f)])
            | Some next_entity \<Rightarrow> record_path em raw next_entity ns)"

definition validate_record_path :: "entity_map \<Rightarrow> loaded_entity \<Rightarrow> string \<Rightarrow> message + field" where
  "validate_record_path em root raw = record_path em raw root (split_on (CHR ''.'') (trim_prefix raw ''record.''))"

definition validate_condition :: "entity_map \<Rightarrow> string \<Rightarrow> loaded_entity \<Rightarrow> condition \<Rightarrow> message + unit" where
  "validate_condition em target_app root c =
     bindR (validate_record_path em root (co_field c)) (\<lambda>cur.
       if co_equals c = ''actor.user'' \<and> fd_type cur \<noteq> ''link''
       then Inl (''condition %q must resolve to a user Link'', [co_field c])
       else case co_in c of None \<Rightarrow> Inr ()
       | Some m \<Rightarrow> (case em target_app (mb_entity m) of
            None \<Rightarrow> Inl (''assignment Entity %q is not loaded in app %q'', [mb_entity m, target_app])
          | Some a \<Rightarrow> (case catalog_field a (mb_value m) of
              None \<Rightarrow> Inl (''assignment value field %q does not exist on %q'', [mb_value m, mb_entity m])
            | Some vf \<Rightarrow>
                if fd_type vf \<noteq> fd_type cur \<and> \<not> (co_field c = ''record.id'' \<and> fd_type vf = ''link'')
                then Inl (''assignment value field %q does not match %q'', [mb_value m, co_field c])
                else foldR (\<lambda>_ p. case catalog_field a (fst p) of
                    Some f \<Rightarrow> if fd_type f = ''link'' then Inr ()
                      else Inl (''assignment where field %q must be a user Link'', [fst p])
                  | None \<Rightarrow> Inl (''assignment where field %q must be a user Link'', [fst p])) () (mb_where m))))"

definition validate_policy_rules :: "entity_map \<Rightarrow> policy_file \<Rightarrow> policy_item \<Rightarrow> message + unit" where
  "validate_policy_rules em file item =
     (case em (po_target file) (po_entity file) of
        None \<Rightarrow> Inl (''access target Entity is not loaded'', [])
      | Some root \<Rightarrow>
        bindR (foldR (\<lambda>_ f. if f = ''owner'' \<or> catalog_field root f \<noteq> None then Inr ()
            else Inl (''field rule references unknown field %q'', [f]))
            () (pf_deny_read (pi_fields item) @ pf_deny_write (pi_fields item))) (\<lambda>_.
          case pi_when item of None \<Rightarrow> Inr ()
          | Some w \<Rightarrow> foldR (\<lambda>_ c. validate_condition em (po_target file) root c) () (wh_conditions w)))"

definition check_policy_item :: "entity_map \<Rightarrow> string list \<Rightarrow> policy_file \<Rightarrow> policy_item \<Rightarrow> message + unit" where
  "check_policy_item em known file item =
     (if pi_role item \<notin> set known then Inl (''policy references unknown role %q'', [pi_role item])
      else if po_entity file \<noteq> [] then validate_policy_rules em file item
      else if pi_when item \<noteq> None \<or> pf_deny_read (pi_fields item) \<noteq> [] \<or> pf_deny_write (pi_fields item) \<noteq> []
        then Inl (''Page policies do not support when or fields'', [])
      else Inr ())"

definition check_policy_target :: "entity_map \<Rightarrow> string list \<Rightarrow> policy_file \<Rightarrow> message + unit" where
  "check_policy_target em pages file =
     (if po_entity file \<noteq> [] \<and> po_page file \<noteq> [] then Inl (''access target must be one of Entity or Page'', [])
      else if po_entity file \<noteq> [] \<and> em (po_target file) (po_entity file) = None
        then Inl (''access target Entity %s/%s is not loaded'', [po_target file, po_entity file])
      else if po_entity file = [] \<and> po_page file = [] then Inl (''access target is required'', [])
      else if po_entity file = [] \<and> pages \<noteq> [] \<and> catalog_key (po_target file) (po_page file) \<notin> set pages
        then Inl (''access target Page %s/%s is not loaded'', [po_target file, po_page file])
      else Inr ())"

definition target_kind :: "policy_file \<Rightarrow> string" where
  "target_kind file = (if po_entity file = [] then ''page'' @ nul @ po_page file else ''entity'' @ nul @ po_entity file)"

definition policy_key :: "string \<Rightarrow> string \<Rightarrow> string \<Rightarrow> string" where
  "policy_key app entity role = app @ nul @ entity @ nul @ role"

definition item_key :: "policy_file \<times> policy_item \<Rightarrow> string" where
  "item_key p = policy_key (po_target (fst p)) (target_kind (fst p)) (pi_role (snd p))"

definition grant_of :: "policy_file \<times> policy_item \<Rightarrow> grant" where
  "grant_of p = \<lparr>gr_app = po_target (fst p), gr_entity = po_entity (fst p), gr_page = po_page (fst p),
     gr_role = pi_role (snd p), gr_can = pi_can (snd p), gr_when = pi_when (snd p), gr_fields = pi_fields (snd p)\<rparr>"

text \<open>One policy stands alone; several need exactly one override, which then replaces the others.\<close>

definition resolve_policy_group :: "(policy_file \<times> policy_item) list \<Rightarrow> message + grant" where
  "resolve_policy_group ps =
     (case ps of [] \<Rightarrow> Inl (''empty policy group'', [])
      | [p] \<Rightarrow> Inr (grant_of p)
      | p # _ \<Rightarrow>
          (case filter (\<lambda>q. pi_override (snd q)) ps of
             [q] \<Rightarrow> Inr (grant_of q)
           | _ \<Rightarrow> Inl (''duplicate policy for %s/%s role %q; add override: true to the intended replacement'',
               [po_target (fst p), (if po_entity (fst p) = [] then po_page (fst p) @ '' (page)'' else po_entity (fst p)),
                pi_role (snd p)])))"

definition check_policies :: "entity_map \<Rightarrow> string list \<Rightarrow> string list \<Rightarrow> policy_file list \<Rightarrow> message + unit" where
  "check_policies em pages known files =
     foldR (\<lambda>_ file. bindR (check_policy_target em pages file) (\<lambda>_.
       foldR (\<lambda>_ item. check_policy_item em known file item) () (po_items file))) () files"

definition grouped_policies :: "policy_file list \<Rightarrow> (policy_file \<times> policy_item) list" where
  "grouped_policies files = concat (map (\<lambda>f. map (Pair f) (po_items f)) files)"

definition grant_rank :: "grant \<Rightarrow> string" where
  "grant_rank g = join nul [gr_app g, gr_entity g, gr_page g, gr_role g]"

definition resolve_grants :: "(policy_file \<times> policy_item) list \<Rightarrow> message + grant list" where
  "resolve_grants ps =
     bindR (mapR (\<lambda>k. resolve_policy_group (filter (\<lambda>p. item_key p = k) ps)) (dedup (map item_key ps)))
       (\<lambda>gs. Inr (sort_key grant_rank gs))"

definition validate_access_plan :: "loaded_entity list \<Rightarrow> string list \<Rightarrow> string list \<Rightarrow> access_plan \<Rightarrow> message + access_plan" where
  "validate_access_plan es pages existing plan =
     bindR (check_unique_roles [] (ap_roles plan)) (\<lambda>_.
     bindR (check_policies (entity_map es) pages (map ro_name (ap_roles plan) @ existing) (ap_policies plan)) (\<lambda>_.
     bindR (resolve_grants (grouped_policies (ap_policies plan))) (\<lambda>gs. Inr (plan\<lparr>ap_grants := gs\<rparr>))))"

section \<open>Exporting live access\<close>

record exported_permission =
  ep_role :: role
  ep_can :: "action list"
  ep_when :: "policy_when option"
  ep_fields :: policy_fields

definition sorted_unique_strings :: "string list \<Rightarrow> string list" where
  "sorted_unique_strings vs = sort (dedup vs)"

definition actions_from_values :: "(action \<Rightarrow> bool) \<Rightarrow> action list" where
  "actions_from_values value = filter value supported_actions"

definition custom_actions :: "action list \<Rightarrow> action list" where
  "custom_actions as = sort (filter (\<lambda>a. \<not> is_built_in_action a) as)"

definition export_role_names :: "role list \<Rightarrow> exported_permission list \<Rightarrow> bool \<Rightarrow> string list" where
  "export_role_names roles exported policy_only =
     (if policy_only then map (ro_name \<circ> ep_role) exported else map ro_name roles)"

text \<open>Both merges change the first item with the name in place, or append.\<close>

fun update_first :: "('a \<Rightarrow> bool) \<Rightarrow> ('a \<Rightarrow> 'a) \<Rightarrow> 'a list \<Rightarrow> 'a list" where
  "update_first P f [] = []"
| "update_first P f (x # xs) = (if P x then f x # xs else x # update_first P f xs)"

definition upsert_export_role :: "(string \<Rightarrow> role option) \<Rightarrow> (string \<Rightarrow> string option) \<Rightarrow> string \<Rightarrow>
    role list \<times> nat \<Rightarrow> string \<Rightarrow> role list \<times> nat" where
  "upsert_export_role db represented dest st name =
     (let (roles, changed) = st in
      case db name of None \<Rightarrow> st
      | Some r \<Rightarrow>
          (case find (\<lambda>x. ro_name x = name) roles of
             Some x \<Rightarrow> if ro_label x \<noteq> ro_label r \<or> ro_description x \<noteq> ro_description r
               then (update_first (\<lambda>x. ro_name x = name)
                   (\<lambda>x. x\<lparr>ro_label := ro_label r, ro_description := ro_description r\<rparr>) roles, changed + 1)
               else st
           | None \<Rightarrow> if (case represented name of None \<Rightarrow> False | Some owner \<Rightarrow> owner \<noteq> dest) then st
               else (roles @ [r\<lparr>ro_app := dest\<rparr>], changed + 1)))"

definition upsert_export_roles :: "role list \<Rightarrow> (string \<Rightarrow> role option) \<Rightarrow> (string \<Rightarrow> string option) \<Rightarrow> string \<Rightarrow>
    string list \<Rightarrow> role list \<times> nat" where
  "upsert_export_roles existing db represented dest names =
     foldl (upsert_export_role db represented dest) (existing, 0) (sorted_unique_strings names)"

definition upsert_export_policy_item :: "policy_item list \<times> nat \<Rightarrow> exported_permission \<Rightarrow> policy_item list \<times> nat" where
  "upsert_export_policy_item st p =
     (let (items, changed) = st; name = ro_name (ep_role p) in
      case find (\<lambda>i. pi_role i = name) items of
        Some i \<Rightarrow> if pi_can i \<noteq> ep_can p \<or> pi_when i \<noteq> ep_when p \<or> pi_fields i \<noteq> ep_fields p
          then (update_first (\<lambda>i. pi_role i = name)
              (\<lambda>i. i\<lparr>pi_can := ep_can p, pi_when := ep_when p, pi_fields := ep_fields p\<rparr>) items, changed + 1)
          else st
      | None \<Rightarrow> (items @ [\<lparr>pi_role = name, pi_can = ep_can p, pi_when = ep_when p, pi_fields = ep_fields p,
          pi_override = False\<rparr>], changed + 1))"

definition upsert_export_policy_items :: "policy_item list \<Rightarrow> exported_permission list \<Rightarrow> policy_item list \<times> nat" where
  "upsert_export_policy_items existing exported = foldl upsert_export_policy_item (existing, 0) exported"

definition policy_export_path :: "string \<Rightarrow> app_ref \<Rightarrow> string" where
  "policy_export_path dest target =
     path_join ([''apps/'' @ dest, ''access''] @ (if ref_app target \<noteq> dest then [ref_app target] else [])
       @ [ref_name target @ ''.access.yml''])"

end
