(* ===== verification/Permission_Check.thy ===== *)
theory Permission_Check
  imports Access_Plan
begin

text \<open>
  Permissions at run time: the Core access tables, the writes that apply an access plan
  (\<^verbatim>\<open>applyPlan\<close> in \<^verbatim>\<open>internal/access/access.go\<close>), and the checker of
  \<^verbatim>\<open>internal/permissions/permissions.go\<close> with its SQL query read as a predicate over the tables.
\<close>

section \<open>The tables\<close>

record user_row =
  us_id :: int
  us_enabled :: bool

record role_row =
  rl_id :: int
  rl_name :: string
  rl_label :: string
  rl_description :: "string option"
  rl_enabled :: bool

record entity_row =
  er_id :: int
  er_app :: string
  er_key :: string
  er_slug :: string
  er_retired :: bool

record page_row =
  pg_id :: int
  pg_app :: string
  pg_key :: string
  pg_retired :: bool

text \<open>The target of a permission row is one of the two link columns (the \<^verbatim>\<open>exactly-one\<close> constraint).\<close>

datatype perm_target = EntityTarget int | PageTarget int

record perm_row =
  pm_target :: perm_target
  pm_role :: int
  pm_columns :: "(string \<times> bool) list"
  pm_actions :: "action list"
  pm_when :: "policy_when option"
  pm_fields :: policy_fields
  pm_retired :: bool

record access_db =
  ac_users :: "user_row list"
  ac_user_roles :: "(int \<times> int) list"
  ac_roles :: "role_row list"
  ac_entities :: "entity_row list"
  ac_pages :: "page_row list"
  ac_perms :: "perm_row list"
  ac_next :: int

section \<open>Applying a plan\<close>

datatype apply_error = RoleMissing string | EntityMissing string string | PageMissing string string

definition null_if_empty :: "string \<Rightarrow> string option" where
  "null_if_empty v = (if blank v then None else Some (trim_space v))"

definition upsert_role :: "access_db \<Rightarrow> role \<Rightarrow> access_db" where
  "upsert_role db r =
     (if list_ex (\<lambda>x. rl_name x = ro_name r) (ac_roles db)
      then db\<lparr>ac_roles := update_where (\<lambda>x. rl_name x = ro_name r)
        (\<lambda>x. x\<lparr>rl_label := ro_label r, rl_description := null_if_empty (ro_description r)\<rparr>) (ac_roles db)\<rparr>
      else db\<lparr>ac_roles := ac_roles db @ [\<lparr>rl_id = ac_next db, rl_name = ro_name r, rl_label = ro_label r,
          rl_description = null_if_empty (ro_description r), rl_enabled = True\<rparr>], ac_next := ac_next db + 1\<rparr>)"

definition upsert_roles :: "access_db \<Rightarrow> role list \<Rightarrow> access_db" where
  "upsert_roles db rs = foldl upsert_role db rs"

definition role_id_by_name :: "access_db \<Rightarrow> string \<Rightarrow> apply_error + int" where
  "role_id_by_name db name =
     (case find (\<lambda>x. rl_name x = name) (ac_roles db) of None \<Rightarrow> Inl (RoleMissing name) | Some r \<Rightarrow> Inr (rl_id r))"

definition entity_id :: "access_db \<Rightarrow> string \<Rightarrow> string \<Rightarrow> apply_error + int" where
  "entity_id db app key =
     (case find (\<lambda>x. er_app x = app \<and> er_key x = key) (ac_entities db) of
        None \<Rightarrow> Inl (EntityMissing app key) | Some r \<Rightarrow> Inr (er_id r))"

definition page_id :: "access_db \<Rightarrow> string \<Rightarrow> string \<Rightarrow> apply_error + int" where
  "page_id db app key =
     (case find (\<lambda>x. pg_app x = app \<and> pg_key x = key \<and> \<not> pg_retired x) (ac_pages db) of
        None \<Rightarrow> Inl (PageMissing app key) | Some r \<Rightarrow> Inr (pg_id r))"

definition action_values :: "action list \<Rightarrow> action \<Rightarrow> bool" where
  "action_values as a = (a \<in> set as)"

definition perm_row_of :: "perm_target \<Rightarrow> int \<Rightarrow> grant \<Rightarrow> perm_row" where
  "perm_row_of target role g =
     \<lparr>pm_target = target, pm_role = role,
      pm_columns = map (\<lambda>(a, column). (column, action_values (gr_can g) a)) action_specs,
      pm_actions = custom_actions (gr_can g), pm_when = gr_when g, pm_fields = gr_fields g, pm_retired = False\<rparr>"

definition upsert_permission :: "perm_target \<Rightarrow> int \<Rightarrow> grant \<Rightarrow> access_db \<Rightarrow> access_db" where
  "upsert_permission target role g db =
     (if list_ex (\<lambda>p. pm_target p = target \<and> pm_role p = role) (ac_perms db)
      then db\<lparr>ac_perms := update_where (\<lambda>p. pm_target p = target \<and> pm_role p = role) (\<lambda>_. perm_row_of target role g) (ac_perms db)\<rparr>
      else db\<lparr>ac_perms := ac_perms db @ [perm_row_of target role g]\<rparr>)"

definition grant_target :: "access_db \<Rightarrow> grant \<Rightarrow> apply_error + perm_target" where
  "grant_target db g =
     (if gr_entity g \<noteq> [] then bindR (entity_id db (gr_app g) (gr_entity g)) (\<lambda>i. Inr (EntityTarget i))
      else bindR (page_id db (gr_app g) (gr_page g)) (\<lambda>i. Inr (PageTarget i)))"

definition apply_grant :: "access_db \<Rightarrow> grant \<Rightarrow> apply_error + access_db" where
  "apply_grant db g =
     bindR (role_id_by_name db (gr_role g)) (\<lambda>role.
     bindR (grant_target db g) (\<lambda>target. Inr (upsert_permission target role g db)))"

definition apply_plan :: "access_plan \<Rightarrow> access_db \<Rightarrow> apply_error + access_db" where
  "apply_plan plan db = foldR apply_grant (upsert_roles db (ap_roles plan)) (ap_grants plan)"

section \<open>Requests\<close>

record actor =
  at_user :: int
  at_email :: string
  at_administrator :: bool

record resource =
  re_kind :: string
  re_app :: string
  re_name :: string

record permission_request =
  rq_actor :: actor
  rq_entity :: string
  rq_resource :: resource
  rq_action :: action
  rq_record :: int

record decision =
  de_allowed :: bool
  de_request :: permission_request
  de_reason :: string

datatype permission_error =
    UserIdInvalid int
  | EntityAndResource
  | ResourceKindInvalid string
  | ResourceNameRequired
  | PageAppRequired
  | RecordIdNegative int
  | ActionInvalid string
  | CustomActionNeedsEntity
  | PermissionDenied

definition no_resource :: resource where
  "no_resource = \<lparr>re_kind = [], re_app = [], re_name = []\<rparr>"

definition normalize_request :: "permission_request \<Rightarrow> permission_error + permission_request" where
  "normalize_request q =
     (let entity = trim_space (rq_entity q); r0 = rq_resource q;
          r1 = (if re_kind r0 = [] \<and> re_app r0 = [] \<and> re_name r0 = [] \<and> entity \<noteq> []
                then \<lparr>re_kind = ''entity'', re_app = [], re_name = entity\<rparr> else r0);
          r = \<lparr>re_kind = trim_space (re_kind r1), re_app = trim_space (re_app r1), re_name = trim_space (re_name r1)\<rparr>;
          action = trim_space (rq_action q)
      in if at_user (rq_actor q) \<le> 0 then Inl (UserIdInvalid (at_user (rq_actor q)))
         else if entity \<noteq> [] \<and> r0 \<noteq> no_resource then Inl EntityAndResource
         else if re_kind r \<noteq> ''entity'' \<and> re_kind r \<noteq> ''page'' then Inl (ResourceKindInvalid (re_kind r))
         else if re_name r = [] then Inl ResourceNameRequired
         else if re_kind r = ''page'' \<and> re_app r = [] then Inl PageAppRequired
         else if rq_record q < 0 then Inl (RecordIdNegative (rq_record q))
         else case parse_action action of Inl _ \<Rightarrow> Inl (ActionInvalid (rq_action q))
           | Inr _ \<Rightarrow> Inr (q\<lparr>rq_entity := (if re_kind r = ''entity'' then re_name r else entity),
               rq_resource := r, rq_action := action\<rparr>))"

section \<open>The query\<close>

text \<open>\<^verbatim>\<open>actionSQL\<close>: the column of a built-in action, or membership in the custom actions.\<close>

definition grants_action :: "action \<Rightarrow> perm_row \<Rightarrow> bool" where
  "grants_action a p =
     (case action_column a of Some column \<Rightarrow> map_of (pm_columns p) column = Some True
      | None \<Rightarrow> a \<in> set (pm_actions p))"

text \<open>\<^verbatim>\<open>targetSQL\<close> after the joins: retired Entities do not join.\<close>

definition targets_resource :: "access_db \<Rightarrow> resource \<Rightarrow> perm_row \<Rightarrow> bool" where
  "targets_resource db r p =
     (case pm_target p of
        PageTarget i \<Rightarrow> re_kind r = ''page'' \<and>
          list_ex (\<lambda>x. pg_id x = i \<and> pg_app x = re_app r \<and> pg_key x = re_name r \<and> \<not> pg_retired x) (ac_pages db)
      | EntityTarget i \<Rightarrow> re_kind r \<noteq> ''page'' \<and>
          list_ex (\<lambda>x. er_id x = i \<and> \<not> er_retired x \<and>
            (if re_app r \<noteq> [] then er_app x = re_app r \<and> er_key x = re_name r else er_slug x = re_name r)) (ac_entities db))"

definition enabled_roles :: "access_db \<Rightarrow> int \<Rightarrow> int list" where
  "enabled_roles db u =
     (if list_ex (\<lambda>x. us_id x = u \<and> us_enabled x) (ac_users db)
      then map rl_id (filter (\<lambda>r. rl_enabled r \<and> (u, rl_id r) \<in> set (ac_user_roles db)) (ac_roles db)) else [])"

definition permission_exists :: "access_db \<Rightarrow> int \<Rightarrow> resource \<Rightarrow> action \<Rightarrow> bool" where
  "permission_exists db u r a =
     list_ex (\<lambda>p. pm_role p \<in> set (enabled_roles db u) \<and> targets_resource db r p \<and> \<not> pm_retired p \<and> grants_action a p) (ac_perms db)"

definition allowed_decision :: "permission_request \<Rightarrow> decision" where
  "allowed_decision q = \<lparr>de_allowed = True, de_request = q, de_reason = ''allowed''\<rparr>"

definition check_permission :: "access_db \<Rightarrow> permission_request \<Rightarrow> permission_error + decision" where
  "check_permission db q0 =
     bindR (normalize_request q0) (\<lambda>q.
       if at_administrator (rq_actor q) then Inr (allowed_decision q)
       else if action_column (rq_action q) = None \<and> re_kind (rq_resource q) \<noteq> ''entity'' then Inl CustomActionNeedsEntity
       else if permission_exists db (at_user (rq_actor q)) (rq_resource q) (rq_action q) then Inr (allowed_decision q)
       else Inr ((allowed_decision q)\<lparr>de_allowed := False, de_reason := ''denied''\<rparr>))"

definition can :: "access_db \<Rightarrow> permission_request \<Rightarrow> permission_error + unit" where
  "can db q = bindR (check_permission db q) (\<lambda>d. if de_allowed d then Inr () else Inl PermissionDenied)"

definition check_resource :: "access_db \<Rightarrow> actor \<Rightarrow> resource \<Rightarrow> action \<Rightarrow> int \<Rightarrow> permission_error + decision" where
  "check_resource db a r act i =
     check_permission db \<lparr>rq_actor = a, rq_entity = [], rq_resource = r, rq_action = act, rq_record = i\<rparr>"

text \<open>\<^verbatim>\<open>CheckRole\<close>: one role by name, the Entity by slug.\<close>

datatype role_check_error = RoleRequired | RoleEntityRequired | RoleActionInvalid string

definition check_role :: "access_db \<Rightarrow> string \<Rightarrow> string \<Rightarrow> action \<Rightarrow> role_check_error + bool" where
  "check_role db role0 entity0 action0 =
     (let role = trim_space role0; entity = trim_space entity0; a = trim_space action0 in
      if role = [] then Inl RoleRequired
      else if entity = [] then Inl RoleEntityRequired
      else case parse_action a of Inl _ \<Rightarrow> Inl (RoleActionInvalid a)
      | Inr _ \<Rightarrow> Inr (list_ex (\<lambda>p. \<not> pm_retired p \<and> grants_action a p
          \<and> list_ex (\<lambda>r. rl_id r = pm_role p \<and> rl_enabled r \<and> rl_name r = role) (ac_roles db)
          \<and> (case pm_target p of PageTarget _ \<Rightarrow> False
             | EntityTarget i \<Rightarrow> list_ex (\<lambda>x. er_id x = i \<and> \<not> er_retired x \<and> er_slug x = entity) (ac_entities db))) (ac_perms db)))"

end
