(* ===== verification/Access_Guarantees.thy ===== *)
theory Access_Guarantees
  imports Permission_Check
begin

text \<open>
  What access plans guarantee: the grants of a validated plan, and the decisions of the permission
  checker after a plan has been applied.
\<close>

section \<open>Grants of a validated plan\<close>

definition grant_tuple :: "grant \<Rightarrow> string \<times> string \<times> string \<times> string" where
  "grant_tuple g = (gr_app g, gr_entity g, gr_page g, gr_role g)"

definition group_of :: "(policy_file \<times> policy_item) list \<Rightarrow> string \<Rightarrow> (policy_file \<times> policy_item) list" where
  "group_of ps k = filter (\<lambda>q. item_key q = k) ps"

text \<open>An item is effective when it is alone or the only override among the items for its target and role.\<close>

definition effective_in :: "(policy_file \<times> policy_item) list \<Rightarrow> policy_file \<times> policy_item \<Rightarrow> bool" where
  "effective_in ps p \<longleftrightarrow> ps = [p] \<or> filter (\<lambda>q. pi_override (snd q)) ps = [p]"

definition key_of_grant :: "grant \<Rightarrow> string" where
  "key_of_grant g = policy_key (gr_app g)
     (if gr_entity g = [] then ''page'' @ nul @ gr_page g else ''entity'' @ nul @ gr_entity g) (gr_role g)"

lemma key_of_grant_of [simp]: "key_of_grant (grant_of p) = item_key p"
  by (simp add: key_of_grant_def grant_of_def item_key_def target_kind_def)

lemma resolve_group_source:
  assumes "resolve_policy_group ps = Inr g"
  shows "\<exists>p\<in>set ps. g = grant_of p \<and> effective_in ps p"
proof -
  consider p where "ps = [p]" | p q qs where "ps = p # q # qs" | "ps = []" by (metis neq_Nil_conv)
  then show ?thesis
  proof cases
    case 1
    then show ?thesis using assms by (simp add: resolve_policy_group_def effective_in_def)
  next
    case (2 p q qs)
    let ?os = "filter (\<lambda>q. pi_override (snd q)) ps"
    obtain x where x: "?os = [x]" "g = grant_of x"
      using assms 2 by (auto simp: resolve_policy_group_def split: list.splits if_splits)
    from x(1) have "x \<in> set ?os" by simp
    then have "x \<in> set ps" unfolding set_filter by simp
    with x show ?thesis unfolding effective_in_def by blast
  next
    case 3
    then show ?thesis using assms by (simp add: resolve_policy_group_def)
  qed
qed

lemma resolve_grants_groups:
  assumes "resolve_grants ps = Inr gs"
  shows "distinct (map key_of_grant gs) \<and> set (map key_of_grant gs) = item_key ` set ps
    \<and> (\<forall>g\<in>set gs. \<exists>p\<in>set ps. g = grant_of p \<and> effective_in (group_of ps (item_key p)) p)
    \<and> sorted (map grant_rank gs)"
proof -
  let ?ks = "dedup (map item_key ps)"
  obtain hs where hs: "mapR (\<lambda>k. resolve_policy_group (group_of ps k)) ?ks = Inr hs" "gs = sort_key grant_rank hs"
    using assms by (auto simp: resolve_grants_def bindR_Inr_iff group_of_def)
  have all: "list_all2 (\<lambda>k g. resolve_policy_group (group_of ps k) = Inr g) ?ks hs"
    using hs(1) by (simp add: mapR_Inr_iff)
  have source: "\<exists>p\<in>set ps. item_key p = k \<and> g = grant_of p \<and> effective_in (group_of ps k) p"
    if "resolve_policy_group (group_of ps k) = Inr g" for k g
    using resolve_group_source [OF that] by (auto simp: group_of_def)
  have "list_all2 (\<lambda>k g. key_of_grant g = k) ?ks hs"
    by (rule list_all2_mono [OF all]) (use source in fastforce)
  then have keys: "map key_of_grant hs = ?ks"
    by (simp add: list_all2_conv_all_nth list_eq_iff_nth_eq)
  have from_items: "\<exists>p\<in>set ps. g = grant_of p \<and> effective_in (group_of ps (item_key p)) p" if g: "g \<in> set hs" for g
  proof -
    obtain i where i: "i < length hs" "g = hs ! i" using g unfolding in_set_conv_nth by blast
    have "resolve_policy_group (group_of ps (?ks ! i)) = Inr g" using all i by (simp add: list_all2_conv_all_nth)
    from source [OF this] show ?thesis by (metis (full_types))
  qed
  have "distinct (map key_of_grant hs)" "set (map key_of_grant hs) = item_key ` set ps" by (simp_all only: keys distinct_dedup set_dedup set_map)
  then have "distinct (map key_of_grant gs)" "set (map key_of_grant gs) = item_key ` set ps"
    by (simp_all add: hs(2) distinct_map)
  with from_items hs(2) show ?thesis by simp
qed

lemma key_of_tuple: "grant_tuple g = grant_tuple h \<Longrightarrow> key_of_grant g = key_of_grant h"
  by (simp add: grant_tuple_def key_of_grant_def)

lemma distinct_grant_tuples: "distinct (map key_of_grant gs) \<Longrightarrow> distinct (map grant_tuple gs)"
  by (auto simp: distinct_map inj_on_def dest: key_of_tuple)

lemma check_policies_all:
  assumes "check_policies em pages known files = Inr ()" "(f, i) \<in> set (grouped_policies files)"
  shows "check_policy_target em pages f = Inr () \<and> check_policy_item em known f i = Inr ()"
  using assms unfolding check_policies_def
proof (induction files)
  case (Cons f0 files)
  have items: "foldR (\<lambda>_ item. check_policy_item em known g item) () xs = Inr () \<Longrightarrow> x \<in> set xs
      \<Longrightarrow> check_policy_item em known g x = Inr ()" for g xs x
    by (induction xs) (auto split: sum.splits)
  show ?case using Cons items [of f0 "po_items f0" i]
    by (auto simp: grouped_policies_def bindR_Inr_iff split: sum.splits)
qed (simp add: grouped_policies_def)

text \<open>C22: The grants of a validated plan have distinct targets and roles; each one is an authored item that
  stands alone for its target and role or is the only override there; every authored target and role has
  its grant; and every grant names a known role and, for an Entity, a loaded Entity.\<close>

theorem validated_plan_grants:
  assumes "validate_access_plan es pages existing plan = Inr plan'"
  shows "distinct (map grant_tuple (ap_grants plan'))
    \<and> key_of_grant ` set (ap_grants plan') = item_key ` set (grouped_policies (ap_policies plan))
    \<and> (\<forall>g\<in>set (ap_grants plan').
        (\<exists>p\<in>set (grouped_policies (ap_policies plan)). g = grant_of p
            \<and> effective_in (group_of (grouped_policies (ap_policies plan)) (item_key p)) p)
        \<and> gr_role g \<in> ro_name ` set (ap_roles plan) \<union> set existing
        \<and> (if gr_entity g = [] then gr_when g = None else entity_map es (gr_app g) (gr_entity g) \<noteq> None))"
proof -
  let ?ps = "grouped_policies (ap_policies plan)"
  have checks: "check_policies (entity_map es) pages (map ro_name (ap_roles plan) @ existing) (ap_policies plan) = Inr ()"
    and grants: "resolve_grants ?ps = Inr (ap_grants plan')"
    using assms by (auto simp: validate_access_plan_def bindR_Inr_iff)
  note r = resolve_grants_groups [OF grants]
  have ok: "gr_role (grant_of p) \<in> ro_name ` set (ap_roles plan) \<union> set existing
      \<and> (if gr_entity (grant_of p) = [] then gr_when (grant_of p) = None
         else entity_map es (gr_app (grant_of p)) (gr_entity (grant_of p)) \<noteq> None)" if p: "p \<in> set ?ps" for p
    using check_policies_all [OF checks, of "fst p" "snd p"] p
    by (auto simp: check_policy_target_def check_policy_item_def grant_of_def split: if_splits)
  have each: "(\<exists>p\<in>set ?ps. g = grant_of p \<and> effective_in (group_of ?ps (item_key p)) p)
      \<and> gr_role g \<in> ro_name ` set (ap_roles plan) \<union> set existing
      \<and> (if gr_entity g = [] then gr_when g = None else entity_map es (gr_app g) (gr_entity g) \<noteq> None)"
    if g: "g \<in> set (ap_grants plan')" for g
  proof -
    obtain p where "p \<in> set ?ps" "g = grant_of p" "effective_in (group_of ?ps (item_key p)) p" using r g by blast
    with ok show ?thesis by blast
  qed
  from r have keys: "distinct (map key_of_grant (ap_grants plan'))" "set (map key_of_grant (ap_grants plan')) = item_key ` set ?ps"
    by blast+
  from keys(2) have "key_of_grant ` set (ap_grants plan') = item_key ` set ?ps" by simp
  with each distinct_grant_tuples [OF keys(1)] show ?thesis by blast
qed

section \<open>Decisions after a plan has been applied\<close>

definition rows_at :: "access_db \<Rightarrow> perm_target \<Rightarrow> int \<Rightarrow> perm_row set" where
  "rows_at db t r = set (filter (\<lambda>p. pm_target p = t \<and> pm_role p = r) (ac_perms db))"

text \<open>The unique indexes of the Core tables.\<close>

definition access_inv :: "access_db \<Rightarrow> bool" where
  "access_inv db \<longleftrightarrow> distinct (map rl_name (ac_roles db)) \<and> distinct (map rl_id (ac_roles db))
    \<and> (\<forall>r\<in>set (ac_roles db). rl_id r < ac_next db)
    \<and> distinct (map (\<lambda>e. (er_app e, er_key e)) (ac_entities db)) \<and> distinct (map er_id (ac_entities db))"

lemma upsert_role_keeps:
  "ac_perms (upsert_role db r) = ac_perms db \<and> ac_entities (upsert_role db r) = ac_entities db
    \<and> ac_users (upsert_role db r) = ac_users db \<and> ac_user_roles (upsert_role db r) = ac_user_roles db
    \<and> ac_pages (upsert_role db r) = ac_pages db"
  by (simp add: upsert_role_def)

lemma upsert_role_inv:
  assumes "access_inv db"
  shows "access_inv (upsert_role db r)"
proof (cases "list_ex (\<lambda>x. rl_name x = ro_name r) (ac_roles db)")
  case True
  let ?f = "update_where (\<lambda>x. rl_name x = ro_name r)
    (\<lambda>x. x\<lparr>rl_label := ro_label r, rl_description := null_if_empty (ro_description r)\<rparr>) (ac_roles db)"
  have same: "map rl_name ?f = map rl_name (ac_roles db)" "map rl_id ?f = map rl_id (ac_roles db)"
    by (rule map_update_where, simp)+
  then have "rl_id ` set ?f = rl_id ` set (ac_roles db)" by (metis list.set_map)
  then have "\<forall>x\<in>set ?f. rl_id x < ac_next db" using assms by (auto simp: access_inv_def dest!: equalityD1)
  with assms same True show ?thesis by (simp add: access_inv_def upsert_role_def)
next
  case False
  then have "ro_name r \<notin> rl_name ` set (ac_roles db)" by (auto simp: list_ex_iff)
  with assms False show ?thesis by (force simp: access_inv_def upsert_role_def)
qed

lemma upsert_roles_keeps:
  "ac_perms (upsert_roles db rs) = ac_perms db \<and> ac_entities (upsert_roles db rs) = ac_entities db
    \<and> ac_users (upsert_roles db rs) = ac_users db \<and> ac_user_roles (upsert_roles db rs) = ac_user_roles db
    \<and> ac_pages (upsert_roles db rs) = ac_pages db
    \<and> (access_inv db \<longrightarrow> access_inv (upsert_roles db rs))"
  unfolding upsert_roles_def
  by (induction rs arbitrary: db) (simp_all add: upsert_role_keeps upsert_role_inv)

lemma apply_grant_tables:
  assumes "apply_grant db g = Inr db'"
  shows "ac_roles db' = ac_roles db \<and> ac_entities db' = ac_entities db \<and> ac_users db' = ac_users db
    \<and> ac_user_roles db' = ac_user_roles db \<and> ac_pages db' = ac_pages db \<and> ac_next db' = ac_next db"
  using assms by (auto simp: apply_grant_def bindR_Inr_iff upsert_permission_def)

lemma rows_at_upsert:
  "rows_at (upsert_permission t r g db) t' r' = (if t' = t \<and> r' = r then {perm_row_of t r g} else rows_at db t' r')"
proof -
  have row: "pm_target (perm_row_of t r g) = t" "pm_role (perm_row_of t r g) = r" by (simp_all add: perm_row_of_def)
  show ?thesis
  proof (cases "list_ex (\<lambda>p. pm_target p = t \<and> pm_role p = r) (ac_perms db)")
    case True
    then obtain p where "p \<in> set (ac_perms db)" "pm_target p = t" "pm_role p = r" by (auto simp: list_ex_iff)
    with True row show ?thesis
      by (auto simp: rows_at_def upsert_permission_def set_update_where image_iff split: if_splits)
  next
    case False
    then have "\<And>p. p \<in> set (ac_perms db) \<Longrightarrow> \<not> (pm_target p = t \<and> pm_role p = r)" by (auto simp: list_ex_iff)
    with False row show ?thesis by (auto simp: rows_at_def upsert_permission_def)
  qed
qed

text \<open>The grant a target and a role get, with the ids resolved in the tables.\<close>

definition grant_at :: "access_db \<Rightarrow> grant list \<Rightarrow> perm_target \<Rightarrow> int \<Rightarrow> grant option" where
  "grant_at db gs t r = find (\<lambda>g. grant_target db g = Inr t \<and> role_id_by_name db (gr_role g) = Inr r) (rev gs)"

lemma ids_only_tables:
  assumes "ac_roles db' = ac_roles db" "ac_entities db' = ac_entities db" "ac_pages db' = ac_pages db"
  shows "grant_target db' = grant_target db \<and> role_id_by_name db' = role_id_by_name db"
  using assms by (auto simp: grant_target_def role_id_by_name_def entity_id_def page_id_def fun_eq_iff)

lemma find_append_right: "find P (xs @ ys) = (case find P xs of Some x \<Rightarrow> Some x | None \<Rightarrow> find P ys)"
  by (induction xs) auto

lemma foldR_apply_grants:
  assumes "foldR apply_grant db gs = Inr db'"
  shows "ac_roles db' = ac_roles db \<and> ac_entities db' = ac_entities db \<and> ac_users db' = ac_users db
    \<and> ac_user_roles db' = ac_user_roles db
    \<and> (\<forall>t r. rows_at db' t r = (case grant_at db gs t r of Some g \<Rightarrow> {perm_row_of t r g} | None \<Rightarrow> rows_at db t r))"
  using assms
proof (induction gs arbitrary: db)
  case Nil
  then show ?case by (simp add: grant_at_def)
next
  case (Cons g gs)
  then obtain db1 where s: "apply_grant db g = Inr db1" "foldR apply_grant db1 gs = Inr db'" by (auto split: sum.splits)
  note tables = apply_grant_tables [OF s(1)]
  then have ids: "grant_target db1 = grant_target db" "role_id_by_name db1 = role_id_by_name db"
    using ids_only_tables by blast+
  obtain t0 r0 where t0: "grant_target db g = Inr t0" "role_id_by_name db (gr_role g) = Inr r0"
    "db1 = upsert_permission t0 r0 g db"
    using s(1) by (auto simp: apply_grant_def bindR_Inr_iff)
  note IH = Cons.IH [OF s(2)]
  have at1: "grant_at db1 gs = grant_at db gs" by (simp add: grant_at_def ids fun_eq_iff)
  have rows1: "rows_at db1 t r = (if t = t0 \<and> r = r0 then {perm_row_of t0 r0 g} else rows_at db t r)" for t r
    by (simp add: t0(3) rows_at_upsert)
  have at: "grant_at db (g # gs) t r = (case grant_at db gs t r of Some h \<Rightarrow> Some h
      | None \<Rightarrow> if t = t0 \<and> r = r0 then Some g else None)" for t r
    by (auto simp: grant_at_def find_append_right t0(1,2) split: option.splits)
  have "rows_at db' t r = (case grant_at db (g # gs) t r of Some g \<Rightarrow> {perm_row_of t r g} | None \<Rightarrow> rows_at db t r)" for t r
    using IH at1 rows1 [of t r] at [of t r] by (cases "grant_at db gs t r") auto
  with IH tables show ?case by simp
qed

lemma grants_action_perm_row: "grants_action a (perm_row_of t r g) \<longleftrightarrow> a \<in> set (gr_can g)"
proof (cases "action_column a")
  case None
  then show ?thesis by (simp add: grants_action_def perm_row_of_def custom_actions_def is_built_in_action_def)
next
  case (Some c)
  then have "(a, c) \<in> set action_specs" by (simp add: action_column_def map_of_SomeD)
  then show ?thesis unfolding grants_action_def Some perm_row_of_def
    by (auto simp: action_specs_def action_values_def)
qed

lemma apply_plan_rows:
  assumes "apply_plan plan db = Inr db'" "access_inv db"
  shows "access_inv db' \<and> ac_entities db' = ac_entities db
    \<and> (\<forall>t r. rows_at db' t r = (case grant_at db' (ap_grants plan) t r of Some g \<Rightarrow> {perm_row_of t r g} | None \<Rightarrow> rows_at db t r))"
proof -
  let ?db = "upsert_roles db (ap_roles plan)"
  have f: "foldR apply_grant ?db (ap_grants plan) = Inr db'" using assms(1) by (simp add: apply_plan_def)
  have inv: "access_inv ?db" "ac_entities ?db = ac_entities db" "ac_perms ?db = ac_perms db"
    using upsert_roles_keeps assms(2) by blast+
  have keep: "access_inv db' \<and> ac_entities db' = ac_entities db \<and> ac_pages db' = ac_pages ?db"
    by (rule foldR_keeps [OF f])
      (use inv apply_grant_tables in \<open>auto simp: access_inv_def\<close>)
  note r = foldR_apply_grants [OF f]
  have ids: "grant_at db' = grant_at ?db" using ids_only_tables [of db' ?db] r keep by (simp add: grant_at_def fun_eq_iff)
  have same: "rows_at ?db = rows_at db" by (simp add: rows_at_def inv(3) fun_eq_iff)
  have "rows_at db' t r = (case grant_at db' (ap_grants plan) t r of Some g \<Rightarrow> {perm_row_of t r g} | None \<Rightarrow> rows_at db t r)" for t r
    using r ids same by (cases "grant_at ?db (ap_grants plan) t r") auto
  with keep inv(2) show ?thesis by simp
qed

text \<open>With unique roles and Entities the ids lead back to the authored target and role.\<close>

lemma grant_at_entity:
  assumes inv: "access_inv db" and e: "e \<in> set (ac_entities db)" "er_key e \<noteq> []" and r: "r \<in> set (ac_roles db)"
  shows "grant_at db gs (EntityTarget (er_id e)) (rl_id r)
    = find (\<lambda>g. gr_app g = er_app e \<and> gr_entity g = er_key e \<and> gr_role g = rl_name r) (rev gs)"
proof -
  have role: "role_id_by_name db n = Inr (rl_id r) \<longleftrightarrow> n = rl_name r" for n
  proof
    assume "role_id_by_name db n = Inr (rl_id r)"
    then obtain x where "x \<in> set (ac_roles db)" "rl_name x = n" "rl_id x = rl_id r"
      by (auto simp: role_id_by_name_def dest: find_SomeD split: option.splits)
    with inv r show "n = rl_name r" using distinct_key_eq [of rl_id "ac_roles db" x r] by (auto simp: access_inv_def)
  next
    assume "n = rl_name r"
    with inv r show "role_id_by_name db n = Inr (rl_id r)"
      using find_key_unique [of rl_name "ac_roles db" r n] by (simp add: role_id_by_name_def access_inv_def)
  qed
  have entity: "entity_id db a k = Inr (er_id e) \<longleftrightarrow> a = er_app e \<and> k = er_key e" for a k
  proof
    assume "entity_id db a k = Inr (er_id e)"
    then obtain x where "x \<in> set (ac_entities db)" "er_app x = a" "er_key x = k" "er_id x = er_id e"
      by (auto simp: entity_id_def dest: find_SomeD split: option.splits)
    with inv e show "a = er_app e \<and> k = er_key e"
      using distinct_key_eq [of er_id "ac_entities db" x e] by (auto simp: access_inv_def)
  next
    assume "a = er_app e \<and> k = er_key e"
    with inv e show "entity_id db a k = Inr (er_id e)"
      using find_key_unique [of "\<lambda>e. (er_app e, er_key e)" "ac_entities db" e "(a, k)"]
      by (simp add: entity_id_def access_inv_def)
  qed
  have "grant_target db g = Inr (EntityTarget (er_id e)) \<longleftrightarrow> gr_app g = er_app e \<and> gr_entity g = er_key e" for g
    using entity [of "gr_app g" "gr_entity g"] e(2) by (auto simp: grant_target_def bindR_Inr_iff)
  with role show ?thesis by (simp add: grant_at_def conj_assoc)
qed

lemma targets_entity:
  assumes "access_inv db" "e \<in> set (ac_entities db)" "\<not> er_retired e" "er_app e \<noteq> []"
  shows "targets_resource db \<lparr>re_kind = ''entity'', re_app = er_app e, re_name = er_key e\<rparr> p
    \<longleftrightarrow> pm_target p = EntityTarget (er_id e)"
proof -
  have "x = e" if "x \<in> set (ac_entities db)" "er_app x = er_app e" "er_key x = er_key e" for x
    using assms(1,2) that distinct_key_eq [of "\<lambda>e. (er_app e, er_key e)" "ac_entities db" x e] by (simp add: access_inv_def)
  with assms(2-) show ?thesis
    by (auto simp: targets_resource_def list_ex_iff split: perm_target.splits)
qed

lemma can_iff:
  assumes "normalize_request q0 = Inr q" "re_kind (rq_resource q) = ''entity''"
  shows "can db q0 = Inr () \<longleftrightarrow>
    at_administrator (rq_actor q) \<or> permission_exists db (at_user (rq_actor q)) (rq_resource q) (rq_action q)"
  using assms by (simp add: can_def check_permission_def allowed_decision_def)

lemma enabled_role_known: "i \<in> set (enabled_roles db u) \<Longrightarrow> \<exists>r\<in>set (ac_roles db). rl_id r = i"
  by (auto simp: enabled_roles_def split: if_splits)

text \<open>C23: After a plan has been applied, a user who is not an administrator can act on an Entity exactly when
  one of the user's enabled roles is granted the action: by the plan's grant for the Entity and the role
  when there is one, and otherwise by the permissions that were there before.\<close>

theorem applied_plan_decides:
  assumes "apply_plan plan db = Inr db'" "access_inv db"
    and "e \<in> set (ac_entities db)" "\<not> er_retired e" "er_app e \<noteq> []" "er_key e \<noteq> []"
    and "normalize_request q0 = Inr q" "\<not> at_administrator (rq_actor q)"
    and "rq_resource q = \<lparr>re_kind = ''entity'', re_app = er_app e, re_name = er_key e\<rparr>"
    and "distinct (map grant_tuple (ap_grants plan))"
  shows "can db' q0 = Inr () \<longleftrightarrow>
    (\<exists>r\<in>set (ac_roles db'). rl_id r \<in> set (enabled_roles db' (at_user (rq_actor q)))
      \<and> (case find (\<lambda>g. gr_app g = er_app e \<and> gr_entity g = er_key e \<and> gr_role g = rl_name r) (rev (ap_grants plan)) of
           Some g \<Rightarrow> rq_action q \<in> set (gr_can g)
         | None \<Rightarrow> \<exists>p\<in>rows_at db (EntityTarget (er_id e)) (rl_id r). \<not> pm_retired p \<and> grants_action (rq_action q) p))"
proof -
  let ?u = "at_user (rq_actor q)" and ?t = "EntityTarget (er_id e)" and ?a = "rq_action q"
  note rows = apply_plan_rows [OF assms(1,2)]
  then have inv: "access_inv db'" and ents: "e \<in> set (ac_entities db')" using assms(3) by auto
  have at_row: "(\<exists>p\<in>rows_at db' ?t (rl_id r). \<not> pm_retired p \<and> grants_action ?a p)
      \<longleftrightarrow> (case find (\<lambda>g. gr_app g = er_app e \<and> gr_entity g = er_key e \<and> gr_role g = rl_name r) (rev (ap_grants plan)) of
           Some g \<Rightarrow> ?a \<in> set (gr_can g)
         | None \<Rightarrow> \<exists>p\<in>rows_at db ?t (rl_id r). \<not> pm_retired p \<and> grants_action ?a p)" if "r \<in> set (ac_roles db')" for r
    using rows grant_at_entity [OF inv ents assms(6) that, of "ap_grants plan"] grants_action_perm_row
    by (auto simp: perm_row_of_def split: option.splits)
  have "can db' q0 = Inr () \<longleftrightarrow>
      (\<exists>p\<in>set (ac_perms db'). pm_role p \<in> set (enabled_roles db' ?u) \<and> pm_target p = ?t \<and> \<not> pm_retired p \<and> grants_action ?a p)"
    using can_iff [OF assms(7)] assms(8,9) targets_entity [OF inv ents assms(4,5)]
    by (simp add: permission_exists_def list_ex_iff)
  also have "\<dots> \<longleftrightarrow> (\<exists>r\<in>set (ac_roles db'). rl_id r \<in> set (enabled_roles db' ?u)
      \<and> (\<exists>p\<in>rows_at db' ?t (rl_id r). \<not> pm_retired p \<and> grants_action ?a p))"
  proof
    assume "\<exists>p\<in>set (ac_perms db'). pm_role p \<in> set (enabled_roles db' ?u) \<and> pm_target p = ?t \<and> \<not> pm_retired p \<and> grants_action ?a p"
    then obtain p where p: "p \<in> set (ac_perms db')" "pm_role p \<in> set (enabled_roles db' ?u)" "pm_target p = ?t"
      "\<not> pm_retired p" "grants_action ?a p" by blast
    moreover obtain r where "r \<in> set (ac_roles db')" "rl_id r = pm_role p" using enabled_role_known [OF p(2)] by blast
    moreover from p have "p \<in> rows_at db' ?t (pm_role p)" by (simp add: rows_at_def)
    ultimately show "\<exists>r\<in>set (ac_roles db'). rl_id r \<in> set (enabled_roles db' ?u)
      \<and> (\<exists>p\<in>rows_at db' ?t (rl_id r). \<not> pm_retired p \<and> grants_action ?a p)"
      by (metis (no_types, lifting))
  next
    assume "\<exists>r\<in>set (ac_roles db'). rl_id r \<in> set (enabled_roles db' ?u)
      \<and> (\<exists>p\<in>rows_at db' ?t (rl_id r). \<not> pm_retired p \<and> grants_action ?a p)"
    then obtain r p where "r \<in> set (ac_roles db')" "rl_id r \<in> set (enabled_roles db' ?u)" "p \<in> rows_at db' ?t (rl_id r)"
      "\<not> pm_retired p" "grants_action ?a p" by blast
    then show "\<exists>p\<in>set (ac_perms db'). pm_role p \<in> set (enabled_roles db' ?u) \<and> pm_target p = ?t \<and> \<not> pm_retired p \<and> grants_action ?a p"
      unfolding rows_at_def set_filter mem_Collect_eq by metis
  qed
  finally show ?thesis using at_row by (simp cong: rev_conj_cong)
qed

section \<open>Samples\<close>

definition sample_item :: "action list \<Rightarrow> bool \<Rightarrow> policy_item" where
  "sample_item as ov = no_policy_item\<lparr>pi_role := ''agent'', pi_can := as, pi_override := ov\<rparr>"

definition sample_access_plan :: access_plan where
  "sample_access_plan = \<lparr>ap_roles = [\<lparr>ro_app = ''crm'', ro_name = ''agent'', ro_label = ''Agent'', ro_description = []\<rparr>],
     ap_policies =
       [\<lparr>po_contributor = ''crm'', po_target = ''crm'', po_entity = [], po_page = ''board'', po_items = [sample_item [''read''] False]\<rparr>,
        \<lparr>po_contributor = ''desk'', po_target = ''crm'', po_entity = [], po_page = ''board'', po_items = [sample_item [''print''] True]\<rparr>],
     ap_grants = []\<rparr>"

definition sample_board_grant :: grant where
  "sample_board_grant = \<lparr>gr_app = ''crm'', gr_entity = [], gr_page = ''board'', gr_role = ''agent'', gr_can = [''print''],
     gr_when = None, gr_fields = no_policy_fields\<rparr>"

theorem validated_plan_grants_witness:
  "validate_access_plan [] [] [] sample_access_plan = Inr (sample_access_plan\<lparr>ap_grants := [sample_board_grant]\<rparr>)
    \<and> distinct (map grant_tuple [sample_board_grant])
    \<and> gr_role sample_board_grant \<in> ro_name ` set (ap_roles sample_access_plan)"
proof -
  let ?plan = "sample_access_plan\<lparr>ap_grants := [sample_board_grant]\<rparr>"
  have v: "validate_access_plan [] [] [] sample_access_plan = Inr ?plan" by code_simp
  have "ap_grants ?plan = [sample_board_grant]" by simp
  with validated_plan_grants [OF v] v show ?thesis by auto
qed

definition sample_ticket_row :: entity_row where
  "sample_ticket_row = \<lparr>er_id = 7, er_app = ''crm'', er_key = ''ticket'', er_slug = ''tickets'', er_retired = False\<rparr>"

definition sample_access_db :: access_db where
  "sample_access_db = \<lparr>ac_users = [\<lparr>us_id = 1, us_enabled = True\<rparr>], ac_user_roles = [(1, 3)],
     ac_roles = [\<lparr>rl_id = 3, rl_name = ''agent'', rl_label = ''Agent'', rl_description = None, rl_enabled = True\<rparr>],
     ac_entities = [sample_ticket_row], ac_pages = [], ac_perms = [], ac_next = 10\<rparr>"

definition sample_ticket_plan :: access_plan where
  "sample_ticket_plan = sample_access_plan\<lparr>ap_grants := [sample_board_grant\<lparr>gr_entity := ''ticket'', gr_page := [],
     gr_can := [''read'', ''escalate'']\<rparr>]\<rparr>"

definition sample_applied :: access_db where
  "sample_applied = (case apply_plan sample_ticket_plan sample_access_db of Inr db \<Rightarrow> db | Inl _ \<Rightarrow> sample_access_db)"

definition sample_request :: "action \<Rightarrow> permission_request" where
  "sample_request a = \<lparr>rq_actor = \<lparr>at_user = 1, at_email = [], at_administrator = False\<rparr>, rq_entity = [],
     rq_resource = \<lparr>re_kind = ''entity'', re_app = ''crm'', re_name = ''ticket''\<rparr>, rq_action = a, rq_record = 0\<rparr>"

definition sample_normal :: "action \<Rightarrow> permission_request" where
  "sample_normal a = (sample_request a)\<lparr>rq_entity := ''ticket''\<rparr>"

definition sample_decision :: "action \<Rightarrow> bool" where
  "sample_decision a = (\<exists>r\<in>set (ac_roles sample_applied). rl_id r \<in> set (enabled_roles sample_applied 1)
      \<and> (case find (\<lambda>g. gr_app g = ''crm'' \<and> gr_entity g = ''ticket'' \<and> gr_role g = rl_name r) (rev (ap_grants sample_ticket_plan)) of
           Some g \<Rightarrow> a \<in> set (gr_can g)
         | None \<Rightarrow> \<exists>p\<in>rows_at sample_access_db (EntityTarget 7) (rl_id r). \<not> pm_retired p \<and> grants_action a p))"

theorem applied_plan_decides_witness:
  "can sample_applied (sample_request ''escalate'') = Inr () \<and> can sample_applied (sample_request ''delete'') \<noteq> Inr ()"
proof -
  have applied: "apply_plan sample_ticket_plan sample_access_db = Inr sample_applied" by code_simp
  have inv: "access_inv sample_access_db" by code_simp
  have row: "sample_ticket_row \<in> set (ac_entities sample_access_db)" "\<not> er_retired sample_ticket_row"
    "er_app sample_ticket_row \<noteq> []" "er_key sample_ticket_row \<noteq> []" by code_simp+
  have reqs: "normalize_request (sample_request ''escalate'') = Inr (sample_normal ''escalate'')"
    "normalize_request (sample_request ''delete'') = Inr (sample_normal ''delete'')" by code_simp+
  have q: "\<not> at_administrator (rq_actor (sample_normal a))"
    "rq_resource (sample_normal a) = \<lparr>re_kind = ''entity'', re_app = er_app sample_ticket_row, re_name = er_key sample_ticket_row\<rparr>" for a
    by (simp_all add: sample_normal_def sample_request_def sample_ticket_row_def)
  have vals: "er_id sample_ticket_row = 7" "er_app sample_ticket_row = ''crm''" "er_key sample_ticket_row = ''ticket''"
    "at_user (rq_actor (sample_normal a)) = 1" "rq_action (sample_normal a) = a" for a
    by (simp_all add: sample_normal_def sample_request_def sample_ticket_row_def)
  have tuples: "distinct (map grant_tuple (ap_grants sample_ticket_plan))" by code_simp
  have "can sample_applied (sample_request a) = Inr () \<longleftrightarrow> sample_decision a"
    if "normalize_request (sample_request a) = Inr (sample_normal a)" for a
    using applied_plan_decides [OF applied inv row that q tuples] unfolding vals sample_decision_def .
  moreover have "sample_decision ''escalate''" "\<not> sample_decision ''delete''" by code_simp+
  ultimately show ?thesis using reqs by simp
qed

end
