(* ===== verification/Storage_Layout.thy ===== *)
theory Storage_Layout
  imports Entity_Catalog
begin

text \<open>
  How metadata is laid out in PostgreSQL (\<^verbatim>\<open>internal/db/storage_contract.go\<close>,
  \<^verbatim>\<open>metadata_contracts.go\<close> and the naming helpers of \<^verbatim>\<open>schema_plan.go\<close>): table and column
  names, quoting, and the persisted Entity metadata the runtime reads back.
\<close>

section \<open>Names\<close>

definition storage_name :: "string \<Rightarrow> string" where
  "storage_name v = map (\<lambda>c. if c = CHR ''-'' then CHR ''_'' else c) v"

definition entity_table_name :: "string \<Rightarrow> string \<Rightarrow> string" where
  "entity_table_name app entity =
     (if app = ''core'' \<or> blank app then storage_name entity else storage_name (app @ ''-'' @ entity))"

datatype storage_error =
    UnsupportedType string
  | NoColumnStorage string
  | EntityNameRequired

definition table_name :: "loaded_entity \<Rightarrow> storage_error + string" where
  "table_name e = (if blank (en_name (le_entity e)) then Inl EntityNameRequired
     else Inr (entity_table_name (le_app e) (en_name (le_entity e))))"

definition column_for_field :: "field \<Rightarrow> storage_error + string" where
  "column_for_field f =
     (case default_definition (fd_type f) of None \<Rightarrow> Inl (UnsupportedType (fd_type f))
      | Some d \<Rightarrow> if \<not> bh_stored (ft_behavior d) then Inl (NoColumnStorage (fd_type f))
          else Inr (storage_name (fd_name f) @ bh_column_suffix (ft_behavior d)))"

definition storage_column_for_field :: "string \<Rightarrow> string \<Rightarrow> string \<times> bool" where
  "storage_column_for_field name ty =
     (case default_definition ty of None \<Rightarrow> (storage_name name, False)
      | Some d \<Rightarrow> (storage_name name @ bh_column_suffix (ft_behavior d), True))"

definition record_column_for_field :: "string \<Rightarrow> string \<Rightarrow> string" where
  "record_column_for_field name ty = fst (storage_column_for_field name ty)"

definition constraint_name :: "string \<Rightarrow> string \<Rightarrow> string \<Rightarrow> string" where
  "constraint_name table column kind = table @ ''_'' @ column @ ''_'' @ kind"

text \<open>Doubling a quote character inside quotes.\<close>

definition double_char :: "char \<Rightarrow> string \<Rightarrow> string" where
  "double_char q v = concat (map (\<lambda>c. if c = q then [q, q] else [c]) v)"

definition quote_ident :: "string \<Rightarrow> string" where
  "quote_ident v = CHR 0x22 # double_char (CHR 0x22) v @ [CHR 0x22]"

definition quote_literal :: "string \<Rightarrow> string" where
  "quote_literal v = CHR 0x27 # double_char (CHR 0x27) v @ [CHR 0x27]"

definition quote_ident_list :: "string list \<Rightarrow> string" where
  "quote_ident_list vs = join '', '' (map quote_ident vs)"

section \<open>System fields\<close>

record system_field =
  sf_name :: string
  sf_type :: string
  sf_column :: string
  sf_nameable :: bool
  sf_value_kind :: string
  sf_required :: bool
  sf_selected :: bool

text \<open>Every system field is listable.\<close>

definition system_record_fields :: "system_field list" where
  "system_record_fields =
    [\<lparr>sf_name = ''id'', sf_type = ''bigint'', sf_column = ''id'', sf_nameable = False, sf_value_kind = ''integer'', sf_required = True, sf_selected = True\<rparr>,
     \<lparr>sf_name = ''name'', sf_type = ''text'', sf_column = ''name'', sf_nameable = True, sf_value_kind = ''string'', sf_required = True, sf_selected = True\<rparr>,
     \<lparr>sf_name = ''created-at'', sf_type = ''datetime'', sf_column = ''created_at'', sf_nameable = False, sf_value_kind = ''datetime'', sf_required = True, sf_selected = True\<rparr>,
     \<lparr>sf_name = ''updated-at'', sf_type = ''datetime'', sf_column = ''updated_at'', sf_nameable = False, sf_value_kind = ''datetime'', sf_required = True, sf_selected = True\<rparr>,
     \<lparr>sf_name = ''owner'', sf_type = ''bigint'', sf_column = ''owner_id'', sf_nameable = False, sf_value_kind = ''integer'', sf_required = False, sf_selected = False\<rparr>]"

definition system_record_field_by_name :: "string \<Rightarrow> system_field option" where
  "system_record_field_by_name n = find (\<lambda>f. sf_name f = n) system_record_fields"

definition system_record_field_by_column :: "string \<Rightarrow> system_field option" where
  "system_record_field_by_column c = find (\<lambda>f. sf_column f = c) system_record_fields"

definition system_record_select_columns :: "string list" where
  "system_record_select_columns = map sf_column (filter sf_selected system_record_fields)"

definition is_system_record_field :: "string \<Rightarrow> bool" where
  "is_system_record_field n \<longleftrightarrow> system_record_field_by_name n \<noteq> None"

definition is_system_column :: "string \<Rightarrow> bool" where
  "is_system_column c \<longleftrightarrow> system_record_field_by_column c \<noteq> None"

section \<open>Persisted metadata\<close>

text \<open>The raw JSON of a link field's options decodes to an App and an Entity, or not at all.\<close>

record meta_field =
  mf_name :: string
  mf_type :: string
  mf_unique :: bool
  mf_stored :: bool
  mf_write_only :: bool
  mf_value_kind :: string
  mf_link :: "(string \<times> string) option"

record meta_constraint =
  mc_type :: string
  mc_fields :: "string list option"

record meta_entity =
  me_app :: string
  me_key :: string
  me_name :: string
  me_fields :: "meta_field list"
  me_constraints :: "meta_constraint list"

definition metadata_fields_by_name :: "meta_entity \<Rightarrow> string \<Rightarrow> meta_field option" where
  "metadata_fields_by_name m n = find (\<lambda>f. mf_name f = n) (rev (me_fields m))"

definition meta_name_field :: meta_field where
  "meta_name_field = \<lparr>mf_name = ''name'', mf_type = ''text'', mf_unique = True, mf_stored = True, mf_write_only = False,
     mf_value_kind = ''string'', mf_link = None\<rparr>"

definition record_addressable_field :: "meta_entity \<Rightarrow> string \<Rightarrow> meta_field option" where
  "record_addressable_field m n =
     (case metadata_fields_by_name m n of Some f \<Rightarrow> Some f
      | None \<Rightarrow> if n = ''name'' then Some meta_name_field else None)"

definition metadata_field_stored :: "meta_field \<Rightarrow> bool" where
  "metadata_field_stored f \<longleftrightarrow> mf_stored f \<or>
     (case default_definition (mf_type f) of None \<Rightarrow> False | Some d \<Rightarrow> bh_stored (ft_behavior d))"

datatype link_error = LinkOptionsInvalid | LinkTargetRequired

definition link_field_target_identity :: "meta_field \<Rightarrow> string \<Rightarrow> link_error + string \<times> string" where
  "link_field_target_identity f default_app =
     (case mf_link f of None \<Rightarrow> Inl LinkOptionsInvalid
      | Some (app, entity) \<Rightarrow>
          if blank entity then Inl LinkTargetRequired
          else Inr (if blank app then trim_space default_app else trim_space app, trim_space entity))"

text \<open>\<^verbatim>\<open>ValidateRecordMatch\<close>: a match is backed by a unique field or a unique constraint.\<close>

datatype match_error =
    MatchRequired
  | MatchEmptyField
  | MatchDuplicate string
  | MatchUnknown string string
  | MatchUnstored string
  | MatchConstraintInvalid
  | MatchNotUnique "string list" string

definition same_string_set :: "string list \<Rightarrow> string list \<Rightarrow> bool" where
  "same_string_set xs ys \<longleftrightarrow> length xs = length ys \<and> sort xs = sort ys"

fun match_fields_ok :: "meta_entity \<Rightarrow> string list \<Rightarrow> string list \<Rightarrow> match_error + unit" where
  "match_fields_ok m seen [] = Inr ()"
| "match_fields_ok m seen (n # ns) =
     (if blank n then Inl MatchEmptyField
      else if n \<in> set seen then Inl (MatchDuplicate n)
      else case record_addressable_field m n of None \<Rightarrow> Inl (MatchUnknown n (me_name m))
      | Some f \<Rightarrow> if \<not> metadata_field_stored f then Inl (MatchUnstored n) else match_fields_ok m (n # seen) ns)"

fun match_constraints :: "string list \<Rightarrow> meta_constraint list \<Rightarrow> match_error + bool" where
  "match_constraints names [] = Inr False"
| "match_constraints names (c # cs) =
     (if mc_type c \<noteq> ''unique'' then match_constraints names cs
      else case mc_fields c of None \<Rightarrow> Inl MatchConstraintInvalid
      | Some fs \<Rightarrow> if same_string_set names fs then Inr True else match_constraints names cs)"

definition validate_record_match :: "meta_entity \<Rightarrow> string list \<Rightarrow> match_error + unit" where
  "validate_record_match m names =
     (if names = [] then Inl MatchRequired
      else bindR (match_fields_ok m [] names) (\<lambda>_.
        if (case names of [n] \<Rightarrow> n = ''name'' \<or> (case record_addressable_field m n of None \<Rightarrow> False | Some f \<Rightarrow> mf_unique f) | _ \<Rightarrow> False)
        then Inr ()
        else bindR (match_constraints names (me_constraints m)) (\<lambda>found.
          if found then Inr () else Inl (MatchNotUnique names (me_name m)))))"

section \<open>Properties of the names\<close>

lemma storage_name_append [simp]: "storage_name (xs @ ys) = storage_name xs @ storage_name ys"
  by (simp add: storage_name_def)

text \<open>Names of Apps and Entities join with the hyphen that separates their own words, so two Entities of
  different Apps may share a table, and two fields of one Entity a column.\<close>

lemma table_names_collide: "entity_table_name ''crm'' ''lead-source'' = entity_table_name ''crm-lead'' ''source''"
  by code_simp

lemma columns_collide:
  "storage_column_for_field ''customer'' ''link'' = storage_column_for_field ''customer-id'' ''bigint''"
  by code_simp

lemma double_char_no_quote: "q \<notin> set v \<Longrightarrow> double_char q v = v"
  by (induction v) (auto simp: double_char_def)

lemma double_char_inj: "double_char q v = double_char q w \<Longrightarrow> v = w"
proof (induction v arbitrary: w)
  case (Cons c v)
  then show ?case by (cases w) (auto simp: double_char_def split: if_splits)
next
  case Nil
  then show ?case by (cases w) (auto simp: double_char_def split: if_splits)
qed

lemma quote_ident_inj [simp]: "quote_ident v = quote_ident w \<longleftrightarrow> v = w"
  using double_char_inj by (auto simp: quote_ident_def)

end
