(* ===== verification/Permission_Scope.thy ===== *)
theory Permission_Scope
  imports Permission_Check Storage_Layout
begin

text \<open>
  Row and field scopes (\<^verbatim>\<open>internal/permissions/scope.go\<close>): the grants of an actor are compiled to an
  SQL condition over the record.  The compiler builds a syntax tree here, \<open>render_pred\<close> and
  \<open>render_expr\<close> give the text the source writes.  Entity metadata is read from the database and is
  an argument; the cache of the source only saves reads.
\<close>

section \<open>The SQL the compiler writes\<close>

datatype table_alias = RecordAlias | AccessAlias nat

text \<open>One joined table: its name, its alias, and the column of an earlier alias its id equals.\<close>

type_synonym hop = "string \<times> table_alias \<times> table_alias \<times> string"

datatype sql_expr =
    Column table_alias string
  | Lookup table_alias string "hop list"
  | Param nat

datatype sql_pred =
    TrueP
  | FalseP
  | Equal sql_expr sql_expr
  | NotRetired table_alias
  | Exists string table_alias "sql_pred list"
  | AnyOf "sql_pred list"
  | AllOf "sql_pred list"

definition alias_name :: "table_alias \<Rightarrow> string" where
  "alias_name a = (case a of RecordAlias \<Rightarrow> ''_dygo_record'' | AccessAlias n \<Rightarrow> ''_dygo_access_'' @ show_nat n)"

definition render_column :: "table_alias \<Rightarrow> string \<Rightarrow> string" where
  "render_column a c = quote_ident (alias_name a) @ ''.'' @ quote_ident c"

definition render_table :: "string \<Rightarrow> table_alias \<Rightarrow> string" where
  "render_table t a = quote_ident t @ '' AS '' @ quote_ident (alias_name a)"

definition render_on :: "hop \<Rightarrow> string" where
  "render_on h = (case h of (t, a, pa, pc) \<Rightarrow> render_column a ''id'' @ '' = '' @ render_column pa pc)"

definition render_hop :: "hop \<Rightarrow> string" where
  "render_hop h = (case h of (t, a, _) \<Rightarrow> ''JOIN '' @ render_table t a @ '' ON '' @ render_on h)"

definition render_expr :: "sql_expr \<Rightarrow> string" where
  "render_expr e =
     (case e of Column a c \<Rightarrow> render_column a c
      | Param n \<Rightarrow> ''$'' @ show_nat n
      | Lookup a c [] \<Rightarrow> render_column a c
      | Lookup a c (h # hs) \<Rightarrow> (case h of (t, b, _) \<Rightarrow>
          ''(SELECT '' @ render_column a c @ '' FROM '' @ join '' '' (render_table t b # map render_hop hs)
          @ '' WHERE '' @ render_on h @ '' LIMIT 1)''))"

definition or_predicate :: "string list \<Rightarrow> string" where
  "or_predicate parts = (if parts = [] then ''FALSE'' else ''('' @ join '') OR ('' parts @ '')'')"

definition and_predicate :: "string list \<Rightarrow> string" where
  "and_predicate parts = (if parts = [] then ''TRUE'' else ''('' @ join '') AND ('' parts @ '')'')"

fun render_pred :: "sql_pred \<Rightarrow> string" where
  "render_pred TrueP = ''TRUE''"
| "render_pred FalseP = ''FALSE''"
| "render_pred (Equal x y) = render_expr x @ '' = '' @ render_expr y"
| "render_pred (NotRetired a) = render_column a ''retired'' @ '' = false''"
| "render_pred (Exists t a ps) = ''EXISTS (SELECT 1 FROM '' @ render_table t a @ '' WHERE '' @ join '' AND '' (map render_pred ps) @ '')''"
| "render_pred (AnyOf ps) = or_predicate (map render_pred ps)"
| "render_pred (AllOf ps) = and_predicate (map render_pred ps)"

section \<open>The compiler\<close>

type_synonym metadata = "string \<Rightarrow> string \<Rightarrow> meta_entity option"

record compiler =
  cm_args :: "int list"
  cm_alias :: nat

datatype scope_error =
    ScopeRequest permission_error
  | ScopeNeedsEntity
  | EntityUnknown string string
  | PathRequired
  | IdNotLast
  | OwnerNotLast
  | FieldUnknown string string string
  | FieldNotLink string
  | LinkInvalid link_error
  | PathInvalid
  | ConditionUnsupported string
  | MembershipUnsupported
  | GrantInvalid string scope_error

definition scope_entity :: "metadata \<Rightarrow> string \<Rightarrow> string \<Rightarrow> scope_error + meta_entity" where
  "scope_entity meta app key = (case meta app key of None \<Rightarrow> Inl (EntityUnknown app key) | Some m \<Rightarrow> Inr m)"

definition meta_table :: "meta_entity \<Rightarrow> string" where
  "meta_table m = entity_table_name (me_app m) (me_key m)"

definition storage_column :: "meta_field \<Rightarrow> string" where
  "storage_column f = record_column_for_field (mf_name f) (mf_type f)"

definition scope_arg :: "int \<Rightarrow> compiler \<Rightarrow> sql_expr \<times> compiler" where
  "scope_arg v c = (Param (length (cm_args c) + 1), c\<lparr>cm_args := cm_args c @ [v]\<rparr>)"

definition next_alias :: "compiler \<Rightarrow> table_alias \<times> compiler" where
  "next_alias c = (AccessAlias (cm_alias c + 1), c\<lparr>cm_alias := cm_alias c + 1\<rparr>)"

definition path_end :: "table_alias \<Rightarrow> string \<Rightarrow> hop list \<Rightarrow> sql_expr" where
  "path_end a column joins = (if joins = [] then Column a column else Lookup a column joins)"

fun path_loop :: "metadata \<Rightarrow> meta_entity \<Rightarrow> table_alias \<Rightarrow> hop list \<Rightarrow> string list \<Rightarrow> compiler \<Rightarrow> scope_error + sql_expr \<times> compiler" where
  "path_loop meta current a joins [] c = Inl PathInvalid"
| "path_loop meta current a joins (n # ns) c =
     (if n = ''id'' then (if ns = [] then Inr (Column a ''id'', c) else Inl IdNotLast)
      else if n = ''owner'' then (if ns = [] then Inr (Column a ''owner_id'', c) else Inl OwnerNotLast)
      else case record_addressable_field current n of None \<Rightarrow> Inl (FieldUnknown n (me_app current) (me_key current))
      | Some f \<Rightarrow>
          if \<not> metadata_field_stored f then Inl (FieldUnknown n (me_app current) (me_key current))
          else if ns = [] then Inr (path_end a (storage_column f) joins, c)
          else if mf_type f \<noteq> ''link'' then Inl (FieldNotLink n)
          else case link_field_target_identity f (me_app current) of Inl e \<Rightarrow> Inl (LinkInvalid e)
          | Inr (app, key) \<Rightarrow>
              (case scope_entity meta app key of Inl e \<Rightarrow> Inl e
               | Inr target \<Rightarrow>
                   let (b, c') = next_alias c
                   in path_loop meta target b (joins @ [(meta_table target, b, a, storage_column f)]) ns c'))"

definition path_segments :: "string \<Rightarrow> string list" where
  "path_segments raw = split_on (CHR ''.'') (trim_prefix raw ''record.'')"

definition scope_path :: "metadata \<Rightarrow> meta_entity \<Rightarrow> table_alias \<Rightarrow> string \<Rightarrow> compiler \<Rightarrow> scope_error + sql_expr \<times> compiler" where
  "scope_path meta root a raw c =
     (if hd (path_segments raw) = [] then Inl PathRequired else path_loop meta root a [] (path_segments raw) c)"

definition record_path_of :: "string \<Rightarrow> string" where
  "record_path_of field = ''record.'' @ field"

definition member_clause :: "metadata \<Rightarrow> int \<Rightarrow> meta_entity \<Rightarrow> table_alias \<Rightarrow> sql_pred list \<times> compiler \<Rightarrow> string \<times> string \<Rightarrow>
    scope_error + sql_pred list \<times> compiler" where
  "member_clause meta actor assignment a st p =
     (if snd p \<noteq> ''actor.user'' then Inl MembershipUnsupported
      else bindR (scope_path meta assignment a (record_path_of (fst p)) (snd st)) (\<lambda>(v, c).
        let (x, c') = scope_arg actor c in Inr (fst st @ [Equal v x], c')))"

definition has_retired :: "meta_entity \<Rightarrow> bool" where
  "has_retired m \<longleftrightarrow> record_addressable_field m ''retired'' \<noteq> None"

text \<open>The keys of a decoded \<^verbatim>\<open>where\<close> are kept sorted, as the source sorts them.\<close>

definition scope_membership :: "metadata \<Rightarrow> int \<Rightarrow> meta_entity \<Rightarrow> sql_expr \<Rightarrow> membership \<Rightarrow> compiler \<Rightarrow> scope_error + sql_pred \<times> compiler" where
  "scope_membership meta actor root record_value m c =
     bindR (scope_entity meta (me_app root) (mb_entity m)) (\<lambda>assignment.
       let (a, c1) = next_alias c in
       bindR (scope_path meta assignment a (record_path_of (mb_value m)) c1) (\<lambda>(v, c2).
       bindR (foldR (member_clause meta actor assignment a) ([Equal v record_value], c2) (mb_where m)) (\<lambda>(clauses, c3).
         Inr (Exists (meta_table assignment) a (clauses @ (if has_retired assignment then [NotRetired a] else [])), c3))))"

definition scope_condition :: "metadata \<Rightarrow> int \<Rightarrow> meta_entity \<Rightarrow> sql_pred list \<times> compiler \<Rightarrow> condition \<Rightarrow>
    scope_error + sql_pred list \<times> compiler" where
  "scope_condition meta actor root st co =
     bindR (scope_path meta root RecordAlias (co_field co) (snd st)) (\<lambda>(e, c).
       if co_equals co = ''actor.user'' then
         (let (x, c') = scope_arg actor c in Inr (fst st @ [Equal e x], c'))
       else case co_in co of
         Some m \<Rightarrow> bindR (scope_membership meta actor root e m c) (\<lambda>(p, c'). Inr (fst st @ [p], c'))
       | None \<Rightarrow> Inl (ConditionUnsupported (co_field co)))"

definition scope_when :: "metadata \<Rightarrow> int \<Rightarrow> meta_entity \<Rightarrow> policy_when option \<Rightarrow> compiler \<Rightarrow> scope_error + sql_pred \<times> compiler" where
  "scope_when meta actor root w c =
     (case w of None \<Rightarrow> Inr (TrueP, c)
      | Some w \<Rightarrow> bindR (foldR (scope_condition meta actor root) ([], c) (wh_conditions w)) (\<lambda>(ps, c').
          Inr (if wh_match w = ''any'' then AnyOf ps else AllOf ps, c')))"

record scope_grant =
  sg_role :: string
  sg_when :: "policy_when option"
  sg_fields :: policy_fields

record scope =
  sc_where :: sql_pred
  sc_args :: "int list"
  sc_field_read :: "(string \<times> sql_pred) list"
  sc_field_write :: "(string \<times> sql_pred) list"
  sc_roles :: "string list"
  sc_role_where :: "(string \<times> sql_pred) list"

definition compile_grant :: "metadata \<Rightarrow> int \<Rightarrow> meta_entity \<Rightarrow> (scope_grant \<times> sql_pred) list \<times> compiler \<Rightarrow> scope_grant \<Rightarrow>
    scope_error + (scope_grant \<times> sql_pred) list \<times> compiler" where
  "compile_grant meta actor root st g =
     (case scope_when meta actor root (sg_when g) (snd st) of
        Inl e \<Rightarrow> Inl (GrantInvalid (sg_role g) e)
      | Inr (p, c) \<Rightarrow> Inr (fst st @ [(g, p)], c))"

text \<open>\<^verbatim>\<open>grantPredicates\<close> is keyed by role, the last grant of a role wins.\<close>

definition role_predicates :: "(scope_grant \<times> sql_pred) list \<Rightarrow> (string \<times> sql_pred) list" where
  "role_predicates gps = rev (map (\<lambda>(g, p). (sg_role g, p)) gps)"

definition field_predicate :: "(scope_grant \<times> sql_pred) list \<Rightarrow> (scope_grant \<Rightarrow> bool) \<Rightarrow> sql_pred" where
  "field_predicate gps open_to =
     AnyOf (map (\<lambda>(g, p). the (map_of (role_predicates gps) (sg_role g))) (filter (\<lambda>(g, p). open_to g) gps))"

definition reads_field :: "string \<Rightarrow> scope_grant \<Rightarrow> bool" where
  "reads_field f g \<longleftrightarrow> f \<notin> set (pf_deny_read (sg_fields g))"

definition writes_field :: "string \<Rightarrow> scope_grant \<Rightarrow> bool" where
  "writes_field f g \<longleftrightarrow> f \<notin> set (pf_deny_read (sg_fields g)) \<and> f \<notin> set (pf_deny_write (sg_fields g))"

definition compile_scope :: "metadata \<Rightarrow> int \<Rightarrow> string \<Rightarrow> string \<Rightarrow> scope_grant list \<Rightarrow> scope_error + scope" where
  "compile_scope meta actor app key grants =
     bindR (scope_entity meta app key) (\<lambda>root.
     bindR (foldR (compile_grant meta actor root) ([], \<lparr>cm_args = [], cm_alias = 0\<rparr>) grants) (\<lambda>(gps, c).
       let names = dedup (concat (map (\<lambda>g. pf_deny_read (sg_fields g) @ pf_deny_write (sg_fields g)) grants))
       in Inr \<lparr>sc_where = AnyOf (map snd gps), sc_args = cm_args c,
            sc_field_read = map (\<lambda>f. (f, field_predicate gps (reads_field f))) names,
            sc_field_write = map (\<lambda>f. (f, field_predicate gps (writes_field f))) names,
            sc_roles = sort (map sg_role grants), sc_role_where = role_predicates gps\<rparr>))"

section \<open>Loading the grants\<close>

definition load_scope_grants :: "access_db \<Rightarrow> int \<Rightarrow> resource \<Rightarrow> action \<Rightarrow> scope_grant list" where
  "load_scope_grants db u r a =
     sort_key sg_role (concat (map (\<lambda>x.
       map (\<lambda>p. \<lparr>sg_role = rl_name x, sg_when = pm_when p, sg_fields = pm_fields p\<rparr>)
         (filter (\<lambda>p. pm_role p = rl_id x \<and> targets_resource db r p \<and> \<not> pm_retired p \<and> grants_action a p) (ac_perms db)))
       (filter (\<lambda>x. rl_id x \<in> set (enabled_roles db u)) (ac_roles db))))"

definition plain_scope :: "sql_pred \<Rightarrow> scope" where
  "plain_scope p = \<lparr>sc_where = p, sc_args = [], sc_field_read = [], sc_field_write = [], sc_roles = [], sc_role_where = []\<rparr>"

definition record_scope :: "metadata \<Rightarrow> access_db \<Rightarrow> permission_request \<Rightarrow> scope_error + scope" where
  "record_scope meta db q0 =
     (case normalize_request q0 of Inl e \<Rightarrow> Inl (ScopeRequest e)
      | Inr q \<Rightarrow>
          let r = rq_resource q in
          if re_kind r \<noteq> ''entity'' then Inl ScopeNeedsEntity
          else if at_administrator (rq_actor q) then Inr (plain_scope TrueP)
          else case load_scope_grants db (at_user (rq_actor q)) r (rq_action q) of
            [] \<Rightarrow> Inr (plain_scope FalseP)
          | grants \<Rightarrow> compile_scope meta (at_user (rq_actor q)) (re_app r) (re_name r) grants)"

end
