(* ===== verification/Scope_Guarantees.thy ===== *)
theory Scope_Guarantees
  imports Permission_Scope Access_Guarantees
begin

text \<open>
  The compiled scope admits exactly the records the grants describe.  The compiled SQL is evaluated over
  tables of rows with the three truth values of SQL; the description follows links from record to record.
\<close>

section \<open>Evaluating the SQL\<close>

datatype cell = NullC | NumC int | TextC string | BoolC bool

type_synonym data_row = "string \<Rightarrow> cell"
type_synonym data_tables = "string \<Rightarrow> data_row list"

definition cell_eq :: "cell \<Rightarrow> cell \<Rightarrow> bool option" where
  "cell_eq x y = (if x = NullC \<or> y = NullC then None else Some (x = y))"

definition matching :: "data_tables \<Rightarrow> string \<Rightarrow> cell \<Rightarrow> data_row list" where
  "matching db t v = filter (\<lambda>r. cell_eq (r ''id'') v = Some True) (db t)"

fun join_rows :: "data_tables \<Rightarrow> (table_alias \<Rightarrow> data_row) \<Rightarrow> hop list \<Rightarrow> (table_alias \<Rightarrow> data_row) list" where
  "join_rows db env [] = [env]"
| "join_rows db env ((t, a, pa, pc) # hs) = concat (map (\<lambda>r. join_rows db (env(a := r)) hs) (matching db t (env pa pc)))"

definition eval_expr :: "data_tables \<Rightarrow> (table_alias \<Rightarrow> data_row) \<Rightarrow> cell list \<Rightarrow> sql_expr \<Rightarrow> cell" where
  "eval_expr db env args e =
     (case e of Column a c \<Rightarrow> env a c
      | Param n \<Rightarrow> args ! (n - 1)
      | Lookup a c hs \<Rightarrow> (case join_rows db env hs of [] \<Rightarrow> NullC | env' # _ \<Rightarrow> env' a c))"

definition any_true :: "bool option list \<Rightarrow> bool option" where
  "any_true bs = (if Some True \<in> set bs then Some True else if None \<in> set bs then None else Some False)"

definition all_true :: "bool option list \<Rightarrow> bool option" where
  "all_true bs = (if Some False \<in> set bs then Some False else if None \<in> set bs then None else Some True)"

fun eval_pred :: "data_tables \<Rightarrow> (table_alias \<Rightarrow> data_row) \<Rightarrow> cell list \<Rightarrow> sql_pred \<Rightarrow> bool option" where
  "eval_pred db env args TrueP = Some True"
| "eval_pred db env args FalseP = Some False"
| "eval_pred db env args (Equal x y) = cell_eq (eval_expr db env args x) (eval_expr db env args y)"
| "eval_pred db env args (NotRetired a) = cell_eq (env a ''retired'') (BoolC False)"
| "eval_pred db env args (Exists t a ps) =
     Some (\<exists>r\<in>set (db t). all_true (map (eval_pred db (env(a := r)) args) ps) = Some True)"
| "eval_pred db env args (AnyOf ps) = any_true (map (eval_pred db env args) ps)"
| "eval_pred db env args (AllOf ps) = all_true (map (eval_pred db env args) ps)"

text \<open>A WHERE clause keeps the rows for which the condition is true.\<close>

definition admits :: "data_tables \<Rightarrow> cell list \<Rightarrow> sql_pred \<Rightarrow> data_row \<Rightarrow> bool" where
  "admits db args p row \<longleftrightarrow> eval_pred db (\<lambda>_. row) args p = Some True"

lemma any_true_iff [simp]: "any_true bs = Some True \<longleftrightarrow> Some True \<in> set bs"
  by (simp add: any_true_def)

lemma all_true_iff [simp]: "all_true bs = Some True \<longleftrightarrow> (\<forall>b\<in>set bs. b = Some True)"
proof -
  have "Some False \<notin> set bs \<and> None \<notin> set bs \<longleftrightarrow> (\<forall>b\<in>set bs. b = Some True)"
    by (metis (full_types) option.distinct(1) option.exhaust option.inject)
  then show ?thesis by (auto simp: all_true_def)
qed

lemma cell_eq_true [simp]: "cell_eq x y = Some True \<longleftrightarrow> x = y \<and> y \<noteq> NullC"
  by (auto simp: cell_eq_def)

section \<open>What a grant describes\<close>

text \<open>The value at the end of a path of links; a missing link gives NULL.\<close>

fun path_value :: "metadata \<Rightarrow> data_tables \<Rightarrow> meta_entity \<Rightarrow> data_row \<Rightarrow> string list \<Rightarrow> cell" where
  "path_value meta db m row [] = NullC"
| "path_value meta db m row (n # ns) =
     (if n = ''id'' then row ''id''
      else if n = ''owner'' then row ''owner_id''
      else case record_addressable_field m n of None \<Rightarrow> NullC
      | Some f \<Rightarrow>
          if ns = [] then row (storage_column f)
          else case link_field_target_identity f (me_app m) of Inl _ \<Rightarrow> NullC
          | Inr (app, key) \<Rightarrow> (case meta app key of None \<Rightarrow> NullC
              | Some target \<Rightarrow> (case matching db (meta_table target) (row (storage_column f)) of
                  [] \<Rightarrow> NullC | r # _ \<Rightarrow> path_value meta db target r ns)))"

definition value_at :: "metadata \<Rightarrow> data_tables \<Rightarrow> meta_entity \<Rightarrow> data_row \<Rightarrow> string \<Rightarrow> cell" where
  "value_at meta db m row raw = path_value meta db m row (path_segments raw)"

definition is_member :: "metadata \<Rightarrow> data_tables \<Rightarrow> int \<Rightarrow> meta_entity \<Rightarrow> cell \<Rightarrow> membership \<Rightarrow> bool" where
  "is_member meta db actor root v m \<longleftrightarrow> v \<noteq> NullC \<and>
     (case meta (me_app root) (mb_entity m) of None \<Rightarrow> False
      | Some assignment \<Rightarrow> \<exists>r\<in>set (db (meta_table assignment)).
          value_at meta db assignment r (record_path_of (mb_value m)) = v
          \<and> (\<forall>p\<in>set (mb_where m). value_at meta db assignment r (record_path_of (fst p)) = NumC actor)
          \<and> (has_retired assignment \<longrightarrow> r ''retired'' = BoolC False))"

definition condition_holds :: "metadata \<Rightarrow> data_tables \<Rightarrow> int \<Rightarrow> meta_entity \<Rightarrow> data_row \<Rightarrow> condition \<Rightarrow> bool" where
  "condition_holds meta db actor root row co \<longleftrightarrow>
     (if co_equals co = ''actor.user'' then value_at meta db root row (co_field co) = NumC actor
      else case co_in co of None \<Rightarrow> False | Some m \<Rightarrow> is_member meta db actor root (value_at meta db root row (co_field co)) m)"

definition when_holds :: "metadata \<Rightarrow> data_tables \<Rightarrow> int \<Rightarrow> meta_entity \<Rightarrow> data_row \<Rightarrow> policy_when option \<Rightarrow> bool" where
  "when_holds meta db actor root row w \<longleftrightarrow>
     (case w of None \<Rightarrow> True
      | Some w \<Rightarrow> if wh_match w = ''any'' then list_ex (condition_holds meta db actor root row) (wh_conditions w)
          else list_all (condition_holds meta db actor root row) (wh_conditions w))"

text \<open>Ids are unique in every table.  A path must not end in the id or the owner of a linked record: the
  compiler then names an alias its SQL never binds.\<close>

definition unique_ids :: "data_tables \<Rightarrow> bool" where
  "unique_ids db \<longleftrightarrow> (\<forall>t v. length (matching db t v) \<le> 1)"

definition bound_path :: "string \<Rightarrow> bool" where
  "bound_path raw \<longleftrightarrow> length (path_segments raw) = 1 \<or> last (path_segments raw) \<notin> {''id'', ''owner''}"

definition bound_condition :: "condition \<Rightarrow> bool" where
  "bound_condition co \<longleftrightarrow> bound_path (co_field co) \<and>
     (case co_in co of None \<Rightarrow> True
      | Some m \<Rightarrow> bound_path (record_path_of (mb_value m)) \<and> list_all (\<lambda>p. bound_path (record_path_of (fst p))) (mb_where m))"

definition bound_grant :: "scope_grant \<Rightarrow> bool" where
  "bound_grant g \<longleftrightarrow> (case sg_when g of None \<Rightarrow> True | Some w \<Rightarrow> list_all bound_condition (wh_conditions w))"

section \<open>Paths\<close>

lemma concat_map_concat: "concat (map h (concat xss)) = concat (map (\<lambda>xs. concat (map h xs)) xss)"
  by (induction xss) auto

lemma join_rows_append: "join_rows db env (xs @ ys) = concat (map (\<lambda>e. join_rows db e ys) (join_rows db env xs))"
proof (induction xs arbitrary: env)
  case (Cons h xs)
  then show ?case by (cases h) (simp add: concat_map_concat comp_def fun_upd_def)
qed simp

lemma matching_cases:
  assumes "unique_ids db"
  shows "matching db t v = [] \<or> (\<exists>r. matching db t v = [r])"
  using assms by (cases "matching db t v") (auto simp: unique_ids_def dest!: spec [of _ t] spec [of _ v])

text \<open>The value of the expression so far, as the record the joins have reached.\<close>

definition reached :: "data_tables \<Rightarrow> (table_alias \<Rightarrow> data_row) \<Rightarrow> hop list \<Rightarrow> table_alias \<Rightarrow> data_row option" where
  "reached db env joins a = (case join_rows db env joins of [] \<Rightarrow> None | e # _ \<Rightarrow> Some (e a))"

lemma eval_path_end:
  "eval_expr db env args (path_end a column joins) = (case reached db env joins a of None \<Rightarrow> NullC | Some r \<Rightarrow> r column)"
  by (auto simp: path_end_def eval_expr_def reached_def split: list.splits)

lemma reached_hop:
  assumes "unique_ids db" "length (join_rows db env joins) \<le> 1"
  shows "length (join_rows db env (joins @ [(t, b, a, column)])) \<le> 1
    \<and> reached db env (joins @ [(t, b, a, column)]) b =
        (case reached db env joins a of None \<Rightarrow> None
         | Some r \<Rightarrow> (case matching db t (r column) of [] \<Rightarrow> None | x # _ \<Rightarrow> Some x))"
proof (cases "join_rows db env joins")
  case Nil
  then show ?thesis by (simp add: reached_def join_rows_append)
next
  case (Cons e es)
  with assms(2) have e: "join_rows db env joins = [e]" by simp
  from matching_cases [OF assms(1), of t "e a column"] show ?thesis
    by (auto simp: reached_def join_rows_append e)
qed

lemma path_loop_sound:
  assumes "path_loop meta m a joins ns c = Inr (e, c')" "unique_ids db"
    "length (join_rows db env joins) \<le> 1" "joins = [] \<or> last ns \<notin> {''id'', ''owner''}"
    "length ns = 1 \<or> last ns \<notin> {''id'', ''owner''}"
  shows "cm_args c' = cm_args c \<and>
    eval_expr db env args e = (case reached db env joins a of None \<Rightarrow> NullC | Some r \<Rightarrow> path_value meta db m r ns)"
  using assms
proof (induction meta m a joins ns c rule: path_loop.induct)
  case (2 meta current a joins n ns c)
  show ?case
  proof (cases "n = ''id'' \<or> n = ''owner''")
    case True
    then have ns: "ns = []" using "2.prems"(1) by (auto split: if_splits)
    then have "joins = []" using "2.prems"(4) True by auto
    with ns True "2.prems"(1) show ?thesis by (auto simp: reached_def eval_expr_def)
  next
    case False
    then obtain f where f: "record_addressable_field current n = Some f" "metadata_field_stored f"
      using "2.prems"(1) by (auto split: option.splits if_splits)
    show ?thesis
    proof (cases "ns = []")
      case True
      with False f "2.prems"(1) show ?thesis by (auto simp: eval_path_end split: option.splits)
    next
      case ns: False
      obtain app key target where t: "mf_type f = ''link''" "link_field_target_identity f (me_app current) = Inr (app, key)"
        "meta app key = Some target"
        using "2.prems"(1) False f ns by (auto simp: scope_entity_def split: if_splits sum.splits option.splits prod.splits)
      let ?b = "AccessAlias (cm_alias c + 1)" and ?c = "c\<lparr>cm_alias := cm_alias c + 1\<rparr>"
      let ?hop = "(meta_table target, ?b, a, storage_column f)"
      have loop: "path_loop meta target ?b (joins @ [?hop]) ns ?c = Inr (e, c')"
        using "2.prems"(1) False f ns t by (simp add: scope_entity_def next_alias_def)
      have last: "last ns \<notin> {''id'', ''owner''}" using "2.prems"(5) ns by simp
      note hop = reached_hop [OF "2.prems"(2,3), of "meta_table target" ?b a "storage_column f"]
      have nx: "(?b, ?c) = next_alias c" by (simp add: next_alias_def)
      have ent: "scope_entity meta app key = Inr target" using t(3) by (simp add: scope_entity_def)
      have IH: "cm_args c' = cm_args ?c \<and>
          eval_expr db env args e = (case reached db env (joins @ [?hop]) ?b of None \<Rightarrow> NullC | Some r \<Rightarrow> path_value meta db target r ns)"
        by (rule "2.IH" [OF _ _ f(1) _ ns _ t(2) refl ent nx refl loop "2.prems"(2)]) (use False f t(1) hop last in auto)
      show ?thesis using IH hop False f ns t by (auto split: option.splits list.splits)
    qed
  qed
qed simp

text \<open>One path of the root or of an alias bound to a row of its table.\<close>

lemma scope_path_sound:
  assumes "scope_path meta m a raw c = Inr (e, c')" "unique_ids db" "bound_path raw"
  shows "cm_args c' = cm_args c \<and> eval_expr db env args e = value_at meta db m (env a) raw"
proof -
  have loop: "path_loop meta m a [] (path_segments raw) c = Inr (e, c')"
    using assms(1) by (simp add: scope_path_def split: if_splits)
  have "length (path_segments raw) = 1 \<or> last (path_segments raw) \<notin> {''id'', ''owner''}"
    using assms(3) by (simp add: bound_path_def)
  from path_loop_sound [OF loop assms(2) _ _ this, of env args] show ?thesis
    by (simp add: value_at_def reached_def)
qed

section \<open>Conditions and grants\<close>

text \<open>All parameters are the id of the actor; an argument list fits once it is long enough.\<close>

definition grows :: "int \<Rightarrow> compiler \<Rightarrow> compiler \<Rightarrow> bool" where
  "grows actor c c' \<longleftrightarrow> length (cm_args c) \<le> length (cm_args c') \<and> set (cm_args c') \<subseteq> insert actor (set (cm_args c))"

definition fits :: "int \<Rightarrow> compiler \<Rightarrow> cell list \<Rightarrow> bool" where
  "fits actor c args \<longleftrightarrow> length (cm_args c) \<le> length args \<and> set args \<subseteq> {NumC actor}"

lemma grows_same: "cm_args c' = cm_args c \<Longrightarrow> grows actor c c'"
  by (auto simp: grows_def)

lemma grows_trans: "grows actor c1 c2 \<Longrightarrow> grows actor c2 c3 \<Longrightarrow> grows actor c1 c3"
  by (auto simp: grows_def)

lemma fits_grows: "fits actor c' args \<Longrightarrow> grows actor c c' \<Longrightarrow> fits actor c args"
  by (auto simp: fits_def grows_def)

lemma scope_arg_sound:
  assumes "scope_arg actor c = (x, c')"
  shows "grows actor c c' \<and> (fits actor c' args \<longrightarrow> eval_expr db env args x = NumC actor)"
proof -
  have x: "x = Param (length (cm_args c) + 1)" and c': "cm_args c' = cm_args c @ [actor]"
    using assms by (auto simp: scope_arg_def)
  have "args ! length (cm_args c) = NumC actor" if "fits actor c' args"
  proof -
    from that c' have "length (cm_args c) < length args" "set args \<subseteq> {NumC actor}" by (auto simp: fits_def)
    then show ?thesis using nth_mem by blast
  qed
  with x c' show ?thesis by (auto simp: grows_def eval_expr_def)
qed

text \<open>A loop whose every step appends one compiled item.\<close>

lemma foldR_appends:
  assumes "foldR f (ys, c) xs = Inr (ys', c')"
    and step: "\<And>ys c x ys' c'. x \<in> set xs \<Longrightarrow> f (ys, c) x = Inr (ys', c') \<Longrightarrow>
      \<exists>y. ys' = ys @ [y] \<and> grows actor c c' \<and> (\<forall>args. fits actor c' args \<longrightarrow> R args x y)"
  shows "\<exists>zs. ys' = ys @ zs \<and> grows actor c c' \<and> (\<forall>args. fits actor c' args \<longrightarrow> list_all2 (R args) xs zs)"
  using assms
proof (induction xs arbitrary: ys c)
  case Nil
  then show ?case by (simp add: grows_same)
next
  case (Cons x xs)
  obtain ys1 c1 where s: "f (ys, c) x = Inr (ys1, c1)" "foldR f (ys1, c1) xs = Inr (ys', c')"
    using Cons.prems(1) by (auto split: sum.splits)
  obtain y where y: "ys1 = ys @ [y]" "grows actor c c1" "\<forall>args. fits actor c1 args \<longrightarrow> R args x y"
    using Cons.prems(2) [OF _ s(1)] by auto
  obtain zs where zs: "ys' = ys1 @ zs" "grows actor c1 c'" "\<forall>args. fits actor c' args \<longrightarrow> list_all2 (R args) xs zs"
    using Cons.IH [OF s(2)] Cons.prems(2) by (meson list.set_intros(2))
  have "list_all2 (R args) (x # xs) (y # zs)" if "fits actor c' args" for args
    using that y(3) zs(3) fits_grows [OF that zs(2)] by simp
  with y zs grows_trans [OF y(2) zs(2)] show ?case by (intro exI [of _ "y # zs"]) simp
qed

lemma member_clause_sound:
  assumes "member_clause meta actor assignment a (ps, c) p = Inr (ps', c')" "unique_ids db" "bound_path (record_path_of (fst p))"
  shows "\<exists>x. ps' = ps @ [x] \<and> grows actor c c' \<and> (\<forall>args. fits actor c' args \<longrightarrow>
    (\<forall>env. eval_pred db env args x = Some True \<longleftrightarrow> value_at meta db assignment (env a) (record_path_of (fst p)) = NumC actor))"
proof -
  obtain v c1 x where s: "scope_path meta assignment a (record_path_of (fst p)) c = Inr (v, c1)" "scope_arg actor c1 = (x, c')"
    "ps' = ps @ [Equal v x]"
    using assms(1) by (auto simp: member_clause_def bindR_Inr_iff scope_arg_def split: if_splits)
  note v = scope_path_sound [OF s(1) assms(2,3)] and x = scope_arg_sound [OF s(2)]
  have "grows actor c c'" using v x grows_trans [OF grows_same] by blast
  with s(3) v x show ?thesis by auto
qed

lemma scope_membership_sound:
  assumes "scope_membership meta actor root rv m c = Inr (p, c')" "unique_ids db"
    "bound_path (record_path_of (mb_value m))" "list_all (\<lambda>p. bound_path (record_path_of (fst p))) (mb_where m)"
    and rv: "\<And>env args. eval_expr db env args rv = value_at meta db root (env RecordAlias) raw"
  shows "grows actor c c' \<and> (\<forall>args. fits actor c' args \<longrightarrow>
    (\<forall>env. eval_pred db env args p = Some True \<longleftrightarrow> is_member meta db actor root (value_at meta db root (env RecordAlias) raw) m))"
proof -
  obtain t a c1 v c2 clauses where s: "meta (me_app root) (mb_entity m) = Some t" "next_alias c = (a, c1)"
    "scope_path meta t a (record_path_of (mb_value m)) c1 = Inr (v, c2)"
    "foldR (member_clause meta actor t a) ([Equal v rv], c2) (mb_where m) = Inr (clauses, c')"
    "p = Exists (meta_table t) a (clauses @ (if has_retired t then [NotRetired a] else []))"
    using assms(1) by (auto simp: scope_membership_def scope_entity_def bindR_Inr_iff split: option.splits prod.splits)
  have a: "a \<noteq> RecordAlias" "cm_args c1 = cm_args c" using s(2) by (auto simp: next_alias_def)
  note v = scope_path_sound [OF s(3) assms(2,3)]
  let ?R = "\<lambda>args p x. \<forall>env. eval_pred db env args x = Some True \<longleftrightarrow> value_at meta db t (env a) (record_path_of (fst p)) = NumC actor"
  have step: "\<exists>y. ys' = ys @ [y] \<and> grows actor c c' \<and> (\<forall>args. fits actor c' args \<longrightarrow> ?R args x y)"
    if "x \<in> set (mb_where m)" "member_clause meta actor t a (ys, c) x = Inr (ys', c')" for ys c x ys' c'
    by (rule member_clause_sound [OF that(2) assms(2)]) (use that(1) assms(4) in \<open>auto simp: list_all_iff\<close>)
  obtain xs where xs: "clauses = [Equal v rv] @ xs" "grows actor c2 c'"
    "\<And>args. fits actor c' args \<Longrightarrow> list_all2 (?R args) (mb_where m) xs"
  proof -
    have "\<exists>zs. clauses = [Equal v rv] @ zs \<and> grows actor c2 c' \<and> (\<forall>args. fits actor c' args \<longrightarrow> list_all2 (?R args) (mb_where m) zs)"
      by (rule foldR_appends [OF s(4)]) (rule step)
    then show ?thesis using that by blast
  qed
  have "grows actor c c'" using grows_trans [OF grows_same xs(2)] v a(2) by simp
  moreover have "eval_pred db env args p = Some True \<longleftrightarrow> is_member meta db actor root (value_at meta db root (env RecordAlias) raw) m"
    if fit: "fits actor c' args" for args env
  proof -
    have rest: "(\<forall>x\<in>set xs. eval_pred db env' args x = Some True)
        \<longleftrightarrow> (\<forall>q\<in>set (mb_where m). value_at meta db t (env' a) (record_path_of (fst q)) = NumC actor)" for env'
      using xs(3) [OF fit] by (induction rule: list_all2_induct) auto
    show ?thesis using v rv a(1) rest s(1)
      by (auto simp: s(5) xs(1) is_member_def ball_Un)
  qed
  ultimately show ?thesis by blast
qed

lemma scope_condition_sound:
  assumes "scope_condition meta actor root (ps, c) co = Inr (ps', c')" "unique_ids db" "bound_condition co"
  shows "\<exists>x. ps' = ps @ [x] \<and> grows actor c c' \<and> (\<forall>args. fits actor c' args \<longrightarrow>
    (\<forall>row. admits db args x row \<longleftrightarrow> condition_holds meta db actor root row co))"
proof -
  obtain e c1 where e: "scope_path meta root RecordAlias (co_field co) c = Inr (e, c1)"
    using assms(1) by (auto simp: scope_condition_def bindR_Inr_iff)
  have bound: "bound_path (co_field co)" using assms(3) by (simp add: bound_condition_def)
  note v = scope_path_sound [OF e assms(2) bound]
  have g1: "grows actor c c1" using v by (simp add: grows_same)
  show ?thesis
  proof (cases "co_equals co = ''actor.user''")
    case True
    then obtain x where x: "scope_arg actor c1 = (x, c')" "ps' = ps @ [Equal e x]"
      using assms(1) e by (auto simp: scope_condition_def scope_arg_def)
    note a = scope_arg_sound [OF x(1)]
    have "grows actor c c'" using g1 a grows_trans by blast
    with x(2) v a True show ?thesis by (auto simp: admits_def condition_holds_def)
  next
    case False
    then obtain m p where m: "co_in co = Some m" "scope_membership meta actor root e m c1 = Inr (p, c')" "ps' = ps @ [p]"
      using assms(1) e by (auto simp: scope_condition_def bindR_Inr_iff split: option.splits)
    have "bound_path (record_path_of (mb_value m))" "list_all (\<lambda>p. bound_path (record_path_of (fst p))) (mb_where m)"
      using assms(3) m(1) by (simp_all add: bound_condition_def)
    note s = scope_membership_sound [OF m(2) assms(2) this, of "co_field co"]
    have s': "grows actor c1 c'" "\<And>args env. fits actor c' args \<Longrightarrow> eval_pred db env args p = Some True
        \<longleftrightarrow> is_member meta db actor root (value_at meta db root (env RecordAlias) (co_field co)) m"
      using s v by blast+
    have "grows actor c c'" using g1 s'(1) grows_trans by blast
    with m s'(2) False show ?thesis by (auto simp: admits_def condition_holds_def)
  qed
qed

lemma admits_lists:
  assumes "list_all2 (\<lambda>co x. \<forall>row. admits db args x row \<longleftrightarrow> P row co) cs xs"
  shows "(admits db args (AnyOf xs) row \<longleftrightarrow> list_ex (P row) cs) \<and> (admits db args (AllOf xs) row \<longleftrightarrow> list_all (P row) cs)"
  using assms
proof (induction cs xs rule: list_all2_induct)
  case Nil
  then show ?case by (simp add: admits_def)
next
  case (Cons co cs x xs)
  from Cons.hyps(1) have "eval_pred db (\<lambda>_. row) args x = Some True \<longleftrightarrow> P row co" by (simp add: admits_def)
  with Cons.IH show ?case by (auto simp: admits_def)
qed

lemma scope_when_sound:
  assumes "scope_when meta actor root w c = Inr (p, c')" "unique_ids db"
    "case w of None \<Rightarrow> True | Some w \<Rightarrow> list_all bound_condition (wh_conditions w)"
  shows "grows actor c c' \<and> (\<forall>args. fits actor c' args \<longrightarrow> (\<forall>row. admits db args p row \<longleftrightarrow> when_holds meta db actor root row w))"
proof (cases w)
  case None
  then show ?thesis using assms(1) by (simp add: scope_when_def grows_same when_holds_def admits_def)
next
  case (Some w)
  let ?R = "\<lambda>args co x. \<forall>row. admits db args x row \<longleftrightarrow> condition_holds meta db actor root row co"
  obtain xs where f: "foldR (scope_condition meta actor root) ([], c) (wh_conditions w) = Inr (xs, c')"
    and p: "p = (if wh_match w = ''any'' then AnyOf xs else AllOf xs)"
    using assms(1) Some by (auto simp: scope_when_def bindR_Inr_iff)
  have step: "\<exists>y. ys' = ys @ [y] \<and> grows actor c c' \<and> (\<forall>args. fits actor c' args \<longrightarrow> ?R args co y)"
    if "co \<in> set (wh_conditions w)" "scope_condition meta actor root (ys, c) co = Inr (ys', c')" for ys c co ys' c'
    by (rule scope_condition_sound [OF that(2) assms(2)]) (use that(1) assms(3) Some in \<open>auto simp: list_all_iff\<close>)
  have "\<exists>zs. xs = [] @ zs \<and> grows actor c c' \<and> (\<forall>args. fits actor c' args \<longrightarrow> list_all2 (?R args) (wh_conditions w) zs)"
    by (rule foldR_appends [OF f]) (rule step)
  then have g: "grows actor c c'" "\<And>args. fits actor c' args \<Longrightarrow> list_all2 (?R args) (wh_conditions w) xs" by auto
  with admits_lists [OF g(2)] p show ?thesis by (simp add: Some when_holds_def)
qed

lemma compile_grants_sound:
  assumes "foldR (compile_grant meta actor root) ([], c) grants = Inr (gps, c')" "unique_ids db" "list_all bound_grant grants"
  shows "grows actor c c' \<and> map fst gps = grants \<and>
    (\<forall>args. fits actor c' args \<longrightarrow> (\<forall>(g, p)\<in>set gps. \<forall>row. admits db args p row \<longleftrightarrow> when_holds meta db actor root row (sg_when g)))"
proof -
  let ?R = "\<lambda>args g y. fst y = g \<and> (\<forall>row. admits db args (snd y) row \<longleftrightarrow> when_holds meta db actor root row (sg_when g))"
  have step: "\<exists>y. ys' = ys @ [y] \<and> grows actor c c' \<and> (\<forall>args. fits actor c' args \<longrightarrow> ?R args g y)"
    if g: "g \<in> set grants" "compile_grant meta actor root (ys, c) g = Inr (ys', c')" for ys c g ys' c'
  proof -
    obtain p where p: "scope_when meta actor root (sg_when g) c = Inr (p, c')" "ys' = ys @ [(g, p)]"
      using g(2) by (auto simp: compile_grant_def split: sum.splits)
    have "case sg_when g of None \<Rightarrow> True | Some w \<Rightarrow> list_all bound_condition (wh_conditions w)"
      using assms(3) g(1) by (auto simp: list_all_iff bound_grant_def)
    from scope_when_sound [OF p(1) assms(2) this] p(2) show ?thesis by auto
  qed
  have "\<exists>zs. gps = [] @ zs \<and> grows actor c c' \<and> (\<forall>args. fits actor c' args \<longrightarrow> list_all2 (?R args) grants zs)"
    by (rule foldR_appends [OF assms(1)]) (rule step)
  then have all: "grows actor c c'" "\<And>args. fits actor c' args \<Longrightarrow> list_all2 (?R args) grants gps" by auto
  have fit: "fits actor c' (replicate (length (cm_args c')) (NumC actor))" by (auto simp: fits_def)
  have "map fst gps = grants" using all(2) [OF fit] by (induction rule: list_all2_induct) auto
  moreover have "\<forall>(g, p)\<in>set gps. \<forall>row. admits db args p row \<longleftrightarrow> when_holds meta db actor root row (sg_when g)"
    if "fits actor c' args" for args
    using all(2) [OF that] by (induction rule: list_all2_induct) auto
  ultimately show ?thesis using all(1) by blast
qed

lemma admits_any: "admits db args (AnyOf (map snd xs)) row \<longleftrightarrow> (\<exists>x\<in>set xs. admits db args (snd x) row)"
  by (force simp: admits_def)

lemma field_predicate_sound:
  assumes "map fst gps = grants" "distinct (map sg_role grants)"
    "\<forall>(g, p)\<in>set gps. \<forall>row. admits db args p row \<longleftrightarrow> P row g"
  shows "admits db args (field_predicate gps open_to) row \<longleftrightarrow> (\<exists>g\<in>set grants. P row g \<and> open_to g)"
proof -
  have names: "map fst (role_predicates gps) = rev (map sg_role grants)"
    using assms(1) by (auto simp: role_predicates_def rev_map comp_def case_prod_beta)
  have own: "map_of (role_predicates gps) (sg_role g) = Some p" if "(g, p) \<in> set gps" for g p
  proof (rule map_of_is_SomeI)
    show "distinct (map fst (role_predicates gps))" using assms(2) names by simp
    show "(sg_role g, p) \<in> set (role_predicates gps)" using that by (force simp: role_predicates_def)
  qed
  then have "field_predicate gps open_to = AnyOf (map snd (filter (\<lambda>(g, p). open_to g) gps))"
    unfolding field_predicate_def by (auto intro!: map_cong)
  moreover have "admits db args (snd x) row \<longleftrightarrow> P row (fst x)" if "x \<in> set gps" for x
    using assms(3) that by (cases x) auto
  ultimately show ?thesis by (force simp: admits_any case_prod_beta simp flip: assms(1))
qed

lemma record_scope_admits:
  assumes "record_scope meta acc q0 = Inr sc" "normalize_request q0 = Inr q" "\<not> at_administrator (rq_actor q)"
    and "meta (re_app (rq_resource q)) (re_name (rq_resource q)) = Some root" "unique_ids db"
    and grants: "grants = load_scope_grants acc (at_user (rq_actor q)) (rq_resource q) (rq_action q)"
    and "list_all bound_grant grants" "distinct (map sg_role grants)"
  shows "(admits db (map NumC (sc_args sc)) (sc_where sc) row \<longleftrightarrow>
      (\<exists>g\<in>set grants. when_holds meta db (at_user (rq_actor q)) root row (sg_when g)))
    \<and> (\<forall>(f, p)\<in>set (sc_field_read sc). admits db (map NumC (sc_args sc)) p row \<longleftrightarrow>
      (\<exists>g\<in>set grants. when_holds meta db (at_user (rq_actor q)) root row (sg_when g) \<and> reads_field f g))
    \<and> (\<forall>(f, p)\<in>set (sc_field_write sc). admits db (map NumC (sc_args sc)) p row \<longleftrightarrow>
      (\<exists>g\<in>set grants. when_holds meta db (at_user (rq_actor q)) root row (sg_when g) \<and> writes_field f g))"
proof (cases "grants = []")
  case True
  then have "sc = plain_scope FalseP"
    using assms(1-3) grants by (auto simp: record_scope_def Let_def split: if_splits list.splits)
  with True show ?thesis by (simp add: plain_scope_def admits_def)
next
  case False
  let ?u = "at_user (rq_actor q)" and ?names = "dedup (concat (map (\<lambda>g. pf_deny_read (sg_fields g) @ pf_deny_write (sg_fields g)) grants))"
  have "compile_scope meta ?u (re_app (rq_resource q)) (re_name (rq_resource q)) grants = Inr sc"
    using assms(1-3) grants False by (auto simp: record_scope_def Let_def split: if_splits list.splits)
  then obtain gps c where c: "foldR (compile_grant meta ?u root) ([], \<lparr>cm_args = [], cm_alias = 0\<rparr>) grants = Inr (gps, c)"
    "sc = \<lparr>sc_where = AnyOf (map snd gps), sc_args = cm_args c,
        sc_field_read = map (\<lambda>f. (f, field_predicate gps (reads_field f))) ?names,
        sc_field_write = map (\<lambda>f. (f, field_predicate gps (writes_field f))) ?names,
        sc_roles = sort (map sg_role grants), sc_role_where = role_predicates gps\<rparr>"
    using assms(4) by (auto simp: compile_scope_def scope_entity_def bindR_Inr_iff Let_def)
  note s = compile_grants_sound [OF c(1) assms(5,7)]
  have fit: "fits ?u c (map NumC (cm_args c))" using s by (auto simp: fits_def grows_def)
  then have each: "\<forall>(g, p)\<in>set gps. \<forall>row. admits db (map NumC (cm_args c)) p row \<longleftrightarrow> when_holds meta db ?u root row (sg_when g)"
    using s by blast
  have gps: "map fst gps = grants" using s by blast
  have snd_iff: "admits db (map NumC (cm_args c)) (snd x) row \<longleftrightarrow> when_holds meta db ?u root row (sg_when (fst x))" if "x \<in> set gps" for x
    using each that by (cases x) auto
  have rows: "admits db (map NumC (cm_args c)) (AnyOf (map snd gps)) row \<longleftrightarrow> (\<exists>g\<in>set grants. when_holds meta db ?u root row (sg_when g))"
    by (auto simp: admits_any snd_iff simp flip: gps)
  note fields = field_predicate_sound [OF gps assms(8) each, where row = row]
  have parts: "map NumC (sc_args sc) = map NumC (cm_args c)" "sc_where sc = AnyOf (map snd gps)"
    "set (sc_field_read sc) = (\<lambda>f. (f, field_predicate gps (reads_field f))) ` set ?names"
    "set (sc_field_write sc) = (\<lambda>f. (f, field_predicate gps (writes_field f))) ` set ?names"
    by (simp_all only: c(2) scope.simps set_map)
  show ?thesis unfolding parts using rows fields by blast
qed

text \<open>C24: For an actor who is not an administrator the compiled WHERE clause, evaluated with its arguments,
  keeps exactly the records for which some grant's row conditions hold, and the predicate of a field
  holds exactly when a grant whose conditions hold opens the field.\<close>

theorem record_scope_exact:
  assumes "record_scope meta acc q0 = Inr sc" "normalize_request q0 = Inr q" "\<not> at_administrator (rq_actor q)"
    and "meta (re_app (rq_resource q)) (re_name (rq_resource q)) = Some root" "unique_ids db"
    and grants: "grants = load_scope_grants acc (at_user (rq_actor q)) (rq_resource q) (rq_action q)"
    and "list_all bound_grant grants" "distinct (map sg_role grants)"
  shows "(admits db (map NumC (sc_args sc)) (sc_where sc) row \<longleftrightarrow>
      (\<exists>g\<in>set grants. when_holds meta db (at_user (rq_actor q)) root row (sg_when g)))
    \<and> (\<forall>(f, p)\<in>set (sc_field_read sc). admits db (map NumC (sc_args sc)) p row \<longleftrightarrow>
      (\<exists>g\<in>set grants. when_holds meta db (at_user (rq_actor q)) root row (sg_when g) \<and> reads_field f g))
    \<and> (\<forall>(f, p)\<in>set (sc_field_write sc). admits db (map NumC (sc_args sc)) p row \<longleftrightarrow>
      (\<exists>g\<in>set grants. when_holds meta db (at_user (rq_actor q)) root row (sg_when g) \<and> writes_field f g))"
  using record_scope_admits [OF assms] .

section \<open>Samples\<close>

definition sample_link_field :: "string \<Rightarrow> string \<Rightarrow> meta_field" where
  "sample_link_field name target = \<lparr>mf_name = name, mf_type = ''link'', mf_unique = False, mf_stored = True, mf_write_only = False,
     mf_value_kind = ''integer'', mf_link = Some ([], target)\<rparr>"

definition sample_meta_entity :: "string \<Rightarrow> meta_field list \<Rightarrow> meta_entity" where
  "sample_meta_entity key fs = \<lparr>me_app = ''crm'', me_key = key, me_name = key, me_fields = fs, me_constraints = []\<rparr>"

definition sample_metadata :: metadata where
  "sample_metadata app key =
     (if app \<noteq> ''crm'' then None
      else if key = ''ticket'' then Some (sample_meta_entity key [sample_link_field ''customer'' ''customer''])
      else if key = ''customer'' then Some (sample_meta_entity key [sample_link_field ''manager'' ''user''])
      else None)"

definition sample_row_policy :: "string \<Rightarrow> policy_when" where
  "sample_row_policy path = \<lparr>wh_match = ''all'', wh_conditions = [\<lparr>co_field = path, co_equals = ''actor.user'', co_in = None\<rparr>]\<rparr>"

definition sample_scope_db :: "string \<Rightarrow> access_db" where
  "sample_scope_db path = sample_access_db\<lparr>ac_perms := [\<lparr>pm_target = EntityTarget 7, pm_role = 3,
     pm_columns = [(''\"read\"'', True)], pm_actions = [], pm_when = Some (sample_row_policy path),
     pm_fields = \<lparr>pf_deny_read = [''secret''], pf_deny_write = []\<rparr>, pm_retired = False\<rparr>]\<rparr>"

definition sample_scope :: "string \<Rightarrow> scope" where
  "sample_scope path = (case record_scope sample_metadata (sample_scope_db path) (sample_request ''read'') of
     Inr sc \<Rightarrow> sc | Inl _ \<Rightarrow> plain_scope FalseP)"

definition sample_customer_row :: "int \<Rightarrow> data_row" where
  "sample_customer_row manager column = (if column = ''id'' then NumC 5 else if column = ''manager_id'' then NumC manager else NullC)"

definition sample_ticket_data :: data_row where
  "sample_ticket_data column = (if column = ''id'' then NumC 2 else if column = ''customer_id'' then NumC 5 else NullC)"

definition sample_tables :: "int \<Rightarrow> data_tables" where
  "sample_tables manager t = (if t = ''crm_customer'' then [sample_customer_row manager] else [])"

text \<open>The SQL of a condition two links deep.\<close>

lemma sample_scope_sql:
  "render_pred (sc_where (sample_scope ''record.customer.manager'')) =
     ''(((SELECT \"_dygo_access_1\".\"manager_id\" FROM \"crm_customer\" AS \"_dygo_access_1\" WHERE \"_dygo_access_1\".\"id\" = \"_dygo_record\".\"customer_id\" LIMIT 1) = $1))''"
  by code_simp

text \<open>The owner of a linked record: the SQL names an alias that no FROM clause binds.\<close>

lemma linked_owner_unbound:
  "render_pred (sc_where (sample_scope ''record.customer.owner'')) = ''((\"_dygo_access_1\".\"owner_id\" = $1))''"
  by code_simp

theorem record_scope_exact_witness:
  "admits (sample_tables 1) (map NumC (sc_args (sample_scope ''record.customer.manager''))) (sc_where (sample_scope ''record.customer.manager'')) sample_ticket_data
    \<and> \<not> admits (sample_tables 4) (map NumC (sc_args (sample_scope ''record.customer.manager''))) (sc_where (sample_scope ''record.customer.manager'')) sample_ticket_data"
proof -
  let ?path = "''record.customer.manager''"
  define grants where "grants = load_scope_grants (sample_scope_db ?path) 1 \<lparr>re_kind = ''entity'', re_app = ''crm'', re_name = ''ticket''\<rparr> ''read''"
  have g: "grants = [\<lparr>sg_role = ''agent'', sg_when = Some (sample_row_policy ?path), sg_fields = \<lparr>pf_deny_read = [''secret''], pf_deny_write = []\<rparr>\<rparr>]"
    unfolding grants_def by code_simp
  have sc: "record_scope sample_metadata (sample_scope_db ?path) (sample_request ''read'') = Inr (sample_scope ?path)"
    "normalize_request (sample_request ''read'') = Inr (sample_normal ''read'')"
    "\<not> at_administrator (rq_actor (sample_normal ''read''))"
    "sample_metadata (re_app (rq_resource (sample_normal ''read''))) (re_name (rq_resource (sample_normal ''read''))) =
       Some (sample_meta_entity ''ticket'' [sample_link_field ''customer'' ''customer''])"
    by code_simp+
  have ids: "unique_ids (sample_tables m)" for m
    by (auto simp: unique_ids_def matching_def sample_tables_def)
  have gs: "grants = load_scope_grants (sample_scope_db ?path) (at_user (rq_actor (sample_normal ''read'')))
      (rq_resource (sample_normal ''read'')) (rq_action (sample_normal ''read''))"
    by (simp add: grants_def sample_normal_def sample_request_def)
  have ok: "list_all bound_grant grants" "distinct (map sg_role grants)" unfolding g by code_simp+
  have "admits (sample_tables m) (map NumC (sc_args (sample_scope ?path))) (sc_where (sample_scope ?path)) sample_ticket_data \<longleftrightarrow> m = 1" for m
  proof -
    have "when_holds sample_metadata (sample_tables m) 1 (sample_meta_entity ''ticket'' [sample_link_field ''customer'' ''customer''])
        sample_ticket_data (Some (sample_row_policy ?path)) \<longleftrightarrow> m = 1"
      by (simp add: when_holds_def sample_row_policy_def condition_holds_def value_at_def) (code_simp)
    with record_scope_exact [OF sc ids gs ok, of m sample_ticket_data] show ?thesis
      by (simp add: g sample_normal_def sample_request_def)
  qed
  then show ?thesis by simp
qed

end
