(* ===== verification/Schema_Desired.thy ===== *)
theory Schema_Desired
  imports Storage_Layout Go_Strings
begin

text \<open>
  The schema that Entity metadata asks for (\<^verbatim>\<open>buildDesiredSchema\<close> in
  \<^verbatim>\<open>internal/db/schema_plan.go\<close>): one table per Entity with its system columns, field columns,
  indexes and constraints, as the SQL text the source writes.
\<close>

record desired_column =
  dc_name :: string
  dc_type :: string
  dc_required :: bool
  dc_safe_default :: bool
  dc_default :: string
  dc_definition :: string
  dc_source :: string

record desired_index =
  di_name :: string
  di_columns :: "string list"
  di_source :: string

record desired_constraint =
  dk_name :: string
  dk_type :: string
  dk_columns :: "string list"
  dk_definition :: string
  dk_source :: string
  dk_unsafe_on_rows :: bool
  dk_missing :: "string \<times> string \<times> string"

record desired_table =
  dt_name :: string
  dt_source :: string
  dt_create_sql :: string
  dt_system_columns :: "desired_column list"
  dt_columns :: "desired_column list"
  dt_indexes :: "desired_index list"
  dt_constraints :: "desired_constraint list"

datatype schema_cause =
    StorageFault storage_error
  | DuplicateTable string string string string
  | SqlTypeMissing string
  | TargetFault resolve_error
  | DefaultNotScalar
  | DefaultNotBoolean string
  | CheckNotScalar
  | CheckNotBoolean string
  | CheckNull
  | CheckOperatorUnknown string
  | FieldNotStored string
  | CheckFieldNotStored string
  | DuplicateIndexName string string
  | DuplicateConstraintName string string

datatype schema_error =
    EntityFault string string string schema_cause
  | FieldFault string string string string schema_cause

definition entity_fault :: "loaded_entity \<Rightarrow> schema_cause \<Rightarrow> schema_error" where
  "entity_fault e c = EntityFault (le_app e) (en_name (le_entity e)) (le_path e) c"

definition field_fault :: "loaded_entity \<Rightarrow> field \<Rightarrow> schema_cause \<Rightarrow> schema_error" where
  "field_fault e f c = FieldFault (le_app e) (en_name (le_entity e)) (fd_name f) (le_path e) c"

text \<open>An error of an inner call, wrapped by its caller.\<close>

definition wrapR :: "('e \<Rightarrow> 'f) \<Rightarrow> 'e + 'a \<Rightarrow> 'f + 'a" where
  "wrapR w r = (case r of Inl e \<Rightarrow> Inl (w e) | Inr a \<Rightarrow> Inr a)"

lemma wrapR_Inr [simp]: "wrapR w r = Inr a \<longleftrightarrow> r = Inr a"
  by (cases r) (auto simp: wrapR_def)

section \<open>Sources\<close>

definition entity_source :: "loaded_entity \<Rightarrow> string" where
  "entity_source e = ''app '' @ le_app e @ '' entity '' @ en_name (le_entity e) @ '' at '' @ le_path e"

definition field_source :: "loaded_entity \<Rightarrow> field \<Rightarrow> string" where
  "field_source e f = ''app '' @ le_app e @ '' entity '' @ en_name (le_entity e) @ '' field '' @ fd_name f @ '' at '' @ le_path e"

definition index_source :: "loaded_entity \<Rightarrow> index \<Rightarrow> string" where
  "index_source e i = ''app '' @ le_app e @ '' entity '' @ en_name (le_entity e) @ '' index ''
     @ index_effective_name (le_entity e) i @ '' at '' @ le_path e"

definition constraint_source :: "loaded_entity \<Rightarrow> constraint \<Rightarrow> string" where
  "constraint_source e c = ''app '' @ le_app e @ '' entity '' @ en_name (le_entity e) @ '' constraint ''
     @ constraint_effective_name (le_entity e) c @ '' at '' @ le_path e"

section \<open>Values\<close>

definition bool_sql :: "bool \<Rightarrow> string" where
  "bool_sql b = (if b then ''true'' else ''false'')"

definition default_clause :: "node \<Rightarrow> schema_cause + string option" where
  "default_clause n =
     (case n of NoNode \<Rightarrow> Inr None
      | Scalar t v \<Rightarrow>
          if t = ''!!bool'' then (case parse_bool v of None \<Rightarrow> Inl (DefaultNotBoolean v) | Some b \<Rightarrow> Inr (Some (bool_sql b)))
          else if t = ''!!int'' \<or> t = ''!!float'' then Inr (Some v)
          else if t = ''!!null'' then Inr (Some ''NULL'')
          else Inr (Some (quote_literal v))
      | _ \<Rightarrow> Inl DefaultNotScalar)"

definition scalar_sql :: "node \<Rightarrow> schema_cause + string" where
  "scalar_sql n =
     (case n of Scalar t v \<Rightarrow>
          if t = ''!!bool'' then (case parse_bool v of None \<Rightarrow> Inl (CheckNotBoolean v) | Some b \<Rightarrow> Inr (bool_sql b))
          else if t = ''!!int'' \<or> t = ''!!float'' then Inr v
          else if t = ''!!null'' then Inl CheckNull
          else Inr (quote_literal v)
      | _ \<Rightarrow> Inl CheckNotScalar)"

definition check_value_sql :: "node \<Rightarrow> schema_cause + string" where
  "check_value_sql n =
     (case n of Sequence items \<Rightarrow> bindR (mapR scalar_sql items) (\<lambda>vs. Inr (join '', '' vs)) | _ \<Rightarrow> scalar_sql n)"

definition check_sql :: "string \<Rightarrow> string option" where
  "check_sql operator = map_of
     [(''eq'', '' = ''), (''neq'', '' <> ''), (''gt'', '' > ''), (''gte'', '' >= ''), (''lt'', '' < ''), (''lte'', '' <= '')] operator"

definition structured_check_value :: "string \<Rightarrow> string \<Rightarrow> node \<Rightarrow> schema_cause + string" where
  "structured_check_value column operator n =
     bindR (check_value_sql n) (\<lambda>v.
       case check_sql operator of Some s \<Rightarrow> Inr (''CHECK ('' @ quote_ident column @ s @ v @ '')'')
       | None \<Rightarrow>
           if operator = ''in'' then Inr (''CHECK ('' @ quote_ident column @ '' IN ('' @ v @ ''))'')
           else if operator = ''not-in'' then Inr (''CHECK ('' @ quote_ident column @ '' NOT IN ('' @ v @ ''))'')
           else Inl (CheckOperatorUnknown operator))"

definition structured_check :: "string \<Rightarrow> constraint \<Rightarrow> schema_cause + string" where
  "structured_check column c = structured_check_value column (cn_operator c) (cn_value c)"

definition select_check :: "string \<Rightarrow> string list \<Rightarrow> string" where
  "select_check column values = ''CHECK ('' @ quote_ident column @ '' IN ('' @ join '', '' (map quote_literal values) @ ''))''"

section \<open>System columns\<close>

definition system_column :: "string \<Rightarrow> string \<Rightarrow> string \<Rightarrow> bool \<Rightarrow> desired_column" where
  "system_column source name ty required =
     \<lparr>dc_name = name, dc_type = ty, dc_required = required, dc_safe_default = False, dc_default = [], dc_definition = [],
      dc_source = source\<rparr>"

definition system_columns_for_entity :: "loaded_entity \<Rightarrow> desired_column list" where
  "system_columns_for_entity e =
     (let col = system_column (entity_source e) in
      [col ''id'' ''bigint'' True, col ''name'' ''text'' True, col ''created_at'' ''timestamptz'' True,
       col ''updated_at'' ''timestamptz'' True, col ''owner_id'' ''bigint'' False]
      @ (if le_is_collection e then
          [col ''parent_entity_id'' ''bigint'' True, col ''parent_record_id'' ''bigint'' True,
           col ''parent_field_id'' ''bigint'' True, col ''ordinal'' ''bigint'' True] else []))"

definition system_column_definition :: "desired_column \<Rightarrow> string" where
  "system_column_definition c =
     quote_ident (dc_name c) @
     (if dc_name c = ''id'' then '' bigint GENERATED ALWAYS AS IDENTITY PRIMARY KEY''
      else if dc_name c = ''name'' then '' text NOT NULL''
      else if dc_name c = ''created_at'' \<or> dc_name c = ''updated_at'' then '' timestamptz NOT NULL DEFAULT now()''
      else if dc_name c = ''owner_id'' then '' bigint''
      else if dc_name c \<in> set [''parent_entity_id'', ''parent_record_id'', ''parent_field_id'', ''ordinal'']
        then '' bigint NOT NULL''
      else '' '' @ dc_type c)"

definition newline :: string where
  "newline = [CHR 0x0A]"

definition tab_char :: string where
  "tab_char = [CHR 0x09]"

definition create_table_sql :: "string \<Rightarrow> desired_column list \<Rightarrow> string" where
  "create_table_sql table columns =
     ''CREATE TABLE '' @ quote_ident table @ '' ('' @ newline
     @ join ('','' @ newline) (map (\<lambda>c. tab_char @ tab_char @ system_column_definition c) columns) @ newline @ '')''"

section \<open>Constraints and indexes every table has\<close>

definition plain_constraint :: "string \<Rightarrow> string \<Rightarrow> string list \<Rightarrow> string \<Rightarrow> string \<Rightarrow> desired_constraint" where
  "plain_constraint name ty columns body source =
     \<lparr>dk_name = name, dk_type = ty, dk_columns = columns, dk_definition = body, dk_source = source,
      dk_unsafe_on_rows = False, dk_missing = ([], [], [])\<rparr>"

definition unique_sql :: "string list \<Rightarrow> string" where
  "unique_sql columns = ''UNIQUE ('' @ quote_ident_list columns @ '')''"

definition foreign_key_sql :: "string \<Rightarrow> string \<Rightarrow> string" where
  "foreign_key_sql column target = ''FOREIGN KEY ('' @ quote_ident column @ '') REFERENCES '' @ quote_ident target @ ''('' @ quote_ident ''id'' @ '')''"

definition single_entity_name_constraint :: "string \<Rightarrow> loaded_entity \<Rightarrow> desired_constraint" where
  "single_entity_name_constraint table e =
     (plain_constraint (constraint_name table ''single'' ''check'') ''check'' [''name'']
        (''CHECK ('' @ quote_ident ''name'' @ '' = '' @ quote_literal (single_record_name (en_name (le_entity e))) @ '')'') (entity_source e))
     \<lparr>dk_unsafe_on_rows := True, dk_missing := (''single-entity-conversion'', ''name'',
        ''table '' @ quote_ident table @ '' already has rows and cannot be converted to a single Entity without an explicit patch or reset'')\<rparr>"

definition parent_columns :: "string list" where
  "parent_columns = [''parent_entity_id'', ''parent_record_id'', ''parent_field_id'']"

definition collection_parent_ordinal_constraint_name :: "string \<Rightarrow> string" where
  "collection_parent_ordinal_constraint_name table = constraint_name table ''parent_ordinal'' ''key''"

definition collection_parent_lookup_index_name :: "string \<Rightarrow> string" where
  "collection_parent_lookup_index_name table = constraint_name table ''parent_lookup'' ''idx''"

definition collection_ownership_constraints :: "string \<Rightarrow> loaded_entity \<Rightarrow> desired_constraint list" where
  "collection_ownership_constraints table e =
     [plain_constraint (constraint_name table ''parent_entity_id'' ''fkey'') ''foreign-key'' [''parent_entity_id'']
        (foreign_key_sql ''parent_entity_id'' ''entity'') (entity_source e),
      plain_constraint (constraint_name table ''parent_field_id'' ''fkey'') ''foreign-key'' [''parent_field_id'']
        (foreign_key_sql ''parent_field_id'' ''field'') (entity_source e),
      plain_constraint (collection_parent_ordinal_constraint_name table) ''unique'' (parent_columns @ [''ordinal''])
        (unique_sql (parent_columns @ [''ordinal'']) @ '' DEFERRABLE INITIALLY DEFERRED'') (entity_source e)]"

definition base_table :: "string \<Rightarrow> loaded_entity \<Rightarrow> desired_table" where
  "base_table table e =
     \<lparr>dt_name = table, dt_source = entity_source e,
      dt_create_sql = create_table_sql table (system_columns_for_entity e),
      dt_system_columns = system_columns_for_entity e, dt_columns = [],
      dt_indexes = (if le_is_collection e
        then [\<lparr>di_name = collection_parent_lookup_index_name table,
               di_columns = parent_columns, di_source = entity_source e\<rparr>] else []),
      dt_constraints = [plain_constraint (constraint_name table ''name'' ''key'') ''unique'' [''name''] (unique_sql [''name'']) (entity_source e)]
        @ (if en_is_single (le_entity e) then [single_entity_name_constraint table e] else [])
        @ (if le_is_collection e then collection_ownership_constraints table e else [])\<rparr>"

section \<open>Fields\<close>

definition column_type :: "target_index \<Rightarrow> loaded_entity \<Rightarrow> field \<Rightarrow> schema_cause + string" where
  "column_type ix e f =
     (case default_definition (fd_type f) of None \<Rightarrow> Inl (StorageFault (UnsupportedType (fd_type f)))
      | Some d \<Rightarrow>
          if \<not> bh_stored (ft_behavior d) then Inl (StorageFault (NoColumnStorage (fd_type f)))
          else bindR (if fd_type f = ''link''
              then wrapR TargetFault (resolve_target ix e (fo_app (fd_options f)) (fo_entity (fd_options f))) else Inr e) (\<lambda>_.
            if blank (bh_sql_type (ft_behavior d)) then Inl (SqlTypeMissing (fd_type f)) else Inr (bh_sql_type (ft_behavior d))))"

definition link_foreign_key_enabled :: "field \<Rightarrow> bool" where
  "link_foreign_key_enabled f = (case fo_foreign_key (fd_options f) of None \<Rightarrow> True | Some b \<Rightarrow> b)"

definition unsupported_text :: "storage_error \<Rightarrow> string" where
  "unsupported_text e =
     (case e of UnsupportedType t \<Rightarrow> ''unsupported field type '' @ quote_ident t
      | NoColumnStorage t \<Rightarrow> ''field type '' @ quote_ident t @ '' does not have direct column storage''
      | EntityNameRequired \<Rightarrow> ''name is required'')"

definition unsupported_constraint :: "loaded_entity \<Rightarrow> field \<Rightarrow> storage_error \<Rightarrow> desired_constraint" where
  "unsupported_constraint e f err =
     plain_constraint (''unsupported:'' @ fd_name f) ''unsupported'' [fd_name f] (unsupported_text err) (field_source e f)"

text \<open>The column of a field; a NULL default is not a default.\<close>

definition field_column :: "loaded_entity \<Rightarrow> field \<Rightarrow> string \<Rightarrow> string \<Rightarrow> string option \<Rightarrow> desired_column" where
  "field_column e f column ty value =
     (let required = (fd_required f \<and> fd_type f \<noteq> ''secret'');
          safe = (value \<noteq> None \<and> value \<noteq> Some ''NULL'');
          default_sql = (if safe then the value else [])
      in \<lparr>dc_name = column, dc_type = ty, dc_required = required,
          dc_safe_default = (fd_type f = ''secret'' \<or> \<not> fd_required f \<or> safe), dc_default = default_sql,
          dc_definition = quote_ident column @ '' '' @ ty @ (if safe then '' DEFAULT '' @ default_sql else [])
            @ (if required then '' NOT NULL'' else []),
          dc_source = field_source e f\<rparr>)"

definition link_constraint :: "target_index \<Rightarrow> string \<Rightarrow> loaded_entity \<Rightarrow> field \<Rightarrow> string \<Rightarrow> schema_cause + desired_constraint list" where
  "link_constraint ix table e f column =
     (if fd_type f \<noteq> ''link'' \<or> \<not> link_foreign_key_enabled f then Inr []
      else bindR (wrapR TargetFault (resolve_target ix e (fo_app (fd_options f)) (fo_entity (fd_options f)))) (\<lambda>target.
        bindR (wrapR StorageFault (table_name target)) (\<lambda>tt.
          Inr [plain_constraint (constraint_name table column ''fkey'') ''foreign-key'' [column] (foreign_key_sql column tt) (field_source e f)])))"

definition field_check_constraint :: "string \<Rightarrow> loaded_entity \<Rightarrow> field \<Rightarrow> string \<Rightarrow> schema_cause + desired_constraint list" where
  "field_check_constraint table e f column =
     (case fd_check f of None \<Rightarrow> Inr []
      | Some c \<Rightarrow> bindR (structured_check_value column (ck_operator c) (ck_value c)) (\<lambda>body.
          Inr [plain_constraint (constraint_name table column (storage_name (ck_operator c) @ ''_check'')) ''check'' [column] body (field_source e f)]))"

text \<open>One stored field: its column, then its unique constraint, index, foreign key, select check and check.\<close>

definition add_stored_field :: "target_index \<Rightarrow> loaded_entity \<Rightarrow> field \<Rightarrow> string \<Rightarrow> desired_table \<Rightarrow> schema_cause + desired_table" where
  "add_stored_field ix e f column t =
     (let table = dt_name t in
      bindR (column_type ix e f) (\<lambda>ty.
      bindR (default_clause (fd_default f)) (\<lambda>value.
      bindR (link_constraint ix table e f column) (\<lambda>links.
      bindR (field_check_constraint table e f column) (\<lambda>checks.
        Inr (t\<lparr>dt_columns := dt_columns t @ [field_column e f column ty value],
          dt_indexes := dt_indexes t @ (if fd_index f
            then [\<lparr>di_name = constraint_name table column ''idx'', di_columns = [column], di_source = field_source e f\<rparr>] else []),
          dt_constraints := dt_constraints t
            @ (if fd_unique f then [plain_constraint (constraint_name table column ''key'') ''unique'' [column] (unique_sql [column]) (field_source e f)] else [])
            @ links
            @ (if fd_type f = ''select'' \<and> fo_values (fd_options f) \<noteq> []
               then [plain_constraint (constraint_name table column ''check'') ''check'' [column] (select_check column (fo_values (fd_options f))) (field_source e f)]
               else [])
            @ checks\<rparr>))))))"

type_synonym field_columns = "(string \<times> string) list"

definition add_field :: "target_index \<Rightarrow> loaded_entity \<Rightarrow> desired_table \<times> field_columns \<Rightarrow> field \<Rightarrow> schema_error + desired_table \<times> field_columns" where
  "add_field ix e st f =
     (let (t, cols) = st in
      if fd_type f = ''collection'' then Inr st
      else if fd_name f = ''name'' then Inr (t, (fd_name f, ''name'') # cols)
      else case column_for_field f of
        Inl err \<Rightarrow> Inr (t\<lparr>dt_constraints := dt_constraints t @ [unsupported_constraint e f err]\<rparr>, cols)
      | Inr column \<Rightarrow>
          wrapR (field_fault e f) (bindR (add_stored_field ix e f column t) (\<lambda>t'. Inr (t', (fd_name f, column) # cols))))"

section \<open>Indexes and constraints of the Entity\<close>

definition columns_for_metadata_fields :: "string list \<Rightarrow> field_columns \<Rightarrow> schema_cause + string list" where
  "columns_for_metadata_fields fs cols =
     mapR (\<lambda>f. case map_of cols f of None \<Rightarrow> Inl (FieldNotStored f) | Some c \<Rightarrow> Inr c) fs"

definition add_index :: "loaded_entity \<Rightarrow> field_columns \<Rightarrow> desired_table \<Rightarrow> index \<Rightarrow> schema_cause + desired_table" where
  "add_index e cols t i =
     bindR (columns_for_metadata_fields (ix_fields i) cols) (\<lambda>columns.
       Inr (t\<lparr>dt_indexes := dt_indexes t @ [\<lparr>di_name = storage_name (index_effective_name (le_entity e) i),
         di_columns = columns, di_source = index_source e i\<rparr>]\<rparr>))"

definition constraint_of :: "loaded_entity \<Rightarrow> field_columns \<Rightarrow> constraint \<Rightarrow> schema_cause + desired_constraint list" where
  "constraint_of e cols c =
     (let make = (\<lambda>ty columns body. [plain_constraint (storage_name (constraint_effective_name (le_entity e) c)) ty columns body (constraint_source e c)])
      in if cn_type c = ''unique'' then
           bindR (columns_for_metadata_fields (cn_fields c) cols) (\<lambda>columns. Inr (make ''unique'' columns (unique_sql columns)))
         else if cn_type c = ''check'' then
           (case map_of cols (cn_field c) of None \<Rightarrow> Inl (CheckFieldNotStored (cn_field c))
            | Some column \<Rightarrow> bindR (structured_check column c) (\<lambda>body. Inr (make ''check'' [column] body)))
         else if cn_type c = ''exactly-one'' then
           bindR (columns_for_metadata_fields (cn_fields c) cols) (\<lambda>columns.
             Inr (make ''check'' columns (''CHECK (num_nonnulls('' @ quote_ident_list columns @ '') = 1)'')))
         else Inr [])"

definition add_constraint :: "loaded_entity \<Rightarrow> field_columns \<Rightarrow> desired_table \<Rightarrow> constraint \<Rightarrow> schema_cause + desired_table" where
  "add_constraint e cols t c = bindR (constraint_of e cols c) (\<lambda>ks. Inr (t\<lparr>dt_constraints := dt_constraints t @ ks\<rparr>))"

fun duplicate_name :: "(string \<Rightarrow> string \<Rightarrow> schema_cause) \<Rightarrow> (string \<times> string) list \<Rightarrow> (string \<times> string) list \<Rightarrow> schema_cause option" where
  "duplicate_name fault seen [] = None"
| "duplicate_name fault seen ((n, source) # ns) =
     (case map_of seen n of Some previous \<Rightarrow> Some (fault n previous) | None \<Rightarrow> duplicate_name fault ((n, source) # seen) ns)"

definition validate_desired_object_names :: "desired_table \<Rightarrow> schema_cause + unit" where
  "validate_desired_object_names t =
     (case duplicate_name DuplicateIndexName [] (map (\<lambda>i. (di_name i, di_source i)) (dt_indexes t)) of Some c \<Rightarrow> Inl c
      | None \<Rightarrow> (case duplicate_name DuplicateConstraintName [] (map (\<lambda>k. (dk_name k, dk_source k)) (dt_constraints t)) of
            Some c \<Rightarrow> Inl c | None \<Rightarrow> Inr ()))"

section \<open>The whole schema\<close>

definition build_table :: "target_index \<Rightarrow> loaded_entity \<Rightarrow> string \<Rightarrow> schema_error + desired_table" where
  "build_table ix e table =
     bindR (foldR (add_field ix e) (base_table table e, []) (en_fields (le_entity e))) (\<lambda>(t, cols).
     bindR (wrapR (entity_fault e) (foldR (add_index e cols) t (en_indexes (le_entity e)))) (\<lambda>t.
     bindR (wrapR (entity_fault e) (foldR (add_constraint e cols) t (en_constraints (le_entity e)))) (\<lambda>t.
     bindR (wrapR (entity_fault e) (validate_desired_object_names t)) (\<lambda>_. Inr t))))"

fun build_tables :: "target_index \<Rightarrow> (string \<times> loaded_entity) list \<Rightarrow> loaded_entity list \<Rightarrow> schema_error + desired_table list" where
  "build_tables ix seen [] = Inr []"
| "build_tables ix seen (e # es) =
     bindR (wrapR (entity_fault e \<circ> StorageFault) (table_name e)) (\<lambda>table.
       case map_of seen table of
         Some p \<Rightarrow> Inl (entity_fault e (DuplicateTable table (le_app p) (en_name (le_entity p)) (le_path p)))
       | None \<Rightarrow> bindR (build_table ix e table) (\<lambda>t. bindR (build_tables ix ((table, e) # seen) es) (\<lambda>ts. Inr (t # ts))))"

definition build_desired_schema :: "loaded_entity list \<Rightarrow> schema_error + desired_table list" where
  "build_desired_schema es = build_tables (new_target_index es) [] (sort_entities es)"

section \<open>What the built schema guarantees\<close>

lemma duplicate_name_None:
  assumes "duplicate_name fault seen ns = None"
  shows "distinct (map fst ns) \<and> set (map fst ns) \<inter> set (map fst seen) = {}"
  using assms
proof (induction ns arbitrary: seen)
  case (Cons p ns)
  obtain n s where p: "p = (n, s)" by (cases p)
  then have "n \<notin> fst ` set seen" "duplicate_name fault ((n, s) # seen) ns = None"
    using Cons.prems by (auto simp: map_of_eq_None_iff split: option.splits)
  with Cons.IH [OF this(2)] p show ?case by auto
qed simp

lemma foldR_add_index:
  assumes "foldR (add_index e cols) t is' = Inr t'"
  shows "dt_name t' = dt_name t \<and> dt_columns t' = dt_columns t \<and> dt_system_columns t' = dt_system_columns t \<and> dt_constraints t' = dt_constraints t"
  by (rule foldR_keeps [OF assms]) (auto simp: add_index_def bindR_Inr_iff)

lemma foldR_add_constraint:
  assumes "foldR (add_constraint e cols) t cs = Inr t'"
  shows "dt_name t' = dt_name t \<and> dt_columns t' = dt_columns t \<and> dt_system_columns t' = dt_system_columns t \<and> dt_indexes t' = dt_indexes t"
  by (rule foldR_keeps [OF assms]) (auto simp: add_constraint_def bindR_Inr_iff)

lemma foldR_add_field:
  assumes "foldR (add_field ix e) (t, cols) fs = Inr (t', cols')"
  shows "dt_name t' = dt_name t \<and> dt_system_columns t' = dt_system_columns t"
proof -
  have "dt_name (fst (t', cols')) = dt_name t \<and> dt_system_columns (fst (t', cols')) = dt_system_columns t"
    by (rule foldR_keeps [OF assms])
      (auto simp: add_field_def add_stored_field_def bindR_Inr_iff Let_def split: if_splits sum.splits)
  then show ?thesis by simp
qed

lemma build_table_sound:
  assumes "build_table ix e table = Inr t"
  shows "dt_name t = table \<and> dt_system_columns t = system_columns_for_entity e
    \<and> distinct (map di_name (dt_indexes t)) \<and> distinct (map dk_name (dt_constraints t))"
proof -
  obtain t1 cols t2 where s: "foldR (add_field ix e) (base_table table e, []) (en_fields (le_entity e)) = Inr (t1, cols)"
    "foldR (add_index e cols) t1 (en_indexes (le_entity e)) = Inr t2"
    "foldR (add_constraint e cols) t2 (en_constraints (le_entity e)) = Inr t"
    "validate_desired_object_names t = Inr ()"
    using assms by (auto simp: build_table_def bindR_Inr_iff)
  have none: "duplicate_name DuplicateIndexName [] (map (\<lambda>i. (di_name i, di_source i)) (dt_indexes t)) = None"
    "duplicate_name DuplicateConstraintName [] (map (\<lambda>k. (dk_name k, dk_source k)) (dt_constraints t)) = None"
    using s(4) by (auto simp: validate_desired_object_names_def split: option.splits)
  have "distinct (map di_name (dt_indexes t))" "distinct (map dk_name (dt_constraints t))"
    using duplicate_name_None [OF none(1)] duplicate_name_None [OF none(2)] by (simp_all add: comp_def)
  with foldR_add_field [OF s(1)] foldR_add_index [OF s(2)] foldR_add_constraint [OF s(3)] show ?thesis
    by (simp add: base_table_def)
qed

lemma build_tables_sound:
  assumes "build_tables ix seen es = Inr ts"
  shows "distinct (map dt_name ts) \<and> set (map dt_name ts) \<inter> fst ` set seen = {}
    \<and> (\<forall>t\<in>set ts. distinct (map di_name (dt_indexes t)) \<and> distinct (map dk_name (dt_constraints t)))
    \<and> list_all2 (\<lambda>e t. table_name e = Inr (dt_name t) \<and> dt_system_columns t = system_columns_for_entity e) es ts"
  using assms
proof (induction es arbitrary: seen ts)
  case (Cons e es)
  obtain table t ts' where s: "table_name e = Inr table" "map_of seen table = None" "build_table ix e table = Inr t"
    "build_tables ix ((table, e) # seen) es = Inr ts'" "ts = t # ts'"
    using Cons.prems by (auto simp: bindR_Inr_iff split: option.splits)
  from Cons.IH [OF s(4)] build_table_sound [OF s(3)] s show ?case by (auto simp: map_of_eq_None_iff)
qed simp

end
