(* ===== verification/Schema_Diff.thy ===== *)
theory Schema_Diff
  imports Schema_Desired
begin

text \<open>
  The schema plan (\<^verbatim>\<open>BuildMetadataSchemaPlan\<close> in \<^verbatim>\<open>internal/db/schema_plan.go\<close> and
  the prune plan of \<^verbatim>\<open>schema_prune.go\<close>): the desired schema compared with an inspected live
  schema.  Missing objects become operations, differences become diagnostics that block the sync.
\<close>

section \<open>The live schema\<close>

record live_column =
  lc_type :: string
  lc_nullable :: bool
  lc_has_default :: bool
  lc_default :: string

record live_table =
  lt_row_state_known :: bool
  lt_has_rows :: bool
  lt_columns :: "(string \<times> live_column) list"
  lt_indexes :: "(string \<times> string) list"
  lt_constraints :: "(string \<times> string \<times> string) list"

type_synonym live_schema = "(string \<times> live_table) list"

definition normalize_sql_type :: "string \<Rightarrow> string" where
  "normalize_sql_type v =
     (let v = to_lower (trim_space v)
      in if v = ''timestamp with time zone'' then ''timestamptz'' else if v = ''time without time zone'' then ''time'' else v)"

definition normalize_constraint_type :: "string \<Rightarrow> string" where
  "normalize_constraint_type v =
     (if v = ''p'' then ''primary-key'' else if v = ''u'' then ''unique'' else if v = ''c'' then ''check''
      else if v = ''f'' then ''foreign-key'' else if v = ''n'' then ''not-null'' else v)"

definition sorted_names :: "(string \<times> 'a) list \<Rightarrow> string list" where
  "sorted_names m = sort (dedup (map fst m))"

section \<open>Comparing definitions\<close>

definition normalize_definition :: "string \<Rightarrow> string" where
  "normalize_definition v =
     join '' '' (fields_of (replace_all ''public.'' [] (replace_all '' using btree'' [] (replace_all [CHR 0x22] [] (to_lower v)))))"

definition compact_definition :: "string \<Rightarrow> string" where
  "compact_definition v =
     foldl (\<lambda>s r. replace_all r [] s) v
       [''::time without time zone'', ''::timestamp with time zone'', ''::text'', ''::numeric'', ''::boolean'', ''::date'',
        '' '', ''('', '')'']"

definition index_definition_matches :: "string \<Rightarrow> string \<Rightarrow> desired_index \<Rightarrow> bool" where
  "index_definition_matches live table i \<longleftrightarrow> blank live \<or>
     (let d = normalize_definition live in
      \<not> contains_sub d ''create unique index''
      \<and> (contains_sub d ('' on '' @ table @ '' '') \<or> contains_sub d ('' on public.'' @ table @ '' ''))
      \<and> contains_sub d (''('' @ join '', '' (di_columns i) @ '')''))"

definition set_check_definition_matches :: "string \<Rightarrow> string \<Rightarrow> bool" where
  "set_check_definition_matches live expected =
     (let negative = contains_sub expected '' not in '' in
      case find_sub (if negative then '' not in '' else '' in '') expected of None \<Rightarrow> False
      | Some (a, b) \<Rightarrow>
          let column = trim_chars '' ()'' a; values = trim_chars '' ()'' b in
          if column = [] \<or> values = [] \<or> \<not> contains_sub live column then False
          else if negative \<and> \<not> (contains_sub live ''not'' \<or> contains_sub live ''<> all'') then False
          else list_all (\<lambda>v. let v = trim_chars [CHR 0x27] (trim_space v) in v = [] \<or> contains_sub live v)
            (split_on (CHR '','') values))"

definition check_definition_matches :: "string \<Rightarrow> string \<Rightarrow> bool" where
  "check_definition_matches live0 expected0 =
     (let live = trim_prefix live0 ''check ''; expected = trim_prefix expected0 ''check ''
      in compact_definition live = compact_definition expected \<or> set_check_definition_matches live expected)"

definition constraint_definition_matches :: "string \<Rightarrow> desired_constraint \<Rightarrow> bool" where
  "constraint_definition_matches live k \<longleftrightarrow> blank live \<or>
     (let d = normalize_definition live; expected = normalize_definition (dk_definition k)
      in d = expected \<or>
        (if dk_type k = ''unique'' then
           (let columns = contains_sub d (''unique ('' @ join '', '' (dk_columns k) @ '')'')
            in if contains_sub expected ''deferrable initially deferred''
               then columns \<and> contains_sub d ''deferrable initially deferred'' else columns)
         else if dk_type k = ''foreign-key'' then contains_sub d (''foreign key ('' @ join '', '' (dk_columns k) @ '')'')
         else if dk_type k = ''check'' then check_definition_matches d expected
         else False))"

definition column_default_matches :: "desired_column \<Rightarrow> live_column \<Rightarrow> bool" where
  "column_default_matches c l =
     (if dc_default c = [] then \<not> lc_has_default l
      else lc_has_default l \<and>
        compact_definition (normalize_definition (lc_default l)) = compact_definition (normalize_definition (dc_default c)))"

section \<open>Operations and diagnostics\<close>

record schema_operation =
  so_kind :: string
  so_table :: string
  so_column :: string
  so_name :: string
  so_description :: string
  so_source :: string
  so_sql :: string

record schema_diagnostic =
  sd_class :: string
  sd_kind :: string
  sd_table :: string
  sd_column :: string
  sd_name :: string
  sd_message :: string
  sd_source :: string

record schema_plan =
  sp_entities :: nat
  sp_fields :: nat
  sp_operations :: "schema_operation list"
  sp_diagnostics :: "schema_diagnostic list"

definition has_blockers :: "schema_plan \<Rightarrow> bool" where
  "has_blockers p \<longleftrightarrow> sp_diagnostics p \<noteq> []"

definition operation :: "string \<Rightarrow> string \<Rightarrow> string \<Rightarrow> string \<Rightarrow> string \<Rightarrow> string \<Rightarrow> string \<Rightarrow> schema_operation" where
  "operation kind table column name description source sql =
     \<lparr>so_kind = kind, so_table = table, so_column = column, so_name = name, so_description = description,
      so_source = source, so_sql = sql\<rparr>"

definition unsafe_diagnostic :: "string \<Rightarrow> string \<Rightarrow> string \<Rightarrow> string \<Rightarrow> string \<Rightarrow> string \<Rightarrow> schema_diagnostic" where
  "unsafe_diagnostic kind table column name msg source =
     \<lparr>sd_class = ''unsafe'', sd_kind = kind, sd_table = table, sd_column = column, sd_name = name, sd_message = msg, sd_source = source\<rparr>"

definition unsupported_diagnostic :: "string \<Rightarrow> string \<Rightarrow> string \<Rightarrow> string \<Rightarrow> string \<Rightarrow> string \<Rightarrow> schema_diagnostic" where
  "unsupported_diagnostic kind table column name msg source =
     \<lparr>sd_class = ''unsupported'', sd_kind = kind, sd_table = table, sd_column = column, sd_name = name, sd_message = msg, sd_source = source\<rparr>"

definition diagnostic_text :: "schema_diagnostic \<Rightarrow> string" where
  "diagnostic_text d =
     (let t0 = sd_table d @ (if sd_column d \<noteq> [] then ''.'' @ sd_column d else []);
          t1 = (if t0 = [] \<and> sd_name d \<noteq> [] then sd_name d else t0);
          t = (if t1 = [] then ''schema'' else t1)
      in sd_class d @ '': '' @ t @ '': '' @ sd_message d @ (if sd_source d \<noteq> [] then '' ('' @ sd_source d @ '')'' else []))"

definition blocker_error :: "schema_plan \<Rightarrow> string option" where
  "blocker_error p =
     (if \<not> has_blockers p then None
      else Some (''schema plan has '' @ show_nat (length (sp_diagnostics p)) @ '' blocker''
        @ (if length (sp_diagnostics p) \<noteq> 1 then ''s'' else [])
        @ concat (map (\<lambda>d. newline @ diagnostic_text d) (sp_diagnostics p)) @ newline
        @ ''resolve blockers with metadata changes or explicit app patches; see docs/patches.md''))"

definition column_target :: "string \<Rightarrow> string list \<Rightarrow> string" where
  "column_target table columns =
     (case columns of [c] \<Rightarrow> table @ ''.'' @ c | _ \<Rightarrow> table @ ''('' @ join '', '' columns @ '')'')"

section \<open>One table\<close>

definition create_operation :: "desired_table \<Rightarrow> schema_operation" where
  "create_operation t = operation ''create-table'' (dt_name t) [] [] (''create table '' @ dt_name t) (dt_source t) (dt_create_sql t)"

definition add_column_operation :: "desired_table \<Rightarrow> desired_column \<Rightarrow> string \<Rightarrow> schema_operation" where
  "add_column_operation t c body =
     operation ''add-column'' (dt_name t) (dc_name c) [] (''add column '' @ dt_name t @ ''.'' @ dc_name c) (dc_source c)
       (''ALTER TABLE '' @ quote_ident (dt_name t) @ '' ADD COLUMN '' @ body)"

definition compare_column :: "string \<Rightarrow> desired_column \<Rightarrow> live_column \<Rightarrow> schema_diagnostic list" where
  "compare_column table c l =
     (if normalize_sql_type (lc_type l) \<noteq> normalize_sql_type (dc_type c)
      then [unsafe_diagnostic ''column-type-drift'' table (dc_name c) []
              (''column type is '' @ lc_type l @ '' in database but metadata expects '' @ dc_type c) (dc_source c)] else [])
     @ (if dc_required c \<and> lc_nullable l
        then [unsafe_diagnostic ''column-required-drift'' table (dc_name c) [] ''column is nullable in database but required in metadata'' (dc_source c)] else [])
     @ (if \<not> dc_required c \<and> \<not> lc_nullable l
        then [unsafe_diagnostic ''column-required-drift'' table (dc_name c) [] ''column is NOT NULL in database but not required in metadata'' (dc_source c)] else [])"

definition compare_column_default :: "string \<Rightarrow> desired_column \<Rightarrow> live_column \<Rightarrow> schema_operation list" where
  "compare_column_default table c l =
     (if column_default_matches c l then []
      else if dc_default c = [] then
        [operation ''alter-column-default'' table (dc_name c) [] (''drop default '' @ table @ ''.'' @ dc_name c) (dc_source c)
          (''ALTER TABLE '' @ quote_ident table @ '' ALTER COLUMN '' @ quote_ident (dc_name c) @ '' DROP DEFAULT'')]
      else
        [operation ''alter-column-default'' table (dc_name c) [] (''set default '' @ table @ ''.'' @ dc_name c) (dc_source c)
          (''ALTER TABLE '' @ quote_ident table @ '' ALTER COLUMN '' @ quote_ident (dc_name c) @ '' SET DEFAULT '' @ dc_default c)])"

definition can_add_required_column :: "live_table \<Rightarrow> bool" where
  "can_add_required_column l \<longleftrightarrow> lt_row_state_known l \<and> \<not> lt_has_rows l"

text \<open>System columns: a missing owner column is added, any other missing one is a blocker.\<close>

definition system_column_ops :: "desired_table \<Rightarrow> live_table option \<Rightarrow> schema_operation list" where
  "system_column_ops t lo =
     (case lo of None \<Rightarrow> []
      | Some l \<Rightarrow> map (\<lambda>c. add_column_operation t c (system_column_definition c))
          (filter (\<lambda>c. map_of (lt_columns l) (dc_name c) = None \<and> dc_name c = ''owner_id'') (dt_system_columns t)))"

definition system_column_diags :: "desired_table \<Rightarrow> live_table option \<Rightarrow> schema_diagnostic list" where
  "system_column_diags t lo =
     (case lo of None \<Rightarrow> []
      | Some l \<Rightarrow> concat (map (\<lambda>c. case map_of (lt_columns l) (dc_name c) of
            None \<Rightarrow> if dc_name c = ''owner_id'' then []
              else [unsupported_diagnostic ''missing-system-column'' (dt_name t) (dc_name c) [] ''system column is missing from existing table'' (dt_source t)]
          | Some lc \<Rightarrow> compare_column (dt_name t) c lc) (dt_system_columns t)))"

definition live_column_of :: "live_table option \<Rightarrow> string \<Rightarrow> live_column option" where
  "live_column_of lo name = (case lo of None \<Rightarrow> None | Some l \<Rightarrow> map_of (lt_columns l) name)"

definition column_blocked :: "live_table option \<Rightarrow> desired_column \<Rightarrow> bool" where
  "column_blocked lo c \<longleftrightarrow> live_column_of lo (dc_name c) = None \<and>
     (case lo of None \<Rightarrow> False | Some l \<Rightarrow> dc_required c \<and> \<not> dc_safe_default c \<and> \<not> can_add_required_column l)"

definition column_ops :: "desired_table \<Rightarrow> live_table option \<Rightarrow> schema_operation list" where
  "column_ops t lo = map (\<lambda>c. add_column_operation t c (dc_definition c))
     (filter (\<lambda>c. live_column_of lo (dc_name c) = None \<and> \<not> column_blocked lo c) (dt_columns t))"

definition column_diags :: "desired_table \<Rightarrow> live_table option \<Rightarrow> schema_diagnostic list" where
  "column_diags t lo = concat (map (\<lambda>c. case live_column_of lo (dc_name c) of
       Some lc \<Rightarrow> compare_column (dt_name t) c lc
     | None \<Rightarrow> if column_blocked lo c
         then [unsafe_diagnostic ''missing-required-column'' (dt_name t) (dc_name c) [] ''required column is missing and has no safe default'' (dc_source c)]
         else []) (dt_columns t))"

definition default_ops :: "desired_table \<Rightarrow> live_table option \<Rightarrow> schema_operation list" where
  "default_ops t lo = concat (map (\<lambda>c. case live_column_of lo (dc_name c) of
       Some lc \<Rightarrow> compare_column_default (dt_name t) c lc | None \<Rightarrow> []) (dt_columns t))"

definition available_columns :: "desired_table \<Rightarrow> live_table option \<Rightarrow> string list" where
  "available_columns t lo =
     map dc_name (filter (\<lambda>c. lo = None \<or> live_column_of lo (dc_name c) \<noteq> None \<or> dc_name c = ''owner_id'') (dt_system_columns t))
     @ map dc_name (filter (\<lambda>c. \<not> column_blocked lo c) (dt_columns t))"

definition columns_available :: "string list \<Rightarrow> string list \<Rightarrow> bool" where
  "columns_available columns available = list_all (\<lambda>c. c \<in> set available) columns"

definition live_index_of :: "live_table option \<Rightarrow> string \<Rightarrow> string option" where
  "live_index_of lo name = (case lo of None \<Rightarrow> None | Some l \<Rightarrow> map_of (lt_indexes l) name)"

definition planned_indexes :: "desired_table \<Rightarrow> live_table option \<Rightarrow> desired_index list" where
  "planned_indexes t lo = filter (\<lambda>i. columns_available (di_columns i) (available_columns t lo)) (dt_indexes t)"

definition index_ops :: "desired_table \<Rightarrow> live_table option \<Rightarrow> schema_operation list" where
  "index_ops t lo = map (\<lambda>i. operation ''create-index'' (dt_name t) (join '','' (di_columns i)) (di_name i)
        (''create index '' @ di_name i @ '' on '' @ column_target (dt_name t) (di_columns i)) (di_source i)
        (''CREATE INDEX '' @ quote_ident (di_name i) @ '' ON '' @ quote_ident (dt_name t) @ '' ('' @ quote_ident_list (di_columns i) @ '')''))
     (filter (\<lambda>i. live_index_of lo (di_name i) = None) (planned_indexes t lo))"

definition index_diags :: "desired_table \<Rightarrow> live_table option \<Rightarrow> schema_diagnostic list" where
  "index_diags t lo = concat (map (\<lambda>i. case live_index_of lo (di_name i) of
       Some d \<Rightarrow> if index_definition_matches d (dt_name t) i then []
         else [unsafe_diagnostic ''index-definition-drift'' (dt_name t) (join '','' (di_columns i)) (di_name i)
           (''index '' @ quote_ident (di_name i) @ '' exists in database but differs from metadata'') (di_source i)]
     | None \<Rightarrow> []) (planned_indexes t lo))"

definition live_constraint_of :: "live_table option \<Rightarrow> string \<Rightarrow> (string \<times> string) option" where
  "live_constraint_of lo name = (case lo of None \<Rightarrow> None | Some l \<Rightarrow> map_of (lt_constraints l) name)"

definition is_unsupported :: "desired_constraint \<Rightarrow> bool" where
  "is_unsupported k \<longleftrightarrow> has_prefix (dk_name k) ''unsupported:''"

definition planned_constraints :: "desired_table \<Rightarrow> live_table option \<Rightarrow> desired_constraint list" where
  "planned_constraints t lo =
     filter (\<lambda>k. \<not> is_unsupported k \<and> columns_available (dk_columns k) (available_columns t lo)) (dt_constraints t)"

definition constraint_blocked :: "live_table option \<Rightarrow> desired_constraint \<Rightarrow> bool" where
  "constraint_blocked lo k \<longleftrightarrow>
     (case lo of None \<Rightarrow> False | Some l \<Rightarrow> dk_unsafe_on_rows k \<and> lt_row_state_known l \<and> lt_has_rows l)"

definition constraint_ops :: "desired_table \<Rightarrow> live_table option \<Rightarrow> schema_operation list" where
  "constraint_ops t lo = map (\<lambda>k. operation ''add-constraint'' (dt_name t) (join '','' (dk_columns k)) (dk_name k)
        (''add '' @ dk_type k @ '' constraint '' @ dk_name k @ '' on '' @ column_target (dt_name t) (dk_columns k)) (dk_source k)
        (''ALTER TABLE '' @ quote_ident (dt_name t) @ '' ADD CONSTRAINT '' @ quote_ident (dk_name k) @ '' '' @ dk_definition k))
     (filter (\<lambda>k. live_constraint_of lo (dk_name k) = None \<and> \<not> constraint_blocked lo k) (planned_constraints t lo))"

definition constraint_diags_of :: "desired_table \<Rightarrow> live_table option \<Rightarrow> desired_constraint \<Rightarrow> schema_diagnostic list" where
  "constraint_diags_of t lo k =
     (if is_unsupported k
      then [unsupported_diagnostic ''unsupported-field-storage'' (dt_name t) (join '','' (dk_columns k)) [] (dk_definition k) (dk_source k)]
      else if \<not> columns_available (dk_columns k) (available_columns t lo) then []
      else case live_constraint_of lo (dk_name k) of
        Some (ty, d) \<Rightarrow>
          if ty \<noteq> dk_type k
          then [unsafe_diagnostic ''constraint-type-drift'' (dt_name t) (join '','' (dk_columns k)) (dk_name k)
            (''constraint '' @ quote_ident (dk_name k) @ '' is '' @ ty @ '' in database but metadata expects '' @ dk_type k) (dk_source k)]
          else if \<not> constraint_definition_matches d k
          then [unsafe_diagnostic ''constraint-definition-drift'' (dt_name t) (join '','' (dk_columns k)) (dk_name k)
            (''constraint '' @ quote_ident (dk_name k) @ '' exists in database but differs from metadata'') (dk_source k)]
          else []
      | None \<Rightarrow> if constraint_blocked lo k
          then (case dk_missing k of (kind, column, msg) \<Rightarrow> [unsafe_diagnostic kind (dt_name t) column (dk_name k) msg (dk_source k)])
          else [])"

definition constraint_diags :: "desired_table \<Rightarrow> live_table option \<Rightarrow> schema_diagnostic list" where
  "constraint_diags t lo = concat (map (constraint_diags_of t lo) (dt_constraints t))"

section \<open>What the database has beyond the metadata\<close>

definition extra_columns :: "desired_table \<Rightarrow> live_table \<Rightarrow> string list" where
  "extra_columns t l = filter (\<lambda>n. n \<notin> set (map dc_name (dt_system_columns t @ dt_columns t))) (sorted_names (lt_columns l))"

definition extra_constraints :: "desired_table \<Rightarrow> live_table \<Rightarrow> string list" where
  "extra_constraints t l =
     filter (\<lambda>n. n \<notin> set (map dk_name (dt_constraints t)) \<and>
       (case map_of (lt_constraints l) n of None \<Rightarrow> True | Some (ty, _) \<Rightarrow> ty \<noteq> ''primary-key'' \<and> ty \<noteq> ''not-null''))
       (sorted_names (lt_constraints l))"

definition live_index_backs_constraint :: "string \<Rightarrow> live_table \<Rightarrow> bool" where
  "live_index_backs_constraint n l \<longleftrightarrow> map_of (lt_constraints l) n \<noteq> None"

definition extra_indexes :: "desired_table \<Rightarrow> live_table \<Rightarrow> string list" where
  "extra_indexes t l = filter (\<lambda>n. n \<notin> set (map di_name (dt_indexes t)) \<and> \<not> live_index_backs_constraint n l) (sorted_names (lt_indexes l))"

definition extra_tables :: "desired_table list \<Rightarrow> live_schema \<Rightarrow> string list" where
  "extra_tables ts live = filter (\<lambda>n. n \<notin> set (map dt_name ts)) (sorted_names live)"

definition extra_column_diags :: "desired_table \<Rightarrow> live_table option \<Rightarrow> schema_diagnostic list" where
  "extra_column_diags t lo = (case lo of None \<Rightarrow> []
     | Some l \<Rightarrow> map (\<lambda>n. unsafe_diagnostic ''extra-column'' (dt_name t) n [] ''column exists in database but not metadata'' (dt_source t)) (extra_columns t l))"

definition extra_object_diags :: "desired_table \<Rightarrow> live_table option \<Rightarrow> schema_diagnostic list" where
  "extra_object_diags t lo = (case lo of None \<Rightarrow> []
     | Some l \<Rightarrow>
         map (\<lambda>n. unsafe_diagnostic ''extra-constraint'' (dt_name t) [] n (''constraint '' @ quote_ident n @ '' exists in database but not metadata'') (dt_source t)) (extra_constraints t l)
       @ map (\<lambda>n. unsafe_diagnostic ''extra-index'' (dt_name t) [] n (''index '' @ quote_ident n @ '' exists in database but not metadata'') (dt_source t)) (extra_indexes t l))"

definition extra_table_diags :: "desired_table list \<Rightarrow> live_schema \<Rightarrow> schema_diagnostic list" where
  "extra_table_diags ts live =
     map (\<lambda>n. unsafe_diagnostic ''extra-table'' n [] [] ''table exists in database but not metadata'' ''database public schema'') (extra_tables ts live)"

section \<open>The plan\<close>

definition table_diags :: "desired_table \<Rightarrow> live_table option \<Rightarrow> schema_diagnostic list" where
  "table_diags t lo = system_column_diags t lo @ column_diags t lo @ extra_column_diags t lo @ index_diags t lo
     @ constraint_diags t lo @ extra_object_diags t lo"

definition create_ops :: "desired_table \<Rightarrow> live_table option \<Rightarrow> schema_operation list" where
  "create_ops t lo = (if lo = None then [create_operation t] else [])"

definition over_tables :: "(desired_table \<Rightarrow> live_table option \<Rightarrow> 'a list) \<Rightarrow> desired_table list \<Rightarrow> live_schema \<Rightarrow> 'a list" where
  "over_tables f ts live = concat (map (\<lambda>t. f t (map_of live (dt_name t))) ts)"

definition plan_for_schema :: "loaded_entity list \<Rightarrow> desired_table list \<Rightarrow> live_schema \<Rightarrow> schema_plan" where
  "plan_for_schema es ts live =
     \<lparr>sp_entities = length es, sp_fields = sum_list (map (\<lambda>e. length (en_fields (le_entity e))) es),
      sp_operations = over_tables create_ops ts live
        @ over_tables (\<lambda>t lo. system_column_ops t lo @ column_ops t lo) ts live
        @ over_tables default_ops ts live @ over_tables index_ops ts live @ over_tables constraint_ops ts live,
      sp_diagnostics = over_tables table_diags ts live @ extra_table_diags ts live\<rparr>"

definition build_metadata_schema_plan :: "loaded_entity list \<Rightarrow> live_schema \<Rightarrow> schema_error + schema_plan" where
  "build_metadata_schema_plan es live = bindR (build_desired_schema es) (\<lambda>ts. Inr (plan_for_schema es ts live))"

section \<open>Pruning\<close>

definition is_prunable_diagnostic :: "string \<Rightarrow> bool" where
  "is_prunable_diagnostic kind \<longleftrightarrow> kind \<in> set [''extra-table'', ''extra-constraint'', ''extra-index'', ''extra-column'']"

definition prune_constraints :: "desired_table \<Rightarrow> live_table \<Rightarrow> schema_operation list" where
  "prune_constraints t l = map (\<lambda>n. operation ''drop-constraint'' (dt_name t) [] n (''drop constraint '' @ n @ '' on '' @ dt_name t) (dt_source t)
     (''ALTER TABLE '' @ quote_ident (dt_name t) @ '' DROP CONSTRAINT '' @ quote_ident n)) (extra_constraints t l)"

definition prune_indexes :: "desired_table \<Rightarrow> live_table \<Rightarrow> schema_operation list" where
  "prune_indexes t l = map (\<lambda>n. operation ''drop-index'' (dt_name t) [] n (''drop index '' @ n @ '' on '' @ dt_name t) (dt_source t)
     (''DROP INDEX '' @ quote_ident n)) (extra_indexes t l)"

definition prune_columns :: "desired_table \<Rightarrow> live_table \<Rightarrow> schema_operation list" where
  "prune_columns t l = map (\<lambda>n. operation ''drop-column'' (dt_name t) n [] (''drop column '' @ dt_name t @ ''.'' @ n) (dt_source t)
     (''ALTER TABLE '' @ quote_ident (dt_name t) @ '' DROP COLUMN '' @ quote_ident n)) (extra_columns t l)"

definition prune_table :: "string \<Rightarrow> schema_operation" where
  "prune_table n = operation ''drop-table'' n [] [] (''drop table '' @ n) ''database public schema'' (''DROP TABLE '' @ quote_ident n)"

definition over_live_tables :: "(desired_table \<Rightarrow> live_table \<Rightarrow> 'a list) \<Rightarrow> desired_table list \<Rightarrow> live_schema \<Rightarrow> 'a list" where
  "over_live_tables f ts live = over_tables (\<lambda>t lo. case lo of None \<Rightarrow> [] | Some l \<Rightarrow> f t l) (sort_key dt_name ts) live"

definition build_schema_prune_plan :: "loaded_entity list \<Rightarrow> live_schema \<Rightarrow> schema_error + schema_operation list \<times> schema_diagnostic list" where
  "build_schema_prune_plan es live =
     bindR (build_desired_schema es) (\<lambda>ts.
     bindR (build_metadata_schema_plan es live) (\<lambda>p.
       Inr (over_live_tables prune_constraints ts live @ over_live_tables prune_indexes ts live
              @ over_live_tables prune_columns ts live @ map prune_table (extra_tables ts live),
            filter (\<lambda>d. \<not> is_prunable_diagnostic (sd_kind d)) (sp_diagnostics p))))"

end
