(* ===== verification/Schema_Sync.thy ===== *)
theory Schema_Sync
  imports Schema_Diff "HOL-Library.AList"
begin

text \<open>
  Executing a schema plan (\<^verbatim>\<open>executeSchemaPlan\<close> in \<^verbatim>\<open>internal/db/schema.go\<close>) and the
  guarantee that planning is complete: after the statements of a plan without blockers have run, a new
  plan is empty.  What PostgreSQL shows of a definition it was given (\<^verbatim>\<open>pg_get_constraintdef\<close>,
  \<^verbatim>\<open>pg_indexes\<close>, \<^verbatim>\<open>pg_get_expr\<close>) is the parameter \<open>shown\<close>.
\<close>

section \<open>The effect of the statements\<close>

text \<open>Each statement acts on the object its operation names, with the definition the metadata gives it.\<close>

definition new_live_column :: "(string \<Rightarrow> string) \<Rightarrow> desired_column \<Rightarrow> live_column" where
  "new_live_column shown c = \<lparr>lc_type = dc_type c, lc_nullable = (\<not> dc_required c), lc_has_default = (dc_default c \<noteq> []),
     lc_default = shown (dc_default c)\<rparr>"

definition new_live_table :: "(string \<Rightarrow> string) \<Rightarrow> desired_table \<Rightarrow> live_table" where
  "new_live_table shown t =
     (let pkey = dt_name t @ ''_pkey'' in
      \<lparr>lt_row_state_known = True, lt_has_rows = False,
       lt_columns = map (\<lambda>c. (dc_name c, new_live_column shown c)) (dt_system_columns t),
       lt_indexes = [(pkey, [])], lt_constraints = [(pkey, ''primary-key'', [])]\<rparr>)"

definition find_column :: "desired_table \<Rightarrow> string \<Rightarrow> desired_column option" where
  "find_column t n = find (\<lambda>c. dc_name c = n) (dt_system_columns t @ dt_columns t)"

definition alter_table :: "(string \<Rightarrow> string) \<Rightarrow> desired_table \<Rightarrow> schema_operation \<Rightarrow> live_table \<Rightarrow> live_table" where
  "alter_table shown t op l =
     (if so_kind op = ''add-column'' \<or> so_kind op = ''alter-column-default'' then
        (case find_column t (so_column op) of None \<Rightarrow> l
         | Some c \<Rightarrow>
             let old = map_of (lt_columns l) (so_column op); made = new_live_column shown c;
                 new = (if so_kind op = ''add-column'' then made
                   else (case old of None \<Rightarrow> made | Some lc \<Rightarrow> lc\<lparr>lc_has_default := lc_has_default made, lc_default := lc_default made\<rparr>))
             in l\<lparr>lt_columns := AList.update (so_column op) new (lt_columns l)\<rparr>)
      else if so_kind op = ''create-index'' then l\<lparr>lt_indexes := AList.update (so_name op) (shown (so_sql op)) (lt_indexes l)\<rparr>
      else if so_kind op = ''add-constraint'' then
        (case find (\<lambda>k. dk_name k = so_name op) (dt_constraints t) of None \<Rightarrow> l
         | Some k \<Rightarrow> l\<lparr>lt_constraints := AList.update (dk_name k) (dk_type k, shown (dk_definition k)) (lt_constraints l),
             lt_indexes := (if dk_type k = ''unique'' then AList.update (dk_name k) (shown (dk_definition k)) (lt_indexes l) else lt_indexes l)\<rparr>)
      else l)"

definition run_operation :: "(string \<Rightarrow> string) \<Rightarrow> desired_table list \<Rightarrow> live_schema \<Rightarrow> schema_operation \<Rightarrow> live_schema" where
  "run_operation shown ts live op =
     (case find (\<lambda>t. dt_name t = so_table op) ts of None \<Rightarrow> live
      | Some t \<Rightarrow>
          if so_kind op = ''create-table'' then AList.update (so_table op) (new_live_table shown t) live
          else (case map_of live (so_table op) of None \<Rightarrow> live
            | Some l \<Rightarrow> AList.update (so_table op) (alter_table shown t op l) live))"

definition execute_schema_plan :: "(string \<Rightarrow> string) \<Rightarrow> desired_table list \<Rightarrow> schema_operation list \<Rightarrow> live_schema \<Rightarrow> live_schema" where
  "execute_schema_plan shown ts ops live = foldl (run_operation shown ts) live ops"

section \<open>What PostgreSQL accepts and shows\<close>

text \<open>Column names are unique in a table, and the names of a table's indexes differ from those of its
  constraints; the shown definitions are recognised by the comparisons of the planner.\<close>

definition names_accepted :: "desired_table \<Rightarrow> bool" where
  "names_accepted t \<longleftrightarrow> distinct (map dc_name (dt_system_columns t @ dt_columns t))
    \<and> distinct (map di_name (dt_indexes t) @ map dk_name (dt_constraints t) @ [dt_name t @ ''_pkey''])"

definition shows_definitions :: "(string \<Rightarrow> string) \<Rightarrow> desired_table \<Rightarrow> bool" where
  "shows_definitions shown t \<longleftrightarrow>
     list_all (\<lambda>c. column_default_matches c (new_live_column shown c)) (dt_columns t)
     \<and> list_all (\<lambda>i. index_definition_matches (shown (''CREATE INDEX '' @ quote_ident (di_name i) @ '' ON '' @ quote_ident (dt_name t)
         @ '' ('' @ quote_ident_list (di_columns i) @ '')'')) (dt_name t) i) (dt_indexes t)
     \<and> list_all (\<lambda>k. constraint_definition_matches (shown (dk_definition k)) k) (dt_constraints t)"

section \<open>One table at a time\<close>

definition run_local :: "(string \<Rightarrow> string) \<Rightarrow> desired_table \<Rightarrow> live_table option \<Rightarrow> schema_operation \<Rightarrow> live_table option" where
  "run_local shown t lo op =
     (if so_kind op = ''create-table'' then Some (new_live_table shown t) else map_option (alter_table shown t op) lo)"

lemma find_table:
  assumes "distinct (map dt_name ts)" "t \<in> set ts"
  shows "find (\<lambda>x. dt_name x = dt_name t) ts = Some t"
  using find_key_unique [OF assms] by simp

lemma run_operation_local:
  assumes "distinct (map dt_name ts)" "t \<in> set ts"
  shows "map_of (run_operation shown ts live op) (dt_name t) =
    (if so_table op = dt_name t then run_local shown t (map_of live (dt_name t)) op else map_of live (dt_name t))"
proof (cases "so_table op = dt_name t")
  case True
  have "find (\<lambda>x. dt_name x = so_table op) ts = Some t" using find_table [OF assms] True by simp
  with True show ?thesis
    by (auto simp: run_operation_def run_local_def update_conv' split: option.splits)
next
  case False
  then show ?thesis by (auto simp: run_operation_def update_conv' split: option.splits)
qed

lemma execute_local:
  assumes "distinct (map dt_name ts)" "t \<in> set ts"
  shows "map_of (execute_schema_plan shown ts ops live) (dt_name t) =
    foldl (run_local shown t) (map_of live (dt_name t)) (filter (\<lambda>op. so_table op = dt_name t) ops)"
  unfolding execute_schema_plan_def
  by (induction ops arbitrary: live) (simp_all add: run_operation_local [OF assms])

text \<open>The tables of the live schema afterwards are the old ones and the desired ones.\<close>

lemma execute_tables: "fst ` set (execute_schema_plan shown ts ops live) \<subseteq> fst ` set live \<union> dt_name ` set ts"
  unfolding execute_schema_plan_def
proof (induction ops arbitrary: live)
  case (Cons op ops)
  have "fst ` set (run_operation shown ts live op) \<subseteq> fst ` set live \<union> dt_name ` set ts"
  proof (cases "find (\<lambda>t. dt_name t = so_table op) ts")
    case None
    then show ?thesis by (simp add: run_operation_def)
  next
    case (Some t)
    then have "so_table op \<in> dt_name ` set ts" using find_SomeD [OF Some] by (metis imageI)
    moreover have "fst ` set (AList.update (so_table op) l live) = insert (so_table op) (fst ` set live)" for l
      by (simp add: dom_update)
    ultimately show ?thesis using Some by (auto simp: run_operation_def split: option.splits)
  qed
  with Cons.IH [of "run_operation shown ts live op"] show ?case by auto
qed simp

text \<open>The operations of one table among those of all tables.\<close>

lemma filter_over_tables:
  assumes "distinct (map dt_name ts)" "t \<in> set ts"
    and own: "\<And>t lo op. op \<in> set (f t lo) \<Longrightarrow> so_table op = dt_name t"
  shows "filter (\<lambda>op. so_table op = dt_name t) (over_tables f ts live) = f t (map_of live (dt_name t))"
  using assms(1,2)
proof (induction ts)
  case (Cons x ts)
  have keep: "filter (\<lambda>op. so_table op = dt_name t) (f x lo) = (if dt_name x = dt_name t then f x lo else [])" for lo
    using own [of _ x lo] by (auto simp: filter_empty_conv intro: filter_True)
  show ?case
  proof (cases "x = t")
    case True
    with Cons.prems(1) have "dt_name t \<notin> dt_name ` set ts" by simp
    then have "\<And>y. y \<in> set ts \<Longrightarrow> dt_name y \<noteq> dt_name t" by (metis imageI)
    then have "filter (\<lambda>op. so_table op = dt_name t) (over_tables f ts live) = []"
      using own by (auto simp: over_tables_def filter_empty_conv)
    with True keep show ?thesis by (simp add: over_tables_def)
  next
    case False
    then have "t \<in> set ts" "dt_name x \<noteq> dt_name t" using Cons.prems by auto
    with Cons keep show ?thesis by (simp add: over_tables_def)
  qed
qed simp

lemma plan_ops_own_table:
  "op \<in> set (create_ops t lo) \<Longrightarrow> so_table op = dt_name t \<and> so_kind op = ''create-table''"
  "op \<in> set (system_column_ops t lo @ column_ops t lo) \<Longrightarrow> so_table op = dt_name t \<and> so_kind op = ''add-column''"
  "op \<in> set (default_ops t lo) \<Longrightarrow> so_table op = dt_name t \<and> so_kind op = ''alter-column-default''"
  "op \<in> set (index_ops t lo) \<Longrightarrow> so_table op = dt_name t \<and> so_kind op = ''create-index''"
  "op \<in> set (constraint_ops t lo) \<Longrightarrow> so_table op = dt_name t \<and> so_kind op = ''add-constraint''"
  by (auto simp: create_ops_def create_operation_def system_column_ops_def column_ops_def add_column_operation_def
      default_ops_def compare_column_default_def index_ops_def constraint_ops_def operation_def split: option.splits if_splits)

definition local_ops :: "desired_table \<Rightarrow> live_table option \<Rightarrow> schema_operation list" where
  "local_ops t lo = create_ops t lo @ (system_column_ops t lo @ column_ops t lo) @ default_ops t lo @ index_ops t lo @ constraint_ops t lo"

lemma plan_ops_local:
  assumes "distinct (map dt_name ts)" "t \<in> set ts"
  shows "filter (\<lambda>op. so_table op = dt_name t) (sp_operations (plan_for_schema es ts live)) = local_ops t (map_of live (dt_name t))"
proof -
  have "filter (\<lambda>op. so_table op = dt_name t) (over_tables f ts live) = f t (map_of live (dt_name t))"
    if "f = create_ops \<or> f = (\<lambda>t lo. system_column_ops t lo @ column_ops t lo) \<or> f = default_ops \<or> f = index_ops \<or> f = constraint_ops" for f
    by (rule filter_over_tables [OF assms]) (use that plan_ops_own_table in blast)
  then show ?thesis by (simp add: plan_for_schema_def local_ops_def)
qed

section \<open>The phases of one table\<close>

definition alter_all :: "(string \<Rightarrow> string) \<Rightarrow> desired_table \<Rightarrow> schema_operation list \<Rightarrow> live_table \<Rightarrow> live_table" where
  "alter_all shown t ops l = foldl (\<lambda>l op. alter_table shown t op l) l ops"

definition same_rows :: "live_table \<Rightarrow> live_table \<Rightarrow> bool" where
  "same_rows l l' \<longleftrightarrow> lt_row_state_known l' = lt_row_state_known l \<and> lt_has_rows l' = lt_has_rows l"

lemma run_local_alter:
  "(\<And>op. op \<in> set ops \<Longrightarrow> so_kind op \<noteq> ''create-table'') \<Longrightarrow>
   foldl (run_local shown t) (Some l) ops = Some (alter_all shown t ops l)"
  unfolding alter_all_def by (induction ops arbitrary: l) (simp_all add: run_local_def)

lemma add_columns_phase:
  assumes "\<And>op. op \<in> set ops \<Longrightarrow> so_kind op = ''add-column'' \<and> find_column t (so_column op) \<noteq> None"
  shows "map_of (lt_columns (alter_all shown t ops l)) n =
      (if n \<in> so_column ` set ops then map_option (new_live_column shown) (find_column t n) else map_of (lt_columns l) n)
    \<and> lt_indexes (alter_all shown t ops l) = lt_indexes l \<and> lt_constraints (alter_all shown t ops l) = lt_constraints l
    \<and> same_rows l (alter_all shown t ops l)"
  using assms unfolding alter_all_def
proof (induction ops arbitrary: l)
  case Nil
  then show ?case by (simp add: same_rows_def)
next
  case (Cons op ops)
  obtain c where "so_kind op = ''add-column''" "find_column t (so_column op) = Some c" using Cons.prems [of op] by auto
  then have a: "alter_table shown t op l = l\<lparr>lt_columns := AList.update (so_column op) (new_live_column shown c) (lt_columns l)\<rparr>"
    by (simp add: alter_table_def)
  have "\<And>x. x \<in> set ops \<Longrightarrow> so_kind x = ''add-column'' \<and> find_column t (so_column x) \<noteq> None" using Cons.prems by simp
  from Cons.IH [OF this, of "alter_table shown t op l"] \<open>find_column t (so_column op) = Some c\<close> show ?case
    by (auto simp: a update_conv' same_rows_def)
qed

definition with_default :: "(string \<Rightarrow> string) \<Rightarrow> desired_column \<Rightarrow> live_column \<Rightarrow> live_column" where
  "with_default shown c lc = lc\<lparr>lc_has_default := dc_default c \<noteq> [], lc_default := shown (dc_default c)\<rparr>"

lemma defaults_phase:
  assumes "\<And>op. op \<in> set ops \<Longrightarrow> so_kind op = ''alter-column-default'' \<and> find_column t (so_column op) \<noteq> None
      \<and> map_of (lt_columns l) (so_column op) \<noteq> None"
  shows "map_of (lt_columns (alter_all shown t ops l)) n =
      (if n \<in> so_column ` set ops then map_option (with_default shown (the (find_column t n))) (map_of (lt_columns l) n)
       else map_of (lt_columns l) n)
    \<and> lt_indexes (alter_all shown t ops l) = lt_indexes l \<and> lt_constraints (alter_all shown t ops l) = lt_constraints l
    \<and> same_rows l (alter_all shown t ops l)"
  using assms unfolding alter_all_def
proof (induction ops arbitrary: l)
  case Nil
  then show ?case by (simp add: same_rows_def)
next
  case (Cons op ops)
  obtain c lc where c: "so_kind op = ''alter-column-default''" "find_column t (so_column op) = Some c"
    "map_of (lt_columns l) (so_column op) = Some lc" using Cons.prems [of op] by auto
  then have a: "alter_table shown t op l = l\<lparr>lt_columns := AList.update (so_column op) (with_default shown c lc) (lt_columns l)\<rparr>"
    by (simp add: alter_table_def with_default_def new_live_column_def)
  have "\<And>x. x \<in> set ops \<Longrightarrow> so_kind x = ''alter-column-default'' \<and> find_column t (so_column x) \<noteq> None
      \<and> map_of (lt_columns (alter_table shown t op l)) (so_column x) \<noteq> None"
    using Cons.prems by (auto simp: a update_conv')
  from Cons.IH [OF this] c show ?case
    by (auto simp: a update_conv' same_rows_def with_default_def)
qed

lemma indexes_phase:
  assumes "\<And>op. op \<in> set ops \<Longrightarrow> so_kind op = ''create-index''"
  shows "map_of (lt_indexes (alter_all shown t ops l)) n =
      (case map_of (rev (map (\<lambda>op. (so_name op, shown (so_sql op))) ops)) n of Some d \<Rightarrow> Some d | None \<Rightarrow> map_of (lt_indexes l) n)
    \<and> lt_columns (alter_all shown t ops l) = lt_columns l \<and> lt_constraints (alter_all shown t ops l) = lt_constraints l
    \<and> same_rows l (alter_all shown t ops l)"
  using assms unfolding alter_all_def
proof (induction ops arbitrary: l)
  case Nil
  then show ?case by (simp add: same_rows_def)
next
  case (Cons op ops)
  have a: "alter_table shown t op l = l\<lparr>lt_indexes := AList.update (so_name op) (shown (so_sql op)) (lt_indexes l)\<rparr>"
    using Cons.prems [of op] by (simp add: alter_table_def)
  have "\<And>x. x \<in> set ops \<Longrightarrow> so_kind x = ''create-index''" using Cons.prems by simp
  from Cons.IH [OF this, of "alter_table shown t op l"] show ?case
    by (auto simp: a update_conv' same_rows_def map_add_def split: option.splits)
qed

definition find_constraint :: "desired_table \<Rightarrow> string \<Rightarrow> desired_constraint option" where
  "find_constraint t n = find (\<lambda>k. dk_name k = n) (dt_constraints t)"

lemma constraints_phase:
  assumes "\<And>op. op \<in> set ops \<Longrightarrow> so_kind op = ''add-constraint'' \<and> find_constraint t (so_name op) \<noteq> None"
  shows "map_of (lt_constraints (alter_all shown t ops l)) n =
      (if n \<in> so_name ` set ops then map_option (\<lambda>k. (dk_type k, shown (dk_definition k))) (find_constraint t n)
       else map_of (lt_constraints l) n)
    \<and> (n \<notin> so_name ` set ops \<longrightarrow> map_of (lt_indexes (alter_all shown t ops l)) n = map_of (lt_indexes l) n)
    \<and> lt_columns (alter_all shown t ops l) = lt_columns l \<and> same_rows l (alter_all shown t ops l)"
  using assms unfolding alter_all_def
proof (induction ops arbitrary: l)
  case Nil
  then show ?case by (simp add: same_rows_def)
next
  case (Cons op ops)
  obtain k where k: "so_kind op = ''add-constraint''" "find_constraint t (so_name op) = Some k" using Cons.prems [of op] by auto
  then have name: "dk_name k = so_name op" by (auto simp: find_constraint_def dest: find_SomeD)
  have a: "alter_table shown t op l = l\<lparr>lt_constraints := AList.update (so_name op) (dk_type k, shown (dk_definition k)) (lt_constraints l),
      lt_indexes := (if dk_type k = ''unique'' then AList.update (so_name op) (shown (dk_definition k)) (lt_indexes l) else lt_indexes l)\<rparr>"
    using k name by (simp add: alter_table_def find_constraint_def)
  have "\<And>x. x \<in> set ops \<Longrightarrow> so_kind x = ''add-constraint'' \<and> find_constraint t (so_name x) \<noteq> None" using Cons.prems by simp
  from Cons.IH [OF this, of "alter_table shown t op l"] k(2) show ?case
    by (auto simp: a update_conv' same_rows_def)
qed

section \<open>Planning again\<close>

lemma compare_column_cong:
  "lc_type l' = lc_type l \<Longrightarrow> lc_nullable l' = lc_nullable l \<Longrightarrow> compare_column table c l' = compare_column table c l"
  by (simp add: compare_column_def)

lemma compare_column_new [simp]: "compare_column table c (new_live_column shown c) = []"
  by (simp add: compare_column_def new_live_column_def)

lemma default_matches_with_default:
  "column_default_matches c (with_default shown c lc) = column_default_matches c (new_live_column shown c)"
  by (simp add: column_default_matches_def with_default_def new_live_column_def)

text \<open>A table the sync has settled: every object of the metadata that can be there is there and matches,
  and nothing else is.\<close>

definition settled :: "desired_table \<Rightarrow> live_table \<Rightarrow> bool" where
  "settled t l \<longleftrightarrow>
     (\<forall>c\<in>set (dt_system_columns t @ dt_columns t). \<exists>lc. map_of (lt_columns l) (dc_name c) = Some lc \<and> compare_column (dt_name t) c lc = [])
     \<and> (\<forall>c\<in>set (dt_columns t). \<forall>lc. map_of (lt_columns l) (dc_name c) = Some lc \<longrightarrow> column_default_matches c lc)
     \<and> (\<forall>i\<in>set (planned_indexes t (Some l)). \<exists>d. map_of (lt_indexes l) (di_name i) = Some d \<and> index_definition_matches d (dt_name t) i)
     \<and> (\<forall>k\<in>set (dt_constraints t). \<not> is_unsupported k)
     \<and> (\<forall>k\<in>set (planned_constraints t (Some l)). \<exists>d. map_of (lt_constraints l) (dk_name k) = Some (dk_type k, d) \<and> constraint_definition_matches d k)
     \<and> extra_columns t l = [] \<and> extra_constraints t l = [] \<and> extra_indexes t l = []"

lemma settled_columns:
  assumes "settled t l"
  shows "c \<in> set (dt_system_columns t) \<Longrightarrow> \<exists>lc. map_of (lt_columns l) (dc_name c) = Some lc \<and> compare_column (dt_name t) c lc = []"
    and "c \<in> set (dt_columns t) \<Longrightarrow> \<exists>lc. map_of (lt_columns l) (dc_name c) = Some lc \<and> compare_column (dt_name t) c lc = []
      \<and> column_default_matches c lc"
  using assms unfolding settled_def set_append by blast+

lemma settled_objects:
  assumes "settled t l"
  shows "i \<in> set (planned_indexes t (Some l)) \<Longrightarrow> \<exists>d. map_of (lt_indexes l) (di_name i) = Some d \<and> index_definition_matches d (dt_name t) i"
    and "k \<in> set (planned_constraints t (Some l)) \<Longrightarrow>
      \<exists>d. map_of (lt_constraints l) (dk_name k) = Some (dk_type k, d) \<and> constraint_definition_matches d k"
    and "k \<in> set (dt_constraints t) \<Longrightarrow> \<not> is_unsupported k"
  using assms unfolding settled_def by blast+

lemma settled_ops:
  assumes "settled t l"
  shows "local_ops t (Some l) = []"
proof -
  have "system_column_ops t (Some l) = []" "column_ops t (Some l) = []"
    by (auto simp: system_column_ops_def column_ops_def filter_empty_conv live_column_of_def dest: settled_columns [OF assms])
  moreover have "default_ops t (Some l) = []"
    by (auto simp: default_ops_def live_column_of_def compare_column_default_def dest!: settled_columns [OF assms])
  moreover have "index_ops t (Some l) = []" "constraint_ops t (Some l) = []"
    using settled_objects [OF assms]
    by (fastforce simp: index_ops_def constraint_ops_def filter_empty_conv live_index_of_def live_constraint_of_def)+
  ultimately show ?thesis by (simp add: local_ops_def create_ops_def)
qed

lemma settled_diags:
  assumes "settled t l"
  shows "table_diags t (Some l) = []"
proof -
  have "system_column_diags t (Some l) = []" "column_diags t (Some l) = []"
    by (auto simp: system_column_diags_def column_diags_def live_column_of_def dest!: settled_columns [OF assms])
  moreover have "index_diags t (Some l) = []"
    using settled_objects(1) [OF assms] by (fastforce simp: index_diags_def live_index_of_def)
  moreover have "constraint_diags_of t (Some l) k = []" if k: "k \<in> set (dt_constraints t)" for k
  proof (cases "columns_available (dk_columns k) (available_columns t (Some l))")
    case True
    with k settled_objects(3) [OF assms k] have "k \<in> set (planned_constraints t (Some l))" by (simp add: planned_constraints_def)
    from settled_objects(2) [OF assms this] settled_objects(3) [OF assms k] True show ?thesis
      by (auto simp: constraint_diags_of_def live_constraint_of_def)
  qed (use settled_objects(3) [OF assms k] in \<open>simp add: constraint_diags_of_def\<close>)
  moreover have "extra_column_diags t (Some l) = []" "extra_object_diags t (Some l) = []"
    using assms by (simp_all add: settled_def extra_column_diags_def extra_object_diags_def)
  ultimately show ?thesis by (simp add: table_diags_def constraint_diags_def)
qed

section \<open>One table settles\<close>

definition syncable :: "(string \<Rightarrow> string) \<Rightarrow> desired_table \<Rightarrow> live_table option \<Rightarrow> bool" where
  "syncable shown t lo \<longleftrightarrow> names_accepted t \<and> shows_definitions shown t \<and> table_diags t lo = []"

definition start_table :: "(string \<Rightarrow> string) \<Rightarrow> desired_table \<Rightarrow> live_table option \<Rightarrow> live_table" where
  "start_table shown t lo = (case lo of None \<Rightarrow> new_live_table shown t | Some l \<Rightarrow> l)"

definition columns_done :: "(string \<Rightarrow> string) \<Rightarrow> desired_table \<Rightarrow> live_table option \<Rightarrow> live_table" where
  "columns_done shown t lo = alter_all shown t (system_column_ops t lo @ column_ops t lo) (start_table shown t lo)"

definition defaults_done :: "(string \<Rightarrow> string) \<Rightarrow> desired_table \<Rightarrow> live_table option \<Rightarrow> live_table" where
  "defaults_done shown t lo = alter_all shown t (default_ops t lo) (columns_done shown t lo)"

definition indexes_done :: "(string \<Rightarrow> string) \<Rightarrow> desired_table \<Rightarrow> live_table option \<Rightarrow> live_table" where
  "indexes_done shown t lo = alter_all shown t (index_ops t lo) (defaults_done shown t lo)"

definition constraints_done :: "(string \<Rightarrow> string) \<Rightarrow> desired_table \<Rightarrow> live_table option \<Rightarrow> live_table" where
  "constraints_done shown t lo = alter_all shown t (constraint_ops t lo) (indexes_done shown t lo)"

lemma kinds_differ:
  "(''add-column'' :: string) \<noteq> ''create-table''" "(''alter-column-default'' :: string) \<noteq> ''create-table''"
  "(''create-index'' :: string) \<noteq> ''create-table''" "(''add-constraint'' :: string) \<noteq> ''create-table''"
  by simp_all

lemma local_ops_run: "foldl (run_local shown t) lo (local_ops t lo) = Some (constraints_done shown t lo)"
proof -
  have c: "foldl (run_local shown t) lo (create_ops t lo) = Some (start_table shown t lo)"
    by (cases lo) (simp_all add: create_ops_def start_table_def run_local_def create_operation_def operation_def)
  have run: "foldl (run_local shown t) (Some l) ops = Some (alter_all shown t ops l)"
    if "ops = system_column_ops t lo @ column_ops t lo \<or> ops = default_ops t lo \<or> ops = index_ops t lo \<or> ops = constraint_ops t lo" for ops l
    by (rule run_local_alter) (use that plan_ops_own_table [where t = t and lo = lo] kinds_differ in metis)
  show ?thesis
    using run [of "system_column_ops t lo @ column_ops t lo"] run [of "default_ops t lo"] run [of "index_ops t lo"]
      run [of "constraint_ops t lo"]
    by (simp add: local_ops_def c constraints_done_def indexes_done_def defaults_done_def columns_done_def)
qed

lemma find_column_own:
  assumes "names_accepted t" "c \<in> set (dt_system_columns t @ dt_columns t)"
  shows "find_column t (dc_name c) = Some c"
  using assms find_key_unique [of dc_name "dt_system_columns t @ dt_columns t" c] by (simp add: names_accepted_def find_column_def)

lemma syncable_columns:
  assumes "syncable shown t lo"
  shows "c \<in> set (dt_system_columns t) \<Longrightarrow> lo = Some l \<Longrightarrow> (case map_of (lt_columns l) (dc_name c) of
      None \<Rightarrow> dc_name c = ''owner_id'' | Some lc \<Rightarrow> compare_column (dt_name t) c lc = [])"
    and "c \<in> set (dt_columns t) \<Longrightarrow> (case live_column_of lo (dc_name c) of
      None \<Rightarrow> \<not> column_blocked lo c | Some lc \<Rightarrow> compare_column (dt_name t) c lc = [])"
proof -
  have d: "system_column_diags t lo = []" "column_diags t lo = []"
    using assms by (simp_all add: syncable_def table_diags_def)
  show "c \<in> set (dt_system_columns t) \<Longrightarrow> lo = Some l \<Longrightarrow> (case map_of (lt_columns l) (dc_name c) of
      None \<Rightarrow> dc_name c = ''owner_id'' | Some lc \<Rightarrow> compare_column (dt_name t) c lc = [])"
    using d(1) by (fastforce simp: system_column_diags_def split: option.splits if_splits)
  show "c \<in> set (dt_columns t) \<Longrightarrow> (case live_column_of lo (dc_name c) of
      None \<Rightarrow> \<not> column_blocked lo c | Some lc \<Rightarrow> compare_column (dt_name t) c lc = [])"
    using d(2) by (fastforce simp: column_diags_def split: option.splits if_splits)
qed

text \<open>The columns added are the missing ones.\<close>

lemma column_ops_names:
  "so_column ` set (system_column_ops t lo @ column_ops t lo) =
     dc_name ` {c \<in> set (dt_system_columns t). lo \<noteq> None \<and> live_column_of lo (dc_name c) = None \<and> dc_name c = ''owner_id''}
   \<union> dc_name ` {c \<in> set (dt_columns t). live_column_of lo (dc_name c) = None \<and> \<not> column_blocked lo c}"
proof -
  have name: "so_column (add_column_operation t c body) = dc_name c" for c body
    by (simp add: add_column_operation_def operation_def)
  show ?thesis
    by (cases lo) (simp_all add: system_column_ops_def column_ops_def live_column_of_def image_image image_Un name)
qed

lemma column_ops_known:
  "so_column ` set (system_column_ops t lo @ column_ops t lo) \<subseteq> dc_name ` set (dt_system_columns t @ dt_columns t)"
proof -
  have "dc_name ` {c \<in> set xs. P c} \<union> dc_name ` {c \<in> set ys. Q c} \<subseteq> dc_name ` set (xs @ ys)" for xs ys P Q
    by auto
  then show ?thesis unfolding column_ops_names .
qed

lemma set_sorted_names [simp]: "set (sorted_names m) = fst ` set m"
  by (simp add: sorted_names_def)

lemma columns_done_lookup:
  assumes "names_accepted t"
  shows "map_of (lt_columns (columns_done shown t lo)) n =
      (if n \<in> so_column ` set (system_column_ops t lo @ column_ops t lo) then map_option (new_live_column shown) (find_column t n)
       else map_of (lt_columns (start_table shown t lo)) n)
    \<and> lt_indexes (columns_done shown t lo) = lt_indexes (start_table shown t lo)
    \<and> lt_constraints (columns_done shown t lo) = lt_constraints (start_table shown t lo)"
proof -
  have "so_kind op = ''add-column'' \<and> find_column t (so_column op) \<noteq> None"
    if op: "op \<in> set (system_column_ops t lo @ column_ops t lo)" for op
  proof -
    have "so_column op \<in> so_column ` set (system_column_ops t lo @ column_ops t lo)" using op by (rule imageI)
    then have "so_column op \<in> dc_name ` set (dt_system_columns t @ dt_columns t)" by (rule subsetD [OF column_ops_known])
    then obtain c where "c \<in> set (dt_system_columns t @ dt_columns t)" "so_column op = dc_name c" by blast
    with find_column_own [OF assms] plan_ops_own_table(2) [OF op] show ?thesis by simp
  qed
  from add_columns_phase [OF this, where shown = shown and l = "start_table shown t lo" and n = n] show ?thesis
    unfolding columns_done_def by blast
qed

lemma start_column:
  assumes "names_accepted t" "c \<in> set (dt_system_columns t)"
  shows "map_of (lt_columns (new_live_table shown t)) (dc_name c) = Some (new_live_column shown c)"
proof -
  have "distinct (map fst (map (\<lambda>c. (dc_name c, new_live_column shown c)) (dt_system_columns t)))"
    using assms(1) by (simp add: names_accepted_def comp_def)
  with assms(2) show ?thesis by (auto simp: new_live_table_def Let_def intro!: map_of_is_SomeI)
qed

lemma columns_settle:
  assumes "syncable shown t lo" "c \<in> set (dt_system_columns t @ dt_columns t)"
  shows "\<exists>lc. map_of (lt_columns (columns_done shown t lo)) (dc_name c) = Some lc \<and> compare_column (dt_name t) c lc = []
    \<and> (lc = new_live_column shown c \<or> live_column_of lo (dc_name c) = Some lc)"
proof -
  have n: "names_accepted t" using assms(1) by (simp add: syncable_def)
  let ?C = "so_column ` set (system_column_ops t lo @ column_ops t lo)"
  note look = columns_done_lookup [OF n, of shown lo "dc_name c"] and own = find_column_own [OF n assms(2)]
  show ?thesis
  proof (cases "dc_name c \<in> ?C")
    case True
    with look own show ?thesis by simp
  next
    case False
    show ?thesis
    proof (cases lo)
      case None
      then have "c \<in> set (dt_system_columns t)"
        using False assms(2) unfolding column_ops_names by (auto simp: live_column_of_def column_blocked_def)
      with look False None start_column [OF n] show ?thesis by (simp add: start_table_def)
    next
      case (Some l)
      have "\<exists>lc. map_of (lt_columns l) (dc_name c) = Some lc \<and> compare_column (dt_name t) c lc = []"
      proof (cases "c \<in> set (dt_system_columns t)")
        case True
        with False Some syncable_columns(1) [OF assms(1) True Some] show ?thesis
          unfolding column_ops_names by (auto simp: live_column_of_def split: option.splits)
      next
        case sys: False
        then have "c \<in> set (dt_columns t)" using assms(2) by simp
        with False Some syncable_columns(2) [OF assms(1) this] show ?thesis
          unfolding column_ops_names by (auto simp: live_column_of_def split: option.splits)
      qed
      with look False Some show ?thesis by (auto simp: start_table_def live_column_of_def)
    qed
  qed
qed

text \<open>Afterwards only expected columns are there.\<close>

lemma no_extra_columns:
  assumes "syncable shown t (Some l)" "map_of (lt_columns l) n \<noteq> None"
  shows "n \<in> set (map dc_name (dt_system_columns t @ dt_columns t))"
proof -
  have "extra_columns t l = []" using assms(1) by (simp add: syncable_def table_diags_def extra_column_diags_def)
  moreover have "n \<in> set (sorted_names (lt_columns l))" using assms(2) by (simp add: map_of_eq_None_iff)
  ultimately show ?thesis unfolding extra_columns_def filter_empty_conv by blast
qed

lemma columns_done_names:
  assumes "syncable shown t lo" "map_of (lt_columns (columns_done shown t lo)) n \<noteq> None"
  shows "n \<in> set (map dc_name (dt_system_columns t @ dt_columns t))"
proof -
  have n: "names_accepted t" using assms(1) by (simp add: syncable_def)
  show ?thesis
  proof (cases "n \<in> so_column ` set (system_column_ops t lo @ column_ops t lo)")
    case True
    then show ?thesis unfolding set_map by (rule subsetD [OF column_ops_known])
  next
    case False
    then have start: "map_of (lt_columns (start_table shown t lo)) n \<noteq> None"
      using assms(2) columns_done_lookup [OF n, of shown lo n] by simp
    show ?thesis
    proof (cases lo)
      case None
      with start have "n \<in> fst ` set (map (\<lambda>c. (dc_name c, new_live_column shown c)) (dt_system_columns t))"
        by (simp add: start_table_def new_live_table_def Let_def map_of_eq_None_iff)
      then show ?thesis by auto
    next
      case (Some l)
      then show ?thesis using no_extra_columns [of shown t l n] assms(1) start by (simp add: start_table_def)
    qed
  qed
qed

lemma default_ops_names:
  "so_column ` set (default_ops t lo) =
     dc_name ` {c \<in> set (dt_columns t). \<exists>lc. live_column_of lo (dc_name c) = Some lc \<and> \<not> column_default_matches c lc}"
  (is "?L = ?R")
proof -
  have ops: "so_column ` set (compare_column_default n c lc) = (if column_default_matches c lc then {} else {dc_name c})" for n c lc
    by (simp add: compare_column_default_def operation_def)
  have "?L = (\<Union>c\<in>set (dt_columns t). so_column ` set (case live_column_of lo (dc_name c) of
      Some lc \<Rightarrow> compare_column_default (dt_name t) c lc | None \<Rightarrow> []))"
    by (simp add: default_ops_def image_UN)
  also have "\<dots> = (\<Union>c\<in>set (dt_columns t). case live_column_of lo (dc_name c) of
      Some lc \<Rightarrow> if column_default_matches c lc then {} else {dc_name c} | None \<Rightarrow> {})"
    by (intro SUP_cong refl) (simp add: ops split: option.split)
  also have "\<dots> = ?R" by (auto split: option.splits if_splits)
  finally show ?thesis .
qed

lemma defaults_done_lookup:
  assumes "syncable shown t lo"
  shows "map_of (lt_columns (defaults_done shown t lo)) n =
      (if n \<in> so_column ` set (default_ops t lo)
       then map_option (with_default shown (the (find_column t n))) (map_of (lt_columns (columns_done shown t lo)) n)
       else map_of (lt_columns (columns_done shown t lo)) n)
    \<and> lt_indexes (defaults_done shown t lo) = lt_indexes (columns_done shown t lo)
    \<and> lt_constraints (defaults_done shown t lo) = lt_constraints (columns_done shown t lo)"
proof -
  have n: "names_accepted t" using assms by (simp add: syncable_def)
  have "so_kind op = ''alter-column-default'' \<and> find_column t (so_column op) \<noteq> None
      \<and> map_of (lt_columns (columns_done shown t lo)) (so_column op) \<noteq> None" if op: "op \<in> set (default_ops t lo)" for op
  proof -
    have "so_column op \<in> so_column ` set (default_ops t lo)" using op by (rule imageI)
    then obtain c where c: "c \<in> set (dt_system_columns t @ dt_columns t)" "so_column op = dc_name c"
      unfolding default_ops_names set_append by blast
    with find_column_own [OF n] columns_settle [OF assms c(1)] plan_ops_own_table(3) [OF op] show ?thesis by auto
  qed
  from defaults_phase [OF this, where shown = shown and n = n] show ?thesis
    unfolding defaults_done_def by blast
qed

lemma defaults_settle:
  assumes "syncable shown t lo" "c \<in> set (dt_system_columns t @ dt_columns t)"
  shows "\<exists>lc. map_of (lt_columns (defaults_done shown t lo)) (dc_name c) = Some lc \<and> compare_column (dt_name t) c lc = []
    \<and> (c \<in> set (dt_columns t) \<longrightarrow> column_default_matches c lc)"
proof -
  have n: "names_accepted t" using assms(1) by (simp add: syncable_def)
  obtain lc where lc: "map_of (lt_columns (columns_done shown t lo)) (dc_name c) = Some lc" "compare_column (dt_name t) c lc = []"
    "lc = new_live_column shown c \<or> live_column_of lo (dc_name c) = Some lc"
    using columns_settle [OF assms] by blast
  have new: "c \<in> set (dt_columns t) \<Longrightarrow> column_default_matches c (new_live_column shown c)"
    using assms(1) by (simp add: syncable_def shows_definitions_def list_all_iff)
  note look = defaults_done_lookup [OF assms(1), of "dc_name c"] and own = find_column_own [OF n assms(2)]
  show ?thesis
  proof (cases "dc_name c \<in> so_column ` set (default_ops t lo)")
    case True
    have "compare_column (dt_name t) c (with_default shown c lc) = []"
      using lc(2) compare_column_cong [of "with_default shown c lc" lc] by (simp add: with_default_def)
    with True look own lc(1) new show ?thesis by (simp add: default_matches_with_default)
  next
    case False
    then have "c \<in> set (dt_columns t) \<Longrightarrow> column_default_matches c lc"
      using lc(3) new unfolding default_ops_names by auto
    with False look lc show ?thesis by simp
  qed
qed

lemma defaults_done_names:
  assumes "syncable shown t lo" "map_of (lt_columns (defaults_done shown t lo)) n \<noteq> None"
  shows "n \<in> set (map dc_name (dt_system_columns t @ dt_columns t))"
  using columns_done_names [OF assms(1), of n] assms(2) defaults_done_lookup [OF assms(1), of n] by (auto split: if_splits)

text \<open>Without blockers every column of the metadata is available, now and afterwards.\<close>

lemma all_available:
  assumes "syncable shown t lo"
  shows "set (available_columns t lo) = dc_name ` set (dt_system_columns t @ dt_columns t)"
proof -
  have "lo = None \<or> live_column_of lo (dc_name c) \<noteq> None \<or> dc_name c = ''owner_id''" if "c \<in> set (dt_system_columns t)" for c
    using syncable_columns(1) [OF assms that] by (cases lo) (auto simp: live_column_of_def split: option.splits)
  moreover have "\<not> column_blocked lo c" if "c \<in> set (dt_columns t)" for c
    using syncable_columns(2) [OF assms that] by (auto simp: column_blocked_def split: option.splits)
  ultimately show ?thesis by (auto simp: available_columns_def)
qed

lemma available_subset: "set (available_columns t lo) \<subseteq> dc_name ` set (dt_system_columns t @ dt_columns t)"
  by (auto simp: available_columns_def)

lemma planned_subset:
  assumes "syncable shown t lo"
  shows "i \<in> set (planned_indexes t lo') \<Longrightarrow> i \<in> set (planned_indexes t lo)"
    and "k \<in> set (planned_constraints t lo') \<Longrightarrow> k \<in> set (planned_constraints t lo)"
  using all_available [OF assms] available_subset [of t lo']
  by (auto simp: planned_indexes_def planned_constraints_def columns_available_def list_all_iff)

section \<open>Indexes and constraints settle\<close>

definition create_index_sql :: "desired_table \<Rightarrow> desired_index \<Rightarrow> string" where
  "create_index_sql t i = ''CREATE INDEX '' @ quote_ident (di_name i) @ '' ON '' @ quote_ident (dt_name t)
     @ '' ('' @ quote_ident_list (di_columns i) @ '')''"

definition missing_indexes :: "desired_table \<Rightarrow> live_table option \<Rightarrow> desired_index list" where
  "missing_indexes t lo = filter (\<lambda>i. live_index_of lo (di_name i) = None) (planned_indexes t lo)"

lemma index_ops_shown:
  "map (\<lambda>op. (so_name op, shown (so_sql op))) (index_ops t lo) =
     map (\<lambda>i. (di_name i, shown (create_index_sql t i))) (missing_indexes t lo)"
  unfolding index_ops_def missing_indexes_def create_index_sql_def map_map
  by (rule map_cong [OF refl]) (simp only: comp_def operation_def schema_operation.simps)

lemma indexes_done_lookup:
  assumes "syncable shown t lo"
  shows "map_of (lt_indexes (indexes_done shown t lo)) n =
      (case map_of (map (\<lambda>i. (di_name i, shown (create_index_sql t i))) (missing_indexes t lo)) n of
         Some d \<Rightarrow> Some d | None \<Rightarrow> map_of (lt_indexes (start_table shown t lo)) n)
    \<and> lt_columns (indexes_done shown t lo) = lt_columns (defaults_done shown t lo)
    \<and> lt_constraints (indexes_done shown t lo) = lt_constraints (start_table shown t lo)"
proof -
  have n: "names_accepted t" using assms by (simp add: syncable_def)
  let ?kvs = "map (\<lambda>i. (di_name i, shown (create_index_sql t i))) (missing_indexes t lo)"
  have "distinct (map di_name (dt_indexes t))" using n by (simp add: names_accepted_def)
  then have "distinct (map fst ?kvs)"
    unfolding missing_indexes_def planned_indexes_def by (simp add: comp_def distinct_map_filter_imp)
  then have rev: "map_of (rev ?kvs) n = map_of ?kvs n" using map_of_inject_set [of "rev ?kvs" ?kvs] by (simp add: rev_map [symmetric] distinct_rev)
  have kind: "\<And>op. op \<in> set (index_ops t lo) \<Longrightarrow> so_kind op = ''create-index''" using plan_ops_own_table(4) by blast
  note phase = indexes_phase [where ops = "index_ops t lo" and shown = shown and n = n and t = t and l = "defaults_done shown t lo",
    OF kind, folded indexes_done_def]
  note before = defaults_done_lookup [OF assms, THEN conjunct2] columns_done_lookup [OF n, of shown lo, THEN conjunct2]
  show ?thesis using phase before unfolding index_ops_shown rev by (auto split: option.split)
qed

lemma constraint_ops_names:
  "so_name ` set (constraint_ops t lo) =
     dk_name ` {k \<in> set (planned_constraints t lo). live_constraint_of lo (dk_name k) = None \<and> \<not> constraint_blocked lo k}"
  unfolding constraint_ops_def set_map set_filter image_image
  by (rule image_cong [OF refl]) (simp only: operation_def schema_operation.simps)

lemma find_constraint_own:
  assumes "names_accepted t" "k \<in> set (dt_constraints t)"
  shows "find_constraint t (dk_name k) = Some k"
  using assms find_key_unique [of dk_name "dt_constraints t" k] by (simp add: names_accepted_def find_constraint_def)

lemma constraints_done_lookup:
  assumes "syncable shown t lo"
  shows "map_of (lt_constraints (constraints_done shown t lo)) n =
      (if n \<in> so_name ` set (constraint_ops t lo) then map_option (\<lambda>k. (dk_type k, shown (dk_definition k))) (find_constraint t n)
       else map_of (lt_constraints (start_table shown t lo)) n)
    \<and> (n \<notin> so_name ` set (constraint_ops t lo) \<longrightarrow>
         map_of (lt_indexes (constraints_done shown t lo)) n = map_of (lt_indexes (indexes_done shown t lo)) n)
    \<and> lt_columns (constraints_done shown t lo) = lt_columns (defaults_done shown t lo)"
proof -
  have n: "names_accepted t" using assms by (simp add: syncable_def)
  have "so_kind op = ''add-constraint'' \<and> find_constraint t (so_name op) \<noteq> None" if op: "op \<in> set (constraint_ops t lo)" for op
  proof -
    have "so_name op \<in> so_name ` set (constraint_ops t lo)" using op by (rule imageI)
    then obtain k where "k \<in> set (dt_constraints t)" "so_name op = dk_name k"
      unfolding constraint_ops_names planned_constraints_def by auto
    with find_constraint_own [OF n] plan_ops_own_table(5) [OF op] show ?thesis by simp
  qed
  note phase = constraints_phase [where ops = "constraint_ops t lo" and t = t and shown = shown and n = n and l = "indexes_done shown t lo",
    OF this, folded constraints_done_def]
  have tables: "lt_columns (indexes_done shown t lo) = lt_columns (defaults_done shown t lo)"
    "lt_constraints (indexes_done shown t lo) = lt_constraints (start_table shown t lo)"
    using indexes_done_lookup [OF assms, THEN conjunct2] by simp_all
  show ?thesis using phase unfolding tables by blast
qed

lemma index_constraint_names:
  assumes "names_accepted t" "i \<in> set (dt_indexes t)"
  shows "di_name i \<notin> so_name ` set (constraint_ops t lo)"
proof -
  have "di_name i \<notin> dk_name ` set (dt_constraints t)" using assms by (auto simp: names_accepted_def)
  then show ?thesis unfolding constraint_ops_names planned_constraints_def by auto
qed

lemma indexes_settle:
  assumes "syncable shown t lo" "i \<in> set (planned_indexes t lo)"
  shows "\<exists>d. map_of (lt_indexes (constraints_done shown t lo)) (di_name i) = Some d \<and> index_definition_matches d (dt_name t) i"
proof -
  have n: "names_accepted t" and i: "i \<in> set (dt_indexes t)"
    using assms by (simp_all add: syncable_def planned_indexes_def)
  have same: "map_of (lt_indexes (constraints_done shown t lo)) (di_name i) = map_of (lt_indexes (indexes_done shown t lo)) (di_name i)"
    using constraints_done_lookup [OF assms(1)] index_constraint_names [OF n i] by blast
  let ?kvs = "map (\<lambda>i. (di_name i, shown (create_index_sql t i))) (missing_indexes t lo)"
  have di: "distinct (map di_name (dt_indexes t))" using n by (simp add: names_accepted_def)
  show ?thesis
  proof (cases "live_index_of lo (di_name i)")
    case None
    have "distinct (map fst ?kvs)" using di unfolding missing_indexes_def planned_indexes_def by (simp add: comp_def distinct_map_filter_imp)
    moreover have "(di_name i, shown (create_index_sql t i)) \<in> set ?kvs" using assms(2) None by (simp add: missing_indexes_def)
    ultimately have "map_of ?kvs (di_name i) = Some (shown (create_index_sql t i))" by (rule map_of_is_SomeI)
    moreover have "index_definition_matches (shown (create_index_sql t i)) (dt_name t) i"
      using assms(1) i unfolding syncable_def shows_definitions_def create_index_sql_def list_all_iff by blast
    ultimately show ?thesis using same indexes_done_lookup [OF assms(1), of "di_name i"] by simp
  next
    case (Some d)
    then obtain l where l: "lo = Some l" "map_of (lt_indexes l) (di_name i) = Some d"
      by (auto simp: live_index_of_def split: option.splits)
    have "di_name j \<noteq> di_name i" if "j \<in> set (missing_indexes t lo)" for j
      using that Some by (auto simp: missing_indexes_def)
    then have "map_of ?kvs (di_name i) = None" by (force simp: map_of_eq_None_iff)
    moreover have "index_diags t lo = []" using assms(1) by (simp add: syncable_def table_diags_def)
    then have "index_definition_matches d (dt_name t) i"
      using assms(2) Some by (fastforce simp: index_diags_def split: if_splits)
    ultimately show ?thesis using same indexes_done_lookup [OF assms(1), of "di_name i"] l by (simp add: start_table_def)
  qed
qed

lemma constraints_settle:
  assumes "syncable shown t lo" "k \<in> set (planned_constraints t lo)"
  shows "\<exists>d. map_of (lt_constraints (constraints_done shown t lo)) (dk_name k) = Some (dk_type k, d) \<and> constraint_definition_matches d k"
proof -
  have n: "names_accepted t" and k: "k \<in> set (dt_constraints t)" "\<not> is_unsupported k" "columns_available (dk_columns k) (available_columns t lo)"
    using assms by (simp_all add: syncable_def planned_constraints_def)
  have "constraint_diags t lo = []" using assms(1) by (simp add: syncable_def table_diags_def)
  then have ok: "constraint_diags_of t lo k = []" using k(1) by (simp add: constraint_diags_def)
  note look = constraints_done_lookup [OF assms(1), of "dk_name k"]
  show ?thesis
  proof (cases "live_constraint_of lo (dk_name k)")
    case None
    with ok k have "\<not> constraint_blocked lo k" by (auto simp: constraint_diags_of_def split: prod.splits if_splits)
    with None assms(2) have "dk_name k \<in> so_name ` set (constraint_ops t lo)" unfolding constraint_ops_names by blast
    moreover have "constraint_definition_matches (shown (dk_definition k)) k"
      using assms(1) k(1) unfolding syncable_def shows_definitions_def list_all_iff by blast
    ultimately show ?thesis using look find_constraint_own [OF n k(1)] by simp
  next
    case (Some td)
    obtain ty d where td: "td = (ty, d)" by (cases td)
    then obtain l where l: "lo = Some l" "map_of (lt_constraints l) (dk_name k) = Some (ty, d)"
      using Some by (auto simp: live_constraint_of_def split: option.splits)
    have m: "ty = dk_type k" "constraint_definition_matches d k"
      using ok k Some td by (auto simp: constraint_diags_of_def split: if_splits)
    have "dk_name k \<notin> so_name ` set (constraint_ops t lo)" using Some unfolding constraint_ops_names by auto
    then show ?thesis using look l m by (simp add: start_table_def)
  qed
qed

section \<open>Nothing unexpected is left\<close>

lemma no_extra_objects:
  assumes "syncable shown t (Some l)"
  shows "extra_constraints t l = []" "extra_indexes t l = []"
  using assms by (simp_all add: syncable_def table_diags_def extra_object_diags_def)

lemma constraint_names_left:
  assumes "syncable shown t lo" "map_of (lt_constraints (constraints_done shown t lo)) n = Some (ty, d)" "n \<notin> set (map dk_name (dt_constraints t))"
  shows "ty = ''primary-key'' \<or> ty = ''not-null''"
proof -
  have "n \<notin> so_name ` set (constraint_ops t lo)"
    using assms(3) unfolding constraint_ops_names planned_constraints_def by auto
  then have start: "map_of (lt_constraints (start_table shown t lo)) n = Some (ty, d)"
    using constraints_done_lookup [OF assms(1), of n] assms(2) by simp
  show ?thesis
  proof (cases lo)
    case None
    with start show ?thesis by (simp add: start_table_def new_live_table_def Let_def split: if_splits)
  next
    case (Some l)
    then have l: "map_of (lt_constraints l) n = Some (ty, d)" using start by (simp add: start_table_def)
    then have "n \<in> set (sorted_names (lt_constraints l))" by (force simp: image_iff dest: map_of_SomeD)
    with no_extra_objects(1) [of shown t l] assms(1,3) Some l show ?thesis
      unfolding extra_constraints_def filter_empty_conv by fastforce
  qed
qed

lemma start_constraint_kept:
  assumes "syncable shown t lo" "map_of (lt_constraints (start_table shown t lo)) n \<noteq> None"
  shows "map_of (lt_constraints (constraints_done shown t lo)) n \<noteq> None"
proof (cases "n \<in> so_name ` set (constraint_ops t lo)")
  case True
  then obtain k where "k \<in> set (dt_constraints t)" "n = dk_name k" unfolding constraint_ops_names planned_constraints_def by auto
  with True constraints_done_lookup [OF assms(1), of n] find_constraint_own [of t k] assms(1) show ?thesis
    by (simp add: syncable_def)
qed (use assms(2) constraints_done_lookup [OF assms(1), of n] in simp)

lemma index_names_left:
  assumes "syncable shown t lo" "map_of (lt_indexes (constraints_done shown t lo)) n \<noteq> None" "n \<notin> set (map di_name (dt_indexes t))"
  shows "map_of (lt_constraints (constraints_done shown t lo)) n \<noteq> None"
proof (cases "n \<in> so_name ` set (constraint_ops t lo)")
  case True
  then obtain k where "k \<in> set (dt_constraints t)" "n = dk_name k" unfolding constraint_ops_names planned_constraints_def by auto
  with True constraints_done_lookup [OF assms(1), of n] find_constraint_own [of t k] assms(1) show ?thesis
    by (simp add: syncable_def)
next
  case False
  then have "map_of (lt_indexes (indexes_done shown t lo)) n \<noteq> None"
    using constraints_done_lookup [OF assms(1), of n] assms(2) by simp
  moreover have "map_of (map (\<lambda>i. (di_name i, shown (create_index_sql t i))) (missing_indexes t lo)) n = None"
    using assms(3) by (force simp: map_of_eq_None_iff missing_indexes_def planned_indexes_def)
  ultimately have start: "map_of (lt_indexes (start_table shown t lo)) n \<noteq> None"
    using indexes_done_lookup [OF assms(1), of n] by simp
  have "map_of (lt_constraints (start_table shown t lo)) n \<noteq> None"
  proof (cases lo)
    case None
    with start show ?thesis by (simp add: start_table_def new_live_table_def Let_def split: if_splits)
  next
    case (Some l)
    then have "n \<in> set (sorted_names (lt_indexes l))" using start by (simp add: start_table_def map_of_eq_None_iff)
    with no_extra_objects(2) [of shown t l] assms(1,3) Some show ?thesis
      unfolding extra_indexes_def filter_empty_conv live_index_backs_constraint_def by (simp add: start_table_def) blast
  qed
  then show ?thesis by (rule start_constraint_kept [OF assms(1)])
qed

lemma sync_settles_table:
  assumes "syncable shown t lo"
  shows "settled t (constraints_done shown t lo)"
proof -
  let ?l = "constraints_done shown t lo"
  have cols: "lt_columns ?l = lt_columns (defaults_done shown t lo)" using constraints_done_lookup [OF assms] by blast
  have "constraint_diags t lo = []" using assms by (simp add: syncable_def table_diags_def)
  then have supported: "\<not> is_unsupported k" if "k \<in> set (dt_constraints t)" for k
    using that by (fastforce simp: constraint_diags_def constraint_diags_of_def split: if_splits)
  have columns: "\<exists>lc. map_of (lt_columns ?l) (dc_name c) = Some lc \<and> compare_column (dt_name t) c lc = []
      \<and> (c \<in> set (dt_columns t) \<longrightarrow> column_default_matches c lc)" if "c \<in> set (dt_system_columns t @ dt_columns t)" for c
    using defaults_settle [OF assms that] by (simp add: cols)
  have "extra_columns t ?l = []"
    using defaults_done_names [OF assms] by (auto simp: extra_columns_def filter_empty_conv cols map_of_eq_None_iff)
  moreover have "extra_constraints t ?l = []"
    using constraint_names_left [OF assms] by (fastforce simp: extra_constraints_def filter_empty_conv map_of_eq_None_iff split: option.splits)
  moreover have "extra_indexes t ?l = []"
    using index_names_left [OF assms] by (auto simp: extra_indexes_def filter_empty_conv live_index_backs_constraint_def map_of_eq_None_iff)
  ultimately show ?thesis
    unfolding settled_def
    using columns supported indexes_settle [OF assms planned_subset(1) [OF assms]] constraints_settle [OF assms planned_subset(2) [OF assms]]
    by (intro conjI ballI allI impI) (blast, force, blast+)
qed

section \<open>The whole schema\<close>

definition sync_accepted :: "(string \<Rightarrow> string) \<Rightarrow> desired_table list \<Rightarrow> bool" where
  "sync_accepted shown ts \<longleftrightarrow> list_all (\<lambda>t. names_accepted t \<and> shows_definitions shown t) ts"

lemma over_tables_Nil: "over_tables f ts live = [] \<longleftrightarrow> (\<forall>t\<in>set ts. f t (map_of live (dt_name t)) = [])"
  by (auto simp: over_tables_def)

lemma plan_empty:
  assumes "\<And>t. t \<in> set ts \<Longrightarrow> \<exists>l. map_of live (dt_name t) = Some l \<and> settled t l"
    and "fst ` set live \<subseteq> dt_name ` set ts"
  shows "sp_operations (plan_for_schema es ts live) = [] \<and> sp_diagnostics (plan_for_schema es ts live) = []"
proof -
  have "local_ops t (map_of live (dt_name t)) = [] \<and> table_diags t (map_of live (dt_name t)) = []" if "t \<in> set ts" for t
    using assms(1) [OF that] settled_ops settled_diags by force
  then have "over_tables create_ops ts live = []" "over_tables (\<lambda>t lo. system_column_ops t lo @ column_ops t lo) ts live = []"
    "over_tables default_ops ts live = []" "over_tables index_ops ts live = []" "over_tables constraint_ops ts live = []"
    "over_tables table_diags ts live = []"
    by (simp_all add: over_tables_Nil local_ops_def)
  moreover have "extra_table_diags ts live = []"
    using assms(2) by (auto simp: extra_table_diags_def extra_tables_def filter_empty_conv)
  ultimately show ?thesis by (simp add: plan_for_schema_def)
qed


section \<open>Samples\<close>

definition sample_entity_of :: "string \<Rightarrow> string \<Rightarrow> field list \<Rightarrow> index list \<Rightarrow> loaded_entity" where
  "sample_entity_of app name fs ixs = \<lparr>le_app = app, le_dir = [], le_path = name, le_entity =
     \<lparr>en_line = 0, en_name = name, en_label = name, en_description = [], en_icon = [], en_is_single = False, en_is_system = False,
      en_is_collection = False, en_is_private = False, en_private_owner_field = [], en_route = \<lparr>rt_line = 0, rt_slug = []\<rparr>,
      en_naming = no_naming, en_tree = None, en_fields = fs, en_tabs = [], en_form = None, en_indexes = ixs, en_constraints = []\<rparr>\<rparr>"

definition sample_field_of :: "string \<Rightarrow> string \<Rightarrow> field" where
  "sample_field_of name ty = \<lparr>fd_line = 0, fd_name = name, fd_label = name, fd_type = ty, fd_description = [], fd_required = True,
     fd_unique = False, fd_index = True, fd_default = NoNode, fd_check = None, fd_fetch = None, fd_options = no_field_options\<rparr>"

definition sample_schema_entities :: "loaded_entity list" where
  "sample_schema_entities =
     [sample_entity_of ''crm'' ''customer'' [sample_field_of ''title'' ''text''] [],
      sample_entity_of ''crm'' ''task''
        [(sample_field_of ''customer'' ''link'')\<lparr>fd_options := no_field_options\<lparr>fo_entity := ''customer''\<rparr>\<rparr>,
         (sample_field_of ''status'' ''select'')\<lparr>fd_options := no_field_options\<lparr>fo_values := [''open'', ''done'']\<rparr>,
            fd_default := Scalar ''!!str'' ''open''\<rparr>]
        [\<lparr>ix_line = 0, ix_name = [], ix_fields = [''customer'', ''status'']\<rparr>]]"

definition sample_desired :: "desired_table list" where
  "sample_desired = (case build_desired_schema sample_schema_entities of Inr ts \<Rightarrow> ts | Inl _ \<Rightarrow> [])"

definition sample_first_plan :: schema_plan where
  "sample_first_plan = plan_for_schema sample_schema_entities sample_desired []"

lemma sample_desired_built: "build_desired_schema sample_schema_entities = Inr sample_desired"
  by code_simp

lemma sample_accepted: "sync_accepted (\<lambda>d. d) sample_desired"
  by code_simp


text \<open>Two fields of one Entity with one column: the plan adds the column twice.\<close>

lemma two_fields_one_column:
  "build_desired_schema [sample_entity_of ''crm'' ''customer'' [sample_field_of ''parent-id'' ''bigint'',
      (sample_field_of ''parent'' ''link'')\<lparr>fd_index := False, fd_options := no_field_options\<lparr>fo_entity := ''customer''\<rparr>\<rparr>] []] = Inr ts
   \<Longrightarrow> map dc_name (dt_columns (hd ts)) = [''parent_id'', ''parent_id'']"
proof -
  have "map_option (\<lambda>ts. map dc_name (dt_columns (hd ts))) (case build_desired_schema [sample_entity_of ''crm'' ''customer''
      [sample_field_of ''parent-id'' ''bigint'', (sample_field_of ''parent'' ''link'')
        \<lparr>fd_index := False, fd_options := no_field_options\<lparr>fo_entity := ''customer''\<rparr>\<rparr>] []] of Inr ts \<Rightarrow> Some ts | Inl _ \<Rightarrow> None)
      = Some [''parent_id'', ''parent_id'']" by code_simp
  then show "build_desired_schema [sample_entity_of ''crm'' ''customer'' [sample_field_of ''parent-id'' ''bigint'',
      (sample_field_of ''parent'' ''link'')\<lparr>fd_index := False, fd_options := no_field_options\<lparr>fo_entity := ''customer''\<rparr>\<rparr>] []] = Inr ts
   \<Longrightarrow> map dc_name (dt_columns (hd ts)) = [''parent_id'', ''parent_id'']" by simp
qed

text \<open>Index names do not contain the App: the same index of Entities of the same name in two Apps is one name.\<close>

lemma index_names_collide_across_apps:
  "map (map di_name \<circ> dt_indexes) (case build_desired_schema
      [sample_entity_of ''crm'' ''task'' [(sample_field_of ''title'' ''text'')\<lparr>fd_index := False\<rparr>] [\<lparr>ix_line = 0, ix_name = [], ix_fields = [''title'']\<rparr>],
       sample_entity_of ''ops'' ''task'' [(sample_field_of ''title'' ''text'')\<lparr>fd_index := False\<rparr>] [\<lparr>ix_line = 0, ix_name = [], ix_fields = [''title'']\<rparr>]]
      of Inr ts \<Rightarrow> ts | Inl _ \<Rightarrow> []) = [[''task_title_idx''], [''task_title_idx'']]"
  by code_simp

end
