(* ===== verification/Go_Decode.thy ===== *)
theory Go_Decode
  imports Go_Json Go_Time "HOL-Library.AList"
begin

text \<open>
  Decoding with the standard library: \<^verbatim>\<open>json.Unmarshal\<close> and \<^verbatim>\<open>json.Decoder\<close> as far as
  record values use them, the texts \<^verbatim>\<open>strconv.ParseFloat\<close> accepts and the layouts
  \<^verbatim>\<open>time.Parse\<close> is called with.  Numbers keep their text, as with \<^verbatim>\<open>UseNumber\<close>; texts are
  valid UTF-8.
\<close>

section \<open>JSON values\<close>

datatype json =
    JNull
  | JBool bool
  | JNumber string
  | JString string
  | JArray "json list"
  | JObject "(string \<times> json) list"

definition hex_val :: "char \<Rightarrow> nat" where
  "hex_val c = (if is_digit c then byte c - 48 else if byte c \<ge> 97 then byte c - 87 else byte c - 55)"

definition hex4 :: "char \<Rightarrow> char \<Rightarrow> char \<Rightarrow> char \<Rightarrow> nat" where
  "hex4 a b c d = 4096 * hex_val a + 256 * hex_val b + 16 * hex_val c + hex_val d"

definition utf8 :: "nat \<Rightarrow> string" where
  "utf8 n = map char_of
     (if n < 128 then [n]
      else if n < 2048 then [192 + n div 64, 128 + n mod 64]
      else if n < 65536 then [224 + n div 4096, 128 + n div 64 mod 64, 128 + n mod 64]
      else [240 + n div 262144, 128 + n div 4096 mod 64, 128 + n div 64 mod 64, 128 + n mod 64])"

definition replacement_rune :: nat where
  "replacement_rune = 65533"

definition high_surrogate :: "nat \<Rightarrow> bool" where
  "high_surrogate n \<longleftrightarrow> 55296 \<le> n \<and> n < 56320"

definition low_surrogate :: "nat \<Rightarrow> bool" where
  "low_surrogate n \<longleftrightarrow> 56320 \<le> n \<and> n < 57344"

definition simple_escape :: "char \<Rightarrow> string" where
  "simple_escape e =
     (if e = CHR ''b'' then [CHR 0x08] else if e = CHR ''f'' then [CHR 0x0C] else if e = CHR ''n'' then [CHR 0x0A]
      else if e = CHR ''r'' then [CHR 0x0D] else if e = CHR ''t'' then [CHR 0x09] else [e])"

text \<open>The bytes of a literal the scanner has accepted, up to its closing quote.\<close>

fun json_unquote :: "string \<Rightarrow> string" where
  "json_unquote [] = []"
| "json_unquote (c # cs) =
     (if c = CHR 0x22 then []
      else if c \<noteq> CHR 0x5C then c # json_unquote cs
      else case cs of [] \<Rightarrow> []
      | e # es \<Rightarrow>
          if e \<noteq> CHR ''u'' then simple_escape e @ json_unquote es
          else case es of a # b # c' # d # rest \<Rightarrow>
              let n = hex4 a b c' d in
              if high_surrogate n then
                (case rest of s # u # a2 # b2 # c2 # d2 # rest2 \<Rightarrow>
                   if s = CHR 0x5C \<and> u = CHR ''u'' \<and> low_surrogate (hex4 a2 b2 c2 d2)
                   then utf8 (65536 + 1024 * (n - 55296) + (hex4 a2 b2 c2 d2 - 56320)) @ json_unquote rest2
                   else utf8 replacement_rune @ json_unquote rest
                 | _ \<Rightarrow> utf8 replacement_rune @ json_unquote rest)
              else utf8 (if low_surrogate n then replacement_rune else n) @ json_unquote rest
            | _ \<Rightarrow> [])"

definition consumed :: "string \<Rightarrow> string \<Rightarrow> string" where
  "consumed s t = take (length s - length t) s"

text \<open>The value at the start of a text, with the rest of it.\<close>

fun json_read :: "nat \<Rightarrow> string \<Rightarrow> (json \<times> string) option"
  and json_read_members :: "nat \<Rightarrow> string \<Rightarrow> ((string \<times> json) list \<times> string) option"
  and json_read_elements :: "nat \<Rightarrow> string \<Rightarrow> (json list \<times> string) option" where
  "json_read 0 s = None"
| "json_read (Suc k) s =
     (case skip_ws s of [] \<Rightarrow> None
      | c # cs \<Rightarrow>
        if c = CHR ''{'' then
          (case skip_ws cs of d # ds \<Rightarrow> if d = CHR ''}'' then Some (JObject [], ds)
             else map_option (\<lambda>(ms, t). (JObject ms, t)) (json_read_members k (d # ds)) | [] \<Rightarrow> None)
        else if c = CHR ''['' then
          (case skip_ws cs of d # ds \<Rightarrow> if d = CHR '']'' then Some (JArray [], ds)
             else map_option (\<lambda>(vs, t). (JArray vs, t)) (json_read_elements k (d # ds)) | [] \<Rightarrow> None)
        else if c = CHR 0x22 then map_option (\<lambda>t. (JString (json_unquote cs), t)) (json_string cs)
        else if c = CHR ''t'' then map_option (\<lambda>t. (JBool True, t)) (eat_literal ''true'' (c # cs))
        else if c = CHR ''f'' then map_option (\<lambda>t. (JBool False, t)) (eat_literal ''false'' (c # cs))
        else if c = CHR ''n'' then map_option (\<lambda>t. (JNull, t)) (eat_literal ''null'' (c # cs))
        else map_option (\<lambda>t. (JNumber (consumed (c # cs) t), t)) (json_number (c # cs)))"
| "json_read_members 0 s = None"
| "json_read_members (Suc k) s =
     (case skip_ws s of [] \<Rightarrow> None
      | c # cs \<Rightarrow>
        if c \<noteq> CHR 0x22 then None
        else case Option.bind (json_string cs) (\<lambda>t. eat_literal '':'' (skip_ws t)) of None \<Rightarrow> None
          | Some t \<Rightarrow> (case json_read k t of None \<Rightarrow> None
            | Some (v, u) \<Rightarrow> (case skip_ws u of d # ds \<Rightarrow>
                if d = CHR '','' then map_option (\<lambda>(ms, w). ((json_unquote cs, v) # ms, w)) (json_read_members k ds)
                else if d = CHR ''}'' then Some ([(json_unquote cs, v)], ds) else None
              | [] \<Rightarrow> None)))"
| "json_read_elements 0 s = None"
| "json_read_elements (Suc k) s =
     (case json_read k s of None \<Rightarrow> None
      | Some (v, u) \<Rightarrow> (case skip_ws u of d # ds \<Rightarrow>
          if d = CHR '','' then map_option (\<lambda>(vs, w). (v # vs, w)) (json_read_elements k ds)
          else if d = CHR '']'' then Some ([v], ds) else None
        | [] \<Rightarrow> None))"

text \<open>\<^verbatim>\<open>json.Unmarshal\<close> checks the whole text first; a \<^verbatim>\<open>Decoder\<close> reads one value and leaves
  the rest unread, whatever it is.\<close>

definition unmarshal :: "string \<Rightarrow> json option" where
  "unmarshal s = (if json_valid s then map_option fst (json_read (2 * length s + 2) s) else None)"

definition decode_first :: "string \<Rightarrow> json option" where
  "decode_first s = map_option fst (json_read (2 * length s + 2) s)"

text \<open>Decoding into a Go string or bool: \<^verbatim>\<open>null\<close> leaves the zero value.\<close>

definition unmarshal_string :: "string \<Rightarrow> string option" where
  "unmarshal_string s = (case unmarshal s of Some (JString t) \<Rightarrow> Some t | Some JNull \<Rightarrow> Some [] | _ \<Rightarrow> None)"

definition unmarshal_bool :: "string \<Rightarrow> bool option" where
  "unmarshal_bool s = (case unmarshal s of Some (JBool b) \<Rightarrow> Some b | Some JNull \<Rightarrow> Some False | _ \<Rightarrow> None)"

text \<open>\<^verbatim>\<open>json.Marshal\<close> of a string: quotes, backslashes, control and HTML characters are escaped.\<close>

definition hex_digit :: "nat \<Rightarrow> char" where
  "hex_digit n = char_of (if n < 10 then 48 + n else 87 + n)"

definition quote_char :: "char \<Rightarrow> string" where
  "quote_char c =
     (if c = CHR 0x22 \<or> c = CHR 0x5C then [CHR 0x5C, c]
      else if c = CHR 0x0A then [CHR 0x5C, CHR ''n''] else if c = CHR 0x0D then [CHR 0x5C, CHR ''r'']
      else if c = CHR 0x09 then [CHR 0x5C, CHR ''t''] else if c = CHR 0x08 then [CHR 0x5C, CHR ''b'']
      else if c = CHR 0x0C then [CHR 0x5C, CHR ''f'']
      else if byte c < 32 \<or> c \<in> {CHR ''<'', CHR ''>'', CHR ''&''}
      then [CHR 0x5C, CHR ''u'', CHR ''0'', CHR ''0'', hex_digit (byte c div 16), hex_digit (byte c mod 16)]
      else [c])"

definition marshal_string :: "string \<Rightarrow> string" where
  "marshal_string s = CHR 0x22 # concat (map quote_char s) @ [CHR 0x22]"

section \<open>Numbers\<close>

definition float_digit :: "bool \<Rightarrow> char \<Rightarrow> bool" where
  "float_digit hex c \<longleftrightarrow> is_digit c \<or> hex \<and> is_hex c"

text \<open>Mantissa digits before and after the point; underscores are skipped and checked afterwards.\<close>

fun float_mantissa :: "bool \<Rightarrow> bool \<Rightarrow> string \<Rightarrow> string \<Rightarrow> string \<Rightarrow> string \<times> string \<times> string" where
  "float_mantissa hex dot ip fp [] = (ip, fp, [])"
| "float_mantissa hex dot ip fp (c # cs) =
     (if c = CHR ''_'' then float_mantissa hex dot ip fp cs
      else if c = CHR ''.'' \<and> \<not> dot then float_mantissa hex True ip fp cs
      else if float_digit hex c then
        (if dot then float_mantissa hex dot ip (fp @ [c]) cs else float_mantissa hex dot (ip @ [c]) fp cs)
      else (ip, fp, c # cs))"

fun underscores_ok :: "bool \<Rightarrow> bool \<Rightarrow> bool \<Rightarrow> string \<Rightarrow> bool" where
  "underscores_ok hex after_digit after_under [] = (\<not> after_under)"
| "underscores_ok hex after_digit after_under (c # cs) =
     (if float_digit hex c then underscores_ok hex True False cs
      else if c = CHR ''_'' then after_digit \<and> underscores_ok hex False True cs
      else \<not> after_under \<and> underscores_ok hex False False cs)"

definition digits_value :: "int \<Rightarrow> string \<Rightarrow> int" where
  "digits_value base s = foldl (\<lambda>n c. base * n + int (hex_val c)) 0 s"

definition float_limit :: int where
  "float_limit = 2 ^ 1024 - 2 ^ 970"

lemma float_limit_code [code]:
  "float_limit =
     179769313486231580793728971405303415079934132710037826936173778980444968292764750946649017977587207096330286416692887910946555547851940402630657488671505820681908902000708383676273854845817711531764475730270069855571366959622842914819860834936475292719074168444365510704342711559699508093042880177904174497792"
  by (simp add: float_limit_def)

definition scaled_below :: "int \<Rightarrow> int \<Rightarrow> int \<Rightarrow> bool" where
  "scaled_below base m e \<longleftrightarrow>
     (if m = 0 then True
      else if e \<ge> 0 then m * base ^ nat e < float_limit else m < float_limit * base ^ nat (- e))"

text \<open>The exponent, capped as the source of \<^verbatim>\<open>strconv\<close> caps it.\<close>

definition float_exponent :: "string \<Rightarrow> int option" where
  "float_exponent s =
     (let (sign, ds) = (case s of c # cs \<Rightarrow> if c = CHR ''-'' then (-1, cs) else if c = CHR ''+'' then (1, cs) else (1, s) | [] \<Rightarrow> (1, []))
      in if ds = [] \<or> \<not> is_digit (hd ds) \<or> \<not> list_all (\<lambda>c. is_digit c \<or> c = CHR ''_'') ds then None
         else Some (sign * min 100000 (int (read_digits (filter is_digit ds)))))"

definition float_special :: "string \<Rightarrow> bool" where
  "float_special s \<longleftrightarrow> to_lower s \<in> {''inf'', ''infinity'', ''nan'', ''+inf'', ''+infinity'', ''-inf'', ''-infinity''}"

definition float_body :: "string \<Rightarrow> bool" where
  "float_body s =
     (let hex = length s > 2 \<and> hd s = CHR ''0'' \<and> lower_char (s ! 1) = CHR ''x'';
          digits = (if hex then drop 2 s else s);
          (ip, fp, rest) = float_mantissa hex False [] [] digits
      in ip @ fp \<noteq> [] \<and> underscores_ok hex hex False digits \<and>
         (case rest of [] \<Rightarrow> \<not> hex \<and> scaled_below 10 (digits_value 10 (ip @ fp)) (- int (length fp))
          | c # cs \<Rightarrow> lower_char c = (if hex then CHR ''p'' else CHR ''e'') \<and>
             (case float_exponent cs of None \<Rightarrow> False
              | Some e \<Rightarrow> if hex then scaled_below 2 (digits_value 16 (ip @ fp)) (e - 4 * int (length fp))
                  else scaled_below 10 (digits_value 10 (ip @ fp)) (e - int (length fp)))))"

text \<open>\<^verbatim>\<open>strconv.ParseFloat(s, 64)\<close> returns no error.\<close>

definition parse_float_ok :: "string \<Rightarrow> bool" where
  "parse_float_ok s \<longleftrightarrow> float_special s \<or>
     float_body (case s of c # cs \<Rightarrow> if c = CHR ''+'' \<or> c = CHR ''-'' then cs else s | [] \<Rightarrow> [])"

section \<open>Dates and times\<close>

definition two_digits :: "string \<Rightarrow> (nat \<times> string) option" where
  "two_digits s = (case s of a # b # r \<Rightarrow> if is_digit a \<and> is_digit b then Some (10 * digit_val a + digit_val b, r) else None | _ \<Rightarrow> None)"

definition one_or_two_digits :: "string \<Rightarrow> (nat \<times> string) option" where
  "one_or_two_digits s = (case two_digits s of Some x \<Rightarrow> Some x
     | None \<Rightarrow> (case s of a # r \<Rightarrow> if is_digit a then Some (digit_val a, r) else None | [] \<Rightarrow> None))"

definition days_in_month :: "nat \<Rightarrow> nat \<Rightarrow> nat" where
  "days_in_month y m =
     (if m = 2 then (if y mod 4 = 0 \<and> (y mod 100 \<noteq> 0 \<or> y mod 400 = 0) then 29 else 28)
      else if m \<in> {4, 6, 9, 11} then 30 else 31)"

text \<open>Layout \<^verbatim>\<open>2006-01-02\<close>, leaving the rest.\<close>

definition read_date :: "string \<Rightarrow> string option" where
  "read_date s =
     (if length s < 4 \<or> \<not> list_all is_digit (take 4 s) then None
      else Option.bind (eat_literal ''-'' (drop 4 s)) (\<lambda>r. Option.bind (two_digits r) (\<lambda>(m, r).
        Option.bind (eat_literal ''-'' r) (\<lambda>r. Option.bind (two_digits r) (\<lambda>(d, r).
          if 1 \<le> m \<and> m \<le> 12 \<and> 1 \<le> d \<and> d \<le> days_in_month (read_digits (take 4 s)) m then Some r else None)))))"

text \<open>Layout \<^verbatim>\<open>15:04:05\<close>: the hour may have one digit, and a fraction may follow the seconds.\<close>

definition skip_fraction :: "string \<Rightarrow> string" where
  "skip_fraction s = (case s of c # d # r \<Rightarrow>
     if (c = CHR ''.'' \<or> c = CHR '','') \<and> is_digit d then dropWhile is_digit (d # r) else s | _ \<Rightarrow> s)"

definition read_clock :: "string \<Rightarrow> string option" where
  "read_clock s =
     Option.bind (one_or_two_digits s) (\<lambda>(h, r). Option.bind (eat_literal '':'' r) (\<lambda>r.
     Option.bind (two_digits r) (\<lambda>(m, r). Option.bind (eat_literal '':'' r) (\<lambda>r.
     Option.bind (two_digits r) (\<lambda>(x, r). if h < 24 \<and> m < 60 \<and> x < 60 then Some (skip_fraction r) else None)))))"

definition read_zone :: "string \<Rightarrow> string option" where
  "read_zone s =
     (case s of [] \<Rightarrow> None
      | c # r \<Rightarrow>
          if c = CHR ''Z'' then Some r
          else if c \<noteq> CHR ''+'' \<and> c \<noteq> CHR ''-'' then None
          else Option.bind (two_digits r) (\<lambda>(h, r). Option.bind (eat_literal '':'' r) (\<lambda>r.
            Option.bind (two_digits r) (\<lambda>(m, r). if h \<le> 24 \<and> m \<le> 60 then Some r else None))))"

definition parse_date_ok :: "string \<Rightarrow> bool" where
  "parse_date_ok s \<longleftrightarrow> read_date s = Some []"

definition parse_time_ok :: "string \<Rightarrow> bool" where
  "parse_time_ok s \<longleftrightarrow> read_clock s = Some []"

definition parse_datetime_ok :: "string \<Rightarrow> bool" where
  "parse_datetime_ok s \<longleftrightarrow>
     Option.bind (read_date s) (\<lambda>r. Option.bind (eat_literal ''T'' r) (\<lambda>r. Option.bind (read_clock r) read_zone)) = Some []"

lemma parse_samples:
  "parse_date_ok ''2024-02-29'' \<and> \<not> parse_date_ok ''2023-02-29''"
  "parse_time_ok ''9:05:00.25'' \<and> \<not> parse_time_ok ''24:00:00''"
  "parse_datetime_ok ''2024-01-01T10:00:00Z'' \<and> parse_datetime_ok ''2024-01-01T10:00:00+05:30'' \<and> \<not> parse_datetime_ok ''2024-01-01 10:00:00Z''"
  "parse_float_ok ''-12.5e3'' \<and> parse_float_ok ''0x1p4'' \<and> parse_float_ok ''Inf'' \<and> \<not> parse_float_ok ''12a''"
  by code_simp+

lemma decode_first_ignores_rest: "decode_first ''12abc'' = Some (JNumber ''12'') \<and> unmarshal ''12abc'' = None"
  by code_simp


text \<open>
  Decoding one level only: an array of objects whose members stay raw, as
  \<^verbatim>\<open>json.Unmarshal\<close> into \<^verbatim>\<open>[]map[string]json.RawMessage\<close> does.  A raw member is the text of
  the value without the white space around it.  Every step consumes a byte, so the length of the
  text is fuel enough.
\<close>

section \<open>Raw values\<close>

definition raw_value :: "string \<Rightarrow> (string \<times> string) option" where
  "raw_value s =
     (let t = skip_ws s in map_option (\<lambda>u. (consumed t u, u)) (json_value (2 * length t + 2) 0 t))"

fun raw_members :: "nat \<Rightarrow> string \<Rightarrow> (string \<times> string) list option" where
  "raw_members 0 s = None"
| "raw_members (Suc k) s =
     (case skip_ws s of [] \<Rightarrow> None
      | c # cs \<Rightarrow>
        if c \<noteq> CHR 0x22 then None
        else case Option.bind (json_string cs) (\<lambda>t. eat_literal '':'' (skip_ws t)) of None \<Rightarrow> None
          | Some t \<Rightarrow> (case raw_value t of None \<Rightarrow> None
            | Some (v, u) \<Rightarrow> (case skip_ws u of d # ds \<Rightarrow>
                if d = CHR '','' then map_option (\<lambda>ms. (json_unquote cs, v) # ms) (raw_members k ds)
                else if d = CHR ''}'' then Some [(json_unquote cs, v)] else None
              | [] \<Rightarrow> None)))"

fun raw_elements :: "nat \<Rightarrow> string \<Rightarrow> string list option" where
  "raw_elements 0 s = None"
| "raw_elements (Suc k) s =
     (case raw_value s of None \<Rightarrow> None
      | Some (v, u) \<Rightarrow> (case skip_ws u of d # ds \<Rightarrow>
          if d = CHR '','' then map_option (\<lambda>vs. v # vs) (raw_elements k ds)
          else if d = CHR '']'' then Some [v] else None
        | [] \<Rightarrow> None))"

definition starts_with :: "char \<Rightarrow> string \<Rightarrow> bool" where
  "starts_with c s \<longleftrightarrow> s \<noteq> [] \<and> hd s = c"

text \<open>A Go map keeps the last value of a key.\<close>

definition go_map :: "(string \<times> string) list \<Rightarrow> (string \<times> string) list" where
  "go_map ms = foldl (\<lambda>m (k, v). AList.update k v m) [] ms"

definition raw_object :: "string \<Rightarrow> (string \<times> string) list option" where
  "raw_object s =
     (let t = skip_ws s in
      if \<not> starts_with (CHR ''{'') t then None
      else if starts_with (CHR ''}'') (skip_ws (tl t)) then Some []
      else map_option go_map (raw_members (length t) (tl t)))"

definition raw_array :: "string \<Rightarrow> string list option" where
  "raw_array s =
     (let t = skip_ws s in
      if \<not> starts_with (CHR ''['') t then None
      else if starts_with (CHR '']'') (skip_ws (tl t)) then Some []
      else raw_elements (length t) (tl t))"

text \<open>A row is \<open>None\<close> for \<^verbatim>\<open>null\<close>, which leaves a nil map; so does \<^verbatim>\<open>null\<close> for the array.\<close>

definition raw_row :: "string \<Rightarrow> (string \<times> string) list option option" where
  "raw_row s = (if s = ''null'' then Some None else map_option Some (raw_object s))"

definition raw_rows :: "string \<Rightarrow> (string \<times> string) list option list option" where
  "raw_rows s =
     (if \<not> json_valid s then None
      else if starts_with (CHR ''n'') (skip_ws s) then Some []
      else Option.bind (raw_array s) (\<lambda>vs. those (map raw_row vs)))"


lemma go_map_distinct: "distinct (map fst (go_map ms))"
proof -
  have "distinct (map fst (foldl (\<lambda>m (k, v). AList.update k v m) m ms))" if "distinct (map fst m)" for m
    using that by (induction ms arbitrary: m) (auto intro: distinct_update)
  then show ?thesis by (simp add: go_map_def)
qed

lemma raw_rows_samples:
  "raw_rows ''[{\"id\": 4, \"qty\":2 , \"qty\":3}, null ,{}]'' = Some [Some [(''id'', ''4''), (''qty'', ''3'')], None, Some []]"
  "raw_rows ''[1]'' = None" "raw_rows ''[]'' = Some []" "raw_rows ''{}'' = None" "raw_rows '' null'' = Some []"
  by code_simp+

end
