(* ===== verification/Record_Layout.thy ===== *)
theory Record_Layout
  imports Storage_Layout Record_Naming Go_Decode
begin

text \<open>
  The layout of the Records of an Entity (\<^verbatim>\<open>recordLayout\<close> in \<^verbatim>\<open>internal/db/records.go\<close>),
  built from its persisted metadata: the columns, the collections it owns, the SELECT list, and the reading of a
  row back into a Record.  The JSON columns of the metadata are given as what they decode to, \<open>None\<close> where they do
  not decode.
\<close>

section \<open>Errors\<close>

text \<open>\<^verbatim>\<open>RecordError\<close>: a stable code, a message and its details.\<close>

datatype record_error = RecordError (rx_code: string) (rx_message: string) (rx_details: "(string \<times> string) list")

definition internal_error :: "string \<Rightarrow> (string \<times> string) list \<Rightarrow> record_error" where
  "internal_error m d = RecordError ''internal_error'' m d"

definition invalid_request :: "string \<Rightarrow> (string \<times> string) list \<Rightarrow> record_error" where
  "invalid_request m d = RecordError ''invalid_request'' m d"

definition validation_error :: "string \<Rightarrow> (string \<times> string) list \<Rightarrow> record_error" where
  "validation_error m d = RecordError ''validation_error'' m d"

definition not_found :: "string \<Rightarrow> (string \<times> string) list \<Rightarrow> record_error" where
  "not_found m d = RecordError ''not_found'' m d"

definition constraint_violation :: "string \<Rightarrow> (string \<times> string) list \<Rightarrow> record_error" where
  "constraint_violation m d = RecordError ''constraint_violation'' m d"

definition permission_denied :: "string \<Rightarrow> (string \<times> string) list \<Rightarrow> record_error" where
  "permission_denied m d = RecordError ''permission_denied'' m d"

section \<open>Metadata and layout\<close>

record field_meta =
  fm_id :: int
  fm_name :: string
  fm_type :: string
  fm_required :: bool
  fm_default :: string
  fm_options :: "field_options option"
  fm_fetch :: "string option"

record entity_head =
  eh_id :: int
  eh_app :: string
  eh_key :: string
  eh_slug :: "string option"
  eh_label :: string
  eh_single :: bool
  eh_system :: bool
  eh_collection :: bool
  eh_private :: bool
  eh_owner_field :: string
  eh_naming :: "naming option"
  eh_tree :: "string option"
  eh_fields :: "field_meta list"

datatype entity_meta = EntityMeta (em_head: entity_head) (em_collections: "(string \<times> entity_meta) list")

record record_field =
  rf_id :: int
  rf_name :: string
  rf_type :: string
  rf_required :: bool
  rf_default :: string
  rf_fetch :: string
  rf_options :: field_options
  rf_column :: string
  rf_storage :: bool
  rf_write_only :: bool
  rf_listable :: bool
  rf_nameable :: bool
  rf_value_kind :: string
  rf_system_name :: bool

record layout_head =
  lh_entity_id :: int
  lh_app :: string
  lh_entity :: string
  lh_slug :: string
  lh_label :: string
  lh_single :: bool
  lh_system :: bool
  lh_collection :: bool
  lh_private :: bool
  lh_owner_field :: string
  lh_table :: string
  lh_naming :: naming
  lh_tree :: "string option"
  lh_fields :: "record_field list"

datatype record_layout = RecordLayout (ly_head: layout_head) (ly_collections: "(string \<times> record_collection) list")
  and record_collection = RecordCollection (cn_field: record_field) (cn_parent_entity: int) (cn_layout: record_layout)

abbreviation ly_table :: "record_layout \<Rightarrow> string" where
  "ly_table l \<equiv> lh_table (ly_head l)"

abbreviation ly_fields :: "record_layout \<Rightarrow> record_field list" where
  "ly_fields l \<equiv> lh_fields (ly_head l)"

abbreviation ly_entity :: "record_layout \<Rightarrow> string" where
  "ly_entity l \<equiv> lh_entity (ly_head l)"

abbreviation ly_naming :: "record_layout \<Rightarrow> naming" where
  "ly_naming l \<equiv> lh_naming (ly_head l)"

text \<open>\<^verbatim>\<open>FieldByName\<close>: the last field of a name.\<close>

definition field_by_name :: "record_layout \<Rightarrow> string \<Rightarrow> record_field option" where
  "field_by_name l n = find (\<lambda>f. rf_name f = n) (rev (ly_fields l))"

definition route_slug_of :: "entity_head \<Rightarrow> string" where
  "route_slug_of h = (case eh_slug h of Some s \<Rightarrow> if s = [] then eh_key h else s | None \<Rightarrow> eh_key h)"

definition parse_record_naming :: "naming option \<Rightarrow> naming" where
  "parse_record_naming n =
     (case n of None \<Rightarrow> default_record_naming
      | Some n \<Rightarrow> default_length (if blank (nm_strategy n) then n\<lparr>nm_strategy := ''random''\<rparr> else n))"

definition name_record_field :: record_field where
  "name_record_field = \<lparr>rf_id = 0, rf_name = ''name'', rf_type = ''text'', rf_required = True, rf_default = [], rf_fetch = [],
     rf_options = no_field_options, rf_column = ''name'', rf_storage = True, rf_write_only = False, rf_listable = True,
     rf_nameable = True, rf_value_kind = ''string'', rf_system_name = True\<rparr>"

definition record_field_of :: "string \<Rightarrow> field_meta \<Rightarrow> record_error + record_field" where
  "record_field_of slug m =
     (case default_definition (fm_type m) of
        None \<Rightarrow> Inl (internal_error ''field type metadata is invalid'' [(''entity'', slug), (''field'', fm_name m), (''type'', fm_type m)])
      | Some d \<Rightarrow> (case fm_options m of
          None \<Rightarrow> Inl (internal_error ''field options metadata is invalid'' [(''entity'', slug), (''field'', fm_name m)])
        | Some opts \<Rightarrow> (case fm_fetch m of
            None \<Rightarrow> Inl (internal_error ''field fetch metadata is invalid'' [(''entity'', slug), (''field'', fm_name m)])
          | Some source \<Rightarrow> let b = ft_behavior d in
              Inr \<lparr>rf_id = fm_id m, rf_name = fm_name m, rf_type = fm_type m, rf_required = fm_required m,
                rf_default = fm_default m, rf_fetch = source, rf_options = opts,
                rf_column = (if bh_stored b then record_column_for_field (fm_name m) (fm_type m) else []),
                rf_storage = bh_stored b, rf_write_only = bh_write_only b, rf_listable = bh_listable b,
                rf_nameable = bh_name_renderable b, rf_value_kind = bh_value_kind b, rf_system_name = False\<rparr>)))"

definition layout_head_of :: "entity_head \<Rightarrow> record_error + layout_head" where
  "layout_head_of h =
     (let slug = route_slug_of h;
          plan = (if eh_collection h then collection_row_naming else parse_record_naming (eh_naming h))
      in bindR (mapR (record_field_of slug) (eh_fields h)) (\<lambda>fields.
           Inr \<lparr>lh_entity_id = eh_id h, lh_app = eh_app h, lh_entity = eh_key h, lh_slug = slug, lh_label = eh_label h,
             lh_single = eh_single h, lh_system = eh_system h, lh_collection = eh_collection h, lh_private = eh_private h,
             lh_owner_field = eh_owner_field h, lh_table = entity_table_name (eh_app h) (eh_key h), lh_naming = plan,
             lh_tree = eh_tree h,
             lh_fields = (if nm_strategy plan = ''manual'' then [name_record_field] else []) @ fields\<rparr>))"

lemma mapR_cong [fundef_cong]:
  assumes "xs = ys" "\<And>x. x \<in> set ys \<Longrightarrow> f x = g x"
  shows "mapR f xs = mapR g ys"
proof -
  have "mapR f ys = mapR g ys" using assms(2) by (induction ys) (auto split: sum.splits)
  with assms(1) show ?thesis by simp
qed

text \<open>The collections are visited in the order of the list; the source iterates a map and stops at some first error.\<close>

fun new_record_layout :: "entity_meta \<Rightarrow> record_error + record_layout" where
  "new_record_layout (EntityMeta h cs) =
     bindR (layout_head_of h) (\<lambda>lh.
     bindR (mapR (\<lambda>p. (case find (\<lambda>f. rf_name f = fst p) (rev (lh_fields lh)) of
         None \<Rightarrow> Inl (internal_error ''collection metadata does not match parent field'' [(''entity'', lh_slug lh), (''field'', fst p)])
       | Some f \<Rightarrow>
           if rf_type f \<noteq> ''collection''
           then Inl (internal_error ''collection metadata does not match parent field'' [(''entity'', lh_slug lh), (''field'', fst p)])
           else bindR (new_record_layout (snd p)) (\<lambda>child.
             if rf_id f \<le> 0
             then Inl (internal_error ''collection field metadata id is missing'' [(''entity'', lh_slug lh), (''field'', fst p)])
             else Inr (fst p, RecordCollection f (lh_entity_id lh) child)))) cs) (\<lambda>cols.
       Inr (RecordLayout lh cols)))"

text \<open>A private Entity has no layout outside its owner-scoped service.\<close>

definition private_record_layout :: "bool \<Rightarrow> entity_meta \<Rightarrow> record_error + record_layout" where
  "private_record_layout owner_access m =
     (if eh_private (em_head m) \<and> \<not> owner_access
      then Inl (permission_denied ''private Entity requires its owner-scoped service'' [])
      else new_record_layout m)"

section \<open>Selecting a Record\<close>

definition record_alias :: string where
  "record_alias = ''_dygo_record''"

definition record_source_column :: "string \<Rightarrow> string" where
  "record_source_column c = quote_ident record_alias @ ''.'' @ quote_ident c"

definition link_target_table :: "record_layout \<Rightarrow> record_field \<Rightarrow> string option" where
  "link_target_table l f =
     (let target = trim_space (fo_entity (rf_options f)); app = trim_space (fo_app (rf_options f)) in
      if target = [] then None else Some (entity_table_name (if app = [] then lh_app (ly_head l) else app) target))"

definition display_sql :: "record_layout \<Rightarrow> record_field \<Rightarrow> string" where
  "display_sql l f =
     (if rf_type f \<noteq> ''link'' then record_source_column (rf_column f)
      else case link_target_table l f of None \<Rightarrow> record_source_column (rf_column f)
      | Some t \<Rightarrow> ''(SELECT '' @ quote_ident ''name'' @ '' FROM '' @ quote_ident t @ '' WHERE '' @ quote_ident ''id'' @ '' = ''
          @ record_source_column (rf_column f) @ '') AS '' @ quote_ident (rf_column f))"

definition selected_fields :: "record_layout \<Rightarrow> record_field list" where
  "selected_fields l = filter (\<lambda>f. rf_storage f \<and> \<not> rf_write_only f \<and> \<not> rf_system_name f) (ly_fields l)"

definition layout_select_list :: "record_layout \<Rightarrow> string" where
  "layout_select_list l =
     join '', '' (map record_source_column system_record_select_columns @ map (display_sql l) (selected_fields l))"

definition record_value_count :: "record_layout \<Rightarrow> nat" where
  "record_value_count l = length system_record_select_columns + length (selected_fields l)"

definition collection_names :: "record_layout \<Rightarrow> string list" where
  "collection_names l =
     (let names = filter (\<lambda>n. map_of (ly_collections l) n \<noteq> None) (map rf_name (ly_fields l))
      in names @ sort (filter (\<lambda>n. n \<notin> set names) (map fst (ly_collections l))))"

section \<open>Reading a row back\<close>

text \<open>What a row value, or a value of a Record, can be.\<close>

datatype val =
    VNull
  | VBool bool
  | VInt int
  | VText string
  | VBytes string
  | VTime instant
  | VJson json
  | VRows "(string \<times> val) list list"

type_synonym rec_map = "(string \<times> val) list"

definition date_text :: "instant \<Rightarrow> string" where
  "date_text t = take 10 (rfc3339 t)"

definition clock_text :: "instant \<Rightarrow> string" where
  "clock_text t = take 8 (drop 11 (rfc3339 t))"

text \<open>\<^verbatim>\<open>time.RFC3339Nano\<close> in UTC: the fraction without trailing zeros.\<close>

definition normalize_datetime_value :: "instant \<Rightarrow> string" where
  "normalize_datetime_value t =
     (let frac = rev (dropWhile (\<lambda>c. c = CHR ''0'') (rev (pad_nat 9 (nat (t mod 1000000000)))))
      in butlast (rfc3339 t) @ (if frac = [] then [] else ''.'' @ frac) @ ''Z'')"

definition value_kind_of :: "string \<Rightarrow> string" where
  "value_kind_of ty = (case default_definition ty of Some d \<Rightarrow> bh_value_kind (ft_behavior d) | None \<Rightarrow> [])"

definition normalize_record_value :: "string \<Rightarrow> val \<Rightarrow> val" where
  "normalize_record_value ty v =
     (case v of
        VBytes s \<Rightarrow> (if value_kind_of ty = ''json'' then (case unmarshal s of Some j \<Rightarrow> VJson j | None \<Rightarrow> VText s) else VText s)
      | VText s \<Rightarrow> (if value_kind_of ty = ''json'' then (case unmarshal s of Some j \<Rightarrow> VJson j | None \<Rightarrow> VText s) else VText s)
      | VTime t \<Rightarrow> (if ty = ''date'' then VText (date_text t) else if ty = ''time'' then VText (clock_text t)
          else if ty = ''datetime'' \<or> value_kind_of ty = ''datetime'' then VText (normalize_datetime_value t) else VTime t)
      | _ \<Rightarrow> v)"

definition system_values :: "val list \<Rightarrow> rec_map" where
  "system_values vs =
     [(''id'', normalize_record_value [] (vs ! 0)), (''name'', normalize_record_value ''text'' (vs ! 1)),
      (''created-at'', normalize_record_value ''datetime'' (vs ! 2)), (''updated-at'', normalize_record_value ''datetime'' (vs ! 3))]"

definition record_from_values :: "record_layout \<Rightarrow> val list \<Rightarrow> record_error + rec_map" where
  "record_from_values l vs =
     (if length vs \<noteq> record_value_count l
      then Inl (internal_error ''record column count did not match metadata'' [(''entity'', ly_entity l)])
      else Inr (system_values vs
        @ map (\<lambda>(f, v). (rf_name f, normalize_record_value (rf_type f) v)) (zip (selected_fields l) (drop 4 vs))))"

definition activity_record_id :: "rec_map \<Rightarrow> record_error + int" where
  "activity_record_id r =
     (case map_of r ''id'' of None \<Rightarrow> Inl (internal_error ''record id is missing from activity payload'' [])
      | Some (VInt i) \<Rightarrow> Inr i
      | Some _ \<Rightarrow> Inl (internal_error ''record id is invalid for activity payload'' []))"

section \<open>Properties\<close>

text \<open>A row that answers the SELECT list reads back without an error, one value per selected field.\<close>

lemma select_columns: "system_record_select_columns = [''id'', ''name'', ''created_at'', ''updated_at'']"
  by code_simp

lemma map_zip_names: "length xs = length ys \<Longrightarrow> map (\<lambda>(x, y). g x) (zip xs ys) = map g xs"
  by (induction xs ys rule: list_induct2) auto

lemma record_from_values_total:
  assumes "length vs = record_value_count l"
  shows "\<exists>r. record_from_values l vs = Inr r \<and>
    map fst r = [''id'', ''name'', ''created-at'', ''updated-at''] @ map rf_name (selected_fields l)"
proof -
  let ?pairs = "zip (selected_fields l) (drop 4 vs)"
  let ?read = "\<lambda>(f, v). (rf_name f, normalize_record_value (rf_type f) v)"
  have len: "length (selected_fields l) = length (drop 4 vs)"
    using assms by (simp add: record_value_count_def select_columns)
  have "map fst (map ?read ?pairs) = map (\<lambda>(f, v). rf_name f) ?pairs" by (simp add: comp_def case_prod_beta)
  also have "\<dots> = map rf_name (selected_fields l)" by (rule map_zip_names [OF len])
  finally have names: "map fst (map ?read ?pairs) = map rf_name (selected_fields l)" .
  have res: "record_from_values l vs = Inr (system_values vs @ map ?read ?pairs)"
    by (simp only: record_from_values_def assms not_True_eq_False if_False refl)
  have "map fst (system_values vs) = [''id'', ''name'', ''created-at'', ''updated-at'']" by (simp add: system_values_def)
  with names have "map fst (system_values vs @ map ?read ?pairs) = [''id'', ''name'', ''created-at'', ''updated-at''] @ map rf_name (selected_fields l)"
    by (simp only: map_append)
  with res show ?thesis by blast
qed

text \<open>The columns a Record is written to and read from are those of its stored fields.\<close>

lemma record_field_of_stored:
  assumes "record_field_of slug m = Inr f"
  shows "rf_name f = fm_name m \<and> rf_type f = fm_type m \<and> (\<exists>d. default_definition (fm_type m) = Some d
    \<and> rf_storage f = bh_stored (ft_behavior d) \<and> rf_value_kind f = bh_value_kind (ft_behavior d)
    \<and> (rf_storage f \<longrightarrow> rf_column f = storage_name (fm_name m) @ bh_column_suffix (ft_behavior d)))"
  using assms
  by (auto simp: record_field_of_def Let_def record_column_for_field_def storage_column_for_field_def split: option.splits)

lemma datetime_sample: "normalize_datetime_value 951782400000000000 = ''2000-02-29T00:00:00Z''"
  by code_simp

end
