(* ===== verification/Sql_Placeholders.thy ===== *)
theory Sql_Placeholders
  imports Go_Strings
begin

text \<open>
  Numbered placeholders in the text of a statement: \<^verbatim>\<open>shiftPlaceholders\<close> of
  \<^verbatim>\<open>internal/db/record_scope.go\<close>, and the numbers a text mentions.  The numbers are not bounded
  here; PostgreSQL accepts 65535 parameters.
\<close>

section \<open>Scanning a text\<close>

abbreviation no_dollar :: "string \<Rightarrow> bool" where
  "no_dollar s \<equiv> CHR ''$'' \<notin> set s"

definition starts_digit :: "string \<Rightarrow> bool" where
  "starts_digit s \<longleftrightarrow> s \<noteq> [] \<and> is_digit (hd s)"

function map_placeholders :: "(nat \<Rightarrow> string) \<Rightarrow> string \<Rightarrow> string" where
  "map_placeholders g [] = []"
| "map_placeholders g (c # cs) =
     (if c = CHR ''$'' \<and> starts_digit cs
      then g (read_digits (takeWhile is_digit cs)) @ map_placeholders g (dropWhile is_digit cs)
      else c # map_placeholders g cs)"
  by pat_completeness auto
termination by (relation "measure (\<lambda>(_, s). length s)") (auto simp: le_imp_less_Suc length_dropWhile_le)

definition numbered :: "nat \<Rightarrow> string" where
  "numbered n = CHR ''$'' # show_nat n"

text \<open>\<^verbatim>\<open>shiftPlaceholders\<close>\<close>

definition shift_placeholders :: "string \<Rightarrow> nat \<Rightarrow> string" where
  "shift_placeholders sql offset = (if offset = 0 then sql else map_placeholders (\<lambda>n. numbered (n + offset)) sql)"

function placeholders :: "string \<Rightarrow> nat list" where
  "placeholders [] = []"
| "placeholders (c # cs) =
     (if c = CHR ''$'' \<and> starts_digit cs
      then read_digits (takeWhile is_digit cs) # placeholders (dropWhile is_digit cs) else placeholders cs)"
  by pat_completeness auto
termination by (relation "measure length") (auto simp: le_imp_less_Suc length_dropWhile_le)

section \<open>Texts in pieces\<close>

lemma join_snoc: "ps \<noteq> [] \<Longrightarrow> join sep (ps @ [p]) = join sep ps @ sep @ p"
proof (induction ps)
  case (Cons q ps)
  then show ?case by (cases ps) (simp_all add: join_Cons)
qed simp

lemma starts_digit_append: "\<not> starts_digit b \<Longrightarrow> starts_digit (a @ b) = starts_digit a"
  by (cases a) (auto simp: starts_digit_def)

lemma takeWhile_digits_append: "\<not> starts_digit b \<Longrightarrow> takeWhile is_digit (a @ b) = takeWhile is_digit a"
  by (induction a) (auto simp: starts_digit_def takeWhile_eq_Nil_iff)

lemma dropWhile_digits_append: "\<not> starts_digit b \<Longrightarrow> dropWhile is_digit (a @ b) = dropWhile is_digit a @ b"
  by (induction a) (auto simp: starts_digit_def dropWhile_eq_self_iff)

lemma placeholders_append:
  assumes "\<not> starts_digit b"
  shows "placeholders (a @ b) = placeholders a @ placeholders b"
  by (induction a rule: placeholders.induct)
    (auto simp: starts_digit_append [OF assms] takeWhile_digits_append [OF assms] dropWhile_digits_append [OF assms])

lemma placeholders_plain [simp]: "no_dollar a \<Longrightarrow> placeholders (a @ b) = placeholders b"
  by (induction a) auto

lemma placeholders_plain_only [simp]: "no_dollar a \<Longrightarrow> placeholders a = []"
  using placeholders_plain [of a "[]"] by simp

lemma show_nat_then:
  assumes "\<not> starts_digit b"
  shows "starts_digit (show_nat n @ b)" "takeWhile is_digit (show_nat n @ b) = show_nat n" "dropWhile is_digit (show_nat n @ b) = b"
proof -
  have d: "\<forall>c\<in>set (show_nat n). is_digit c" "show_nat n \<noteq> []" using show_nat_digits [of n] by (auto simp: list_all_iff)
  then show "starts_digit (show_nat n @ b)" by (simp add: starts_digit_def)
  have "takeWhile is_digit b = [] \<and> dropWhile is_digit b = b"
    using assms by (auto simp: starts_digit_def takeWhile_eq_Nil_iff dropWhile_eq_self_iff)
  then show "takeWhile is_digit (show_nat n @ b) = show_nat n" "dropWhile is_digit (show_nat n @ b) = b"
    using d(1) by (simp_all add: takeWhile_append2 dropWhile_append2)
qed

lemma placeholders_numbered [simp]:
  "\<not> starts_digit b \<Longrightarrow> placeholders (numbered n @ b) = n # placeholders b"
  by (simp add: numbered_def show_nat_then read_show_nat)

lemma map_placeholders_plain [simp]: "no_dollar a \<Longrightarrow> map_placeholders g (a @ b) = a @ map_placeholders g b"
  by (induction a) auto

lemma map_placeholders_plain_only [simp]: "no_dollar a \<Longrightarrow> map_placeholders g a = a"
  using map_placeholders_plain [of a g "[]"] by simp

lemma map_placeholders_numbered [simp]:
  "\<not> starts_digit b \<Longrightarrow> map_placeholders g (numbered n @ b) = g n @ map_placeholders g b"
  by (simp add: numbered_def show_nat_then read_show_nat)

lemma map_placeholders_append:
  assumes "\<not> starts_digit b"
  shows "map_placeholders g (a @ b) = map_placeholders g a @ map_placeholders g b"
  by (induction g a rule: map_placeholders.induct)
    (auto simp: starts_digit_append [OF assms] takeWhile_digits_append [OF assms] dropWhile_digits_append [OF assms])

text \<open>Shifting moves every placeholder of a text by the offset and changes nothing else.\<close>

lemma not_digit_chars [simp]:
  "\<not> starts_digit []" "starts_digit (c # cs) = is_digit c"
  by (simp_all add: starts_digit_def)

lemma map_placeholders_identity: "placeholders s = [] \<Longrightarrow> map_placeholders g s = s"
  by (induction g s rule: map_placeholders.induct) (auto split: if_splits)

lemma shift_plain [simp]: "no_dollar a \<Longrightarrow> shift_placeholders (a @ b) n = a @ shift_placeholders b n"
  by (simp add: shift_placeholders_def)

lemma shift_plain_only [simp]: "no_dollar a \<Longrightarrow> shift_placeholders a n = a"
  by (simp add: shift_placeholders_def)

lemma shift_numbered [simp]:
  "\<not> starts_digit b \<Longrightarrow> shift_placeholders (numbered m @ b) n = numbered (m + n) @ shift_placeholders b n"
  by (simp add: shift_placeholders_def)

lemma shift_append:
  "\<not> starts_digit b \<Longrightarrow> shift_placeholders (a @ b) n = shift_placeholders a n @ shift_placeholders b n"
  by (simp add: shift_placeholders_def map_placeholders_append)

lemma shift_samples:
  "shift_placeholders ''a = $1 AND b = $12'' 3 = ''a = $4 AND b = $15''"
  "placeholders ''a = $1::bigint AND b = $12'' = [1, 12]"
  by code_simp+

end
