(* ===== verification/Record_Values.thy ===== *)
theory Record_Values
  imports Record_Layout Go_Strings Sql_Placeholders
begin

text \<open>
  From the JSON of a request to the arguments of a statement (\<^verbatim>\<open>recordDBValue\<close> and its
  helpers in \<^verbatim>\<open>internal/db/records.go\<close>, \<^verbatim>\<open>link_values.go\<close>, \<^verbatim>\<open>secretStorageValue\<close>).
  What lies outside is an argument: bcrypt, the key ring, and the reads of the database.
\<close>

section \<open>Arguments and the environment\<close>

datatype db_value = DNull | DInt int | DText string | DBool bool | DIds "int list"

text \<open>
  The environment of a store: the id of the record of a name in a table (a query of the transaction), the layout of an
  Entity, bcrypt, and the encryption of the ring of record keys (\<open>Inl\<close> when there is none or it rotates).
\<close>

record record_env =
  ev_link :: "string \<Rightarrow> string \<Rightarrow> record_error + int option"
  ev_layout :: "string \<Rightarrow> string \<Rightarrow> record_error + record_layout"
  ev_bcrypt :: "string \<Rightarrow> string option"
  ev_encrypt :: "string \<Rightarrow> string \<Rightarrow> record_error + string"

section \<open>Raw JSON\<close>

type_synonym record_input = "(string \<times> string) list"

definition raw_is_null :: "string \<Rightarrow> bool" where
  "raw_is_null raw \<longleftrightarrow> raw = [] \<or> raw = ''null''"

definition field_detail :: "record_field \<Rightarrow> (string \<times> string) list" where
  "field_detail f = [(''field'', rf_name f)]"

definition json_string_value :: "record_field \<Rightarrow> string \<Rightarrow> record_error + string" where
  "json_string_value f raw =
     (case unmarshal_string raw of Some s \<Rightarrow> Inr s | None \<Rightarrow> Inl (validation_error ''field must be a string'' (field_detail f)))"

definition json_number_value :: "record_field \<Rightarrow> string \<Rightarrow> record_error + string" where
  "json_number_value f raw =
     (case decode_first raw of
        Some (JNumber t) \<Rightarrow> if parse_float_ok t then Inr t else Inl (validation_error ''field must be a number'' (field_detail f))
      | Some (JString t) \<Rightarrow> if parse_float_ok t then Inr t else Inl (validation_error ''field must be a number'' (field_detail f))
      | _ \<Rightarrow> Inl (validation_error ''field must be a number'' (field_detail f)))"

definition json_int_value :: "record_field \<Rightarrow> string \<Rightarrow> record_error + int" where
  "json_int_value f raw =
     bindR (json_number_value f raw) (\<lambda>t. case parse_int64 t of Some i \<Rightarrow> Inr i
       | None \<Rightarrow> Inl (validation_error ''field must be an integer'' (field_detail f)))"

definition json_bool_value :: "record_field \<Rightarrow> string \<Rightarrow> record_error + bool" where
  "json_bool_value f raw =
     (case unmarshal_bool raw of Some b \<Rightarrow> Inr b
      | None \<Rightarrow> (case unmarshal_string raw of None \<Rightarrow> Inl (validation_error ''field must be a boolean'' (field_detail f))
          | Some t \<Rightarrow> (case parse_bool t of Some b \<Rightarrow> Inr b
              | None \<Rightarrow> Inl (validation_error ''field must be a boolean'' (field_detail f)))))"

text \<open>\<^verbatim>\<open>auth.HashPassword\<close>: the length is counted in bytes.\<close>

datatype password_error = PasswordEmpty | PasswordTooLong | PasswordFailed

definition validate_password :: "string \<Rightarrow> password_error + unit" where
  "validate_password p = (if blank p then Inl PasswordEmpty else if length p > 72 then Inl PasswordTooLong else Inr ())"

definition hash_password :: "(string \<Rightarrow> string option) \<Rightarrow> string \<Rightarrow> password_error + string" where
  "hash_password bcrypt p =
     bindR (validate_password p) (\<lambda>_. case bcrypt p of Some h \<Rightarrow> Inr h | None \<Rightarrow> Inl PasswordFailed)"

definition password_message :: "password_error \<Rightarrow> string" where
  "password_message e = (case e of PasswordEmpty \<Rightarrow> ''password must not be empty''
     | PasswordTooLong \<Rightarrow> ''password is too long'' | PasswordFailed \<Rightarrow> ''password is invalid'')"

definition password_hash_value :: "(string \<Rightarrow> string option) \<Rightarrow> record_field \<Rightarrow> string \<Rightarrow> record_error + string" where
  "password_hash_value bcrypt f raw =
     bindR (json_string_value f raw) (\<lambda>p. case hash_password bcrypt p of Inr h \<Rightarrow> Inr h
       | Inl e \<Rightarrow> Inl (validation_error (password_message e) (field_detail f)))"

section \<open>The value of a field\<close>

definition kind_value :: "(string \<Rightarrow> string option) \<Rightarrow> record_field \<Rightarrow> string \<Rightarrow> record_error + db_value" where
  "kind_value bcrypt f raw =
     (let kind = rf_value_kind f in
      if kind = ''string'' \<or> kind = ''date'' \<or> kind = ''datetime'' \<or> kind = ''time''
      then bindR (json_string_value f raw) (\<lambda>s. Inr (DText s))
      else if kind = ''password'' then bindR (password_hash_value bcrypt f raw) (\<lambda>s. Inr (DText s))
      else if kind = ''integer'' then bindR (json_int_value f raw) (\<lambda>i. Inr (DInt i))
      else if kind = ''number'' then bindR (json_number_value f raw) (\<lambda>t. Inr (DText t))
      else if kind = ''boolean'' then bindR (json_bool_value f raw) (\<lambda>b. Inr (DBool b))
      else if kind = ''json'' then
        (if json_valid raw then Inr (DText raw) else Inl (validation_error ''field must be valid JSON'' (field_detail f)))
      else Inl (validation_error ''field type is not supported by record runtime'' (field_detail f @ [(''type'', rf_type f)])))"

definition record_db_value :: "(string \<Rightarrow> string option) \<Rightarrow> record_field \<Rightarrow> string \<Rightarrow> record_error + db_value" where
  "record_db_value bcrypt f raw =
     (if raw_is_null raw then Inr DNull
      else if fo_values (rf_options f) \<noteq> [] then
        bindR (json_string_value f raw) (\<lambda>s.
          if s \<in> set (fo_values (rf_options f)) then Inr (DText s)
          else Inl (validation_error ''select value is not allowed'' (field_detail f @ [(''value'', s)])))
      else kind_value bcrypt f raw)"

definition secret_binding :: "record_layout \<Rightarrow> record_field \<Rightarrow> string" where
  "secret_binding l f = lh_app (ly_head l) @ ''/'' @ ly_entity l @ ''/'' @ rf_name f"

definition secret_storage_value :: "record_env \<Rightarrow> record_layout \<Rightarrow> record_field \<Rightarrow> string \<Rightarrow> record_error + db_value" where
  "secret_storage_value ev l f raw =
     (if raw_is_null raw
      then (if rf_required f then Inl (validation_error ''required field cannot be null'' (field_detail f)) else Inr DNull)
      else case unmarshal_string raw of
        None \<Rightarrow> Inl (validation_error ''secret must be a non-empty string'' (field_detail f))
      | Some s \<Rightarrow> if s = [] then Inl (validation_error ''secret must be a non-empty string'' (field_detail f))
          else bindR (ev_encrypt ev (secret_binding l f) s) (\<lambda>c. Inr (DText c)))"

section \<open>Links\<close>

definition link_name_required :: "record_layout \<Rightarrow> record_field \<Rightarrow> record_error" where
  "link_name_required l f = validation_error ''link field must be a record name''
     [(''entity'', ly_entity l), (''field'', rf_name f), (''target'', fo_entity (rf_options f))]"

definition id_by_name :: "record_env \<Rightarrow> record_layout \<Rightarrow> record_field \<Rightarrow> string \<Rightarrow> record_error + int" where
  "id_by_name ev l f name =
     (case link_target_table l f of
        None \<Rightarrow> Inl (internal_error ''link field target metadata is invalid'' [(''entity'', ly_entity l), (''field'', rf_name f)])
      | Some t \<Rightarrow> bindR (ev_link ev t name) (\<lambda>r. case r of Some i \<Rightarrow> Inr i
          | None \<Rightarrow> Inl (validation_error ''link target not found'' [(''entity'', ly_entity l), (''field'', rf_name f),
              (''target'', fo_entity (rf_options f)), (''name'', name)])))"

definition name_from_raw :: "record_layout \<Rightarrow> record_field \<Rightarrow> string \<Rightarrow> record_error + string" where
  "name_from_raw l f raw = (case unmarshal_string raw of Some s \<Rightarrow> Inr s | None \<Rightarrow> Inl (link_name_required l f))"

definition storage_value :: "record_env \<Rightarrow> record_layout \<Rightarrow> record_field \<Rightarrow> string \<Rightarrow> record_error + db_value" where
  "storage_value ev l f raw =
     (if rf_type f = ''secret'' then secret_storage_value ev l f raw
      else if rf_type f \<noteq> ''link'' then record_db_value (ev_bcrypt ev) f raw
      else if raw_is_null raw then Inr DNull
      else case unmarshal_string raw of None \<Rightarrow> Inl (link_name_required l f)
        | Some name \<Rightarrow> bindR (id_by_name ev l f name) (\<lambda>i. Inr (DInt i)))"

section \<open>Placeholders\<close>

definition record_placeholder :: "nat \<Rightarrow> record_field \<Rightarrow> string" where
  "record_placeholder i f =
     numbered i @ (case default_definition (rf_type f) of None \<Rightarrow> []
       | Some d \<Rightarrow> if bh_placeholder_cast (ft_behavior d) \<noteq> [] then ''::'' @ bh_placeholder_cast (ft_behavior d) else [])"

section \<open>Names built from fields\<close>

definition record_name_value :: "record_field \<Rightarrow> string \<Rightarrow> record_error + string" where
  "record_name_value f raw =
     (if raw_is_null raw then Inl (validation_error ''naming field cannot be null'' (field_detail f))
      else if \<not> rf_nameable f then Inl (validation_error ''field type cannot be used for naming'' (field_detail f @ [(''type'', rf_type f)]))
      else let kind = rf_value_kind f in
        if kind = ''string'' \<or> kind = ''date'' \<or> kind = ''datetime'' \<or> kind = ''time'' then json_string_value f raw
        else if kind = ''integer'' then bindR (json_int_value f raw) (\<lambda>i. Inr (show_int i))
        else if kind = ''number'' then json_number_value f raw
        else if kind = ''boolean'' then
          (case unmarshal_bool raw of Some b \<Rightarrow> Inr (if b then ''true'' else ''false'')
           | None \<Rightarrow> Inl (validation_error ''field must be a boolean'' (field_detail f)))
        else Inl (validation_error ''field type cannot be used for naming'' (field_detail f @ [(''type'', rf_type f)])))"

definition name_token_value :: "record_layout \<Rightarrow> record_input \<Rightarrow> string \<Rightarrow> record_error + string" where
  "name_token_value l input token =
     (case field_by_name l token of
        None \<Rightarrow> Inl (internal_error ''naming field metadata is missing'' [(''entity'', ly_entity l), (''field'', token)])
      | Some f \<Rightarrow> (case map_of input token of
          None \<Rightarrow> Inl (validation_error ''naming field is required'' [(''entity'', ly_entity l), (''field'', token)])
        | Some raw \<Rightarrow> if rf_type f \<noteq> ''link'' then record_name_value f raw else name_from_raw l f raw))"

section \<open>Properties\<close>

text \<open>Whatever the environment, an accepted value fits the kind of its field.\<close>

definition value_fits :: "record_field \<Rightarrow> db_value \<Rightarrow> bool" where
  "value_fits f v \<longleftrightarrow>
     (case v of DNull \<Rightarrow> True
      | DInt i \<Rightarrow> rf_type f = ''link'' \<or> rf_value_kind f = ''integer'' \<and> in_i64 i
      | DBool _ \<Rightarrow> rf_value_kind f = ''boolean''
      | DIds _ \<Rightarrow> False
      | DText s \<Rightarrow> rf_type f = ''secret''
          \<or> (fo_values (rf_options f) \<noteq> [] \<and> s \<in> set (fo_values (rf_options f)))
          \<or> (fo_values (rf_options f) = [] \<and> rf_value_kind f \<in> {''string'', ''date'', ''datetime'', ''time'', ''password'', ''number'', ''json''}
              \<and> (rf_value_kind f = ''number'' \<longrightarrow> parse_float_ok s) \<and> (rf_value_kind f = ''json'' \<longrightarrow> json_valid s)))"

lemma json_number_value_ok: "json_number_value f raw = Inr t \<Longrightarrow> parse_float_ok t"
  by (auto simp: json_number_value_def split: option.splits json.splits if_splits)

lemma json_int_value_range: "json_int_value f raw = Inr i \<Longrightarrow> in_i64 i"
  using parse_int64_range
  by (fastforce simp: json_int_value_def bindR_Inr_iff in_i64_def split: option.splits)

lemma kind_value_fits:
  assumes "kind_value bcrypt f raw = Inr v" "fo_values (rf_options f) = []"
  shows "value_fits f v"
  using assms
  by (auto simp: kind_value_def Let_def bindR_Inr_iff value_fits_def dest: json_number_value_ok json_int_value_range split: if_splits)

lemma storage_value_fits:
  assumes "storage_value ev l f raw = Inr v"
  shows "value_fits f v"
proof (cases "rf_type f = ''secret'' \<or> rf_type f = ''link''")
  case True
  then show ?thesis using assms
    by (auto simp: storage_value_def secret_storage_value_def bindR_Inr_iff value_fits_def split: if_splits option.splits)
next
  case False
  then have "record_db_value (ev_bcrypt ev) f raw = Inr v" using assms by (simp add: storage_value_def)
  then show ?thesis
    by (auto simp: record_db_value_def bindR_Inr_iff value_fits_def [of f DNull] dest: kind_value_fits split: if_splits)
      (auto simp: value_fits_def)
qed

text \<open>\<^verbatim>\<open>systemRecordString\<close> quotes with Go syntax, not with JSON: a control character other than the usual escapes
  gives a text that is no JSON, so the field is refused.\<close>

definition go_quote_char :: "char \<Rightarrow> string" where
  "go_quote_char c =
     (if c = CHR 0x22 \<or> c = CHR 0x5C then [CHR 0x5C, c]
      else if c = CHR 0x07 then [CHR 0x5C, CHR ''a''] else if c = CHR 0x08 then [CHR 0x5C, CHR ''b'']
      else if c = CHR 0x0C then [CHR 0x5C, CHR ''f''] else if c = CHR 0x0A then [CHR 0x5C, CHR ''n'']
      else if c = CHR 0x0D then [CHR 0x5C, CHR ''r''] else if c = CHR 0x09 then [CHR 0x5C, CHR ''t'']
      else if c = CHR 0x0B then [CHR 0x5C, CHR ''v'']
      else if byte c < 32 \<or> byte c = 127 then [CHR 0x5C, CHR ''x'', hex_digit (byte c div 16), hex_digit (byte c mod 16)]
      else [c])"

definition system_record_string :: "string \<Rightarrow> string" where
  "system_record_string s = CHR 0x22 # concat (map go_quote_char s) @ [CHR 0x22]"

definition system_record_int :: "int \<Rightarrow> string" where
  "system_record_int i = show_int i"

definition system_record_bool :: "bool \<Rightarrow> string" where
  "system_record_bool b = (if b then ''true'' else ''false'')"

lemma system_string_refused: "unmarshal_string (system_record_string [CHR ''a'', CHR 0x07]) = None"
  by code_simp


text \<open>
  Texts without a dollar sign: the quoting and trimming of names keeps them so, and the placeholder
  of a field is a number followed by such a text.  The proofs about parameterised statements share
  these facts.
\<close>

lemma set_double_char: "set (double_char q v) \<subseteq> set v"
  by (auto simp: double_char_def split: if_splits)

lemma quote_ident_plain [simp]: "no_dollar v \<Longrightarrow> no_dollar (quote_ident v)"
  using set_double_char [of "CHR 0x22" v] by (auto simp: quote_ident_def)

lemma trim_left_subset: "set (trim_left s) \<subseteq> set s"
proof (induction s rule: trim_left.induct)
  case (1 s)
  then show ?case by (subst trim_left.simps) (auto split: option.splits dest: in_set_dropD)
qed

lemma trim_right_subset: "set (trim_right s) \<subseteq> set s"
proof (induction s rule: trim_right.induct)
  case (1 s)
  then show ?case by (subst trim_right.simps) (auto split: option.splits dest: in_set_takeD)
qed

lemma trim_space_plain: "no_dollar s \<Longrightarrow> no_dollar (trim_space s)"
  using trim_left_subset trim_right_subset by (fastforce simp: trim_space_def)

lemma storage_name_plain: "no_dollar s \<Longrightarrow> no_dollar (storage_name s)"
  by (auto simp: storage_name_def split: if_splits)

lemma entity_table_plain: "no_dollar a \<Longrightarrow> no_dollar e \<Longrightarrow> no_dollar (entity_table_name a e)"
  by (auto simp: entity_table_name_def storage_name_plain)

lemma show_nat_plain: "no_dollar (show_nat n)"
  using show_nat_digits [of n] by (auto simp: list_all_iff is_digit_def)

lemma quoted_id_plain: "no_dollar (quote_ident ''id'')" "no_dollar (quote_ident ''name'')" "no_dollar (quote_ident record_alias)"
  by code_simp+

lemma casts_plain: "default_definition ty = Some d \<Longrightarrow> no_dollar (bh_placeholder_cast (ft_behavior d))"
proof -
  assume "default_definition ty = Some d"
  then have "d \<in> set built_ins" by (auto simp: default_definition_def dest: find_SomeD)
  moreover have "\<forall>d\<in>set built_ins. no_dollar (bh_placeholder_cast (ft_behavior d))" by code_simp
  ultimately show ?thesis by blast
qed

lemma record_placeholder_shape: "\<exists>c. record_placeholder i f = numbered i @ c \<and> no_dollar c \<and> \<not> starts_digit c"
  using casts_plain by (auto simp: record_placeholder_def is_digit_def split: option.splits)

lemma placeholders_record_placeholder:
  assumes "\<not> starts_digit b"
  shows "placeholders (record_placeholder i f @ b) = i # placeholders b"
proof -
  obtain c where c: "record_placeholder i f = numbered i @ c" "no_dollar c" "\<not> starts_digit c"
    using record_placeholder_shape by blast
  have "\<not> starts_digit (c @ b)" using c(3) assms by (simp add: starts_digit_append)
  then show ?thesis using c by simp
qed

end
