(* ===== verification/Record_Query.thy ===== *)
theory Record_Query
  imports Record_Filter Reserved_Words "HOL-Library.Multiset"
begin

text \<open>
  The query contract of Record lists (\<^verbatim>\<open>internal/recordquery/query.go\<close>): pagination, the
  sort grammar and the filter grammar of the HTTP parameters.  \<^verbatim>\<open>url.Values\<close> is a Go map, a list of
  names with their values here, in the order in which the loop of \<^verbatim>\<open>FromValues\<close> meets them.
\<close>

section \<open>Parameters\<close>

record filter_term =
  ft_field :: string
  ft_operator :: string
  ft_value :: string

record sort_term =
  so_field :: string
  so_desc :: bool

record list_params =
  lp_limit :: int
  lp_offset :: int
  lp_filters :: "filter_term list"
  lp_sort :: "sort_term list"

definition default_limit :: int where
  "default_limit = 20"

definition max_limit :: int where
  "max_limit = 2500"

definition page_sizes :: "int list" where
  "page_sizes = [20, 100, 500, max_limit]"

record list_policy =
  pl_default :: int
  pl_max :: int
  pl_sizes :: "int list"

definition current_list_policy :: list_policy where
  "current_list_policy = \<lparr>pl_default = default_limit, pl_max = max_limit, pl_sizes = page_sizes\<rparr>"

datatype query_error =
    LimitOutOfRange int
  | OffsetNegative int
  | LimitNotInteger string
  | OffsetNotInteger string
  | SortNotOnce "string list"
  | SortFieldRequired string
  | QueryReserved string
  | FilterFieldRequired string
  | QueryUnknown string
  | FilterOperatorRequired string string
  | FilterValueUnsupported string string
  | FilterValueRequired string string
  | NoValue string

definition no_params :: list_params where
  "no_params = \<lparr>lp_limit = 0, lp_offset = 0, lp_filters = [], lp_sort = []\<rparr>"

definition normalize_params :: "list_params \<Rightarrow> query_error + list_params" where
  "normalize_params p =
     (let l = (if lp_limit p = 0 then default_limit else lp_limit p) in
      if l < 1 \<or> l > max_limit then Inl (LimitOutOfRange l)
      else if lp_offset p < 0 then Inl (OffsetNegative (lp_offset p))
      else Inr (p\<lparr>lp_limit := l\<rparr>))"

section \<open>Grammars\<close>

definition parse_sort_part :: "string \<Rightarrow> string \<Rightarrow> query_error + sort_term" where
  "parse_sort_part raw part0 =
     (let part = trim_space part0 in
      if part = [] \<or> part = ''-'' then Inl (SortFieldRequired raw)
      else if has_prefix part ''-''
      then (let field = trim_space (trim_prefix part ''-'') in
        if field = [] then Inl (SortFieldRequired raw) else Inr \<lparr>so_field = field, so_desc = True\<rparr>)
      else Inr \<lparr>so_field = part, so_desc = False\<rparr>)"

definition parse_sort :: "string \<Rightarrow> query_error + sort_term list" where
  "parse_sort raw0 =
     (let raw = trim_space raw0 in
      if raw = [] then Inl (SortFieldRequired raw) else mapR (parse_sort_part raw) (split_on (CHR '','') raw))"

definition parse_filter_param :: "string \<Rightarrow> string \<Rightarrow> query_error + filter_term" where
  "parse_filter_param name0 value0 =
     (let name = trim_space name0; v = trim_space value0 in
      if name = [] then Inl (FilterFieldRequired name)
      else case cut name (CHR '':'') of None \<Rightarrow> Inl (QueryUnknown name)
      | Some (field0, operator0) \<Rightarrow>
         let field = trim_space field0; operator = trim_space operator0 in
         if field = [] then Inl (FilterFieldRequired name)
         else if operator = [] then Inl (FilterOperatorRequired field name)
         else if is_zero_arity operator
         then (if v \<noteq> [] then Inl (FilterValueUnsupported field operator)
               else Inr \<lparr>ft_field = field, ft_operator = operator, ft_value = []\<rparr>)
         else if v = [] then Inl (FilterValueRequired field operator)
         else Inr \<lparr>ft_field = field, ft_operator = operator, ft_value = v\<rparr>)"

text \<open>\<^verbatim>\<open>SortFilters\<close> and \<^verbatim>\<open>sortedRecordFilters\<close> order by field, operator and value.\<close>

definition filter_rank :: "filter_term \<Rightarrow> string list" where
  "filter_rank f = [ft_field f, ft_operator f, ft_value f]"

definition sort_filters :: "filter_term list \<Rightarrow> filter_term list" where
  "sort_filters fs = sort_key filter_rank fs"

section \<open>HTTP parameters\<close>

type_synonym query_values = "(string \<times> string list) list"

definition first_value :: "query_values \<Rightarrow> string \<Rightarrow> string" where
  "first_value vs name = (case map_of vs name of Some (v # _) \<Rightarrow> v | _ \<Rightarrow> [])"

definition pagination_from_values :: "query_values \<Rightarrow> query_error + list_params" where
  "pagination_from_values vs =
     (let l = trim_space (first_value vs ''limit''); o' = trim_space (first_value vs ''offset'') in
      bindR (if l = [] then Inr no_params
             else case parse_int64 l of None \<Rightarrow> Inl (LimitNotInteger l)
               | Some n \<Rightarrow> if n < 1 \<or> n > max_limit then Inl (LimitOutOfRange n) else Inr (no_params\<lparr>lp_limit := n\<rparr>)) (\<lambda>p.
      bindR (if o' = [] then Inr p
             else case parse_int64 o' of None \<Rightarrow> Inl (OffsetNotInteger o') | Some n \<Rightarrow> Inr (p\<lparr>lp_offset := n\<rparr>))
        normalize_params))"

definition query_step :: "list_params \<Rightarrow> string \<times> string list \<Rightarrow> query_error + list_params" where
  "query_step p entry =
     (case entry of (name, raws) \<Rightarrow>
      if name = ''limit'' \<or> name = ''offset'' then Inr p
      else if name = ''sort'' then
        (if length raws > 1 then Inl (SortNotOnce raws)
         else case raws of [] \<Rightarrow> Inl (NoValue name)
           | raw # _ \<Rightarrow> bindR (parse_sort raw) (\<lambda>ts. Inr (p\<lparr>lp_sort := ts\<rparr>)))
      else if is_reserved_query name then Inl (QueryReserved name)
      else bindR (mapR (parse_filter_param name) raws) (\<lambda>fs. Inr (p\<lparr>lp_filters := lp_filters p @ fs\<rparr>)))"

definition from_values :: "query_values \<Rightarrow> query_error + list_params" where
  "from_values vs =
     bindR (pagination_from_values vs) (\<lambda>p.
     bindR (foldR query_step p vs) (\<lambda>q. Inr (q\<lparr>lp_filters := sort_filters (lp_filters q)\<rparr>)))"

section \<open>Reading the parameters does not depend on the order of the map\<close>

lemma normalize_params_bounds:
  "normalize_params p = Inr q \<Longrightarrow> 1 \<le> lp_limit q \<and> lp_limit q \<le> max_limit \<and> 0 \<le> lp_offset q"
  by (auto simp: normalize_params_def Let_def split: if_splits)

lemma normalize_params_keeps:
  "normalize_params p = Inr q \<Longrightarrow> lp_filters q = lp_filters p \<and> lp_sort q = lp_sort p"
  by (auto simp: normalize_params_def Let_def split: if_splits)

lemma normalize_params_idem: "normalize_params p = Inr q \<Longrightarrow> normalize_params q = Inr q"
  by (auto simp: normalize_params_def Let_def default_limit_def max_limit_def split: if_splits)

text \<open>What one entry contributes: the sort terms it sets and the filters it adds.\<close>

definition entry_filters :: "string \<times> string list \<Rightarrow> filter_term list" where
  "entry_filters e = (case query_step no_params e of Inr p \<Rightarrow> lp_filters p | Inl _ \<Rightarrow> [])"

definition entry_sort :: "string \<times> string list \<Rightarrow> sort_term list option" where
  "entry_sort e = (if fst e = ''sort'' then (case query_step no_params e of Inr p \<Rightarrow> Some (lp_sort p) | Inl _ \<Rightarrow> None) else None)"

definition entry_ok :: "string \<times> string list \<Rightarrow> bool" where
  "entry_ok e \<longleftrightarrow> (\<exists>p. query_step no_params e = Inr p)"

definition with_entry :: "list_params \<Rightarrow> string \<times> string list \<Rightarrow> list_params" where
  "with_entry p e = p\<lparr>lp_filters := lp_filters p @ entry_filters e,
     lp_sort := (case entry_sort e of Some ts \<Rightarrow> ts | None \<Rightarrow> lp_sort p)\<rparr>"

lemma query_step_eq:
  "query_step p e = Inr q \<longleftrightarrow> entry_ok e \<and> q = with_entry p e"
proof (cases e)
  case (Pair name raws)
  consider (page) "name = ''limit'' \<or> name = ''offset''" | (sort) "name = ''sort''"
    | (other) "name \<noteq> ''limit''" "name \<noteq> ''offset''" "name \<noteq> ''sort''" by blast
  then show ?thesis
  proof cases
    case page
    then show ?thesis
      by (auto simp: Pair query_step_def entry_ok_def with_entry_def entry_filters_def entry_sort_def no_params_def)
  next
    case sort
    then show ?thesis
      by (auto simp: Pair query_step_def entry_ok_def with_entry_def entry_filters_def entry_sort_def no_params_def
          bindR_Inr_iff split: list.splits if_splits)
  next
    case other
    then show ?thesis
      by (auto simp: Pair query_step_def entry_ok_def with_entry_def entry_filters_def entry_sort_def no_params_def
          bindR_Inr_iff split: if_splits)
  qed
qed

lemma query_fold_eq:
  "foldR query_step p vs = Inr q \<longleftrightarrow> list_all entry_ok vs \<and> q = foldl with_entry p vs"
proof (induction vs arbitrary: p)
  case (Cons e vs)
  show ?case
  proof (cases "query_step p e")
    case (Inl x)
    then have "\<not> entry_ok e" using query_step_eq [of p e "with_entry p e"] by auto
    with Inl show ?thesis by simp
  next
    case (Inr r)
    then have "entry_ok e \<and> r = with_entry p e" using query_step_eq by blast
    with Inr show ?thesis by (simp add: Cons.IH)
  qed
qed auto

lemma foldl_with_entry_filters:
  "lp_filters (foldl with_entry p vs) = lp_filters p @ concat (map entry_filters vs)"
  by (induction vs arbitrary: p) (auto simp: with_entry_def)

lemma foldl_with_entry_page:
  "lp_limit (foldl with_entry p vs) = lp_limit p \<and> lp_offset (foldl with_entry p vs) = lp_offset p"
  by (induction vs arbitrary: p) (auto simp: with_entry_def)

lemma foldl_with_entry_sort:
  "distinct (map fst vs) \<Longrightarrow>
   lp_sort (foldl with_entry p vs) = (case map_of vs ''sort'' of None \<Rightarrow> lp_sort p
      | Some raws \<Rightarrow> (case entry_sort (''sort'', raws) of Some ts \<Rightarrow> ts | None \<Rightarrow> lp_sort p))"
proof (induction vs arbitrary: p)
  case (Cons e vs)
  obtain n raws where e: "e = (n, raws)" by (cases e)
  have "map_of vs ''sort'' = None" if s: "n = ''sort''"
    using Cons.prems e s by (auto simp: map_of_eq_None_iff)
  then show ?case using Cons e by (auto simp: with_entry_def entry_sort_def split: option.splits)
qed simp

lemma first_value_perm:
  assumes "distinct (map fst vs)" "mset vs = mset vs'"
  shows "first_value vs n = first_value vs' n"
proof -
  have "distinct (map fst vs')" using assms by (metis mset_eq_imp_distinct_iff mset_map)
  then have "map_of vs n = map_of vs' n"
    using assms by (metis map_of_eq_Some_iff mset_eq_setD option.exhaust)
  then show ?thesis by (simp add: first_value_def)
qed

lemma inj_filter_rank: "inj_on filter_rank A"
  by (auto simp: inj_on_def filter_rank_def)

lemma sort_filters_perm: "mset fs = mset gs \<Longrightarrow> sort_filters fs = sort_filters gs"
  unfolding sort_filters_def
  by (rule sort_key_inj_key_eq) (simp_all add: inj_filter_rank)

lemma mset_concat_perm:
  assumes "mset xs = mset ys"
  shows "mset (concat (map f xs)) = mset (concat (map f ys))"
proof -
  have "mset (concat (map f zs)) = sum_mset (image_mset (\<lambda>z. mset (f z)) (mset zs))" for zs
    by (induction zs) simp_all
  with assms show ?thesis by simp
qed

lemma list_params_eq_iff:
  "p = q \<longleftrightarrow> lp_limit p = lp_limit q \<and> lp_offset p = lp_offset q \<and> lp_filters p = lp_filters q \<and> lp_sort p = lp_sort (q::list_params)"
  by (cases p; cases q) simp

text \<open>The parameters of a list do not depend on the order in which the map of query values is iterated, and
  what is accepted respects the pagination bounds and hands on the filters in their canonical order.\<close>

theorem from_values_canonical:
  assumes accepted: "from_values vs = Inr p" and keys: "distinct (map fst vs)" and same: "mset vs = mset vs'"
  shows "from_values vs' = Inr p \<and> 1 \<le> lp_limit p \<and> lp_limit p \<le> 2500 \<and> 0 \<le> lp_offset p
    \<and> sorted (map filter_rank (lp_filters p))"
proof -
  from accepted obtain p0 q where p0: "pagination_from_values vs = Inr p0" and q: "foldR query_step p0 vs = Inr q"
    and p: "p = q\<lparr>lp_filters := sort_filters (lp_filters q)\<rparr>"
    by (auto simp: from_values_def bindR_Inr_iff)
  have ok: "list_all entry_ok vs" and qf: "q = foldl with_entry p0 vs" using q by (simp_all add: query_fold_eq)
  have page: "pagination_from_values vs' = Inr p0"
    using p0 by (simp add: pagination_from_values_def first_value_perm [OF keys same])
  have keys': "distinct (map fst vs')" using keys same by (metis mset_eq_imp_distinct_iff mset_map)
  have maps: "map_of vs = map_of vs'"
    using keys keys' same by (metis ext map_of_eq_Some_iff mset_eq_setD option.exhaust)
  let ?q' = "foldl with_entry p0 vs'"
  have "list_all entry_ok vs'" using ok same by (metis list_all_iff mset_eq_setD)
  then have q': "foldR query_step p0 vs' = Inr ?q'" by (simp add: query_fold_eq)
  have "mset (concat (map entry_filters vs)) = mset (concat (map entry_filters vs'))"
    using same by (rule mset_concat_perm)
  then have "sort_filters (lp_filters ?q') = sort_filters (lp_filters q)"
    by (intro sort_filters_perm) (simp add: qf foldl_with_entry_filters)
  moreover have "lp_sort ?q' = lp_sort q"
    by (simp add: qf foldl_with_entry_sort keys keys' maps)
  moreover have "lp_limit ?q' = lp_limit q \<and> lp_offset ?q' = lp_offset q"
    by (simp add: qf foldl_with_entry_page)
  ultimately have "?q'\<lparr>lp_filters := sort_filters (lp_filters ?q')\<rparr> = p"
    by (simp add: p list_params_eq_iff)
  then have res: "from_values vs' = Inr p" by (simp add: from_values_def page q')
  have "1 \<le> lp_limit p0 \<and> lp_limit p0 \<le> max_limit \<and> 0 \<le> lp_offset p0"
    using p0 by (auto simp: pagination_from_values_def Let_def bindR_Inr_iff dest: normalize_params_bounds)
  moreover have "lp_limit p = lp_limit p0 \<and> lp_offset p = lp_offset p0"
    by (simp add: p qf foldl_with_entry_page)
  moreover have "sorted (map filter_rank (lp_filters p))" by (simp add: p sort_filters_def)
  ultimately show ?thesis using res by (simp add: max_limit_def)
qed

definition sample_values :: query_values where
  "sample_values = [(''status:eq'', [''open'', ''done'']), (''sort'', [''-created-at, name'']), (''limit'', ['' 100 '']), (''customer:empty'', ['' ''])]"

theorem from_values_canonical_witness:
  "\<exists>p. from_values sample_values = Inr p \<and> from_values (rev sample_values) = Inr p \<and> lp_limit p \<le> 2500"
proof -
  have "\<not> isl (from_values sample_values)" by code_simp
  then obtain p where p: "from_values sample_values = Inr p" by (metis isl_def sum.exhaust)
  have d: "distinct (map fst sample_values)" by code_simp
  have m: "mset sample_values = mset (rev sample_values)" by (rule mset_rev [symmetric])
  from from_values_canonical [OF p d m] p show ?thesis by blast
qed

end
