(* ===== verification/Record_Search.thy ===== *)
theory Record_Search
  imports Record_Values Record_Query
begin

text \<open>
  Searching Records (\<^verbatim>\<open>listQuery\<close> and \<^verbatim>\<open>listOrderBy\<close> in
  \<^verbatim>\<open>internal/db/records.go\<close>, field paths and aggregates in \<^verbatim>\<open>query.go\<close>): filters become a
  WHERE clause with one placeholder per value, sort terms an ORDER BY.
\<close>

section \<open>Fields of a search\<close>

definition system_list_field :: "system_field \<Rightarrow> record_field" where
  "system_list_field f = \<lparr>rf_id = 0, rf_name = sf_name f, rf_type = sf_type f, rf_required = False, rf_default = [], rf_fetch = [],
     rf_options = no_field_options, rf_column = sf_column f, rf_storage = True, rf_write_only = False, rf_listable = True,
     rf_nameable = sf_nameable f, rf_value_kind = sf_value_kind f, rf_system_name = False\<rparr>"

definition list_field_error :: "record_layout \<Rightarrow> string \<Rightarrow> string \<Rightarrow> string \<Rightarrow> record_error" where
  "list_field_error l name operation m = invalid_request m [(''entity'', ly_entity l), (''field'', name), (''operation'', operation)]"

definition list_field :: "record_layout \<Rightarrow> string \<Rightarrow> string \<Rightarrow> record_error + record_field" where
  "list_field l name operation =
     (case system_record_field_by_name name of Some f \<Rightarrow> Inr (system_list_field f)
      | None \<Rightarrow> (case field_by_name l name of
          None \<Rightarrow> Inl (list_field_error l name operation ''unknown field'')
        | Some f \<Rightarrow>
            if \<not> rf_storage f then Inl (list_field_error l name operation ''field is not supported by record runtime'')
            else if rf_write_only f then Inl (list_field_error l name operation ''write-only field cannot be used in record lists'')
            else if \<not> rf_listable f then Inl (list_field_error l name operation ''field cannot be used in record lists'')
            else Inr f))"

section \<open>Paths through links\<close>

definition query_invalid :: "record_layout \<Rightarrow> string \<Rightarrow> record_error" where
  "query_invalid l m = invalid_request m [(''entity'', ly_entity l)]"

definition path_alias :: "nat \<Rightarrow> string" where
  "path_alias n = quote_ident (''_dygo_path_'' @ show_nat n)"

definition path_alias_number :: "string \<Rightarrow> nat" where
  "path_alias_number source = count_sub ''_dygo_path_'' source"

definition path_text_field :: "string \<Rightarrow> record_field" where
  "path_text_field name = name_record_field\<lparr>rf_name := name, rf_required := False, rf_column := [], rf_nameable := False, rf_system_name := False\<rparr>"

definition link_select :: "string \<Rightarrow> string \<Rightarrow> string \<Rightarrow> string \<Rightarrow> string" where
  "link_select expression table a column =
     ''(SELECT '' @ expression @ '' FROM '' @ quote_ident table @ '' AS '' @ a @ '' WHERE '' @ a @ ''.'' @ quote_ident ''id'' @ '' = '' @ column @ '')''"

fun record_field_path_parts :: "record_env \<Rightarrow> string \<Rightarrow> string list \<Rightarrow> record_layout \<Rightarrow> string \<Rightarrow> bool \<Rightarrow> record_error + record_field \<times> string" where
  "record_field_path_parts ev operation [] l source nested = Inl (query_invalid l ''field is required'')"
| "record_field_path_parts ev operation [p] l source nested =
     bindR (list_field l p operation) (\<lambda>f.
       let column = source @ ''.'' @ quote_ident (rf_column f) in
       if \<not> nested then Inr (f, quote_ident (rf_column f))
       else if rf_type f \<noteq> ''link'' then Inr (f, column)
       else case link_target_table l f of None \<Rightarrow> Inl (query_invalid l ''link field target metadata is invalid'')
       | Some t \<Rightarrow> let a = path_alias (path_alias_number source) in
           Inr (path_text_field p, link_select (a @ ''.'' @ quote_ident ''name'') t a column))"
| "record_field_path_parts ev operation (p # q # ps) l source nested =
     bindR (list_field l p operation) (\<lambda>f.
       let column = source @ ''.'' @ quote_ident (rf_column f);
           app = trim_space (fo_app (rf_options f)); target = trim_space (fo_entity (rf_options f)) in
       if rf_type f \<noteq> ''link'' then Inl (invalid_request ''field %q is not a link'' [(''entity'', ly_entity l), (''field'', p)])
       else if target = [] then Inl (query_invalid l ''link field target metadata is invalid'')
       else bindR (ev_layout ev (if app = [] then lh_app (ly_head l) else app) target) (\<lambda>tl.
         let a = path_alias (path_alias_number source + 1) in
         bindR (record_field_path_parts ev operation (q # ps) tl a True) (\<lambda>(g, e).
           Inr (g, link_select e (ly_table tl) a column))))"

definition record_field_path :: "record_env \<Rightarrow> record_layout \<Rightarrow> string \<Rightarrow> string \<Rightarrow> record_error + record_field \<times> string" where
  "record_field_path ev l name operation =
     (let parts = split_on (CHR ''.'') (trim_space name) in
      if list_ex (\<lambda>p. blank p) parts then Inl (query_invalid l ''field path contains an empty segment'')
      else record_field_path_parts ev operation parts l (quote_ident record_alias) False)"

section \<open>Filters\<close>

definition record_filter_comparator :: "string \<Rightarrow> string option" where
  "record_filter_comparator operator = map_of
     [(''eq'', ''=''), (''ne'', ''<>''), (''gt'', ''>''), (''after'', ''>''), (''gte'', ''>=''), (''lt'', ''<''), (''before'', ''<''), (''lte'', ''<='')] operator"

fun cut_dots :: "string \<Rightarrow> (string \<times> string) option" where
  "cut_dots s = find_sub ''..'' s"

definition parse_range_filter_value :: "record_layout \<Rightarrow> record_field \<Rightarrow> string \<Rightarrow> record_error + string \<times> string" where
  "parse_range_filter_value l f v =
     (let bad = Inl (invalid_request ''filter range must use start..end'' [(''entity'', ly_entity l), (''field'', rf_name f)]) in
      case cut_dots v of None \<Rightarrow> bad
      | Some (a, b) \<Rightarrow> if trim_space a = [] \<or> trim_space b = [] then bad else Inr (trim_space a, trim_space b))"

definition list_value_raw :: "record_field \<Rightarrow> string \<Rightarrow> record_error + string" where
  "list_value_raw f v =
     (let kind = rf_value_kind f in
      if kind = ''string'' then Inr (marshal_string v)
      else if kind = ''date'' then (if parse_date_ok v then Inr (marshal_string v) else Inl (validation_error ''field must be a date'' (field_detail f)))
      else if kind = ''datetime'' then (if parse_datetime_ok v then Inr (marshal_string v) else Inl (validation_error ''field must be a datetime'' (field_detail f)))
      else if kind = ''time'' then (if parse_time_ok v then Inr (marshal_string v) else Inl (validation_error ''field must be a time'' (field_detail f)))
      else Inr v)"

definition record_list_value :: "record_env \<Rightarrow> record_layout \<Rightarrow> record_field \<Rightarrow> string \<Rightarrow> record_error + db_value" where
  "record_list_value ev l f v =
     (if rf_type f = ''link'' then storage_value ev l f (marshal_string v)
      else bindR (list_value_raw f v) (record_db_value (ev_bcrypt ev) f))"

definition empty_literal :: string where
  "empty_literal = quote_literal []"

definition blank_clause :: "record_field \<Rightarrow> string \<Rightarrow> bool \<Rightarrow> string" where
  "blank_clause f column wanted =
     (if rf_value_kind f = ''string'' then
        (if wanted then ''('' @ column @ '' IS NULL OR '' @ column @ '' = '' @ empty_literal @ '')''
         else ''('' @ column @ '' IS NOT NULL AND '' @ column @ '' <> '' @ empty_literal @ '')'')
      else column @ (if wanted then '' IS NULL'' else '' IS NOT NULL''))"

definition between_clause :: "record_field \<Rightarrow> string \<Rightarrow> nat \<Rightarrow> string" where
  "between_clause f column n = column @ '' BETWEEN '' @ record_placeholder (n + 1) f @ '' AND '' @ record_placeholder (n + 2) f"

definition like_clause :: "record_field \<Rightarrow> string \<Rightarrow> bool \<Rightarrow> nat \<Rightarrow> string" where
  "like_clause f column wanted n =
     column @ '' '' @ (if wanted then ''ILIKE'' else ''NOT ILIKE'') @ '' '' @ quote_literal ''%'' @ '' || ''
       @ record_placeholder (n + 1) f @ '' || '' @ quote_literal ''%''"

definition compare_clause :: "record_field \<Rightarrow> string \<Rightarrow> string \<Rightarrow> nat \<Rightarrow> string" where
  "compare_clause f column comparator n = column @ '' '' @ comparator @ '' '' @ record_placeholder (n + 1) f"

definition filter_detail :: "record_layout \<Rightarrow> record_field \<Rightarrow> string \<Rightarrow> (string \<times> string) list" where
  "filter_detail l f operator = [(''entity'', ly_entity l), (''field'', rf_name f), (''operator'', operator)]"

definition record_filter_clause :: "record_env \<Rightarrow> record_layout \<Rightarrow> record_field \<times> string \<Rightarrow> filter_term \<Rightarrow> nat \<Rightarrow> record_error + string \<times> db_value list" where
  "record_filter_clause ev l path flt n =
     (let f = fst path; column = snd path; operator = trim_space (ft_operator flt) in
      if operator = [] then Inl (invalid_request ''filter operator is required'' [(''entity'', ly_entity l), (''field'', rf_name f)])
      else if \<not> supports_operator (rf_type f) (rf_value_kind f) operator
      then Inl (invalid_request ''filter operator is not supported for field'' (filter_detail l f operator))
      else if operator = ''empty'' \<or> operator = ''not-empty'' then
        (if trim_space (ft_value flt) \<noteq> []
         then Inl (invalid_request ''filter value is not supported by this operator'' (filter_detail l f operator))
         else Inr (blank_clause f column (operator = ''empty''), []))
      else if operator = ''between'' then
        bindR (parse_range_filter_value l f (ft_value flt)) (\<lambda>(a, b).
        bindR (record_list_value ev l f a) (\<lambda>x. bindR (record_list_value ev l f b) (\<lambda>y.
          Inr (between_clause f column n, [x, y]))))
      else if operator = ''contains'' \<or> operator = ''not-contains'' then
        bindR (record_list_value ev l f (ft_value flt)) (\<lambda>x.
          Inr (like_clause f column (operator = ''contains'') n, [x]))
      else bindR (record_list_value ev l f (ft_value flt)) (\<lambda>x.
        case record_filter_comparator operator of
          None \<Rightarrow> Inl (invalid_request ''filter operator is not supported for field'' (filter_detail l f operator))
        | Some c \<Rightarrow> Inr (compare_clause f column c n, [x])))"

definition list_where_step :: "record_env \<Rightarrow> record_layout \<Rightarrow> string list \<times> db_value list \<Rightarrow> filter_term \<Rightarrow> record_error + string list \<times> db_value list" where
  "list_where_step ev l st flt =
     (let name = trim_space (ft_field flt) in
      if name = [] then Inl (invalid_request ''filter field is required'' [(''entity'', ly_entity l)])
      else bindR (record_field_path ev l name ''filter'') (\<lambda>path.
        bindR (record_filter_clause ev l path flt (length (snd st))) (\<lambda>(c, vs).
          Inr (fst st @ [c], snd st @ vs))))"

definition list_where :: "record_env \<Rightarrow> record_layout \<Rightarrow> filter_term list \<Rightarrow> record_error + string \<times> db_value list" where
  "list_where ev l flts =
     (if flts = [] then Inr ([], [])
      else bindR (foldR (list_where_step ev l) ([], []) (sort_filters flts)) (\<lambda>(cs, vs). Inr (join '' AND '' cs, vs)))"

section \<open>Order\<close>

definition order_step :: "record_layout \<Rightarrow> string list \<times> string list \<times> bool \<Rightarrow> sort_term \<Rightarrow> record_error + string list \<times> string list \<times> bool" where
  "order_step l st t =
     (case st of (seen, terms, has_id) \<Rightarrow>
      let name = trim_space (so_field t) in
      if name = [] then Inl (invalid_request ''sort field is required'' [(''entity'', ly_entity l)])
      else if name \<in> set seen then Inl (invalid_request ''sort field is duplicated'' [(''entity'', ly_entity l), (''field'', name)])
      else bindR (list_field l name ''sort'') (\<lambda>f.
        Inr (seen @ [name], terms @ [quote_ident (rf_column f) @ (if so_desc t then '' DESC'' else '' ASC'')], has_id \<or> rf_name f = ''id'')))"

definition list_order_by :: "record_layout \<Rightarrow> sort_term list \<Rightarrow> record_error + string" where
  "list_order_by l ts =
     (if ts = [] then Inr (quote_ident ''id'' @ '' ASC'')
      else bindR (foldR (order_step l) ([], [], False) ts) (\<lambda>(_, terms, has_id).
        Inr (join '', '' (terms @ (if has_id then [] else [quote_ident ''id'' @ '' ASC''])))))"

record list_query =
  lq_where :: string
  lq_order_by :: string
  lq_args :: "db_value list"

definition build_list_query :: "record_env \<Rightarrow> record_layout \<Rightarrow> list_params \<Rightarrow> record_error + list_query" where
  "build_list_query ev l p =
     bindR (list_where ev l (lp_filters p)) (\<lambda>(w, args).
     bindR (list_order_by l (lp_sort p)) (\<lambda>ob. Inr \<lparr>lq_where = w, lq_order_by = ob, lq_args = args\<rparr>))"

section \<open>Aggregates\<close>

record aggregate_spec =
  ag_function :: string
  ag_field :: string
  ag_alias :: string

definition aggregate_orderable :: "record_field \<Rightarrow> bool" where
  "aggregate_orderable f \<longleftrightarrow>
     rf_value_kind f \<in> set [''string'', ''integer'', ''number'', ''date'', ''datetime'', ''time''] \<and> rf_type f \<noteq> ''link''"

definition aggregate_expression :: "record_env \<Rightarrow> record_layout \<Rightarrow> string \<Rightarrow> string \<Rightarrow> record_error + string" where
  "aggregate_expression ev l function0 field0 =
     (let fn = to_lower (trim_space function0); name = trim_space field0 in
      if fn \<notin> set [''count'', ''sum'', ''min'', ''max''] then Inl (query_invalid l ''aggregate function is not supported'')
      else if fn = ''count'' \<and> name = [] then Inr ''COUNT(*)''
      else if name = [] then Inl (query_invalid l ''aggregate field is required'')
      else bindR (record_field_path ev l name ''aggregate'') (\<lambda>(f, e).
        if fn = ''sum'' \<and> rf_value_kind f \<noteq> ''integer'' \<and> rf_value_kind f \<noteq> ''number''
        then Inl (query_invalid l ''sum requires a numeric field'')
        else if (fn = ''min'' \<or> fn = ''max'') \<and> \<not> aggregate_orderable f
        then Inl (query_invalid l ''min and max require an orderable field'')
        else Inr (to_upper_ascii fn @ ''('' @ e @ '')'')))"

definition aggregate_alias :: "string \<Rightarrow> string \<Rightarrow> nat \<Rightarrow> string" where
  "aggregate_alias fn field0 i =
     (let field = trim_space field0 in
      if field = [] then fn
      else fn @ ''_'' @ map (\<lambda>c. if c = CHR ''.'' then CHR ''_'' else c) field @ ''_'' @ show_nat (i + 1))"

definition aggregate_column :: "aggregate_spec \<Rightarrow> nat \<Rightarrow> string" where
  "aggregate_column s i = (let a = trim_space (ag_alias s) in if a = [] then aggregate_alias (ag_function s) (ag_field s) i else a)"

definition aggregate_select :: "record_env \<Rightarrow> record_layout \<Rightarrow> aggregate_spec list \<Rightarrow> record_error + string list" where
  "aggregate_select ev l specs =
     mapR (\<lambda>(i, s). bindR (aggregate_expression ev l (ag_function s) (ag_field s)) (\<lambda>e.
       Inr (e @ '' AS '' @ quote_ident (aggregate_column s i)))) (enumerate 0 specs)"

section \<open>Values stay out of the text\<close>

text \<open>The clauses of two searches over the same fields and operators have the same text, whatever the values are.\<close>

lemma record_filter_clause_text:
  assumes "record_filter_clause ev l path a n = Inr (c, vs)" "record_filter_clause ev l path b n = Inr (d, ws)"
    "trim_space (ft_operator a) = trim_space (ft_operator b)"
  shows "c = d \<and> length vs = length ws"
proof -
  let ?op = "trim_space (ft_operator b)"
  consider "?op = ''empty'' \<or> ?op = ''not-empty''" | "?op = ''between''" | "?op = ''contains'' \<or> ?op = ''not-contains''"
    | "?op \<noteq> ''empty''" "?op \<noteq> ''not-empty''" "?op \<noteq> ''between''" "?op \<noteq> ''contains''" "?op \<noteq> ''not-contains''" by blast
  then show ?thesis
  proof cases
    case 1
    with assms show ?thesis by (auto simp: record_filter_clause_def Let_def split: if_splits)
  next
    case 2
    with assms show ?thesis by (auto simp: record_filter_clause_def Let_def bindR_Inr_iff split: if_splits)
  next
    case 3
    with assms show ?thesis by (auto simp: record_filter_clause_def Let_def bindR_Inr_iff split: if_splits)
  next
    case 4
    with assms show ?thesis
      by (auto simp: record_filter_clause_def Let_def bindR_Inr_iff split: if_splits option.splits)
  qed
qed

end
