(* ===== verification/Search_Guarantees.thy ===== *)
theory Search_Guarantees
  imports Record_Search Record_Values
begin

text \<open>
  What the clauses of a search are built from: the text depends on the fields and operators alone, and its
  placeholders number the arguments in order.  Names stored in metadata contain no dollar sign, as every accepted name
  is kebab-case; the hypotheses say just that.
\<close>

section \<open>Names without a dollar sign\<close>

definition plain_options :: "record_field \<Rightarrow> bool" where
  "plain_options f \<longleftrightarrow> no_dollar (rf_column f) \<and> no_dollar (fo_app (rf_options f)) \<and> no_dollar (fo_entity (rf_options f))"

definition plain_layout :: "record_layout \<Rightarrow> bool" where
  "plain_layout l \<longleftrightarrow> no_dollar (ly_table l) \<and> no_dollar (lh_app (ly_head l)) \<and> list_all plain_options (ly_fields l)"

definition plain_env :: "record_env \<Rightarrow> bool" where
  "plain_env ev \<longleftrightarrow> (\<forall>app entity l. ev_layout ev app entity = Inr l \<longrightarrow> plain_layout l)"

lemma link_target_plain:
  "plain_options f \<Longrightarrow> no_dollar (lh_app (ly_head l)) \<Longrightarrow> link_target_table l f = Some t \<Longrightarrow> no_dollar t"
  by (auto simp: link_target_table_def Let_def plain_options_def trim_space_plain entity_table_plain split: if_splits)

lemma system_fields_plain: "system_record_field_by_name n = Some f \<Longrightarrow> no_dollar (sf_column f)"
proof -
  assume "system_record_field_by_name n = Some f"
  then have "f \<in> set system_record_fields" by (auto simp: system_record_field_by_name_def dest: find_SomeD)
  moreover have "\<forall>f\<in>set system_record_fields. no_dollar (sf_column f)" by code_simp
  ultimately show ?thesis by blast
qed

lemma list_field_plain:
  assumes "list_field l n operation = Inr f" "plain_layout l"
  shows "plain_options f"
proof (cases "system_record_field_by_name n")
  case None
  then obtain g where g: "field_by_name l n = Some g" and f: "f = g"
    using assms(1) by (auto simp: list_field_def split: option.splits if_splits)
  then have "g \<in> set (ly_fields l)" by (auto simp: field_by_name_def dest: find_SomeD)
  with assms(2) show ?thesis by (auto simp: f plain_layout_def list_all_iff)
next
  case (Some g)
  with assms(1) have "f = system_list_field g" by (simp add: list_field_def)
  with system_fields_plain [OF Some] show ?thesis
    by (auto simp: plain_options_def system_list_field_def no_field_options_def)
qed

lemma path_alias_plain: "no_dollar (path_alias n)"
  using show_nat_plain [of n] by (simp add: path_alias_def)

lemma link_select_plain:
  "no_dollar e \<Longrightarrow> no_dollar t \<Longrightarrow> no_dollar a \<Longrightarrow> no_dollar c \<Longrightarrow> no_dollar (link_select e t a c)"
  by (auto simp: link_select_def)

lemma path_parts_plain:
  assumes "record_field_path_parts ev operation ps l source nested = Inr (f, e)"
    "plain_layout l" "plain_env ev" "no_dollar source"
  shows "no_dollar e"
  using assms
proof (induction ev operation ps l source nested arbitrary: f e rule: record_field_path_parts.induct)
  case (2 ev operation p l source nested)
  then obtain g where g: "list_field l p operation = Inr g" by (auto simp: bindR_Inr_iff)
  then have pg: "plain_options g" using 2 list_field_plain by blast
  then have col: "no_dollar (quote_ident (rf_column g))" by (auto simp: plain_options_def)
  have app: "no_dollar (lh_app (ly_head l))" using 2 by (simp add: plain_layout_def)
  have a: "no_dollar (path_alias n @ ''.'' @ quote_ident ''name'')" for n using path_alias_plain quoted_id_plain by auto
  show ?case using 2 g col
    by (auto simp: Let_def bindR_Inr_iff link_select_plain path_alias_plain split: if_splits option.splits
        dest: link_target_plain [OF pg app])
next
  case (3 ev operation p q ps l source nested)
  then obtain g where g: "list_field l p operation = Inr g" by (auto simp: bindR_Inr_iff)
  then have pg: "plain_options g" using 3 list_field_plain by blast
  let ?app = "if trim_space (fo_app (rf_options g)) = [] then lh_app (ly_head l) else trim_space (fo_app (rf_options g))"
  let ?a = "path_alias (path_alias_number source + 1)"
  obtain tl h d where tl: "ev_layout ev ?app (trim_space (fo_entity (rf_options g))) = Inr tl"
    and rec: "record_field_path_parts ev operation (q # ps) tl ?a True = Inr (h, d)"
    and e: "e = link_select d (ly_table tl) ?a (source @ ''.'' @ quote_ident (rf_column g))"
    and ty: "rf_type g = ''link''" and tg: "trim_space (fo_entity (rf_options g)) \<noteq> []"
    using 3(2) g by (auto simp: Let_def bindR_Inr_iff split: if_splits)
  have ptl: "plain_layout tl" using tl 3(4) by (auto simp: plain_env_def)
  have "no_dollar d"
    by (rule "3.IH" [OF refl refl refl _ _ refl rec ptl 3(4) path_alias_plain]) (use ty tg in simp_all)
  moreover have "no_dollar (source @ ''.'' @ quote_ident (rf_column g))" using 3(5) pg by (auto simp: plain_options_def)
  moreover have "no_dollar (ly_table tl)" using ptl by (simp add: plain_layout_def)
  ultimately show ?case unfolding e by (intro link_select_plain path_alias_plain)
qed simp

lemma field_path_plain:
  assumes "record_field_path ev l n operation = Inr (f, e)" "plain_layout l" "plain_env ev"
  shows "no_dollar e"
  using assms path_parts_plain quoted_id_plain(3) by (fastforce simp: record_field_path_def Let_def split: if_splits)

section \<open>Placeholders of a clause\<close>

lemma comparators_plain: "record_filter_comparator operator = Some c \<Longrightarrow> no_dollar c"
  by (auto simp: record_filter_comparator_def split: if_splits)

lemma filter_clause_placeholders:
  assumes "record_filter_clause ev l (f, e) flt n = Inr (c, vs)" "no_dollar e"
  shows "placeholders c = [n + 1..<n + 1 + length vs]"
proof -
  note one = placeholders_record_placeholder [of "[]", simplified]
  have pct: "no_dollar (quote_literal ''%'')" "no_dollar empty_literal" by code_simp+
  have between: "placeholders (between_clause f e n) = [n + 1, n + 2]"
    using assms(2) placeholders_record_placeholder [of "'' AND '' @ record_placeholder (n + 2) f" "n + 1" f]
    by (simp add: between_clause_def one is_digit_def)
  have like: "placeholders (like_clause f e w n) = [n + 1]" for w
    using assms(2) placeholders_record_placeholder [of "'' || '' @ quote_literal ''%''" "n + 1" f] pct
    by (simp add: like_clause_def is_digit_def)
  have cmp: "placeholders (compare_clause f e w n) = [n + 1]" if "no_dollar w" for w
    using assms(2) that by (simp add: compare_clause_def one)
  have blank: "placeholders (blank_clause f e b) = []" for b using assms(2) pct by (simp add: blank_clause_def)
  consider (empty) b where "c = blank_clause f e b" "vs = []"
    | (between) x y where "c = between_clause f e n" "vs = [x, y]"
    | (like) w x where "c = like_clause f e w n" "vs = [x]"
    | (compare) w x where "c = compare_clause f e w n" "no_dollar w" "vs = [x]"
    using assms(1) comparators_plain
    by (auto simp: record_filter_clause_def Let_def bindR_Inr_iff split: if_splits option.splits)
  then show ?thesis
  proof cases
    case empty
    then show ?thesis by (simp add: blank)
  next
    case between
    then show ?thesis by (simp add: \<open>placeholders (between_clause f e n) = _\<close> upt_rec)
  next
    case like
    then show ?thesis by (simp add: \<open>\<And>w. placeholders (like_clause f e w n) = _\<close>)
  next
    case compare
    then show ?thesis by (simp add: cmp)
  qed
qed

section \<open>The whole WHERE clause\<close>

lemma list_where_stepE:
  assumes "list_where_step ev l (cs, vs) flt = Inr (cs', vs')"
  obtains f e c ws where "record_field_path ev l (trim_space (ft_field flt)) ''filter'' = Inr (f, e)"
    "record_filter_clause ev l (f, e) flt (length vs) = Inr (c, ws)" "cs' = cs @ [c]" "vs' = vs @ ws"
  using assms by (auto simp: list_where_step_def Let_def bindR_Inr_iff split: if_splits)

lemma list_where_step_placeholders:
  assumes "list_where_step ev l (cs, vs) flt = Inr (cs', vs')" "plain_layout l" "plain_env ev"
    and "placeholders (join '' AND '' cs) = [1..<1 + length vs]" "cs = [] \<longrightarrow> vs = []"
  shows "placeholders (join '' AND '' cs') = [1..<1 + length vs'] \<and> cs' \<noteq> []"
proof -
  obtain f e c ws where p: "record_field_path ev l (trim_space (ft_field flt)) ''filter'' = Inr (f, e)"
    and c: "record_filter_clause ev l (f, e) flt (length vs) = Inr (c, ws)" and r: "cs' = cs @ [c]" "vs' = vs @ ws"
    using assms(1) by (rule list_where_stepE)
  have e: "no_dollar e" using field_path_plain [OF p assms(2,3)] .
  note clause = filter_clause_placeholders [OF c e]
  show ?thesis
  proof (cases "cs = []")
    case True
    with assms(5) r clause show ?thesis by simp
  next
    case False
    then have "join '' AND '' cs' = join '' AND '' cs @ '' AND '' @ c" by (simp add: r join_snoc)
    then have "placeholders (join '' AND '' cs') = placeholders (join '' AND '' cs) @ placeholders ('' AND '' @ c)"
      by (simp only:) (rule placeholders_append, simp add: is_digit_def)
    also have "\<dots> = [1..<1 + length vs] @ [length vs + 1..<length vs + 1 + length ws]" using assms(4) clause by simp
    also have "\<dots> = [1..<1 + length vs']" by (simp add: r upt_add_eq_append [of 1 "Suc (length vs)" "length ws", simplified] add.commute)
    finally show ?thesis by (simp add: r)
  qed
qed

definition filter_shape :: "filter_term \<Rightarrow> string list" where
  "filter_shape f = [ft_field f, ft_operator f]"

lemma filter_shape_mono: "filter_rank f \<le> filter_rank g \<Longrightarrow> filter_shape f \<le> filter_shape g"
  by (auto simp: filter_rank_def filter_shape_def)

lemma shapes_of_sorted: "map filter_shape (sort_filters fs) = sort (map filter_shape fs)"
proof (rule properties_for_sort [symmetric])
  show "mset (map filter_shape (sort_filters fs)) = mset (map filter_shape fs)" by (simp add: sort_filters_def)
  have "sorted (map filter_rank (sort_filters fs))" by (simp add: sort_filters_def)
  then show "sorted (map filter_shape (sort_filters fs))"
    unfolding sorted_map by (rule sorted_wrt_mono_rel [rotated]) (rule filter_shape_mono)
qed

lemma list_where_step_text:
  assumes "list_where_step ev l (cs, vs) a = Inr (cs1, vs1)" "list_where_step ev l (cs, ws) b = Inr (cs2, ws1)"
    "filter_shape a = filter_shape b" "length vs = length ws"
  shows "cs1 = cs2 \<and> length vs1 = length ws1"
proof -
  have same: "ft_field a = ft_field b" "trim_space (ft_operator a) = trim_space (ft_operator b)"
    using assms(3) by (simp_all add: filter_shape_def)
  obtain f e c ds where a: "record_field_path ev l (trim_space (ft_field a)) ''filter'' = Inr (f, e)"
    and c: "record_filter_clause ev l (f, e) a (length vs) = Inr (c, ds)" "cs1 = cs @ [c]" "vs1 = vs @ ds"
    using assms(1) by (rule list_where_stepE)
  obtain g h d es where b: "record_field_path ev l (trim_space (ft_field b)) ''filter'' = Inr (g, h)"
    and d: "record_filter_clause ev l (g, h) b (length ws) = Inr (d, es)" "cs2 = cs @ [d]" "ws1 = ws @ es"
    using assms(2) by (rule list_where_stepE)
  have "(g, h) = (f, e)" using a b same(1) by simp
  with d(1) assms(4) have d': "record_filter_clause ev l (f, e) b (length vs) = Inr (d, es)" by simp
  from record_filter_clause_text [OF c(1) d' same(2)] c(2,3) d(2,3) assms(4) show ?thesis by simp
qed

lemma list_where_fold_text:
  assumes "list_all2 (\<lambda>a b. filter_shape a = filter_shape b) fs gs"
    "foldR (list_where_step ev l) (cs, vs) fs = Inr (cs1, vs1)" "foldR (list_where_step ev l) (cs, ws) gs = Inr (cs2, ws1)"
    "length vs = length ws"
  shows "cs1 = cs2 \<and> length vs1 = length ws1"
  using assms
proof (induction fs gs arbitrary: cs vs ws rule: list_all2_induct)
  case (Cons a fs b gs)
  obtain ca va where a: "list_where_step ev l (cs, vs) a = Inr (ca, va)" "foldR (list_where_step ev l) (ca, va) fs = Inr (cs1, vs1)"
    using Cons.prems(1) by (auto split: sum.splits)
  obtain cb wb where b: "list_where_step ev l (cs, ws) b = Inr (cb, wb)" "foldR (list_where_step ev l) (cb, wb) gs = Inr (cs2, ws1)"
    using Cons.prems(2) by (auto split: sum.splits)
  from list_where_step_text [OF a(1) b(1) Cons.hyps(1) Cons.prems(3)] a(2) b(2) show ?case using Cons.IH by blast
qed simp

text \<open>C26: the text of a WHERE clause is determined by the fields and operators of its filters: their values appear
  only as arguments, each behind its own placeholder, numbered in order.\<close>

theorem list_where_parameterised:
  assumes first: "list_where ev l fs = Inr (w, vs)" and second: "list_where ev l gs = Inr (w', ws)"
    and shape: "map filter_shape fs = map filter_shape gs" and plain: "plain_layout l" "plain_env ev"
  shows "w' = w \<and> length ws = length vs \<and> placeholders w = [1..<1 + length vs]"
proof (cases "fs = []")
  case True
  with first second shape show ?thesis by (auto simp: list_where_def)
next
  case False
  with shape have ne: "gs \<noteq> []" by auto
  obtain cs where c: "foldR (list_where_step ev l) ([], []) (sort_filters fs) = Inr (cs, vs)" "w = join '' AND '' cs"
    using first False by (auto simp: list_where_def bindR_Inr_iff)
  obtain ds where d: "foldR (list_where_step ev l) ([], []) (sort_filters gs) = Inr (ds, ws)" "w' = join '' AND '' ds"
    using second ne by (auto simp: list_where_def bindR_Inr_iff)
  have "map filter_shape (sort_filters fs) = map filter_shape (sort_filters gs)" by (simp only: shapes_of_sorted shape)
  then have "list_all2 (\<lambda>a b. filter_shape a = filter_shape b) (sort_filters fs) (sort_filters gs)"
    by (simp add: list_all2_conv_all_nth list_eq_iff_nth_eq)
  from list_where_fold_text [OF this c(1) d(1)] have same: "cs = ds \<and> length vs = length ws" by simp
  let ?P = "\<lambda>(cs, vs). placeholders (join '' AND '' cs) = [1..<1 + length (vs :: db_value list)] \<and> (cs = [] \<longrightarrow> vs = [])"
  have "?P (cs, vs)"
  proof (rule foldR_keeps [OF c(1)])
    show "?P ([], [])" by simp
    fix st x t assume "?P st" "list_where_step ev l st x = Inr t"
    then show "?P t" using list_where_step_placeholders [OF _ plain] by (cases st; cases t) blast
  qed
  with same c(2) d(2) show ?thesis by simp
qed

section \<open>Samples\<close>

definition sample_record_field :: "string \<Rightarrow> string \<Rightarrow> field_options \<Rightarrow> field_meta" where
  "sample_record_field name ty opts = \<lparr>fm_id = 1, fm_name = name, fm_type = ty, fm_required = False, fm_default = [],
     fm_options = Some opts, fm_fetch = Some []\<rparr>"

definition sample_head :: "string \<Rightarrow> field_meta list \<Rightarrow> entity_head" where
  "sample_head key fs = \<lparr>eh_id = 7, eh_app = ''crm'', eh_key = key, eh_slug = Some key, eh_label = key, eh_single = False, eh_system = False,
     eh_collection = False, eh_private = False, eh_owner_field = [], eh_naming = None, eh_tree = None, eh_fields = fs\<rparr>"

definition sample_layout_of :: "string \<Rightarrow> field_meta list \<Rightarrow> record_layout" where
  "sample_layout_of key fs = (case new_record_layout (EntityMeta (sample_head key fs) []) of Inr l \<Rightarrow> l | Inl _ \<Rightarrow> RecordLayout undefined [])"

definition sample_link :: "string \<Rightarrow> field_options" where
  "sample_link target = no_field_options\<lparr>fo_entity := target\<rparr>"

definition sample_layouts :: "string \<Rightarrow> string \<Rightarrow> record_error + record_layout" where
  "sample_layouts app entity =
     (if entity = ''customer'' then Inr (sample_layout_of ''customer'' [sample_record_field ''territory'' ''link'' (sample_link ''territory''),
        sample_record_field ''title'' ''text'' no_field_options])
      else Inl (not_found ''entity not found'' []))"

definition sample_env :: record_env where
  "sample_env = \<lparr>ev_link = (\<lambda>t n. Inr (Some 5)), ev_layout = sample_layouts, ev_bcrypt = (\<lambda>p. None), ev_encrypt = (\<lambda>b s. Inl (internal_error [] []))\<rparr>"

definition sample_order_layout :: record_layout where
  "sample_order_layout = sample_layout_of ''order'' [sample_record_field ''customer'' ''link'' (sample_link ''customer''),
     sample_record_field ''total'' ''decimal'' no_field_options, sample_record_field ''note'' ''text'' no_field_options]"

definition sample_filters :: "string \<Rightarrow> filter_term list" where
  "sample_filters v = [\<lparr>ft_field = ''note'', ft_operator = ''contains'', ft_value = v\<rparr>,
     \<lparr>ft_field = ''customer'', ft_operator = ''eq'', ft_value = v\<rparr>,
     \<lparr>ft_field = ''customer.title'', ft_operator = ''ne'', ft_value = v\<rparr>]"

definition sample_where_text :: "string \<Rightarrow> string" where
  "sample_where_text v = (case list_where sample_env sample_order_layout (sample_filters v) of Inr (w, _) \<Rightarrow> w | Inl e \<Rightarrow> rx_message e)"

lemma sample_where:
  "sample_where_text ''x'' =
     ''\"customer_id\" = $1::bigint AND (SELECT \"_dygo_path_1\".\"title\" FROM \"crm_customer\" AS \"_dygo_path_1\" WHERE \"_dygo_path_1\".\"id\" = \"_dygo_record\".\"customer_id\") <> $2 AND \"note\" ILIKE '' @ quote_literal ''%'' @ '' || $3 || '' @ quote_literal ''%''"
  by code_simp

text \<open>A link at the end of a path: the inner SELECT names its table like the outer one, so the column it compares
  with is looked up in the wrong table.\<close>

lemma nested_link_shadowed:
  "map_sum rx_message snd (record_field_path sample_env sample_order_layout ''customer.territory'' ''filter'') =
     Inr ''(SELECT (SELECT \"_dygo_path_1\".\"name\" FROM \"crm_territory\" AS \"_dygo_path_1\" WHERE \"_dygo_path_1\".\"id\" = \"_dygo_path_1\".\"territory_id\") FROM \"crm_customer\" AS \"_dygo_path_1\" WHERE \"_dygo_path_1\".\"id\" = \"_dygo_record\".\"customer_id\")''"
  by code_simp

text \<open>A numeric filter reads the first JSON value of its text and ignores what follows.\<close>

lemma numeric_filter_prefix:
  "list_where sample_env sample_order_layout [\<lparr>ft_field = ''total'', ft_operator = ''eq'', ft_value = ''12 or more''\<rparr>] =
     Inr (''\"total\" = $1::numeric'', [DText ''12''])"
  by code_simp

lemma sample_plain: "plain_layout sample_order_layout" "plain_env sample_env"
proof -
  show "plain_layout sample_order_layout" by code_simp
  let ?c = "sample_layout_of ''customer'' [sample_record_field ''territory'' ''link'' (sample_link ''territory''),
        sample_record_field ''title'' ''text'' no_field_options]"
  have c: "plain_layout ?c" by code_simp
  have "l = ?c" if "sample_layouts app entity = Inr l" for app entity l
    using that by (simp add: sample_layouts_def split: if_splits)
  with c show "plain_env sample_env" by (auto simp: plain_env_def sample_env_def)
qed

theorem list_where_parameterised_witness:
  "sample_where_text ''x'' = sample_where_text ''open..closed'' \<and> placeholders (sample_where_text ''x'') = [1, 2, 3]"
proof -
  have three: "(case list_where sample_env sample_order_layout (sample_filters v) of Inr (w, vs) \<Rightarrow> length vs = 3 | Inl _ \<Rightarrow> False)"
    if "v = ''x'' \<or> v = ''open..closed''" for v
    using that by (elim disjE) (simp_all only:, code_simp+)
  obtain w vs where a: "list_where sample_env sample_order_layout (sample_filters ''x'') = Inr (w, vs)" "length vs = 3"
    using three [of "''x''"] by (auto split: sum.splits)
  obtain w' ws where b: "list_where sample_env sample_order_layout (sample_filters ''open..closed'') = Inr (w', ws)"
    using three [of "''open..closed''"] by (auto split: sum.splits)
  have "map filter_shape (sample_filters ''x'') = map filter_shape (sample_filters ''open..closed'')" by code_simp
  from list_where_parameterised [OF a(1) b this sample_plain] a b show ?thesis
    by (simp add: sample_where_text_def upt_rec)
qed

end
