(* ===== verification/Record_Write.thy ===== *)
theory Record_Write
  imports Record_Values Go_Decode
begin

text \<open>
  What a write is made of (\<^verbatim>\<open>internal/db/records.go\<close>): the checks of the submitted
  fields, the rows of a submitted collection, and the mutation, the columns, placeholders and
  arguments of the statement.  An input is a map from field names to raw JSON; Go visits it in no
  fixed order, here in the order of the list, which only decides which of several errors is reported.
\<close>

section \<open>Collection rows\<close>

definition collection_max_rows :: int where
  "collection_max_rows = 500"

definition random_name_retries :: nat where
  "random_name_retries = 5"

record row_input =
  ri_id :: int
  ri_ordinal :: int
  ri_input :: record_input

definition input_raw :: "record_input \<Rightarrow> string \<Rightarrow> string" where
  "input_raw input n = (case map_of input n of None \<Rightarrow> [] | Some r \<Rightarrow> r)"

definition collection_system_field :: "string \<Rightarrow> string \<Rightarrow> record_field" where
  "collection_system_field name column =
     name_record_field\<lparr>rf_name := name, rf_type := ''bigint'', rf_required := False, rf_column := column, rf_listable := False,
       rf_nameable := False, rf_value_kind := ''integer'', rf_system_name := False\<rparr>"

definition collection_row_id :: "string \<Rightarrow> string \<Rightarrow> record_error + int" where
  "collection_row_id field raw =
     bindR (json_int_value (collection_system_field ''id'' []) raw) (\<lambda>i.
       if i \<le> 0 then Inl (validation_error ''collection row id must be a positive integer'' [(''field'', field), (''row-id'', show_int i)])
       else Inr i)"

definition collection_row_system_input :: "string \<Rightarrow> bool" where
  "collection_row_system_input n \<longleftrightarrow> n \<in> {''name'', ''created-at'', ''updated-at'', ''owner'', ''created_at'', ''updated_at'',
     ''parent-entity-id'', ''parent_entity_id'', ''parent-record-id'', ''parent_record_id'', ''parent-field-id'', ''parent_field_id'', ''ordinal''}"

definition row_detail :: "record_layout \<Rightarrow> string \<Rightarrow> nat \<Rightarrow> (string \<times> string) list" where
  "row_detail l field index = [(''entity'', ly_entity l), (''field'', field), (''row'', show_nat (index + 1))]"

definition row_member :: "record_layout \<Rightarrow> string \<Rightarrow> bool \<Rightarrow> nat \<Rightarrow> int \<times> record_input \<Rightarrow> string \<times> string \<Rightarrow>
    record_error + int \<times> record_input" where
  "row_member l field allow_ids index st p =
     (if fst p = ''id'' then
        (if raw_is_null (snd p) then Inr st
         else if \<not> allow_ids then Inl (validation_error ''collection row id cannot be written on create'' (row_detail l field index))
         else bindR (collection_row_id field (snd p)) (\<lambda>i. Inr (i, snd st)))
      else if collection_row_system_input (fst p) then Inr st
      else Inr (fst st, snd st @ [p]))"

definition row_step :: "record_layout \<Rightarrow> string \<Rightarrow> bool \<Rightarrow> row_input list \<Rightarrow> nat \<times> record_input option \<Rightarrow> record_error + row_input list" where
  "row_step l field allow_ids rows x =
     (case snd x of None \<Rightarrow> Inl (validation_error ''collection row must be an object'' (row_detail l field (fst x)))
      | Some members \<Rightarrow> bindR (foldR (row_member l field allow_ids (fst x)) (0, []) members) (\<lambda>(i, input).
          if i > 0 \<and> i \<in> set (map ri_id rows)
          then Inl (validation_error ''collection row id is duplicated'' [(''entity'', ly_entity l), (''field'', field), (''row-id'', show_int i)])
          else Inr (rows @ [\<lparr>ri_id = i, ri_ordinal = int (fst x) + 1, ri_input = input\<rparr>])))"

definition collection_row_inputs :: "record_layout \<Rightarrow> string \<Rightarrow> string \<Rightarrow> bool \<Rightarrow> record_error + row_input list" where
  "collection_row_inputs l field raw allow_ids =
     (let at = [(''entity'', ly_entity l), (''field'', field)] in
      case map_of (ly_collections l) field of
        None \<Rightarrow> Inl (internal_error ''collection metadata is missing for field'' at)
      | Some c \<Rightarrow>
          if raw_is_null raw then Inl (validation_error ''collection field must be an array'' at)
          else case raw_rows raw of
            None \<Rightarrow> Inl (validation_error ''collection field must be an array'' at)
          | Some payload \<Rightarrow>
              if int (length payload) > collection_max_rows
              then Inl (validation_error ''collection field has too many rows'' (at @ [(''max'', show_int collection_max_rows)]))
              else if rf_required (cn_field c) \<and> payload = []
              then Inl (validation_error ''required collection field must include at least one row'' at)
              else foldR (row_step l field allow_ids) [] (enumerate 0 payload))"

section \<open>The fields of an input\<close>

definition allows_name_input :: "record_layout \<Rightarrow> bool" where
  "allows_name_input l \<longleftrightarrow> nm_strategy (ly_naming l) = ''manual''"

definition check_field :: "record_layout \<Rightarrow> bool \<Rightarrow> bool \<Rightarrow> string \<Rightarrow> string \<Rightarrow> record_error + unit" where
  "check_field l create match name raw =
     (let at = [(''entity'', ly_entity l), (''field'', name)] in
      if is_system_record_field name \<and> \<not> (match \<and> name = ''name'') \<and> \<not> (create \<and> allows_name_input l)
      then Inl (validation_error ''system fields cannot be written'' at)
      else if match \<and> name = ''name'' then guardR (\<not> raw_is_null raw) (validation_error ''match field cannot be null'' at)
      else case field_by_name l name of
        None \<Rightarrow> Inl (validation_error ''unknown field'' at)
      | Some f \<Rightarrow>
          if \<not> rf_storage f then
            (if rf_type f = ''collection'' \<and> \<not> match then bindR (collection_row_inputs l name raw (\<not> create)) (\<lambda>_. Inr ())
             else Inl (validation_error ''field is not supported by record runtime'' at))
          else if match \<and> rf_type f = ''secret''
          then Inl (validation_error ''write-only field cannot be used for matching'' [(''field'', name)])
          else guardR (\<not> (raw_is_null raw \<and> rf_required f)) (validation_error ''required field cannot be null'' at))"

definition validate_input_fields :: "record_layout \<Rightarrow> record_input \<Rightarrow> bool \<Rightarrow> bool \<Rightarrow> record_error + unit" where
  "validate_input_fields l input create match =
     foldR (\<lambda>_ p. check_field l create match (fst p) (snd p)) () input"

definition validate_update_fields :: "record_layout \<Rightarrow> record_input \<Rightarrow> record_error + unit" where
  "validate_update_fields l input = validate_input_fields l input False False"

definition validate_match_fields :: "record_layout \<Rightarrow> record_input \<Rightarrow> record_error + unit" where
  "validate_match_fields l input = validate_input_fields l input False True"

definition needs_input :: "record_field \<Rightarrow> bool" where
  "needs_input f \<longleftrightarrow> rf_required f \<and> rf_default f = [] \<and> \<not> rf_system_name f"

definition validate_create_input :: "record_layout \<Rightarrow> record_input \<Rightarrow> record_error + unit" where
  "validate_create_input l input =
     bindR (validate_input_fields l input True False) (\<lambda>_.
       foldR (\<lambda>_ f. guardR (needs_input f \<longrightarrow> map_of input (rf_name f) \<noteq> None)
         (validation_error ''required field is missing'' [(''entity'', ly_entity l), (''field'', rf_name f)])) () (ly_fields l))"

section \<open>Mutations\<close>

record record_mutation =
  mu_columns :: "string list"
  mu_placeholders :: "string list"
  mu_values :: "db_value list"

definition no_mutation :: record_mutation where
  "no_mutation = \<lparr>mu_columns = [], mu_placeholders = [], mu_values = []\<rparr>"

definition add_column :: "record_field \<Rightarrow> db_value \<Rightarrow> record_mutation \<Rightarrow> record_mutation" where
  "add_column f v m = \<lparr>mu_columns = mu_columns m @ [rf_column f],
     mu_placeholders = mu_placeholders m @ [record_placeholder (length (mu_values m) + 1) f], mu_values = mu_values m @ [v]\<rparr>"

definition sorted_input_names :: "record_input \<Rightarrow> string list" where
  "sorted_input_names input = sort (map fst input)"

definition write_step :: "record_env \<Rightarrow> record_layout \<Rightarrow> record_input \<Rightarrow> record_mutation \<Rightarrow> string \<Rightarrow> record_error + record_mutation" where
  "write_step ev l input m name =
     (case field_by_name l name of
        None \<Rightarrow> Inl (validation_error ''unknown field'' [(''entity'', ly_entity l), (''field'', name)])
      | Some f \<Rightarrow>
          if rf_type f = ''collection'' then Inr m
          else if \<not> rf_storage f
          then Inl (validation_error ''field is not supported by record runtime'' [(''entity'', ly_entity l), (''field'', name)])
          else bindR (storage_value ev l f (input_raw input name)) (\<lambda>v. Inr (add_column f v m)))"

definition write_mutation :: "record_env \<Rightarrow> record_layout \<Rightarrow> record_input \<Rightarrow> record_error + record_mutation" where
  "write_mutation ev l input = foldR (write_step ev l input) no_mutation (sorted_input_names input)"

definition update_mutation :: "record_env \<Rightarrow> record_layout \<Rightarrow> record_input \<Rightarrow> record_error + record_mutation" where
  "update_mutation ev l input =
     (if input = [] then Inl (validation_error ''at least one field is required'' [(''entity'', ly_entity l)])
      else bindR (validate_update_fields l input) (\<lambda>_. write_mutation ev l input))"

definition name_text_field :: record_field where
  "name_text_field = name_record_field\<lparr>rf_required := False, rf_listable := False, rf_system_name := False\<rparr>"

definition zero_record_field :: record_field where
  "zero_record_field = name_record_field\<lparr>rf_name := [], rf_type := [], rf_required := False, rf_column := [], rf_storage := False,
     rf_listable := False, rf_nameable := False, rf_value_kind := [], rf_system_name := False\<rparr>"

text \<open>A lookup of a missing key of a Go map gives the zero value.\<close>

definition field_or_zero :: "record_layout \<Rightarrow> string \<Rightarrow> record_field" where
  "field_or_zero l n = (case field_by_name l n of None \<Rightarrow> zero_record_field | Some f \<Rightarrow> f)"

definition match_step :: "record_env \<Rightarrow> record_layout \<Rightarrow> record_input \<Rightarrow> record_mutation \<Rightarrow> string \<Rightarrow> record_error + record_mutation" where
  "match_step ev l input m name =
     (if name = ''name''
      then bindR (record_db_value (ev_bcrypt ev) name_text_field (input_raw input name)) (\<lambda>v. Inr (add_column name_text_field v m))
      else let f = field_or_zero l name in
        bindR (storage_value ev l f (input_raw input name)) (\<lambda>v. Inr (add_column f v m)))"

definition match_mutation :: "record_env \<Rightarrow> record_layout \<Rightarrow> record_input \<Rightarrow> record_error + record_mutation" where
  "match_mutation ev l input = foldR (match_step ev l input) no_mutation (sorted_input_names input)"

text \<open>The owner is the acting user; a name that is not submitted is generated, with the counter of a series as state.\<close>

definition add_owner :: "int option \<Rightarrow> record_mutation \<Rightarrow> record_mutation" where
  "add_owner actor m =
     (case actor of None \<Rightarrow> m
      | Some u \<Rightarrow> \<lparr>mu_columns = mu_columns m @ [''owner_id''],
          mu_placeholders = mu_placeholders m @ [numbered (length (mu_values m) + 1) @ ''::bigint''], mu_values = mu_values m @ [DInt u]\<rparr>)"

type_synonym 's name_generator = "record_input \<Rightarrow> 's \<Rightarrow> record_error + string \<times> 's"

definition create_mutation :: "record_env \<Rightarrow> record_layout \<Rightarrow> int option \<Rightarrow> 's name_generator \<Rightarrow> record_input \<Rightarrow> 's \<Rightarrow>
    record_error + record_mutation \<times> 's" where
  "create_mutation ev l actor gen input st =
     bindR (validate_create_input l input) (\<lambda>_.
     bindR (write_mutation ev l input) (\<lambda>m0.
       let m = add_owner actor m0 in
       if ''name'' \<in> set (mu_columns m) then Inr (m, st)
       else bindR (gen input st) (\<lambda>(n, st'). Inr (add_column name_text_field (DText n) m, st'))))"

definition insert_record_sql :: "record_layout \<Rightarrow> record_mutation \<Rightarrow> bool \<Rightarrow> string" where
  "insert_record_sql l m returning =
     ''INSERT INTO '' @ quote_ident (ly_table l) @ '' AS '' @ quote_ident record_alias
     @ (if mu_columns m = [] then '' DEFAULT VALUES''
        else '' ('' @ quote_ident_list (mu_columns m) @ '') VALUES ('' @ join '', '' (mu_placeholders m) @ '')'')
     @ (if returning then '' RETURNING '' @ layout_select_list l else [])"

section \<open>Errors of the database\<close>

text \<open>A PostgreSQL error is its code and the constraint it names; any other error has no code.\<close>

definition classify_db_error :: "(string \<times> string) option \<Rightarrow> string \<Rightarrow> record_error" where
  "classify_db_error e entity =
     (case e of Some (code, constraint) \<Rightarrow>
        if code \<in> {''42P01'', ''42703''}
        then RecordError ''schema_not_ready'' ''schema is not ready; run dygo db migrate'' [(''entity'', entity)]
        else if code \<in> {''23505'', ''23503'', ''23514'', ''23502''}
        then constraint_violation ''record violates a database constraint''
          ((''entity'', entity) # (if constraint = [] then [] else [(''constraint'', constraint)]))
        else internal_error ''record query failed'' [(''entity'', entity)]
      | None \<Rightarrow> internal_error ''record query failed'' [(''entity'', entity)])"

definition record_name_collision :: "record_error \<Rightarrow> record_layout \<Rightarrow> bool" where
  "record_name_collision e l \<longleftrightarrow> rx_code e = rx_code (constraint_violation [] [])
     \<and> (case map_of (rx_details e) ''constraint'' of None \<Rightarrow> False | Some c \<Rightarrow> c = constraint_name (ly_table l) ''name'' ''key'')"

definition invalid_record_id :: "string \<Rightarrow> record_error" where
  "invalid_record_id entity = invalid_request ''record id must be a positive integer'' [(''entity'', entity)]"

end
