(* ===== verification/Write_Guarantees.thy ===== *)
theory Write_Guarantees
  imports Record_Write Record_Values
begin

text \<open>
  The mutations a store builds are well typed: the columns, placeholders and arguments go together,
  every argument fits its field, and a created record has all its required fields and a name.
\<close>

lemma list_all2_right: "list_all2 P xs ys \<Longrightarrow> y \<in> set ys \<Longrightarrow> \<exists>x\<in>set xs. P x y"
  by (induction rule: list_all2_induct) auto

lemma list_all2_left: "list_all2 P xs ys \<Longrightarrow> x \<in> set xs \<Longrightarrow> \<exists>y\<in>set ys. P x y"
  by (induction rule: list_all2_induct) auto

section \<open>Mutations as lists of cells\<close>

definition cells_of :: "(record_field \<times> db_value) list \<Rightarrow> record_mutation \<Rightarrow> bool" where
  "cells_of cells m \<longleftrightarrow> mu_columns m = map (rf_column \<circ> fst) cells \<and> mu_values m = map snd cells
     \<and> mu_placeholders m = map (\<lambda>(i, f, v). record_placeholder (i + 1) f) (enumerate 0 cells)"

lemma cells_of_none [simp]: "cells_of [] no_mutation"
  by (simp add: cells_of_def no_mutation_def)

lemma cells_of_add: "cells_of cells m \<Longrightarrow> cells_of (cells @ [(f, v)]) (add_column f v m)"
  by (auto simp: cells_of_def add_column_def enumerate_append_eq)

definition owner_cell :: "int \<Rightarrow> record_field \<times> db_value" where
  "owner_cell u = (collection_system_field ''owner'' ''owner_id'', DInt u)"

lemma owner_placeholder: "record_placeholder i (fst (owner_cell u)) = numbered i @ ''::bigint''"
proof -
  have "(case default_definition ''bigint'' of None \<Rightarrow> [] | Some d \<Rightarrow> bh_placeholder_cast (ft_behavior d)) = ''bigint''" by code_simp
  then show ?thesis
    by (auto simp: owner_cell_def collection_system_field_def record_placeholder_def split: option.splits)
qed

lemma cells_of_owner:
  assumes "cells_of cells m"
  shows "cells_of (cells @ (case actor of None \<Rightarrow> [] | Some u \<Rightarrow> [owner_cell u])) (add_owner actor m)"
proof (cases actor)
  case (Some u)
  have "add_owner (Some u) m = add_column (fst (owner_cell u)) (snd (owner_cell u)) m"
    unfolding add_column_def owner_placeholder by (simp add: add_owner_def owner_cell_def collection_system_field_def)
  then show ?thesis using cells_of_add [OF assms, of "fst (owner_cell u)" "snd (owner_cell u)"] Some by simp
qed (use assms in \<open>simp add: add_owner_def\<close>)

text \<open>Writing the names in order gives one cell for each stored field of the input.\<close>

definition written :: "record_env \<Rightarrow> record_layout \<Rightarrow> record_input \<Rightarrow> string \<Rightarrow> record_field \<times> db_value \<Rightarrow> bool" where
  "written ev l input n c \<longleftrightarrow> field_by_name l n = Some (fst c) \<and> rf_storage (fst c) \<and> rf_type (fst c) \<noteq> ''collection''
     \<and> storage_value ev l (fst c) (input_raw input n) = Inr (snd c)"

definition writes :: "record_layout \<Rightarrow> string \<Rightarrow> bool" where
  "writes l n \<longleftrightarrow> (case field_by_name l n of None \<Rightarrow> True | Some f \<Rightarrow> rf_type f \<noteq> ''collection'')"

lemma write_step_cells:
  assumes "write_step ev l input m n = Inr m'" "cells_of cells m"
  shows "\<exists>new. cells_of (cells @ new) m' \<and> list_all2 (written ev l input) (filter (writes l) [n]) new"
proof -
  obtain f where f: "field_by_name l n = Some f" using assms(1) by (auto simp: write_step_def split: option.splits)
  show ?thesis
  proof (cases "rf_type f = ''collection''")
    case True
    then have "m' = m" "\<not> writes l n" using assms(1) f by (simp_all add: write_step_def writes_def)
    then show ?thesis using assms(2) by (intro exI [of _ "[]"]) simp
  next
    case False
    then obtain v where v: "rf_storage f" "storage_value ev l f (input_raw input n) = Inr v" "m' = add_column f v m"
      using assms(1) f by (auto simp: write_step_def bindR_Inr_iff split: if_splits)
    then have "written ev l input n (f, v)" "writes l n" using f False by (simp_all add: written_def writes_def)
    then show ?thesis using cells_of_add [OF assms(2), of f v] v(3) by (intro exI [of _ "[(f, v)]"]) simp
  qed
qed

lemma write_names_cells:
  assumes "foldR (write_step ev l input) m names = Inr m'" "cells_of cells m"
  shows "\<exists>new. cells_of (cells @ new) m' \<and> list_all2 (written ev l input) (filter (writes l) names) new"
  using assms
proof (induction names arbitrary: m cells)
  case Nil
  then show ?case by (intro exI [of _ "[]"]) simp
next
  case (Cons n names)
  obtain m1 where m1: "write_step ev l input m n = Inr m1" "foldR (write_step ev l input) m1 names = Inr m'"
    using Cons.prems(1) by (auto split: sum.splits)
  obtain new where new: "cells_of (cells @ new) m1" "list_all2 (written ev l input) (filter (writes l) [n]) new"
    using write_step_cells [OF m1(1) Cons.prems(2)] by blast
  obtain more' where more: "cells_of ((cells @ new) @ more') m'" "list_all2 (written ev l input) (filter (writes l) names) more'"
    using Cons.IH [OF m1(2) new(1)] by blast
  have "list_all2 (written ev l input) (filter (writes l) [n] @ filter (writes l) names) (new @ more')"
    using new(2) more(2) by (rule list_all2_appendI)
  moreover have "filter (writes l) (n # names) = filter (writes l) [n] @ filter (writes l) names" by simp
  ultimately show ?case using more(1) by (intro exI [of _ "new @ more'"]) (simp only: append_assoc)
qed

lemma write_mutation_cells:
  assumes "write_mutation ev l input = Inr m"
  shows "\<exists>cells. cells_of cells m \<and> list_all2 (written ev l input) (filter (writes l) (sorted_input_names input)) cells"
  using write_names_cells [of ev l input no_mutation "sorted_input_names input" m "[]"] assms
  by (simp add: write_mutation_def)

section \<open>Required fields\<close>

lemma storage_value_null: "storage_value ev l f raw = Inr DNull \<Longrightarrow> raw_is_null raw"
  by (auto simp: storage_value_def secret_storage_value_def record_db_value_def kind_value_def Let_def bindR_Inr_iff
      split: if_splits option.splits)

lemma foldR_unit_all: "foldR (\<lambda>_ x. g x) () xs = Inr u \<longleftrightarrow> (\<forall>x\<in>set xs. g x = Inr ())"
  by (induction xs) (auto split: sum.splits)

lemma create_input_required:
  assumes "validate_create_input l input = Inr ()" "f \<in> set (ly_fields l)" "needs_input f"
  shows "\<exists>raw. map_of input (rf_name f) = Some raw"
  using assms by (auto simp: validate_create_input_def bindR_Inr_iff foldR_unit_all)

lemma create_input_checked:
  assumes "validate_create_input l input = Inr ()" "map_of input n = Some raw"
  shows "check_field l True False n raw = Inr ()"
proof -
  have "validate_input_fields l input True False = Inr ()" using assms(1) by (auto simp: validate_create_input_def bindR_Inr_iff)
  moreover have "(n, raw) \<in> set input" using assms(2) by (rule map_of_SomeD)
  ultimately show ?thesis by (force simp: validate_input_fields_def foldR_unit_all)
qed

section \<open>The statement\<close>

lemma placeholders_join:
  assumes "list_all2 (\<lambda>n p. \<exists>c. p = numbered n @ c \<and> no_dollar c \<and> \<not> starts_digit c) ns ps"
  shows "placeholders (join '', '' ps) = ns"
  using assms
proof (induction rule: list_all2_induct)
  case (Cons n ns p ps)
  then obtain c where c: "p = numbered n @ c" "no_dollar c" "\<not> starts_digit c" by blast
  show ?case
  proof (cases ps)
    case Nil
    then have "ns = []" using Cons(2) by simp
    then show ?thesis using c Nil placeholders_numbered [of c n] by (simp add: join_Cons)
  next
    case (Cons q qs)
    have "\<not> starts_digit (c @ '', '' @ join '', '' ps)" using c(3) by (simp add: starts_digit_append is_digit_def)
    moreover have "no_dollar (c @ '', '')" using c(2) by simp
    ultimately show ?thesis using c Cons Cons.IH placeholders_plain [of "c @ '', ''" "join '', '' ps"] by (simp add: join_Cons)
  qed
qed simp

lemma cells_placeholders:
  assumes "cells_of cells m"
  shows "length (mu_columns m) = length (mu_values m)
    \<and> placeholders (join '', '' (mu_placeholders m)) = [1..<1 + length (mu_values m)]"
proof -
  have "list_all2 (\<lambda>n p. \<exists>c. p = numbered n @ c \<and> no_dollar c \<and> \<not> starts_digit c) [1..<1 + length cells] (mu_placeholders m)"
    using assms by (auto simp: cells_of_def list_all2_conv_all_nth nth_enumerate_eq split_beta intro: record_placeholder_shape simp del: upt_Suc)
  from placeholders_join [OF this] assms show ?thesis by (simp add: cells_of_def)
qed

text \<open>What an argument of a mutation may be: the value of a stored field, the acting user as owner, or the name.\<close>

definition typed_column :: "record_layout \<Rightarrow> int option \<Rightarrow> string \<Rightarrow> db_value \<Rightarrow> bool" where
  "typed_column l actor c v \<longleftrightarrow>
     (\<exists>f\<in>set (ly_fields l). rf_storage f \<and> rf_column f = c \<and> value_fits f v)
     \<or> (c = ''owner_id'' \<and> (\<exists>u. actor = Some u \<and> v = DInt u)) \<or> (c = ''name'' \<and> (\<exists>n. v = DText n))"

definition has_value :: "record_mutation \<Rightarrow> string \<Rightarrow> bool" where
  "has_value m c \<longleftrightarrow> (\<exists>v. (c, v) \<in> set (zip (mu_columns m) (mu_values m)) \<and> v \<noteq> DNull)"

lemma cells_zip: "cells_of cells m \<Longrightarrow> zip (mu_columns m) (mu_values m) = map (\<lambda>(f, v). (rf_column f, v)) cells"
  by (simp add: cells_of_def zip_map_map zip_same_conv_map comp_def split_beta)

lemma written_typed:
  assumes "written ev l input n c"
  shows "typed_column l actor (rf_column (fst c)) (snd c)"
proof -
  have "fst c \<in> set (ly_fields l)" using assms by (auto simp: written_def field_by_name_def dest: find_SomeD)
  with assms storage_value_fits show ?thesis by (auto simp: written_def typed_column_def)
qed

lemma create_mutation_cells:
  assumes "create_mutation ev l actor gen input st = Inr (m, st')"
  obtains cells tail where "validate_create_input l input = Inr ()" "cells_of (cells @ tail) m"
    "list_all2 (written ev l input) (filter (writes l) (sorted_input_names input)) cells"
    "\<forall>c\<in>set tail. typed_column l actor (rf_column (fst c)) (snd c)" "''name'' \<in> set (mu_columns m)"
proof -
  obtain m0 where v: "validate_create_input l input = Inr ()" "write_mutation ev l input = Inr m0"
    and rest: "(let m1 = add_owner actor m0 in if ''name'' \<in> set (mu_columns m1) then Inr (m1, st)
       else bindR (gen input st) (\<lambda>(n, st'). Inr (add_column name_text_field (DText n) m1, st'))) = Inr (m, st')"
    using assms by (auto simp: create_mutation_def bindR_Inr_iff)
  obtain cells where c: "cells_of cells m0" "list_all2 (written ev l input) (filter (writes l) (sorted_input_names input)) cells"
    using write_mutation_cells [OF v(2)] by blast
  let ?own = "case actor of None \<Rightarrow> [] | Some u \<Rightarrow> [owner_cell u]"
  have own: "\<forall>c\<in>set ?own. typed_column l actor (rf_column (fst c)) (snd c)"
    by (auto simp: typed_column_def owner_cell_def collection_system_field_def split: option.splits)
  note o = cells_of_owner [OF c(1), of actor]
  show thesis
  proof (cases "''name'' \<in> set (mu_columns (add_owner actor m0))")
    case True
    then have "m = add_owner actor m0" using rest by (simp add: Let_def)
    with True o that [OF v(1) _ c(2) own] show thesis by simp
  next
    case False
    then obtain n where n: "m = add_column name_text_field (DText n) (add_owner actor m0)"
      using rest by (auto simp: Let_def bindR_Inr_iff)
    have "\<forall>c\<in>set (?own @ [(name_text_field, DText n)]). typed_column l actor (rf_column (fst c)) (snd c)"
      using own by (auto simp: typed_column_def name_text_field_def name_record_field_def)
    moreover have "cells_of (cells @ ?own @ [(name_text_field, DText n)]) m"
      using cells_of_add [OF o, of name_text_field "DText n"] n by simp
    moreover have "''name'' \<in> set (mu_columns m)"
      by (simp add: n add_column_def name_text_field_def name_record_field_def)
    ultimately show thesis using that [OF v(1) _ c(2)] by blast
  qed
qed


section \<open>Samples\<close>

definition sample_title_field :: record_field where
  "sample_title_field = name_record_field\<lparr>rf_name := ''title'', rf_column := ''title'', rf_system_name := False\<rparr>"

definition sample_todo_layout :: record_layout where
  "sample_todo_layout = RecordLayout \<lparr>lh_entity_id = 9, lh_app = ''crm'', lh_entity = ''todo'', lh_slug = ''todo'', lh_label = ''Todo'',
     lh_single = False, lh_system = False, lh_collection = False, lh_private = False, lh_owner_field = [], lh_table = ''crm_todo'',
     lh_naming = default_record_naming, lh_tree = None, lh_fields = [sample_title_field]\<rparr> []"

definition sample_write_env :: record_env where
  "sample_write_env = \<lparr>ev_link = (\<lambda>t n. Inr None), ev_layout = (\<lambda>a e. Inl (not_found [] [])), ev_bcrypt = Some,
     ev_encrypt = (\<lambda>b s. Inr s)\<rparr>"

definition sample_create :: "record_error + record_mutation \<times> nat" where
  "sample_create = create_mutation sample_write_env sample_todo_layout (Some 7) (\<lambda>_ n. Inr (show_nat n, Suc n)) [(''title'', ''\"buy milk\"'')] 3"

definition sample_created :: record_mutation where
  "sample_created = \<lparr>mu_columns = [''title'', ''owner_id'', ''name''], mu_placeholders = [''$1'', ''$2::bigint'', ''$3''],
     mu_values = [DText ''buy milk'', DInt 7, DText ''3'']\<rparr>"


end
