(* ===== verification/Record_Scope.thy ===== *)
theory Record_Scope
  imports Record_Search Record_Write
begin

text \<open>
  A record store constrained by a compiled scope (\<^verbatim>\<open>internal/db/record_scope.go\<close>,
  \<^verbatim>\<open>records_private.go\<close>): the scope's condition and field rules are joined to the
  statement's own condition, with the placeholders of the scope shifted past the arguments of the
  statement.  A scope is text here, as the store gets it; queries are answered by an argument.
\<close>

record row_scope =
  rs_where :: string
  rs_args :: "db_value list"
  rs_read :: "(string \<times> string) list"
  rs_write :: "(string \<times> string) list"

section \<open>Conditions\<close>

definition scoped_where :: "row_scope option \<Rightarrow> string \<times> db_value list \<Rightarrow> string \<times> db_value list" where
  "scoped_where sc q =
     (case sc of None \<Rightarrow> q
      | Some s \<Rightarrow>
          if rs_where s = [] \<or> rs_where s = ''TRUE'' then (fst q, snd q @ rs_args s)
          else let w = shift_placeholders (rs_where s) (length (snd q)) in
            (if fst q = [] then w else ''('' @ fst q @ '') AND ('' @ w @ '')'', snd q @ rs_args s))"

definition scope_offset :: "row_scope option \<Rightarrow> db_value list \<Rightarrow> nat" where
  "scope_offset sc args = (case sc of None \<Rightarrow> length args | Some s \<Rightarrow> length args - length (rs_args s))"

text \<open>The rules of the named fields, each predicate once.\<close>

definition field_rules :: "(string \<times> string) list \<Rightarrow> string list \<Rightarrow> string list" where
  "field_rules rules fs = dedup (List.map_filter (map_of rules) fs)"

definition and_rules :: "string \<Rightarrow> string list \<Rightarrow> nat \<Rightarrow> string" where
  "and_rules w rules offset = w @ concat (map (\<lambda>p. '' AND ('' @ shift_placeholders p offset @ '')'') rules)"

definition scoped_write_where :: "row_scope option \<Rightarrow> string \<times> db_value list \<Rightarrow> record_input \<Rightarrow> string \<times> db_value list" where
  "scoped_write_where sc q input =
     (case sc of None \<Rightarrow> q
      | Some s \<Rightarrow> let (w, args) = scoped_where sc q in
          (and_rules w (field_rules (rs_write s) (map fst input)) (scope_offset sc args), args))"

definition path_head :: "string \<Rightarrow> string" where
  "path_head p = hd (split_on (CHR ''.'') p)"

definition scoped_read_where :: "row_scope option \<Rightarrow> string \<times> db_value list \<Rightarrow> string list \<Rightarrow> string \<times> db_value list" where
  "scoped_read_where sc q fs =
     (case sc of None \<Rightarrow> q
      | Some s \<Rightarrow> let (w, args) = scoped_where sc q in
          (and_rules w (field_rules (rs_read s) (map path_head fs)) (scope_offset sc args), args))"

section \<open>Reading rows with access columns\<close>

definition sorted_scope_fields :: "(string \<times> string) list \<Rightarrow> string list" where
  "sorted_scope_fields rules = sort (map fst rules)"

definition rule_of :: "(string \<times> string) list \<Rightarrow> string \<Rightarrow> string" where
  "rule_of rules f = (case map_of rules f of None \<Rightarrow> [] | Some p \<Rightarrow> p)"

definition scope_select_list :: "row_scope option \<Rightarrow> record_layout \<Rightarrow> nat \<Rightarrow> string" where
  "scope_select_list sc l offset =
     (case sc of None \<Rightarrow> layout_select_list l
      | Some s \<Rightarrow> layout_select_list l @ concat (map (\<lambda>f. '', ('' @ shift_placeholders (rule_of (rs_read s) f) offset @ '') AS ''
          @ quote_ident (''__dygo_read_'' @ f)) (sorted_scope_fields (rs_read s))))"

definition drop_field :: "string \<Rightarrow> rec_map \<Rightarrow> rec_map" where
  "drop_field f r = filter (\<lambda>p. fst p \<noteq> f) r"

definition access_step :: "record_layout \<Rightarrow> rec_map \<Rightarrow> string \<times> val \<Rightarrow> record_error + rec_map" where
  "access_step l r p =
     (case snd p of VBool b \<Rightarrow> Inr (if b then r else drop_field (fst p) r)
      | _ \<Rightarrow> Inl (internal_error ''record access value was invalid'' [(''entity'', ly_entity l), (''field'', fst p)]))"

definition scoped_record_from_values :: "row_scope option \<Rightarrow> record_layout \<Rightarrow> val list \<Rightarrow> record_error + rec_map" where
  "scoped_record_from_values sc l vs =
     (let n = record_value_count l in
      if length vs < n
      then Inl (internal_error ''record column count did not match metadata''
        [(''entity'', ly_entity l), (''expected'', show_nat n), (''actual'', show_nat (length vs))])
      else bindR (record_from_values l (take n vs)) (\<lambda>r.
        case sc of None \<Rightarrow> Inr r
        | Some s \<Rightarrow>
            if length vs = n then Inr r
            else let fs = sorted_scope_fields (rs_read s) in
              if length vs \<noteq> n + length fs
              then Inl (internal_error ''record access column count did not match scope'' [(''entity'', ly_entity l)])
              else foldR (access_step l) r (zip fs (drop n vs))))"

section \<open>One field of one row\<close>

type_synonym 'a sql_answer = "string \<times> db_value list \<Rightarrow> record_error + 'a"

definition authorize_field :: "row_scope option \<Rightarrow> record_error + record_layout \<Rightarrow> bool sql_answer \<Rightarrow> string \<Rightarrow> int \<Rightarrow> string \<Rightarrow> bool \<Rightarrow>
    record_error + unit" where
  "authorize_field sc layout ask entity rid field write =
     (case sc of None \<Rightarrow> Inr ()
      | Some s \<Rightarrow>
          case map_of (if write then rs_write s else rs_read s) field of
            None \<Rightarrow> Inr ()
          | Some p \<Rightarrow>
              if p = [] \<or> p = ''TRUE'' then Inr ()
              else if p = ''FALSE'' then Inl (permission_denied ''permission denied'' [(''entity'', entity), (''field'', field)])
              else bindR layout (\<lambda>l.
                let (w, args) = scoped_where sc (quote_ident record_alias @ ''.id = $1'', [DInt rid]);
                    sql = ''SELECT EXISTS (SELECT 1 FROM '' @ quote_ident (ly_table l) @ '' AS '' @ quote_ident record_alias
                      @ '' WHERE '' @ w @ '' AND ('' @ shift_placeholders p 1 @ ''))''
                in case ask (sql, args) of
                  Inl e \<Rightarrow> Inl (internal_error ''evaluate field access failed'' [(''entity'', ly_entity l), (''field'', field)])
                | Inr ok \<Rightarrow> guardR ok (permission_denied ''permission denied'' [(''entity'', ly_entity l), (''field'', field)])))"

section \<open>Proposed rows\<close>

definition stored_layout_columns :: "record_layout \<Rightarrow> string list" where
  "stored_layout_columns l = map rf_column (filter (\<lambda>f. rf_storage f \<and> \<not> rf_system_name f) (ly_fields l))"

definition proposed_columns :: "record_layout \<Rightarrow> string list" where
  "proposed_columns l = [''name'', ''owner_id''] @ stored_layout_columns l"

definition mutation_columns :: "record_mutation \<Rightarrow> (string \<times> string) list" where
  "mutation_columns m = rev (zip (mu_columns m) (mu_placeholders m))"

definition proposed_selects :: "record_layout \<Rightarrow> (string \<times> string) list \<Rightarrow> (string \<Rightarrow> string) \<Rightarrow> string" where
  "proposed_selects l values otherwise =
     join '', '' (map (\<lambda>c. (let e = rule_of values c in if e = [] then otherwise c else e) @ '' AS '' @ quote_ident c) (proposed_columns l))"

text \<open>The defaults PostgreSQL supplies for omitted columns, as its catalog prints them; \<open>None\<close> is a failed query.\<close>

type_synonym default_catalog = "string \<Rightarrow> string list \<Rightarrow> (string \<times> string \<times> string) list option"

definition defaulted_columns :: "record_layout \<Rightarrow> (string \<times> string) list \<Rightarrow> string list" where
  "defaulted_columns l values =
     map rf_column (filter (\<lambda>f. rf_storage f \<and> \<not> rf_system_name f \<and> rf_default f \<noteq> [] \<and> rule_of values (rf_column f) = []) (ly_fields l))"

definition proposed_record_defaults :: "bool \<Rightarrow> default_catalog \<Rightarrow> record_layout \<Rightarrow> (string \<times> string) list \<Rightarrow> (string \<times> string) list option" where
  "proposed_record_defaults transactional catalog l values =
     (let columns = defaulted_columns l values in
      if columns = [] then Some values
      else if \<not> transactional then None
      else case catalog (ly_table l) columns of None \<Rightarrow> None
        | Some rows \<Rightarrow>
            if list_all (\<lambda>c. c \<in> set (map fst rows)) columns
            then Some (rev (map (\<lambda>(c, e, t). (c, ''('' @ e @ '')::'' @ t)) rows) @ values) else None)"

definition proposed_scope_sql :: "row_scope \<Rightarrow> record_layout \<Rightarrow> record_mutation \<Rightarrow> record_input \<Rightarrow> (string \<times> string) list \<Rightarrow> string" where
  "proposed_scope_sql s l m input values =
     (let ps = (if rs_where s = [] then ''TRUE'' else rs_where s) # List.map_filter (map_of (rs_write s)) (map fst input)
      in ''SELECT EXISTS (SELECT 1 FROM (SELECT '' @ proposed_selects l values (\<lambda>_. ''NULL'') @ '') AS '' @ quote_ident record_alias
         @ '' WHERE '' @ shift_placeholders (''('' @ join '') AND ('' ps @ '')'') (length (mu_values m)) @ '')'')"

definition validate_proposed_scope :: "row_scope option \<Rightarrow> bool \<Rightarrow> default_catalog \<Rightarrow> bool sql_answer \<Rightarrow> record_layout \<Rightarrow> record_mutation \<Rightarrow>
    record_input \<Rightarrow> record_error + unit" where
  "validate_proposed_scope sc transactional catalog ask l m input =
     (case sc of None \<Rightarrow> Inr ()
      | Some s \<Rightarrow>
          if (rs_where s = [] \<or> rs_where s = ''TRUE'') \<and> rs_write s = [] then Inr ()
          else case proposed_record_defaults transactional catalog l (mutation_columns m) of
            None \<Rightarrow> Inl (internal_error ''evaluate record defaults failed'' [(''entity'', ly_entity l)])
          | Some values \<Rightarrow> (case ask (proposed_scope_sql s l m input values, mu_values m @ rs_args s) of
              Inl e \<Rightarrow> Inl (internal_error ''evaluate proposed record access failed'' [(''entity'', ly_entity l)])
            | Inr ok \<Rightarrow> guardR ok (permission_denied ''permission denied'' [(''entity'', ly_entity l)])))"

definition proposed_update_predicate :: "row_scope option \<Rightarrow> record_layout \<Rightarrow> record_mutation \<Rightarrow> nat \<Rightarrow> string" where
  "proposed_update_predicate sc l m offset =
     (case sc of None \<Rightarrow> []
      | Some s \<Rightarrow>
          if rs_where s = [] \<or> rs_where s = ''TRUE'' then []
          else ''EXISTS (SELECT 1 FROM (SELECT '' @ proposed_selects l (mutation_columns m) record_source_column @ '') AS ''
            @ quote_ident ''_dygo_proposed'' @ '' WHERE ''
            @ shift_placeholders (replace_all (quote_ident record_alias) (quote_ident ''_dygo_proposed'') (rs_where s)) offset @ '')'')"

section \<open>The owner of a private Entity\<close>

definition private_owner_scope :: "record_layout \<Rightarrow> string \<Rightarrow> int \<Rightarrow> record_error + row_scope" where
  "private_owner_scope l entity owner =
     (if \<not> lh_private (ly_head l) \<or> blank (lh_owner_field (ly_head l))
      then Inl (permission_denied ''Entity is not configured for private owner access'' [(''entity'', entity)])
      else case field_by_name l (lh_owner_field (ly_head l)) of
        None \<Rightarrow> Inl (internal_error ''private owner field metadata is invalid'' [(''entity'', entity), (''field'', lh_owner_field (ly_head l))])
      | Some f \<Rightarrow>
          if rf_type f \<noteq> ''link'' \<or> rf_column f = []
          then Inl (internal_error ''private owner field metadata is invalid'' [(''entity'', entity), (''field'', lh_owner_field (ly_head l))])
          else Inr \<lparr>rs_where = record_source_column (rf_column f) @ '' = $1'', rs_args = [DInt owner], rs_read = [], rs_write = []\<rparr>)"

text \<open>A saved query must not filter on a field no grant opens.\<close>

definition saved_filters_ok :: "row_scope option \<Rightarrow> list_params \<Rightarrow> record_error + unit" where
  "saved_filters_ok sc p =
     (case sc of None \<Rightarrow> Inr ()
      | Some s \<Rightarrow> foldR (\<lambda>_ f. guardR (map_of (rs_read s) (path_head (ft_field f)) \<noteq> Some ''FALSE'')
          (permission_denied ''filter field is not readable'' [(''field'', ft_field f)])) () (lp_filters p))"

text \<open>\<^verbatim>\<open>recordQueryError\<close>; only the two errors of \<^verbatim>\<open>Normalize\<close> arise here.\<close>

definition query_failure :: "query_error \<Rightarrow> record_error" where
  "query_failure e =
     (case e of
        LimitOutOfRange l \<Rightarrow> invalid_request (''limit must be between 1 and '' @ show_int max_limit) [(''limit'', show_int l)]
      | OffsetNegative off \<Rightarrow> invalid_request ''offset must be greater than or equal to 0'' [(''offset'', show_int off)]
      | _ \<Rightarrow> invalid_request [] [])"

definition validate_list :: "row_scope option \<Rightarrow> record_env \<Rightarrow> record_error + record_layout \<Rightarrow> list_params \<Rightarrow> record_error + unit" where
  "validate_list sc ev layout p0 =
     (case normalize_params p0 of Inl e \<Rightarrow> Inl (query_failure e)
      | Inr p \<Rightarrow> bindR layout (\<lambda>l.
          if lh_single (ly_head l) \<or> lh_collection (ly_head l) then Inl (invalid_request ''Entity does not support Record lists'' [])
          else bindR (saved_filters_ok sc p) (\<lambda>_. bindR (build_list_query ev l p) (\<lambda>_. Inr ()))))"

end
