(* ===== verification/Scoped_Reads.thy ===== *)
theory Scoped_Reads
  imports Record_Scope Scope_Guarantees Record_Values
begin

text \<open>
  From the compiled scope to the rows a list, a count or an aggregate sees: the text the store
  appends to a statement is the scope's condition with its placeholders moved past the arguments of
  the statement, and the rows it keeps are those some grant describes, with every field the statement
  filters or sorts on readable through a grant that holds.
\<close>

section \<open>Handing a scope to the store\<close>

definition row_scope_of :: "scope \<Rightarrow> row_scope" where
  "row_scope_of sc = \<lparr>rs_where = render_pred (sc_where sc), rs_args = map DInt (sc_args sc),
     rs_read = map (\<lambda>(f, p). (f, render_pred p)) (sc_field_read sc), rs_write = map (\<lambda>(f, p). (f, render_pred p)) (sc_field_write sc)\<rparr>"

section \<open>Shifting a condition\<close>

definition shift_expr :: "nat \<Rightarrow> sql_expr \<Rightarrow> sql_expr" where
  "shift_expr n e = (case e of Param k \<Rightarrow> Param (k + n) | _ \<Rightarrow> e)"

fun shift_pred :: "nat \<Rightarrow> sql_pred \<Rightarrow> sql_pred" where
  "shift_pred n TrueP = TrueP"
| "shift_pred n FalseP = FalseP"
| "shift_pred n (Equal x y) = Equal (shift_expr n x) (shift_expr n y)"
| "shift_pred n (NotRetired a) = NotRetired a"
| "shift_pred n (Exists t a ps) = Exists t a (map (shift_pred n) ps)"
| "shift_pred n (AnyOf ps) = AnyOf (map (shift_pred n) ps)"
| "shift_pred n (AllOf ps) = AllOf (map (shift_pred n) ps)"

text \<open>Names without a dollar sign and parameters counted from one.\<close>

definition plain_hop :: "hop \<Rightarrow> bool" where
  "plain_hop h \<longleftrightarrow> (case h of (t, a, pa, pc) \<Rightarrow> no_dollar t \<and> no_dollar pc)"

definition plain_expr :: "sql_expr \<Rightarrow> bool" where
  "plain_expr e \<longleftrightarrow> (case e of Column a c \<Rightarrow> no_dollar c | Lookup a c hs \<Rightarrow> no_dollar c \<and> list_all plain_hop hs | Param k \<Rightarrow> 0 < k)"

fun plain_pred :: "sql_pred \<Rightarrow> bool" where
  "plain_pred TrueP = True"
| "plain_pred FalseP = True"
| "plain_pred (Equal x y) = (plain_expr x \<and> plain_expr y)"
| "plain_pred (NotRetired a) = True"
| "plain_pred (Exists t a ps) = (no_dollar t \<and> list_all plain_pred ps)"
| "plain_pred (AnyOf ps) = list_all plain_pred ps"
| "plain_pred (AllOf ps) = list_all plain_pred ps"

lemma eval_shift_expr:
  "plain_expr e \<Longrightarrow> eval_expr db env (xs @ ys) (shift_expr (length xs) e) = eval_expr db env ys e"
proof (cases e)
  case (Param k)
  assume "plain_expr e"
  then have "k + length xs - 1 = length xs + (k - 1)" using Param by (simp add: plain_expr_def)
  then show ?thesis using Param by (simp add: eval_expr_def shift_expr_def nth_append)
qed (simp_all add: eval_expr_def shift_expr_def)

lemma eval_shift: "plain_pred p \<Longrightarrow> eval_pred db env (xs @ ys) (shift_pred (length xs) p) = eval_pred db env ys p"
proof (induction p arbitrary: env)
  case (Exists t a ps)
  then have "map (eval_pred db (env(a := r)) (xs @ ys)) (map (shift_pred (length xs)) ps) = map (eval_pred db (env(a := r)) ys) ps" for r
    by (auto simp: list_all_iff)
  then show ?case by (simp only: shift_pred.simps eval_pred.simps)
next
  case (AnyOf ps)
  then have "map (eval_pred db env (xs @ ys)) (map (shift_pred (length xs)) ps) = map (eval_pred db env ys) ps"
    by (auto simp: list_all_iff)
  then show ?case by (simp only: shift_pred.simps eval_pred.simps)
next
  case (AllOf ps)
  then have "map (eval_pred db env (xs @ ys)) (map (shift_pred (length xs)) ps) = map (eval_pred db env ys) ps"
    by (auto simp: list_all_iff)
  then show ?case by (simp only: shift_pred.simps eval_pred.simps)
qed (simp_all add: eval_shift_expr)

lemma admits_shift: "plain_pred p \<Longrightarrow> admits db (xs @ ys) (shift_pred (length xs) p) row \<longleftrightarrow> admits db ys p row"
  by (simp add: admits_def eval_shift)

section \<open>Shifting its text\<close>

lemma alias_plain: "no_dollar (quote_ident (alias_name a))"
  using show_nat_plain by (auto simp: alias_name_def split: table_alias.splits)

lemma column_plain: "no_dollar c \<Longrightarrow> no_dollar (render_column a c)"
  using alias_plain [of a] by (auto simp: render_column_def)

lemma table_plain: "no_dollar t \<Longrightarrow> no_dollar (render_table t a)"
  using alias_plain [of a] by (auto simp: render_table_def)

lemma hop_plain: "plain_hop h \<Longrightarrow> no_dollar (render_hop h) \<and> no_dollar (render_on h)"
  using column_plain [of "''id''"]
  by (auto simp: plain_hop_def render_hop_def render_on_def dest: column_plain table_plain split: prod.splits)

lemma join_no_dollar: "no_dollar sep \<Longrightarrow> list_all no_dollar ps \<Longrightarrow> no_dollar (join sep ps)"
  by (induction ps rule: induct_list012) (auto simp: join_Cons)

lemma lookup_plain:
  assumes "plain_expr (Lookup a c hs)"
  shows "no_dollar (render_expr (Lookup a c hs))"
proof (cases hs)
  case Nil
  then show ?thesis using assms column_plain by (simp add: render_expr_def plain_expr_def)
next
  case (Cons h hs')
  obtain t b on where h: "h = (t, b, on)" by (cases h) auto
  have hs: "plain_hop h" "list_all plain_hop hs'" "no_dollar c" using assms Cons by (simp_all add: plain_expr_def)
  have t: "no_dollar (render_table t b)" using hs(1) table_plain by (simp add: h plain_hop_def split: prod.splits)
  have "list_all no_dollar (render_table t b # map render_hop hs')"
    using t hs(2) hop_plain by (auto simp: list_all_iff)
  then have "no_dollar (join '' '' (render_table t b # map render_hop hs'))" by (rule join_no_dollar [rotated]) simp
  moreover have "no_dollar (render_on (t, b, on))" using hop_plain [OF hs(1)] h by simp
  moreover note column_plain [OF hs(3), of a]
  ultimately show ?thesis by (simp add: render_expr_def Cons h)
qed

lemma shift_render_expr:
  assumes "plain_expr e" "\<not> starts_digit b"
  shows "shift_placeholders (render_expr e @ b) n = render_expr (shift_expr n e) @ shift_placeholders b n"
proof (cases e)
  case (Column a c)
  then show ?thesis using assms column_plain by (simp add: render_expr_def shift_expr_def plain_expr_def)
next
  case (Lookup a c hs)
  then show ?thesis using lookup_plain assms(1) by (simp add: shift_expr_def)
next
  case (Param k)
  have "render_expr (Param j) = numbered j" for j by (simp add: render_expr_def numbered_def)
  then show ?thesis using assms(2) Param by (simp add: shift_expr_def)
qed

text \<open>A separator or closing text that starts with no digit.\<close>

lemma shift_join:
  assumes "\<And>p b. p \<in> set ps \<Longrightarrow> \<not> starts_digit b \<Longrightarrow>
      shift_placeholders (render_pred p @ b) n = render_pred (shift_pred n p) @ shift_placeholders b n"
    "no_dollar sep" "sep \<noteq> []" "\<not> starts_digit sep" "\<not> starts_digit b"
  shows "shift_placeholders (join sep (map render_pred ps) @ b) n
     = join sep (map render_pred (map (shift_pred n) ps)) @ shift_placeholders b n"
  using assms(1)
proof (induction ps)
  case (Cons p ps)
  show ?case
  proof (cases "ps = []")
    case True
    then show ?thesis using Cons.prems [of p b] assms(5) by simp
  next
    case False
    then have "\<not> starts_digit (sep @ join sep (map render_pred ps) @ b)"
      using assms(3,4) by (cases sep) auto
    moreover have "shift_placeholders (join sep (map render_pred ps) @ b) n
        = join sep (map render_pred (map (shift_pred n) ps)) @ shift_placeholders b n"
      by (rule Cons.IH) (use Cons.prems in auto)
    ultimately show ?thesis using Cons.prems [of p "sep @ join sep (map render_pred ps) @ b"] False assms(2)
      by (simp add: join_Cons)
  qed
qed simp

lemma shift_render:
  assumes "plain_pred p" "\<not> starts_digit b"
  shows "shift_placeholders (render_pred p @ b) n = render_pred (shift_pred n p) @ shift_placeholders b n"
  using assms
proof (induction p arbitrary: b)
  case (Equal x y)
  have "shift_placeholders (render_expr x @ '' = '' @ render_expr y @ b) n
      = render_expr (shift_expr n x) @ shift_placeholders ('' = '' @ render_expr y @ b) n"
    by (rule shift_render_expr) (use Equal in \<open>simp_all add: is_digit_def\<close>)
  also have "shift_placeholders ('' = '' @ render_expr y @ b) n = '' = '' @ shift_placeholders (render_expr y @ b) n"
    by (rule shift_plain) simp
  also have "shift_placeholders (render_expr y @ b) n = render_expr (shift_expr n y) @ shift_placeholders b n"
    by (rule shift_render_expr) (use Equal in simp_all)
  finally show ?case by simp
next
  case (NotRetired a)
  have "no_dollar (render_column a ''retired'' @ '' = false'')" using column_plain [of "''retired''" a] by simp
  from shift_plain [OF this] show ?case by simp
next
  case (Exists t a ps)
  have head: "no_dollar (''EXISTS (SELECT 1 FROM '' @ render_table t a @ '' WHERE '')"
    using table_plain [of t a] Exists.prems(1) by simp
  have "shift_placeholders (join '' AND '' (map render_pred ps) @ '')'' @ b) n
      = join '' AND '' (map render_pred (map (shift_pred n) ps)) @ shift_placeholders ('')'' @ b) n"
    by (rule shift_join) (use Exists in \<open>auto simp: list_all_iff is_digit_def\<close>)
  moreover have "shift_placeholders ('')'' @ b) n = '')'' @ shift_placeholders b n" by (rule shift_plain) simp
  ultimately show ?case using shift_plain [OF head] by simp
next
  case (AnyOf ps)
  show ?case
  proof (cases "ps = []")
    case True
    then show ?thesis using shift_plain [of "''FALSE''" b n] by (simp add: or_predicate_def)
  next
    case False
    have "shift_placeholders (join '') OR ('' (map render_pred ps) @ '')'' @ b) n
        = join '') OR ('' (map render_pred (map (shift_pred n) ps)) @ shift_placeholders ('')'' @ b) n"
      by (rule shift_join) (use AnyOf in \<open>auto simp: list_all_iff is_digit_def\<close>)
    moreover have "shift_placeholders ('')'' @ b) n = '')'' @ shift_placeholders b n" by (rule shift_plain) simp
    moreover have "shift_placeholders (''('' @ r) n = ''('' @ shift_placeholders r n" for r by (rule shift_plain) simp
    ultimately show ?thesis using False by (simp add: or_predicate_def)
  qed
next
  case (AllOf ps)
  show ?case
  proof (cases "ps = []")
    case True
    then show ?thesis using shift_plain [of "''TRUE''" b n] by (simp add: and_predicate_def)
  next
    case False
    have "shift_placeholders (join '') AND ('' (map render_pred ps) @ '')'' @ b) n
        = join '') AND ('' (map render_pred (map (shift_pred n) ps)) @ shift_placeholders ('')'' @ b) n"
      by (rule shift_join) (use AllOf in \<open>auto simp: list_all_iff is_digit_def\<close>)
    moreover have "shift_placeholders ('')'' @ b) n = '')'' @ shift_placeholders b n" by (rule shift_plain) simp
    moreover have "shift_placeholders (''('' @ r) n = ''('' @ shift_placeholders r n" for r by (rule shift_plain) simp
    ultimately show ?thesis using False by (simp add: and_predicate_def)
  qed
next
  case TrueP
  then show ?case using shift_plain [of "''TRUE''" b n] by simp
next
  case FalseP
  then show ?case using shift_plain [of "''FALSE''" b n] by simp
qed

lemma shift_render_only: "plain_pred p \<Longrightarrow> shift_placeholders (render_pred p) n = render_pred (shift_pred n p)"
  using shift_render [of p "[]" n] by simp

section \<open>Compiled scopes are plain\<close>

definition plain_entity :: "meta_entity \<Rightarrow> bool" where
  "plain_entity m \<longleftrightarrow> no_dollar (me_app m) \<and> no_dollar (me_key m) \<and> list_all (\<lambda>f. no_dollar (mf_name f)) (me_fields m)"

definition plain_metadata :: "metadata \<Rightarrow> bool" where
  "plain_metadata meta \<longleftrightarrow> (\<forall>app key m. meta app key = Some m \<longrightarrow> plain_entity m)"

lemma plain_meta_table: "plain_entity m \<Longrightarrow> no_dollar (meta_table m)"
  by (simp add: plain_entity_def meta_table_def entity_table_plain)

lemma plain_storage_column:
  assumes "no_dollar (mf_name f)"
  shows "no_dollar (storage_column f)"
proof (cases "default_definition (mf_type f)")
  case None
  then show ?thesis using assms by (simp add: storage_column_def record_column_for_field_def storage_column_for_field_def storage_name_plain)
next
  case (Some d)
  then have "d \<in> set built_ins" by (auto simp: default_definition_def dest: find_SomeD)
  moreover have "\<forall>d\<in>set built_ins. no_dollar (bh_column_suffix (ft_behavior d))" by code_simp
  ultimately have "no_dollar (bh_column_suffix (ft_behavior d))" by blast
  then show ?thesis using assms Some storage_name_plain [OF assms]
    by (simp add: storage_column_def record_column_for_field_def storage_column_for_field_def)
qed

lemma plain_addressable:
  assumes "record_addressable_field m n = Some f" "plain_entity m"
  shows "no_dollar (storage_column f)"
proof (rule plain_storage_column)
  show "no_dollar (mf_name f)" using assms
    by (auto simp: record_addressable_field_def metadata_fields_by_name_def plain_entity_def list_all_iff meta_name_field_def
        dest: find_SomeD split: option.splits if_splits)
qed

lemma path_loop_plain:
  assumes "path_loop meta m a joins ns c = Inr (e, c')" "plain_metadata meta" "plain_entity m" "list_all plain_hop joins"
  shows "plain_expr e"
  using assms
proof (induction meta m a joins ns c rule: path_loop.induct)
  case (2 meta current a joins n ns c)
  show ?case
  proof (cases "n = ''id'' \<or> n = ''owner''")
    case True
    then show ?thesis using "2.prems"(1) by (auto simp: plain_expr_def split: if_splits)
  next
    case False
    then obtain f where f: "record_addressable_field current n = Some f" "metadata_field_stored f"
      using "2.prems"(1) by (auto split: option.splits if_splits)
    have col: "no_dollar (storage_column f)" using plain_addressable [OF f(1) "2.prems"(3)] .
    show ?thesis
    proof (cases "ns = []")
      case True
      then show ?thesis using "2.prems" False f col by (auto simp: path_end_def plain_expr_def split: if_splits)
    next
      case ns: False
      obtain app key target where t: "mf_type f = ''link''" "link_field_target_identity f (me_app current) = Inr (app, key)"
        "meta app key = Some target"
        using "2.prems"(1) False f ns by (auto simp: scope_entity_def split: if_splits sum.splits option.splits prod.splits)
      have pt: "plain_entity target" using "2.prems"(2) t(3) by (auto simp: plain_metadata_def)
      let ?b = "AccessAlias (cm_alias c + 1)" and ?c = "c\<lparr>cm_alias := cm_alias c + 1\<rparr>"
      let ?hop = "(meta_table target, ?b, a, storage_column f)"
      have loop: "path_loop meta target ?b (joins @ [?hop]) ns ?c = Inr (e, c')"
        using "2.prems"(1) False f ns t by (simp add: scope_entity_def next_alias_def)
      have nx: "(?b, ?c) = next_alias c" by (simp add: next_alias_def)
      have ent: "scope_entity meta app key = Inr target" using t(3) by (simp add: scope_entity_def)
      have "plain_hop ?hop" using plain_meta_table [OF pt] col by (simp add: plain_hop_def)
      then have "list_all plain_hop (joins @ [?hop])" using "2.prems"(4) by simp
      then show ?thesis
        by (intro "2.IH" [OF _ _ f(1) _ ns _ t(2) refl ent nx refl loop "2.prems"(2) pt]) (use False f t(1) in auto)
    qed
  qed
qed simp

lemma scope_path_plain:
  "scope_path meta m a raw c = Inr (e, c') \<Longrightarrow> plain_metadata meta \<Longrightarrow> plain_entity m \<Longrightarrow> plain_expr e"
  using path_loop_plain by (fastforce simp: scope_path_def split: if_splits)

lemma scope_arg_plain: "scope_arg v c = (x, c') \<Longrightarrow> plain_expr x"
  by (auto simp: scope_arg_def plain_expr_def)

lemma member_clause_plain:
  assumes "member_clause meta actor m a st p = Inr st'" "list_all plain_pred (fst st)" "plain_metadata meta" "plain_entity m"
  shows "list_all plain_pred (fst st')"
proof -
  obtain v c x c' where v: "scope_path meta m a (record_path_of (fst p)) (snd st) = Inr (v, c)" "scope_arg actor c = (x, c')"
    "st' = (fst st @ [Equal v x], c')"
    using assms(1) by (auto simp: member_clause_def bindR_Inr_iff scope_arg_def split: if_splits)
  with scope_path_plain [OF v(1) assms(3,4)] scope_arg_plain [OF v(2)] assms(2) show ?thesis by simp
qed

lemma membership_plain:
  assumes "scope_membership meta actor root rv m c = Inr (p, c')" "plain_metadata meta" "plain_expr rv"
  shows "plain_pred p"
proof -
  obtain t a c1 v c2 clauses where s: "meta (me_app root) (mb_entity m) = Some t" "next_alias c = (a, c1)"
    "scope_path meta t a (record_path_of (mb_value m)) c1 = Inr (v, c2)"
    "foldR (member_clause meta actor t a) ([Equal v rv], c2) (mb_where m) = Inr (clauses, c')"
    "p = Exists (meta_table t) a (clauses @ (if has_retired t then [NotRetired a] else []))"
    using assms(1) by (auto simp: scope_membership_def scope_entity_def bindR_Inr_iff split: option.splits prod.splits)
  have t: "plain_entity t" using s(1) assms(2) by (auto simp: plain_metadata_def)
  have "list_all plain_pred (fst (clauses, c'))"
  proof (rule foldR_keeps [OF s(4)])
    show "list_all plain_pred (fst ([Equal v rv], c2))" using scope_path_plain [OF s(3) assms(2) t] assms(3) by simp
    show "list_all plain_pred (fst st')" if "list_all plain_pred (fst st)" "member_clause meta actor t a st q = Inr st'" for st q st'
      using member_clause_plain [OF that(2,1) assms(2) t] .
  qed
  then show ?thesis using plain_meta_table [OF t] by (simp add: s(5))
qed

lemma condition_plain:
  assumes "scope_condition meta actor root st co = Inr st'" "list_all plain_pred (fst st)" "plain_metadata meta" "plain_entity root"
  shows "list_all plain_pred (fst st')"
proof -
  obtain e c where e: "scope_path meta root RecordAlias (co_field co) (snd st) = Inr (e, c)"
    using assms(1) by (auto simp: scope_condition_def bindR_Inr_iff)
  note pe = scope_path_plain [OF e assms(3,4)]
  show ?thesis
  proof (cases "co_equals co = ''actor.user''")
    case True
    then obtain x c' where "scope_arg actor c = (x, c')" "st' = (fst st @ [Equal e x], c')"
      using assms(1) e by (auto simp: scope_condition_def scope_arg_def)
    then show ?thesis using pe scope_arg_plain assms(2) by simp
  next
    case False
    then obtain m p c' where "scope_membership meta actor root e m c = Inr (p, c')" "st' = (fst st @ [p], c')"
      using assms(1) e by (auto simp: scope_condition_def bindR_Inr_iff split: option.splits)
    then show ?thesis using membership_plain [OF _ assms(3) pe] assms(2) by simp
  qed
qed

lemma when_plain:
  assumes "scope_when meta actor root w c = Inr (p, c')" "plain_metadata meta" "plain_entity root"
  shows "plain_pred p"
proof (cases w)
  case (Some w)
  then obtain xs where f: "foldR (scope_condition meta actor root) ([], c) (wh_conditions w) = Inr (xs, c')"
    and p: "p = (if wh_match w = ''any'' then AnyOf xs else AllOf xs)"
    using assms(1) by (auto simp: scope_when_def bindR_Inr_iff)
  have "list_all plain_pred (fst (xs, c'))"
    by (rule foldR_keeps [OF f]) (use condition_plain [OF _ _ assms(2,3)] in auto)
  with p show ?thesis by simp
qed (use assms(1) in \<open>simp add: scope_when_def\<close>)

lemma compile_scope_plain:
  assumes "compile_scope meta actor app key grants = Inr sc" "plain_metadata meta"
  shows "plain_pred (sc_where sc) \<and> list_all (\<lambda>(f, p). plain_pred p) (sc_field_read sc)"
proof -
  let ?names = "dedup (concat (map (\<lambda>g. pf_deny_read (sg_fields g) @ pf_deny_write (sg_fields g)) grants))"
  obtain root gps c where c: "meta app key = Some root"
    "foldR (compile_grant meta actor root) ([], \<lparr>cm_args = [], cm_alias = 0\<rparr>) grants = Inr (gps, c)"
    "sc_where sc = AnyOf (map snd gps)" "sc_field_read sc = map (\<lambda>f. (f, field_predicate gps (reads_field f))) ?names"
    using assms(1) by (fastforce simp: compile_scope_def scope_entity_def bindR_Inr_iff Let_def split: option.splits)
  have root: "plain_entity root" using c(1) assms(2) by (auto simp: plain_metadata_def)
  have gs: "list_all (plain_pred \<circ> snd) (fst (gps, c))"
  proof (rule foldR_keeps [OF c(2)])
    show "list_all (plain_pred \<circ> snd) (fst st')"
      if "list_all (plain_pred \<circ> snd) (fst st)" "compile_grant meta actor root st g = Inr st'" for st g st'
      using that when_plain [OF _ assms(2) root] by (auto simp: compile_grant_def split: sum.splits)
  qed simp
  have each: "plain_pred (the (map_of (role_predicates gps) (sg_role (fst x))))" if "x \<in> set gps" for x
  proof -
    have "(sg_role (fst x), snd x) \<in> set (role_predicates gps)" using that by (force simp: role_predicates_def)
    then obtain p where p: "map_of (role_predicates gps) (sg_role (fst x)) = Some p"
      by (metis weak_map_of_SomeI)
    then have "(sg_role (fst x), p) \<in> set (role_predicates gps)" by (rule map_of_SomeD)
    then obtain g where "(g, p) \<in> set gps" by (auto simp: role_predicates_def)
    then have "plain_pred p" using gs by (force simp: list_all_iff)
    with p show ?thesis by simp
  qed
  have fp: "plain_pred (field_predicate gps P)" for P
    using each by (auto simp: field_predicate_def list_all_iff split_beta)
  show ?thesis using gs fp c(3,4) by (auto simp: list_all_iff)
qed

section \<open>Scoped reads\<close>

lemma and_rules_predicate:
  "and_rules (''('' @ w @ '') AND ('' @ s @ '')'') rules n = and_predicate (w # s # map (\<lambda>p. shift_placeholders p n) rules)"
proof -
  have "x @ '')'' @ concat (map (\<lambda>p. '' AND ('' @ shift_placeholders p n @ '')'') rules)
      = join '') AND ('' (x # map (\<lambda>p. shift_placeholders p n) rules) @ '')''" for x
    by (induction rules arbitrary: x) (simp_all add: join_Cons)
  from this [of s] show ?thesis by (simp add: and_rules_def and_predicate_def join_Cons)
qed

lemma rule_texts:
  "List.map_filter (map_of (map (\<lambda>(f, p). (f, render_pred p)) rules)) hs = map render_pred (List.map_filter (map_of rules) hs)"
proof (induction hs)
  case (Cons h hs)
  have "map_of (map (\<lambda>(f, p). (f, render_pred p)) rules) h = map_option render_pred (map_of rules h)"
    using map_of_map [of render_pred rules] by simp
  with Cons show ?case by (cases "map_of rules h") (simp_all add: map_filter_simps)
qed (simp add: map_filter_simps)

lemma set_map_filter_some: "set (List.map_filter f xs) = {y. \<exists>x\<in>set xs. f x = Some y}"
  by (induction xs) (auto simp: map_filter_simps split: option.splits)

lemma record_scope_plain:
  assumes "record_scope meta acc q0 = Inr sc" "normalize_request q0 = Inr q" "\<not> at_administrator (rq_actor q)" "plain_metadata meta"
    and grants: "grants = load_scope_grants acc (at_user (rq_actor q)) (rq_resource q) (rq_action q)"
    and root: "meta (re_app (rq_resource q)) (re_name (rq_resource q)) = Some root"
  shows "plain_pred (sc_where sc) \<and> list_all (\<lambda>(f, p). plain_pred p) (sc_field_read sc)
    \<and> render_pred (sc_where sc) \<noteq> [] \<and> render_pred (sc_where sc) \<noteq> ''TRUE''
    \<and> set (map fst (sc_field_read sc)) \<supseteq> (\<Union>g\<in>set grants. set (pf_deny_read (sg_fields g)))"
proof (cases "grants = []")
  case True
  then have "sc = plain_scope FalseP"
    using assms(1-3) grants by (auto simp: record_scope_def Let_def split: if_splits list.splits)
  with True show ?thesis by (simp add: plain_scope_def)
next
  case False
  then have c: "compile_scope meta (at_user (rq_actor q)) (re_app (rq_resource q)) (re_name (rq_resource q)) grants = Inr sc"
    using assms(1-3) grants by (auto simp: record_scope_def Let_def split: if_splits list.splits)
  let ?names = "dedup (concat (map (\<lambda>g. pf_deny_read (sg_fields g) @ pf_deny_write (sg_fields g)) grants))"
  obtain gps d where d: "sc_where sc = AnyOf (map snd gps)"
    "sc_field_read sc = map (\<lambda>f. (f, field_predicate gps (reads_field f))) ?names"
    using c by (fastforce simp: compile_scope_def scope_entity_def bindR_Inr_iff Let_def split: option.splits)
  have "set (map fst (sc_field_read sc)) = set ?names" by (simp add: d(2) comp_def)
  moreover have "render_pred (sc_where sc) \<noteq> []" "render_pred (sc_where sc) \<noteq> ''TRUE''"
    by (simp_all add: d(1) or_predicate_def)
  ultimately show ?thesis using compile_scope_plain [OF c assms(4)] by auto
qed


section \<open>Samples\<close>

text \<open>Without a condition of its own a statement gets the alternatives of the scope bare: AND binds tighter than OR, so the
  read rule of a sort field guards the last alternative only.\<close>

definition sample_two_roles :: row_scope where
  "sample_two_roles = \<lparr>rs_where = or_predicate [''a'', ''b''], rs_args = [], rs_read = [(''salary'', or_predicate [''b''])], rs_write = []\<rparr>"

lemma unfiltered_sort_unguarded:
  "scoped_read_where (Some sample_two_roles) ([], []) [''salary''] = (''(a) OR (b) AND ((b))'', [])"
  "scoped_read_where (Some sample_two_roles) (''w = $1'', [DInt 1]) [''salary''] = (''(w = $1) AND ((a) OR (b)) AND ((b))'', [DInt 1])"
  by code_simp+


end
