(* ===== verification/Record_Statements.thy ===== *)
theory Record_Statements
  imports Record_Scope
begin

text \<open>
  The statements a record store sends and what it makes of the rows (\<^verbatim>\<open>internal/db/records.go\<close>,
  \<^verbatim>\<open>query.go\<close>): pages of records, counts, aggregates and groups, single records, and the
  texts of updates and deletes.  A statement is its text and its arguments; the rows, or the classified
  error, come from an argument that stands for the database.
\<close>

type_synonym statement = "string \<times> db_value list"
type_synonym rows_answer = "statement \<Rightarrow> record_error + val list list"

section \<open>Pieces\<close>

definition table_source :: "record_layout \<Rightarrow> string" where
  "table_source l = quote_ident (ly_table l) @ '' AS '' @ quote_ident record_alias"

definition where_part :: "string \<Rightarrow> string" where
  "where_part w = (if w = [] then [] else '' WHERE '' @ w)"

definition page_part :: "db_value list \<Rightarrow> string" where
  "page_part args = '' LIMIT $'' @ show_nat (length args - 1) @ '' OFFSET $'' @ show_nat (length args)"

definition single_operation_error :: "record_layout \<Rightarrow> string \<Rightarrow> record_error" where
  "single_operation_error l operation = invalid_request (''single Entity records cannot use '' @ operation @ '' through this endpoint'')
     [(''entity'', lh_slug (ly_head l)), (''operation'', operation)]"

definition collection_operation_error :: "record_layout \<Rightarrow> string \<Rightarrow> record_error" where
  "collection_operation_error l operation =
     invalid_request (''collection Entity records cannot use '' @ operation @ '' through normal record endpoints'')
       [(''entity'', lh_slug (ly_head l)), (''operation'', operation)]"

definition reject_system_mutation :: "bool \<Rightarrow> record_layout \<Rightarrow> string \<Rightarrow> record_error + unit" where
  "reject_system_mutation allowed l operation =
     guardR (\<not> lh_system (ly_head l) \<or> allowed) (invalid_request ''system Entity records require a trusted system Record writer''
       [(''entity'', lh_slug (ly_head l)), (''operation'', operation)])"

section \<open>Pages\<close>

record list_result =
  lr_records :: "rec_map list"
  lr_limit :: int
  lr_offset :: int
  lr_count :: int
  lr_total :: int

definition page_read_fields :: "list_params \<Rightarrow> string list" where
  "page_read_fields p = map ft_field (lp_filters p) @ map so_field (lp_sort p)"

definition list_statement :: "row_scope option \<Rightarrow> record_layout \<Rightarrow> list_query \<Rightarrow> list_params \<Rightarrow> bool \<Rightarrow> statement" where
  "list_statement sc l q p lock =
     (let (w, args0) = scoped_read_where sc (lq_where q, lq_args q) (page_read_fields p);
          args = args0 @ [DInt (lp_limit p), DInt (lp_offset p)]
      in (''SELECT '' @ scope_select_list sc l (scope_offset sc args0) @ (if lock then [] else '', COUNT(*) OVER()'')
          @ '' FROM '' @ table_source l @ where_part w @ '' ORDER BY '' @ lq_order_by q @ page_part args
          @ (if lock then '' FOR UPDATE'' else []), args))"

definition scan_record_total :: "string \<Rightarrow> val \<Rightarrow> record_error + int" where
  "scan_record_total entity v =
     (case v of VInt i \<Rightarrow> if i > 9223372036854775807 then Inl (internal_error ''record total count is too large'' [(''entity'', entity)]) else Inr i
      | _ \<Rightarrow> Inl (internal_error ''record total count type was invalid'' [(''entity'', entity)]))"

definition access_columns :: "row_scope option \<Rightarrow> nat" where
  "access_columns sc = (case sc of None \<Rightarrow> 0 | Some s \<Rightarrow> length (rs_read s))"

definition page_row :: "row_scope option \<Rightarrow> record_layout \<Rightarrow> string \<Rightarrow> bool \<Rightarrow> rec_map list \<times> int \<Rightarrow> val list \<Rightarrow> record_error + rec_map list \<times> int" where
  "page_row sc l entity lock st vs =
     (if \<not> lock \<and> length vs = record_value_count l + access_columns sc + 1
      then bindR (scan_record_total entity (last vs)) (\<lambda>total'.
        bindR (scoped_record_from_values sc l (butlast vs)) (\<lambda>r. Inr (fst st @ [r], total')))
      else bindR (scoped_record_from_values sc l vs) (\<lambda>r. Inr (fst st @ [r], snd st)))"

definition list_records :: "row_scope option \<Rightarrow> record_env \<Rightarrow> rows_answer \<Rightarrow> record_layout \<Rightarrow> string \<Rightarrow> list_params \<Rightarrow> bool \<Rightarrow>
    record_error + list_result" where
  "list_records sc ev ask l entity p lock =
     (if lh_single (ly_head l) then Inl (single_operation_error l ''list'')
      else if lh_collection (ly_head l) then Inl (collection_operation_error l ''list'')
      else bindR (build_list_query ev l p) (\<lambda>q. bindR (ask (list_statement sc l q p lock)) (\<lambda>rows.
        bindR (foldR (page_row sc l entity lock) ([], 0) rows) (\<lambda>(rs, total').
          Inr \<lparr>lr_records = rs, lr_limit = lp_limit p, lr_offset = lp_offset p, lr_count = int (length rs),
            lr_total = (if total' = 0 then int (length rs) else total')\<rparr>))))"

definition list_records_of :: "row_scope option \<Rightarrow> record_env \<Rightarrow> rows_answer \<Rightarrow> record_error + record_layout \<Rightarrow> string \<Rightarrow> list_params \<Rightarrow> bool \<Rightarrow>
    record_error + list_result" where
  "list_records_of sc ev ask layout entity p0 lock =
     (case normalize_params p0 of Inl e \<Rightarrow> Inl (query_failure e)
      | Inr p \<Rightarrow> bindR layout (\<lambda>l. list_records sc ev ask l entity p lock))"

section \<open>Counting\<close>

definition query_layout :: "record_error + record_layout \<Rightarrow> string \<Rightarrow> string \<Rightarrow> record_error + record_layout" where
  "query_layout layout identity operation =
     bindR layout (\<lambda>l. if lh_single (ly_head l) \<or> lh_collection (ly_head l)
       then Inl (invalid_request (operation @ '' is not supported for this Entity'') [(''entity'', identity)]) else Inr l)"

definition count_statement :: "row_scope option \<Rightarrow> record_env \<Rightarrow> record_layout \<Rightarrow> filter_term list \<Rightarrow> record_error + statement" where
  "count_statement sc ev l fs =
     bindR (list_where ev l fs) (\<lambda>q. let (w, args) = scoped_read_where sc q (map ft_field fs) in
       Inr (''SELECT COUNT(*) FROM '' @ table_source l @ where_part w, args))"

definition exists_statement :: "row_scope option \<Rightarrow> record_env \<Rightarrow> record_layout \<Rightarrow> filter_term list \<Rightarrow> record_error + statement" where
  "exists_statement sc ev l fs =
     bindR (list_where ev l fs) (\<lambda>q. let (w, args) = scoped_read_where sc q (map ft_field fs) in
       Inr (''SELECT EXISTS (SELECT 1 FROM '' @ table_source l @ where_part w @ '')'', args))"

definition count_records :: "row_scope option \<Rightarrow> record_env \<Rightarrow> int sql_answer \<Rightarrow> record_error + record_layout \<Rightarrow> string \<Rightarrow> filter_term list \<Rightarrow>
    record_error + int" where
  "count_records sc ev ask layout identity fs =
     bindR (query_layout layout identity ''count'') (\<lambda>l. bindR (count_statement sc ev l fs) ask)"

definition exists_records :: "row_scope option \<Rightarrow> record_env \<Rightarrow> bool sql_answer \<Rightarrow> record_error + record_layout \<Rightarrow> string \<Rightarrow> filter_term list \<Rightarrow>
    record_error + bool" where
  "exists_records sc ev ask layout identity fs =
     bindR (query_layout layout identity ''exists'') (\<lambda>l. bindR (exists_statement sc ev l fs) ask)"

section \<open>Aggregates and groups\<close>

definition aggregate_fields :: "aggregate_spec list \<Rightarrow> string list" where
  "aggregate_fields specs = filter (\<lambda>f. f \<noteq> []) (map ag_field specs)"

definition identity_invalid :: "string \<Rightarrow> string \<Rightarrow> record_error" where
  "identity_invalid identity message = invalid_request message [(''entity'', identity)]"

definition aggregate_statement :: "row_scope option \<Rightarrow> record_env \<Rightarrow> record_layout \<Rightarrow> string \<Rightarrow> aggregate_spec list \<Rightarrow> filter_term list \<Rightarrow>
    record_error + statement" where
  "aggregate_statement sc ev l identity specs fs =
     (if specs = [] then Inl (identity_invalid identity ''at least one aggregate is required'')
      else bindR (list_where ev l fs) (\<lambda>q. bindR (aggregate_select ev l specs) (\<lambda>es.
        let (w, args) = scoped_read_where sc q (map ft_field fs @ aggregate_fields specs) in
        Inr (''SELECT '' @ join '', '' es @ '' FROM '' @ table_source l @ where_part w, args))))"

definition aggregate_records :: "row_scope option \<Rightarrow> record_env \<Rightarrow> rows_answer \<Rightarrow> record_error + record_layout \<Rightarrow> string \<Rightarrow>
    aggregate_spec list \<Rightarrow> filter_term list \<Rightarrow> record_error + (string \<times> val) list" where
  "aggregate_records sc ev ask layout identity specs fs =
     bindR (query_layout layout identity ''aggregate'') (\<lambda>l. bindR (aggregate_statement sc ev l identity specs fs) (\<lambda>st. bindR (ask st) (\<lambda>rows.
       case rows of
         [] \<Rightarrow> Inl (internal_error ''aggregate query returned no rows'' [(''entity'', identity)])
       | vs # rest \<Rightarrow>
           if length vs \<noteq> length specs then Inl (internal_error ''aggregate column count did not match query''
             [(''entity'', identity), (''expected'', show_nat (length specs)), (''actual'', show_nat (length vs))])
           else if rest \<noteq> [] then Inl (internal_error ''aggregate query returned multiple rows'' [(''entity'', identity)])
           else Inr (zip (map (\<lambda>(i, s). aggregate_column s i) (enumerate 0 specs)) vs))))"

record group_params =
  gp_by :: "string list"
  gp_aggregates :: "aggregate_spec list"
  gp_filters :: "filter_term list"
  gp_limit :: int
  gp_offset :: int

definition group_statement :: "row_scope option \<Rightarrow> record_env \<Rightarrow> record_layout \<Rightarrow> string \<Rightarrow> group_params \<Rightarrow> record_error + statement" where
  "group_statement sc ev l identity g =
     (if gp_by g = [] then Inl (identity_invalid identity ''at least one group field is required'')
      else if gp_aggregates g = [] then Inl (identity_invalid identity ''at least one aggregate is required'')
      else bindR (mapR (\<lambda>n. bindR (record_field_path ev l n ''group'') (\<lambda>(f, e). Inr (e, trim_space n))) (gp_by g)) (\<lambda>groups.
        bindR (list_where ev l (gp_filters g)) (\<lambda>q. bindR (aggregate_select ev l (gp_aggregates g)) (\<lambda>es.
        case normalize_params \<lparr>lp_limit = gp_limit g, lp_offset = gp_offset g, lp_filters = [], lp_sort = []\<rparr> of
          Inl e \<Rightarrow> Inl (query_failure e)
        | Inr p \<Rightarrow>
          let (w, args0) = scoped_read_where sc q (map ft_field (gp_filters g) @ gp_by g @ aggregate_fields (gp_aggregates g));
              args = args0 @ [DInt (lp_limit p), DInt (lp_offset p)]
          in Inr (''SELECT '' @ join '', '' (map (\<lambda>(e, n). e @ '' AS '' @ quote_ident n) groups @ es) @ '' FROM '' @ table_source l
            @ where_part w @ '' GROUP BY '' @ join '', '' (map fst groups)
            @ '' ORDER BY '' @ join '', '' (map (\<lambda>i. show_nat (i + 1) @ '' ASC'') [0..<length groups]) @ page_part args, args)))))"

definition group_row :: "string \<Rightarrow> group_params \<Rightarrow> val list \<Rightarrow> record_error + rec_map \<times> rec_map" where
  "group_row identity g vs =
     (let n = length (gp_by g); m = length (gp_aggregates g) in
      if length vs \<noteq> n + m then Inl (internal_error ''grouped record column count did not match query''
        [(''entity'', identity), (''expected'', show_nat (n + m)), (''actual'', show_nat (length vs))])
      else Inr (zip (map trim_space (gp_by g)) (take n vs),
        zip (map (\<lambda>(i, s). aggregate_column s i) (enumerate 0 (gp_aggregates g))) (drop n vs)))"

definition group_records :: "row_scope option \<Rightarrow> record_env \<Rightarrow> rows_answer \<Rightarrow> record_error + record_layout \<Rightarrow> string \<Rightarrow> group_params \<Rightarrow>
    record_error + (rec_map \<times> rec_map) list" where
  "group_records sc ev ask layout identity g =
     bindR (query_layout layout identity ''group'') (\<lambda>l. bindR (group_statement sc ev l identity g) (\<lambda>st.
       bindR (ask st) (mapR (group_row identity g))))"

section \<open>One record\<close>

definition one_record :: "row_scope option \<Rightarrow> record_layout \<Rightarrow> val list list \<Rightarrow> bool \<Rightarrow> record_error + rec_map" where
  "one_record sc l rows missing_ok =
     (case rows of
        [] \<Rightarrow> Inl (if missing_ok then not_found ''record not found'' [(''entity'', ly_entity l)]
            else internal_error ''record query returned no rows'' [(''entity'', ly_entity l)])
      | vs # _ \<Rightarrow> scoped_record_from_values sc l vs)"

definition id_statement :: "row_scope option \<Rightarrow> record_layout \<Rightarrow> string \<Rightarrow> db_value \<Rightarrow> bool \<Rightarrow> statement" where
  "id_statement sc l column v lock =
     (let (w, args) = scoped_where sc (quote_ident column @ '' = $1'', [v]) in
      (''SELECT '' @ scope_select_list sc l (scope_offset sc args) @ '' FROM '' @ table_source l @ '' WHERE '' @ w
       @ (if lock then '' FOR UPDATE OF '' @ quote_ident record_alias else []), args))"

definition get_record_row :: "row_scope option \<Rightarrow> rows_answer \<Rightarrow> record_layout \<Rightarrow> int \<Rightarrow> bool \<Rightarrow> record_error + rec_map" where
  "get_record_row sc ask l rid lock =
     (if lh_collection (ly_head l) then Inl (collection_operation_error l ''read'')
      else case bindR (ask (id_statement sc l ''id'' (DInt rid) lock)) (\<lambda>rows. one_record sc l rows True) of
        Inl e \<Rightarrow> Inl (if rx_code e = ''not_found'' then not_found (rx_message e) [(''entity'', ly_entity l), (''id'', show_int rid)] else e)
      | Inr r \<Rightarrow> Inr r)"

definition get_single_row :: "row_scope option \<Rightarrow> rows_answer \<Rightarrow> record_layout \<Rightarrow> record_error + rec_map" where
  "get_single_row sc ask l =
     (if \<not> lh_single (ly_head l) then Inl (invalid_request ''entity is not single'' [(''entity'', lh_slug (ly_head l))])
      else bindR (ask (id_statement sc l ''name'' (DText (single_record_name (ly_entity l))) False)) (\<lambda>rows. one_record sc l rows True))"

definition find_statement :: "row_scope option \<Rightarrow> record_layout \<Rightarrow> record_mutation \<Rightarrow> statement" where
  "find_statement sc l m =
     (let clauses = map (\<lambda>(c, p). quote_ident c @ '' = '' @ p) (zip (mu_columns m) (mu_placeholders m));
          (w, args) = scoped_where sc (join '' AND '' clauses, mu_values m)
      in (''SELECT '' @ scope_select_list sc l (scope_offset sc args) @ '' FROM '' @ table_source l @ '' WHERE '' @ w
          @ '' ORDER BY '' @ quote_ident ''id'' @ '' ASC LIMIT 2'', args))"

definition find_record_row :: "row_scope option \<Rightarrow> record_env \<Rightarrow> rows_answer \<Rightarrow> record_layout \<Rightarrow> string \<Rightarrow> record_input \<Rightarrow> record_error + rec_map" where
  "find_record_row sc ev ask l entity match =
     (if lh_collection (ly_head l) then Inl (collection_operation_error l ''read'')
      else bindR (validate_match_fields l match) (\<lambda>_. bindR (match_mutation ev l match) (\<lambda>m.
        bindR (ask (find_statement sc l m)) (\<lambda>rows.
          case rows of
            [] \<Rightarrow> Inl (not_found ''record not found'' [(''entity'', entity)])
          | vs # rest \<Rightarrow> bindR (scoped_record_from_values sc l vs) (\<lambda>r.
              if rest \<noteq> [] then Inl (validation_error ''record match is ambiguous'' [(''entity'', entity)]) else Inr r)))))"

section \<open>Changing a record\<close>

definition update_statement :: "row_scope option \<Rightarrow> record_layout \<Rightarrow> record_mutation \<Rightarrow> int \<Rightarrow> record_input \<Rightarrow> statement" where
  "update_statement sc l m rid input =
     (let sets = map (\<lambda>(c, p). quote_ident c @ '' = '' @ p) (zip (mu_columns m) (mu_placeholders m)) @ [quote_ident ''updated_at'' @ '' = now()''];
          args0 = mu_values m @ [DInt rid];
          (w, args) = scoped_write_where sc (quote_ident ''id'' @ '' = $'' @ show_nat (length args0), args0) input;
          offset = scope_offset sc args;
          proposed = proposed_update_predicate sc l m offset
      in (''UPDATE '' @ table_source l @ '' SET '' @ join '', '' sets @ '' WHERE '' @ w
          @ (if proposed = [] then [] else '' AND ('' @ proposed @ '')'') @ '' RETURNING '' @ scope_select_list sc l offset, args))"

definition delete_statement :: "row_scope option \<Rightarrow> record_layout \<Rightarrow> int \<Rightarrow> statement" where
  "delete_statement sc l rid =
     (let (w, args) = scoped_where sc (quote_ident ''id'' @ '' = $1'', [DInt rid]) in
      (''DELETE FROM '' @ quote_ident (ly_table l) @ (case sc of None \<Rightarrow> [] | Some _ \<Rightarrow> '' AS '' @ quote_ident record_alias)
       @ '' WHERE '' @ w, args))"

end
