(* ===== verification/Recursive_Query.thy ===== *)
theory Recursive_Query
  imports Dygo_Prelude "HOL-Library.While_Combinator"
begin

text \<open>
  \<^verbatim>\<open>WITH RECURSIVE ... UNION\<close> as PostgreSQL evaluates it: a working table of new rows is
  joined again until it is empty, rows already in the result are dropped.  The result is the set of
  rows reachable from the first ones; the query ends on every finite table, cyclic ones included.
\<close>

section \<open>Evaluation\<close>

definition union_step :: "('a \<Rightarrow> 'a list) \<Rightarrow> 'a list \<times> 'a list \<Rightarrow> 'a list \<times> 'a list" where
  "union_step f s =
     (let new = dedup (filter (\<lambda>x. x \<notin> set (fst s)) (concat (map f (snd s)))) in (fst s @ new, new))"

definition recursive_union :: "('a \<Rightarrow> 'a list) \<Rightarrow> 'a list \<Rightarrow> 'a list option" where
  "recursive_union f init =
     map_option fst (while_option (\<lambda>s. snd s \<noteq> []) (union_step f) (dedup init, dedup init))"

section \<open>Termination\<close>

lemma union_step_grows:
  "set (fst (union_step f s)) = set (fst s) \<union> set (concat (map f (snd s)))"
  "set (snd (union_step f s)) = set (concat (map f (snd s))) - set (fst s)"
  by (auto simp: union_step_def Let_def)

lemma recursive_union_ends:
  assumes "finite U" "\<And>x. set (f x) \<subseteq> U"
  shows "\<exists>r. recursive_union f init = Some r"
proof -
  let ?m = "\<lambda>s. 2 * card (U - set (fst s)) + (if snd s = [] then 0 else 1)"
  have less: "?m (union_step f s) < ?m s" if s: "snd s \<noteq> []" for s :: "'a list \<times> 'a list"
  proof (cases "snd (union_step f s) = []")
    case True
    have "card (U - set (fst (union_step f s))) \<le> card (U - set (fst s))"
      by (rule card_mono) (use assms(1) union_step_grows [of f s] in auto)
    with True s show ?thesis by simp
  next
    case False
    then obtain y where y: "y \<in> set (snd (union_step f s))" by (cases "snd (union_step f s)") auto
    then have "y \<in> U - set (fst s)" "y \<in> set (fst (union_step f s))"
      using union_step_grows [of f s] assms(2) by auto
    then have "U - set (fst (union_step f s)) \<subset> U - set (fst s)" using union_step_grows(1) [of f s] by auto
    then have "card (U - set (fst (union_step f s))) < card (U - set (fst s))"
      by (rule psubset_card_mono [rotated]) (use assms(1) in simp)
    with s show ?thesis by simp
  qed
  have "\<exists>t. while_option (\<lambda>s. snd s \<noteq> []) (union_step f) (dedup init, dedup init) = Some t"
    by (rule measure_while_option_Some [where P = "\<lambda>_. True" and f = ?m]) (use less in auto)
  then show ?thesis by (auto simp: recursive_union_def)
qed

section \<open>What it computes\<close>

definition successors :: "('a \<Rightarrow> 'a list) \<Rightarrow> ('a \<times> 'a) set" where
  "successors f = {(x, y). y \<in> set (f x)}"

lemma recursive_union_reachable:
  assumes "recursive_union f init = Some r"
  shows "set r = (successors f)\<^sup>* `` set init" "distinct r"
proof -
  let ?R = "(successors f)\<^sup>* `` set init"
  define I where "I s \<longleftrightarrow> set init \<subseteq> set (fst s) \<and> set (fst s) \<subseteq> ?R \<and> set (snd s) \<subseteq> set (fst s)
    \<and> (\<forall>x\<in>set (fst s) - set (snd s). set (f x) \<subseteq> set (fst s)) \<and> distinct (fst s)" for s :: "'a list \<times> 'a list"
  obtain s where s: "while_option (\<lambda>s. snd s \<noteq> []) (union_step f) (dedup init, dedup init) = Some s" "r = fst s"
    using assms by (auto simp: recursive_union_def)
  have step: "I (union_step f t)" if It: "I t" "snd t \<noteq> []" for t
  proof -
    note t = It [unfolded I_def]
    have "set (concat (map f (snd t))) \<subseteq> ?R"
    proof
      fix y assume "y \<in> set (concat (map f (snd t)))"
      then obtain x where x: "x \<in> set (snd t)" "(x, y) \<in> successors f" by (auto simp: successors_def)
      then obtain z where "z \<in> set init" "(z, x) \<in> (successors f)\<^sup>*" using t(1) by blast
      then show "y \<in> ?R" using x(2) by (auto intro: rtrancl_into_rtrancl)
    qed
    moreover have "set (f x) \<subseteq> set (fst (union_step f t))"
      if x: "x \<in> set (fst (union_step f t)) - set (snd (union_step f t))" for x
    proof -
      have "x \<in> set (fst t)" using x union_step_grows [of f t] by auto
      then show ?thesis using t(1) union_step_grows(1) [of f t] by (cases "x \<in> set (snd t)") auto
    qed
    moreover have "distinct (fst (union_step f t))" using t(1) by (auto simp: union_step_def Let_def)
    moreover have "set (fst t) \<subseteq> set (fst (union_step f t))" "set (snd (union_step f t)) \<subseteq> set (fst (union_step f t))"
      using union_step_grows [of f t] by auto
    ultimately show ?thesis using t(1) union_step_grows(1) [of f t] unfolding I_def by blast
  qed
  have "set init \<subseteq> ?R" by auto
  then have "I (dedup init, dedup init)" by (simp add: I_def)
  then have inv: "I s"
    by (rule while_option_rule [where b = "\<lambda>s. snd s \<noteq> []" and c = "union_step f", rotated 2]) (use step s(1) in auto)
  note inv = inv [unfolded I_def]
  have "snd s = []" using while_option_stop [OF s(1)] by simp
  then have closed: "\<forall>x\<in>set r. set (f x) \<subseteq> set r" using inv s(2) by simp
  have "?R \<subseteq> set r"
  proof
    fix y assume "y \<in> ?R"
    then obtain x where x: "x \<in> set init" "(x, y) \<in> (successors f)\<^sup>*" by blast
    from x(2) show "y \<in> set r"
    proof (induction rule: rtrancl_induct)
      case base
      then show ?case using inv s(2) x(1) by auto
    next
      case (step y z)
      then show ?case using closed by (auto simp: successors_def)
    qed
  qed
  then show "set r = ?R" "distinct r" using inv s(2) by auto
qed

lemma recursive_union_sample:
  "recursive_union (\<lambda>n. if n = (3 :: int) then [1] else [n + 1]) [1] = Some [1, 2, 3]"
  by code_simp

end
