(* ===== verification/Record_Tree.thy ===== *)
theory Record_Tree
  imports Record_Statements Recursive_Query
begin

text \<open>
  Entities whose records form a hierarchy (\<^verbatim>\<open>internal/db/tree_integrity.go\<close>,
  \<^verbatim>\<open>tree.go\<close>): the checks before a move and before a delete, the check of existing data,
  and the pages, paths and child marks a tree view shows.  The rows of the table are a list of ids with
  their parents; the recursive queries run over it.
\<close>

record tree_row =
  tr_id :: int
  tr_parent :: "int option"

section \<open>Integrity\<close>

definition tree_up :: "tree_row list \<Rightarrow> tree_row \<Rightarrow> tree_row list" where
  "tree_up rows r = (case tr_parent r of None \<Rightarrow> [] | Some p \<Rightarrow> filter (\<lambda>n. tr_id n = p) rows)"

definition tree_down :: "tree_row list \<Rightarrow> tree_row \<Rightarrow> tree_row list" where
  "tree_down rows r = filter (\<lambda>n. tr_parent n = Some (tr_id r)) rows"

text \<open>\<open>None\<close> would be a query that does not end.\<close>

definition would_cycle :: "tree_row list \<Rightarrow> int \<Rightarrow> int \<Rightarrow> bool option" where
  "would_cycle rows parent rid =
     map_option (\<lambda>ancestors. rid \<in> set (map tr_id ancestors)) (recursive_union (tree_up rows) (filter (\<lambda>n. tr_id n = parent) rows))"

definition tree_access_error :: record_error where
  "tree_access_error = permission_denied ''tree path or destination is unavailable'' []"

definition is_tree_access_error :: "record_error \<Rightarrow> bool" where
  "is_tree_access_error e \<longleftrightarrow> rx_code e = ''permission_denied'' \<or> rx_code e = ''not_found''"

definition tree_size_error :: record_error where
  "tree_size_error = invalid_request ''tree path or context is too large; narrow the search'' []"

definition query_failed :: record_error where
  "query_failed = internal_error ''record query failed'' []"

definition lock_tree :: "bool \<Rightarrow> record_layout \<Rightarrow> record_error + unit" where
  "lock_tree transactional l =
     guardR (lh_tree (ly_head l) = None \<or> transactional) (internal_error ''tree mutation requires a transaction'' [])"

text \<open>The destination is read under its own scope; \<open>get\<close> reads a record of the Entity under a scope.\<close>

definition validate_tree_parent :: "row_scope option \<Rightarrow> record_error + row_scope option \<Rightarrow> record_env \<Rightarrow>
    (row_scope option \<Rightarrow> int \<Rightarrow> record_error + rec_map) \<Rightarrow> tree_row list \<Rightarrow> record_layout \<Rightarrow> int \<Rightarrow> record_input \<Rightarrow> record_error + unit" where
  "validate_tree_parent sc read ev get rows l rid input =
     (case lh_tree (ly_head l) of None \<Rightarrow> Inr ()
      | Some pf \<Rightarrow> (case map_of input pf of None \<Rightarrow> Inr ()
        | Some raw \<Rightarrow>
          if raw_is_null raw then Inr ()
          else let f = field_or_zero l pf in
            case unmarshal_string raw of None \<Rightarrow> Inl (link_name_required l f)
            | Some name \<Rightarrow> bindR (id_by_name ev l f name) (\<lambda>parent. bindR read (\<lambda>rs.
                if sc \<noteq> None \<and> rs = None then Inl tree_access_error
                else case get rs parent of
                  Inl e \<Rightarrow> Inl (if is_tree_access_error e then tree_access_error else e)
                | Inr _ \<Rightarrow> (case would_cycle rows parent rid of None \<Rightarrow> Inl query_failed
                    | Some bad \<Rightarrow> guardR (\<not> bad) (validation_error ''tree parent would create a cycle'' []))))))"

definition restrict_tree_delete :: "tree_row list \<Rightarrow> record_layout \<Rightarrow> int \<Rightarrow> record_error + unit" where
  "restrict_tree_delete rows l rid =
     guardR (lh_tree (ly_head l) = None \<or> list_all (\<lambda>n. tr_parent n \<noteq> Some rid) rows)
       (constraint_violation ''tree node has children'' [])"

text \<open>\<^verbatim>\<open>validateTreeData\<close> for one Entity that becomes a tree.\<close>

definition tree_data_valid :: "tree_row list \<Rightarrow> bool option" where
  "tree_data_valid rows =
     map_option (\<lambda>reached. list_all (\<lambda>n. tr_id n \<in> set (map tr_id reached)) rows)
       (recursive_union (tree_down rows) (filter (\<lambda>n. tr_parent n = None) rows))"

definition validate_tree_data :: "(string \<Rightarrow> tree_row list) \<Rightarrow> (string \<times> string \<times> bool) list \<Rightarrow> string + unit" where
  "validate_tree_data table entities =
     foldR (\<lambda>_ (app, entity, is_tree).
       if \<not> is_tree then Inr ()
       else guardR (tree_data_valid (table (entity_table_name app entity)) = Some True)
         (''cannot activate tree '' @ app @ ''/'' @ entity @ '': existing hierarchy contains a cycle or missing parent'')) () entities"

section \<open>Paths\<close>

record path_row =
  pr_origin :: int
  pr_id :: int
  pr_parent :: "int option"
  pr_trail :: "int list"
  pr_cycle :: bool

record path_step =
  ps_id :: int
  ps_parent :: "int option"
  ps_depth :: int

definition path_start :: "tree_row list \<Rightarrow> int list \<Rightarrow> path_row list" where
  "path_start rows ids =
     map (\<lambda>n. \<lparr>pr_origin = tr_id n, pr_id = tr_id n, pr_parent = tr_parent n, pr_trail = [tr_id n], pr_cycle = False\<rparr>)
       (filter (\<lambda>n. tr_id n \<in> set ids) rows)"

definition max_path_depth :: int where
  "max_path_depth = 2500"

definition max_path_rows :: int where
  "max_path_rows = 10000"

definition path_next :: "tree_row list \<Rightarrow> path_row \<Rightarrow> path_row list" where
  "path_next rows s =
     (if pr_cycle s \<or> int (length (pr_trail s)) > max_path_depth then []
      else case pr_parent s of None \<Rightarrow> []
      | Some p \<Rightarrow> map (\<lambda>n. \<lparr>pr_origin = pr_origin s, pr_id = tr_id n, pr_parent = tr_parent n,
            pr_trail = pr_trail s @ [tr_id n], pr_cycle = tr_id n \<in> set (pr_trail s)\<rparr>) (filter (\<lambda>n. tr_id n = p) rows))"

text \<open>\<^verbatim>\<open>UNION ALL\<close> keeps duplicates; the trail bounds the number of rounds.\<close>

definition rounds_left :: "path_row list \<Rightarrow> nat" where
  "rounds_left w = (if w = [] then 0 else 1 + Max ((\<lambda>s. nat (max_path_depth + 1 - int (length (pr_trail s)))) ` set w))"

function path_levels :: "tree_row list \<Rightarrow> path_row list \<Rightarrow> path_row list" where
  "path_levels rows w = (if w = [] then [] else w @ path_levels rows (concat (map (path_next rows) w)))"
  by pat_completeness auto

lemma path_next_shorter:
  "t \<in> set (path_next rows s) \<Longrightarrow>
     nat (max_path_depth + 1 - int (length (pr_trail t))) < nat (max_path_depth + 1 - int (length (pr_trail s)))"
  by (auto simp: path_next_def split: if_splits option.splits)

termination path_levels
proof (relation "measure (rounds_left \<circ> snd)")
  fix rows :: "tree_row list" and w :: "path_row list" assume w: "w \<noteq> []"
  let ?d = "\<lambda>s. nat (max_path_depth + 1 - int (length (pr_trail s)))" and ?next = "concat (map (path_next rows) w)"
  have "rounds_left ?next < rounds_left w"
  proof (cases "?next = []")
    case True
    then show ?thesis using w unfolding True by (simp add: rounds_left_def)
  next
    case False
    have "Max (?d ` set ?next) < Max (?d ` set w)"
    proof (subst Max_less_iff)
      show "\<forall>a\<in>?d ` set ?next. a < Max (?d ` set w)"
      proof
        fix a assume "a \<in> ?d ` set ?next"
        then obtain s t where st: "s \<in> set w" "t \<in> set (path_next rows s)" "a = ?d t" by auto
        then have "a < ?d s" using path_next_shorter by simp
        also have "?d s \<le> Max (?d ` set w)" by (rule Max_ge) (use st in auto)
        finally show "a < Max (?d ` set w)" .
      qed
    qed (use False in auto)
    then show ?thesis using False w unfolding rounds_left_def by (simp only: if_False)
  qed
  then show "((rows, ?next), (rows, w)) \<in> measure (rounds_left \<circ> snd)" by simp
qed simp

declare path_levels.simps [simp del]

definition path_query :: "tree_row list \<Rightarrow> int list \<Rightarrow> path_row list" where
  "path_query rows ids = path_levels rows (path_start rows ids)"

text \<open>The scan of the rows; the query returns at most one row more than the limit, which is an error.\<close>

definition scan_path_row :: "int \<times> (int \<times> path_step) list \<Rightarrow> path_row \<Rightarrow> record_error + int \<times> (int \<times> path_step) list" where
  "scan_path_row st r =
     (let n = fst st + 1 in
      if n > max_path_rows \<or> int (length (pr_trail r)) > max_path_depth then Inl tree_size_error
      else if pr_cycle r then Inl (constraint_violation ''tree contains a cycle'' [])
      else Inr (n, snd st @ [(pr_origin r, \<lparr>ps_id = pr_id r, ps_parent = pr_parent r, ps_depth = int (length (pr_trail r))\<rparr>)]))"

definition path_steps :: "tree_row list \<Rightarrow> int list \<Rightarrow> record_error + (int \<times> path_step) list" where
  "path_steps rows ids =
     (if ids = [] then Inr [] else bindR (foldR scan_path_row (0, []) (path_query rows ids)) (\<lambda>(n, steps). Inr steps))"

text \<open>From the root down.\<close>

definition path_of :: "(int \<times> path_step) list \<Rightarrow> int \<Rightarrow> path_step list" where
  "path_of steps origin = sort_key (\<lambda>s. - ps_depth s) (map snd (filter (\<lambda>p. fst p = origin) steps))"

section \<open>Scopes of a tree view\<close>

definition tree_subtree_sql :: "record_layout \<Rightarrow> string \<Rightarrow> string" where
  "tree_subtree_sql l pf =
     (let t = quote_ident (ly_table l); c = quote_ident (rf_column (field_or_zero l pf)) in
      ''WITH RECURSIVE subtree AS ('' @ [CHR 0x0A] @ '' SELECT id FROM '' @ t @ '' WHERE id = $1'' @ [CHR 0x0A]
      @ '' UNION SELECT n.id FROM '' @ t @ '' n JOIN subtree p ON n.'' @ c @ '' = p.id'' @ [CHR 0x0A] @ '') SELECT id FROM subtree'')"

definition with_tree_predicate :: "row_scope option \<Rightarrow> string \<Rightarrow> db_value list \<Rightarrow> row_scope option" where
  "with_tree_predicate sc p args =
     (let s = (case sc of None \<Rightarrow> \<lparr>rs_where = ''TRUE'', rs_args = [], rs_read = [], rs_write = []\<rparr> | Some s \<Rightarrow> s);
          w = (if rs_where s = [] then ''TRUE'' else rs_where s)
      in Some (s\<lparr>rs_where := ''('' @ w @ '') AND ('' @ shift_placeholders p (length (rs_args s)) @ '')'', rs_args := rs_args s @ args\<rparr>))"

definition tree_query_scope :: "row_scope option \<Rightarrow> record_layout \<Rightarrow> string \<Rightarrow> string \<Rightarrow> int \<Rightarrow> record_error + row_scope option" where
  "tree_query_scope sc l pf operation anchor =
     (let column = record_source_column (rf_column (field_or_zero l pf)); id_column = record_source_column ''id'' in
      if operation = ''roots'' then Inr (with_tree_predicate sc (column @ '' IS NULL'') [])
      else if operation = ''children'' then Inr (with_tree_predicate sc (column @ '' = $1'') [DInt anchor])
      else if operation = ''descendants'' then Inr (with_tree_predicate sc
        (id_column @ '' IN ('' @ tree_subtree_sql l pf @ '') AND '' @ id_column @ '' <> $1'') [DInt anchor])
      else if operation = ''search'' then Inr sc
      else Inl (invalid_request ''unknown tree operation'' []))"

definition excluding_subtree :: "(int \<Rightarrow> record_error + rec_map) \<Rightarrow> record_layout \<Rightarrow> string \<Rightarrow> string \<Rightarrow> int \<Rightarrow> row_scope option \<Rightarrow>
    record_error + row_scope option" where
  "excluding_subtree get l pf operation exclude sc =
     (if exclude = 0 then Inr sc
      else if operation \<noteq> ''search'' then Inl (invalid_request ''subtree exclusion requires tree search'' [])
      else bindR (get exclude) (\<lambda>_.
        Inr (with_tree_predicate sc (record_source_column ''id'' @ '' NOT IN ('' @ tree_subtree_sql l pf @ '')'') [DInt exclude])))"

definition guard_parent_reads :: "string \<Rightarrow> string \<Rightarrow> row_scope option \<Rightarrow> row_scope option" where
  "guard_parent_reads operation pf sc =
     (if operation = ''search'' then sc
      else map_option (\<lambda>s. let p = rule_of (rs_read s) pf in
        if p = [] then s else s\<lparr>rs_where := rs_where s @ '' AND ('' @ p @ '')''\<rparr>) sc)"

section \<open>Nodes\<close>

definition rec_id :: "rec_map \<Rightarrow> int" where
  "rec_id r = (case activity_record_id r of Inr i \<Rightarrow> i | Inl _ \<Rightarrow> 0)"

definition tree_record_map :: "rec_map list \<Rightarrow> (int \<times> rec_map) list" where
  "tree_record_map rs = rev (map (\<lambda>r. (rec_id r, r)) rs)"

record tree_node =
  tn_record :: rec_map
  tn_has_children :: bool
  tn_path_unavailable :: bool
  tn_parent :: string

definition tree_node_of :: "string \<Rightarrow> int list \<Rightarrow> bool \<Rightarrow> rec_map \<Rightarrow> tree_node" where
  "tree_node_of pf with_children unavailable r =
     \<lparr>tn_record = (if unavailable then drop_field pf r else r), tn_has_children = rec_id r \<in> set with_children,
      tn_path_unavailable = unavailable,
      tn_parent = (if unavailable then [] else case map_of r pf of Some (VText s) \<Rightarrow> s | _ \<Rightarrow> [])\<rparr>"

definition readable_tree_path :: "path_step list \<Rightarrow> (int \<times> rec_map) list \<Rightarrow> string \<Rightarrow> rec_map list option" where
  "readable_tree_path steps records pf =
     (case steps of [] \<Rightarrow> None
      | s # _ \<Rightarrow> if ps_parent s \<noteq> None then None
          else those (map (\<lambda>s. Option.bind (map_of records (ps_id s)) (\<lambda>r. if map_of r pf = None then None else Some r)) steps))"

section \<open>The tree view\<close>

record tree_access =
  ta_rows :: rows_answer
  ta_ids :: "statement \<Rightarrow> record_error + int list"
  ta_table :: "tree_row list"
  ta_get :: "int \<Rightarrow> record_error + rec_map"

definition tree_child_indicators :: "row_scope option \<Rightarrow> tree_access \<Rightarrow> record_layout \<Rightarrow> string \<Rightarrow> int list \<Rightarrow> record_error + int list" where
  "tree_child_indicators sc ta l pf ids =
     (if ids = [] then Inr []
      else let column = record_source_column (rf_column (field_or_zero l pf));
          (w, args) = scoped_read_where sc (column @ '' = ANY($1::bigint[])'', [DIds ids]) [pf]
        in ta_ids ta (''SELECT DISTINCT '' @ column @ '' FROM '' @ table_source l @ '' WHERE '' @ w, args))"

definition name_sort :: sort_term where
  "name_sort = \<lparr>so_field = ''name'', so_desc = False\<rparr>"

definition tree_paths :: "row_scope option \<Rightarrow> record_env \<Rightarrow> tree_access \<Rightarrow> record_layout \<Rightarrow> int list \<Rightarrow> sort_term list \<Rightarrow>
    record_error + (int \<times> path_step) list \<times> rec_map list" where
  "tree_paths sc ev ta l ids order =
     bindR (path_steps (ta_table ta) ids) (\<lambda>steps.
       let all = dedup (map (\<lambda>p. ps_id (snd p)) steps) in
       if all = [] then Inr (steps, [])
       else bindR (list_records (with_tree_predicate sc (record_source_column ''id'' @ '' = ANY($1::bigint[])'') [DIds all]) ev (ta_rows ta) l
           (ly_entity l) \<lparr>lp_limit = int (length all), lp_offset = 0, lp_filters = [], lp_sort = (if order = [] then [name_sort] else order)\<rparr> False)
         (\<lambda>page. Inr (steps, lr_records page)))"

record tree_result =
  te_nodes :: "tree_node list"
  te_context :: "rec_map list"
  te_limit :: int
  te_offset :: int
  te_count :: int

definition tree_sort :: "sort_term list \<Rightarrow> sort_term list" where
  "tree_sort ts =
     (let us = (if ts = [] then [name_sort] else ts) in
      if list_ex (\<lambda>t. so_field t = ''name'') us then us else us @ [name_sort])"

definition tree_lineage :: "row_scope option \<Rightarrow> record_env \<Rightarrow> tree_access \<Rightarrow> record_layout \<Rightarrow> string \<Rightarrow> string \<Rightarrow> int \<Rightarrow> record_error + tree_result" where
  "tree_lineage sc ev ta l pf operation anchor =
     bindR (tree_paths sc ev ta l [anchor] []) (\<lambda>(steps, records).
       case readable_tree_path (path_of steps anchor) (tree_record_map records) pf of
         None \<Rightarrow> Inl tree_access_error
       | Some full \<Rightarrow>
           let path = (if operation = ''ancestors'' then butlast full else full) in
           bindR (tree_child_indicators sc ta l pf (map rec_id path)) (\<lambda>ch.
             Inr \<lparr>te_nodes = map (tree_node_of pf ch False) path, te_context = [], te_limit = int (length path), te_offset = 0,
               te_count = int (length path)\<rparr>))"

definition page_paths :: "row_scope option \<Rightarrow> record_env \<Rightarrow> tree_access \<Rightarrow> record_layout \<Rightarrow> string \<Rightarrow> int \<Rightarrow> sort_term list \<Rightarrow> rec_map list \<Rightarrow>
    record_error + (int \<Rightarrow> path_step list) \<times> rec_map list" where
  "page_paths sc ev ta l operation anchor order page =
     (let ids = map rec_id page in
      if operation = ''roots'' then Inr (\<lambda>i. if i \<in> set ids then [\<lparr>ps_id = i, ps_parent = None, ps_depth = 0\<rparr>] else [], page)
      else if operation = ''children'' then
        (if ids = [] then Inr (\<lambda>_. [], page)
         else bindR (tree_paths sc ev ta l [anchor] []) (\<lambda>(steps, records).
           Inr (\<lambda>i. if i \<in> set ids then path_of steps anchor @ [\<lparr>ps_id = i, ps_parent = Some anchor, ps_depth = 0\<rparr>] else [], records @ page)))
      else bindR (tree_paths sc ev ta l ids order) (\<lambda>(steps, records). Inr (path_of steps, records)))"

definition tree_page :: "row_scope option \<Rightarrow> record_env \<Rightarrow> tree_access \<Rightarrow> record_layout \<Rightarrow> string \<Rightarrow> string \<Rightarrow> string \<Rightarrow> int \<Rightarrow> int \<Rightarrow> list_params \<Rightarrow>
    record_error + tree_result" where
  "tree_page sc ev ta l pf entity operation anchor exclude p =
     bindR (tree_query_scope sc l pf operation anchor) (\<lambda>sc1. bindR (excluding_subtree (ta_get ta) l pf operation exclude sc1) (\<lambda>sc2.
     bindR (list_records (guard_parent_reads operation pf sc2) ev (ta_rows ta) l entity p False) (\<lambda>page.
     bindR (tree_child_indicators sc ta l pf (map rec_id (lr_records page))) (\<lambda>ch.
     bindR (page_paths sc ev ta l operation anchor (lp_sort p) (lr_records page)) (\<lambda>(paths, ordered).
       let readable = (\<lambda>r. readable_tree_path (paths (rec_id r)) (tree_record_map ordered) pf);
           shown = concat (map (\<lambda>r. case readable r of None \<Rightarrow> [] | Some path \<Rightarrow> map rec_id path) (lr_records page))
       in Inr \<lparr>te_nodes = map (\<lambda>r. tree_node_of pf ch (readable r = None) r) (lr_records page),
           te_context = (if operation = ''search'' then filter (\<lambda>r. rec_id r \<in> set shown) ordered else []),
           te_limit = lp_limit p, te_offset = lp_offset p, te_count = int (length (lr_records page))\<rparr>)))))"

definition tree_records :: "row_scope option \<Rightarrow> record_env \<Rightarrow> tree_access \<Rightarrow> record_error + record_layout \<Rightarrow> string \<Rightarrow> string \<Rightarrow> int \<Rightarrow> list_params \<Rightarrow>
    int \<Rightarrow> record_error + tree_result" where
  "tree_records sc ev ta layout entity operation anchor p0 exclude =
     bindR layout (\<lambda>l.
       case lh_tree (ly_head l) of None \<Rightarrow> Inl (invalid_request ''Entity does not support trees'' [])
       | Some pf \<Rightarrow> (case normalize_params p0 of Inl e \<Rightarrow> Inl (query_failure e)
         | Inr p1 \<Rightarrow>
           let p = p1\<lparr>lp_sort := tree_sort (lp_sort p1)\<rparr>; anchored = operation \<notin> set [''roots'', ''search''] in
           if anchored \<and> anchor \<le> 0 then Inl (invalid_request ''tree anchor is required'' [])
           else bindR (if anchored then ta_get ta anchor else Inr []) (\<lambda>_.
             if operation = ''ancestors'' \<or> operation = ''path'' then tree_lineage sc ev ta l pf operation anchor
             else tree_page sc ev ta l pf entity operation anchor exclude p)))"

end
