(* ===== verification/Tree_Guarantees.thy ===== *)
theory Tree_Guarantees
  imports Record_Tree "HOL-Library.Multiset"
begin

text \<open>
  Trees stay trees: the queries over a hierarchy always end, the checks before a move and a delete
  keep every record below a root, and a path is either complete or refused.
\<close>

section \<open>Queries over a table\<close>

lemma tree_queries_end:
  "\<exists>r. recursive_union (tree_up rows) init = Some r" "\<exists>r. recursive_union (tree_down rows) init = Some r"
  by (rule recursive_union_ends [of "set rows"]; auto simp: tree_up_def tree_down_def split: option.splits)+


section \<open>Rooted records\<close>

inductive rooted :: "tree_row list \<Rightarrow> tree_row \<Rightarrow> bool" for rows :: "tree_row list" where
  root: "n \<in> set rows \<Longrightarrow> tr_parent n = None \<Longrightarrow> rooted rows n"
| below: "rooted rows m \<Longrightarrow> n \<in> set rows \<Longrightarrow> tr_parent n = Some (tr_id m) \<Longrightarrow> rooted rows n"

inductive_cases rootedE: "rooted rows n"

lemma rooted_in: "rooted rows n \<Longrightarrow> n \<in> set rows"
  by (induction rule: rooted.induct) auto

lemma rooted_reachable: "rooted rows n \<longleftrightarrow> n \<in> (successors (tree_down rows))\<^sup>* `` {n \<in> set rows. tr_parent n = None}"
proof
  assume "rooted rows n"
  then show "n \<in> (successors (tree_down rows))\<^sup>* `` {n \<in> set rows. tr_parent n = None}"
  proof (induction rule: rooted.induct)
    case (below m n)
    then have "(m, n) \<in> successors (tree_down rows)" by (simp add: successors_def tree_down_def)
    with below show ?case by (auto intro: rtrancl_into_rtrancl)
  qed auto
next
  assume "n \<in> (successors (tree_down rows))\<^sup>* `` {n \<in> set rows. tr_parent n = None}"
  then obtain m where m: "m \<in> set rows" "tr_parent m = None" "(m, n) \<in> (successors (tree_down rows))\<^sup>*" by auto
  from m(3) show "rooted rows n"
  proof (induction rule: rtrancl_induct)
    case base
    then show ?case using m(1,2) by (rule rooted.root)
  next
    case (step y z)
    then show ?case by (auto simp: successors_def tree_down_def intro: rooted.below)
  qed
qed

definition tree_ok :: "tree_row list \<Rightarrow> bool" where
  "tree_ok rows \<longleftrightarrow> distinct (map tr_id rows) \<and> (\<forall>n\<in>set rows. rooted rows n)"

lemma same_row: "distinct (map tr_id rows) \<Longrightarrow> m \<in> set rows \<Longrightarrow> n \<in> set rows \<Longrightarrow> tr_id m = tr_id n \<Longrightarrow> m = n"
  using distinct_key_eq by metis

lemma tree_data_valid_iff:
  assumes "distinct (map tr_id rows)"
  shows "tree_data_valid rows = Some True \<longleftrightarrow> tree_ok rows"
proof -
  obtain r where r: "recursive_union (tree_down rows) (filter (\<lambda>n. tr_parent n = None) rows) = Some r"
    using tree_queries_end(2) by blast
  then have set: "n \<in> set r \<longleftrightarrow> rooted rows n" for n
    using recursive_union_reachable(1) [OF r] rooted_reachable by auto
  have "tr_id n \<in> set (map tr_id r) \<longleftrightarrow> rooted rows n" if n: "n \<in> set rows" for n
  proof
    assume "tr_id n \<in> set (map tr_id r)"
    then obtain m where m: "m \<in> set r" "tr_id m = tr_id n" by auto
    then have "rooted rows m" using set by blast
    then show "rooted rows n" using same_row [OF assms rooted_in n m(2)] by metis
  qed (use set in auto)
  then show ?thesis using assms by (auto simp: tree_data_valid_def r tree_ok_def list_all_iff)
qed

text \<open>The ancestors of a record, itself included.\<close>

lemma would_cycle_iff:
  assumes "distinct (map tr_id rows)"
  shows "would_cycle rows parent rid = Some True \<longleftrightarrow>
    (\<exists>p n. p \<in> set rows \<and> tr_id p = parent \<and> (p, n) \<in> (successors (tree_up rows))\<^sup>* \<and> tr_id n = rid)"
proof -
  obtain r where r: "recursive_union (tree_up rows) (filter (\<lambda>n. tr_id n = parent) rows) = Some r"
    using tree_queries_end(1) by blast
  from recursive_union_reachable(1) [OF r] show ?thesis by (auto simp: would_cycle_def r image_iff Bex_def)
qed

section \<open>Moves\<close>

definition move_row :: "int \<Rightarrow> int option \<Rightarrow> tree_row list \<Rightarrow> tree_row list" where
  "move_row rid p rows = update_where (\<lambda>n. tr_id n = rid) (\<lambda>n. n\<lparr>tr_parent := p\<rparr>) rows"

lemma move_row_ids: "map tr_id (move_row rid p rows) = map tr_id rows"
  unfolding move_row_def by (rule map_update_where) simp

text \<open>The records above a record that is not above the moved one stay rooted.\<close>

lemma rooted_above:
  assumes "rooted rows n" "distinct (map tr_id rows)" "\<And>a. (n, a) \<in> (successors (tree_up rows))\<^sup>* \<Longrightarrow> tr_id a \<noteq> rid"
  shows "rooted (move_row rid p rows) n"
  using assms(1,3)
proof (induction rule: rooted.induct)
  case (root n)
  then have "n \<in> set (move_row rid p rows)" unfolding move_row_def by (intro update_where_in_same) auto
  then show ?case using root by (intro rooted.root)
next
  case (below m n)
  have up: "(n, m) \<in> successors (tree_up rows)" using below rooted_in by (auto simp: successors_def tree_up_def)
  have "rooted (move_row rid p rows) m"
    by (rule below.IH) (use below.prems up in \<open>blast intro: converse_rtrancl_into_rtrancl\<close>)
  moreover have "n \<in> set (move_row rid p rows)" using below unfolding move_row_def by (intro update_where_in_same) auto
  ultimately show ?case using below(3) by (rule rooted.below)
qed

lemma move_keeps:
  assumes ok: "tree_ok rows" and p: "p = None \<or> (\<exists>q. p = Some q \<and> q \<in> tr_id ` set rows \<and> would_cycle rows q rid = Some False)"
  shows "tree_ok (move_row rid p rows)"
proof -
  let ?rows = "move_row rid p rows"
  have ids: "distinct (map tr_id rows)" using ok by (simp add: tree_ok_def)
  have moved: "rooted ?rows (n\<lparr>tr_parent := p\<rparr>)" if n: "n \<in> set rows" "tr_id n = rid" for n
  proof -
    have mem: "n\<lparr>tr_parent := p\<rparr> \<in> set ?rows" using n unfolding move_row_def by (intro update_where_in_changed) auto
    show ?thesis
    proof (cases p)
      case None
      with mem show ?thesis by (intro rooted.root) auto
    next
      case (Some q)
      then obtain m where m: "m \<in> set rows" "tr_id m = q" "would_cycle rows q rid \<noteq> Some True" using p by auto
      have "tr_id a \<noteq> rid" if "(m, a) \<in> (successors (tree_up rows))\<^sup>*" for a
        using m that would_cycle_iff [OF ids, of q rid] by blast
      moreover have "rooted rows m" using ok m(1) by (simp add: tree_ok_def)
      ultimately have "rooted ?rows m" using rooted_above [OF _ ids] by blast
      then show ?thesis by (rule rooted.below) (use mem Some m(2) in auto)
    qed
  qed
  have each: "rooted ?rows (if tr_id n = rid then n\<lparr>tr_parent := p\<rparr> else n)" if "rooted rows n" for n
    using that
  proof (induction rule: rooted.induct)
    case (root n)
    have "tr_id n \<noteq> rid \<Longrightarrow> n \<in> set ?rows" using root unfolding move_row_def by (intro update_where_in_same) auto
    then show ?case using root moved by (auto intro: rooted.root)
  next
    case (below m n)
    have mem: "tr_id n \<noteq> rid \<Longrightarrow> n \<in> set ?rows" using below unfolding move_row_def by (intro update_where_in_same) auto
    show ?case
    proof (cases "tr_id n = rid")
      case True
      then show ?thesis using moved below by simp
    next
      case False
      have "tr_parent n = Some (tr_id (if tr_id m = rid then m\<lparr>tr_parent := p\<rparr> else m))" using below(3) by simp
      then show ?thesis using rooted.below [OF below.IH mem [OF False]] False by simp
    qed
  qed
  have "rooted ?rows n" if n: "n \<in> set ?rows" for n
  proof -
    obtain x where "x \<in> set rows" "n = (if tr_id x = rid then x\<lparr>tr_parent := p\<rparr> else x)"
      using n unfolding move_row_def by (rule update_where_memE)
    with each [of x] ok show ?thesis by (simp add: tree_ok_def)
  qed
  then show ?thesis using ids by (simp add: tree_ok_def move_row_ids)
qed

section \<open>Adding and removing\<close>

lemma rooted_more:
  "rooted rows n \<Longrightarrow> set rows \<subseteq> set rows' \<Longrightarrow> rooted rows' n"
proof (induction rule: rooted.induct)
  case (root n)
  then show ?case by (intro rooted.root) auto
next
  case (below m n)
  then have "rooted rows' m" by blast
  then show ?case by (rule rooted.below) (use below in auto)
qed

lemma add_keeps:
  assumes "tree_ok rows" "rid \<notin> tr_id ` set rows" "p = None \<or> (\<exists>q. p = Some q \<and> q \<in> tr_id ` set rows)"
  shows "tree_ok (rows @ [\<lparr>tr_id = rid, tr_parent = p\<rparr>])"
proof -
  let ?new = "\<lparr>tr_id = rid, tr_parent = p\<rparr>" and ?rows = "rows @ [\<lparr>tr_id = rid, tr_parent = p\<rparr>]"
  have old: "rooted ?rows n" if "n \<in> set rows" for n
    using assms(1) that rooted_more [of rows n ?rows] by (auto simp: tree_ok_def)
  have "rooted ?rows ?new"
  proof (cases p)
    case None
    then show ?thesis by (intro rooted.root) auto
  next
    case (Some q)
    then obtain m where "m \<in> set rows" "tr_id m = q" using assms(3) by auto
    then show ?thesis using rooted.below [OF old, of m ?new] Some by auto
  qed
  then show ?thesis using old assms(1,2) by (auto simp: tree_ok_def)
qed

lemma remove_keeps:
  assumes "tree_ok rows" "list_all (\<lambda>n. tr_parent n \<noteq> Some rid) rows"
  shows "tree_ok (filter (\<lambda>n. tr_id n \<noteq> rid) rows)"
proof -
  let ?rows = "filter (\<lambda>n. tr_id n \<noteq> rid) rows"
  have "tr_id n \<noteq> rid \<longrightarrow> rooted ?rows n" if "rooted rows n" for n
    using that
  proof (induction rule: rooted.induct)
    case (root n)
    then show ?case by (auto intro: rooted.root)
  next
    case (below m n)
    have "tr_id m \<noteq> rid" using below assms(2) by (auto simp: list_all_iff)
    then have "rooted ?rows m" using below by blast
    then show ?case using rooted.below [of ?rows m n] below by auto
  qed
  then show ?thesis using assms(1) distinct_map_filter_imp [of tr_id rows] by (auto simp: tree_ok_def)
qed

section \<open>Every sequence of changes\<close>

text \<open>The parent a write stores, as \<^verbatim>\<open>writeMutation\<close> computes it; a look-up by name gives the id of a row.\<close>

definition stored_parent :: "record_env \<Rightarrow> record_layout \<Rightarrow> string \<Rightarrow> record_input \<Rightarrow> record_error + int option" where
  "stored_parent ev l pf input =
     (case storage_value ev l (field_or_zero l pf) (input_raw input pf) of
        Inr (DInt p) \<Rightarrow> Inr (Some p) | Inr _ \<Rightarrow> Inr None | Inl e \<Rightarrow> Inl e)"

definition names_rows :: "record_env \<Rightarrow> record_layout \<Rightarrow> string \<Rightarrow> tree_row list \<Rightarrow> bool" where
  "names_rows ev l pf rows \<longleftrightarrow> (\<forall>name i. id_by_name ev l (field_or_zero l pf) name = Inr i \<longrightarrow> i \<in> tr_id ` set rows)"

text \<open>One accepted mutation of a tree record under the lock of its table: a create, an update that submits the parent, a delete.\<close>

inductive tree_change :: "record_layout \<Rightarrow> string \<Rightarrow> tree_row list \<Rightarrow> tree_row list \<Rightarrow> bool" for l :: record_layout and pf :: string where
  created: "validate_tree_parent sc read ev get rows l 0 input = Inr () \<Longrightarrow> names_rows ev l pf rows \<Longrightarrow>
    stored_parent ev l pf input = Inr p \<Longrightarrow> rid \<notin> tr_id ` set rows \<Longrightarrow>
    tree_change l pf rows (rows @ [\<lparr>tr_id = rid, tr_parent = p\<rparr>])"
| moved: "validate_tree_parent sc read ev get rows l rid input = Inr () \<Longrightarrow> names_rows ev l pf rows \<Longrightarrow>
    stored_parent ev l pf input = Inr p \<Longrightarrow> map_of input pf \<noteq> None \<Longrightarrow>
    tree_change l pf rows (move_row rid p rows)"
| deleted: "restrict_tree_delete rows l rid = Inr () \<Longrightarrow> tree_change l pf rows (filter (\<lambda>n. tr_id n \<noteq> rid) rows)"

lemma accepted_parent:
  assumes "validate_tree_parent sc read ev get rows l rid input = Inr ()" "names_rows ev l pf rows"
    "stored_parent ev l pf input = Inr p" "lh_tree (ly_head l) = Some pf" "rf_type (field_or_zero l pf) = ''link''"
  shows "p = None \<or> (\<exists>q. p = Some q \<and> q \<in> tr_id ` set rows \<and> would_cycle rows q rid = Some False)"
proof (cases "map_of input pf = None \<or> raw_is_null (input_raw input pf)")
  case True
  then have "raw_is_null (input_raw input pf)" by (auto simp: input_raw_def raw_is_null_def)
  then show ?thesis using assms(3,5) by (simp add: stored_parent_def storage_value_def)
next
  case False
  then obtain raw where raw: "map_of input pf = Some raw" "\<not> raw_is_null raw" by (auto simp: input_raw_def)
  obtain name where name: "unmarshal_string raw = Some name"
    using assms(1,4) raw by (cases "unmarshal_string raw") (simp_all add: validate_tree_parent_def Let_def)
  obtain q where q: "id_by_name ev l (field_or_zero l pf) name = Inr q"
    using assms(1,4) raw name by (cases "id_by_name ev l (field_or_zero l pf) name") (simp_all add: validate_tree_parent_def Let_def)
  obtain rs where rs: "read = Inr rs" "\<not> (sc \<noteq> None \<and> rs = None)"
    using assms(1,4) raw name q by (cases read) (auto simp: validate_tree_parent_def Let_def split: if_splits)
  obtain r where r: "get rs q = Inr r"
    using assms(1,4) raw name q rs by (cases "get rs q") (auto simp: validate_tree_parent_def Let_def split: if_splits)
  have "would_cycle rows q rid = Some False"
    using assms(1,4) raw name q rs r by (cases "would_cycle rows q rid") (auto simp: validate_tree_parent_def Let_def split: if_splits)
  note q = name q this
  have "p = Some q" using assms(3,5) raw q by (simp add: stored_parent_def storage_value_def input_raw_def)
  then show ?thesis using q assms(2) by (auto simp: names_rows_def)
qed

lemma tree_change_keeps:
  assumes "tree_change l pf rows rows'" "tree_ok rows" "lh_tree (ly_head l) = Some pf" "rf_type (field_or_zero l pf) = ''link''"
  shows "tree_ok rows'"
  using assms(1)
proof cases
  case (created sc read ev get input p rid)
  have "p = None \<or> (\<exists>q. p = Some q \<and> q \<in> tr_id ` set rows)"
    using accepted_parent [OF created(2-4) assms(3,4)] by blast
  from add_keeps [OF assms(2) created(5) this] show ?thesis by (simp only: created(1))
next
  case (moved sc read ev get rid input p)
  from move_keeps [OF assms(2) accepted_parent [OF moved(2-4) assms(3,4)]] show ?thesis by (simp only: moved(1))
next
  case (deleted rid)
  then have "list_all (\<lambda>n. tr_parent n \<noteq> Some rid) rows"
    using assms(3) by (simp add: restrict_tree_delete_def)
  from remove_keeps [OF assms(2) this] show ?thesis by (simp only: deleted(1))
qed

text \<open>C30: From a table the activation check accepts, every sequence of accepted creates, moves and deletes leads to a table
  it accepts again: no cycle arises, no record loses its way to a root.\<close>

theorem tree_stays_valid:
  assumes "(tree_change l pf)\<^sup>*\<^sup>* rows rows'" "tree_data_valid rows = Some True" "distinct (map tr_id rows)"
    "lh_tree (ly_head l) = Some pf" "rf_type (field_or_zero l pf) = ''link''"
  shows "tree_data_valid rows' = Some True \<and> distinct (map tr_id rows')"
proof -
  have "tree_ok rows" using assms(2,3) tree_data_valid_iff by blast
  with assms(1) have "tree_ok rows'"
    by (induction rule: rtranclp_induct) (use tree_change_keeps [OF _ _ assms(4,5)] in blast)+
  then show ?thesis using tree_data_valid_iff by (auto simp: tree_ok_def)
qed

section \<open>Paths\<close>

lemma path_levels_Nil [simp]: "path_levels rows [] = []"
  by (simp add: path_levels.simps)

lemma path_levels_filter:
  assumes "\<And>s t. t \<in> set (path_next rows s) \<Longrightarrow> P t \<longleftrightarrow> P s"
  shows "filter P (path_levels rows w) = path_levels rows (filter P w)"
  using assms
proof (induction rows w rule: path_levels.induct)
  case (1 rows w)
  have next': "filter P (concat (map (path_next rows) w)) = concat (map (path_next rows) (filter P w))"
  proof (induction w)
    case (Cons s w)
    have "filter P (path_next rows s) = (if P s then path_next rows s else [])"
    proof (cases "P s")
      case True
      then have "\<forall>t\<in>set (path_next rows s). P t" using 1(2) by blast
      then show ?thesis using True by simp
    next
      case False
      then have "\<forall>t\<in>set (path_next rows s). \<not> P t" using 1(2) by blast
      then show ?thesis using False by simp
    qed
    with Cons show ?case by simp
  qed simp
  show ?case
  proof (cases "w = []")
    case False
    have "filter P (path_levels rows w) = filter P w @ path_levels rows (concat (map (path_next rows) (filter P w)))"
      using 1(1) [OF False 1(2)] next' False by (subst path_levels.simps) simp
    also have "\<dots> = path_levels rows (filter P w)"
      by (cases "filter P w = []") (simp_all add: path_levels.simps [of rows "filter P w"])
    finally show ?thesis .
  qed simp
qed

text \<open>From a row up to the last one: every step follows a parent of the table, the last has none to follow.\<close>

fun climbs :: "tree_row list \<Rightarrow> path_row list \<Rightarrow> bool" where
  "climbs rows [] = False"
| "climbs rows [s] = (case pr_parent s of None \<Rightarrow> True | Some p \<Rightarrow> p \<notin> tr_id ` set rows)"
| "climbs rows (s # t # xs) = (pr_parent s = Some (pr_id t) \<and> \<lparr>tr_id = pr_id t, tr_parent = pr_parent t\<rparr> \<in> set rows
     \<and> length (pr_trail t) = length (pr_trail s) + 1 \<and> climbs rows (t # xs))"

lemma filter_id_cases:
  "distinct (map tr_id rows) \<Longrightarrow> filter (\<lambda>n. tr_id n = p) rows = [] \<or> (\<exists>n\<in>set rows. tr_id n = p \<and> filter (\<lambda>n. tr_id n = p) rows = [n])"
proof (induction rows)
  case (Cons a rows)
  show ?case
  proof (cases "tr_id a = p")
    case True
    then have "filter (\<lambda>n. tr_id n = p) rows = []" using Cons.prems by (auto simp: filter_empty_conv image_iff)
    then show ?thesis using True by simp
  next
    case False
    then show ?thesis using Cons by auto
  qed
qed simp

lemma path_next_cases:
  assumes "distinct (map tr_id rows)" "\<not> pr_cycle s" "int (length (pr_trail s)) \<le> max_path_depth"
  shows "path_next rows s = [] \<and> climbs rows [s]
    \<or> (\<exists>t. path_next rows s = [t] \<and> (\<forall>xs. climbs rows (t # xs) \<longrightarrow> climbs rows (s # t # xs)))"
proof (cases "pr_parent s")
  case None
  then show ?thesis using assms by (simp add: path_next_def)
next
  case (Some p)
  from filter_id_cases [OF assms(1), of p] show ?thesis
  proof
    assume none: "filter (\<lambda>n. tr_id n = p) rows = []"
    then have "p \<notin> tr_id ` set rows" by (auto simp: filter_empty_conv)
    then show ?thesis using assms Some none by (simp add: path_next_def)
  next
    assume "\<exists>n\<in>set rows. tr_id n = p \<and> filter (\<lambda>n. tr_id n = p) rows = [n]"
    then obtain n where n: "n \<in> set rows" "tr_id n = p" "filter (\<lambda>n. tr_id n = p) rows = [n]" by blast
    have "\<lparr>tr_id = p, tr_parent = tr_parent n\<rparr> = n" using n(2) by simp
    then have "\<lparr>tr_id = p, tr_parent = tr_parent n\<rparr> \<in> set rows" using n(1) by simp
    then show ?thesis using assms Some n(2,3) by (simp add: path_next_def)
  qed
qed

lemma path_levels_one: "path_levels rows [s] = s # path_levels rows (path_next rows s)"
  by (subst path_levels.simps) simp

lemma path_climbs:
  assumes "distinct (map tr_id rows)" "\<forall>x\<in>set (path_levels rows w). \<not> pr_cycle x \<and> int (length (pr_trail x)) \<le> max_path_depth" "w = [s]"
  shows "climbs rows (path_levels rows [s])"
  using assms
proof (induction rows w arbitrary: s rule: path_levels.induct)
  case (1 rows w)
  then have ok: "\<forall>x\<in>set (s # path_levels rows (path_next rows s)). \<not> pr_cycle x \<and> int (length (pr_trail x)) \<le> max_path_depth"
    using path_levels_one [of rows s] by simp
  from path_next_cases [OF 1(2), of s] ok
  consider "path_next rows s = []" "climbs rows [s]"
    | t where "path_next rows s = [t]" "\<forall>xs. climbs rows (t # xs) \<longrightarrow> climbs rows (s # t # xs)" by auto
  then show ?case
  proof cases
    case a: 1
    then show ?thesis by (simp add: path_levels_one)
  next
    case (2 t)
    have "climbs rows (path_levels rows [t])"
      by (rule "1.IH" [OF _ 1(2)]) (use 1(4) ok 2(1) in simp_all)
    then have "climbs rows (t # path_levels rows (path_next rows t))" by (simp only: path_levels_one)
    then have "climbs rows (s # t # path_levels rows (path_next rows t))" using 2(2) by blast
    then show ?thesis by (simp only: path_levels_one 2(1))
  qed
qed

lemma scan_paths:
  assumes "foldR scan_path_row (k, acc) rs = Inr (n, steps)"
  shows "steps = acc @ map (\<lambda>r. (pr_origin r, \<lparr>ps_id = pr_id r, ps_parent = pr_parent r, ps_depth = int (length (pr_trail r))\<rparr>)) rs
    \<and> (\<forall>r\<in>set rs. \<not> pr_cycle r \<and> int (length (pr_trail r)) \<le> max_path_depth)"
  using assms
proof (induction rs arbitrary: k acc)
  case (Cons r rs)
  from Cons.prems have ok: "\<not> (k + 1 > max_path_rows \<or> int (length (pr_trail r)) > max_path_depth)" "\<not> pr_cycle r"
    by (auto simp: scan_path_row_def Let_def split: if_splits)
  then have "scan_path_row (k, acc) r
      = Inr (k + 1, acc @ [(pr_origin r, \<lparr>ps_id = pr_id r, ps_parent = pr_parent r, ps_depth = int (length (pr_trail r))\<rparr>)])"
    by (simp add: scan_path_row_def Let_def)
  with Cons.prems have "foldR scan_path_row (k + 1, acc @ [(pr_origin r, \<lparr>ps_id = pr_id r, ps_parent = pr_parent r, ps_depth = int (length (pr_trail r))\<rparr>)]) rs = Inr (n, steps)"
    by simp
  from Cons.IH [OF this] ok show ?case by auto
qed simp

definition step_of :: "path_row \<Rightarrow> path_step" where
  "step_of r = \<lparr>ps_id = pr_id r, ps_parent = pr_parent r, ps_depth = int (length (pr_trail r))\<rparr>"

lemma step_of_simps [simp]: "ps_id (step_of r) = pr_id r" "ps_parent (step_of r) = pr_parent r" "ps_depth (step_of r) = int (length (pr_trail r))"
  by (simp_all add: step_of_def)

text \<open>A path from the root down to a record: rows of the table, each the parent of the next; the first has no parent,
  or one that is missing from the table.\<close>

definition complete_path :: "tree_row list \<Rightarrow> int \<Rightarrow> path_step list \<Rightarrow> bool" where
  "complete_path rows rid ps \<longleftrightarrow> ps \<noteq> [] \<and> ps_id (last ps) = rid
     \<and> (case ps_parent (hd ps) of None \<Rightarrow> True | Some p \<Rightarrow> p \<notin> tr_id ` set rows)
     \<and> list_all (\<lambda>s. \<lparr>tr_id = ps_id s, tr_parent = ps_parent s\<rparr> \<in> set rows) ps
     \<and> list_all2 (\<lambda>a b. ps_parent b = Some (ps_id a)) (butlast ps) (tl ps)"

lemma complete_snoc:
  assumes "complete_path rows q ps" "ps_parent b = Some q" "\<lparr>tr_id = ps_id b, tr_parent = ps_parent b\<rparr> \<in> set rows"
  shows "complete_path rows (ps_id b) (ps @ [b])"
proof -
  have ps: "ps \<noteq> []" "ps_id (last ps) = q" using assms(1) by (simp_all add: complete_path_def)
  have "list_all2 (\<lambda>a b. ps_parent b = Some (ps_id a)) (butlast ps @ [last ps]) (tl ps @ [b])"
    using assms(1,2) ps by (intro list_all2_appendI) (simp_all add: complete_path_def)
  then show ?thesis using assms ps by (auto simp: complete_path_def)
qed

lemma climbs_complete:
  assumes "climbs rows xs" "\<lparr>tr_id = pr_id (hd xs), tr_parent = pr_parent (hd xs)\<rparr> \<in> set rows"
  shows "complete_path rows (pr_id (hd xs)) (rev (map step_of xs))
    \<and> sorted_wrt (\<lambda>a b. - ps_depth b < - ps_depth a) (map step_of xs) \<and> list_all (\<lambda>r. length (pr_trail (hd xs)) \<le> length (pr_trail r)) xs"
  using assms
proof (induction rows xs rule: climbs.induct)
  case (2 rows s)
  then show ?case by (auto simp: complete_path_def split: option.splits)
next
  case (3 rows s t xs)
  then have c: "climbs rows (t # xs)" "\<lparr>tr_id = pr_id t, tr_parent = pr_parent t\<rparr> \<in> set rows" by simp_all
  note all = "3.IH" [unfolded list.sel, OF c]
  note IH = all [THEN conjunct1] all [THEN conjunct2, THEN conjunct1] all [THEN conjunct2, THEN conjunct2]
  have "complete_path rows (ps_id (step_of s)) (rev (map step_of (t # xs)) @ [step_of s])"
    by (rule complete_snoc [OF IH(1)]) (use 3 in simp_all)
  moreover have deep: "\<forall>r\<in>set (t # xs). int (length (pr_trail s)) < int (length (pr_trail r))"
    using IH(3) 3(2) by (fastforce simp: list_all_iff)
  moreover have "list_all (\<lambda>r. length (pr_trail s) \<le> length (pr_trail r)) (t # xs)"
    using deep by (fastforce simp: list_all_iff)
  ultimately show ?case using IH(2) by simp
qed simp

lemma sort_key_falling:
  assumes "sorted_wrt (\<lambda>a b. f b < f a) xs"
  shows "sort_key f xs = rev xs"
proof (rule sort_key_inj_key_eq)
  have "sorted_wrt (\<lambda>a b. f a < f b) (rev xs)" using assms by (simp add: sorted_wrt_rev)
  then have s: "sorted_wrt (<) (map f (rev xs))" by (simp add: sorted_wrt_map)
  then show "sorted (map f (rev xs))" by (rule strict_sorted_imp_sorted)
  have "distinct (map f (rev xs))" using s strict_sorted_iff by blast
  then show "inj_on f (set xs)" by (simp add: distinct_map)
qed simp

lemma path_next_origin: "t \<in> set (path_next rows s) \<Longrightarrow> pr_origin t = pr_origin s"
  by (auto simp: path_next_def split: if_splits option.splits)


section \<open>Samples\<close>

definition sample_parent_field :: record_field where
  "sample_parent_field = name_record_field\<lparr>rf_name := ''parent'', rf_type := ''link'', rf_required := False, rf_column := ''parent_id'',
     rf_options := no_field_options\<lparr>fo_entity := ''area''\<rparr>, rf_nameable := False, rf_system_name := False\<rparr>"

definition sample_tree_layout :: record_layout where
  "sample_tree_layout = RecordLayout \<lparr>lh_entity_id = 4, lh_app = ''crm'', lh_entity = ''area'', lh_slug = ''area'', lh_label = ''Area'',
     lh_single = False, lh_system = False, lh_collection = False, lh_private = False, lh_owner_field = [], lh_table = ''crm_area'',
     lh_naming = default_record_naming, lh_tree = Some ''parent'', lh_fields = [sample_parent_field]\<rparr> []"

definition sample_tree :: "tree_row list" where
  "sample_tree = [\<lparr>tr_id = 1, tr_parent = None\<rparr>, \<lparr>tr_id = 2, tr_parent = Some 1\<rparr>, \<lparr>tr_id = 3, tr_parent = Some 2\<rparr>]"

definition sample_tree_env :: record_env where
  "sample_tree_env = \<lparr>ev_link = (\<lambda>t n. Inr (Some 3)), ev_layout = (\<lambda>a e. Inl (not_found [] [])), ev_bcrypt = (\<lambda>p. None),
     ev_encrypt = (\<lambda>b s. Inr s)\<rparr>"

definition sample_move_check :: "int \<Rightarrow> record_error + unit" where
  "sample_move_check rid = validate_tree_parent None (Inr None) sample_tree_env (\<lambda>_ _. Inr []) sample_tree sample_tree_layout rid
     [(''parent'', ''\"leaf\"'')]"

text \<open>Record 1 must not go below record 3, a new record may.\<close>

lemma sample_moves:
  "sample_move_check 1 = Inl (validation_error ''tree parent would create a cycle'' [])" "sample_move_check 0 = Inr ()"
  by code_simp+

theorem tree_stays_valid_witness:
  "tree_data_valid (sample_tree @ [\<lparr>tr_id = 9, tr_parent = Some 3\<rparr>]) = Some True"
proof -
  have "tree_change sample_tree_layout ''parent'' sample_tree (sample_tree @ [\<lparr>tr_id = 9, tr_parent = Some 3\<rparr>])"
  proof (rule tree_change.created)
    show "validate_tree_parent None (Inr None) sample_tree_env (\<lambda>_ _. Inr []) sample_tree sample_tree_layout 0 [(''parent'', ''\"leaf\"'')] = Inr ()"
      using sample_moves(2) by (simp only: sample_move_check_def)
    show "names_rows sample_tree_env sample_tree_layout ''parent'' sample_tree"
      by (auto simp: names_rows_def id_by_name_def sample_tree_env_def sample_tree_def split: option.splits)
    show "stored_parent sample_tree_env sample_tree_layout ''parent'' [(''parent'', ''\"leaf\"'')] = Inr (Some 3)" by code_simp
    show "9 \<notin> tr_id ` set sample_tree" by code_simp
  qed
  then have "(tree_change sample_tree_layout ''parent'')\<^sup>*\<^sup>* sample_tree (sample_tree @ [\<lparr>tr_id = 9, tr_parent = Some 3\<rparr>])" by blast
  moreover have "tree_data_valid sample_tree = Some True" "distinct (map tr_id sample_tree)"
    "lh_tree (ly_head sample_tree_layout) = Some ''parent''" "rf_type (field_or_zero sample_tree_layout ''parent'') = ''link''"
    by code_simp+
  ultimately show ?thesis using tree_stays_valid by blast
qed


end
