(* ===== verification/Record_Prepare.thy ===== *)
theory Record_Prepare
  imports Record_Statements
begin

text \<open>
  What happens to an input before it is checked (\<^verbatim>\<open>internal/db/record_fetch.go\<close>,
  \<^verbatim>\<open>record_link_filters.go\<close>, \<^verbatim>\<open>prepareRecordInput\<close>): fields fetched along
  links are filled in, and a link with filters must name a record that passes them.  Reading a record
  and listing records are arguments, as are the texts of structured values and of floating point numbers.
\<close>

record prepare_env =
  pe_env :: record_env
  pe_get :: "record_layout \<Rightarrow> int \<Rightarrow> record_error + rec_map"
  pe_list :: "record_layout \<Rightarrow> filter_term list \<Rightarrow> record_error + rec_map list"
  pe_json :: "val \<Rightarrow> string"
  pe_number :: "string \<Rightarrow> string"
  pe_text :: "json \<Rightarrow> string"
  pe_constant :: "node \<Rightarrow> json"

section \<open>Fetched fields\<close>

definition fetch_path_field :: "record_layout \<Rightarrow> string \<Rightarrow> record_field option" where
  "fetch_path_field l n =
     (case field_by_name l n of Some f \<Rightarrow> Some f
      | None \<Rightarrow> if n = ''name'' then Some (name_record_field\<lparr>rf_required := False, rf_listable := False\<rparr>) else None)"

text \<open>\<^verbatim>\<open>json.Marshal\<close> of a value of a Record.\<close>

definition marshal_val :: "prepare_env \<Rightarrow> val \<Rightarrow> string" where
  "marshal_val pe v =
     (case v of VNull \<Rightarrow> ''null'' | VBool b \<Rightarrow> (if b then ''true'' else ''false'') | VInt i \<Rightarrow> show_int i
      | VText s \<Rightarrow> marshal_string s | VTime t \<Rightarrow> marshal_string (normalize_datetime_value t) | _ \<Rightarrow> pe_json pe v)"

definition fetch_record_value :: "prepare_env \<Rightarrow> rec_map \<Rightarrow> record_field \<Rightarrow> string" where
  "fetch_record_value pe r f = (case map_of r (rf_name f) of None \<Rightarrow> ''null'' | Some v \<Rightarrow> marshal_val pe v)"

definition fetch_input_value :: "prepare_env \<Rightarrow> record_input \<Rightarrow> rec_map option \<Rightarrow> record_field \<Rightarrow> string" where
  "fetch_input_value pe input base f =
     (case map_of input (rf_name f) of Some raw \<Rightarrow> raw
      | None \<Rightarrow> (case base of None \<Rightarrow> ''null'' | Some r \<Rightarrow> fetch_record_value pe r f))"

definition target_layout :: "prepare_env \<Rightarrow> record_layout \<Rightarrow> record_field \<Rightarrow> record_error + record_layout" where
  "target_layout pe l f =
     (let app = trim_space (fo_app (rf_options f)); entity = trim_space (fo_entity (rf_options f)) in
      if entity = [] then Inl (internal_error ''link field target metadata is invalid'' [(''entity'', ly_entity l), (''field'', rf_name f)])
      else ev_layout (pe_env pe) (if app = [] then lh_app (ly_head l) else app) entity)"

definition fetch_link_id :: "prepare_env \<Rightarrow> record_layout \<Rightarrow> record_field \<Rightarrow> string \<Rightarrow> record_error + int" where
  "fetch_link_id pe l f raw =
     bindR (storage_value (pe_env pe) l f raw) (\<lambda>v. case v of DNull \<Rightarrow> Inr 0 | DInt i \<Rightarrow> Inr i
       | _ \<Rightarrow> Inl (internal_error ''link field storage value is invalid'' [(''entity'', ly_entity l), (''field'', rf_name f)]))"

text \<open>The segments of a path; \<open>read\<close> gives the raw value of a field of the current record.\<close>

fun fetch_segments :: "prepare_env \<Rightarrow> record_layout \<Rightarrow> record_field \<Rightarrow> string list \<Rightarrow> record_layout \<Rightarrow> (record_field \<Rightarrow> string) \<Rightarrow>
    record_error + string" where
  "fetch_segments pe l0 dest [] l read = Inr ''null''"
| "fetch_segments pe l0 dest (seg # segs) l read =
     (case fetch_path_field l seg of
        None \<Rightarrow> Inl (internal_error ''field fetch path is invalid'' [(''entity'', ly_entity l0), (''field'', rf_name dest), (''segment'', seg)])
      | Some f \<Rightarrow>
          let raw = read f in
          if raw_is_null raw then Inr ''null''
          else if segs = [] then Inr raw
          else if rf_type f \<noteq> ''link''
          then Inl (internal_error ''field fetch path segment is not a link'' [(''entity'', ly_entity l), (''field'', rf_name f)])
          else bindR (fetch_link_id pe l f raw) (\<lambda>i.
            if i = 0 then Inr ''null''
            else bindR (target_layout pe l f) (\<lambda>t. bindR (pe_get pe t i) (\<lambda>r.
              fetch_segments pe l0 dest segs t (fetch_record_value pe r)))))"

definition resolve_fetched :: "prepare_env \<Rightarrow> record_layout \<Rightarrow> record_input \<Rightarrow> rec_map option \<Rightarrow> record_field \<Rightarrow> record_error + string" where
  "resolve_fetched pe l input base dest =
     (let segs = split_on (CHR ''.'') (trim_space (rf_fetch dest)) in
      if length segs < 2
      then Inl (internal_error ''field fetch metadata is invalid'' [(''entity'', ly_entity l), (''field'', rf_name dest)])
      else fetch_segments pe l dest segs l (fetch_input_value pe input base))"

definition fetched :: "record_field \<Rightarrow> bool" where
  "fetched f \<longleftrightarrow> \<not> blank (rf_fetch f) \<and> rf_storage f \<and> \<not> rf_write_only f \<and> rf_type f \<noteq> ''collection''"

definition fetch_step :: "prepare_env \<Rightarrow> record_layout \<Rightarrow> rec_map option \<Rightarrow> record_input \<Rightarrow> record_field \<Rightarrow> record_error + record_input" where
  "fetch_step pe l base input f =
     (if \<not> fetched f then Inr input
      else bindR (resolve_fetched pe l input base f) (\<lambda>v. Inr (AList.update (rf_name f) v input)))"

definition apply_fetched_fields :: "prepare_env \<Rightarrow> record_layout \<Rightarrow> record_input \<Rightarrow> rec_map option \<Rightarrow> record_error + record_input" where
  "apply_fetched_fields pe l input base = foldR (fetch_step pe l base) input (ly_fields l)"

section \<open>Filtered links\<close>

definition link_filter_string :: "prepare_env \<Rightarrow> json \<Rightarrow> string" where
  "link_filter_string pe j =
     (case j of JString s \<Rightarrow> s | JBool b \<Rightarrow> (if b then ''true'' else ''false'') | JNumber t \<Rightarrow> pe_number pe t | _ \<Rightarrow> pe_text pe j)"

definition val_json :: "prepare_env \<Rightarrow> val \<Rightarrow> string" where
  "val_json pe v =
     (case v of VNull \<Rightarrow> ''<nil>'' | VText s \<Rightarrow> s | VBool b \<Rightarrow> (if b then ''true'' else ''false'') | VInt i \<Rightarrow> show_int i
      | VJson j \<Rightarrow> link_filter_string pe j | _ \<Rightarrow> pe_json pe v)"

definition trim_braces :: "string \<Rightarrow> string" where
  "trim_braces s = trim_chars ''{}'' s"

text \<open>\<open>None\<close> when there is no value to compare with; a token names another field of the record.\<close>

definition resolve_token :: "prepare_env \<Rightarrow> string \<Rightarrow> record_input \<Rightarrow> rec_map option \<Rightarrow> unit + string option" where
  "resolve_token pe name input base =
     (case map_of input name of
        None \<Rightarrow> Inr (case base of None \<Rightarrow> None | Some r \<Rightarrow> map_option (val_json pe) (map_of r name))
      | Some raw \<Rightarrow> if raw_is_null raw then Inr None
          else (case unmarshal raw of None \<Rightarrow> Inl () | Some j \<Rightarrow> Inr (Some (link_filter_string pe j))))"

text \<open>A submitted NULL leaves the filter out; a stored NULL compares with the text of Go's nil.\<close>

lemma stored_null_compared:
  "resolve_token pe ''country'' [(''country'', ''null'')] None = Inr None"
  "resolve_token pe ''country'' [] (Some [(''country'', VNull)]) = Inr (Some ''<nil>'')"
  by (simp_all add: resolve_token_def raw_is_null_def val_json_def)

definition filter_source :: "prepare_env \<Rightarrow> link_filter \<Rightarrow> string + json option" where
  "filter_source pe f =
     (if lf_from f \<noteq> [] then Inl (trim_braces (lf_from f))
      else case lf_value f of None \<Rightarrow> Inr None
      | Some n \<Rightarrow> (case pe_constant pe n of
          JString s \<Rightarrow> if has_prefix s ''$'' then Inl (trim_braces (trim_prefix s ''$'')) else Inr (Some (JString s))
        | JNull \<Rightarrow> Inr None | j \<Rightarrow> Inr (Some j)))"

definition resolve_link_filter :: "prepare_env \<Rightarrow> link_filter \<Rightarrow> record_input \<Rightarrow> rec_map option \<Rightarrow> unit + string option" where
  "resolve_link_filter pe f input base =
     (case filter_source pe f of Inl name \<Rightarrow> resolve_token pe name input base
      | Inr j \<Rightarrow> Inr (map_option (link_filter_string pe) j))"

definition link_filter_step :: "prepare_env \<Rightarrow> record_layout \<Rightarrow> record_field \<Rightarrow> record_input \<Rightarrow> rec_map option \<Rightarrow> filter_term list \<Rightarrow> link_filter \<Rightarrow>
    record_error + filter_term list" where
  "link_filter_step pe l f input base fs lf =
     (case resolve_link_filter pe lf input base of
        Inl _ \<Rightarrow> Inl (validation_error ''link filter value is invalid'' [(''entity'', ly_entity l), (''field'', rf_name f), (''filter'', lf_field lf)])
      | Inr v \<Rightarrow>
          let operator = (if lf_operator lf = [] then ''eq'' else lf_operator lf) in
          if v = None \<and> operator \<noteq> ''empty'' \<and> operator \<noteq> ''not-empty'' then Inr fs
          else Inr (fs @ [\<lparr>ft_field = lf_field lf, ft_operator = operator, ft_value = (case v of None \<Rightarrow> [] | Some s \<Rightarrow> s)\<rparr>]))"

definition check_filtered_link :: "prepare_env \<Rightarrow> record_layout \<Rightarrow> record_input \<Rightarrow> rec_map option \<Rightarrow> record_field \<Rightarrow> record_error + unit" where
  "check_filtered_link pe l input base f =
     (if rf_type f \<noteq> ''link'' \<or> fo_filters (rf_options f) = [] then Inr ()
      else let selected = fetch_input_value pe input base f in
        if raw_is_null selected then Inr ()
        else case unmarshal_string selected of
          None \<Rightarrow> Inl (validation_error ''link field must be a record name'' [(''entity'', ly_entity l), (''field'', rf_name f)])
        | Some name \<Rightarrow>
            if blank name then Inl (validation_error ''link field must be a record name'' [(''entity'', ly_entity l), (''field'', rf_name f)])
            else bindR (target_layout pe l f) (\<lambda>t.
              bindR (foldR (link_filter_step pe l f input base) [\<lparr>ft_field = ''name'', ft_operator = ''eq'', ft_value = name\<rparr>]
                (fo_filters (rf_options f))) (\<lambda>fs. bindR (pe_list pe t fs) (\<lambda>rs.
                guardR (rs \<noteq> []) (validation_error ''link target does not match field filters''
                  [(''entity'', ly_entity l), (''field'', rf_name f), (''target'', name)])))))"

definition validate_filtered_links :: "prepare_env \<Rightarrow> record_layout \<Rightarrow> record_input \<Rightarrow> rec_map option \<Rightarrow> record_error + unit" where
  "validate_filtered_links pe l input base = foldR (\<lambda>_ f. check_filtered_link pe l input base f) () (ly_fields l)"

section \<open>Preparing an input\<close>

definition prepare_record_input :: "prepare_env \<Rightarrow> record_layout \<Rightarrow> record_input \<Rightarrow> rec_map option \<Rightarrow> record_error + record_input" where
  "prepare_record_input pe l input base =
     bindR (apply_fetched_fields pe l input base) (\<lambda>input'. bindR (validate_filtered_links pe l input' base) (\<lambda>_.
       bindR (if base = None then validate_create_input l input' else validate_update_fields l input') (\<lambda>_. Inr input')))"

text \<open>Every fetched field is written, whatever the caller submitted for it.\<close>

lemma fetch_keeps_written:
  assumes "foldR (fetch_step pe l base) input fs = Inr input'" "map_of input n \<noteq> None"
  shows "map_of input' n \<noteq> None"
  by (rule foldR_keeps [where P = "\<lambda>i. map_of i n \<noteq> None", OF assms]) (auto simp: fetch_step_def bindR_Inr_iff update_conv' split: if_splits)

lemma prepared_fetched:
  assumes "prepare_record_input pe l input base = Inr input'" "f \<in> set (ly_fields l)" "fetched f"
  shows "\<exists>v. map_of input' (rf_name f) = Some v"
proof -
  have run: "foldR (fetch_step pe l base) input (ly_fields l) = Inr input'"
    using assms(1) by (auto simp: prepare_record_input_def apply_fetched_fields_def bindR_Inr_iff)
  obtain xs ys where split: "ly_fields l = xs @ f # ys" using assms(2) by (meson split_list)
  have append: "foldR g s (us @ vs) = (case foldR g s us of Inl e \<Rightarrow> Inl e | Inr t \<Rightarrow> foldR g t vs)"
    for g :: "record_input \<Rightarrow> record_field \<Rightarrow> record_error + record_input" and s us vs
    by (induction us arbitrary: s) (auto split: sum.splits)
  obtain s t where st: "fetch_step pe l base s f = Inr t" "foldR (fetch_step pe l base) t ys = Inr input'"
    using run by (auto simp: split append split: sum.splits)
  then have "map_of t (rf_name f) \<noteq> None" using assms(3) by (auto simp: fetch_step_def bindR_Inr_iff update_conv')
  with fetch_keeps_written [OF st(2)] show ?thesis by blast
qed

end
