(* ===== verification/Record_Table.thy ===== *)
theory Record_Table
  imports Record_Prepare
begin

text \<open>
  A table of records as the store's INSERT, UPDATE and DELETE statements see it, and the loop that draws
  another random name when the first is taken (\<^verbatim>\<open>insertRecordWithLayout\<close>,
  \<^verbatim>\<open>withRecordNameAttempt\<close> of \<^verbatim>\<open>internal/db/records.go\<close>).  A row is its
  id and its cells; a column that is not written takes the default of the table, or NULL.  A statement
  that names a column twice is refused, names are unique, and every other constraint is an argument
  that answers with PostgreSQL's error code and constraint.
\<close>

section \<open>Rows\<close>

record stored_row =
  sr_id :: int
  sr_cells :: "(string \<times> db_value) list"

record table_db =
  tb_rows :: "stored_row list"
  tb_next :: int
  tb_defaults :: "(string \<times> db_value) list"

definition cell_of :: "stored_row \<Rightarrow> string \<Rightarrow> db_value" where
  "cell_of r c = (case map_of (sr_cells r) c of None \<Rightarrow> DNull | Some v \<Rightarrow> v)"

type_synonym row_check = "stored_row \<Rightarrow> (string \<times> string) option"

definition name_taken :: "int \<Rightarrow> db_value \<Rightarrow> stored_row list \<Rightarrow> bool" where
  "name_taken rid v rows \<longleftrightarrow> v \<noteq> DNull \<and> list_ex (\<lambda>r. sr_id r \<noteq> rid \<and> cell_of r ''name'' = v) rows"

definition constraint_failure :: "record_layout \<Rightarrow> row_check \<Rightarrow> stored_row \<Rightarrow> stored_row list \<Rightarrow> (string \<times> string) option" where
  "constraint_failure l check r rows =
     (if name_taken (sr_id r) (cell_of r ''name'') rows then Some (''23505'', constraint_name (ly_table l) ''name'' ''key'') else check r)"

definition mutation_cells :: "record_mutation \<Rightarrow> (string \<times> db_value) list" where
  "mutation_cells m = zip (mu_columns m) (mu_values m)"

definition table_insert :: "record_layout \<Rightarrow> row_check \<Rightarrow> record_mutation \<Rightarrow> table_db \<Rightarrow> (string \<times> string) + int \<times> table_db" where
  "table_insert l check m db =
     (let r = \<lparr>sr_id = tb_next db, sr_cells = mutation_cells m @ tb_defaults db\<rparr> in
      if \<not> distinct (map fst (mutation_cells m)) then Inl (''42701'', [])
      else case constraint_failure l check r (tb_rows db) of Some e \<Rightarrow> Inl e
      | None \<Rightarrow> Inr (tb_next db, db\<lparr>tb_rows := tb_rows db @ [r], tb_next := tb_next db + 1\<rparr>))"

definition set_cells :: "(string \<times> db_value) list \<Rightarrow> stored_row \<Rightarrow> stored_row" where
  "set_cells cs r = r\<lparr>sr_cells := foldl (\<lambda>m (k, v). AList.update k v m) (sr_cells r) cs\<rparr>"

text \<open>An UPDATE of the rows that match, with the number of rows; the first row that breaks a constraint fails the statement.\<close>

definition table_update :: "record_layout \<Rightarrow> row_check \<Rightarrow> (stored_row \<Rightarrow> bool) \<Rightarrow> (string \<times> db_value) list \<Rightarrow> table_db \<Rightarrow>
    (string \<times> string) + nat \<times> table_db" where
  "table_update l check match cs db =
     (let hits = filter match (tb_rows db) in
      if \<not> distinct (map fst cs) then Inl (''42601'', [])
      else case List.map_filter (\<lambda>r. constraint_failure l check (set_cells cs r) (tb_rows db)) hits of
        e # _ \<Rightarrow> Inl e
      | [] \<Rightarrow> Inr (length hits, db\<lparr>tb_rows := update_where match (set_cells cs) (tb_rows db)\<rparr>))"

definition table_delete :: "(stored_row \<Rightarrow> bool) \<Rightarrow> table_db \<Rightarrow> nat \<times> table_db" where
  "table_delete match db = (length (filter match (tb_rows db)), db\<lparr>tb_rows := filter (\<lambda>r. \<not> match r) (tb_rows db)\<rparr>)"

section \<open>Another name\<close>

text \<open>An attempt fails for good (\<open>Inl\<close>), is refused by the database, or succeeds.  Only a taken random name is tried again,
  \<^verbatim>\<open>randomNameRetries\<close> times; the savepoint of a refused attempt is rolled back, so it leaves the
  table as it was.\<close>

fun name_attempts :: "nat \<Rightarrow> record_layout \<Rightarrow> ('s \<Rightarrow> record_error + ((string \<times> string) + 'a) \<times> 's) \<Rightarrow> 's \<Rightarrow> record_error + 'a \<times> 's" where
  "name_attempts k l attempt s =
     (case attempt s of Inl e \<Rightarrow> Inl e
      | Inr (Inr a, s') \<Rightarrow> Inr (a, s')
      | Inr (Inl d, s') \<Rightarrow>
          let e = classify_db_error (Some d) (ly_entity l) in
          if nm_strategy (ly_naming l) \<noteq> ''random'' \<or> \<not> record_name_collision e l \<or> k = 0 then Inl e
          else name_attempts (k - 1) l attempt s')"

declare name_attempts.simps [simp del]

definition insert_attempt :: "record_env \<Rightarrow> record_layout \<Rightarrow> row_check \<Rightarrow> int option \<Rightarrow> 's name_generator \<Rightarrow>
    (record_mutation \<Rightarrow> record_error + record_mutation) \<Rightarrow> record_input \<Rightarrow> table_db \<Rightarrow> 's \<Rightarrow>
    record_error + ((string \<times> string) + int \<times> table_db) \<times> 's" where
  "insert_attempt ev l check actor gen augment input db s =
     bindR (create_mutation ev l actor gen input s) (\<lambda>(m, s'). bindR (augment m) (\<lambda>m'. Inr (table_insert l check m' db, s')))"

definition insert_row :: "record_env \<Rightarrow> record_layout \<Rightarrow> row_check \<Rightarrow> int option \<Rightarrow> 's name_generator \<Rightarrow>
    (record_mutation \<Rightarrow> record_error + record_mutation) \<Rightarrow> record_input \<Rightarrow> table_db \<Rightarrow> 's \<Rightarrow> record_error + (int \<times> table_db) \<times> 's" where
  "insert_row ev l check actor gen augment input db s =
     name_attempts random_name_retries l (insert_attempt ev l check actor gen augment input db) s"

section \<open>What an insert does\<close>

text \<open>A successful insert is one INSERT into the unchanged table.\<close>

lemma name_attempts_success:
  assumes "name_attempts k l attempt s = Inr (a, s')"
  shows "\<exists>t. attempt t = Inr (Inr a, s')"
  using assms
proof (induction k arbitrary: s)
  case 0
  then show ?case by (subst (asm) name_attempts.simps) (auto simp: Let_def split: sum.splits prod.splits if_splits)
next
  case (Suc k)
  show ?case
  proof (cases "attempt s")
    case (Inl e)
    then show ?thesis using Suc.prems by (subst (asm) name_attempts.simps) simp
  next
    case (Inr x)
    obtain r t where x: "x = (r, t)" by (cases x)
    show ?thesis
    proof (cases r)
      case r: (Inr b)
      then show ?thesis using Suc.prems Inr x by (subst (asm) name_attempts.simps) auto
    next
      case (Inl d)
      then have "name_attempts k l attempt t = Inr (a, s')"
        using Suc.prems Inr x by (subst (asm) name_attempts.simps) (auto simp: Let_def split: if_splits)
      then show ?thesis by (rule Suc.IH)
    qed
  qed
qed

lemma insert_row_inserts:
  assumes "insert_row ev l check actor gen augment input db s = Inr ((i, db'), s')"
  shows "\<exists>t m m'. create_mutation ev l actor gen input t = Inr (m, s') \<and> augment m = Inr m' \<and> table_insert l check m' db = Inr (i, db')"
  using name_attempts_success [OF assms [unfolded insert_row_def]]
  by (auto simp: insert_attempt_def bindR_Inr_iff)

lemma table_insert_result:
  assumes "table_insert l check m db = Inr (i, db')"
  shows "i = tb_next db" "distinct (map fst (mutation_cells m))"
    "db' = db\<lparr>tb_rows := tb_rows db @ [\<lparr>sr_id = i, sr_cells = mutation_cells m @ tb_defaults db\<rparr>], tb_next := i + 1\<rparr>"
    "\<not> name_taken i (cell_of \<lparr>sr_id = i, sr_cells = mutation_cells m @ tb_defaults db\<rparr> ''name'') (tb_rows db)"
  using assms by (auto simp: table_insert_def Let_def constraint_failure_def split: option.splits if_splits)

lemma set_cells_id [simp]: "sr_id (set_cells cs r) = sr_id r"
  by (simp add: set_cells_def)

lemma set_cells_none: "c \<notin> set (map fst cs) \<Longrightarrow> cell_of (set_cells cs r) c = cell_of r c"
proof -
  assume "c \<notin> set (map fst cs)"
  then have "map_of (foldl (\<lambda>m (k, v). AList.update k v m) m cs) c = map_of m c" for m
    by (induction cs arbitrary: m) (auto simp: update_conv')
  then show ?thesis by (simp add: cell_of_def set_cells_def)
qed

lemma set_cells_last: "cell_of (set_cells (cs @ [(c, v)]) r) c = v"
  by (simp add: cell_of_def set_cells_def update_conv')


text \<open>
  The rows of a collection field (\<^verbatim>\<open>internal/db/records_collections.go\<close>): child records in a
  table of their own that carry the Entity, the record and the field they belong to, and their
  position.  Saving deletes the rows that are not submitted, updates those that are and inserts the
  new ones, in the submitted order.
\<close>

section \<open>Belonging to a parent\<close>

definition parent_cells :: "record_collection \<Rightarrow> int \<Rightarrow> (string \<times> db_value) list" where
  "parent_cells c pid = [(''parent_entity_id'', DInt (cn_parent_entity c)), (''parent_record_id'', DInt pid),
     (''parent_field_id'', DInt (rf_id (cn_field c)))]"

definition child_of :: "record_collection \<Rightarrow> int \<Rightarrow> stored_row \<Rightarrow> bool" where
  "child_of c pid r \<longleftrightarrow> list_all (\<lambda>(k, v). cell_of r k = v) (parent_cells c pid)"

definition with_parent :: "record_collection \<Rightarrow> int \<Rightarrow> int \<Rightarrow> record_mutation \<Rightarrow> record_mutation" where
  "with_parent c pid ord m =
     add_column (collection_system_field ''ordinal'' ''ordinal'') (DInt ord)
     (add_column (collection_system_field ''parent-field-id'' ''parent_field_id'') (DInt (rf_id (cn_field c)))
     (add_column (collection_system_field ''parent-record-id'' ''parent_record_id'') (DInt pid)
     (add_column (collection_system_field ''parent-entity-id'' ''parent_entity_id'') (DInt (cn_parent_entity c)) m)))"

text \<open>
  What a save works with: the look-ups of a preparation, which see the table as it is at that moment,
  the other constraints of the child table, the answer to a SELECT of a row, the acting user, the clock
  of the transaction and the generator of names.
\<close>

record 's save_env =
  sv_prepare :: "table_db \<Rightarrow> prepare_env"
  sv_check :: row_check
  sv_answer :: "stored_row \<Rightarrow> val list"
  sv_actor :: "int option"
  sv_now :: db_value
  sv_names :: "'s name_generator"

definition foreign_row :: "record_collection \<Rightarrow> int \<Rightarrow> record_error" where
  "foreign_row c i = validation_error ''collection row does not belong to parent record''
     [(''field'', rf_name (cn_field c)), (''row-id'', show_int i)]"

definition collection_existing_rows :: "'s save_env \<Rightarrow> record_collection \<Rightarrow> int \<Rightarrow> table_db \<Rightarrow> record_error + (int \<times> rec_map) list" where
  "collection_existing_rows sv c pid db =
     mapR (\<lambda>r. bindR (record_from_values (cn_layout c) (sv_answer sv r)) (\<lambda>m. bindR (activity_record_id m) (\<lambda>i. Inr (i, m))))
       (filter (child_of c pid) (tb_rows db))"

definition insert_collection_row :: "'s save_env \<Rightarrow> record_collection \<Rightarrow> int \<Rightarrow> row_input \<Rightarrow> 's \<times> table_db \<Rightarrow> record_error + 's \<times> table_db" where
  "insert_collection_row sv c pid row st =
     bindR (insert_row (pe_env (sv_prepare sv (snd st))) (cn_layout c) (sv_check sv) (sv_actor sv) (sv_names sv)
         (\<lambda>m. Inr (with_parent c pid (ri_ordinal row) m)) (ri_input row) (snd st) (fst st))
       (\<lambda>((i, db), s). Inr (s, db))"

definition row_update_cells :: "'s save_env \<Rightarrow> record_mutation \<Rightarrow> int \<Rightarrow> (string \<times> db_value) list" where
  "row_update_cells sv m ord = mutation_cells m @ [(''ordinal'', DInt ord), (''updated_at'', sv_now sv)]"

definition update_collection_row :: "'s save_env \<Rightarrow> record_collection \<Rightarrow> int \<Rightarrow> row_input \<Rightarrow> table_db \<Rightarrow> record_error + table_db" where
  "update_collection_row sv c pid row db =
     bindR (write_mutation (pe_env (sv_prepare sv db)) (cn_layout c) (ri_input row)) (\<lambda>m.
       case table_update (cn_layout c) (sv_check sv) (\<lambda>r. sr_id r = ri_id row \<and> child_of c pid r) (row_update_cells sv m (ri_ordinal row)) db of
         Inl e \<Rightarrow> Inl (classify_db_error (Some e) (ly_entity (cn_layout c)))
       | Inr (n, db') \<Rightarrow> if n = 0 then Inl (foreign_row c (ri_id row)) else Inr db')"

definition delete_collection_row :: "record_collection \<Rightarrow> int \<Rightarrow> int \<Rightarrow> table_db \<Rightarrow> record_error + table_db" where
  "delete_collection_row c pid i db =
     (case table_delete (\<lambda>r. child_of c pid r \<and> sr_id r = i) db of (n, db') \<Rightarrow>
        if n = 0 then Inl (foreign_row c i) else Inr db')"

section \<open>Saving\<close>

definition check_submitted :: "record_collection \<Rightarrow> (int \<times> rec_map) list \<Rightarrow> bool \<Rightarrow> row_input \<Rightarrow> record_error + unit" where
  "check_submitted c existing create row =
     (if ri_id row = 0 then Inr ()
      else if create then Inl (validation_error ''collection row id cannot be written on create''
        [(''field'', rf_name (cn_field c)), (''row-id'', show_int (ri_id row))])
      else guardR (map_of existing (ri_id row) \<noteq> None) (foreign_row c (ri_id row)))"

definition save_row :: "'s save_env \<Rightarrow> record_collection \<Rightarrow> int \<Rightarrow> (int \<times> rec_map) list \<Rightarrow> 's \<times> table_db \<Rightarrow> row_input \<Rightarrow>
    record_error + 's \<times> table_db" where
  "save_row sv c pid existing st row =
     bindR (prepare_record_input (sv_prepare sv (snd st)) (cn_layout c) (ri_input row) (map_of existing (ri_id row))) (\<lambda>input.
       let prepared = row\<lparr>ri_input := input\<rparr> in
       if ri_id row = 0 then insert_collection_row sv c pid prepared st
       else bindR (update_collection_row sv c pid prepared (snd st)) (\<lambda>db. Inr (fst st, db)))"

definition save_collection_rows :: "'s save_env \<Rightarrow> record_collection \<Rightarrow> int \<Rightarrow> row_input list \<Rightarrow> bool \<Rightarrow> 's \<times> table_db \<Rightarrow>
    record_error + 's \<times> table_db" where
  "save_collection_rows sv c pid rows create st =
     bindR (if create then Inr [] else collection_existing_rows sv c pid (snd st)) (\<lambda>existing.
     bindR (foldR (\<lambda>_ row. check_submitted c existing create row) () rows) (\<lambda>_.
     bindR (foldR (\<lambda>db i. if i \<in> set (map ri_id rows) then Inr db else delete_collection_row c pid i db) (snd st) (map fst existing)) (\<lambda>db.
       foldR (save_row sv c pid existing) (fst st, db) rows)))"

section \<open>Loading\<close>

definition cell_int :: "stored_row \<Rightarrow> string \<Rightarrow> int" where
  "cell_int r k = (case cell_of r k of DInt i \<Rightarrow> i | _ \<Rightarrow> 0)"

definition ordered_children :: "record_collection \<Rightarrow> int \<Rightarrow> table_db \<Rightarrow> stored_row list" where
  "ordered_children c pid db = sort_key (\<lambda>r. cell_int r ''ordinal'') (sort_key sr_id (filter (child_of c pid) (tb_rows db)))"

definition load_collection :: "(stored_row \<Rightarrow> val list) \<Rightarrow> record_collection \<Rightarrow> int \<Rightarrow> table_db \<Rightarrow> record_error + rec_map list" where
  "load_collection answer c pid db = mapR (\<lambda>r. record_from_values (cn_layout c) (answer r)) (ordered_children c pid db)"

end
