(* ===== verification/Collection_Guarantees.thy ===== *)
theory Collection_Guarantees
  imports Record_Table Write_Guarantees
begin

text \<open>
  Saving a collection: afterwards the rows of the parent are exactly the submitted ones, in the
  submitted order and with the submitted values, and no other row of the child table is touched.
\<close>

section \<open>Statements on the table\<close>

lemma table_update_result:
  assumes "table_update l check match cs db = Inr (n, db')"
  shows "distinct (map fst cs)" "n = length (filter match (tb_rows db))"
    "db' = db\<lparr>tb_rows := update_where match (set_cells cs) (tb_rows db)\<rparr>"
  using assms by (auto simp: table_update_def Let_def split: if_splits list.splits)

lemma set_cells_in:
  assumes "distinct (map fst cs)" "(k, v) \<in> set cs"
  shows "cell_of (set_cells cs r) k = v"
proof -
  have "map_of (foldl (\<lambda>m (k, v). AList.update k v m) m cs) k = Some v" for m
    using assms
  proof (induction cs arbitrary: m)
    case (Cons c cs)
    show ?case
    proof (cases "c = (k, v)")
      case True
      then have "k \<notin> set (map fst cs)" using Cons.prems(1) by simp
      then have "map_of (foldl (\<lambda>m (k, v). AList.update k v m) m' cs) k = map_of m' k" for m'
        by (induction cs arbitrary: m') (auto simp: update_conv')
      then show ?thesis using True by (simp add: update_conv')
    next
      case False
      then show ?thesis using Cons by (auto simp: case_prod_beta)
    qed
  qed simp
  then show ?thesis by (simp add: cell_of_def set_cells_def)
qed

lemma inserted_cell:
  assumes "distinct (map fst cs)" "(k, v) \<in> set cs"
  shows "cell_of \<lparr>sr_id = i, sr_cells = cs @ ds\<rparr> k = v"
  using assms by (simp add: cell_of_def map_add_dom_app_simps(1) dom_map_of_conv_image_fst image_iff map_add_def)

section \<open>The cells of a child\<close>

definition parent_columns :: "string list" where
  "parent_columns = [''parent_entity_id'', ''parent_record_id'', ''parent_field_id'']"

definition own_columns :: "record_layout \<Rightarrow> bool" where
  "own_columns l \<longleftrightarrow> list_all (\<lambda>f. rf_column f \<notin> set parent_columns) (ly_fields l)"

lemma field_by_name_in: "field_by_name l n = Some f \<Longrightarrow> f \<in> set (ly_fields l)"
  by (auto simp: field_by_name_def dest: find_SomeD)

lemma cells_of_cells: "cells_of cells m \<Longrightarrow> mutation_cells m = map (\<lambda>(f, v). (rf_column f, v)) cells"
  by (simp add: mutation_cells_def cells_zip)

lemma write_mutation_columns:
  assumes "write_mutation ev l input = Inr m" "own_columns l"
  shows "fst ` set (mutation_cells m) \<inter> set parent_columns = {}"
proof -
  obtain cells where c: "cells_of cells m" "list_all2 (written ev l input) (filter (writes l) (sorted_input_names input)) cells"
    using write_mutation_cells [OF assms(1)] by blast
  have "rf_column (fst x) \<notin> set parent_columns" if x: "x \<in> set cells" for x
  proof -
    obtain n where "written ev l input n x" using list_all2_right [OF c(2) x] by blast
    then have "fst x \<in> set (ly_fields l)" by (auto simp: written_def intro: field_by_name_in)
    then show ?thesis using assms(2) [unfolded own_columns_def list_all_iff] by (rule bspec [rotated])
  qed
  then show ?thesis unfolding cells_of_cells [OF c(1)] by fastforce
qed

text \<open>A create mutation begins with the cells of its input; the parent's cells follow.\<close>

lemma create_mutation_starts:
  assumes "create_mutation ev l actor gen input s = Inr (m, s')"
  shows "\<exists>m0 cells tail. write_mutation ev l input = Inr m0 \<and> cells_of cells m0 \<and> cells_of (cells @ tail) m"
proof -
  obtain m0 where m0: "write_mutation ev l input = Inr m0"
    and m: "(let m = add_owner actor m0 in if ''name'' \<in> set (mu_columns m) then Inr (m, s)
       else bindR (gen input s) (\<lambda>(n, s'). Inr (add_column name_text_field (DText n) m, s'))) = Inr (m, s')"
    using assms by (auto simp: create_mutation_def bindR_Inr_iff)
  obtain cells where cells: "cells_of cells m0" using write_mutation_cells [OF m0] by blast
  let ?own = "case actor of None \<Rightarrow> [] | Some u \<Rightarrow> [owner_cell u]"
  have own: "cells_of (cells @ ?own) (add_owner actor m0)" by (rule cells_of_owner [OF cells])
  show ?thesis
  proof (cases "''name'' \<in> set (mu_columns (add_owner actor m0))")
    case True
    then have "m = add_owner actor m0" using m by (simp add: Let_def)
    then show ?thesis using m0 cells own by blast
  next
    case False
    then obtain n where "m = add_column name_text_field (DText n) (add_owner actor m0)"
      using m by (auto simp: Let_def bindR_Inr_iff)
    then have "cells_of (cells @ ?own @ [(name_text_field, DText n)]) m"
      using cells_of_add [OF own, of name_text_field "DText n"] by simp
    then show ?thesis using m0 cells by blast
  qed
qed

lemma with_parent_cells:
  assumes "cells_of cells m"
  shows "mutation_cells (with_parent c pid ord m) = mutation_cells m @ parent_cells c pid @ [(''ordinal'', DInt ord)]"
proof -
  let ?f = "\<lambda>n k. collection_system_field n k"
  have "cells_of ((((cells @ [(?f ''parent-entity-id'' ''parent_entity_id'', DInt (cn_parent_entity c))])
      @ [(?f ''parent-record-id'' ''parent_record_id'', DInt pid)])
      @ [(?f ''parent-field-id'' ''parent_field_id'', DInt (rf_id (cn_field c)))])
      @ [(?f ''ordinal'' ''ordinal'', DInt ord)]) (with_parent c pid ord m)"
    unfolding with_parent_def by (intro cells_of_add assms)
  from cells_of_cells [OF this] show ?thesis
    unfolding cells_of_cells [OF assms] by (simp add: parent_cells_def collection_system_field_def)
qed

section \<open>One row\<close>

definition carries :: "stored_row \<Rightarrow> record_mutation \<Rightarrow> bool" where
  "carries r m \<longleftrightarrow> list_all (\<lambda>(k, v). cell_of r k = v) (mutation_cells m)"

lemma insert_saves:
  assumes "insert_collection_row sv c pid row (s, db) = Inr (s', db')"
  shows "\<exists>m r. write_mutation (pe_env (sv_prepare sv db)) (cn_layout c) (ri_input row) = Inr m
    \<and> db' = db\<lparr>tb_rows := tb_rows db @ [r], tb_next := tb_next db + 1\<rparr> \<and> sr_id r = tb_next db
    \<and> child_of c pid r \<and> cell_of r ''ordinal'' = DInt (ri_ordinal row) \<and> carries r m"
proof -
  obtain i where "insert_row (pe_env (sv_prepare sv db)) (cn_layout c) (sv_check sv) (sv_actor sv) (sv_names sv)
      (\<lambda>m. Inr (with_parent c pid (ri_ordinal row) m)) (ri_input row) db s = Inr ((i, db'), s')"
    using assms by (auto simp: insert_collection_row_def bindR_Inr_iff)
  from insert_row_inserts [OF this] obtain t m where
    m: "create_mutation (pe_env (sv_prepare sv db)) (cn_layout c) (sv_actor sv) (sv_names sv) (ri_input row) t = Inr (m, s')"
    and ins: "table_insert (cn_layout c) (sv_check sv) (with_parent c pid (ri_ordinal row) m) db = Inr (i, db')"
    by auto
  obtain m0 cells tail where m0: "write_mutation (pe_env (sv_prepare sv db)) (cn_layout c) (ri_input row) = Inr m0"
    and cells: "cells_of cells m0" "cells_of (cells @ tail) m" using create_mutation_starts [OF m] by blast
  let ?cs = "mutation_cells (with_parent c pid (ri_ordinal row) m)"
  define r where "r = \<lparr>sr_id = i, sr_cells = ?cs @ tb_defaults db\<rparr>"
  note res = table_insert_result [OF ins]
  have at: "cell_of r k = v" if "(k, v) \<in> set ?cs" for k v unfolding r_def by (rule inserted_cell [OF res(2) that])
  have split: "?cs = mutation_cells m0 @ map (\<lambda>(f, v). (rf_column f, v)) tail @ parent_cells c pid @ [(''ordinal'', DInt (ri_ordinal row))]"
    unfolding with_parent_cells [OF cells(2)] cells_of_cells [OF cells(2)] cells_of_cells [OF cells(1)] by simp
  have "child_of c pid r" "carries r m0" "cell_of r ''ordinal'' = DInt (ri_ordinal row)"
    unfolding child_of_def carries_def list_all_iff using at unfolding split by fastforce+
  then show ?thesis using m0 res(1,3) r_def by auto
qed

lemma update_saves:
  assumes "update_collection_row sv c pid row db = Inr db'" "own_columns (cn_layout c)"
  shows "\<exists>m g. write_mutation (pe_env (sv_prepare sv db)) (cn_layout c) (ri_input row) = Inr m
    \<and> db' = db\<lparr>tb_rows := update_where (\<lambda>r. sr_id r = ri_id row \<and> child_of c pid r) g (tb_rows db)\<rparr>
    \<and> (\<exists>r\<in>set (tb_rows db). sr_id r = ri_id row \<and> child_of c pid r)
    \<and> (\<forall>r. sr_id (g r) = sr_id r \<and> (child_of c pid r \<longrightarrow> child_of c pid (g r))
        \<and> cell_of (g r) ''ordinal'' = DInt (ri_ordinal row) \<and> carries (g r) m)"
proof -
  let ?match = "\<lambda>r. sr_id r = ri_id row \<and> child_of c pid r"
  obtain m n where m: "write_mutation (pe_env (sv_prepare sv db)) (cn_layout c) (ri_input row) = Inr m"
    and u: "table_update (cn_layout c) (sv_check sv) ?match (row_update_cells sv m (ri_ordinal row)) db = Inr (n, db')" "n \<noteq> 0"
  proof -
    obtain m where m: "write_mutation (pe_env (sv_prepare sv db)) (cn_layout c) (ri_input row) = Inr m"
      and u: "(case table_update (cn_layout c) (sv_check sv) ?match (row_update_cells sv m (ri_ordinal row)) db of
          Inl e \<Rightarrow> Inl (classify_db_error (Some e) (ly_entity (cn_layout c)))
        | Inr (n, db') \<Rightarrow> if n = 0 then Inl (foreign_row c (ri_id row)) else Inr db') = Inr db'"
      using assms(1) unfolding update_collection_row_def bindR_Inr_iff by blast
    show thesis
    proof (cases "table_update (cn_layout c) (sv_check sv) ?match (row_update_cells sv m (ri_ordinal row)) db")
      case (Inr x)
      then show thesis using u m by (cases x) (auto split: if_splits intro: that)
    qed (use u in simp)
  qed
  note res = table_update_result [OF u(1)]
  let ?cs = "row_update_cells sv m (ri_ordinal row)" and ?g = "set_cells (row_update_cells sv m (ri_ordinal row))"
  have "filter ?match (tb_rows db) \<noteq> []" using res(2) u(2) by simp
  then have hit: "\<exists>r\<in>set (tb_rows db). ?match r" by (auto simp: filter_empty_conv)
  have at: "cell_of (?g r) k = v" if "(k, v) \<in> set ?cs" for r k v by (rule set_cells_in [OF res(1) that])
  have other: "cell_of (?g r) k = cell_of r k" if "k \<in> set parent_columns" for r k
  proof (rule set_cells_none)
    have "k \<notin> fst ` set (mutation_cells m)" using write_mutation_columns [OF m assms(2)] that by blast
    moreover have "k \<noteq> ''ordinal''" "k \<noteq> ''updated_at''" using that by (auto simp: parent_columns_def)
    ultimately show "k \<notin> set (map fst ?cs)" by (simp add: row_update_cells_def)
  qed
  have "sr_id (?g r) = sr_id r \<and> (child_of c pid r \<longrightarrow> child_of c pid (?g r))
      \<and> cell_of (?g r) ''ordinal'' = DInt (ri_ordinal row) \<and> carries (?g r) m" for r
  proof (intro conjI impI)
    assume "child_of c pid r"
    then show "child_of c pid (?g r)" unfolding child_of_def parent_cells_def using other [of _ r] by (simp add: parent_columns_def)
  next
    show "cell_of (?g r) ''ordinal'' = DInt (ri_ordinal row)" by (rule at) (simp add: row_update_cells_def)
    show "carries (?g r) m" unfolding carries_def list_all_iff using at by (auto simp: row_update_cells_def)
  qed simp
  then show ?thesis using m res(3) hit by blast
qed

section \<open>All rows\<close>

text \<open>A child holds a submitted row: its id when it had one, its position, and the values of the prepared input.\<close>

definition holds_row :: "'s save_env \<Rightarrow> record_collection \<Rightarrow> row_input \<Rightarrow> stored_row \<Rightarrow> bool" where
  "holds_row sv c row x \<longleftrightarrow> (ri_id row \<noteq> 0 \<longrightarrow> sr_id x = ri_id row) \<and> cell_of x ''ordinal'' = DInt (ri_ordinal row)
     \<and> (\<exists>db base input m. prepare_record_input (sv_prepare sv db) (cn_layout c) (ri_input row) base = Inr input
          \<and> write_mutation (pe_env (sv_prepare sv db)) (cn_layout c) input = Inr m \<and> carries x m)"

definition keyed_table :: "table_db \<Rightarrow> bool" where
  "keyed_table db \<longleftrightarrow> distinct (map sr_id (tb_rows db)) \<and> 0 < tb_next db
     \<and> list_all (\<lambda>r. 0 < sr_id r \<and> sr_id r < tb_next db) (tb_rows db)"

text \<open>While the rows are saved: \<open>others\<close> are the rows of other parents, \<open>pend\<close> the ids still to be updated and \<open>xs\<close> the saved children.\<close>

definition saving :: "record_collection \<Rightarrow> int \<Rightarrow> int \<Rightarrow> stored_row list \<Rightarrow> int set \<Rightarrow> stored_row list \<Rightarrow> table_db \<Rightarrow> bool" where
  "saving c pid n0 others pend xs db \<longleftrightarrow> filter (\<lambda>r. \<not> child_of c pid r) (tb_rows db) = others \<and> keyed_table db \<and> n0 \<le> tb_next db
     \<and> distinct xs \<and> (\<forall>x\<in>set xs. x \<in> set (tb_rows db) \<and> child_of c pid x)
     \<and> (\<forall>r\<in>set (tb_rows db). child_of c pid r \<longrightarrow> r \<in> set xs \<or> sr_id r \<in> pend)"

lemma saving_insert:
  assumes "saving c pid n0 others pend xs db" "child_of c pid r" "sr_id r = tb_next db"
  shows "saving c pid n0 others pend (xs @ [r]) (db\<lparr>tb_rows := tb_rows db @ [r], tb_next := tb_next db + 1\<rparr>)"
proof -
  have "sr_id x < tb_next db" if "x \<in> set (tb_rows db)" for x
    using assms(1) that by (auto simp: saving_def keyed_table_def list_all_iff)
  then have "sr_id r \<notin> sr_id ` set (tb_rows db)" "\<forall>x\<in>set (tb_rows db). sr_id x < tb_next db + 1"
    using assms(3) by (force, force)
  moreover from this(1) have "r \<notin> set xs" using assms(1) by (auto simp: saving_def)
  moreover have "0 < sr_id r" using assms(1,3) by (simp add: saving_def keyed_table_def)
  ultimately show ?thesis using assms by (auto simp: saving_def keyed_table_def list_all_iff)
qed

lemma set_update_one: "r \<in> set xs \<Longrightarrow> set (update_where (\<lambda>x. x = r) g xs) = insert (g r) (set xs - {r})"
  by (auto simp: set_update_where)

lemma saving_update:
  assumes inv: "saving c pid n0 others pend xs db" and old: "r \<in> set (tb_rows db)" "sr_id r = i" "child_of c pid r"
    and new: "i \<notin> sr_id ` set xs" "\<And>r. sr_id (g r) = sr_id r" "\<And>r. child_of c pid r \<Longrightarrow> child_of c pid (g r)"
  shows "saving c pid n0 others (pend - {i}) (xs @ [g r]) (db\<lparr>tb_rows := update_where (\<lambda>r. sr_id r = i \<and> child_of c pid r) g (tb_rows db)\<rparr>)"
proof -
  let ?rows = "tb_rows db" and ?match = "\<lambda>r. sr_id r = i \<and> child_of c pid r"
  have dist: "distinct (map sr_id ?rows)" using inv by (simp add: saving_def keyed_table_def)
  have ids: "map sr_id (update_where ?match g ?rows) = map sr_id ?rows" using new(2) by (simp add: update_where_def)
  have only: "x = r" if x: "x \<in> set ?rows" "?match x" for x
  proof (rule distinct_key_eq [OF dist x(1) old(1)])
    show "sr_id x = sr_id r" using x(2) unfolding old(2) by (rule conjunct1)
  qed
  have one: "?match x \<longleftrightarrow> x = r" if "x \<in> set ?rows" for x using only [OF that] old(2,3) by metis
  have "update_where ?match g ?rows = update_where (\<lambda>x. x = r) g ?rows" unfolding update_where_def
    by (rule map_cong [OF refl]) (simp only: one)
  then have rows: "set (update_where ?match g ?rows) = insert (g r) (set ?rows - {r})"
    using old(1) by (simp only:) (rule set_update_one)
  have others: "filter (\<lambda>r. \<not> child_of c pid r) (update_where ?match g ?rows) = filter (\<lambda>r. \<not> child_of c pid r) ?rows"
    by (rule filter_update_where_same) (use new(3) in auto)
  have keyed: "keyed_table (db\<lparr>tb_rows := update_where ?match g ?rows\<rparr>)"
    using inv new(2) unfolding keyed_table_def saving_def by (auto simp: ids list_all_iff set_update_where)
  have fresh: "y \<notin> set xs" if "sr_id y = i" for y using new(1) unfolding that [symmetric] by (rule contrapos_nn) (rule imageI)
  have "g r \<notin> set xs" by (rule fresh) (simp only: new(2) old(2))
  moreover have "x \<in> insert (g r) (set ?rows - {r}) \<and> child_of c pid x" if "x \<in> set (xs @ [g r])" for x
    using that inv fresh [OF old(2)] new(3) [OF old(3)] by (auto simp: saving_def)
  moreover have "x \<in> set (xs @ [g r]) \<or> sr_id x \<in> pend - {i}" if x: "x \<in> insert (g r) (set ?rows - {r})" "child_of c pid x" for x
    using x inv one [of x] by (auto simp: saving_def)
  ultimately show ?thesis using inv others keyed unfolding saving_def by (simp add: rows)
qed

lemma save_row_saves:
  assumes step: "save_row sv c pid existing (s, db) row = Inr (s', db')" and inv: "saving c pid n0 others pend xs db"
    and own: "own_columns (cn_layout c)" and fresh: "ri_id row = 0 \<or> ri_id row \<notin> sr_id ` set xs"
  shows "\<exists>x. holds_row sv c row x \<and> (if ri_id row = 0 then n0 \<le> sr_id x else sr_id x = ri_id row)
    \<and> saving c pid n0 others (if ri_id row = 0 then pend else pend - {ri_id row}) (xs @ [x]) db'"
proof -
  obtain input where input: "prepare_record_input (sv_prepare sv db) (cn_layout c) (ri_input row) (map_of existing (ri_id row)) = Inr input"
    using step by (auto simp: save_row_def bindR_Inr_iff)
  show ?thesis
  proof (cases "ri_id row = 0")
    case True
    then have "insert_collection_row sv c pid (row\<lparr>ri_input := input\<rparr>) (s, db) = Inr (s', db')"
      using step input by (simp add: save_row_def)
    from insert_saves [OF this] obtain m r where
      m: "write_mutation (pe_env (sv_prepare sv db)) (cn_layout c) input = Inr m"
      and r: "db' = db\<lparr>tb_rows := tb_rows db @ [r], tb_next := tb_next db + 1\<rparr>" "sr_id r = tb_next db" "child_of c pid r"
        "cell_of r ''ordinal'' = DInt (ri_ordinal row)" "carries r m" by auto
    have "holds_row sv c row r" unfolding holds_row_def using True input m r(4,5) by blast
    then show ?thesis using True saving_insert [OF inv r(3,2)] r(1,2) inv by (auto simp: saving_def)
  next
    case False
    then have "update_collection_row sv c pid (row\<lparr>ri_input := input\<rparr>) db = Inr db'"
      using step input by (auto simp: save_row_def bindR_Inr_iff)
    from update_saves [OF this own] obtain m g r where
      m: "write_mutation (pe_env (sv_prepare sv db)) (cn_layout c) input = Inr m"
      and db': "db' = db\<lparr>tb_rows := update_where (\<lambda>r. sr_id r = ri_id row \<and> child_of c pid r) g (tb_rows db)\<rparr>"
      and r: "r \<in> set (tb_rows db)" "sr_id r = ri_id row" "child_of c pid r"
      and g: "\<And>r. sr_id (g r) = sr_id r" "\<And>r. child_of c pid r \<Longrightarrow> child_of c pid (g r)"
        "\<And>r. cell_of (g r) ''ordinal'' = DInt (ri_ordinal row)" "\<And>r. carries (g r) m" by auto
    have "holds_row sv c row (g r)" unfolding holds_row_def using r(2) g(1,3,4) input m by metis
    moreover have "ri_id row \<notin> sr_id ` set xs" using fresh False by simp
    ultimately show ?thesis using False saving_update [OF inv r _ g(1,2)] r(2) g(1) by (auto simp: db')
  qed
qed

lemma save_rows:
  assumes "foldR (save_row sv c pid existing) (s, db) rows = Inr (s', db')"
    and "saving c pid n0 others (ri_id ` set rows - {0}) xs db" "own_columns (cn_layout c)"
    and "distinct (filter (\<lambda>i. i \<noteq> 0) (map ri_id rows))" "\<forall>row\<in>set rows. ri_id row = 0 \<or> ri_id row < n0"
    and "\<forall>x\<in>set xs. n0 \<le> sr_id x \<or> sr_id x \<notin> ri_id ` set rows"
  shows "\<exists>ys. list_all2 (holds_row sv c) rows ys \<and> saving c pid n0 others {} (xs @ ys) db'"
  using assms
proof (induction rows arbitrary: s db xs)
  case Nil
  then show ?case by (intro exI [of _ "[]"]) simp
next
  case (Cons row rows)
  obtain s1 db1 where st: "save_row sv c pid existing (s, db) row = Inr (s1, db1)"
    and rest: "foldR (save_row sv c pid existing) (s1, db1) rows = Inr (s', db')"
    using Cons.prems(1) by (auto split: sum.splits)
  have fresh: "ri_id row = 0 \<or> ri_id row \<notin> sr_id ` set xs" using Cons.prems(5,6) by force
  obtain x where x: "holds_row sv c row x" "if ri_id row = 0 then n0 \<le> sr_id x else sr_id x = ri_id row"
    "saving c pid n0 others (if ri_id row = 0 then ri_id ` set (row # rows) - {0} else ri_id ` set (row # rows) - {0} - {ri_id row}) (xs @ [x]) db1"
    using save_row_saves [OF st Cons.prems(2,3) fresh] by blast
  have gone: "ri_id row = 0 \<or> ri_id row \<notin> ri_id ` set rows" using Cons.prems(4) by auto
  then have "(if ri_id row = 0 then ri_id ` set (row # rows) - {0} else ri_id ` set (row # rows) - {0} - {ri_id row}) = ri_id ` set rows - {0}"
    by (auto simp: image_iff)
  then have inv: "saving c pid n0 others (ri_id ` set rows - {0}) (xs @ [x]) db1" using x(3) by simp
  have "n0 \<le> sr_id x \<or> sr_id x \<notin> ri_id ` set rows" using x(2) gone by (auto split: if_splits)
  then have clean: "\<forall>y\<in>set (xs @ [x]). n0 \<le> sr_id y \<or> sr_id y \<notin> ri_id ` set rows" using Cons.prems(6) by auto
  have "distinct (filter (\<lambda>i. i \<noteq> 0) (map ri_id rows))" "\<forall>row\<in>set rows. ri_id row = 0 \<or> ri_id row < n0"
    using Cons.prems(4,5) by (auto split: if_splits)
  from Cons.IH [OF rest inv Cons.prems(3) this clean] obtain ys where
    "list_all2 (holds_row sv c) rows ys" "saving c pid n0 others {} ((xs @ [x]) @ ys) db'" by blast
  then show ?case using x(1) by (intro exI [of _ "x # ys"]) simp
qed

section \<open>Submitted rows\<close>

lemma row_steps:
  assumes "foldR (row_step l field allow) acc (enumerate (length acc) payload) = Inr rows"
    and "map ri_ordinal acc = [1..int (length acc)]" "distinct (filter (\<lambda>i. i > 0) (map ri_id acc))" "\<forall>r\<in>set acc. 0 \<le> ri_id r"
  shows "map ri_ordinal rows = [1..int (length rows)] \<and> distinct (filter (\<lambda>i. i > 0) (map ri_id rows)) \<and> (\<forall>r\<in>set rows. 0 \<le> ri_id r)"
  using assms
proof (induction payload arbitrary: acc)
  case (Cons x payload)
  obtain acc' where st: "row_step l field allow acc (length acc, x) = Inr acc'"
    and rest: "foldR (row_step l field allow) acc' (enumerate (Suc (length acc)) payload) = Inr rows"
    using Cons.prems(1) by (auto split: sum.splits)
  obtain members i input where m: "x = Some members" "foldR (row_member l field allow (length acc)) (0, []) members = Inr (i, input)"
    and new: "\<not> (i > 0 \<and> i \<in> set (map ri_id acc))" "acc' = acc @ [\<lparr>ri_id = i, ri_ordinal = int (length acc) + 1, ri_input = input\<rparr>]"
    using st by (auto simp: row_step_def bindR_Inr_iff split: option.splits if_splits)
  have "0 \<le> fst (i, input)"
    by (rule foldR_keeps [where P = "\<lambda>st. 0 \<le> fst st", OF m(2)])
       (auto simp: row_member_def collection_row_id_def bindR_Inr_iff split: if_splits)
  then have "distinct (filter (\<lambda>i. i > 0) (map ri_id acc'))" "\<forall>r\<in>set acc'. 0 \<le> ri_id r"
    using Cons.prems(3,4) new by auto
  moreover have "map ri_ordinal acc' = [1..int (length acc')]"
    using Cons.prems(2) new(2) upto_rec2 [of 1 "int (length acc) + 1"] by (simp add: add.commute)
  moreover have "foldR (row_step l field allow) acc' (enumerate (length acc') payload) = Inr rows" using rest new(2) by simp
  ultimately show ?case using Cons.IH by blast
qed simp

lemma collection_rows_ok:
  assumes "collection_row_inputs l field raw allow = Inr rows"
  shows "map ri_ordinal rows = [1..int (length rows)]" "distinct (filter (\<lambda>i. i \<noteq> 0) (map ri_id rows))"
proof -
  obtain payload where "foldR (row_step l field allow) [] (enumerate 0 payload) = Inr rows"
    using assms by (auto simp: collection_row_inputs_def Let_def split: option.splits if_splits)
  then have r: "map ri_ordinal rows = [1..int (length rows)]" "distinct (filter (\<lambda>i. i > 0) (map ri_id rows))" "\<forall>r\<in>set rows. 0 \<le> ri_id r"
    using row_steps [of l field allow "[]" payload rows] by simp_all
  have "filter (\<lambda>i. i > 0) (map ri_id rows) = filter (\<lambda>i. i \<noteq> 0) (map ri_id rows)" using r(3) by (intro filter_cong) auto
  with r show "map ri_ordinal rows = [1..int (length rows)]" "distinct (filter (\<lambda>i. i \<noteq> 0) (map ri_id rows))" by simp_all
qed

lemma deleted_rows:
  assumes "foldR (\<lambda>db i. if i \<in> S then Inr db else delete_collection_row c pid i db) db ids = Inr db'"
  shows "db' = db\<lparr>tb_rows := filter (\<lambda>r. \<not> (child_of c pid r \<and> sr_id r \<in> set ids \<and> sr_id r \<notin> S)) (tb_rows db)\<rparr>"
  using assms
proof (induction ids arbitrary: db)
  case (Cons i ids)
  obtain db1 where st: "(if i \<in> S then Inr db else delete_collection_row c pid i db) = Inr db1"
    and rest: "foldR (\<lambda>db i. if i \<in> S then Inr db else delete_collection_row c pid i db) db1 ids = Inr db'"
    using Cons.prems by (auto split: sum.splits)
  have "db1 = db\<lparr>tb_rows := filter (\<lambda>r. \<not> (child_of c pid r \<and> sr_id r = i \<and> i \<notin> S)) (tb_rows db)\<rparr>"
    using st by (auto simp: delete_collection_row_def table_delete_def split: if_splits
      intro!: arg_cong [where f = "\<lambda>rows. db\<lparr>tb_rows := rows\<rparr>"] filter_cong)
  moreover have "filter (\<lambda>r. \<not> (child_of c pid r \<and> sr_id r \<in> set ids \<and> sr_id r \<notin> S))
      (filter (\<lambda>r. \<not> (child_of c pid r \<and> sr_id r = i \<and> i \<notin> S)) (tb_rows db))
    = filter (\<lambda>r. \<not> (child_of c pid r \<and> sr_id r \<in> set (i # ids) \<and> sr_id r \<notin> S)) (tb_rows db)"
    unfolding filter_filter by (rule filter_cong) auto
  ultimately show ?case using Cons.IH [OF rest] by (cases db) (simp only: table_db.select_convs table_db.update_convs)
qed simp

section \<open>Saving a collection\<close>

text \<open>What a SELECT answers for a child carries its id; a new parent has no children yet.\<close>

definition reads_back :: "'s save_env \<Rightarrow> record_collection \<Rightarrow> table_db \<Rightarrow> bool" where
  "reads_back sv c db \<longleftrightarrow> list_all (\<lambda>r. bindR (record_from_values (cn_layout c) (sv_answer sv r)) activity_record_id = Inr (sr_id r)) (tb_rows db)"

lemma existing_ids:
  assumes "collection_existing_rows sv c pid db = Inr existing" "reads_back sv c db"
  shows "map fst existing = map sr_id (filter (child_of c pid) (tb_rows db))"
proof -
  have "list_all2 (\<lambda>r p. bindR (record_from_values (cn_layout c) (sv_answer sv r)) (\<lambda>m. bindR (activity_record_id m) (\<lambda>i. Inr (i, m))) = Inr p)
      (filter (child_of c pid) (tb_rows db)) existing" using assms(1) by (simp add: collection_existing_rows_def mapR_Inr_iff)
  then have "list_all2 (\<lambda>r p. r \<in> set (tb_rows db) \<longrightarrow> sr_id r = fst p) (filter (child_of c pid) (tb_rows db)) existing"
  proof (rule list_all2_mono, intro impI)
    fix r p
    assume p: "bindR (record_from_values (cn_layout c) (sv_answer sv r)) (\<lambda>m. bindR (activity_record_id m) (\<lambda>i. Inr (i, m))) = Inr p"
      and r: "r \<in> set (tb_rows db)"
    then have "bindR (record_from_values (cn_layout c) (sv_answer sv r)) activity_record_id = Inr (sr_id r)"
      using assms(2) by (simp add: reads_back_def list_all_iff)
    with p show "sr_id r = fst p" by (auto simp: bindR_Inr_iff)
  qed
  then show ?thesis
    by (intro nth_equalityI) (auto simp: list_all2_conv_all_nth, metis filter_is_subset nth_mem subsetD)
qed

lemma ordered_as_saved:
  assumes "saving c pid n0 others {} xs db" "list_all2 (holds_row sv c) rows xs" "map ri_ordinal rows = [1..int (length rows)]"
  shows "ordered_children c pid db = xs"
proof -
  have "list_all2 (\<lambda>row x. ri_ordinal row = cell_int x ''ordinal'') rows xs"
    using assms(2) by (rule list_all2_mono) (simp add: holds_row_def cell_int_def)
  then have "list_all2 (=) (map ri_ordinal rows) (map (\<lambda>x. cell_int x ''ordinal'') xs)"
    by (simp add: list_all2_map1 list_all2_map2)
  then have ords: "map (\<lambda>x. cell_int x ''ordinal'') xs = [1..int (length rows)]"
    using assms(3) by (simp only: list.rel_eq)
  have children: "mset (filter (child_of c pid) (tb_rows db)) = mset xs"
  proof (subst set_eq_iff_mset_eq_distinct [symmetric])
    show "distinct (filter (child_of c pid) (tb_rows db))" using assms(1) by (simp add: saving_def keyed_table_def distinct_map)
    show "distinct xs" "set (filter (child_of c pid) (tb_rows db)) = set xs" using assms(1) by (auto simp: saving_def)
  qed
  show ?thesis unfolding ordered_children_def
  proof (rule sort_key_inj_key_eq)
    show "mset (sort_key sr_id (filter (child_of c pid) (tb_rows db))) = mset xs" using children by simp
    show "sorted (map (\<lambda>x. cell_int x ''ordinal'') xs)" unfolding ords by simp
    have "distinct (map (\<lambda>x. cell_int x ''ordinal'') xs)" unfolding ords by simp
    then show "inj_on (\<lambda>x. cell_int x ''ordinal'') (set (sort_key sr_id (filter (child_of c pid) (tb_rows db))))"
      unfolding set_sort mset_eq_setD [OF children] by (simp only: distinct_map)
  qed
qed

text \<open>C32: Saving a submitted collection leaves the parent with exactly the submitted rows: read in their order, the
  k-th child is the k-th submitted row, under its id when it had one, at position k and with the values of its
  prepared input; every row of another parent is as it was, and ids stay unique.\<close>

theorem collection_saved_exactly:
  assumes "collection_row_inputs l field raw (\<not> create) = Inr rows" "save_collection_rows sv c pid rows create (s, db) = Inr (s', db')"
    and "keyed_table db" "reads_back sv c db" "own_columns (cn_layout c)" "create \<longrightarrow> filter (child_of c pid) (tb_rows db) = []"
  shows "list_all2 (holds_row sv c) rows (ordered_children c pid db')
    \<and> filter (\<lambda>r. \<not> child_of c pid r) (tb_rows db') = filter (\<lambda>r. \<not> child_of c pid r) (tb_rows db) \<and> keyed_table db'"
proof -
  note ok = collection_rows_ok [OF assms(1)]
  obtain existing db1 where ex: "(if create then Inr [] else collection_existing_rows sv c pid db) = Inr existing"
    and sub: "foldR (\<lambda>_ row. check_submitted c existing create row) () rows = Inr ()"
    and del: "foldR (\<lambda>db i. if i \<in> set (map ri_id rows) then Inr db else delete_collection_row c pid i db) db (map fst existing) = Inr db1"
    and fold: "foldR (save_row sv c pid existing) (s, db1) rows = Inr (s', db')"
    using assms(2) unfolding save_collection_rows_def fst_conv snd_conv bindR_Inr_iff by (auto simp del: set_map)
  have ids: "map fst existing = map sr_id (filter (child_of c pid) (tb_rows db))"
    using ex existing_ids [OF _ assms(4)] assms(6) by (auto split: if_splits)
  have known: "\<forall>row\<in>set rows. ri_id row = 0 \<or> ri_id row \<in> set (map fst existing)"
    using sub unfolding foldR_unit_all by (auto simp: check_submitted_def map_of_eq_None_iff split: if_splits)
  have below: "sr_id r < tb_next db" if "r \<in> set (tb_rows db)" for r using that assms(3) by (simp add: keyed_table_def list_all_iff)
  have db1: "db1 = db\<lparr>tb_rows := filter (\<lambda>r. \<not> (child_of c pid r \<and> sr_id r \<in> set (map fst existing) \<and> sr_id r \<notin> set (map ri_id rows))) (tb_rows db)\<rparr>"
    by (rule deleted_rows [OF del])
  have inv: "saving c pid (tb_next db) (filter (\<lambda>r. \<not> child_of c pid r) (tb_rows db)) (ri_id ` set rows - {0}) [] db1"
    unfolding saving_def db1 using assms(3,6) ids by (auto simp: keyed_table_def list_all_iff distinct_map_filter_imp intro!: filter_cong)
  have "\<forall>row\<in>set rows. ri_id row = 0 \<or> ri_id row < tb_next db" using known below unfolding ids by fastforce
  from save_rows [OF fold inv assms(5) ok(2) this] obtain ys where
    ys: "list_all2 (holds_row sv c) rows ys" "saving c pid (tb_next db) (filter (\<lambda>r. \<not> child_of c pid r) (tb_rows db)) {} ys db'" by auto
  then show ?thesis using ordered_as_saved [OF ys(2,1) ok(1)] by (simp add: saving_def)
qed

section \<open>Samples\<close>

text \<open>Record 1 has one item, id 5, and record 2 another, id 6; the save keeps 5 behind a new row.\<close>

definition sample_items :: record_collection where
  "sample_items = RecordCollection (sample_title_field\<lparr>rf_id := 8, rf_name := ''items'', rf_type := ''collection'', rf_storage := False\<rparr>) 3 sample_todo_layout"

definition sample_order_layout :: record_layout where
  "sample_order_layout = RecordLayout (ly_head sample_todo_layout) [(''items'', sample_items)]"

definition sample_items_env :: "nat save_env" where
  "sample_items_env = \<lparr>sv_prepare = (\<lambda>_. \<lparr>pe_env = sample_write_env, pe_get = (\<lambda>_ _. Inl (not_found [] [])), pe_list = (\<lambda>_ _. Inr []),
      pe_json = (\<lambda>_. []), pe_number = (\<lambda>t. t), pe_text = (\<lambda>_. []), pe_constant = (\<lambda>_. JNull)\<rparr>),
     sv_check = (\<lambda>_. None), sv_answer = (\<lambda>r. [VInt (sr_id r), VNull, VNull, VNull, VNull]), sv_actor = None, sv_now = DText ''now'',
     sv_names = (\<lambda>_ n. Inr (show_nat n, Suc n))\<rparr>"

definition sample_item :: "int \<Rightarrow> int \<Rightarrow> string \<Rightarrow> (string \<times> db_value) list \<Rightarrow> stored_row" where
  "sample_item i pid title cs = \<lparr>sr_id = i, sr_cells = (''title'', DText title) # parent_cells sample_items pid @ cs\<rparr>"

definition sample_items_db :: table_db where
  "sample_items_db = \<lparr>tb_rows = [sample_item 5 1 ''old'' [(''ordinal'', DInt 1)], sample_item 6 2 ''other'' [(''ordinal'', DInt 1)]],
     tb_next = 7, tb_defaults = []\<rparr>"

definition sample_submitted :: string where
  "sample_submitted = ''[{\"title\":\"n\"},{\"id\":5}]''"

definition sample_item_rows :: "row_input list" where
  "sample_item_rows = [\<lparr>ri_id = 0, ri_ordinal = 1, ri_input = [(''title'', ''\"n\"'')]\<rparr>,
     \<lparr>ri_id = 5, ri_ordinal = 2, ri_input = []\<rparr>]"

definition sample_items_saved :: table_db where
  "sample_items_saved = sample_items_db\<lparr>tb_rows := [sample_item 5 1 ''old'' [(''ordinal'', DInt 2), (''updated_at'', DText ''now'')],
       sample_item 6 2 ''other'' [(''ordinal'', DInt 1)],
       \<lparr>sr_id = 7, sr_cells = [(''title'', DText ''n''), (''name'', DText ''3'')] @ parent_cells sample_items 1 @ [(''ordinal'', DInt 1)]\<rparr>],
     tb_next := 8\<rparr>"

theorem collection_saved_exactly_witness:
  "list_all2 (holds_row sample_items_env sample_items) sample_item_rows (ordered_children sample_items 1 sample_items_saved)
    \<and> map sr_id (ordered_children sample_items 1 sample_items_saved) = [7, 5]
    \<and> filter (\<lambda>r. \<not> child_of sample_items 1 r) (tb_rows sample_items_saved) = [sample_item 6 2 ''other'' [(''ordinal'', DInt 1)]]"
proof -
  have run: "collection_row_inputs sample_order_layout ''items'' sample_submitted (\<not> False) = Inr sample_item_rows
      \<and> save_collection_rows sample_items_env sample_items 1 sample_item_rows False (3, sample_items_db) = Inr (4, sample_items_saved)
      \<and> reads_back sample_items_env sample_items sample_items_db" by code_simp
  have table: "keyed_table sample_items_db \<and> own_columns (cn_layout sample_items)" by code_simp
  note done' = collection_saved_exactly [OF conjunct1 [OF run] conjunct1 [OF conjunct2 [OF run]] conjunct1 [OF table]
      conjunct2 [OF conjunct2 [OF run]] conjunct2 [OF table]]
  have "filter (\<lambda>r. \<not> child_of sample_items 1 r) (tb_rows sample_items_db) = [sample_item 6 2 ''other'' [(''ordinal'', DInt 1)]]
      \<and> map sr_id (ordered_children sample_items 1 sample_items_saved) = [7, 5]" by code_simp
  then show ?thesis using done' by simp
qed

end
