(* ===== verification/Patch_File.thy ===== *)
theory Patch_File
  imports Access_Policy Names "HOL-Library.AList"
begin

text \<open>
  Patch files (\<^verbatim>\<open>internal/patches\<close>): the operations an app may author, the decoder of one document
  from its YAML nodes and the discovery of the patches of ordered apps.  Reading a directory and
  hashing a file are done by the caller: an app comes with the names, nodes and checksums of its
  files.  An error is the message template of the source with its arguments.
\<close>

section \<open>Operations\<close>

record operation_spec =
  os_required :: "string list"
  os_optional :: "string list"

definition operation_specs :: "(string \<times> operation_spec) list" where
  "operation_specs =
     [(''system-record-upsert'', \<lparr>os_required = [''type'', ''entity'', ''reason'', ''match'', ''values''], os_optional = []\<rparr>),
      (''system-record-delete'', \<lparr>os_required = [''type'', ''entity'', ''reason'', ''id''], os_optional = []\<rparr>),
      (''system-record-update'', \<lparr>os_required = [''type'', ''entity'', ''reason'', ''id'', ''values''], os_optional = []\<rparr>),
      (''system-record-create'', \<lparr>os_required = [''type'', ''entity'', ''reason'', ''values''], os_optional = []\<rparr>),
      (''rename-field'', \<lparr>os_required = [''type'', ''entity'', ''from'', ''to''], os_optional = []\<rparr>),
      (''rename-entity'', \<lparr>os_required = [''type'', ''from'', ''to''], os_optional = []\<rparr>),
      (''copy-field'', \<lparr>os_required = [''type'', ''entity'', ''from'', ''to''], os_optional = [''when'']\<rparr>),
      (''backfill-field'', \<lparr>os_required = [''type'', ''entity'', ''field'', ''value''], os_optional = [''when'']\<rparr>),
      (''drop-field'', \<lparr>os_required = [''type'', ''entity'', ''field''], os_optional = []\<rparr>),
      (''change-field-type'', \<lparr>os_required = [''type'', ''entity'', ''field'', ''to'', ''using''], os_optional = []\<rparr>),
      (''sql'', \<lparr>os_required = [''type'', ''name'', ''reason'', ''statement''], os_optional = []\<rparr>)]"

definition operation_spec_for :: "string \<Rightarrow> operation_spec option" where
  "operation_spec_for t = map_of operation_specs t"

definition supported_operation_types :: "string list" where
  "supported_operation_types = sort (map fst operation_specs)"

definition allowed_fields :: "operation_spec \<Rightarrow> string list" where
  "allowed_fields s = sort (os_required s @ os_optional s)"

definition is_system_record_operation :: "string \<Rightarrow> bool" where
  "is_system_record_operation k \<longleftrightarrow>
     k \<in> {''system-record-create'', ''system-record-update'', ''system-record-delete'', ''system-record-upsert''}"

section \<open>Documents\<close>

text \<open>The fields of an operation are a map; of two equal keys the last counts.\<close>

record patch_operation =
  po_type :: string
  po_fields :: "(string \<times> node) list"

record patch =
  pa_kind :: string
  pa_version :: int
  pa_id :: string
  pa_phase :: string
  pa_run_on :: string
  pa_description :: string
  pa_operations :: "patch_operation list"

definition patch_string :: "node \<Rightarrow> string \<Rightarrow> message + string" where
  "patch_string n name = (case n of Scalar t v \<Rightarrow> Inr v | _ \<Rightarrow> Inl (''patch %s must be a scalar string'', [name]))"

text \<open>\<open>decode_int\<close> is the integer decoder of the YAML library.\<close>

definition patch_int :: "(string \<Rightarrow> int option) \<Rightarrow> node \<Rightarrow> string \<Rightarrow> message + int" where
  "patch_int decode_int n name =
     (case n of Scalar t v \<Rightarrow>
          if t \<noteq> ''!!int'' then Inl (''patch %s must be an integer'', [name])
          else (case decode_int v of None \<Rightarrow> Inl (''decode patch %s'', [name]) | Some i \<Rightarrow> Inr i)
      | _ \<Rightarrow> Inl (''patch %s must be an integer'', [name]))"

definition operation_field :: "patch_operation \<Rightarrow> node \<times> node \<Rightarrow> message + patch_operation" where
  "operation_field op p =
     (let op' = op\<lparr>po_fields := AList.update (node_text (fst p)) (snd p) (po_fields op)\<rparr> in
      if node_text (fst p) = ''type''
      then bindR (patch_string (snd p) ''operation type'') (\<lambda>t. Inr (op'\<lparr>po_type := t\<rparr>)) else Inr op')"

definition decode_operation :: "nat \<times> node \<Rightarrow> message + patch_operation" where
  "decode_operation x =
     (case snd x of MappingNode ps \<Rightarrow>
        bindR (foldR operation_field \<lparr>po_type = [], po_fields = []\<rparr> ps) (\<lambda>op.
          if blank (po_type op) then Inl (''patch operation at index %d type is required'', [show_nat (fst x)])
          else if operation_spec_for (po_type op) = None
          then Inl (''patch operation at index %d has unknown type %q'', [show_nat (fst x), po_type op])
          else Inr op)
      | _ \<Rightarrow> Inl (''patch operation at index %d must be a mapping'', [show_nat (fst x)]))"

definition decode_operations :: "node \<Rightarrow> message + patch_operation list" where
  "decode_operations n =
     (case n of Sequence items \<Rightarrow> mapR decode_operation (enumerate 0 items)
      | _ \<Rightarrow> Inl (''patch operations must be a sequence'', []))"

definition patch_field :: "(string \<Rightarrow> int option) \<Rightarrow> patch \<Rightarrow> node \<times> node \<Rightarrow> message + patch" where
  "patch_field decode_int p kv =
     (let k = node_text (fst kv); v = snd kv in
      if k = ''kind'' then bindR (patch_string v k) (\<lambda>s. Inr (p\<lparr>pa_kind := s\<rparr>))
      else if k = ''version'' then bindR (patch_int decode_int v k) (\<lambda>i. Inr (p\<lparr>pa_version := i\<rparr>))
      else if k = ''id'' then bindR (patch_string v k) (\<lambda>s. Inr (p\<lparr>pa_id := s\<rparr>))
      else if k = ''phase'' then bindR (patch_string v k) (\<lambda>s. Inr (p\<lparr>pa_phase := s\<rparr>))
      else if k = ''run-on'' then bindR (patch_string v k) (\<lambda>s. Inr (p\<lparr>pa_run_on := s\<rparr>))
      else if k = ''description'' then bindR (patch_string v k) (\<lambda>s. Inr (p\<lparr>pa_description := s\<rparr>))
      else if k = ''operations'' then bindR (decode_operations v) (\<lambda>ops. Inr (p\<lparr>pa_operations := ops\<rparr>))
      else Inl (''unknown patch field %q'', [k]))"

definition first_problem :: "(bool \<times> message) list \<Rightarrow> message + unit" where
  "first_problem ps = foldR (\<lambda>_ (bad, m). guardR (\<not> bad) m) () ps"

definition validate_patch :: "patch \<Rightarrow> string list \<Rightarrow> message + unit" where
  "validate_patch p seen =
     first_problem
       ([(''kind'' \<notin> set seen \<or> blank (pa_kind p), (''patch kind is required'', [])),
         (pa_kind p \<noteq> ''patch'', (''patch kind must be %q'', [''patch''])),
         (''version'' \<notin> set seen, (''patch version is required'', [])),
         (pa_version p \<noteq> 1, (''patch version must be %d'', [''1''])),
         (''id'' \<notin> set seen \<or> blank (pa_id p), (''patch id is required'', [])),
         (''phase'' \<notin> set seen \<or> blank (pa_phase p), (''patch phase is required'', [])),
         (pa_phase p \<noteq> ''pre-sync'' \<and> pa_phase p \<noteq> ''post-sync'', (''patch phase must be %q or %q'', [''pre-sync'', ''post-sync''])),
         (pa_run_on p \<noteq> ''migrate'' \<and> pa_run_on p \<noteq> ''install'' \<and> pa_run_on p \<noteq> ''both'',
           (''patch run-on must be %q, %q, or %q'', [''migrate'', ''install'', ''both''])),
         (pa_run_on p \<noteq> ''migrate'' \<and> pa_phase p \<noteq> ''post-sync'', (''patch run-on %q requires post-sync phase'', [pa_run_on p])),
         (''description'' \<notin> set seen \<or> blank (pa_description p), (''patch description is required'', [])),
         (''operations'' \<notin> set seen \<or> pa_operations p = [], (''patch operations are required'', []))]
        @ map (\<lambda>op. (is_system_record_operation (po_type op) \<and> pa_phase p \<noteq> ''post-sync'', (''%s requires post-sync phase'', [po_type op])))
            (pa_operations p))"

text \<open>A document is its nodes; \<open>NoNode\<close> and an empty null scalar are an empty file.\<close>

definition empty_document :: "node \<Rightarrow> bool" where
  "empty_document n \<longleftrightarrow> n = NoNode \<or> n = Scalar ''!!null'' []"

definition decode_patch :: "(string \<Rightarrow> int option) \<Rightarrow> node list \<Rightarrow> message + patch" where
  "decode_patch decode_int docs =
     (case docs of [] \<Rightarrow> Inl (''patch file is empty'', [])
      | root # more_docs \<Rightarrow>
          if empty_document root then Inl (''patch file is empty'', [])
          else if more_docs \<noteq> [] \<and> \<not> empty_document (hd more_docs) then Inl (''patch file must contain a single document'', [])
          else (case duplicate_key root of Some k \<Rightarrow> Inl (''duplicate patch key %q'', [k])
            | None \<Rightarrow> (case value_mapping root of None \<Rightarrow> Inl (''patch document must be a mapping'', [])
              | Some ps \<Rightarrow>
                  if ps = [] then Inl (''patch document must be a non-empty mapping'', [])
                  else bindR (foldR (patch_field decode_int)
                      \<lparr>pa_kind = [], pa_version = 0, pa_id = [], pa_phase = [], pa_run_on = ''migrate'', pa_description = [], pa_operations = []\<rparr> ps)
                    (\<lambda>p. bindR (validate_patch p (map (\<lambda>kv. node_text (fst kv)) ps)) (\<lambda>_. Inr p)))))"

section \<open>Discovery\<close>

record loaded_patch =
  lp_app :: string
  lp_path :: string
  lp_relative :: string
  lp_checksum :: string
  lp_patch :: patch

text \<open>An app with its directory, the path of its patches in it and what the directory holds.\<close>

record patch_file =
  pf_name :: string
  pf_directory :: bool
  pf_documents :: "node list"
  pf_checksum :: string

record patch_app =
  ap_name :: string
  ap_dir :: string
  ap_patches :: string
  ap_files :: "patch_file list"

definition file_extension :: "string \<Rightarrow> string" where
  "file_extension name = (if CHR ''.'' \<in> set name then CHR ''.'' # rev (takeWhile (\<lambda>c. c \<noteq> CHR ''.'') (rev name)) else [])"

definition file_stem :: "string \<Rightarrow> string" where
  "file_stem name = take (length name - length (file_extension name)) name"

definition is_patch_filename :: "string \<Rightarrow> bool" where
  "is_patch_filename name \<longleftrightarrow> file_extension name = ''.yml'' \<or> file_extension name = ''.yaml''"

definition load_patch_file :: "(string \<Rightarrow> int option) \<Rightarrow> patch_file \<Rightarrow> message + patch" where
  "load_patch_file decode_int f =
     bindR (decode_patch decode_int (pf_documents f)) (\<lambda>p.
       if pa_id p \<noteq> file_stem (pf_name f) then Inl (''patch id %q must match file name %q'', [pa_id p, file_stem (pf_name f)]) else Inr p)"

definition discover_file :: "(string \<Rightarrow> int option) \<Rightarrow> patch_app \<Rightarrow> loaded_patch list \<Rightarrow> patch_file \<Rightarrow> message + loaded_patch list" where
  "discover_file decode_int app found f =
     (if pf_directory f \<or> \<not> is_patch_filename (pf_name f) then Inr found
      else bindR (load_patch_file decode_int f) (\<lambda>p.
        if list_ex (\<lambda>q. lp_app q = ap_name app \<and> pa_id (lp_patch q) = pa_id p) found
        then Inl (''duplicate patch id %q for app %q'', [pa_id p, ap_name app])
        else Inr (found @ [\<lparr>lp_app = ap_name app, lp_path = path_join [ap_dir app, ap_patches app, pf_name f],
          lp_relative = path_join [ap_patches app, pf_name f], lp_checksum = pf_checksum f, lp_patch = p\<rparr>])))"

text \<open>The apps come in dependency order.\<close>

definition discover_patches :: "(string \<Rightarrow> int option) \<Rightarrow> patch_app list \<Rightarrow> message + loaded_patch list" where
  "discover_patches decode_int apps =
     foldR (\<lambda>found app. foldR (discover_file decode_int app) found (sort_key pf_name (ap_files app))) [] apps"

section \<open>Guarantees\<close>

lemma first_problem_iff: "first_problem ps = Inr () \<longleftrightarrow> list_all (\<lambda>(bad, m). \<not> bad) ps"
  by (induction ps) (auto simp: first_problem_def split: sum.splits prod.splits)

lemma decode_patch_valid:
  assumes "decode_patch decode_int docs = Inr p"
  shows "pa_kind p = ''patch'' \<and> pa_version p = 1 \<and> \<not> blank (pa_id p) \<and> pa_phase p \<in> {''pre-sync'', ''post-sync''}
    \<and> pa_run_on p \<in> {''migrate'', ''install'', ''both''} \<and> (pa_run_on p \<noteq> ''migrate'' \<longrightarrow> pa_phase p = ''post-sync'')
    \<and> pa_operations p \<noteq> [] \<and> list_all (\<lambda>op. is_system_record_operation (po_type op) \<longrightarrow> pa_phase p = ''post-sync'') (pa_operations p)"
proof -
  obtain seen where v: "validate_patch p seen = Inr ()"
    using assms by (auto simp: decode_patch_def bindR_Inr_iff split: list.splits if_splits option.splits)
  have "list_all (\<lambda>(bad, m). \<not> bad) ps \<Longrightarrow> list_all (\<lambda>b. \<not> b) (map fst ps)" for ps :: "(bool \<times> message) list"
    by (simp add: list_all_iff case_prod_beta)
  from this [OF v [unfolded validate_patch_def first_problem_iff]] show ?thesis by (auto simp: list_all_iff)
qed

lemma discover_step:
  assumes "discover_file decode_int app found f = Inr found'" "distinct (map (\<lambda>q. (lp_app q, pa_id (lp_patch q))) found)"
  shows "distinct (map (\<lambda>q. (lp_app q, pa_id (lp_patch q))) found')"
proof (cases "pf_directory f \<or> \<not> is_patch_filename (pf_name f)")
  case True
  then show ?thesis using assms by (simp add: discover_file_def)
next
  case False
  then obtain p where p: "\<not> list_ex (\<lambda>q. lp_app q = ap_name app \<and> pa_id (lp_patch q) = pa_id p) found"
    "found' = found @ [\<lparr>lp_app = ap_name app, lp_path = path_join [ap_dir app, ap_patches app, pf_name f],
      lp_relative = path_join [ap_patches app, pf_name f], lp_checksum = pf_checksum f, lp_patch = p\<rparr>]"
    using assms(1) by (auto simp: discover_file_def bindR_Inr_iff split: if_splits)
  from p(1) have "(ap_name app, pa_id p) \<notin> set (map (\<lambda>q. (lp_app q, pa_id (lp_patch q))) found)" by (auto simp: list_ex_iff)
  then show ?thesis using assms(2) by (simp add: p(2))
qed

lemma discovered_distinct:
  assumes "discover_patches decode_int apps = Inr found"
  shows "distinct (map (\<lambda>q. (lp_app q, pa_id (lp_patch q))) found)"
proof (rule foldR_keeps [OF assms [unfolded discover_patches_def]])
  fix s app t
  assume d: "distinct (map (\<lambda>q. (lp_app q, pa_id (lp_patch q))) s)"
    and step: "foldR (discover_file decode_int app) s (sort_key pf_name (ap_files app)) = Inr t"
  show "distinct (map (\<lambda>q. (lp_app q, pa_id (lp_patch q))) t)"
    using discover_step by (rule foldR_keeps [where P = "\<lambda>found. distinct (map (\<lambda>q. (lp_app q, pa_id (lp_patch q))) found)", OF step d])
qed simp

end
