(* ===== verification/Patch_Sql.thy ===== *)
theory Patch_Sql
  imports Go_Strings
begin

text \<open>
  The check of the raw SQL of a patch (\<^verbatim>\<open>validatePatchSQL\<close> in \<^verbatim>\<open>internal/db/patch_plan.go\<close>):
  literals and comments are blanked, the rest is cut into words, and words of transaction control or
  of database administration are refused.  A byte outside ASCII counts as part of a word.
\<close>

section \<open>Literals and comments\<close>

text \<open>What follows the closing quote of a literal; a doubled quote does not close it.\<close>

fun skip_quoted :: "char \<Rightarrow> string \<Rightarrow> string" where
  "skip_quoted q [] = []"
| "skip_quoted q [c] = []"
| "skip_quoted q (c # d # s) = (if c = q then (if d = q then skip_quoted q s else d # s) else skip_quoted q (d # s))"

text \<open>What follows a block comment; the last character of a comment that is never closed is not skipped.\<close>

fun skip_block :: "string \<Rightarrow> string" where
  "skip_block [] = []"
| "skip_block [c] = [c]"
| "skip_block (c # d # s) = (if c = CHR ''*'' \<and> d = CHR ''/'' then s else skip_block (d # s))"

definition dollar_tag_char :: "char \<Rightarrow> bool" where
  "dollar_tag_char c \<longleftrightarrow> c = CHR ''_'' \<or> (CHR ''a'' \<le> c \<and> c \<le> CHR ''z'') \<or> (CHR ''A'' \<le> c \<and> c \<le> CHR ''Z'') \<or> is_digit c"

text \<open>The text is what follows a dollar sign.\<close>

definition skip_dollar :: "string \<Rightarrow> string option" where
  "skip_dollar s =
     (let tag = takeWhile dollar_tag_char s in
      case dropWhile dollar_tag_char s of
        [] \<Rightarrow> None
      | c # body \<Rightarrow> if c = CHR ''$'' then map_option snd (find_sub (CHR ''$'' # tag @ [CHR ''$'']) body) else None)"

lemma skip_quoted_length: "length (skip_quoted q s) \<le> length s"
  by (induction q s rule: skip_quoted.induct) auto

lemma skip_block_length: "length (skip_block s) \<le> length s"
  by (induction s rule: skip_block.induct) auto

lemma find_sub_length: "find_sub sub s = Some (a, b) \<Longrightarrow> length b \<le> length s"
  by (induction s arbitrary: a) (auto split: if_splits)

lemma skip_dollar_length: "skip_dollar s = Some r \<Longrightarrow> length r \<le> length s"
proof -
  assume "skip_dollar s = Some r"
  then obtain c body a where "dropWhile dollar_tag_char s = c # body" "find_sub (CHR ''$'' # takeWhile dollar_tag_char s @ [CHR ''$'']) body = Some (a, r)"
    by (auto simp: skip_dollar_def Let_def split: list.splits if_splits)
  then show ?thesis using find_sub_length length_dropWhile_le [of dollar_tag_char s] by fastforce
qed

function strip_sql :: "string \<Rightarrow> string" where
  "strip_sql [] = []"
| "strip_sql (c # s) =
     (if c = CHR 0x27 \<or> c = CHR 0x22 then CHR '' '' # strip_sql (skip_quoted c s)
      else if c = CHR ''-'' \<and> has_prefix s ''-'' then CHR 0x0A # strip_sql (dropWhile (\<lambda>d. d \<noteq> CHR 0x0A) s)
      else if c = CHR ''/'' \<and> has_prefix s ''*'' then CHR '' '' # strip_sql (skip_block (tl s))
      else if c = CHR ''$'' then (case skip_dollar s of Some r \<Rightarrow> CHR '' '' # strip_sql r | None \<Rightarrow> c # strip_sql s)
      else c # strip_sql s)"
  by pat_completeness auto
termination
proof (relation "measure length")
  fix c :: char and s :: string
  show "(skip_block (tl s), c # s) \<in> measure length" using skip_block_length [of "tl s"] by simp
  show "(skip_quoted c s, c # s) \<in> measure length" using skip_quoted_length [of c s] by (simp add: le_imp_less_Suc)
  show "(dropWhile (\<lambda>d. d \<noteq> CHR 0x0A) s, c # s) \<in> measure length" by (simp add: le_imp_less_Suc length_dropWhile_le)
  fix r assume "skip_dollar s = Some r"
  then show "(r, c # s) \<in> measure length" using skip_dollar_length by (simp add: le_imp_less_Suc)
qed simp_all

section \<open>Words\<close>

definition word_char :: "char \<Rightarrow> bool" where
  "word_char c \<longleftrightarrow> (CHR ''a'' \<le> c \<and> c \<le> CHR ''z'') \<or> (CHR ''A'' \<le> c \<and> c \<le> CHR ''Z'') \<or> of_char c \<ge> (128 :: nat)"

fun words_acc :: "string \<Rightarrow> string \<Rightarrow> string list" where
  "words_acc cur [] = (if cur = [] then [] else [cur])"
| "words_acc cur (c # s) =
     (if word_char c then words_acc (cur @ [c]) s else if cur = [] then words_acc [] s else cur # words_acc [] s)"

definition sql_tokens :: "string \<Rightarrow> string list" where
  "sql_tokens statement = map to_upper_ascii (words_acc [] (strip_sql statement))"

definition token_at :: "string list \<Rightarrow> nat \<Rightarrow> string" where
  "token_at ts i = (if i < length ts then ts ! i else [])"

section \<open>The check\<close>

definition transaction_words :: "string list" where
  "transaction_words = [''BEGIN'', ''COMMIT'', ''ROLLBACK'', ''END'']"

definition control_pairs :: "(string \<times> string) list" where
  "control_pairs = [(''START'', ''TRANSACTION''), (''CREATE'', ''DATABASE''), (''DROP'', ''DATABASE''), (''ALTER'', ''SYSTEM'')]"

definition token_error :: "string list \<Rightarrow> nat \<Rightarrow> (string \<times> string) option" where
  "token_error ts i =
     (let t = token_at ts i in
      if t \<in> set transaction_words then Some (''sql operation cannot use transaction control %q'', t)
      else (case map_of control_pairs t of None \<Rightarrow> None
        | Some n \<Rightarrow> if token_at ts (i + 1) \<noteq> n then None
            else Some (if t = ''START'' then ''sql operation cannot use transaction control %q''
              else ''sql operation cannot use database-level operation %q'', t @ '' '' @ n)))"

definition validate_patch_sql :: "string \<Rightarrow> (string \<times> string) option" where
  "validate_patch_sql statement =
     (let ts = sql_tokens statement in
      case List.map_filter (token_error ts) [0..<length ts] of [] \<Rightarrow> None | e # _ \<Rightarrow> Some e)"

section \<open>What the check admits\<close>

text \<open>An accepted statement has no word of transaction control outside literals and comments.\<close>

lemma accepted_tokens:
  assumes "validate_patch_sql statement = None" "t \<in> set (sql_tokens statement)"
  shows "t \<notin> set transaction_words"
proof -
  obtain i where i: "i < length (sql_tokens statement)" "sql_tokens statement ! i = t" using assms(2) by (auto simp: in_set_conv_nth)
  have "List.map_filter (token_error (sql_tokens statement)) [0..<length (sql_tokens statement)] = []"
    using assms(1) by (auto simp: validate_patch_sql_def Let_def split: list.splits)
  then have "token_error (sql_tokens statement) i = None"
    using i(1) by (cases "token_error (sql_tokens statement) i") (auto simp: List.map_filter_def filter_empty_conv)
  then show ?thesis using i by (auto simp: token_error_def Let_def token_at_def split: if_splits)
qed

text \<open>A plain CASE expression is refused, because it closes with END.\<close>

lemma case_expression_refused:
  "validate_patch_sql ''UPDATE t SET a = CASE WHEN b THEN 1 END'' = Some (''sql operation cannot use transaction control %q'', ''END'')"
  by code_simp

text \<open>So is a column whose name contains such a word.\<close>

lemma column_name_refused: "validate_patch_sql ''UPDATE t SET a = week_end'' \<noteq> None"
  by code_simp

text \<open>In an escape string of PostgreSQL a backslash escapes the quote; the check takes it for the
  closing one and everything after it for a literal, so what follows is not checked.\<close>

definition escape_bypass :: string where
  "escape_bypass = ''SELECT E'' @ [CHR 0x27, CHR 0x5C, CHR 0x27, CHR 0x27] @ ''; COMMIT; SELECT '' @ [CHR 0x27, CHR 0x27]"

lemma escape_string_unchecked: "validate_patch_sql escape_bypass = None"
  by code_simp

end
