(* ===== verification/Patch_Plan.thy ===== *)
theory Patch_Plan
  imports Patch_File Patch_Sql Schema_Diff Go_Decode Complex_Main "HOL-Library.AList"
begin

text \<open>
  The plan of the operations of pending patches (\<^verbatim>\<open>internal/db/patch_plan.go\<close>,
  \<^verbatim>\<open>patch_system_record.go\<close>): each operation is checked against the loaded Entities and against
  the schema as the operations before it leave it, and becomes a statement or a structured Record input.
\<close>

section \<open>Reading an operation\<close>

record system_record_input =
  sr_entity :: string
  sr_reason :: string
  sr_record :: int
  sr_values :: "(string \<times> string) list option"
  sr_match :: "(string \<times> string) list option"

record planned_operation =
  pl_app :: string
  pl_patch :: string
  pl_phase :: string
  pl_path :: string
  pl_relative :: string
  pl_checksum :: string
  pl_index :: nat
  pl_type :: string
  pl_table :: string
  pl_column :: string
  pl_name :: string
  pl_description :: string
  pl_source :: string
  pl_sql :: string
  pl_record :: "system_record_input option"

record operation_reader =
  or_patch :: loaded_patch
  or_index :: nat
  or_operation :: patch_operation

definition reader_source :: "operation_reader \<Rightarrow> string" where
  "reader_source r =
     (let p = or_patch r; path = (if lp_relative p \<noteq> [] then lp_relative p else if lp_path p \<noteq> [] then lp_path p else pa_id (lp_patch p))
      in ''patch '' @ lp_app p @ ''/'' @ pa_id (lp_patch p) @ '' operation '' @ show_nat (or_index r) @ '' at '' @ path)"

definition base_operation :: "operation_reader \<Rightarrow> string \<Rightarrow> string \<Rightarrow> string \<Rightarrow> string \<Rightarrow> string \<Rightarrow> planned_operation" where
  "base_operation r table column name description sql =
     (let p = or_patch r in
      \<lparr>pl_app = lp_app p, pl_patch = pa_id (lp_patch p), pl_phase = pa_phase (lp_patch p), pl_path = lp_path p, pl_relative = lp_relative p,
       pl_checksum = lp_checksum p, pl_index = or_index r, pl_type = po_type (or_operation r), pl_table = table, pl_column = column,
       pl_name = name, pl_description = description, pl_source = reader_source r, pl_sql = sql, pl_record = None\<rparr>)"

definition reader_field :: "operation_reader \<Rightarrow> string \<Rightarrow> node option" where
  "reader_field r n = map_of (po_fields (or_operation r)) n"

definition require_fields :: "operation_reader \<Rightarrow> string list \<Rightarrow> message + unit" where
  "require_fields r allowed =
     foldR (\<lambda>_ n. guardR (n \<in> set allowed) (''unknown field %q for %s operation'', [n, po_type (or_operation r)])) ()
       (sort (dedup (map fst (po_fields (or_operation r)))))"

definition require_operation_fields :: "operation_reader \<Rightarrow> message + unit" where
  "require_operation_fields r =
     (case operation_spec_for (po_type (or_operation r)) of
        None \<Rightarrow> Inl (''unsupported patch operation type %q'', [po_type (or_operation r)])
      | Some s \<Rightarrow> require_fields r (allowed_fields s))"

definition required_statement :: "operation_reader \<Rightarrow> string \<Rightarrow> message + string" where
  "required_statement r n =
     (case reader_field r n of None \<Rightarrow> Inl (''%s is required'', [n])
      | Some (Scalar t v) \<Rightarrow> if blank v then Inl (''%s is required'', [n]) else Inr v
      | Some _ \<Rightarrow> Inl (''%s must be a scalar string'', [n]))"

definition required_string :: "operation_reader \<Rightarrow> string \<Rightarrow> message + string" where
  "required_string r n = bindR (required_statement r n) (\<lambda>v. Inr (trim_space v))"

definition required_scalar_sql :: "operation_reader \<Rightarrow> string \<Rightarrow> message + string" where
  "required_scalar_sql r n =
     (case reader_field r n of None \<Rightarrow> Inl (''%s is required'', [n]) | Some v \<Rightarrow> wrapR (\<lambda>_. (''%s: %w'', [n])) (scalar_sql v))"

definition when_entry :: "string \<Rightarrow> node \<times> node \<Rightarrow> message + unit" where
  "when_entry n kv =
     (case fst kv of Scalar _ k \<Rightarrow>
          if k \<noteq> n then Inl (''unknown when field %q'', [k])
          else (case snd kv of Scalar t v \<Rightarrow>
              if t \<noteq> ''!!bool'' then Inl (''when.%s must be a boolean'', [n])
              else (case parse_bool v of None \<Rightarrow> Inl (''when.%s must be a boolean'', [n])
                | Some b \<Rightarrow> guardR b (''when.%s must be true when set'', [n]))
            | _ \<Rightarrow> Inl (''when.%s must be a boolean'', [n]))
      | _ \<Rightarrow> Inl (''when keys must be scalar'', []))"

definition when_bool :: "operation_reader \<Rightarrow> string \<Rightarrow> message + bool" where
  "when_bool r n =
     (case reader_field r ''when'' of None \<Rightarrow> Inr False
      | Some (MappingNode ps) \<Rightarrow>
          if ps = [] then Inl (''when must not be empty'', []) else bindR (foldR (\<lambda>_. when_entry n) () ps) (\<lambda>_. Inr True)
      | Some _ \<Rightarrow> Inl (''when must be a mapping'', []))"

section \<open>The schema so far\<close>

definition require_live_table :: "live_schema \<Rightarrow> string \<Rightarrow> message + live_table" where
  "require_live_table live t = (case map_of live t of None \<Rightarrow> Inl (''table %s does not exist'', [t]) | Some l \<Rightarrow> Inr l)"

definition require_live_column :: "live_schema \<Rightarrow> string \<Rightarrow> string \<Rightarrow> message + live_column" where
  "require_live_column live t c =
     bindR (require_live_table live t) (\<lambda>l. case map_of (lt_columns l) c of
       None \<Rightarrow> Inl (''column %s.%s does not exist'', [t, c]) | Some x \<Rightarrow> Inr x)"

definition live_column_exists :: "live_schema \<Rightarrow> string \<Rightarrow> string \<Rightarrow> bool" where
  "live_column_exists live t c \<longleftrightarrow> (case map_of live t of None \<Rightarrow> False | Some l \<Rightarrow> map_of (lt_columns l) c \<noteq> None)"

definition update_live_table :: "string \<Rightarrow> (live_table \<Rightarrow> live_table) \<Rightarrow> live_schema \<Rightarrow> live_schema" where
  "update_live_table t f live = (case map_of live t of None \<Rightarrow> live | Some l \<Rightarrow> AList.update t (f l) live)"

definition rename_column_in :: "string \<Rightarrow> string \<Rightarrow> live_table \<Rightarrow> live_table" where
  "rename_column_in a b l =
     (case map_of (lt_columns l) a of None \<Rightarrow> l
      | Some c \<Rightarrow> l\<lparr>lt_columns := AList.update b c (AList.delete a (lt_columns l))\<rparr>)"

definition rename_live_column :: "string \<Rightarrow> string \<Rightarrow> string \<Rightarrow> live_schema \<Rightarrow> live_schema" where
  "rename_live_column t a b = update_live_table t (rename_column_in a b)"

definition rename_live_table :: "string \<Rightarrow> string \<Rightarrow> live_schema \<Rightarrow> live_schema" where
  "rename_live_table a b live =
     (case map_of live a of None \<Rightarrow> live | Some l \<Rightarrow> AList.update b l (AList.delete a live))"

definition drop_live_column :: "string \<Rightarrow> string \<Rightarrow> live_schema \<Rightarrow> live_schema" where
  "drop_live_column t c = update_live_table t (\<lambda>l. l\<lparr>lt_columns := AList.delete c (lt_columns l)\<rparr>)"

definition change_live_column_type :: "string \<Rightarrow> string \<Rightarrow> string \<Rightarrow> live_schema \<Rightarrow> live_schema" where
  "change_live_column_type t c ty =
     update_live_table t (\<lambda>l. case map_of (lt_columns l) c of None \<Rightarrow> l
       | Some x \<Rightarrow> l\<lparr>lt_columns := AList.update c (x\<lparr>lc_type := ty\<rparr>) (lt_columns l)\<rparr>)"

section \<open>Entities and fields\<close>

definition planner_entity :: "loaded_entity list \<Rightarrow> string \<Rightarrow> string \<Rightarrow> message + loaded_entity" where
  "planner_entity es app name =
     (case find (\<lambda>e. le_key e = catalog_key app name) es of None \<Rightarrow> Inl (''entity %s/%s is not loaded'', [app, name]) | Some e \<Rightarrow> Inr e)"

definition patch_table :: "loaded_entity \<Rightarrow> message + string" where
  "patch_table e = wrapR (\<lambda>_. (''entity name is required'', [])) (table_name e)"

definition storage_fault :: "loaded_entity \<Rightarrow> string \<Rightarrow> message" where
  "storage_fault e f = (''field %s/%s.%s has unsupported storage: %w'', [le_app e, en_name (le_entity e), f])"

definition metadata_field_column :: "loaded_entity \<Rightarrow> string \<Rightarrow> message + string \<times> field" where
  "metadata_field_column e n =
     (case catalog_field e n of None \<Rightarrow> Inl (''field %s/%s.%s is not loaded'', [le_app e, en_name (le_entity e), n])
      | Some f \<Rightarrow> bindR (wrapR (\<lambda>_. storage_fault e n) (column_for_field f)) (\<lambda>c. Inr (c, f)))"

definition infer_live_field_column :: "live_schema \<Rightarrow> string \<Rightarrow> string \<Rightarrow> message + string" where
  "infer_live_field_column live t n =
     bindR (require_live_table live t) (\<lambda>l.
       let base = storage_name n; found = filter (\<lambda>c. map_of (lt_columns l) c \<noteq> None) [base, base @ ''_id'', base @ ''_hash'']
       in case found of
         [] \<Rightarrow> Inl (''field %q is not in metadata and no matching live column exists on %s'', [n, t])
       | [c] \<Rightarrow> Inr c
       | _ \<Rightarrow> Inl (''field %q is not in metadata and live column inference is ambiguous on %s: %s'', [n, t, join '', '' found]))"

definition patch_field_column :: "live_schema \<Rightarrow> loaded_entity \<Rightarrow> string \<Rightarrow> string \<Rightarrow> message + string" where
  "patch_field_column live e t n =
     (case catalog_field e n of Some f \<Rightarrow> wrapR (\<lambda>_. storage_fault e n) (column_for_field f) | None \<Rightarrow> infer_live_field_column live t n)"

section \<open>Planning one operation\<close>

text \<open>A planned operation and the schema it leaves behind.\<close>

type_synonym plan_result = "message + planned_operation \<times> live_schema"

definition plan_rename_field :: "loaded_entity list \<Rightarrow> live_schema \<Rightarrow> operation_reader \<Rightarrow> plan_result" where
  "plan_rename_field es live r =
     bindR (require_operation_fields r) (\<lambda>_. bindR (required_string r ''entity'') (\<lambda>entity.
     bindR (required_string r ''from'') (\<lambda>from'. bindR (required_string r ''to'') (\<lambda>to'.
     bindR (planner_entity es (lp_app (or_patch r)) entity) (\<lambda>e. bindR (patch_table e) (\<lambda>t.
     bindR (patch_field_column live e t from') (\<lambda>a.
       if is_system_column a then Inl (''rename-field cannot rename system column %q'', [a])
       else bindR (metadata_field_column e to') (\<lambda>(b, _). bindR (require_live_column live t a) (\<lambda>_.
         if live_column_exists live t b then Inl (''target column %s.%s already exists'', [t, b])
         else Inr (base_operation r t a b (''rename column '' @ t @ ''.'' @ a @ '' to '' @ b)
           (''ALTER TABLE '' @ quote_ident t @ '' RENAME COLUMN '' @ quote_ident a @ '' TO '' @ quote_ident b),
           rename_live_column t a b live))))))))))"

definition plan_rename_entity :: "loaded_entity list \<Rightarrow> live_schema \<Rightarrow> operation_reader \<Rightarrow> plan_result" where
  "plan_rename_entity es live r =
     bindR (require_operation_fields r) (\<lambda>_. bindR (required_string r ''from'') (\<lambda>from'. bindR (required_string r ''to'') (\<lambda>to'.
     bindR (planner_entity es (lp_app (or_patch r)) to') (\<lambda>e. bindR (patch_table e) (\<lambda>b.
       let a = entity_table_name (lp_app (or_patch r)) from' in
       bindR (require_live_table live a) (\<lambda>_.
         if map_of live b \<noteq> None then Inl (''target table %s already exists'', [b])
         else Inr (base_operation r a [] b (''rename table '' @ a @ '' to '' @ b)
           (''ALTER TABLE '' @ quote_ident a @ '' RENAME TO '' @ quote_ident b), rename_live_table a b live)))))))"

definition only_where_null :: "bool \<Rightarrow> string \<Rightarrow> string" where
  "only_where_null b c = (if b then '' WHERE '' @ quote_ident c @ '' IS NULL'' else [])"

definition described_null :: "bool \<Rightarrow> string \<Rightarrow> string" where
  "described_null b c = (if b then '' where '' @ c @ '' is null'' else [])"

definition plan_copy_field :: "loaded_entity list \<Rightarrow> live_schema \<Rightarrow> operation_reader \<Rightarrow> plan_result" where
  "plan_copy_field es live r =
     bindR (require_operation_fields r) (\<lambda>_. bindR (required_string r ''entity'') (\<lambda>entity.
     bindR (required_string r ''from'') (\<lambda>from'. bindR (required_string r ''to'') (\<lambda>to'. bindR (when_bool r ''to-is-null'') (\<lambda>w.
     bindR (planner_entity es (lp_app (or_patch r)) entity) (\<lambda>e. bindR (patch_table e) (\<lambda>t.
     bindR (patch_field_column live e t from') (\<lambda>a. bindR (metadata_field_column e to') (\<lambda>(b, _).
     bindR (require_live_column live t a) (\<lambda>_. bindR (require_live_column live t b) (\<lambda>_.
       Inr (base_operation r t b a (''copy column '' @ t @ ''.'' @ a @ '' to '' @ b @ described_null w b)
         (''UPDATE '' @ quote_ident t @ '' SET '' @ quote_ident b @ '' = '' @ quote_ident a @ only_where_null w b), live))))))))))))"

definition plan_backfill_field :: "loaded_entity list \<Rightarrow> live_schema \<Rightarrow> operation_reader \<Rightarrow> plan_result" where
  "plan_backfill_field es live r =
     bindR (require_operation_fields r) (\<lambda>_. bindR (required_string r ''entity'') (\<lambda>entity.
     bindR (required_string r ''field'') (\<lambda>n. bindR (required_scalar_sql r ''value'') (\<lambda>v. bindR (when_bool r ''field-is-null'') (\<lambda>w.
     bindR (planner_entity es (lp_app (or_patch r)) entity) (\<lambda>e. bindR (patch_table e) (\<lambda>t.
     bindR (metadata_field_column e n) (\<lambda>(c, _). bindR (require_live_column live t c) (\<lambda>_.
       Inr (base_operation r t c [] (''backfill column '' @ t @ ''.'' @ c @ described_null w c)
         (''UPDATE '' @ quote_ident t @ '' SET '' @ quote_ident c @ '' = '' @ v @ only_where_null w c), live))))))))))"

definition plan_drop_field :: "loaded_entity list \<Rightarrow> live_schema \<Rightarrow> operation_reader \<Rightarrow> plan_result" where
  "plan_drop_field es live r =
     bindR (require_operation_fields r) (\<lambda>_. bindR (required_string r ''entity'') (\<lambda>entity. bindR (required_string r ''field'') (\<lambda>n.
     bindR (planner_entity es (lp_app (or_patch r)) entity) (\<lambda>e. bindR (patch_table e) (\<lambda>t. bindR (patch_field_column live e t n) (\<lambda>c.
       if is_system_column c then Inl (''drop-field cannot drop system column %q'', [c])
       else bindR (require_live_column live t c) (\<lambda>_.
         Inr (base_operation r t c [] (''drop column '' @ t @ ''.'' @ c)
           (''ALTER TABLE '' @ quote_ident t @ '' DROP COLUMN '' @ quote_ident c), drop_live_column t c live))))))))"

definition plan_change_field_type :: "loaded_entity list \<Rightarrow> live_schema \<Rightarrow> operation_reader \<Rightarrow> plan_result" where
  "plan_change_field_type es live r =
     bindR (require_operation_fields r) (\<lambda>_. bindR (required_string r ''entity'') (\<lambda>entity. bindR (required_string r ''field'') (\<lambda>n.
     bindR (required_string r ''to'') (\<lambda>ty. bindR (required_string r ''using'') (\<lambda>using'.
     bindR (planner_entity es (lp_app (or_patch r)) entity) (\<lambda>e. bindR (patch_table e) (\<lambda>t. bindR (metadata_field_column e n) (\<lambda>(c, f).
       if fd_type f \<noteq> ty then Inl (''field %q metadata type is %q, patch requested %q'', [n, fd_type f, ty])
       else bindR (wrapR (\<lambda>_. (''%w'', [])) (column_type (new_target_index es) e f)) (\<lambda>sql. bindR (require_live_column live t c) (\<lambda>_.
         Inr (base_operation r t c ty (''change type of '' @ t @ ''.'' @ c @ '' to '' @ sql)
           (''ALTER TABLE '' @ quote_ident t @ '' ALTER COLUMN '' @ quote_ident c @ '' TYPE '' @ sql @ '' USING '' @ using'),
           change_live_column_type t c sql live)))))))))))"

definition plan_sql :: "live_schema \<Rightarrow> operation_reader \<Rightarrow> plan_result" where
  "plan_sql live r =
     bindR (require_operation_fields r) (\<lambda>_. bindR (required_string r ''name'') (\<lambda>n. bindR (required_string r ''reason'') (\<lambda>_.
     bindR (required_statement r ''statement'') (\<lambda>s.
       case validate_patch_sql s of Some (m, w) \<Rightarrow> Inl (m, [w])
       | None \<Rightarrow> Inr (base_operation r [] [] n (''run SQL '' @ n) s, live)))))"

section \<open>System Records\<close>

text \<open>\<open>node_json\<close> decodes a YAML node and encodes it as JSON; \<open>rational\<close> reads a number exactly; \<open>deep\<close> is
  the structural equality of decoded values.\<close>

record patch_env =
  pv_json :: "node \<Rightarrow> string option"
  pv_rational :: "string \<Rightarrow> rat option"
  pv_deep :: "json \<Rightarrow> json \<Rightarrow> bool"

definition system_match_equal :: "patch_env \<Rightarrow> json \<Rightarrow> json \<Rightarrow> bool" where
  "system_match_equal pv l r =
     (case l of JNumber a \<Rightarrow> (case r of JNumber b \<Rightarrow>
          (case (pv_rational pv a, pv_rational pv b) of (Some x, Some y) \<Rightarrow> x = y | _ \<Rightarrow> False) | _ \<Rightarrow> False)
      | _ \<Rightarrow> pv_deep pv l r)"

definition merge_match :: "patch_env \<Rightarrow> (string \<times> string) list \<Rightarrow> (string \<times> string) list \<Rightarrow> message + (string \<times> string) list" where
  "merge_match pv m input =
     foldR (\<lambda>merged (n, raw).
       case unmarshal raw of None \<Rightarrow> Inl (''system Record match values must be valid and non-null'', [n])
       | Some v \<Rightarrow>
           if v = JNull then Inl (''system Record match values must be valid and non-null'', [n])
           else if (case map_of merged n of None \<Rightarrow> False
             | Some provided \<Rightarrow> (case unmarshal provided of None \<Rightarrow> True | Some w \<Rightarrow> \<not> system_match_equal pv v w))
           then Inl (''system Record values conflict with match'', [n])
           else Inr (AList.update n raw merged)) input m"

definition record_field_input :: "patch_env \<Rightarrow> operation_reader \<Rightarrow> string \<Rightarrow> message + (string \<times> string) list" where
  "record_field_input pv r n =
     (case reader_field r n of Some (MappingNode ps) \<Rightarrow>
          foldR (\<lambda>input (k, v). case k of
              Scalar t key \<Rightarrow>
                if t \<noteq> ''!!str'' then Inl (''%s keys must be Field names'', [n])
                else (case pv_json pv v of None \<Rightarrow> Inl (''invalid %s field %q'', [n, key]) | Some raw \<Rightarrow> Inr (AList.update key raw input))
            | _ \<Rightarrow> Inl (''%s keys must be Field names'', [n])) [] ps
      | _ \<Rightarrow> Inl (''%s must be a mapping'', [n]))"

definition record_part :: "patch_env \<Rightarrow> operation_reader \<Rightarrow> system_record_input \<Rightarrow> string \<Rightarrow> message + system_record_input" where
  "record_part pv r rec n =
     (if n = ''id'' then bindR (required_string r n) (\<lambda>v. case parse_int64 v of
          None \<Rightarrow> Inl (''id must be a positive Record ID'', [])
        | Some i \<Rightarrow> if i \<le> 0 then Inl (''id must be a positive Record ID'', []) else Inr (rec\<lparr>sr_record := i\<rparr>))
      else if n = ''values'' then bindR (record_field_input pv r n) (\<lambda>input. Inr (rec\<lparr>sr_values := Some input\<rparr>))
      else if n = ''match'' then bindR (record_field_input pv r n) (\<lambda>input.
        if input = [] then Inl (''match must not be empty'', []) else Inr (rec\<lparr>sr_match := Some input\<rparr>))
      else Inr rec)"

text \<open>The metadata a match is checked against is the authored Entity.\<close>

definition authored_meta :: "loaded_entity \<Rightarrow> meta_entity" where
  "authored_meta e =
     \<lparr>me_app = [], me_key = [], me_name = en_name (le_entity e),
      me_fields = map (\<lambda>f. \<lparr>mf_name = fd_name f, mf_type = fd_type f, mf_unique = fd_unique f, mf_stored = False,
          mf_write_only = False, mf_value_kind = [], mf_link = None\<rparr>) (en_fields (le_entity e)),
      me_constraints = map (\<lambda>c. \<lparr>mc_type = cn_type c, mc_fields = Some (cn_fields c)\<rparr>) (en_constraints (le_entity e))\<rparr>"

definition shown_names :: "string \<Rightarrow> (string \<times> string) list option \<Rightarrow> string" where
  "shown_names what input =
     (case input of None \<Rightarrow> [] | Some m \<Rightarrow> ''; '' @ what @ '' ['' @ join '', '' (sort (map fst m)) @ ''] (redacted)'')"

definition plan_system_record :: "patch_env \<Rightarrow> loaded_entity list \<Rightarrow> live_schema \<Rightarrow> operation_reader \<Rightarrow> plan_result" where
  "plan_system_record pv es live r =
     (let ty = po_type (or_operation r) in
      if pa_phase (lp_patch (or_patch r)) \<noteq> ''post-sync'' then Inl (''%s requires post-sync phase'', [ty])
      else bindR (require_operation_fields r) (\<lambda>_. bindR (required_string r ''entity'') (\<lambda>entity.
        bindR (planner_entity es (lp_app (or_patch r)) entity) (\<lambda>e.
          if blank (lp_app (or_patch r)) \<or> \<not> en_is_system (le_entity e)
          then Inl (''system Record operation requires an App-owned system Entity'', [])
          else bindR (required_string r ''reason'') (\<lambda>reason.
            bindR (foldR (record_part pv r) \<lparr>sr_entity = entity, sr_reason = reason, sr_record = 0, sr_values = None, sr_match = None\<rparr>
                (case operation_spec_for ty of None \<Rightarrow> [] | Some s \<Rightarrow> os_required s)) (\<lambda>rec.
            bindR (case sr_match rec of None \<Rightarrow> Inr ()
              | Some m \<Rightarrow> bindR (merge_match pv m (case sr_values rec of None \<Rightarrow> [] | Some vs \<Rightarrow> vs)) (\<lambda>_.
                  wrapR (\<lambda>_. (''match is not unique'', [])) (validate_record_match (authored_meta e) (sort (map fst m))))) (\<lambda>_.
              Inr ((base_operation r [] [] []
                  (ty @ '' '' @ lp_app (or_patch r) @ ''/'' @ entity @ '': '' @ reason
                    @ (if sr_record rec \<noteq> 0 then '' (id '' @ show_int (sr_record rec) @ '')'' else [])
                    @ shown_names ''values'' (sr_values rec) @ shown_names ''match'' (sr_match rec)) [])\<lparr>pl_record := Some rec\<rparr>, live))))))))"

section \<open>The plan\<close>

definition plan_operation :: "patch_env \<Rightarrow> loaded_entity list \<Rightarrow> live_schema \<Rightarrow> operation_reader \<Rightarrow> plan_result" where
  "plan_operation pv es live r =
     (let ty = po_type (or_operation r) in
      if is_system_record_operation ty then plan_system_record pv es live r
      else if ty = ''rename-field'' then plan_rename_field es live r
      else if ty = ''rename-entity'' then plan_rename_entity es live r
      else if ty = ''copy-field'' then plan_copy_field es live r
      else if ty = ''backfill-field'' then plan_backfill_field es live r
      else if ty = ''drop-field'' then plan_drop_field es live r
      else if ty = ''change-field-type'' then plan_change_field_type es live r
      else if ty = ''sql'' then plan_sql live r
      else Inl (''unsupported patch operation type %q'', [ty]))"

record operation_plan =
  op_operations :: "planned_operation list"
  op_schema_after :: live_schema
  op_unsimulated :: bool

definition patch_readers :: "loaded_patch \<Rightarrow> operation_reader list" where
  "patch_readers p = map (\<lambda>(i, op). \<lparr>or_patch = p, or_index = i, or_operation = op\<rparr>) (enumerate 0 (pa_operations (lp_patch p)))"

definition plan_step :: "patch_env \<Rightarrow> loaded_entity list \<Rightarrow> planned_operation list \<times> live_schema \<Rightarrow> operation_reader \<Rightarrow>
    message + planned_operation list \<times> live_schema" where
  "plan_step pv es st r =
     bindR (wrapR (\<lambda>(m, args). (''%s: '' @ m, reader_source r # args)) (plan_operation pv es (snd st) r)) (\<lambda>(op, live). Inr (fst st @ [op], live))"

definition duplicate_entity :: "loaded_entity list \<Rightarrow> loaded_entity option" where
  "duplicate_entity es = map_option snd (find (\<lambda>(i, e). le_key e \<in> set (map le_key (take i es))) (enumerate 0 es))"

definition build_operation_plan :: "patch_env \<Rightarrow> loaded_patch list \<Rightarrow> loaded_entity list \<Rightarrow> live_schema \<Rightarrow> message + operation_plan" where
  "build_operation_plan pv loaded es live =
     (case duplicate_entity es of Some e \<Rightarrow> Inl (''duplicate entity %s/%s'', [le_app e, en_name (le_entity e)])
      | None \<Rightarrow> bindR (foldR (plan_step pv es) ([], live) (concat (map patch_readers loaded))) (\<lambda>(ops, after).
          Inr \<lparr>op_operations = ops, op_schema_after = after, op_unsimulated = list_ex (\<lambda>op. pl_type op = ''sql'') ops\<rparr>))"

end
