(* ===== verification/Patch_Ledger.thy ===== *)
theory Patch_Ledger
  imports Patch_Plan
begin

text \<open>
  The patch ledger (\<^verbatim>\<open>internal/db/patch_ledger.go\<close>), the plan of one phase and its execution
  (\<^verbatim>\<open>patch_plan_runner.go\<close>) and the selection of a lifecycle command
  (\<^verbatim>\<open>patch_lifecycle.go\<close>).  A ledger row is one patch of one app that was applied or baselined.
  Executing raw SQL and writing a system Record are parameters that act on the whole database.
\<close>

section \<open>The ledger\<close>

record patch_run =
  pr_app :: string
  pr_patch :: string
  pr_path :: string
  pr_phase :: string
  pr_checksum :: string
  pr_applied_at :: "int option"
  pr_version :: string
  pr_outcome :: string

datatype patch_error =
    PatchFault message
  | PatchMismatch string string string string
  | PatchAlreadyApplied string string
  | PatchNotFound string string
  | PatchWrapped message patch_error

text \<open>The database: the ledger rows in the order they were written, the names of the stored App Records
  and everything else.\<close>

record 'd patch_db =
  pd_runs :: "patch_run list"
  pd_apps :: "string list"
  pd_data :: 'd

definition run_key :: "patch_run \<Rightarrow> string \<times> string" where
  "run_key r = (pr_app r, pr_patch r)"

definition valid_patch_phase :: "string \<Rightarrow> bool" where
  "valid_patch_phase phase \<longleftrightarrow> phase = ''pre-sync'' \<or> phase = ''post-sync''"

definition validate_patch_run :: "patch_run \<Rightarrow> message + unit" where
  "validate_patch_run r =
     first_problem
       [(pr_outcome r \<noteq> [] \<and> pr_outcome r \<noteq> ''applied'' \<and> pr_outcome r \<noteq> ''baselined'',
           (''patch run outcome must be %q or %q'', [''applied'', ''baselined''])),
        (blank (pr_app r), (''patch run app is required'', [])),
        (blank (pr_patch r), (''patch run id is required'', [])),
        (blank (pr_path r), (''patch run path is required'', [])),
        (\<not> valid_patch_phase (pr_phase r), (''patch run phase must be %q or %q'', [''pre-sync'', ''post-sync''])),
        (blank (pr_checksum r), (''patch run checksum is required'', []))]"

definition get_patch_run :: "'d patch_db \<Rightarrow> string \<Rightarrow> string \<Rightarrow> patch_run option" where
  "get_patch_run db app p = find (\<lambda>r. run_key r = (app, p)) (pd_runs db)"

text \<open>The row a run is stored as: the time defaults to now, a blank version is not written and an applied
  outcome is the default of the column.\<close>

definition stored_run :: "int \<Rightarrow> patch_run \<Rightarrow> patch_run" where
  "stored_run now r = r\<lparr>pr_applied_at := Some (case pr_applied_at r of None \<Rightarrow> now | Some t \<Rightarrow> t),
     pr_version := (if blank (pr_version r) then [] else pr_version r),
     pr_outcome := (if pr_outcome r = ''baselined'' then ''baselined'' else ''applied'')\<rparr>"

definition record_patch_run :: "int \<Rightarrow> patch_run \<Rightarrow> 'd patch_db \<Rightarrow> patch_error + 'd patch_db" where
  "record_patch_run now r db =
     (case validate_patch_run r of Inl m \<Rightarrow> Inl (PatchFault m)
      | Inr _ \<Rightarrow> (case get_patch_run db (pr_app r) (pr_patch r) of
          Some old \<Rightarrow> if pr_checksum old \<noteq> pr_checksum r
            then Inl (PatchMismatch (pr_app r) (pr_patch r) (pr_checksum old) (pr_checksum r))
            else Inl (PatchAlreadyApplied (pr_app r) (pr_patch r))
        | None \<Rightarrow>
            if pr_app r \<notin> set (pd_apps db)
            then Inl (PatchWrapped (''record patch run %s/%s: %w'', [pr_app r, pr_patch r]) (PatchNotFound ''app'' (pr_app r)))
            else Inr (db\<lparr>pd_runs := pd_runs db @ [stored_run now r]\<rparr>)))"

section \<open>The plan of a phase\<close>

record planned_patch =
  pp_app :: string
  pp_id :: string
  pp_phase :: string
  pp_path :: string
  pp_relative :: string
  pp_checksum :: string
  pp_description :: string
  pp_operations :: "planned_operation list"

record patch_plan =
  pn_phase :: string
  pn_baseline :: "planned_patch list"
  pn_pending :: "planned_patch list"
  pn_applied :: "(planned_patch \<times> patch_run) list"
  pn_schema_after :: live_schema
  pn_unsimulated :: bool

definition planned_from_loaded :: "loaded_patch \<Rightarrow> planned_patch" where
  "planned_from_loaded p =
     \<lparr>pp_app = lp_app p, pp_id = pa_id (lp_patch p), pp_phase = pa_phase (lp_patch p), pp_path = lp_path p,
      pp_relative = lp_relative p, pp_checksum = lp_checksum p, pp_description = pa_description (lp_patch p), pp_operations = []\<rparr>"

definition loaded_key :: "loaded_patch \<Rightarrow> string \<times> string" where
  "loaded_key p = (lp_app p, pa_id (lp_patch p))"

definition planned_key :: "planned_patch \<Rightarrow> string \<times> string" where
  "planned_key p = (pp_app p, pp_id p)"

text \<open>Of two runs with one key the last counts.\<close>

definition run_of :: "patch_run list \<Rightarrow> string \<times> string \<Rightarrow> patch_run option" where
  "run_of runs k = map_of (rev (map (\<lambda>r. (run_key r, r)) runs)) k"

definition mismatch_error :: "loaded_patch \<Rightarrow> patch_run \<Rightarrow> patch_error" where
  "mismatch_error p r = PatchMismatch (lp_app p) (pa_id (lp_patch p)) (pr_checksum r) (lp_checksum p)"

definition split_patch :: "patch_run list \<Rightarrow> string \<Rightarrow> loaded_patch list \<times> (planned_patch \<times> patch_run) list \<Rightarrow> loaded_patch \<Rightarrow>
    patch_error + loaded_patch list \<times> (planned_patch \<times> patch_run) list" where
  "split_patch runs phase st p =
     (if pa_phase (lp_patch p) \<noteq> phase then Inr st
      else (case run_of runs (loaded_key p) of
          Some r \<Rightarrow> if pr_checksum r \<noteq> lp_checksum p then Inl (mismatch_error p r) else Inr (fst st, snd st @ [(planned_from_loaded p, r)])
        | None \<Rightarrow> Inr (fst st @ [p], snd st)))"

definition split_patches :: "patch_run list \<Rightarrow> string \<Rightarrow> loaded_patch list \<Rightarrow> patch_error + loaded_patch list \<times> (planned_patch \<times> patch_run) list" where
  "split_patches runs phase loaded = foldR (split_patch runs phase) ([], []) loaded"

text \<open>An operation goes to the last pending patch of its key.\<close>

fun update_last :: "('a \<Rightarrow> bool) \<Rightarrow> ('a \<Rightarrow> 'a) \<Rightarrow> 'a list \<Rightarrow> 'a list option" where
  "update_last P f [] = None"
| "update_last P f (x # xs) = (case update_last P f xs of Some ys \<Rightarrow> Some (x # ys) | None \<Rightarrow> if P x then Some (f x # xs) else None)"

definition attach_operation :: "planned_patch list \<Rightarrow> planned_operation \<Rightarrow> patch_error + planned_patch list" where
  "attach_operation ps op =
     (case update_last (\<lambda>p. planned_key p = (pl_app op, pl_patch op)) (\<lambda>p. p\<lparr>pp_operations := pp_operations p @ [op]\<rparr>) ps of
        None \<Rightarrow> Inl (PatchFault (''planned operation references unknown pending patch %s/%s'', [pl_app op, pl_patch op]))
      | Some qs \<Rightarrow> Inr qs)"

definition build_patch_plan :: "patch_env \<Rightarrow> loaded_patch list \<Rightarrow> loaded_entity list \<Rightarrow> live_schema \<Rightarrow> patch_run list \<Rightarrow> string \<Rightarrow>
    patch_error + patch_plan" where
  "build_patch_plan pv loaded es live runs phase =
     (if \<not> valid_patch_phase phase then Inl (PatchFault (''patch phase must be %q or %q'', [''pre-sync'', ''post-sync'']))
      else bindR (split_patches runs phase loaded) (\<lambda>(pending, applied).
        let plan = \<lparr>pn_phase = phase, pn_baseline = [], pn_pending = map planned_from_loaded pending, pn_applied = applied,
          pn_schema_after = live, pn_unsimulated = False\<rparr>
        in if pending = [] then Inr plan
           else (case build_operation_plan pv pending es live of Inl m \<Rightarrow> Inl (PatchFault m)
             | Inr ops \<Rightarrow> bindR (foldR attach_operation (pn_pending plan) (op_operations ops)) (\<lambda>ps.
                 Inr (plan\<lparr>pn_schema_after := op_schema_after ops, pn_unsimulated := op_unsimulated ops, pn_pending := ps\<rparr>)))))"

section \<open>The path in the ledger\<close>

definition path_comps :: "string \<Rightarrow> string list" where
  "path_comps s = filter (\<lambda>c. c \<noteq> []) (split_on (CHR ''/'') s)"

fun strip_common :: "string list \<Rightarrow> string list \<Rightarrow> string list \<times> string list" where
  "strip_common (b # bs) (t # ts) = (if b = t then strip_common bs ts else (b # bs, t # ts))"
| "strip_common bs ts = (bs, ts)"

text \<open>Go's \<^verbatim>\<open>filepath.Rel\<close> for an absolute target.\<close>

definition path_rel :: "string \<Rightarrow> string \<Rightarrow> string option" where
  "path_rel base target =
     (let b = path_clean base; t = path_clean target in
      if b = t then Some ''.''
      else if \<not> path_is_abs b then None
      else (case strip_common (path_comps b) (path_comps t) of
          (bs, ts) \<Rightarrow> Some (join ''/'' (replicate (length bs) ''..'' @ ts))))"

definition patch_ledger_path :: "string \<Rightarrow> planned_patch \<Rightarrow> message + string" where
  "patch_ledger_path project p =
     (let path = trim_space (pp_path p); project' = trim_space project in
      if path = [] then
        (if \<not> blank (pp_relative p) then Inr (path_clean (pp_relative p)) else Inl (''patch %s/%s path is required'', [pp_app p, pp_id p]))
      else if \<not> path_is_abs path then Inr (path_clean path)
      else if project' = [] then Inl (''project root is required to record patch %s/%s path'', [pp_app p, pp_id p])
      else (case path_rel project' path of
          None \<Rightarrow> Inl (''make patch %s/%s path relative to project root: %w'', [pp_app p, pp_id p])
        | Some rel \<Rightarrow>
            if rel = ''.'' \<or> rel = ''..'' \<or> has_prefix rel ''../'' \<or> path_is_abs rel
            then Inl (''patch %s/%s path is outside project root'', [pp_app p, pp_id p]) else Inr rel))"

section \<open>Execution\<close>

datatype system_write =
    SystemCreate string string string "(string \<times> string) list option"
  | SystemUpdate string string string int "(string \<times> string) list option"
  | SystemDelete string string string int
  | SystemUpsert string string string "(string \<times> string) list option" "(string \<times> string) list option"

record 'd patch_exec =
  px_sql :: "string \<Rightarrow> 'd patch_db \<Rightarrow> message + 'd patch_db"
  px_write :: "system_write \<Rightarrow> 'd patch_db \<Rightarrow> message + 'd patch_db"
  px_begin :: "planned_patch \<Rightarrow> bool"
  px_commit :: "planned_patch \<Rightarrow> bool"

definition system_write_of :: "string \<Rightarrow> string \<Rightarrow> system_record_input \<Rightarrow> system_write option" where
  "system_write_of ty app r =
     (let e = sr_entity r; why = sr_reason r in
      if ty = ''system-record-create'' then Some (SystemCreate app why e (sr_values r))
      else if ty = ''system-record-update'' then Some (SystemUpdate app why e (sr_record r) (sr_values r))
      else if ty = ''system-record-delete'' then Some (SystemDelete app why e (sr_record r))
      else if ty = ''system-record-upsert'' then Some (SystemUpsert app why e (sr_match r) (sr_values r))
      else None)"

definition execute_operation :: "'d patch_exec \<Rightarrow> planned_patch \<Rightarrow> 'd patch_db \<Rightarrow> planned_operation \<Rightarrow> message + 'd patch_db" where
  "execute_operation px p db op =
     (case pl_record op of
        None \<Rightarrow> if is_system_record_operation (pl_type op) then Inl (''system Record operation is missing its structured input'', [])
          else px_sql px (pl_sql op) db
      | Some r \<Rightarrow> if pp_phase p \<noteq> ''post-sync'' then Inl (''system Record operations require post-sync phase'', [])
          else (case system_write_of (pl_type op) (pp_app p) r of
              None \<Rightarrow> Inl (''unsupported structured Record operation %q'', [pl_type op])
            | Some w \<Rightarrow> px_write px w db))"

definition execute_operations :: "'d patch_exec \<Rightarrow> (planned_operation \<Rightarrow> message) \<Rightarrow> planned_patch \<Rightarrow> 'd patch_db \<Rightarrow> patch_error + 'd patch_db" where
  "execute_operations px shown p db =
     foldR (\<lambda>db op. case execute_operation px p db op of Inr db' \<Rightarrow> Inr db'
       | Inl m \<Rightarrow> Inl (PatchWrapped (shown op) (PatchFault m)))
       db (pp_operations p)"

definition run_for :: "int \<Rightarrow> string \<Rightarrow> string \<Rightarrow> planned_patch \<Rightarrow> string \<Rightarrow> patch_run" where
  "run_for now version outcome p path =
     \<lparr>pr_app = pp_app p, pr_patch = pp_id p, pr_path = path, pr_phase = pp_phase p, pr_checksum = pp_checksum p,
      pr_applied_at = Some now, pr_version = version, pr_outcome = outcome\<rparr>"

definition faultR :: "message + 'a \<Rightarrow> patch_error + 'a" where
  "faultR r = (case r of Inl m \<Rightarrow> Inl (PatchFault m) | Inr a \<Rightarrow> Inr a)"

text \<open>One transaction: whatever fails rolls back, so the caller keeps the database it had.\<close>

definition apply_one_patch :: "'d patch_exec \<Rightarrow> int \<Rightarrow> string \<Rightarrow> string \<Rightarrow> 'd patch_db \<Rightarrow> planned_patch \<Rightarrow> patch_error + patch_run \<times> 'd patch_db" where
  "apply_one_patch px now project version db p =
     (if \<not> px_begin px p then Inl (PatchFault (''begin patch %s/%s transaction: %w'', [pp_app p, pp_id p]))
      else bindR (execute_operations px (\<lambda>op. (''apply patch %s/%s operation %d %s: %w'', [pp_app p, pp_id p, show_nat (pl_index op), pl_type op])) p db) (\<lambda>db1.
        bindR (faultR (patch_ledger_path project p)) (\<lambda>path.
        let r = run_for now version [] p path in
        (case record_patch_run now r db1 of
            Inl e \<Rightarrow> Inl (PatchWrapped (''record patch %s/%s: %w'', [pp_app p, pp_id p]) e)
          | Inr db2 \<Rightarrow> if px_commit px p then Inr (r, db2) else Inl (PatchFault (''commit patch %s/%s: %w'', [pp_app p, pp_id p]))))))"

fun apply_pending :: "'d patch_exec \<Rightarrow> int \<Rightarrow> string \<Rightarrow> string \<Rightarrow> 'd patch_db \<Rightarrow> planned_patch list \<Rightarrow>
    patch_run list \<times> 'd patch_db \<times> patch_error option" where
  "apply_pending px now project version db [] = ([], db, None)"
| "apply_pending px now project version db (p # ps) =
     (case apply_one_patch px now project version db p of
        Inl e \<Rightarrow> ([], db, Some e)
      | Inr (r, db') \<Rightarrow> (case apply_pending px now project version db' ps of (rs, res) \<Rightarrow> (r # rs, res)))"

definition apply_patch_plan :: "'d patch_exec \<Rightarrow> int \<Rightarrow> string \<Rightarrow> string \<Rightarrow> 'd patch_db \<Rightarrow> patch_plan \<Rightarrow>
    patch_run list \<times> 'd patch_db \<times> patch_error option" where
  "apply_patch_plan px now project version db plan = apply_pending px now project version db (pn_pending plan)"

text \<open>The same work inside the transaction of the caller, which rolls back on an error.  The two lists of
  the result are the applied and the baselined runs.\<close>

definition apply_in_tx :: "'d patch_exec \<Rightarrow> int \<Rightarrow> string \<Rightarrow> string \<Rightarrow> string \<Rightarrow> patch_run list \<times> 'd patch_db \<Rightarrow> planned_patch \<Rightarrow>
    patch_error + patch_run list \<times> 'd patch_db" where
  "apply_in_tx px now project version outcome st p =
     bindR (if outcome = ''applied'' then execute_operations px (\<lambda>op. (''apply patch %s/%s: %w'', [pp_app p, pp_id p])) p (snd st) else Inr (snd st)) (\<lambda>db1.
       bindR (faultR (patch_ledger_path project p)) (\<lambda>path.
       let r = run_for now version outcome p path in
       bindR (record_patch_run now r db1) (\<lambda>db2. Inr (fst st @ [r], db2))))"

definition apply_patch_plan_tx :: "'d patch_exec \<Rightarrow> int \<Rightarrow> string \<Rightarrow> string \<Rightarrow> 'd patch_db \<Rightarrow> patch_plan \<Rightarrow>
    patch_error + patch_run list \<times> patch_run list \<times> 'd patch_db" where
  "apply_patch_plan_tx px now project version db plan =
     bindR (foldR (apply_in_tx px now project version ''applied'') ([], db) (pn_pending plan)) (\<lambda>(applied, db1).
       bindR (foldR (apply_in_tx px now project version ''baselined'') ([], db1) (pn_baseline plan)) (\<lambda>(baselined, db2).
         Inr (applied, baselined, db2)))"

section \<open>Lifecycle selection\<close>

definition run_mode :: "loaded_patch \<Rightarrow> string" where
  "run_mode p = (if pa_run_on (lp_patch p) = [] then ''migrate'' else pa_run_on (lp_patch p))"

definition select_patch :: "patch_run list \<Rightarrow> string \<Rightarrow> (string \<Rightarrow> bool) \<Rightarrow> loaded_patch list \<times> planned_patch list \<Rightarrow> loaded_patch \<Rightarrow>
    patch_error + loaded_patch list \<times> planned_patch list" where
  "select_patch runs phase installing st p =
     (if pa_phase (lp_patch p) \<noteq> phase then Inr st
      else (case run_of runs (loaded_key p) of
          Some r \<Rightarrow> if pr_checksum r \<noteq> lp_checksum p then Inl (mismatch_error p r) else Inr (fst st @ [p], snd st)
        | None \<Rightarrow>
            if installing (lp_app p) \<and> run_mode p = ''migrate'' then Inr (fst st, snd st @ [planned_from_loaded p])
            else if \<not> installing (lp_app p) \<and> run_mode p = ''install'' then Inr st
            else Inr (fst st @ [p], snd st)))"

definition build_lifecycle_plan :: "patch_env \<Rightarrow> loaded_patch list \<Rightarrow> loaded_entity list \<Rightarrow> live_schema \<Rightarrow> patch_run list \<Rightarrow> string \<Rightarrow>
    (string \<Rightarrow> bool) \<Rightarrow> patch_error + patch_plan" where
  "build_lifecycle_plan pv loaded es live runs phase installing =
     bindR (foldR (select_patch runs phase installing) ([], []) loaded) (\<lambda>(selected, baseline).
       bindR (build_patch_plan pv selected es live runs phase) (\<lambda>plan. Inr (plan\<lparr>pn_baseline := baseline\<rparr>)))"

text \<open>The columns expected after the schema sync.\<close>

definition synced_column :: "desired_column \<Rightarrow> live_column" where
  "synced_column c = \<lparr>lc_type = dc_type c, lc_nullable = (\<not> dc_required c), lc_has_default = dc_safe_default c, lc_default = dc_default c\<rparr>"

definition sync_live_table :: "live_schema \<Rightarrow> desired_table \<Rightarrow> live_schema" where
  "sync_live_table live t =
     (let l = (case map_of live (dt_name t) of Some l \<Rightarrow> l
        | None \<Rightarrow> \<lparr>lt_row_state_known = False, lt_has_rows = False, lt_columns = [], lt_indexes = [], lt_constraints = []\<rparr>)
      in AList.update (dt_name t) (l\<lparr>lt_columns := foldl (\<lambda>cs c. AList.update (dc_name c) (synced_column c) cs) (lt_columns l)
           (dt_system_columns t @ dt_columns t)\<rparr>) live)"

definition schema_after_sync :: "desired_table list \<Rightarrow> live_schema \<Rightarrow> live_schema" where
  "schema_after_sync desired live = foldl sync_live_table live desired"

end
