(* ===== verification/Patch_Guarantees.thy ===== *)
theory Patch_Guarantees
  imports Patch_Ledger Schema_Sync
begin

text \<open>
  What the patch planner and its runner guarantee.  The planned statements are run on a model of
  PostgreSQL that knows tables and columns and refuses what PostgreSQL refuses: each is accepted, and
  they end in the schema the plan announces.  A ledger shows each patch once, a changed file is never
  replayed, and an interrupted run resumes where it stopped.
\<close>

section \<open>A model of the statements\<close>

type_synonym pg_schema = "string \<rightharpoonup> string \<rightharpoonup> live_column"

datatype pg_statement =
    PgRenameColumn string string string
  | PgRenameTable string string
  | PgCopyColumn string string string bool
  | PgSetColumn string string string bool
  | PgDropColumn string string
  | PgAlterType string string string string

fun render_statement :: "pg_statement \<Rightarrow> string" where
  "render_statement (PgRenameColumn t a b) = ''ALTER TABLE '' @ quote_ident t @ '' RENAME COLUMN '' @ quote_ident a @ '' TO '' @ quote_ident b"
| "render_statement (PgRenameTable a b) = ''ALTER TABLE '' @ quote_ident a @ '' RENAME TO '' @ quote_ident b"
| "render_statement (PgCopyColumn t c a w) =
     ''UPDATE '' @ quote_ident t @ '' SET '' @ quote_ident c @ '' = '' @ quote_ident a @ only_where_null w c"
| "render_statement (PgSetColumn t c v w) =
     ''UPDATE '' @ quote_ident t @ '' SET '' @ quote_ident c @ '' = '' @ v @ only_where_null w c"
| "render_statement (PgDropColumn t c) = ''ALTER TABLE '' @ quote_ident t @ '' DROP COLUMN '' @ quote_ident c"
| "render_statement (PgAlterType t c ty e) =
     ''ALTER TABLE '' @ quote_ident t @ '' ALTER COLUMN '' @ quote_ident c @ '' TYPE '' @ ty @ '' USING '' @ e"

text \<open>A statement on a missing table or column, or a rename onto an existing one, is refused.\<close>

fun pg_step :: "pg_statement \<Rightarrow> pg_schema \<Rightarrow> pg_schema option" where
  "pg_step (PgRenameColumn t a b) s =
     (case s t of None \<Rightarrow> None
      | Some cs \<Rightarrow> (case cs a of None \<Rightarrow> None | Some c \<Rightarrow> if cs b \<noteq> None then None else Some (s(t \<mapsto> (cs(a := None))(b \<mapsto> c)))))"
| "pg_step (PgRenameTable a b) s =
     (case s a of None \<Rightarrow> None | Some cs \<Rightarrow> if s b \<noteq> None then None else Some ((s(a := None))(b \<mapsto> cs)))"
| "pg_step (PgCopyColumn t c a w) s =
     (case s t of None \<Rightarrow> None | Some cs \<Rightarrow> if cs c = None \<or> cs a = None then None else Some s)"
| "pg_step (PgSetColumn t c v w) s =
     (case s t of None \<Rightarrow> None | Some cs \<Rightarrow> if cs c = None then None else Some s)"
| "pg_step (PgDropColumn t c) s =
     (case s t of None \<Rightarrow> None | Some cs \<Rightarrow> if cs c = None then None else Some (s(t \<mapsto> cs(c := None))))"
| "pg_step (PgAlterType t c ty e) s =
     (case s t of None \<Rightarrow> None | Some cs \<Rightarrow> (case cs c of None \<Rightarrow> None | Some x \<Rightarrow> Some (s(t \<mapsto> cs(c \<mapsto> x\<lparr>lc_type := ty\<rparr>)))))"

fun pg_run :: "pg_statement list \<Rightarrow> pg_schema \<Rightarrow> pg_schema option" where
  "pg_run [] s = Some s"
| "pg_run (st # sts) s = (case pg_step st s of None \<Rightarrow> None | Some s' \<Rightarrow> pg_run sts s')"

definition pg_columns :: "live_schema \<Rightarrow> pg_schema" where
  "pg_columns live t = map_option (\<lambda>l. map_of (lt_columns l)) (map_of live t)"

lemma pg_run_append: "pg_run (xs @ ys) s = (case pg_run xs s of None \<Rightarrow> None | Some t \<Rightarrow> pg_run ys t)"
  by (induction xs arbitrary: s) (auto split: option.splits)

section \<open>One operation\<close>

definition executes :: "planned_operation \<Rightarrow> live_schema \<Rightarrow> live_schema \<Rightarrow> bool" where
  "executes op live live' \<longleftrightarrow>
     (if pl_record op \<noteq> None then pg_columns live' = pg_columns live
      else \<exists>st. render_statement st = pl_sql op \<and> pg_step st (pg_columns live) = Some (pg_columns live'))"

lemma executesI:
  assumes "pl_record op = None" "pl_sql op = render_statement st" "pg_step st (pg_columns live) = Some (pg_columns live')"
  shows "executes op live live'"
  using assms(3) unfolding executes_def assms(1,2) by auto

lemma base_operation_parts [simp]:
  "pl_record (base_operation r t c n d q) = None" "pl_sql (base_operation r t c n d q) = q"
  "pl_type (base_operation r t c n d q) = po_type (or_operation r)"
  by (simp_all add: base_operation_def Let_def)

lemma live_column_known:
  assumes "require_live_column live t c = Inr x"
  shows "\<exists>l. map_of live t = Some l \<and> map_of (lt_columns l) c = Some x"
  using assms by (auto simp: require_live_column_def require_live_table_def bindR_Inr_iff split: option.splits)

lemma pg_columns_update:
  "map_of live t = Some l \<Longrightarrow> pg_columns (update_live_table t f live) = (pg_columns live)(t \<mapsto> map_of (lt_columns (f l)))"
  by (auto simp: pg_columns_def update_live_table_def update_conv' fun_eq_iff)

lemma pg_columns_at: "map_of live t = Some l \<Longrightarrow> pg_columns live t = Some (map_of (lt_columns l))"
  by (simp add: pg_columns_def)

lemma rename_field_executes:
  assumes "plan_rename_field es live r = Inr (op, live')"
  shows "executes op live live'"
proof -
  obtain t a b x where c: "require_live_column live t a = Inr x" "\<not> live_column_exists live t b" "live' = rename_live_column t a b live"
    and op: "pl_record op = None" "pl_sql op = render_statement (PgRenameColumn t a b)"
    using assms by (auto simp: plan_rename_field_def bindR_Inr_iff split: if_splits)
  from live_column_known [OF c(1)] obtain l where l: "map_of live t = Some l" "map_of (lt_columns l) a = Some x" by blast
  have "map_of (lt_columns l) b = None" using c(2) l by (simp add: live_column_exists_def)
  with l have "pg_step (PgRenameColumn t a b) (pg_columns live) = Some (pg_columns live')"
    by (simp add: pg_columns_at c(3) rename_live_column_def pg_columns_update rename_column_in_def update_conv' delete_conv')
  then show ?thesis by (rule executesI [OF op])
qed

lemma rename_entity_executes:
  assumes "plan_rename_entity es live r = Inr (op, live')"
  shows "executes op live live'"
proof -
  obtain a b l where c: "map_of live a = Some l" "map_of live b = None" "live' = rename_live_table a b live"
    and op: "pl_record op = None" "pl_sql op = render_statement (PgRenameTable a b)"
    using assms by (auto simp: plan_rename_entity_def require_live_table_def bindR_Inr_iff Let_def split: if_splits option.splits)
  have "pg_columns live' = ((pg_columns live)(a := None))(b \<mapsto> map_of (lt_columns l))"
    using c by (auto simp: pg_columns_def rename_live_table_def update_conv' delete_conv' fun_eq_iff)
  with c have "pg_step (PgRenameTable a b) (pg_columns live) = Some (pg_columns live')"
    by (simp add: pg_columns_def)
  then show ?thesis by (rule executesI [OF op])
qed

lemma copy_field_executes:
  assumes "plan_copy_field es live r = Inr (op, live')"
  shows "executes op live live'"
proof -
  obtain t a b w x y where c: "require_live_column live t a = Inr x" "require_live_column live t b = Inr y" "live' = live"
    and op: "pl_record op = None" "pl_sql op = ''UPDATE '' @ quote_ident t @ '' SET '' @ quote_ident b @ '' = '' @ quote_ident a @ only_where_null w b"
    using assms by (auto simp: plan_copy_field_def bindR_Inr_iff)
  from live_column_known [OF c(1)] live_column_known [OF c(2)]
  have "pg_step (PgCopyColumn t b a w) (pg_columns live) = Some (pg_columns live')" by (auto simp: pg_columns_at c(3))
  then show ?thesis by (rule executesI [OF op(1) trans [OF op(2) render_statement.simps(3) [symmetric]]])
qed

lemma backfill_field_executes:
  assumes "plan_backfill_field es live r = Inr (op, live')"
  shows "executes op live live'"
proof -
  obtain t b v w y where c: "require_live_column live t b = Inr y" "live' = live"
    and op: "pl_record op = None" "pl_sql op = ''UPDATE '' @ quote_ident t @ '' SET '' @ quote_ident b @ '' = '' @ v @ only_where_null w b"
    using assms by (auto simp: plan_backfill_field_def bindR_Inr_iff)
  from live_column_known [OF c(1)]
  have "pg_step (PgSetColumn t b v w) (pg_columns live) = Some (pg_columns live')" by (auto simp: pg_columns_at c(2))
  then show ?thesis by (rule executesI [OF op(1) trans [OF op(2) render_statement.simps(4) [symmetric]]])
qed

lemma drop_field_executes:
  assumes "plan_drop_field es live r = Inr (op, live')"
  shows "executes op live live'"
proof -
  obtain t c x where c: "require_live_column live t c = Inr x" "live' = drop_live_column t c live"
    and op: "pl_record op = None" "pl_sql op = render_statement (PgDropColumn t c)"
    using assms by (auto simp: plan_drop_field_def bindR_Inr_iff split: if_splits)
  from live_column_known [OF c(1)] obtain l where l: "map_of live t = Some l" "map_of (lt_columns l) c = Some x" by blast
  then have "pg_step (PgDropColumn t c) (pg_columns live) = Some (pg_columns live')"
    by (simp add: pg_columns_at c(2) drop_live_column_def pg_columns_update delete_conv')
  then show ?thesis by (rule executesI [OF op])
qed

lemma change_field_type_executes:
  assumes "plan_change_field_type es live r = Inr (op, live')"
  shows "executes op live live'"
proof -
  obtain t c x ty e where c: "require_live_column live t c = Inr x" "live' = change_live_column_type t c ty live"
    and op: "pl_record op = None" "pl_sql op = render_statement (PgAlterType t c ty e)"
    using assms by (auto simp: plan_change_field_type_def bindR_Inr_iff split: if_splits)
  from live_column_known [OF c(1)] obtain l where l: "map_of live t = Some l" "map_of (lt_columns l) c = Some x" by blast
  then have "pg_step (PgAlterType t c ty e) (pg_columns live) = Some (pg_columns live')"
    by (simp add: pg_columns_at c(2) change_live_column_type_def pg_columns_update update_conv')
  then show ?thesis by (rule executesI [OF op])
qed

lemma system_record_executes:
  assumes "plan_system_record pv es live r = Inr (op, live')"
  shows "executes op live live'"
  using assms by (auto simp: plan_system_record_def bindR_Inr_iff Let_def executes_def split: if_splits)

lemma planned_executes:
  assumes "plan_operation pv es live r = Inr (op, live')" "pl_type op \<noteq> ''sql''"
  shows "executes op live live'"
proof -
  have ty: "pl_type op = po_type (or_operation r)" if "plan_sql live r = Inr (op, live')"
    using that by (auto simp: plan_sql_def bindR_Inr_iff split: option.splits)
  show ?thesis using assms ty
    by (auto simp: plan_operation_def Let_def split: if_splits
        intro: system_record_executes rename_field_executes rename_entity_executes copy_field_executes
          backfill_field_executes drop_field_executes change_field_type_executes)
qed

section \<open>The operations of a plan\<close>

definition op_key :: "planned_operation \<Rightarrow> string \<times> string" where
  "op_key op = (pl_app op, pl_patch op)"

lemma base_operation_key [simp]: "op_key (base_operation r t c n d q) = loaded_key (or_patch r)"
  "op_key (op\<lparr>pl_record := x\<rparr>) = op_key op"
  by (simp_all add: base_operation_def op_key_def loaded_key_def Let_def)

lemma planned_key_of:
  assumes "plan_operation pv es live r = Inr (op, live')"
  shows "op_key op = loaded_key (or_patch r)"
proof -
  have "plan_rename_field es live r = Inr (op, live') \<Longrightarrow> ?thesis" "plan_rename_entity es live r = Inr (op, live') \<Longrightarrow> ?thesis"
    "plan_copy_field es live r = Inr (op, live') \<Longrightarrow> ?thesis" "plan_backfill_field es live r = Inr (op, live') \<Longrightarrow> ?thesis"
    "plan_drop_field es live r = Inr (op, live') \<Longrightarrow> ?thesis" "plan_change_field_type es live r = Inr (op, live') \<Longrightarrow> ?thesis"
    "plan_sql live r = Inr (op, live') \<Longrightarrow> ?thesis" "plan_system_record pv es live r = Inr (op, live') \<Longrightarrow> ?thesis"
    by (auto simp: plan_rename_field_def plan_rename_entity_def plan_copy_field_def plan_backfill_field_def plan_drop_field_def
        plan_change_field_type_def plan_sql_def plan_system_record_def bindR_Inr_iff Let_def split: if_splits option.splits)
  then show ?thesis using assms by (auto simp: plan_operation_def Let_def split: if_splits)
qed

definition without_sql :: "planned_operation list \<Rightarrow> bool" where
  "without_sql ops \<longleftrightarrow> list_all (\<lambda>op. pl_type op \<noteq> ''sql'') ops"

definition statements_of :: "planned_operation list \<Rightarrow> string list" where
  "statements_of ops = map pl_sql (filter (\<lambda>op. pl_record op = None) ops)"

lemma plan_steps_run:
  assumes "foldR (plan_step pv es) (ops0, live0) rs = Inr (ops, after)"
  shows "\<exists>new. ops = ops0 @ new \<and> map op_key new = map (\<lambda>r. loaded_key (or_patch r)) rs
    \<and> (without_sql new \<longrightarrow> (\<exists>sts. map render_statement sts = statements_of new \<and> pg_run sts (pg_columns live0) = Some (pg_columns after)))"
  using assms
proof (induction rs arbitrary: ops0 live0)
  case Nil
  then show ?case by (auto simp: statements_of_def intro: exI [of _ "[]"])
next
  case (Cons r rs)
  from Cons.prems obtain st where st: "plan_step pv es (ops0, live0) r = Inr st" "foldR (plan_step pv es) st rs = Inr (ops, after)"
    by (auto split: sum.splits)
  from st(1) obtain op live1 where op: "plan_operation pv es live0 r = Inr (op, live1)" and "st = (ops0 @ [op], live1)"
    by (auto simp: plan_step_def bindR_Inr_iff)
  with st(2) have rest: "foldR (plan_step pv es) (ops0 @ [op], live1) rs = Inr (ops, after)" by simp
  from Cons.IH [OF rest] obtain new where new: "ops = ops0 @ op # new" "map op_key new = map (\<lambda>r. loaded_key (or_patch r)) rs"
    "without_sql new \<longrightarrow> (\<exists>sts. map render_statement sts = statements_of new \<and> pg_run sts (pg_columns live1) = Some (pg_columns after))"
    by auto
  have "\<exists>sts. map render_statement sts = statements_of (op # new) \<and> pg_run sts (pg_columns live0) = Some (pg_columns after)"
    if no: "without_sql (op # new)"
  proof -
    from no new(3) obtain sts where sts: "map render_statement sts = statements_of new" "pg_run sts (pg_columns live1) = Some (pg_columns after)"
      by (auto simp: without_sql_def)
    have ex: "executes op live0 live1" by (rule planned_executes [OF op]) (use no in \<open>simp add: without_sql_def\<close>)
    show ?thesis
    proof (cases "pl_record op")
      case None
      with ex obtain st where "render_statement st = pl_sql op" "pg_step st (pg_columns live0) = Some (pg_columns live1)"
        by (auto simp: executes_def)
      with None sts show ?thesis by (intro exI [of _ "st # sts"]) (simp add: statements_of_def)
    next
      case (Some x)
      with ex sts show ?thesis by (intro exI [of _ sts]) (simp add: executes_def statements_of_def)
    qed
  qed
  moreover have "map op_key (op # new) = map (\<lambda>r. loaded_key (or_patch r)) (r # rs)" using new(2) planned_key_of [OF op] by simp
  ultimately show ?case using new(1) by blast
qed

text \<open>The operations come back from the plan grouped by patch, in order.\<close>

lemma update_last_at:
  assumes "P q" "\<forall>x\<in>set bs. \<not> P x"
  shows "update_last P f (as @ q # bs) = Some (as @ f q # bs)"
proof -
  have "update_last P f bs = None" using assms(2) by (induction bs) auto
  with assms(1) show ?thesis by (induction as) simp_all
qed

lemma attach_group:
  assumes "planned_key q \<notin> planned_key ` set bs" "\<forall>op\<in>set ops. op_key op = planned_key q"
  shows "foldR attach_operation (as @ q # bs) ops = Inr (as @ q\<lparr>pp_operations := pp_operations q @ ops\<rparr> # bs)"
  using assms
proof (induction ops arbitrary: q)
  case (Cons op ops)
  let ?q = "q\<lparr>pp_operations := pp_operations q @ [op]\<rparr>"
  have k: "(pl_app op, pl_patch op) = planned_key q" using Cons.prems(2) by (simp add: op_key_def)
  have "\<forall>x\<in>set bs. planned_key x \<noteq> planned_key q" using Cons.prems(1) by (metis image_eqI)
  then have "attach_operation (as @ q # bs) op = Inr (as @ ?q # bs)"
    unfolding attach_operation_def k by (subst update_last_at) auto
  moreover have "foldR attach_operation (as @ ?q # bs) ops = Inr (as @ ?q\<lparr>pp_operations := pp_operations ?q @ ops\<rparr> # bs)"
    by (rule Cons.IH) (use Cons.prems in \<open>auto simp: planned_key_def\<close>)
  ultimately show ?case by simp
qed simp

lemma foldR_append: "foldR f s (xs @ ys) = bindR (foldR f s xs) (\<lambda>t. foldR f t ys)"
  by (induction xs arbitrary: s) (auto split: sum.splits)

lemma attach_groups:
  assumes "distinct (map planned_key ps)" "list_all2 (\<lambda>p ops. pp_operations p = [] \<and> (\<forall>op\<in>set ops. op_key op = planned_key p)) ps groups"
  shows "foldR attach_operation (as @ ps) (concat groups) = Inr (as @ map2 (\<lambda>p ops. p\<lparr>pp_operations := ops\<rparr>) ps groups)"
  using assms
proof (induction ps arbitrary: as groups)
  case (Cons p ps)
  from Cons.prems(2) obtain g gs where g: "groups = g # gs" "pp_operations p = []" "\<forall>op\<in>set g. op_key op = planned_key p"
    and gs: "list_all2 (\<lambda>p ops. pp_operations p = [] \<and> (\<forall>op\<in>set ops. op_key op = planned_key p)) ps gs"
    by (auto simp: list_all2_Cons1)
  have "foldR attach_operation (as @ p # ps) g = Inr (as @ p\<lparr>pp_operations := g\<rparr> # ps)"
    using attach_group [of p ps g as] Cons.prems(1) g(2,3) by simp
  moreover have "foldR attach_operation ((as @ [p\<lparr>pp_operations := g\<rparr>]) @ ps) (concat gs)
      = Inr ((as @ [p\<lparr>pp_operations := g\<rparr>]) @ map2 (\<lambda>p ops. p\<lparr>pp_operations := ops\<rparr>) ps gs)"
    by (rule Cons.IH) (use Cons.prems(1) gs in auto)
  ultimately show ?case by (simp add: g(1) foldR_append)
qed simp

text \<open>A list of keyed operations splits into the groups of its patches.\<close>

lemma split_groups:
  assumes "map k xs = concat (map (\<lambda>p. replicate (n p) (h p)) ps)"
  shows "\<exists>groups. concat groups = xs \<and> list_all2 (\<lambda>p g. \<forall>x\<in>set g. k x = h p) ps groups"
  using assms
proof (induction ps arbitrary: xs)
  case (Cons p ps)
  let ?g = "take (n p) xs"
  have "map k ?g = replicate (n p) (h p)" "map k (drop (n p) xs) = concat (map (\<lambda>p. replicate (n p) (h p)) ps)"
    using Cons.prems by (simp_all flip: take_map drop_map)
  moreover from this(1) have "\<forall>x\<in>set ?g. k x = h p" by (metis in_set_replicate image_eqI set_map)
  moreover obtain gs where "concat gs = drop (n p) xs" "list_all2 (\<lambda>p g. \<forall>x\<in>set g. k x = h p) ps gs"
    using Cons.IH [OF calculation(2)] by blast
  ultimately show ?case by (intro exI [of _ "?g # gs"]) simp
qed simp

lemma reader_keys: "map (\<lambda>r. loaded_key (or_patch r)) (concat (map patch_readers ps))
    = concat (map (\<lambda>p. replicate (length (pa_operations (lp_patch p))) (loaded_key p)) ps)"
proof (induction ps)
  case (Cons p ps)
  have "map (\<lambda>r. loaded_key (or_patch r)) (patch_readers p) = replicate (length (pa_operations (lp_patch p))) (loaded_key p)"
    by (simp add: patch_readers_def comp_def case_prod_beta map_replicate_const)
  with Cons show ?case by simp
qed simp

lemma planned_from_loaded_key [simp]: "planned_key (planned_from_loaded p) = loaded_key p" "pp_operations (planned_from_loaded p) = []"
  "pp_checksum (planned_from_loaded p) = lp_checksum p" "pp_phase (planned_from_loaded p) = pa_phase (lp_patch p)"
  by (simp_all add: planned_key_def loaded_key_def planned_from_loaded_def)

section \<open>Splitting the loaded patches\<close>

definition in_phase :: "string \<Rightarrow> loaded_patch \<Rightarrow> bool" where
  "in_phase phase p \<longleftrightarrow> pa_phase (lp_patch p) = phase"

definition pending_of :: "patch_run list \<Rightarrow> string \<Rightarrow> loaded_patch list \<Rightarrow> loaded_patch list" where
  "pending_of runs phase loaded = filter (\<lambda>p. in_phase phase p \<and> run_of runs (loaded_key p) = None) loaded"

text \<open>The recorded patches of the phase have the recorded checksum.\<close>

definition unchanged :: "patch_run list \<Rightarrow> string \<Rightarrow> loaded_patch list \<Rightarrow> bool" where
  "unchanged runs phase loaded \<longleftrightarrow>
     (\<forall>p\<in>set loaded. in_phase phase p \<longrightarrow> (\<forall>r. run_of runs (loaded_key p) = Some r \<longrightarrow> pr_checksum r = lp_checksum p))"

definition applied_of :: "patch_run list \<Rightarrow> string \<Rightarrow> loaded_patch list \<Rightarrow> (planned_patch \<times> patch_run) list" where
  "applied_of runs phase loaded =
     map (\<lambda>p. (planned_from_loaded p, the (run_of runs (loaded_key p))))
       (filter (\<lambda>p. in_phase phase p \<and> run_of runs (loaded_key p) \<noteq> None) loaded)"

lemma unchanged_Cons: "unchanged runs phase (p # ps) \<longleftrightarrow>
    (in_phase phase p \<longrightarrow> (\<forall>r. run_of runs (loaded_key p) = Some r \<longrightarrow> pr_checksum r = lp_checksum p)) \<and> unchanged runs phase ps"
  by (auto simp: unchanged_def)

lemma split_from:
  "foldR (split_patch runs phase) (us, vs) loaded = Inr res \<longleftrightarrow>
    unchanged runs phase loaded \<and> res = (us @ pending_of runs phase loaded, vs @ applied_of runs phase loaded)"
proof (induction loaded arbitrary: us vs)
  case Nil
  then show ?case by (auto simp: unchanged_def pending_of_def applied_of_def)
next
  case (Cons p ps)
  show ?case
  proof (cases "in_phase phase p")
    case False
    then have "split_patch runs phase (us, vs) p = Inr (us, vs)" by (simp add: split_patch_def in_phase_def)
    with False Cons.IH show ?thesis by (simp add: unchanged_Cons pending_of_def applied_of_def)
  next
    case True
    then have step: "split_patch runs phase (us, vs) p = (case run_of runs (loaded_key p) of
        Some r \<Rightarrow> if pr_checksum r \<noteq> lp_checksum p then Inl (mismatch_error p r) else Inr (us, vs @ [(planned_from_loaded p, r)])
      | None \<Rightarrow> Inr (us @ [p], vs))"
      unfolding split_patch_def fst_conv snd_conv by (simp add: in_phase_def)
    show ?thesis
      using True by (cases "run_of runs (loaded_key p)")
        (simp_all add: step Cons.IH unchanged_Cons pending_of_def applied_of_def)
  qed
qed

lemma split_patches_iff:
  "split_patches runs phase loaded = Inr res \<longleftrightarrow>
    unchanged runs phase loaded \<and> res = (pending_of runs phase loaded, applied_of runs phase loaded)"
  by (simp add: split_patches_def split_from)

lemma attach_operation_keeps:
  assumes "attach_operation ps op = Inr qs"
  shows "map (\<lambda>p. p\<lparr>pp_operations := []\<rparr>) qs = map (\<lambda>p. p\<lparr>pp_operations := []\<rparr>) ps"
proof -
  have "update_last P (\<lambda>p. p\<lparr>pp_operations := pp_operations p @ [op]\<rparr>) ps = Some qs \<Longrightarrow> ?thesis" for P
    by (induction ps arbitrary: qs) (auto split: option.splits if_splits)
  then show ?thesis using assms by (auto simp: attach_operation_def split: option.splits)
qed

lemma planned_erased: "map (\<lambda>p. p\<lparr>pp_operations := []\<rparr>) (map planned_from_loaded ps) = map planned_from_loaded ps"
  by (simp add: planned_from_loaded_def)

lemma build_patch_plan_parts:
  assumes "build_patch_plan pv loaded es live runs phase = Inr plan"
  shows "valid_patch_phase phase" "unchanged runs phase loaded"
    "map (\<lambda>p. p\<lparr>pp_operations := []\<rparr>) (pn_pending plan) = map planned_from_loaded (pending_of runs phase loaded)"
    "pn_applied plan = applied_of runs phase loaded" "pn_baseline plan = []"
proof -
  show "valid_patch_phase phase" using assms by (auto simp: build_patch_plan_def split: if_splits)
  from assms obtain pending applied where s: "split_patches runs phase loaded = Inr (pending, applied)"
    by (auto simp: build_patch_plan_def bindR_Inr_iff split: if_splits)
  then have p: "unchanged runs phase loaded" "pending = pending_of runs phase loaded" "applied = applied_of runs phase loaded"
    by (simp_all add: split_patches_iff)
  show "unchanged runs phase loaded" by (rule p)
  have kept: "map (\<lambda>p. p\<lparr>pp_operations := []\<rparr>) qs = map planned_from_loaded pending"
    if "foldR attach_operation (map planned_from_loaded pending) ops = Inr qs" for ops qs
    using foldR_keeps [where P = "\<lambda>ps. map (\<lambda>p. p\<lparr>pp_operations := []\<rparr>) ps = map planned_from_loaded pending", OF that]
      attach_operation_keeps planned_erased by metis
  show "map (\<lambda>p. p\<lparr>pp_operations := []\<rparr>) (pn_pending plan) = map planned_from_loaded (pending_of runs phase loaded)"
    using assms s kept p(2) planned_erased [of pending]
    by (auto simp: build_patch_plan_def bindR_Inr_iff Let_def simp del: list.map map_map split: if_splits sum.splits)
  show "pn_applied plan = applied_of runs phase loaded" "pn_baseline plan = []"
    using assms s p(3) by (auto simp: build_patch_plan_def bindR_Inr_iff Let_def split: if_splits sum.splits)
qed

lemma pending_distinct: "distinct (map loaded_key loaded) \<Longrightarrow> distinct (map loaded_key (pending_of runs phase loaded))"
  by (simp add: pending_of_def distinct_map_filter)

section \<open>The planned statements run\<close>

lemma attached_operations:
  assumes "distinct (map loaded_key ps)" "map op_key ops = map (\<lambda>r. loaded_key (or_patch r)) (concat (map patch_readers ps))"
    and "foldR attach_operation (map planned_from_loaded ps) ops = Inr qs"
  shows "concat (map pp_operations qs) = ops"
proof -
  from split_groups [OF assms(2) [unfolded reader_keys]]
  obtain groups where g: "concat groups = ops" "list_all2 (\<lambda>p g. \<forall>op\<in>set g. op_key op = loaded_key p) ps groups" by blast
  then have "list_all2 (\<lambda>p g. pp_operations p = [] \<and> (\<forall>op\<in>set g. op_key op = planned_key p)) (map planned_from_loaded ps) groups"
    by (simp add: list_all2_map1)
  moreover have "distinct (map planned_key (map planned_from_loaded ps))" using assms(1) by (simp add: comp_def)
  ultimately have "foldR attach_operation ([] @ map planned_from_loaded ps) (concat groups)
      = Inr ([] @ map2 (\<lambda>p ops. p\<lparr>pp_operations := ops\<rparr>) (map planned_from_loaded ps) groups)"
    by (intro attach_groups) simp_all
  then have "qs = map2 (\<lambda>p ops. p\<lparr>pp_operations := ops\<rparr>) (map planned_from_loaded ps) groups" using assms(3) g(1) by simp
  moreover have "map pp_operations (map2 (\<lambda>p ops. p\<lparr>pp_operations := ops\<rparr>) ps' groups) = groups" if "length ps' = length groups" for ps'
    using that by (induction ps' groups rule: list_induct2) simp_all
  ultimately have "map pp_operations qs = groups" using list_all2_lengthD [OF g(2)] by (metis length_map)
  with g(1) show ?thesis by simp
qed

definition plan_statements :: "patch_plan \<Rightarrow> string list" where
  "plan_statements plan = statements_of (concat (map pp_operations (pn_pending plan)))"

lemma unsimulated_iff: "\<not> list_ex (\<lambda>op. pl_type op = ''sql'') ops \<longleftrightarrow> without_sql ops"
  by (simp add: without_sql_def list_ex_iff list_all_iff)

lemma operation_plan_run:
  assumes "build_operation_plan pv ps es live = Inr ops" "\<not> op_unsimulated ops"
  shows "map op_key (op_operations ops) = map (\<lambda>r. loaded_key (or_patch r)) (concat (map patch_readers ps))"
    "\<exists>sts. map render_statement sts = statements_of (op_operations ops) \<and> pg_run sts (pg_columns live) = Some (pg_columns (op_schema_after ops))"
proof -
  from assms(1) obtain f: "foldR (plan_step pv es) ([], live) (concat (map patch_readers ps)) = Inr (op_operations ops, op_schema_after ops)"
    and u: "op_unsimulated ops = list_ex (\<lambda>op. pl_type op = ''sql'') (op_operations ops)"
    by (auto simp: build_operation_plan_def bindR_Inr_iff split: option.splits)
  from plan_steps_run [OF f] assms(2) [unfolded u unsimulated_iff]
  show "map op_key (op_operations ops) = map (\<lambda>r. loaded_key (or_patch r)) (concat (map patch_readers ps))"
    "\<exists>sts. map render_statement sts = statements_of (op_operations ops) \<and> pg_run sts (pg_columns live) = Some (pg_columns (op_schema_after ops))"
    by auto
qed


section \<open>The ledger after an apply\<close>

text \<open>Neither raw SQL nor a system Record write of a patch touches the ledger.\<close>

definition keeps_ledger :: "'d patch_exec \<Rightarrow> bool" where
  "keeps_ledger px \<longleftrightarrow> (\<forall>q d d'. px_sql px q d = Inr d' \<longrightarrow> pd_runs d' = pd_runs d) \<and> (\<forall>w d d'. px_write px w d = Inr d' \<longrightarrow> pd_runs d' = pd_runs d)"

lemma stored_run_keeps [simp]: "run_key (stored_run now r) = run_key r" "pr_checksum (stored_run now r) = pr_checksum r"
  by (simp_all add: stored_run_def run_key_def)

lemma run_for_parts [simp]: "run_key (run_for now version oc p path) = planned_key p" "pr_checksum (run_for now version oc p path) = pp_checksum p"
  by (simp_all add: run_for_def run_key_def planned_key_def)

lemma execute_operations_keeps:
  assumes "keeps_ledger px" "execute_operations px shown p db = Inr db'"
  shows "pd_runs db' = pd_runs db"
proof -
  have "pd_runs d' = pd_runs d" if "execute_operation px p d op = Inr d'" for d d' op
    using that assms(1) by (auto simp: execute_operation_def keeps_ledger_def split: option.splits if_splits)
  then show ?thesis using assms(2) unfolding execute_operations_def
    by (elim foldR_keeps [where P = "\<lambda>d. pd_runs d = pd_runs db"]) (auto split: sum.splits)
qed

lemma record_patch_run_stored:
  assumes "record_patch_run now r db = Inr db'"
  shows "pd_runs db' = pd_runs db @ [stored_run now r]" "run_key r \<notin> run_key ` set (pd_runs db)"
proof -
  from assms have none: "get_patch_run db (pr_app r) (pr_patch r) = None" and db': "db' = db\<lparr>pd_runs := pd_runs db @ [stored_run now r]\<rparr>"
    by (auto simp: record_patch_run_def split: sum.splits option.splits if_splits)
  from db' show "pd_runs db' = pd_runs db @ [stored_run now r]" by simp
  from none show "run_key r \<notin> run_key ` set (pd_runs db)" by (auto simp: get_patch_run_def find_None_iff run_key_def)
qed

definition run_matches :: "patch_run \<Rightarrow> planned_patch \<Rightarrow> bool" where
  "run_matches r p \<longleftrightarrow> run_key r = planned_key p \<and> pr_checksum r = pp_checksum p"

lemma run_matches_simps [simp]: "run_matches (run_for now version oc p path) p" "run_matches (stored_run now r) p = run_matches r p"
  "run_matches r (p\<lparr>pp_operations := ops\<rparr>) = run_matches r p"
  by (simp_all add: run_matches_def planned_key_def)

lemma apply_one_patch_records:
  assumes "apply_one_patch px now project version db p = Inr (r, db')" "keeps_ledger px"
  shows "pd_runs db' = pd_runs db @ [stored_run now r]" "run_matches r p" "run_key r \<notin> run_key ` set (pd_runs db)"
proof -
  from assms(1) obtain db1 path shown where e: "execute_operations px shown p db = Inr db1" and r: "r = run_for now version [] p path"
    and rec: "record_patch_run now r db1 = Inr db'"
    unfolding apply_one_patch_def Let_def by (auto elim!: bindR_InrE split: if_splits sum.splits)
  note k = execute_operations_keeps [OF assms(2) e] and s = record_patch_run_stored [OF rec]
  show "pd_runs db' = pd_runs db @ [stored_run now r]" "run_key r \<notin> run_key ` set (pd_runs db)" using s by (simp_all add: k)
  show "run_matches r p" by (simp add: r run_matches_def)
qed

lemma apply_pending_records:
  assumes "keeps_ledger px" "apply_pending px now project version db ps = (rs, db', err)" "distinct (map run_key (pd_runs db))"
  shows "pd_runs db' = pd_runs db @ map (stored_run now) rs \<and> list_all2 run_matches rs (take (length rs) ps) \<and> length rs \<le> length ps
    \<and> (err = None \<longleftrightarrow> length rs = length ps) \<and> distinct (map run_key (pd_runs db'))
    \<and> apply_pending px now project version db (take (length rs) ps) = (rs, db', None)"
  using assms(2,3)
proof (induction ps arbitrary: db rs)
  case (Cons p ps)
  show ?case
  proof (cases "apply_one_patch px now project version db p")
    case (Inl e)
    with Cons.prems show ?thesis by auto
  next
    case (Inr x)
    then obtain r db1 where one: "apply_one_patch px now project version db p = Inr (r, db1)" by (cases x) auto
    with Cons.prems obtain rs1 where rest: "apply_pending px now project version db1 ps = (rs1, db', err)" "rs = r # rs1"
      by (auto split: prod.splits)
    note o = apply_one_patch_records [OF one assms(1)]
    have "distinct (map run_key (pd_runs db1))" using Cons.prems(2) o by simp
    from Cons.IH [OF rest(1) this] have "distinct (map run_key (pd_runs db'))" by blast
    moreover from Cons.IH [OF rest(1) \<open>distinct (map run_key (pd_runs db1))\<close>] o one rest(2)
    have "pd_runs db' = pd_runs db @ map (stored_run now) rs" "list_all2 run_matches rs (take (length rs) (p # ps))"
      "length rs \<le> length (p # ps)" "err = None \<longleftrightarrow> length rs = length (p # ps)"
      "apply_pending px now project version db (take (length rs) (p # ps)) = (rs, db', None)" by simp_all
    ultimately show ?thesis by blast
  qed
qed simp

text \<open>Runs appended to a ledger settle exactly the patches they match.\<close>

lemma run_of_None: "run_of runs k = None \<longleftrightarrow> k \<notin> run_key ` set runs"
  by (simp add: run_of_def map_of_eq_None_iff image_image)

lemma run_of_SomeD: "run_of runs k = Some r \<Longrightarrow> r \<in> set runs \<and> run_key r = k"
  by (auto simp: run_of_def dest: map_of_SomeD)

lemma run_of_append: "run_of (a @ b) k = (case run_of b k of Some r \<Rightarrow> Some r | None \<Rightarrow> run_of a k)"
  by (simp add: run_of_def map_add_def split: option.splits)

lemma recorded_patches:
  assumes "distinct (map loaded_key loaded)" "list_all2 run_matches new (map planned_from_loaded ps)" "set ps \<subseteq> set loaded"
    and "p \<in> set loaded"
  shows "run_of new (loaded_key p) = None \<longleftrightarrow> p \<notin> set ps"
    and "run_of new (loaded_key p) = Some r \<Longrightarrow> pr_checksum r = lp_checksum p"
proof -
  have inj: "q = p" if "q \<in> set loaded" "loaded_key q = loaded_key p" for q
    using assms(1,4) that by (auto simp: distinct_map dest: inj_onD)
  have len: "length new = length ps" using list_all2_lengthD [OF assms(2)] by simp
  have keys: "map run_key new = map loaded_key ps"
    using assms(2) len by (auto simp: list_all2_conv_all_nth run_matches_def intro: nth_equalityI)
  have "loaded_key p \<in> run_key ` set new \<longleftrightarrow> p \<in> set ps"
    using inj assms(3) arg_cong [OF keys, of set] by auto
  then show "run_of new (loaded_key p) = None \<longleftrightarrow> p \<notin> set ps" by (simp add: run_of_None)
  assume "run_of new (loaded_key p) = Some r"
  from run_of_SomeD [OF this] obtain i where i: "i < length new" "new ! i = r" "run_key r = loaded_key p" by (auto simp: in_set_conv_nth)
  with assms(2) len have m: "run_key r = loaded_key (ps ! i) \<and> pr_checksum r = lp_checksum (ps ! i)"
    by (auto simp: list_all2_conv_all_nth run_matches_def)
  have "ps ! i \<in> set loaded" using i(1) len assms(3) by auto
  with inj i(3) m have "ps ! i = p" by simp
  with m show "pr_checksum r = lp_checksum p" by simp
qed

lemma recorded_ledger:
  assumes "distinct (map loaded_key loaded)" "unchanged runs phase loaded"
    and "list_all2 run_matches new (map planned_from_loaded ps)" "set ps \<subseteq> set loaded"
  shows "unchanged (runs @ new) phase loaded"
    and "pending_of (runs @ new) phase loaded = filter (\<lambda>p. p \<notin> set ps) (pending_of runs phase loaded)"
proof -
  note rec = recorded_patches [OF assms(1,3,4)]
  show "unchanged (runs @ new) phase loaded"
    using assms(2) rec(2) unfolding unchanged_def run_of_append by (auto split: option.splits)
  have "run_of (runs @ new) (loaded_key p) = None \<longleftrightarrow> run_of runs (loaded_key p) = None \<and> p \<notin> set ps" if "p \<in> set loaded" for p
    using rec(1) [OF that] by (auto simp: run_of_append split: option.splits)
  then show "pending_of (runs @ new) phase loaded = filter (\<lambda>p. p \<notin> set ps) (pending_of runs phase loaded)"
    unfolding pending_of_def filter_filter by (intro filter_cong) auto
qed

lemma drop_settled: "distinct xs \<Longrightarrow> filter (\<lambda>x. x \<notin> set (take n xs)) xs = drop n xs"
proof -
  assume "distinct xs"
  then have "distinct (take n xs @ drop n xs)" by simp
  then have "filter (\<lambda>x. x \<notin> set (take n xs)) (take n xs @ drop n xs) = drop n xs"
    by (auto simp: filter_empty_conv filter_id_conv simp del: append_take_drop_id)
  then show ?thesis by simp
qed


section \<open>Lifecycle plans\<close>

definition unrecorded :: "patch_run list \<Rightarrow> string \<Rightarrow> loaded_patch \<Rightarrow> bool" where
  "unrecorded runs phase p \<longleftrightarrow> in_phase phase p \<and> run_of runs (loaded_key p) = None"

definition to_baseline :: "(string \<Rightarrow> bool) \<Rightarrow> loaded_patch \<Rightarrow> bool" where
  "to_baseline installing p \<longleftrightarrow> installing (lp_app p) \<and> run_mode p = ''migrate''"

definition to_skip :: "(string \<Rightarrow> bool) \<Rightarrow> loaded_patch \<Rightarrow> bool" where
  "to_skip installing p \<longleftrightarrow> \<not> installing (lp_app p) \<and> run_mode p = ''install''"

definition selected_of :: "patch_run list \<Rightarrow> string \<Rightarrow> (string \<Rightarrow> bool) \<Rightarrow> loaded_patch list \<Rightarrow> loaded_patch list" where
  "selected_of runs phase installing loaded =
     filter (\<lambda>p. in_phase phase p \<and> (run_of runs (loaded_key p) \<noteq> None \<or> \<not> to_baseline installing p \<and> \<not> to_skip installing p)) loaded"

definition baseline_of :: "patch_run list \<Rightarrow> string \<Rightarrow> (string \<Rightarrow> bool) \<Rightarrow> loaded_patch list \<Rightarrow> loaded_patch list" where
  "baseline_of runs phase installing loaded = filter (\<lambda>p. unrecorded runs phase p \<and> to_baseline installing p) loaded"

lemma select_from:
  "foldR (select_patch runs phase installing) (us, vs) loaded = Inr res \<longleftrightarrow> unchanged runs phase loaded
    \<and> res = (us @ selected_of runs phase installing loaded, vs @ map planned_from_loaded (baseline_of runs phase installing loaded))"
proof (induction loaded arbitrary: us vs)
  case Nil
  then show ?case by (auto simp: unchanged_def selected_of_def baseline_of_def)
next
  case (Cons p ps)
  show ?case
  proof (cases "in_phase phase p")
    case False
    then have "select_patch runs phase installing (us, vs) p = Inr (us, vs)" by (simp add: select_patch_def in_phase_def)
    with False Cons.IH show ?thesis by (simp add: unchanged_Cons selected_of_def baseline_of_def unrecorded_def)
  next
    case True
    then have step: "select_patch runs phase installing (us, vs) p = (case run_of runs (loaded_key p) of
        Some r \<Rightarrow> if pr_checksum r \<noteq> lp_checksum p then Inl (mismatch_error p r) else Inr (us @ [p], vs)
      | None \<Rightarrow> if to_baseline installing p then Inr (us, vs @ [planned_from_loaded p])
          else if to_skip installing p then Inr (us, vs) else Inr (us @ [p], vs))"
      unfolding select_patch_def fst_conv snd_conv to_baseline_def to_skip_def by (simp add: in_phase_def)
    have skip: "to_baseline installing p \<Longrightarrow> \<not> to_skip installing p" by (simp add: to_baseline_def to_skip_def)
    show ?thesis
    proof (cases "run_of runs (loaded_key p)")
      case None
      then show ?thesis using True skip
        by (cases "to_baseline installing p"; cases "to_skip installing p")
          (simp_all add: step Cons.IH unchanged_Cons selected_of_def baseline_of_def unrecorded_def)
    next
      case (Some r)
      then show ?thesis using True
        by (simp add: step Cons.IH unchanged_Cons selected_of_def baseline_of_def unrecorded_def)
    qed
  qed
qed

lemma unchanged_filter: "unchanged runs phase loaded \<Longrightarrow> unchanged runs phase (filter P loaded)"
  by (simp add: unchanged_def)

lemma build_lifecycle_plan_parts:
  assumes "build_lifecycle_plan pv loaded es live runs phase installing = Inr plan"
  shows "valid_patch_phase phase" "unchanged runs phase loaded"
    "map (\<lambda>p. p\<lparr>pp_operations := []\<rparr>) (pn_pending plan) =
      map planned_from_loaded (filter (\<lambda>p. unrecorded runs phase p \<and> \<not> to_baseline installing p \<and> \<not> to_skip installing p) loaded)"
    "pn_baseline plan = map planned_from_loaded (baseline_of runs phase installing loaded)"
proof -
  from assms obtain plan' where u: "unchanged runs phase loaded"
    and b: "build_patch_plan pv (selected_of runs phase installing loaded) es live runs phase = Inr plan'"
    and plan: "plan = plan'\<lparr>pn_baseline := map planned_from_loaded (baseline_of runs phase installing loaded)\<rparr>"
    by (auto simp: build_lifecycle_plan_def bindR_Inr_iff select_from)
  have "pending_of runs phase (selected_of runs phase installing loaded)
      = filter (\<lambda>p. unrecorded runs phase p \<and> \<not> to_baseline installing p \<and> \<not> to_skip installing p) loaded"
    unfolding pending_of_def selected_of_def filter_filter by (intro filter_cong) (auto simp: unrecorded_def)
  with build_patch_plan_parts [OF b] u plan
  show "valid_patch_phase phase" "unchanged runs phase loaded"
    "map (\<lambda>p. p\<lparr>pp_operations := []\<rparr>) (pn_pending plan) =
      map planned_from_loaded (filter (\<lambda>p. unrecorded runs phase p \<and> \<not> to_baseline installing p \<and> \<not> to_skip installing p) loaded)"
    "pn_baseline plan = map planned_from_loaded (baseline_of runs phase installing loaded)" by simp_all
qed

lemma apply_in_tx_records:
  assumes "keeps_ledger px" "foldR (apply_in_tx px now project version oc) (rs0, db) ps = Inr (rs, db')"
  shows "\<exists>new. rs = rs0 @ new \<and> pd_runs db' = pd_runs db @ map (stored_run now) new \<and> list_all2 run_matches new ps"
  using assms(2)
proof (induction ps arbitrary: rs0 db)
  case (Cons p ps)
  from Cons.prems obtain st where st: "apply_in_tx px now project version oc (rs0, db) p = Inr st"
    "foldR (apply_in_tx px now project version oc) st ps = Inr (rs, db')" by (auto split: sum.splits)
  from st(1) obtain db1 path db2 shown where e: "(if oc = ''applied'' then execute_operations px shown p db else Inr db) = Inr db1"
    and rec: "record_patch_run now (run_for now version oc p path) db1 = Inr db2" and s: "st = (rs0 @ [run_for now version oc p path], db2)"
    unfolding apply_in_tx_def Let_def fst_conv snd_conv by (auto elim!: bindR_InrE)
  have "pd_runs db1 = pd_runs db" using e execute_operations_keeps [OF assms(1)] by (auto split: if_splits)
  with record_patch_run_stored(1) [OF rec] have r: "pd_runs db2 = pd_runs db @ [stored_run now (run_for now version oc p path)]" by simp
  from Cons.IH [OF st(2) [unfolded s]] obtain new where "rs = rs0 @ run_for now version oc p path # new"
    "pd_runs db' = pd_runs db2 @ map (stored_run now) new" "list_all2 run_matches new ps" by auto
  with r show ?case by (intro exI [of _ "run_for now version oc p path # new"]) simp
qed simp

lemma run_matches_stored: "list_all2 run_matches (map (stored_run now) rs) ps = list_all2 run_matches rs ps"
  by (simp add: list_all2_map1)

lemma run_matches_erased:
  "list_all2 run_matches rs ps \<longleftrightarrow> list_all2 run_matches rs (map (\<lambda>p. p\<lparr>pp_operations := []\<rparr>) ps)"
  by (simp add: list_all2_map2)

lemma run_matches_keys: "list_all2 run_matches rs (map planned_from_loaded ps) \<Longrightarrow> map run_key rs = map loaded_key ps"
  by (induction ps arbitrary: rs) (auto simp: list_all2_Cons2 run_matches_def)


section \<open>Samples\<close>

definition sample_node :: "string \<Rightarrow> node" where
  "sample_node s = Scalar ''!!str'' s"

definition sample_document :: "string \<Rightarrow> string \<Rightarrow> string \<Rightarrow> node list \<Rightarrow> node" where
  "sample_document pid phase run ops =
     MappingNode [(sample_node ''kind'', sample_node ''patch''), (sample_node ''version'', Scalar ''!!int'' ''1''), (sample_node ''id'', sample_node pid), (sample_node ''phase'', sample_node phase),
       (sample_node ''run-on'', sample_node run), (sample_node ''description'', sample_node ''d''), (sample_node ''operations'', Sequence ops)]"

definition sample_rename :: node where
  "sample_rename = MappingNode [(sample_node ''type'', sample_node ''rename-field''), (sample_node ''entity'', sample_node ''contact''), (sample_node ''from'', sample_node ''label''), (sample_node ''to'', sample_node ''title'')]"

definition sample_drop :: node where
  "sample_drop = MappingNode [(sample_node ''type'', sample_node ''drop-field''), (sample_node ''entity'', sample_node ''contact''), (sample_node ''field'', sample_node ''old'')]"

definition sample_sql :: node where
  "sample_sql = MappingNode [(sample_node ''type'', sample_node ''sql''), (sample_node ''name'', sample_node ''n''), (sample_node ''reason'', sample_node ''r''), (sample_node ''statement'', sample_node ''SELECT 1'')]"

definition sample_file :: "string \<Rightarrow> node \<Rightarrow> patch_file" where
  "sample_file pid n = \<lparr>pf_name = pid @ ''.yml'', pf_directory = False, pf_documents = [n], pf_checksum = ''sum-'' @ pid\<rparr>"

definition sample_patch_app :: patch_app where
  "sample_patch_app = \<lparr>ap_name = ''crm'', ap_dir = ''apps/crm'', ap_patches = ''patches'', ap_files =
     [sample_file ''b'' (sample_document ''b'' ''pre-sync'' ''migrate'' [sample_drop]),
      sample_file ''a'' (sample_document ''a'' ''pre-sync'' ''migrate'' [sample_rename]),
      sample_file ''c'' (sample_document ''c'' ''post-sync'' ''both'' [sample_sql]),
      sample_file ''d'' (sample_document ''d'' ''post-sync'' ''migrate'' [sample_sql])]\<rparr>"

definition sample_column :: live_column where
  "sample_column = \<lparr>lc_type = ''text'', lc_nullable = True, lc_has_default = False, lc_default = []\<rparr>"

definition sample_live :: live_schema where
  "sample_live = [(''crm_contact'', \<lparr>lt_row_state_known = True, lt_has_rows = True,
     lt_columns = [(''label'', sample_column), (''old'', sample_column)], lt_indexes = [], lt_constraints = []\<rparr>)]"

definition sample_env :: patch_env where
  "sample_env = \<lparr>pv_json = (\<lambda>n. None), pv_rational = (\<lambda>s. None), pv_deep = (\<lambda>a b. False)\<rparr>"
definition sample_loaded_patch :: "string \<Rightarrow> string \<Rightarrow> string \<Rightarrow> string \<Rightarrow> (string \<times> string) list \<Rightarrow> loaded_patch" where
  "sample_loaded_patch pid phase run ty fs = \<lparr>lp_app = ''crm'', lp_path = ''apps/crm/patches/'' @ pid @ ''.yml'',
     lp_relative = ''patches/'' @ pid @ ''.yml'', lp_checksum = ''sum-'' @ pid,
     lp_patch = \<lparr>pa_kind = ''patch'', pa_version = 1, pa_id = pid, pa_phase = phase, pa_run_on = run, pa_description = ''d'',
       pa_operations = [\<lparr>po_type = ty, po_fields = map (\<lambda>(k, v). (k, sample_node v)) ((''type'', ty) # fs)\<rparr>]\<rparr>\<rparr>"

definition sample_loaded :: "loaded_patch list" where
  "sample_loaded =
     [sample_loaded_patch ''a'' ''pre-sync'' ''migrate'' ''rename-field'' [(''entity'', ''contact''), (''from'', ''label''), (''to'', ''title'')],
      sample_loaded_patch ''b'' ''pre-sync'' ''migrate'' ''drop-field'' [(''entity'', ''contact''), (''field'', ''old'')],
      sample_loaded_patch ''c'' ''post-sync'' ''both'' ''sql'' [(''name'', ''n''), (''reason'', ''r''), (''statement'', ''SELECT 1'')],
      sample_loaded_patch ''d'' ''post-sync'' ''migrate'' ''sql'' [(''name'', ''n''), (''reason'', ''r''), (''statement'', ''SELECT 1'')]]"

definition sample_planned :: "loaded_patch \<Rightarrow> string \<Rightarrow> string \<Rightarrow> string \<Rightarrow> string \<Rightarrow> string \<Rightarrow> planned_patch" where
  "sample_planned p table column name description sql =
     (planned_from_loaded p)\<lparr>pp_operations := [base_operation \<lparr>or_patch = p, or_index = 0, or_operation = hd (pa_operations (lp_patch p))\<rparr>
        table column name description sql]\<rparr>"

definition sample_patch_plan :: patch_plan where
  "sample_patch_plan = \<lparr>pn_phase = ''pre-sync'', pn_baseline = [],
     pn_pending =
       [sample_planned (sample_loaded ! 0) ''crm_contact'' ''label'' ''title'' ''rename column crm_contact.label to title''
          (render_statement (PgRenameColumn ''crm_contact'' ''label'' ''title'')),
        sample_planned (sample_loaded ! 1) ''crm_contact'' ''old'' [] ''drop column crm_contact.old''
          (render_statement (PgDropColumn ''crm_contact'' ''old''))],
     pn_applied = [],
     pn_schema_after = [(''crm_contact'', \<lparr>lt_row_state_known = True, lt_has_rows = True, lt_columns = [(''title'', sample_column)],
       lt_indexes = [], lt_constraints = []\<rparr>)],
     pn_unsimulated = False\<rparr>"

definition sample_lifecycle_plan :: patch_plan where
  "sample_lifecycle_plan = \<lparr>pn_phase = ''post-sync'', pn_baseline = [planned_from_loaded (sample_loaded ! 3)],
     pn_pending = [sample_planned (sample_loaded ! 2) [] [] ''n'' ''run SQL n'' ''SELECT 1''],
     pn_applied = [], pn_schema_after = sample_live, pn_unsimulated = True\<rparr>"

definition sample_contact :: "loaded_entity list" where
  "sample_contact = [sample_entity_of ''crm'' ''contact'' [sample_field_of ''title'' ''text''] []]"

definition sample_patch_db :: "unit patch_db" where
  "sample_patch_db = \<lparr>pd_runs = [], pd_apps = [''crm''], pd_data = ()\<rparr>"

text \<open>A database that cannot begin the transaction of the second patch.\<close>

definition sample_exec :: "unit patch_exec" where
  "sample_exec = \<lparr>px_sql = (\<lambda>q. Inr), px_write = (\<lambda>w. Inr), px_begin = (\<lambda>p. pp_id p \<noteq> ''b''), px_commit = (\<lambda>p. True)\<rparr>"

definition sample_patch_run :: "string \<Rightarrow> string \<Rightarrow> string \<Rightarrow> patch_run" where
  "sample_patch_run pid phase oc = \<lparr>pr_app = ''crm'', pr_patch = pid, pr_path = ''apps/crm/patches/'' @ pid @ ''.yml'', pr_phase = phase,
     pr_checksum = ''sum-'' @ pid, pr_applied_at = Some 7, pr_version = ''1.0'', pr_outcome = oc\<rparr>"

lemma sample_discovered: "discover_patches (\<lambda>s. Some 1) [sample_patch_app] = Inr sample_loaded"
  by code_simp

lemma sample_patch_planned:
  "build_patch_plan sample_env sample_loaded sample_contact sample_live [] ''pre-sync'' = Inr sample_patch_plan \<and>
   build_lifecycle_plan sample_env sample_loaded sample_contact sample_live [] ''post-sync'' (\<lambda>a. a = ''crm'') = Inr sample_lifecycle_plan"
  by code_simp

lemma sample_patch_applied:
  "apply_patch_plan sample_exec 7 ''/srv'' ''1.0'' sample_patch_db sample_patch_plan =
     ([sample_patch_run ''a'' ''pre-sync'' []], sample_patch_db\<lparr>pd_runs := [sample_patch_run ''a'' ''pre-sync'' ''applied'']\<rparr>,
      Some (PatchFault (''begin patch %s/%s transaction: %w'', [''crm'', ''b'']))) \<and>
   apply_patch_plan_tx sample_exec 7 ''/srv'' ''1.0'' sample_patch_db sample_lifecycle_plan =
     Inr ([sample_patch_run ''c'' ''post-sync'' ''applied''], [sample_patch_run ''d'' ''post-sync'' ''baselined''],
       sample_patch_db\<lparr>pd_runs := [sample_patch_run ''c'' ''post-sync'' ''applied'', sample_patch_run ''d'' ''post-sync'' ''baselined'']\<rparr>)"
  by code_simp

lemma sample_exec_keeps: "keeps_ledger sample_exec"
  by (simp add: keeps_ledger_def sample_exec_def)




end
