(* ===== verification/Secret_Document.thy ===== *)
theory Secret_Document
  imports Access_Policy Names "HOL-Library.AList"
begin

text \<open>
  The decrypted document of encrypted secrets (\<^verbatim>\<open>internal/secrets/secrets.go\<close>): names, the tree of
  values with its dotted paths, decoding from YAML nodes, and the references to secrets in manifests.
\<close>

section \<open>Environments and names\<close>

datatype environment = Development | Staging | Production

definition supported_environments :: "environment list" where
  "supported_environments = [Development, Staging, Production]"

fun environment_name :: "environment \<Rightarrow> string" where
  "environment_name Development = ''development''"
| "environment_name Staging = ''staging''"
| "environment_name Production = ''production''"

definition parse_environment :: "string \<Rightarrow> message + environment" where
  "parse_environment v =
     (case find (\<lambda>e. environment_name e = v) supported_environments of Some e \<Rightarrow> Inr e
      | None \<Rightarrow> Inl (''unsupported environment %q: use development, staging, or production'', [v]))"

definition secret_segments :: "string \<Rightarrow> string list" where
  "secret_segments name = split_on (CHR ''.'') name"

definition validate_secret_name :: "string \<Rightarrow> message + unit" where
  "validate_secret_name name =
     (if name = [] \<or> trim_space name \<noteq> name
      then Inl (''invalid secret name %q: use a non-empty root key or dot-separated path'', [name])
      else guardR ([] \<notin> set (secret_segments name)) (''invalid secret name %q: path segments cannot be empty'', [name]))"

section \<open>Values\<close>

text \<open>A float is kept as the text that prints it; \<open>SvOther\<close> is a decoded value that is no scalar of the
  code (a timestamp).\<close>

datatype secret_value =
    SvMap "(string \<times> secret_value) list"
  | SvList "secret_value list"
  | SvNull
  | SvString string
  | SvBool bool
  | SvInt int
  | SvFloat string
  | SvOther string

type_synonym document = "(string \<times> secret_value) list"

definition scalar_secret_value :: "secret_value \<Rightarrow> string option" where
  "scalar_secret_value v =
     (case v of SvNull \<Rightarrow> Some [] | SvString s \<Rightarrow> Some s | SvBool b \<Rightarrow> Some (if b then ''true'' else ''false'')
      | SvInt i \<Rightarrow> Some (show_int i) | SvFloat s \<Rightarrow> Some s | _ \<Rightarrow> None)"

text \<open>Setting a path replaces everything on the way that is not a mapping.\<close>

fun set_path :: "string list \<Rightarrow> string \<Rightarrow> document \<Rightarrow> document" where
  "set_path [] v m = m"
| "set_path [p] v m = AList.update p (SvString v) m"
| "set_path (p # q # ps) v m =
     AList.update p (SvMap (set_path (q # ps) v (case map_of m p of Some (SvMap m') \<Rightarrow> m' | _ \<Rightarrow> []))) m"

definition document_set :: "string \<Rightarrow> string \<Rightarrow> document \<Rightarrow> document" where
  "document_set path v m = set_path (secret_segments path) v m"

fun lookup_path :: "string list \<Rightarrow> secret_value \<Rightarrow> secret_value option" where
  "lookup_path [] v = Some v"
| "lookup_path (p # ps) (SvMap m) = (case map_of m p of None \<Rightarrow> None | Some v \<Rightarrow> lookup_path ps v)"
| "lookup_path (p # ps) _ = None"

definition document_lookup :: "string \<Rightarrow> document \<Rightarrow> secret_value option" where
  "document_lookup path m = (case map_of m path of Some v \<Rightarrow> Some v | None \<Rightarrow> lookup_path (secret_segments path) (SvMap m))"

definition document_value :: "string \<Rightarrow> document \<Rightarrow> message + string option" where
  "document_value path m =
     bindR (validate_secret_name path) (\<lambda>_. case document_lookup path m of None \<Rightarrow> Inr None
       | Some v \<Rightarrow> (case scalar_secret_value v of None \<Rightarrow> Inl (''secret %q must resolve to a scalar value'', [path]) | Some s \<Rightarrow> Inr (Some s)))"

fun remove_path :: "string list \<Rightarrow> document \<Rightarrow> document option" where
  "remove_path [] m = None"
| "remove_path [p] m = (if map_of m p = None then None else Some (AList.delete p m))"
| "remove_path (p # q # ps) m =
     (case map_of m p of Some (SvMap m') \<Rightarrow> map_option (\<lambda>m''. AList.update p (SvMap m'') m) (remove_path (q # ps) m') | _ \<Rightarrow> None)"

definition document_remove :: "string \<Rightarrow> document \<Rightarrow> document option" where
  "document_remove path m =
     (if map_of m path \<noteq> None then Some (AList.delete path m)
      else if length (secret_segments path) = 1 then None else remove_path (secret_segments path) m)"

text \<open>The entries of a listing: of two with one name only one is left (here the first; in the code the
  iteration order of the map decides).\<close>

fun flatten_secrets :: "string \<Rightarrow> secret_value \<Rightarrow> (string \<times> string) list"
  and flatten_entries :: "string \<Rightarrow> document \<Rightarrow> (string \<times> string) list" where
  "flatten_secrets pre (SvMap m) = flatten_entries pre m"
| "flatten_secrets pre v = (case scalar_secret_value v of Some s \<Rightarrow> if pre = [] then [] else [(pre, s)] | None \<Rightarrow> [])"
| "flatten_entries pre [] = []"
| "flatten_entries pre ((k, v) # m) = flatten_secrets (if pre = [] then k else pre @ ''.'' @ k) v @ flatten_entries pre m"

definition document_entries :: "document \<Rightarrow> (string \<times> string) list" where
  "document_entries m = sort_key fst (AList.clearjunk (flatten_secrets [] (SvMap m)))"

definition redact :: "string \<Rightarrow> string" where
  "redact v = (if v = [] then [] else if length v \<le> 4 then replicate (length v) (CHR ''*'') else replicate 12 (CHR ''*'') @ drop (length v - 4) v)"

text \<open>\<^verbatim>\<open>reflect.DeepEqual\<close> on decoded documents.\<close>

fun deep_equal :: "secret_value \<Rightarrow> secret_value \<Rightarrow> bool"
  and deep_entries :: "document \<Rightarrow> document \<Rightarrow> bool"
  and deep_items :: "secret_value list \<Rightarrow> secret_value list \<Rightarrow> bool" where
  "deep_equal (SvMap xs) y = (case y of SvMap ys \<Rightarrow> length xs = length ys \<and> deep_entries xs ys | _ \<Rightarrow> False)"
| "deep_equal (SvList xs) y = (case y of SvList ys \<Rightarrow> deep_items xs ys | _ \<Rightarrow> False)"
| "deep_equal (SvFloat x) y = (y = SvFloat x \<and> x \<noteq> ''NaN'')"
| "deep_equal x y = (x = y)"
| "deep_entries [] ys = True"
| "deep_entries ((k, v) # xs) ys = ((case map_of ys k of None \<Rightarrow> False | Some w \<Rightarrow> deep_equal v w) \<and> deep_entries xs ys)"
| "deep_items [] ys = (ys = [])"
| "deep_items (x # xs) ys = (case ys of [] \<Rightarrow> False | y # ys' \<Rightarrow> deep_equal x y \<and> deep_items xs ys')"

section \<open>Decoding\<close>

text \<open>\<open>scal\<close> decodes a scalar of the YAML library.  An alias has no case of its own.\<close>

fun decode_yaml_node :: "(string \<Rightarrow> string \<Rightarrow> secret_value option) \<Rightarrow> node \<Rightarrow> message + secret_value"
  and decode_yaml_mapping :: "(string \<Rightarrow> string \<Rightarrow> secret_value option) \<Rightarrow> (node \<times> node) list \<Rightarrow> message + document"
  and decode_yaml_items :: "(string \<Rightarrow> string \<Rightarrow> secret_value option) \<Rightarrow> node list \<Rightarrow> message + secret_value list" where
  "decode_yaml_node scal (MappingNode ps) = bindR (decode_yaml_mapping scal ps) (\<lambda>m. Inr (SvMap m))"
| "decode_yaml_node scal (Sequence xs) = bindR (decode_yaml_items scal xs) (\<lambda>vs. Inr (SvList vs))"
| "decode_yaml_node scal (Scalar t v) = (case scal t v of None \<Rightarrow> Inl (''decode secrets scalar'', []) | Some x \<Rightarrow> Inr x)"
| "decode_yaml_node scal (AliasNode a) = Inr SvNull"
| "decode_yaml_node scal NoNode = Inr SvNull"
| "decode_yaml_mapping scal [] = Inr []"
| "decode_yaml_mapping scal ((k, v) # ps) =
     (case k of Scalar t key \<Rightarrow>
        if key = [] then Inl (''secrets document mapping keys must be non-empty strings'', [])
        else bindR (decode_yaml_node scal v) (\<lambda>x. bindR (decode_yaml_mapping scal ps) (\<lambda>m. Inr ((key, x) # m)))
      | _ \<Rightarrow> Inl (''secrets document mapping keys must be non-empty strings'', []))"
| "decode_yaml_items scal [] = Inr []"
| "decode_yaml_items scal (x # xs) = bindR (decode_yaml_node scal x) (\<lambda>y. bindR (decode_yaml_items scal xs) (\<lambda>ys. Inr (y # ys)))"

text \<open>\<open>parse\<close> is the parser of the YAML library.\<close>

definition decode_document :: "(string \<Rightarrow> node option) \<Rightarrow> (string \<Rightarrow> string \<Rightarrow> secret_value option) \<Rightarrow> string \<Rightarrow> message + document" where
  "decode_document parse scal data =
     (if blank data then Inl (''secrets document is empty'', [])
      else (case parse data of None \<Rightarrow> Inl (''parse secrets document'', [])
        | Some n \<Rightarrow> (case duplicate_key n of Some k \<Rightarrow> Inl (''duplicate secret key %q'', [k])
          | None \<Rightarrow> (case n of MappingNode ps \<Rightarrow> decode_yaml_mapping scal ps
              | NoNode \<Rightarrow> Inl (''secrets document is empty'', [])
              | _ \<Rightarrow> Inl (''secrets document must be a mapping'', [])))))"

section \<open>References in manifests\<close>

fun env_references :: "(node \<times> node) list \<Rightarrow> string list" where
  "env_references [] = []"
| "env_references ((k, v) # ps) =
     (case v of MappingNode qs \<Rightarrow> List.map_filter (\<lambda>(j, x). case x of Scalar t s \<Rightarrow> if node_text j = ''secret'' \<and> s \<noteq> [] then Some s else None | _ \<Rightarrow> None) qs
      | _ \<Rightarrow> []) @ env_references ps"

fun manifest_references :: "node \<Rightarrow> string list"
  and mapping_references :: "(node \<times> node) list \<Rightarrow> string list"
  and item_references :: "node list \<Rightarrow> string list" where
  "manifest_references (MappingNode ps) = mapping_references ps"
| "manifest_references (Sequence xs) = item_references xs"
| "manifest_references _ = []"
| "mapping_references [] = []"
| "mapping_references ((k, v) # ps) =
     (case (node_text k = ''secret'', v) of (True, Scalar t s) \<Rightarrow> if s \<noteq> [] then [s] else []
      | _ \<Rightarrow> (case (node_text k = ''env'', v) of (True, MappingNode qs) \<Rightarrow> env_references qs | _ \<Rightarrow> manifest_references v))
     @ mapping_references ps"
| "item_references [] = []"
| "item_references (x # xs) = manifest_references x @ item_references xs"

text \<open>The manifests come as their paths and nodes.\<close>

definition reference_problems :: "(string \<times> node) list \<Rightarrow> document \<Rightarrow> message list" where
  "reference_problems files m =
     concat (map (\<lambda>(path, n). List.map_filter (\<lambda>name. case document_value name m of
         Inl _ \<Rightarrow> Some (''%s references non-scalar secret %q'', [path, name])
       | Inr None \<Rightarrow> Some (''%s references missing secret %q'', [path, name])
       | Inr (Some _) \<Rightarrow> None) (manifest_references n)) files)"

section \<open>Guarantees\<close>

lemma segments_nonempty [simp]: "secret_segments path \<noteq> []"
  by (simp add: secret_segments_def)

lemma lookup_set_same: "ps \<noteq> [] \<Longrightarrow> lookup_path ps (SvMap (set_path ps v m)) = Some (SvString v)"
  by (induction ps v m rule: set_path.induct) (auto simp: update_conv')

lemma lookup_set_other:
  assumes "\<not> prefix ps qs" "\<not> prefix qs ps"
  shows "lookup_path qs (SvMap (set_path ps v m)) = lookup_path qs (SvMap m)"
  using assms
proof (induction ps v m arbitrary: qs rule: set_path.induct)
  case (2 p v m)
  then obtain a as where "qs = a # as" "a \<noteq> p" by (cases qs) auto
  then show ?case by (simp add: update_conv')
next
  case (3 p q ps v m)
  then obtain a as where qs: "qs = a # as" by (cases qs) auto
  show ?case
  proof (cases "a = p")
    case False
    then show ?thesis by (simp add: qs update_conv')
  next
    case True
    with 3(2,3) qs obtain b bs where as: "as = b # bs" by (cases as) auto
    have "lookup_path as (SvMap (set_path (q # ps) v (case map_of m p of Some (SvMap m') \<Rightarrow> m' | _ \<Rightarrow> [])))
        = lookup_path as (SvMap (case map_of m p of Some (SvMap m') \<Rightarrow> m' | _ \<Rightarrow> []))"
      by (rule 3(1)) (use 3(2,3) qs True in auto)
    moreover have "lookup_path as (SvMap (case map_of m p of Some (SvMap m') \<Rightarrow> m' | _ \<Rightarrow> [])) =
        (case map_of m p of None \<Rightarrow> None | Some x \<Rightarrow> lookup_path as x)"
      by (auto simp: as split: option.splits secret_value.splits)
    ultimately show ?thesis by (simp add: qs True update_conv')
  qed
qed simp

text \<open>A secret that is set is what the next read returns, and no unrelated secret changes; the exception
  is a path whose text is a root key of its own.\<close>

lemma head_of_segments: "secret_segments path = p # ps \<Longrightarrow> secret_segments p = [p]"
proof -
  assume "secret_segments path = p # ps"
  then have "CHR ''.'' \<notin> set p" using split_on_parts [of p "CHR ''.''" path] by (simp add: secret_segments_def)
  then show "secret_segments p = [p]" by (simp add: secret_segments_def split_on_no_sep)
qed

lemma set_path_head:
  assumes "secret_segments path = p # ps" "q \<noteq> p"
  shows "map_of (document_set path v m) q = map_of m q"
  using assms by (cases ps) (simp_all add: document_set_def update_conv')



text \<open>A dotted root key shadows the path that is set: the write succeeds and the read still returns the old value.\<close>

lemma shadowed_secret_not_updated:
  "document_value ''a.b'' (document_set ''a.b'' ''new'' [(''a.b'', SvString ''old'')]) = Inr (Some ''old'')"
  by code_simp

text \<open>An alias of the YAML document is decoded as null: its secret is lost.\<close>

lemma alias_decodes_to_null: "decode_yaml_node scal (AliasNode a) = Inr SvNull"
  by simp

end
