(* ===== verification/Secret_Store.thy ===== *)
theory Secret_Store
  imports Secret_Document
begin

text \<open>
  The encrypted secret files of a project (\<^verbatim>\<open>internal/secrets/secrets.go\<close>): loading and saving a
  document, creating the files and rotating the master key.  A file operation either takes effect
  completely or fails without effect; which ones work, which ones fail and where the program is stopped
  is an input of the model.
\<close>

section \<open>Locations\<close>

text \<open>The files the store touches.  Their paths differ for every project root.\<close>

datatype location =
    MasterKey
  | SecretFile environment
  | MasterNext
  | MasterRollback
  | DualNext environment
  | FinalNext environment
  | SecretRollback environment
  | RotateDir

fun location_path :: "location \<Rightarrow> string" where
  "location_path MasterKey = ''.dygo/secrets/master.key''"
| "location_path (SecretFile e) = ''config/secrets/'' @ environment_name e @ ''.yml.age''"
| "location_path MasterNext = ''.dygo/secrets/tmp/rotate-key/master.key.next''"
| "location_path MasterRollback = ''.dygo/secrets/tmp/rotate-key/master.key.rollback''"
| "location_path (DualNext e) = ''.dygo/secrets/tmp/rotate-key/'' @ environment_name e @ ''.yml.age.dual.next''"
| "location_path (FinalNext e) = ''.dygo/secrets/tmp/rotate-key/'' @ environment_name e @ ''.yml.age.final.next''"
| "location_path (SecretRollback e) = ''.dygo/secrets/tmp/rotate-key/'' @ environment_name e @ ''.yml.age.rollback''"
| "location_path RotateDir = ''.dygo/secrets/tmp/rotate-key''"

definition all_locations :: "location list" where
  "all_locations = [MasterKey, MasterNext, MasterRollback, RotateDir]
     @ concat (map (\<lambda>e. [SecretFile e, DualNext e, FinalNext e, SecretRollback e]) supported_environments)"

lemma all_environments: "e \<in> set supported_environments"
  by (cases e) (simp_all add: supported_environments_def)

lemma location_paths_distinct: "inj location_path"
proof -
  have "distinct (map location_path all_locations)" by code_simp
  moreover have "l \<in> set all_locations" for l using all_environments by (cases l) (auto simp: all_locations_def)
  ultimately show ?thesis by (simp add: distinct_map inj_on_def)
qed

section \<open>The disk\<close>

text \<open>What becomes of the file operations to come, in order; without an entry an operation works.  Once the
  program is stopped no operation has an effect any more.\<close>

datatype outcome = Works | Fails | Stops

record disk =
  dk_files :: "location \<rightharpoonup> string"
  dk_outcomes :: "outcome list"

type_synonym ('e, 'a) act = "disk \<Rightarrow> ('e + 'a) \<times> disk"

definition ret :: "'e + 'a \<Rightarrow> ('e, 'a) act" where
  "ret r d = (r, d)"

definition andthen :: "('e, 'a) act \<Rightarrow> ('a \<Rightarrow> ('e, 'b) act) \<Rightarrow> ('e, 'b) act" where
  "andthen m f d = (case m d of (Inl e, d') \<Rightarrow> (Inl e, d') | (Inr a, d') \<Rightarrow> f a d')"

definition on_error :: "('e, 'a) act \<Rightarrow> ('e \<Rightarrow> ('f, 'a) act) \<Rightarrow> ('f, 'a) act" where
  "on_error m h d = (case m d of (Inl e, d') \<Rightarrow> h e d' | (Inr a, d') \<Rightarrow> (Inr a, d'))"

fun for_each :: "('a \<Rightarrow> ('e, unit) act) \<Rightarrow> 'a list \<Rightarrow> ('e, unit) act" where
  "for_each f [] = ret (Inr ())"
| "for_each f (x # xs) = andthen (f x) (\<lambda>_. for_each f xs)"

fun collect :: "('a \<Rightarrow> ('e, 'b) act) \<Rightarrow> 'a list \<Rightarrow> ('e, 'b list) act" where
  "collect f [] = ret (Inr [])"
| "collect f (x # xs) = andthen (f x) (\<lambda>y. andthen (collect f xs) (\<lambda>ys. ret (Inr (y # ys))))"

definition tell :: "(message \<Rightarrow> message) \<Rightarrow> (message, 'a) act \<Rightarrow> (message, 'a) act" where
  "tell w m = on_error m (\<lambda>e. ret (Inl (w e)))"

definition next_fault :: "disk \<Rightarrow> bool \<times> disk" where
  "next_fault d = (case dk_outcomes d of [] \<Rightarrow> (False, d) | Works # os \<Rightarrow> (False, d\<lparr>dk_outcomes := os\<rparr>)
     | Fails # os \<Rightarrow> (True, d\<lparr>dk_outcomes := os\<rparr>) | Stops # os \<Rightarrow> (True, d))"

definition change :: "((location \<rightharpoonup> string) \<Rightarrow> (location \<rightharpoonup> string)) \<Rightarrow> message \<Rightarrow> (message, unit) act" where
  "change f e d = (case next_fault d of (True, d') \<Rightarrow> (Inl e, d')
     | (False, d') \<Rightarrow> (Inr (), d'\<lparr>dk_files := f (dk_files d')\<rparr>))"

definition write_file :: "location \<Rightarrow> string \<Rightarrow> (message, unit) act" where
  "write_file l data = change (\<lambda>fs. fs(l \<mapsto> data)) (''write %s'', [location_path l])"

definition rename_file :: "location \<Rightarrow> location \<Rightarrow> (message, unit) act" where
  "rename_file a b d =
     (case dk_files d a of None \<Rightarrow> (Inl (''rename %s'', [location_path a]), d)
      | Some c \<Rightarrow> change (\<lambda>fs. (fs(b \<mapsto> c))(a := None)) (''rename %s'', [location_path a]) d)"

definition read_file :: "location \<Rightarrow> (message, string) act" where
  "read_file l d = (case next_fault d of (True, d') \<Rightarrow> (Inl (''read %s'', [location_path l]), d')
     | (False, d') \<Rightarrow> (case dk_files d' l of None \<Rightarrow> (Inl (''read %s'', [location_path l]), d') | Some c \<Rightarrow> (Inr c, d')))"

text \<open>Removing what is not there is no error for the callers.\<close>

definition remove_file :: "location \<Rightarrow> (message, unit) act" where
  "remove_file l d =
     (if dk_files d l = None then (Inr (), d) else change (\<lambda>fs. fs(l := None)) (''remove %s'', [location_path l]) d)"

section \<open>Loading and saving\<close>

text \<open>What the store uses of the libraries for age and YAML.\<close>

record 'i secret_env =
  se_recipient :: "'i \<Rightarrow> string"
  se_encrypt :: "string list \<Rightarrow> string \<Rightarrow> string option"
  se_decrypt :: "'i \<Rightarrow> string \<Rightarrow> string option"
  se_parse :: "string \<Rightarrow> 'i option"
  se_print :: "'i \<Rightarrow> string"
  se_fresh :: "'i option"
  se_yaml :: "string \<Rightarrow> node option"
  se_scalar :: "string \<Rightarrow> string \<Rightarrow> secret_value option"
  se_marshal :: "document \<Rightarrow> string option"

definition newline :: char where
  "newline = CHR 0x0A"

definition master_identity :: "'i secret_env \<Rightarrow> string \<Rightarrow> message + 'i" where
  "master_identity se data =
     (case find (\<lambda>l. l \<noteq> [] \<and> \<not> has_prefix l ''#'') (map trim_space (split_on newline data)) of
        None \<Rightarrow> Inl (''master key %s does not contain an age identity'', [])
      | Some l \<Rightarrow> (case se_parse se l of None \<Rightarrow> Inl (''parse master key'', []) | Some i \<Rightarrow> Inr i))"

definition load_master :: "'i secret_env \<Rightarrow> location \<Rightarrow> (message, 'i) act" where
  "load_master se l = andthen (tell (\<lambda>_. (''read master key'', [])) (read_file l)) (\<lambda>data. ret (master_identity se data))"

definition master_key_data :: "'i secret_env \<Rightarrow> 'i \<Rightarrow> string" where
  "master_key_data se i =
     ''# dygo master key'' @ [newline] @ ''# public recipient: '' @ se_recipient se i @ [newline] @ se_print se i @ [newline]"

definition decrypt_document :: "'i secret_env \<Rightarrow> 'i \<Rightarrow> string \<Rightarrow> message + document" where
  "decrypt_document se i c =
     (case se_decrypt se i c of None \<Rightarrow> Inl (''decrypt secrets'', []) | Some p \<Rightarrow> decode_document (se_yaml se) (se_scalar se) p)"

definition encrypt_document :: "'i secret_env \<Rightarrow> string list \<Rightarrow> document \<Rightarrow> message + string" where
  "encrypt_document se rs doc =
     (case se_marshal se doc of None \<Rightarrow> Inl (''encode secrets document'', [])
      | Some p \<Rightarrow> (case se_encrypt se rs p of None \<Rightarrow> Inl (''encrypt secrets'', []) | Some c \<Rightarrow> Inr c))"

definition load_with_identity :: "'i secret_env \<Rightarrow> 'i \<Rightarrow> environment \<Rightarrow> (message, document) act" where
  "load_with_identity se i e =
     andthen (tell (\<lambda>_. (''read encrypted secrets file'', [])) (read_file (SecretFile e))) (\<lambda>c. ret (decrypt_document se i c))"

definition load_document :: "'i secret_env \<Rightarrow> environment \<Rightarrow> (message, document) act" where
  "load_document se e = andthen (load_master se MasterKey) (\<lambda>i. load_with_identity se i e)"

definition save_document :: "'i secret_env \<Rightarrow> environment \<Rightarrow> document \<Rightarrow> (message, unit) act" where
  "save_document se e doc =
     andthen (load_master se MasterKey) (\<lambda>i. andthen (ret (encrypt_document se [se_recipient se i] doc)) (\<lambda>c.
       tell (\<lambda>_. (''write encrypted secrets file'', [])) (write_file (SecretFile e) c)))"

definition save_plaintext :: "'i secret_env \<Rightarrow> environment \<Rightarrow> string \<Rightarrow> (message, unit) act" where
  "save_plaintext se e p = andthen (ret (decode_document (se_yaml se) (se_scalar se) p)) (\<lambda>doc. save_document se e doc)"

definition plaintext_of :: "'i secret_env \<Rightarrow> environment \<Rightarrow> (message, string) act" where
  "plaintext_of se e = andthen (load_document se e) (\<lambda>doc.
     ret (case se_marshal se doc of None \<Rightarrow> Inl (''encode secrets document'', []) | Some p \<Rightarrow> Inr p))"

definition set_secret :: "'i secret_env \<Rightarrow> environment \<Rightarrow> string \<Rightarrow> string \<Rightarrow> (message, unit) act" where
  "set_secret se e name v =
     andthen (ret (validate_secret_name name)) (\<lambda>_. andthen (load_document se e) (\<lambda>doc. save_document se e (document_set name v doc)))"

definition not_defined :: "string \<Rightarrow> environment \<Rightarrow> message" where
  "not_defined name e = (''secret %q is not defined for %s'', [name, environment_name e])"

definition get_secret :: "'i secret_env \<Rightarrow> environment \<Rightarrow> string \<Rightarrow> (message, string) act" where
  "get_secret se e name =
     andthen (ret (validate_secret_name name)) (\<lambda>_. andthen (load_document se e) (\<lambda>doc.
       ret (bindR (document_value name doc) (\<lambda>v. case v of None \<Rightarrow> Inl (not_defined name e) | Some s \<Rightarrow> Inr s))))"

definition remove_secret :: "'i secret_env \<Rightarrow> environment \<Rightarrow> string \<Rightarrow> (message, unit) act" where
  "remove_secret se e name =
     andthen (ret (validate_secret_name name)) (\<lambda>_. andthen (load_document se e) (\<lambda>doc.
       case document_remove name doc of None \<Rightarrow> ret (Inl (not_defined name e)) | Some doc' \<Rightarrow> save_document se e doc'))"

definition list_secrets :: "'i secret_env \<Rightarrow> environment \<Rightarrow> (message, (string \<times> string) list) act" where
  "list_secrets se e = andthen (load_document se e) (\<lambda>doc. ret (Inr (document_entries doc)))"

text \<open>The manifests of the project are an argument.  An empty list is a valid environment.\<close>

definition validate_secrets :: "'i secret_env \<Rightarrow> (string \<times> node) list \<Rightarrow> environment \<Rightarrow> (message, message list) act" where
  "validate_secrets se files e = andthen (load_document se e) (\<lambda>doc. ret (Inr (reference_problems files doc)))"

section \<open>Creating the files\<close>

definition encrypt_documents :: "'i secret_env \<Rightarrow> string list \<Rightarrow> (environment \<times> document) list \<Rightarrow> message + (environment \<times> string) list" where
  "encrypt_documents se rs docs = mapR (\<lambda>(e, doc). bindR (encrypt_document se rs doc) (\<lambda>c. Inr (e, c))) docs"

definition file_exists :: "location \<Rightarrow> disk \<Rightarrow> bool" where
  "file_exists l d = (dk_files d l \<noteq> None)"

definition write_secret_files :: "(environment \<times> string) list \<Rightarrow> (message, unit) act" where
  "write_secret_files cs =
     for_each (\<lambda>(e, c). tell (\<lambda>_. (''write encrypted %s secrets file'', [environment_name e])) (write_file (SecretFile e) c)) cs"

definition init_store :: "'i secret_env \<Rightarrow> (message, unit) act" where
  "init_store se d =
     (let known = file_exists MasterKey d; missing = filter (\<lambda>e. \<not> file_exists (SecretFile e) d) supported_environments in
      andthen (if known then load_master se MasterKey
          else ret (case se_fresh se of None \<Rightarrow> Inl (''generate age identity'', []) | Some i \<Rightarrow> Inr i)) (\<lambda>i.
        if \<not> known \<and> missing \<noteq> supported_environments
        then ret (Inl (''%s already exists but %s is missing; restore the key or remove the stale encrypted file'', []))
        else andthen (ret (encrypt_documents se [se_recipient se i] (map (\<lambda>e. (e, [])) missing))) (\<lambda>cs.
          andthen (if known then ret (Inr ()) else tell (\<lambda>_. (''write master key'', [])) (write_file MasterKey (master_key_data se i))) (\<lambda>_.
            write_secret_files cs))) d)"

section \<open>Rotating the key\<close>

datatype rotation_error = RotationError message "message list" "message list"

definition plain_error :: "(message, 'a) act \<Rightarrow> (rotation_error, 'a) act" where
  "plain_error m = on_error m (\<lambda>e. ret (Inl (RotationError e [] [])))"

definition rotation_locations :: "location list" where
  "rotation_locations = [MasterNext, MasterRollback] @ concat (map (\<lambda>e. [DualNext e, FinalNext e, SecretRollback e]) supported_environments)"

definition cipher_of :: "(environment \<times> string) list \<Rightarrow> environment \<Rightarrow> string" where
  "cipher_of cs e = (case map_of cs e of None \<Rightarrow> [] | Some c \<Rightarrow> c)"

definition stage_rotation :: "string \<Rightarrow> (environment \<times> string) list \<Rightarrow> (environment \<times> string) list \<Rightarrow> (message, unit) act" where
  "stage_rotation key dual final =
     andthen (tell (\<lambda>_. (''stage rotated master key'', [])) (write_file MasterNext key)) (\<lambda>_.
       for_each (\<lambda>e.
         andthen (tell (\<lambda>_. (''stage dual-recipient %s secrets'', [environment_name e])) (write_file (DualNext e) (cipher_of dual e))) (\<lambda>_.
           tell (\<lambda>_. (''stage final %s secrets'', [environment_name e])) (write_file (FinalNext e) (cipher_of final e))))
         supported_environments)"

definition verify_file :: "'i secret_env \<Rightarrow> location \<Rightarrow> document \<Rightarrow> 'i \<Rightarrow> (message, unit) act" where
  "verify_file se l doc i =
     andthen (read_file l) (\<lambda>c. ret (bindR (decrypt_document se i c) (\<lambda>got.
       guardR (deep_equal (SvMap got) (SvMap doc)) (''staged secrets document changed unexpectedly'', []))))"

definition verify_rotation :: "'i secret_env \<Rightarrow> (environment \<times> document) list \<Rightarrow> 'i \<Rightarrow> 'i \<Rightarrow> (message, unit) act" where
  "verify_rotation se docs old new =
     andthen (tell (\<lambda>_. (''verify staged master key'', [])) (load_master se MasterNext)) (\<lambda>staged.
       if se_recipient se staged \<noteq> se_recipient se new
       then ret (Inl (''verify staged master key: staged recipient does not match generated recipient'', []))
       else for_each (\<lambda>(e, doc).
         andthen (tell (\<lambda>_. (''verify staged dual-recipient %s secrets with old key'', [environment_name e])) (verify_file se (DualNext e) doc old)) (\<lambda>_.
         andthen (tell (\<lambda>_. (''verify staged dual-recipient %s secrets with new key'', [environment_name e])) (verify_file se (DualNext e) doc new)) (\<lambda>_.
           tell (\<lambda>_. (''verify staged final %s secrets with new key'', [environment_name e])) (verify_file se (FinalNext e) doc new)))) docs)"

definition copy_file :: "location \<Rightarrow> location \<Rightarrow> (message, unit) act" where
  "copy_file a b = andthen (read_file a) (\<lambda>data. write_file b data)"

definition backup_rotation :: "(message, unit) act" where
  "backup_rotation =
     andthen (tell (\<lambda>_. (''backup master key'', [])) (copy_file MasterKey MasterRollback)) (\<lambda>_.
       for_each (\<lambda>e. tell (\<lambda>_. (''backup %s secrets'', [environment_name e])) (copy_file (SecretFile e) (SecretRollback e))) supported_environments)"

text \<open>Steps that go on after a failure collect what went wrong.\<close>

fun attempt_all :: "('a \<Rightarrow> (message, unit) act) \<Rightarrow> 'a list \<Rightarrow> disk \<Rightarrow> message list \<times> disk" where
  "attempt_all f [] d = ([], d)"
| "attempt_all f (x # xs) d = (case f x d of (r, d') \<Rightarrow> (case attempt_all f xs d' of (ps, d'') \<Rightarrow>
     ((case r of Inl p \<Rightarrow> p # ps | Inr _ \<Rightarrow> ps), d'')))"

definition restore_file :: "location \<times> location \<Rightarrow> (message, unit) act" where
  "restore_file p d = (if file_exists (fst p) d then rename_file (fst p) (snd p) d else (Inr (), d))"

definition restore_backups :: "disk \<Rightarrow> message list \<times> disk" where
  "restore_backups = attempt_all restore_file (map (\<lambda>e. (SecretRollback e, SecretFile e)) supported_environments @ [(MasterRollback, MasterKey)])"

text \<open>The directory of the rotation can be removed when it is empty.\<close>

definition remove_rotate_dir :: "(message, unit) act" where
  "remove_rotate_dir d =
     (if list_ex (\<lambda>l. file_exists l d) rotation_locations then (Inl (''remove %s'', [location_path RotateDir]), d)
      else change (\<lambda>fs. fs) (''remove %s'', [location_path RotateDir]) d)"

definition cleanup_rotation :: "disk \<Rightarrow> message list \<times> disk" where
  "cleanup_rotation d =
     attempt_all (\<lambda>l. if l = RotateDir then remove_rotate_dir else remove_file l) (rotation_locations @ [RotateDir]) d"

definition abort_early :: "message \<Rightarrow> (rotation_error, unit) act" where
  "abort_early m d = (Inl (RotationError m [] []), snd (cleanup_rotation d))"

definition abort_rollback :: "message \<Rightarrow> (rotation_error, unit) act" where
  "abort_rollback m d =
     (case restore_backups d of (rs, d1) \<Rightarrow> (case cleanup_rotation d1 of (cs, d2) \<Rightarrow> (Inl (RotationError m rs cs), d2)))"

definition abort_forward :: "message \<Rightarrow> (rotation_error, unit) act" where
  "abort_forward m d = (case cleanup_rotation d of (cs, d1) \<Rightarrow> (Inl (RotationError m [] cs), d1))"

definition finish_rotation :: "(rotation_error, unit) act" where
  "finish_rotation d =
     (case cleanup_rotation d of (cs, d1) \<Rightarrow>
        (if cs = [] then Inr () else Inl (RotationError (''secrets key rotation completed but cleanup failed'', []) [] cs), d1))"

definition replace_files :: "string \<Rightarrow> (environment \<Rightarrow> location) \<Rightarrow> (message, unit) act" where
  "replace_files what from = for_each (\<lambda>e. tell (\<lambda>_. (what, [environment_name e])) (rename_file (from e) (SecretFile e))) supported_environments"

definition swap_rotation :: "'i secret_env \<Rightarrow> (rotation_error, unit) act" where
  "swap_rotation se =
     andthen (on_error (replace_files ''replace %s secrets with dual-recipient file'' DualNext) abort_rollback) (\<lambda>_.
     andthen (on_error (tell (\<lambda>_. (''replace master key'', [])) (rename_file MasterNext MasterKey)) abort_rollback) (\<lambda>_.
     andthen (on_error (replace_files ''finalize rotated %s secrets; rotation is recoverable with the new master.key'' FinalNext) abort_forward) (\<lambda>_.
     andthen (on_error (for_each (\<lambda>e. tell (\<lambda>_. (''verify rotated %s secrets with new master.key'', [environment_name e]))
         (andthen (load_document se e) (\<lambda>_. ret (Inr ())))) supported_environments) abort_forward) (\<lambda>_.
       finish_rotation))))"

definition rotate_staged :: "'i secret_env \<Rightarrow> (environment \<times> document) list \<Rightarrow> 'i \<Rightarrow> 'i \<Rightarrow> (environment \<times> string) list \<Rightarrow> (environment \<times> string) list \<Rightarrow>
    (rotation_error, unit) act" where
  "rotate_staged se docs old new dual final =
     andthen (on_error (stage_rotation (master_key_data se new) dual final) abort_early) (\<lambda>_.
     andthen (on_error (verify_rotation se docs old new) abort_early) (\<lambda>_.
     andthen (on_error backup_rotation abort_early) (\<lambda>_.
       swap_rotation se)))"

definition rotate_documents :: "'i secret_env \<Rightarrow> 'i \<Rightarrow> (environment \<times> document) list \<Rightarrow> (rotation_error, unit) act" where
  "rotate_documents se old docs =
     andthen (plain_error (ret (case se_fresh se of None \<Rightarrow> Inl (''generate age identity'', []) | Some i \<Rightarrow> Inr i))) (\<lambda>new.
     andthen (plain_error (ret (encrypt_documents se [se_recipient se old, se_recipient se new] docs))) (\<lambda>dual.
     andthen (plain_error (ret (encrypt_documents se [se_recipient se new] docs))) (\<lambda>final.
       rotate_staged se docs old new dual final)))"

definition load_all :: "'i secret_env \<Rightarrow> 'i \<Rightarrow> (message, (environment \<times> document) list) act" where
  "load_all se old =
     collect (\<lambda>e. tell (\<lambda>_. (''load existing %s secrets before rotating key'', [environment_name e]))
       (andthen (load_with_identity se old e) (\<lambda>doc. ret (Inr (e, doc))))) supported_environments"

definition rotate_key :: "'i secret_env \<Rightarrow> (rotation_error, unit) act" where
  "rotate_key se =
     andthen (plain_error (load_master se MasterKey)) (\<lambda>old.
       andthen (plain_error (load_all se old)) (\<lambda>docs. rotate_documents se old docs))"

end
