(* ===== verification/Secret_Guarantees.thy ===== *)
theory Secret_Guarantees
  imports Secret_Store
begin

text \<open>
  The rotation of the master key never loses a secret: whatever file operation fails and wherever the
  program is stopped, the key on disk opens every secret file.  The proof is a small Hoare logic for
  actions on the disk.
\<close>

section \<open>A logic of actions\<close>

text \<open>\<open>keeps P m Q E\<close>: from files in \<open>P\<close> the action ends well in \<open>Q\<close> or with an error in \<open>E\<close>, whatever
  becomes of its operations.\<close>

type_synonym files = "location \<rightharpoonup> string"

definition fine :: "(files \<Rightarrow> bool) \<Rightarrow> disk \<Rightarrow> bool" where
  "fine P d \<longleftrightarrow> P (dk_files d)"

definition keeps :: "(files \<Rightarrow> bool) \<Rightarrow> ('e, 'a) act \<Rightarrow> ('a \<Rightarrow> files \<Rightarrow> bool) \<Rightarrow> (files \<Rightarrow> bool) \<Rightarrow> bool" where
  "keeps P m Q E \<longleftrightarrow>
     (\<forall>d r d'. fine P d \<longrightarrow> m d = (r, d') \<longrightarrow> (case r of Inl e \<Rightarrow> fine E d' | Inr a \<Rightarrow> fine (Q a) d'))"

lemma keepsI:
  assumes "\<And>d e d'. fine P d \<Longrightarrow> m d = (Inl e, d') \<Longrightarrow> fine E d'"
    and "\<And>d a d'. fine P d \<Longrightarrow> m d = (Inr a, d') \<Longrightarrow> fine (Q a) d'"
  shows "keeps P m Q E"
  using assms by (auto simp: keeps_def split: sum.splits)

lemma keepsE: "keeps P m Q E \<Longrightarrow> fine P d \<Longrightarrow> m d = (Inl e, d') \<Longrightarrow> fine E d'"
  and keepsR: "keeps P m Q E \<Longrightarrow> fine P d \<Longrightarrow> m d = (Inr a, d') \<Longrightarrow> fine (Q a) d'"
  by (fastforce simp: keeps_def)+

lemma fine_weaken: "fine P d \<Longrightarrow> (\<And>f. P f \<Longrightarrow> Q f) \<Longrightarrow> fine Q d"
  by (simp add: fine_def)

lemma keeps_weaken:
  assumes "keeps P m Q E" "\<And>f. P' f \<Longrightarrow> P f" "\<And>a f. Q a f \<Longrightarrow> Q' a f" "\<And>f. E f \<Longrightarrow> E' f"
  shows "keeps P' m Q' E'"
  using keepsE [OF assms(1)] keepsR [OF assms(1)] fine_weaken assms(2,3,4) by (intro keepsI) metis+

lemma keeps_pure:
  assumes "\<And>f. P f \<Longrightarrow> (case r of Inl e \<Rightarrow> E f | Inr a \<Rightarrow> Q a f)"
  shows "keeps P (ret r) Q E"
  using assms by (auto simp: keeps_def ret_def fine_def split: sum.splits)

lemma keeps_andthen:
  assumes "keeps P m Q E" "\<And>a. keeps (Q a) (f a) S E"
  shows "keeps P (andthen m f) S E"
proof (rule keepsI)
  fix d e d' assume d: "fine P d" "andthen m f d = (Inl e, d')"
  show "fine E d'"
  proof (cases "m d")
    case (Pair r d1)
    with d keepsE [OF assms(1) d(1)] keepsR [OF assms(1) d(1)] keepsE [OF assms(2)] show ?thesis by (cases r) (auto simp: andthen_def)
  qed
next
  fix d a d' assume d: "fine P d" "andthen m f d = (Inr a, d')"
  show "fine (S a) d'"
  proof (cases "m d")
    case (Pair r d1)
    with d keepsR [OF assms(1) d(1)] keepsR [OF assms(2)] show ?thesis by (cases r) (auto simp: andthen_def)
  qed
qed

lemma keeps_if:
  assumes "c \<Longrightarrow> keeps P m Q E" "\<not> c \<Longrightarrow> keeps P n Q E"
  shows "keeps P (if c then m else n) Q E"
  using assms by (cases c) simp_all

lemma keeps_on_error:
  assumes "keeps P m Q D" "\<And>e. keeps D (h e) Q E"
  shows "keeps P (on_error m h) Q E"
proof (rule keepsI)
  fix d e d' assume d: "fine P d" "on_error m h d = (Inl e, d')"
  show "fine E d'"
  proof (cases "m d")
    case (Pair r d1)
    with d keepsE [OF assms(1) d(1)] keepsE [OF assms(2)] show ?thesis by (cases r) (auto simp: on_error_def)
  qed
next
  fix d a d' assume d: "fine P d" "on_error m h d = (Inr a, d')"
  show "fine (Q a) d'"
  proof (cases "m d")
    case (Pair r d1)
    with d keepsE [OF assms(1) d(1)] keepsR [OF assms(1) d(1)] keepsR [OF assms(2)] show ?thesis by (cases r) (auto simp: on_error_def)
  qed
qed

lemma keeps_tell: "keeps P m Q E \<Longrightarrow> keeps P (tell w m) Q E"
  unfolding tell_def by (erule keeps_on_error) (auto intro: keeps_pure)

lemma keeps_plain_error: "keeps P m Q E \<Longrightarrow> keeps P (plain_error m) Q E"
  unfolding plain_error_def by (erule keeps_on_error) (auto intro: keeps_pure)

lemma ret_then: "andthen (plain_error (ret (Inr a))) f = f a"
  by (rule ext) (simp add: andthen_def plain_error_def on_error_def ret_def)

lemma keeps_for_each_from:
  assumes "\<And>x pre post. xs = pre @ x # post \<Longrightarrow> keeps (P pre) (f x) (\<lambda>_. P (pre @ [x])) E" "xs = pre @ post"
  shows "keeps (P pre) (for_each f post) (\<lambda>_. P xs) E"
  using assms(2)
proof (induction post arbitrary: pre)
  case Nil
  then show ?case by (auto intro: keeps_pure)
next
  case (Cons x post)
  have "keeps (P pre) (f x) (\<lambda>_. P (pre @ [x])) E" by (rule assms(1)) (rule Cons.prems)
  moreover have "keeps (P (pre @ [x])) (for_each f post) (\<lambda>_. P xs) E" by (rule Cons.IH) (simp add: Cons.prems)
  ultimately show ?case by (auto intro: keeps_andthen)
qed

lemma keeps_for_each:
  assumes "\<And>x pre post. xs = pre @ x # post \<Longrightarrow> keeps (P pre) (f x) (\<lambda>_. P (pre @ [x])) E"
  shows "keeps (P []) (for_each f xs) (\<lambda>_. P xs) E"
  by (rule keeps_for_each_from [OF assms]) simp_all

lemma keeps_each:
  assumes "\<And>x. x \<in> set xs \<Longrightarrow> keeps P (f x) (\<lambda>_. P) E"
  shows "keeps P (for_each f xs) (\<lambda>_. P) E"
  by (rule keeps_for_each [where P = "\<lambda>_. P"]) (simp add: assms)

lemma keeps_read:
  assumes "\<And>f c. P f \<Longrightarrow> f l = Some c \<Longrightarrow> Q c f" "\<And>f. P f \<Longrightarrow> E f"
  shows "keeps P (read_file l) Q E"
  using assms by (intro keepsI) (auto simp: read_file_def next_fault_def fine_def split: list.split_asm outcome.split_asm option.split_asm)

lemma keeps_change:
  assumes "\<And>f. P f \<Longrightarrow> Q (g f)" "\<And>f. P f \<Longrightarrow> E f"
  shows "keeps P (change g e) (\<lambda>_. Q) E"
  using assms by (intro keepsI) (auto simp: change_def next_fault_def fine_def split: list.split_asm outcome.split_asm if_split_asm)

lemma keeps_write:
  assumes "\<And>f. P f \<Longrightarrow> Q (f(l \<mapsto> c))" "\<And>f. P f \<Longrightarrow> E f"
  shows "keeps P (write_file l c) (\<lambda>_. Q) E"
  unfolding write_file_def by (rule keeps_change) (use assms in auto)

lemma keeps_rename:
  assumes "\<And>f c. P f \<Longrightarrow> f x = Some c \<Longrightarrow> Q ((f(y \<mapsto> c))(x := None))"
    and "\<And>f. P f \<Longrightarrow> E f"
  shows "keeps P (rename_file x y) (\<lambda>_. Q) E"
  using assms by (intro keepsI)
    (auto simp: rename_file_def change_def next_fault_def fine_def split: list.split_asm outcome.split_asm option.split_asm)

lemma keeps_remove:
  assumes "\<And>f. P f \<Longrightarrow> Q (f(l := None))" "\<And>f. P f \<Longrightarrow> E f"
  shows "keeps P (remove_file l) (\<lambda>_. Q) E"
proof -
  have "Q f" if "P f" "f l = None" for f
  proof -
    have "f(l := None) = f" using that(2) by (simp add: fun_eq_iff)
    then show ?thesis using assms(1) [OF that(1)] by simp
  qed
  then show ?thesis using assms
    by (intro keepsI) (auto simp: remove_file_def change_def next_fault_def fine_def split: list.split_asm outcome.split_asm if_split_asm)
qed

text \<open>What is attempted in spite of errors keeps an invariant that all its steps keep.\<close>

lemma attempt_all_keeps:
  assumes "\<And>x. x \<in> set xs \<Longrightarrow> keeps P (f x) (\<lambda>_. P) P" "fine P d"
  shows "fine P (snd (attempt_all f xs d))"
  using assms
proof (induction xs arbitrary: d)
  case (Cons x xs)
  obtain r d' where x: "f x d = (r, d')" by (cases "f x d") auto
  have "fine P d'" using Cons.prems(1) [of x] Cons.prems(2) x by (cases r; auto dest: keepsE keepsR)
  with Cons.IH Cons.prems(1) have "fine P (snd (attempt_all f xs d'))" by simp
  then show ?case by (cases "attempt_all f xs d'") (simp add: x)
qed simp

section \<open>The states of a rotation\<close>

text \<open>The key on disk opens every secret file, with the documents in \<open>docs\<close>.\<close>

definition opens :: "'i secret_env \<Rightarrow> 'i \<Rightarrow> string \<Rightarrow> document \<Rightarrow> bool" where
  "opens se i c doc \<longleftrightarrow> (\<exists>got. decrypt_document se i c = Inr got \<and> (got = doc \<or> deep_equal (SvMap got) (SvMap doc)))"

definition key_file :: "'i secret_env \<Rightarrow> 'i \<Rightarrow> string \<Rightarrow> bool" where
  "key_file se i c \<longleftrightarrow> (\<exists>j. master_identity se c = Inr j \<and> se_decrypt se j = se_decrypt se i)"

definition opened_with :: "'i secret_env \<Rightarrow> (environment \<Rightarrow> document) \<Rightarrow> 'i \<Rightarrow> files \<Rightarrow> bool" where
  "opened_with se docs i f \<longleftrightarrow> (\<exists>c. f MasterKey = Some c \<and> key_file se i c) \<and> (\<forall>e. \<exists>c. f (SecretFile e) = Some c \<and> opens se i c (docs e))"

definition readable :: "'i secret_env \<Rightarrow> (environment \<Rightarrow> document) \<Rightarrow> files \<Rightarrow> bool" where
  "readable se docs f \<longleftrightarrow> (\<exists>i. opened_with se docs i f)"

text \<open>The staged and saved files, where they exist, for some of the environments.\<close>

definition staged :: "'i secret_env \<Rightarrow> (environment \<Rightarrow> document) \<Rightarrow> 'i \<Rightarrow> 'i \<Rightarrow> environment set \<Rightarrow> files \<Rightarrow> bool" where
  "staged se docs old new S f \<longleftrightarrow> (\<forall>c. f MasterNext = Some c \<longrightarrow> key_file se new c)
     \<and> (\<forall>e\<in>S. \<forall>c. f (DualNext e) = Some c \<longrightarrow> opens se old c (docs e) \<and> opens se new c (docs e))
     \<and> (\<forall>e\<in>S. \<forall>c. f (FinalNext e) = Some c \<longrightarrow> opens se new c (docs e))"

definition backed_up :: "'i secret_env \<Rightarrow> (environment \<Rightarrow> document) \<Rightarrow> 'i \<Rightarrow> environment set \<Rightarrow> files \<Rightarrow> bool" where
  "backed_up se docs old S f \<longleftrightarrow> (\<forall>c. f MasterRollback = Some c \<longrightarrow> key_file se old c)
     \<and> (\<forall>e\<in>S. \<forall>c. f (SecretRollback e) = Some c \<longrightarrow> opens se old c (docs e))"

definition replaced :: "'i secret_env \<Rightarrow> (environment \<Rightarrow> document) \<Rightarrow> 'i \<Rightarrow> environment set \<Rightarrow> files \<Rightarrow> bool" where
  "replaced se docs new S f \<longleftrightarrow> (\<forall>e\<in>S. \<exists>c. f (SecretFile e) = Some c \<and> opens se new c (docs e))"

lemma opened_with_readable: "opened_with se docs i f \<Longrightarrow> readable se docs f"
  by (auto simp: readable_def)

text \<open>Only the key and the secret files matter to what is readable.\<close>

definition scratch_location :: "location \<Rightarrow> bool" where
  "scratch_location l = (case l of MasterKey \<Rightarrow> False | SecretFile e \<Rightarrow> False | _ \<Rightarrow> True)"

lemma opened_with_scratch [simp]: "scratch_location l \<Longrightarrow> opened_with se docs i (f(l := x)) = opened_with se docs i f"
  by (cases l) (simp_all add: opened_with_def scratch_location_def)

lemma scratch_simps [simp]: "scratch_location MasterNext" "scratch_location MasterRollback" "scratch_location (DualNext e)"
  "scratch_location (FinalNext e)" "scratch_location (SecretRollback e)"
  by (simp_all add: scratch_location_def)

lemma rotation_locations_scratch: "l \<in> set rotation_locations \<Longrightarrow> scratch_location l"
  by (auto simp: rotation_locations_def)

text \<open>Putting one readable file in place of another.\<close>

lemma opened_with_secret: "opened_with se docs i f \<Longrightarrow> opens se i c (docs e) \<Longrightarrow> opened_with se docs i (f(SecretFile e \<mapsto> c))"
  by (simp add: opened_with_def)

lemma opened_with_key: "opened_with se docs i f \<Longrightarrow> key_file se i c \<Longrightarrow> opened_with se docs i (f(MasterKey \<mapsto> c))"
  by (simp add: opened_with_def)

lemma environments_all [simp]: "set supported_environments = UNIV"
  using all_environments by blast

section \<open>Cleaning up and rolling back\<close>

lemma keeps_remove_dir: "keeps P remove_rotate_dir (\<lambda>_. P) P"
  by (intro keepsI) (auto simp: remove_rotate_dir_def change_def next_fault_def fine_def split: list.split_asm outcome.split_asm if_split_asm)

lemma cleanup_keeps:
  assumes "fine (opened_with se docs i) d"
  shows "fine (opened_with se docs i) (snd (cleanup_rotation d))"
  unfolding cleanup_rotation_def
proof (rule attempt_all_keeps [OF _ assms])
  fix l assume "l \<in> set (rotation_locations @ [RotateDir])"
  then show "keeps (opened_with se docs i) (if l = RotateDir then remove_rotate_dir else remove_file l)
      (\<lambda>_. opened_with se docs i) (opened_with se docs i)"
    using rotation_locations_scratch [of l] opened_with_readable [of se docs i]
    by (auto intro: keeps_remove_dir keeps_remove)
qed

lemma abort_early_keeps: "keeps (opened_with se docs i) (abort_early m) Q (opened_with se docs i)"
  by (intro keepsI) (auto simp: abort_early_def dest: cleanup_keeps)

lemma abort_forward_keeps: "keeps (opened_with se docs i) (abort_forward m) Q (opened_with se docs i)"
  by (intro keepsI) (auto simp: abort_forward_def split: prod.split_asm dest: cleanup_keeps)

lemma finish_keeps: "keeps (opened_with se docs i) finish_rotation (\<lambda>_. opened_with se docs i) (opened_with se docs i)"
  by (intro keepsI) (auto simp: finish_rotation_def split: prod.split_asm if_split_asm dest: cleanup_keeps)

lemma restore_file_keeps:
  assumes "keeps P (rename_file (fst p) (snd p)) (\<lambda>_. P) P"
  shows "keeps P (restore_file p) (\<lambda>_. P) P"
proof (rule keepsI)
  fix d e d' assume d: "fine P d" "restore_file p d = (Inl e, d')"
  then show "fine P d'" using keepsE [OF assms d(1)] by (cases "file_exists (fst p) d") (simp_all add: restore_file_def)
next
  fix d and a :: unit and d' assume d: "fine P d" "restore_file p d = (Inr a, d')"
  then show "fine P d'" using keepsR [OF assms d(1)] by (cases "file_exists (fst p) d") (simp_all add: restore_file_def)
qed

lemma restore_keeps:
  assumes "fine (\<lambda>f. opened_with se docs old f \<and> backed_up se docs old UNIV f) d"
  shows "fine (\<lambda>f. opened_with se docs old f \<and> backed_up se docs old UNIV f) (snd (restore_backups d))"
  unfolding restore_backups_def
proof (rule attempt_all_keeps [OF _ assms])
  let ?P = "\<lambda>f. opened_with se docs old f \<and> backed_up se docs old UNIV f"
  fix p assume "p \<in> set (map (\<lambda>e. (SecretRollback e, SecretFile e)) supported_environments @ [(MasterRollback, MasterKey)])"
  then consider e where "p = (SecretRollback e, SecretFile e)" | "p = (MasterRollback, MasterKey)" by auto
  then have r: "keeps ?P (rename_file (fst p) (snd p)) (\<lambda>_. ?P) ?P"
  proof cases
    case 1
    show ?thesis unfolding 1 fst_conv snd_conv
    proof (rule keeps_rename)
      fix f c assume f: "?P f" "f (SecretRollback e) = Some c"
      then have "opened_with se docs old (f(SecretFile e \<mapsto> c))" by (intro opened_with_secret) (auto simp: backed_up_def)
      then show "?P ((f(SecretFile e \<mapsto> c))(SecretRollback e := None))"
        using f(1) by (auto simp: backed_up_def intro: opened_with_readable)
    qed simp
  next
    case 2
    show ?thesis unfolding 2 fst_conv snd_conv
    proof (rule keeps_rename)
      fix f c assume f: "?P f" "f MasterRollback = Some c"
      then have "opened_with se docs old (f(MasterKey \<mapsto> c))" by (intro opened_with_key) (auto simp: backed_up_def)
      then show "?P ((f(MasterKey \<mapsto> c))(MasterRollback := None))"
        using f(1) by (auto simp: backed_up_def intro: opened_with_readable)
    qed simp
  qed
  show "keeps ?P (restore_file p) (\<lambda>_. ?P) ?P"
    using r by (rule restore_file_keeps)
qed

lemma abort_rollback_keeps:
  "keeps (\<lambda>f. opened_with se docs old f \<and> backed_up se docs old UNIV f) (abort_rollback m) Q (opened_with se docs old)"
proof (rule keepsI)
  fix d e d' assume d: "fine (\<lambda>f. opened_with se docs old f \<and> backed_up se docs old UNIV f) d"
    "abort_rollback m d = (Inl e, d')"
  from restore_keeps [OF d(1)] have "fine (opened_with se docs old) (snd (restore_backups d))"
    by (rule fine_weaken) simp
  from cleanup_keeps [OF this] d(2) show "fine (opened_with se docs old) d'"
    by (auto simp: abort_rollback_def split: prod.split_asm)
qed (auto simp: abort_rollback_def split: prod.split_asm)

section \<open>Staging, verifying and saving\<close>

lemma stage_keeps:
  "keeps (opened_with se docs i) (stage_rotation key dual final) (\<lambda>_. opened_with se docs i) (opened_with se docs i)"
proof -
  have w: "keeps (opened_with se docs i) (tell w (write_file l c)) (\<lambda>_. opened_with se docs i) (opened_with se docs i)"
    if "scratch_location l" for w l c
    using that opened_with_readable [of se docs i] by (intro keeps_tell keeps_write) auto
  show ?thesis unfolding stage_rotation_def
    by (rule keeps_andthen [OF w [OF scratch_simps(1)]], rule keeps_each, rule keeps_andthen [OF w [OF scratch_simps(3)]], rule w [OF scratch_simps(4)])
qed

lemma opens_same: "se_decrypt se j = se_decrypt se i \<Longrightarrow> opens se j c doc = opens se i c doc"
  by (simp add: opens_def decrypt_document_def)

lemma verify_file_keeps:
  assumes "\<And>f. P f \<Longrightarrow> E f"
  shows "keeps P (verify_file se l doc i) (\<lambda>_ f. P f \<and> (\<forall>c. f l = Some c \<longrightarrow> opens se i c doc)) E"
  unfolding verify_file_def
  by (rule keeps_andthen [where Q = "\<lambda>c f. P f \<and> f l = Some c"])
    (use assms in \<open>auto intro!: keeps_read keeps_pure simp: opens_def bindR_def guardR_def split: sum.splits\<close>)

lemma verify_keeps:
  assumes "\<And>i j. se_recipient se i = se_recipient se j \<Longrightarrow> se_decrypt se i = se_decrypt se j"
  shows "keeps (opened_with se docs old) (verify_rotation se (map (\<lambda>e. (e, docs e)) supported_environments) old new)
    (\<lambda>_ f. opened_with se docs old f \<and> staged se docs old new UNIV f) (opened_with se docs old)"
proof -
  let ?O = "opened_with se docs old" and ?S = "staged se docs old new"
  let ?xs = "map (\<lambda>e. (e, docs e)) supported_environments"
  have master: "keeps ?O (tell w (load_master se MasterNext))
      (\<lambda>j f. ?O f \<and> (\<forall>c. f MasterNext = Some c \<longrightarrow> master_identity se c = Inr j)) ?O" for w
    unfolding load_master_def
    by (rule keeps_tell, rule keeps_andthen [where Q = "\<lambda>c f. ?O f \<and> f MasterNext = Some c"])
      (auto intro!: keeps_tell keeps_read keeps_pure split: sum.splits)
  have one: "keeps (\<lambda>f. ?O f \<and> ?S (fst ` set pre) f) (andthen (tell w1 (verify_file se (DualNext e) (docs e) old)) (\<lambda>_.
        andthen (tell w2 (verify_file se (DualNext e) (docs e) new)) (\<lambda>_. tell w3 (verify_file se (FinalNext e) (docs e) new))))
      (\<lambda>_ f. ?O f \<and> ?S (insert e (fst ` set pre)) f) ?O" for pre :: "(environment \<times> document) list" and e w1 w2 w3
  proof -
    let ?P = "\<lambda>f. ?O f \<and> ?S (fst ` set pre) f"
    let ?P1 = "\<lambda>f. ?P f \<and> (\<forall>c. f (DualNext e) = Some c \<longrightarrow> opens se old c (docs e))"
    let ?P2 = "\<lambda>f. ?P1 f \<and> (\<forall>c. f (DualNext e) = Some c \<longrightarrow> opens se new c (docs e))"
    have "keeps ?P (tell w1 (verify_file se (DualNext e) (docs e) old)) (\<lambda>_. ?P1) ?O"
      "keeps ?P1 (tell w2 (verify_file se (DualNext e) (docs e) new)) (\<lambda>_. ?P2) ?O"
      by (rule keeps_tell, rule verify_file_keeps, simp)+
    moreover have "keeps ?P2 (tell w3 (verify_file se (FinalNext e) (docs e) new))
        (\<lambda>_ f. ?O f \<and> ?S (insert e (fst ` set pre)) f) ?O"
    proof (rule keeps_tell)
      have "keeps ?P2 (verify_file se (FinalNext e) (docs e) new) (\<lambda>_ f. ?P2 f \<and> (\<forall>c. f (FinalNext e) = Some c \<longrightarrow> opens se new c (docs e))) ?O"
        by (rule verify_file_keeps) simp
      then show "keeps ?P2 (verify_file se (FinalNext e) (docs e) new) (\<lambda>_ f. ?O f \<and> ?S (insert e (fst ` set pre)) f) ?O"
        by (rule keeps_weaken) (auto simp: staged_def)
    qed
    ultimately show ?thesis by (intro keeps_andthen)
  qed
  have all: "keeps (\<lambda>f. ?O f \<and> ?S {} f) (for_each (\<lambda>(e, doc).
        andthen (tell (w1 e) (verify_file se (DualNext e) doc old)) (\<lambda>_.
        andthen (tell (w2 e) (verify_file se (DualNext e) doc new)) (\<lambda>_. tell (w3 e) (verify_file se (FinalNext e) doc new)))) ?xs)
      (\<lambda>_ f. ?O f \<and> ?S UNIV f) ?O" for w1 w2 w3
  proof -
    have "keeps (\<lambda>f. ?O f \<and> ?S (fst ` set ([] :: (environment \<times> document) list)) f) (for_each (\<lambda>(e, doc).
        andthen (tell (w1 e) (verify_file se (DualNext e) doc old)) (\<lambda>_.
        andthen (tell (w2 e) (verify_file se (DualNext e) doc new)) (\<lambda>_. tell (w3 e) (verify_file se (FinalNext e) doc new)))) ?xs)
      (\<lambda>_ f. ?O f \<and> ?S (fst ` set ?xs) f) ?O"
    proof (rule keeps_for_each [where P = "\<lambda>pre f. ?O f \<and> ?S (fst ` set pre) f"])
      fix x pre post assume "?xs = pre @ x # post"
      then have "x \<in> set ?xs" by simp
      then obtain e where "x = (e, docs e)" by auto
      then show "keeps (\<lambda>f. ?O f \<and> ?S (fst ` set pre) f) (case x of (e, doc) \<Rightarrow>
          andthen (tell (w1 e) (verify_file se (DualNext e) doc old)) (\<lambda>_.
          andthen (tell (w2 e) (verify_file se (DualNext e) doc new)) (\<lambda>_. tell (w3 e) (verify_file se (FinalNext e) doc new))))
        (\<lambda>_ f. ?O f \<and> ?S (fst ` set (pre @ [x])) f) ?O"
        using one [where pre = pre and e = e and ?w1.0 = "w1 e" and ?w2.0 = "w2 e" and ?w3.0 = "w3 e"] by simp
    qed
    then show ?thesis by (simp add: image_image)
  qed
  show ?thesis unfolding verify_rotation_def
  proof (rule keeps_andthen [OF master])
    fix j
    show "keeps (\<lambda>f. ?O f \<and> (\<forall>c. f MasterNext = Some c \<longrightarrow> master_identity se c = Inr j))
        (if se_recipient se j \<noteq> se_recipient se new then ret (Inl (''verify staged master key: staged recipient does not match generated recipient'', []))
         else for_each (\<lambda>(e, doc).
           andthen (tell (\<lambda>_. (''verify staged dual-recipient %s secrets with old key'', [environment_name e])) (verify_file se (DualNext e) doc old)) (\<lambda>_.
           andthen (tell (\<lambda>_. (''verify staged dual-recipient %s secrets with new key'', [environment_name e])) (verify_file se (DualNext e) doc new)) (\<lambda>_.
             tell (\<lambda>_. (''verify staged final %s secrets with new key'', [environment_name e])) (verify_file se (FinalNext e) doc new)))) ?xs)
        (\<lambda>_ f. ?O f \<and> ?S UNIV f) ?O"
    proof (rule keeps_if)
      assume "\<not> se_recipient se j \<noteq> se_recipient se new"
      then have "se_decrypt se j = se_decrypt se new" by (intro assms) simp
      then have start: "?O f \<and> (\<forall>c. f MasterNext = Some c \<longrightarrow> master_identity se c = Inr j) \<Longrightarrow> ?O f \<and> ?S {} f" for f
        by (auto simp: staged_def key_file_def)
      show "keeps (\<lambda>f. ?O f \<and> (\<forall>c. f MasterNext = Some c \<longrightarrow> master_identity se c = Inr j)) (for_each (\<lambda>(e, doc).
           andthen (tell (\<lambda>_. (''verify staged dual-recipient %s secrets with old key'', [environment_name e])) (verify_file se (DualNext e) doc old)) (\<lambda>_.
           andthen (tell (\<lambda>_. (''verify staged dual-recipient %s secrets with new key'', [environment_name e])) (verify_file se (DualNext e) doc new)) (\<lambda>_.
             tell (\<lambda>_. (''verify staged final %s secrets with new key'', [environment_name e])) (verify_file se (FinalNext e) doc new)))) ?xs)
        (\<lambda>_ f. ?O f \<and> ?S UNIV f) ?O"
        by (rule keeps_weaken [OF all start])
    qed (auto intro: keeps_pure)
  qed
qed

lemma copy_keeps:
  assumes "\<And>f c. P f \<Longrightarrow> f x = Some c \<Longrightarrow> Q (f(y \<mapsto> c))" "\<And>f. P f \<Longrightarrow> E f"
  shows "keeps P (copy_file x y) (\<lambda>_. Q) E"
  unfolding copy_file_def
  by (rule keeps_andthen [where Q = "\<lambda>c f. P f \<and> f x = Some c"]) (use assms in \<open>auto intro!: keeps_read keeps_write\<close>)

lemma opened_with_opens: "opened_with se docs i f \<Longrightarrow> f (SecretFile e) = Some c \<Longrightarrow> opens se i c (docs e)"
  unfolding opened_with_def by (metis option.inject)

lemma backup_keeps:
  "keeps (\<lambda>f. opened_with se docs old f \<and> staged se docs old new UNIV f) backup_rotation
    (\<lambda>_ f. opened_with se docs old f \<and> staged se docs old new UNIV f \<and> backed_up se docs old UNIV f) (opened_with se docs old)"
proof -
  let ?O = "opened_with se docs old" and ?S = "staged se docs old new UNIV" and ?B = "backed_up se docs old"
  have master: "keeps (\<lambda>f. ?O f \<and> ?S f) (copy_file MasterKey MasterRollback) (\<lambda>_ f. ?O f \<and> ?S f \<and> ?B {} f) ?O"
  proof (rule copy_keeps)
    fix f c assume f: "?O f \<and> ?S f" "f MasterKey = Some c"
    then have "key_file se old c" by (auto simp: opened_with_def)
    then show "(?O (f(MasterRollback \<mapsto> c)) \<and> ?S (f(MasterRollback \<mapsto> c)) \<and> ?B {} (f(MasterRollback \<mapsto> c)))"
      using f(1) by (auto simp: staged_def backed_up_def intro: opened_with_readable)
  qed simp
  have each: "keeps (\<lambda>f. ?O f \<and> ?S f \<and> ?B (set pre) f) (copy_file (SecretFile e) (SecretRollback e))
      (\<lambda>_ f. ?O f \<and> ?S f \<and> ?B (set (pre @ [e])) f) ?O" for pre e
  proof (rule copy_keeps)
    fix f c assume f: "?O f \<and> ?S f \<and> ?B (set pre) f" "f (SecretFile e) = Some c"
    then have "opens se old c (docs e)" by (blast intro: opened_with_opens)
    then show "(?O (f(SecretRollback e \<mapsto> c)) \<and> ?S (f(SecretRollback e \<mapsto> c)) \<and> ?B (set (pre @ [e])) (f(SecretRollback e \<mapsto> c)))"
      using f(1) by (auto simp: staged_def backed_up_def intro: opened_with_readable)
  qed simp
  have all: "keeps (\<lambda>f. ?O f \<and> ?S f \<and> ?B (set []) f)
      (for_each (\<lambda>e. tell (w e) (copy_file (SecretFile e) (SecretRollback e))) supported_environments)
      (\<lambda>_ f. ?O f \<and> ?S f \<and> ?B (set supported_environments) f) ?O" for w
    by (rule keeps_for_each [where P = "\<lambda>pre f. ?O f \<and> ?S f \<and> ?B (set pre) f"]) (rule keeps_tell, rule each)
  show ?thesis unfolding backup_rotation_def
    by (rule keeps_andthen [OF keeps_tell [OF master]]) (rule all [unfolded environments_all, simplified])
qed

section \<open>The swap\<close>

lemma replace_keeps:
  assumes "\<And>pre f c e. P pre f \<Longrightarrow> f (from e) = Some c \<Longrightarrow>
      P (pre @ [e]) ((f(SecretFile e \<mapsto> c))(from e := None))"
    and "\<And>pre f. P pre f \<Longrightarrow> E f"
  shows "keeps (P []) (replace_files what from) (\<lambda>_. P supported_environments) E"
  unfolding replace_files_def
proof (rule keeps_for_each, rule keeps_tell, rule keeps_rename)
  fix x pre f c assume "P pre f" "f (from x) = Some c"
  then show "P (pre @ [x]) ((f(SecretFile x \<mapsto> c))(from x := None))" by (rule assms(1))
qed (rule assms(2))

lemma swap_keeps:
  "keeps (\<lambda>f. opened_with se docs old f \<and> staged se docs old new UNIV f \<and> backed_up se docs old UNIV f) (swap_rotation se)
    (\<lambda>_. opened_with se docs new) (readable se docs)"
proof -
  let ?R = "readable se docs" and ?O = "opened_with se docs old" and ?N = "opened_with se docs new"
  let ?S = "staged se docs old new UNIV" and ?B = "backed_up se docs old UNIV" and ?C = "replaced se docs new"
  note readable = opened_with_readable [of se docs]
  have dual: "keeps (\<lambda>f. ?O f \<and> ?S f \<and> ?B f \<and> ?C (set []) f) (replace_files w DualNext)
      (\<lambda>_ f. ?O f \<and> ?S f \<and> ?B f \<and> ?C (set supported_environments) f) (\<lambda>f. ?O f \<and> ?B f)" for w
  proof (rule replace_keeps [where P = "\<lambda>pre f. ?O f \<and> ?S f \<and> ?B f \<and> ?C (set pre) f"])
    fix pre f c e assume f: "?O f \<and> ?S f \<and> ?B f \<and> ?C (set pre) f" "f (DualNext e) = Some c"
    then have c: "opens se old c (docs e)" "opens se new c (docs e)" by (auto simp: staged_def)
    let ?f = "(f(SecretFile e \<mapsto> c))(DualNext e := None)"
    have "?O ?f" using f(1) c(1) opened_with_secret by (metis opened_with_scratch scratch_simps(3))
    moreover have "?S ?f \<and> ?B ?f \<and> ?C (set (pre @ [e])) ?f"
      using f(1) c(2) by (auto simp: staged_def backed_up_def replaced_def)
    ultimately show "(?O ?f \<and> ?S ?f \<and> ?B ?f \<and> ?C (set (pre @ [e])) ?f)" using readable by blast
  qed simp
  have master: "keeps (\<lambda>f. ?O f \<and> ?S f \<and> ?B f \<and> ?C UNIV f) (rename_file MasterNext MasterKey) (\<lambda>_ f. ?N f \<and> ?S f) (\<lambda>f. ?O f \<and> ?B f)"
  proof (rule keeps_rename)
    fix f c assume f: "?O f \<and> ?S f \<and> ?B f \<and> ?C UNIV f" "f MasterNext = Some c"
    let ?f = "(f(MasterKey \<mapsto> c))(MasterNext := None)"
    have "?N ?f" "?S ?f" using f by (auto simp: staged_def replaced_def opened_with_def)
    then show "(?N ?f \<and> ?S ?f)" using readable by blast
  qed simp
  have final: "keeps (\<lambda>f. ?N f \<and> ?S f) (replace_files w FinalNext) (\<lambda>_ f. ?N f \<and> ?S f) ?N" for w
  proof (rule replace_keeps [where P = "\<lambda>pre f. ?N f \<and> ?S f"])
    fix f c e assume f: "?N f \<and> ?S f" "f (FinalNext e) = Some c"
    let ?f = "(f(SecretFile e \<mapsto> c))(FinalNext e := None)"
    have "opens se new c (docs e)" using f by (auto simp: staged_def)
    then have "?N ?f" using f(1) opened_with_secret by (metis opened_with_scratch scratch_simps(4))
    moreover have "?S ?f" using f(1) by (auto simp: staged_def)
    ultimately show "(?N ?f \<and> ?S ?f)" using readable by blast
  qed simp
  have load: "keeps ?N (andthen (load_document se e) (\<lambda>_. ret (Inr ()))) (\<lambda>_. ?N) ?N" for e
    unfolding load_document_def load_with_identity_def load_master_def
    by (auto intro!: keeps_andthen [where Q = "\<lambda>_. ?N"] keeps_tell keeps_read keeps_pure split: sum.splits)
  show ?thesis
    unfolding swap_rotation_def
  proof (rule keeps_weaken [where P = "\<lambda>f. ?O f \<and> ?S f \<and> ?B f \<and> ?C (set []) f" and E = ?R and Q = "\<lambda>_. ?N"])
    have rb: "keeps (\<lambda>f. ?O f \<and> ?B f) (abort_rollback m) Q ?R" for m and Q :: "unit \<Rightarrow> files \<Rightarrow> bool"
      by (rule keeps_weaken [OF abort_rollback_keeps [where Q = Q]]) (auto intro: readable)
    have fw: "keeps ?N (abort_forward m) Q ?R" for m and Q :: "unit \<Rightarrow> files \<Rightarrow> bool"
      by (rule keeps_weaken [OF abort_forward_keeps [where Q = Q]]) (auto intro: readable)
    have fin: "keeps ?N finish_rotation (\<lambda>_. ?N) ?R"
      by (rule keeps_weaken [OF finish_keeps]) (auto intro: readable)
    show "keeps (\<lambda>f. ?O f \<and> ?S f \<and> ?B f \<and> ?C (set []) f)
      (andthen (on_error (replace_files ''replace %s secrets with dual-recipient file'' DualNext) abort_rollback) (\<lambda>_.
       andthen (on_error (tell (\<lambda>_. (''replace master key'', [])) (rename_file MasterNext MasterKey)) abort_rollback) (\<lambda>_.
       andthen (on_error (replace_files ''finalize rotated %s secrets; rotation is recoverable with the new master.key'' FinalNext) abort_forward) (\<lambda>_.
       andthen (on_error (for_each (\<lambda>e. tell (\<lambda>_. (''verify rotated %s secrets with new master.key'', [environment_name e]))
           (andthen (load_document se e) (\<lambda>_. ret (Inr ())))) supported_environments) abort_forward) (\<lambda>_.
         finish_rotation))))) (\<lambda>_. ?N) ?R"
      by (rule keeps_andthen [OF keeps_on_error [OF dual [unfolded environments_all] rb]],
          rule keeps_andthen [OF keeps_on_error [OF keeps_tell [OF master] rb]],
          rule keeps_andthen [OF keeps_on_error [OF final fw]],
          rule keeps_andthen [OF keeps_on_error [OF keeps_weaken [OF keeps_each [OF keeps_tell [OF load]]] fw] fin]) auto
  qed (auto simp: replaced_def)
qed

section \<open>The rotation\<close>

lemma keeps_assuming:
  assumes "r = x \<Longrightarrow> keeps P m Q E"
  shows "keeps (\<lambda>f. P f \<and> r = x) m Q E"
proof (cases "r = x")
  case True
  with assms show ?thesis by simp
next
  case False
  then show ?thesis by (auto simp: keeps_def fine_def)
qed

lemma keeps_collect:
  assumes "\<And>x. keeps P (f x) (\<lambda>y fs. P fs \<and> y = g x) E"
  shows "keeps P (collect f xs) (\<lambda>ys fs. P fs \<and> ys = map g xs) E"
proof (induction xs)
  case Nil
  then show ?case by (auto intro: keeps_pure)
next
  case (Cons x xs)
  have "keeps (\<lambda>fs. P fs \<and> y = g x) (andthen (collect f xs) (\<lambda>ys. ret (Inr (y # ys)))) (\<lambda>ys fs. P fs \<and> ys = map g (x # xs)) E" for y
    by (rule keeps_assuming, rule keeps_andthen [OF Cons]) (auto intro: keeps_pure)
  with assms [of x] show ?case by (auto intro: keeps_andthen)
qed

lemma rotate_keeps:
  assumes same: "\<And>i j. se_recipient se i = se_recipient se j \<Longrightarrow> se_decrypt se i = se_decrypt se j"
    and key: "files MasterKey = Some c" "master_identity se c = Inr old"
    and docs: "\<And>e. \<exists>s. files (SecretFile e) = Some s \<and> decrypt_document se old s = Inr (docs e)"
  shows "keeps (\<lambda>f. f = files) (rotate_key se)
    (\<lambda>_ f. \<exists>new. se_fresh se = Some new \<and> opened_with se docs new f) (readable se docs)"
proof -
  let ?R = "readable se docs" and ?O = "opened_with se docs old"
  have "\<forall>e. \<exists>s. files (SecretFile e) = Some s \<and> opens se old s (docs e)" using docs by (metis opens_def)
  with key have start: "?O files" by (simp add: opened_with_def key_file_def)
  then have r: "?R files" by (rule opened_with_readable)
  have load_key: "keeps (\<lambda>f. f = files) (plain_error (load_master se MasterKey)) (\<lambda>i f. f = files \<and> i = old) ?R"
    unfolding load_master_def
    by (rule keeps_plain_error, rule keeps_andthen [where Q = "\<lambda>data f. f = files \<and> data = c"])
      (auto intro!: keeps_tell keeps_read keeps_pure simp: r key)
  have one: "keeps (\<lambda>f. f = files) (tell w (andthen (load_with_identity se old e) (\<lambda>doc. ret (Inr (e, doc)))))
      (\<lambda>y f. f = files \<and> y = (e, docs e)) ?R" for w e
  proof -
    obtain s where s: "files (SecretFile e) = Some s" "decrypt_document se old s = Inr (docs e)" using docs by blast
    have "keeps (\<lambda>f. f = files) (load_with_identity se old e) (\<lambda>doc f. f = files \<and> doc = docs e) ?R"
      unfolding load_with_identity_def
      by (rule keeps_andthen [where Q = "\<lambda>data f. f = files \<and> data = s"]) (auto intro!: keeps_tell keeps_read keeps_pure simp: r s)
    then show ?thesis by (rule keeps_tell [OF keeps_andthen]) (auto intro: keeps_pure)
  qed
  have load: "keeps (\<lambda>f. f = files) (load_all se old) (\<lambda>ds f. f = files \<and> ds = map (\<lambda>e. (e, docs e)) supported_environments) ?R"
    unfolding load_all_def by (rule keeps_collect) (rule one)
  have rest: "keeps ?O (rotate_staged se (map (\<lambda>e. (e, docs e)) supported_environments) old new dual fin)
      (\<lambda>_. opened_with se docs new) ?R" for new dual fin
  proof -
    have ab: "keeps ?O (abort_early m) Q ?R" for m and Q :: "unit \<Rightarrow> files \<Rightarrow> bool"
      by (rule keeps_weaken [OF abort_early_keeps [where Q = Q]]) (auto intro: opened_with_readable)
    show ?thesis unfolding rotate_staged_def
      by (rule keeps_andthen [OF keeps_on_error [OF stage_keeps ab]], rule keeps_andthen [OF keeps_on_error [OF verify_keeps [OF same] ab]],
          assumption?, rule keeps_andthen [OF keeps_on_error [OF backup_keeps ab]], rule swap_keeps)
  qed
  have pure: "keeps (\<lambda>f. f = files) (plain_error (ret x)) (\<lambda>_ f. f = files) ?R" for x :: "message + 'x"
    by (rule keeps_plain_error, rule keeps_pure) (use r in \<open>auto split: sum.splits\<close>)
  have documents: "keeps (\<lambda>f. f = files) (rotate_documents se old (map (\<lambda>e. (e, docs e)) supported_environments))
      (\<lambda>_ f. \<exists>new. se_fresh se = Some new \<and> opened_with se docs new f) ?R"
  proof (cases "se_fresh se")
    case None
    then show ?thesis by (auto simp: rotate_documents_def andthen_def plain_error_def on_error_def ret_def keeps_def fine_def r)
  next
    case (Some new)
    have "keeps (\<lambda>f. f = files) (rotate_staged se (map (\<lambda>e. (e, docs e)) supported_environments) old new dual fin)
        (\<lambda>_ f. \<exists>new. se_fresh se = Some new \<and> opened_with se docs new f) ?R" for dual fin
      by (rule keeps_weaken [OF rest]) (use start Some in auto)
    then have "keeps (\<lambda>f. f = files)
      (andthen (plain_error (ret (encrypt_documents se [se_recipient se old, se_recipient se new] (map (\<lambda>e. (e, docs e)) supported_environments)))) (\<lambda>dual.
       andthen (plain_error (ret (encrypt_documents se [se_recipient se new] (map (\<lambda>e. (e, docs e)) supported_environments)))) (\<lambda>final.
         rotate_staged se (map (\<lambda>e. (e, docs e)) supported_environments) old new dual final)))
      (\<lambda>_ f. \<exists>new. se_fresh se = Some new \<and> opened_with se docs new f) ?R"
      by (intro keeps_andthen [OF pure])
    then show ?thesis by (simp only: rotate_documents_def Some option.case ret_then)
  qed
  show ?thesis unfolding rotate_key_def
  proof (rule keeps_andthen [OF load_key], rule keeps_assuming)
    fix i assume i: "i = old"
    show "keeps (\<lambda>f. f = files) (andthen (plain_error (load_all se i)) (rotate_documents se i))
      (\<lambda>_ f. \<exists>new. se_fresh se = Some new \<and> opened_with se docs new f) ?R"
      unfolding i by (rule keeps_andthen [OF keeps_plain_error [OF load]], rule keeps_assuming) (simp add: documents)
  qed
qed

text \<open>C36: whatever file operations of a key rotation fail, and wherever it is stopped, the key on disk opens
  every secret file and the documents are the old ones; a rotation that reports success ends with the new
  key.  The library for age is only asked that a recipient determines what its identity opens.\<close>

theorem key_rotation_safe:
  assumes "\<And>i j. se_recipient se i = se_recipient se j \<Longrightarrow> se_decrypt se i = se_decrypt se j"
    and "files MasterKey = Some c" "master_identity se c = Inr old"
    and "\<And>e. \<exists>s. files (SecretFile e) = Some s \<and> decrypt_document se old s = Inr (docs e)"
    and "rotate_key se \<lparr>dk_files = files, dk_outcomes = outcomes\<rparr> = (res, d)"
  shows "readable se docs (dk_files d)
    \<and> (res = Inr () \<longrightarrow> (\<exists>new. se_fresh se = Some new \<and> opened_with se docs new (dk_files d)))"
proof -
  have k: "keeps (\<lambda>f. f = files) (rotate_key se)
      (\<lambda>_ f. \<exists>new. se_fresh se = Some new \<and> opened_with se docs new f) (readable se docs)"
    by (rule rotate_keeps [OF assms(1,2,3,4)])
  have start: "fine (\<lambda>f. f = files) \<lparr>dk_files = files, dk_outcomes = outcomes\<rparr>"
    by (simp add: fine_def)
  show ?thesis
  proof (cases res)
    case (Inl e)
    with keepsE [OF k start] assms(5) have "fine (readable se docs) d" by simp
    with Inl show ?thesis by (simp add: fine_def)
  next
    case (Inr u)
    with keepsR [OF k start] assms(5)
    have "fine (\<lambda>f. \<exists>new. se_fresh se = Some new \<and> opened_with se docs new f) d" by simp
    with Inr show ?thesis by (auto simp: fine_def intro: opened_with_readable)
  qed
qed

text \<open>A sealed text names its recipients, and the rename of the new master key fails.\<close>

definition sample_secret_env :: "string secret_env" where
  "sample_secret_env = \<lparr>se_recipient = (\<lambda>i. i), se_encrypt = (\<lambda>rs p. Some (join '','' rs @ '':'' @ p)),
     se_decrypt = (\<lambda>i c. if i \<in> set (split_on (CHR '','') (takeWhile (\<lambda>x. x \<noteq> CHR '':'') c)) then Some (tl (dropWhile (\<lambda>x. x \<noteq> CHR '':'') c)) else None),
     se_parse = Some, se_print = (\<lambda>i. i), se_fresh = Some ''new'',
     se_yaml = (\<lambda>p. Some (MappingNode [(Scalar ''!!str'' ''token'', Scalar ''!!str'' p)])), se_scalar = (\<lambda>t v. Some (SvString v)),
     se_marshal = (\<lambda>m. case m of [(k, SvString v)] \<Rightarrow> Some v | _ \<Rightarrow> None)\<rparr>"

definition sample_files :: files where
  "sample_files l = (case l of MasterKey \<Rightarrow> Some ''old'' | SecretFile e \<Rightarrow> Some (''old:'' @ environment_name e) | _ \<Rightarrow> None)"

definition sample_rotation :: "outcome list \<Rightarrow> (rotation_error + unit) \<times> disk" where
  "sample_rotation outcomes = rotate_key sample_secret_env \<lparr>dk_files = sample_files, dk_outcomes = outcomes\<rparr>"

lemma sample_rotation_results:
  "fst (sample_rotation []) = Inr () \<and> dk_files (snd (sample_rotation [])) (SecretFile Staging) = Some ''new:staging''
    \<and> fst (sample_rotation (replicate 31 Works @ [Fails])) \<noteq> Inr ()"
  by code_simp

definition sample_documents :: "environment \<Rightarrow> document" where
  "sample_documents e = [(''token'', SvString (environment_name e))]"

lemma sample_decrypts: "list_all (\<lambda>e. decrypt_document sample_secret_env ''old'' (''old:'' @ environment_name e) = Inr (sample_documents e)) supported_environments"
  by code_simp

theorem key_rotation_safe_witness:
  "readable sample_secret_env sample_documents (dk_files (snd (sample_rotation (replicate 31 Works @ [Stops]))))
    \<and> (\<exists>new. se_fresh sample_secret_env = Some new \<and> opened_with sample_secret_env sample_documents new (dk_files (snd (sample_rotation []))))"
proof -
  have recipient: "se_recipient sample_secret_env i = se_recipient sample_secret_env j \<Longrightarrow> se_decrypt sample_secret_env i = se_decrypt sample_secret_env j" for i j
    by (simp add: sample_secret_env_def)
  have key: "sample_files MasterKey = Some ''old''" by (simp add: sample_files_def)
  have old: "master_identity sample_secret_env ''old'' = Inr ''old''" by code_simp
  have files: "\<exists>s. sample_files (SecretFile e) = Some s \<and> decrypt_document sample_secret_env ''old'' s = Inr (sample_documents e)" for e
    using sample_decrypts all_environments [of e] by (simp add: sample_files_def list_all_iff del: environments_all)
  have run: "rotate_key sample_secret_env \<lparr>dk_files = sample_files, dk_outcomes = os\<rparr> = (fst (sample_rotation os), snd (sample_rotation os))" for os
    by (simp add: sample_rotation_def)
  note safe = key_rotation_safe [OF recipient key old files run]
  from safe sample_rotation_results show ?thesis by blast
qed

end
