(* ===== verification/Auth_Service.thy ===== *)
theory Auth_Service
  imports Access_Policy
begin

text \<open>
  Authentication (\<^verbatim>\<open>internal/auth/service.go\<close>, \<^verbatim>\<open>password.go\<close> and the writers of
  \<^verbatim>\<open>internal/db/auth_writers.go\<close>): login, the current user of a session token, logout and the first
  administrator, over the user and session tables.  Hashing is a parameter; a time is in nanoseconds.
\<close>

section \<open>State\<close>

record auth_user =
  au_id :: int
  au_name :: string
  au_email :: string
  au_full_name :: string
  au_enabled :: bool
  au_administrator :: bool
  au_password_hash :: "string option"

record auth_session =
  as_id :: int
  as_user :: int
  as_digest :: string
  as_status :: string
  as_started :: int
  as_expires :: "int option"
  as_last_seen :: int

record auth_db =
  ad_users :: "auth_user list"
  ad_sessions :: "auth_session list"

record auth_env =
  ae_digest :: "string \<Rightarrow> string"
  ae_compare :: "string \<Rightarrow> string \<Rightarrow> bool"
  ae_hash :: "string \<Rightarrow> string"
  ae_ttl :: int

datatype auth_error = AuthError (auth_code: string) (auth_message: string)

section \<open>Checks of the input\<close>

definition normalize_email :: "string \<Rightarrow> auth_error + string" where
  "normalize_email v =
     (let email = to_lower (trim_space v) in
      if email = [] then Inl (AuthError ''invalid_request'' ''email is required'')
      else if list_ex (\<lambda>c. c \<in> {CHR '' '', CHR 0x09, CHR 0x0D, CHR 0x0A}) email \<or> CHR 0x40 \<notin> set email
      then Inl (AuthError ''invalid_request'' ''email is invalid'') else Inr email)"

definition validate_password :: "string \<Rightarrow> message + unit" where
  "validate_password p =
     (if blank p then Inl (''password must not be empty'', [])
      else guardR (length p \<le> 72) (''hash password: %w'', []))"

definition invalid_credentials :: auth_error where
  "invalid_credentials = AuthError ''invalid_credentials'' ''invalid email or password''"

definition unauthenticated :: auth_error where
  "unauthenticated = AuthError ''unauthenticated'' ''authentication required''"

text \<open>A database error of PostgreSQL by its code.\<close>

definition classify_auth_error :: "string \<Rightarrow> string option \<Rightarrow> auth_error" where
  "classify_auth_error what code =
     (if code = Some ''42P01'' \<or> code = Some ''42703''
      then AuthError ''schema_not_ready'' ''auth schema is not ready; run dygo db migrate''
      else AuthError ''internal_error'' (what @ '' failed''))"

definition session_ttl :: "auth_env \<Rightarrow> int" where
  "session_ttl env = (if ae_ttl env > 0 then ae_ttl env else 7 * 24 * 3600 * 1000000000)"

section \<open>Sessions\<close>

text \<open>Session times are written in RFC 3339 without fractions of a second.\<close>

definition stored_time :: "int \<Rightarrow> int" where
  "stored_time t = t div 1000000000 * 1000000000"

definition next_id :: "int list \<Rightarrow> int" where
  "next_id ids = foldr max ids 0 + 1"

text \<open>The link to the user is written as the name of its Record, for which the login gives the e-mail.\<close>

definition create_session :: "auth_env \<Rightarrow> int \<Rightarrow> string \<Rightarrow> string \<Rightarrow> auth_db \<Rightarrow> auth_error + auth_db" where
  "create_session env now user_name token db =
     (case find (\<lambda>u. au_name u = user_name) (ad_users db) of
        None \<Rightarrow> Inl (classify_auth_error ''create session'' None)
      | Some u \<Rightarrow> Inr (db\<lparr>ad_sessions := ad_sessions db @
          [\<lparr>as_id = next_id (map as_id (ad_sessions db)), as_user = au_id u, as_digest = ae_digest env token, as_status = ''active'',
            as_started = stored_time now, as_expires = Some (stored_time (now + session_ttl env)), as_last_seen = stored_time now\<rparr>]\<rparr>))"

text \<open>\<open>token\<close> is what the generator returns, if it does.\<close>

definition login :: "auth_env \<Rightarrow> int \<Rightarrow> string option \<Rightarrow> string \<Rightarrow> string \<Rightarrow> auth_db \<Rightarrow> auth_error + (auth_user \<times> string \<times> int) \<times> auth_db" where
  "login env now token email password db =
     bindR (normalize_email email) (\<lambda>mail.
       if blank password then Inl (AuthError ''invalid_request'' ''password is required'')
       else (case find (\<lambda>u. to_lower (au_email u) = to_lower mail) (ad_users db) of
           None \<Rightarrow> Inl invalid_credentials
         | Some u \<Rightarrow> (case au_password_hash u of
               None \<Rightarrow> Inl invalid_credentials
             | Some h \<Rightarrow>
                 if \<not> au_enabled u \<or> blank h \<or> \<not> ae_compare env h password then Inl invalid_credentials
                 else (case token of None \<Rightarrow> Inl (AuthError ''internal_error'' ''generate session token failed'')
                   | Some t \<Rightarrow> bindR (create_session env now (au_email u) t db) (\<lambda>db'. Inr ((u, t, now + session_ttl env), db'))))))"

definition session_user :: "int \<Rightarrow> auth_db \<Rightarrow> string \<Rightarrow> auth_session \<Rightarrow> auth_user option" where
  "session_user now db dg s =
     (if as_digest s = dg \<and> as_status s = ''active'' \<and> (case as_expires s of None \<Rightarrow> True | Some e \<Rightarrow> now < e)
      then find (\<lambda>u. au_id u = as_user s \<and> au_enabled u) (ad_users db) else None)"

definition touch_session :: "int \<Rightarrow> int \<Rightarrow> auth_session \<Rightarrow> auth_session" where
  "touch_session now i s = (if as_id s = i then s\<lparr>as_last_seen := now\<rparr> else s)"

definition current_user :: "auth_env \<Rightarrow> int \<Rightarrow> string \<Rightarrow> auth_db \<Rightarrow> auth_error + auth_user \<times> auth_db" where
  "current_user env now token db =
     (let t = trim_space token in
      if t = [] then Inl unauthenticated
      else (case List.map_filter (\<lambda>s. map_option (Pair s) (session_user now db (ae_digest env t) s)) (ad_sessions db) of
          [] \<Rightarrow> Inl unauthenticated
        | (s, u) # _ \<Rightarrow> Inr (u, db\<lparr>ad_sessions := map (touch_session now (as_id s)) (ad_sessions db)\<rparr>)))"

definition logout :: "auth_env \<Rightarrow> string \<Rightarrow> auth_db \<Rightarrow> auth_error + auth_db" where
  "logout env token db =
     (let t = trim_space token in
      if t = [] then Inl unauthenticated
      else Inr (db\<lparr>ad_sessions := map (\<lambda>s. if as_digest s = ae_digest env t \<and> as_status s = ''active'' then s\<lparr>as_status := ''revoked''\<rparr> else s)
        (ad_sessions db)\<rparr>))"

section \<open>The first administrator\<close>

definition save_admin :: "auth_env \<Rightarrow> string \<Rightarrow> string \<Rightarrow> string \<Rightarrow> auth_db \<Rightarrow> auth_error + auth_user \<times> auth_db" where
  "save_admin env email full_name password db =
     (let promote = (\<lambda>u. u\<lparr>au_full_name := full_name, au_password_hash := Some (ae_hash env password), au_enabled := True, au_administrator := True\<rparr>) in
      case find (\<lambda>u. au_email u = email) (ad_users db) of
        Some u \<Rightarrow> Inr (promote u, db\<lparr>ad_users := map (\<lambda>x. if au_id x = au_id u then promote x else x) (ad_users db)\<rparr>)
      | None \<Rightarrow>
          if email \<in> set (map au_name (ad_users db)) then Inl (classify_auth_error ''save administrator account'' None)
          else let u = \<lparr>au_id = next_id (map au_id (ad_users db)), au_name = email, au_email = email, au_full_name = full_name,
              au_enabled = True, au_administrator = True, au_password_hash = Some (ae_hash env password)\<rparr>
            in Inr (u, db\<lparr>ad_users := ad_users db @ [u]\<rparr>))"

definition setup_admin :: "auth_env \<Rightarrow> string \<Rightarrow> string \<Rightarrow> string \<Rightarrow> auth_db \<Rightarrow> auth_error + auth_user \<times> auth_db" where
  "setup_admin env email full_name password db =
     bindR (normalize_email email) (\<lambda>mail.
       if blank full_name then Inl (AuthError ''invalid_request'' ''full name is required'')
       else (case validate_password password of
           Inl _ \<Rightarrow> Inl (AuthError ''invalid_request'' ''password is invalid'')
         | Inr _ \<Rightarrow> if list_ex au_administrator (ad_users db) then Inl (AuthError ''already_exists'' ''administrator account already exists'')
             else save_admin env mail (trim_space full_name) password db))"

section \<open>Guarantees\<close>

text \<open>What may happen: the calls of a client at their times, and any change of the users.\<close>

datatype auth_event =
    Login int string string string
  | Current int string
  | Logout string
  | Setup string string string
  | ChangeUsers "auth_user list"

definition auth_step :: "auth_env \<Rightarrow> auth_db \<Rightarrow> auth_event \<Rightarrow> auth_db" where
  "auth_step env db ev =
     (case ev of
        Login now token email password \<Rightarrow> (case login env now (Some token) email password db of Inr (_, db') \<Rightarrow> db' | Inl _ \<Rightarrow> db)
      | Current now token \<Rightarrow> (case current_user env now token db of Inr (_, db') \<Rightarrow> db' | Inl _ \<Rightarrow> db)
      | Logout token \<Rightarrow> (case logout env token db of Inr db' \<Rightarrow> db' | Inl _ \<Rightarrow> db)
      | Setup email full_name password \<Rightarrow> (case setup_admin env email full_name password db of Inr (_, db') \<Rightarrow> db' | Inl _ \<Rightarrow> db)
      | ChangeUsers us \<Rightarrow> db\<lparr>ad_users := us\<rparr>)"

text \<open>The abstract sessions: a token stands for a user until a time.\<close>

type_synonym session_spec = "string \<rightharpoonup> int \<times> int"

definition spec_step :: "auth_env \<Rightarrow> auth_db \<times> session_spec \<Rightarrow> auth_event \<Rightarrow> auth_db \<times> session_spec" where
  "spec_step env st ev =
     (auth_step env (fst st) ev,
      case ev of
        Login now token email password \<Rightarrow> (case login env now (Some token) email password (fst st) of
            Inr ((u, _, expires), _) \<Rightarrow> (snd st)(token \<mapsto> (au_id u, stored_time expires)) | Inl _ \<Rightarrow> snd st)
      | Logout token \<Rightarrow> (snd st)(trim_space token := None)
      | _ \<Rightarrow> snd st)"

definition run_auth :: "auth_env \<Rightarrow> auth_event list \<Rightarrow> auth_db \<times> session_spec \<Rightarrow> auth_db \<times> session_spec" where
  "run_auth env evs st = foldl (spec_step env) st evs"

text \<open>The tokens a trace generates and the tokens it presents.\<close>

fun generated :: "auth_event \<Rightarrow> string list" where
  "generated (Login now token email password) = [token]"
| "generated _ = []"

fun presented :: "auth_event \<Rightarrow> string list" where
  "presented (Login now token email password) = [token]"
| "presented (Current now token) = [trim_space token]"
| "presented (Logout token) = [trim_space token]"
| "presented (Setup email full_name password) = []"
| "presented (ChangeUsers us) = []"

text \<open>User Records are named by their e-mail addresses, and each has its own id.\<close>

definition users_named :: "auth_user list \<Rightarrow> bool" where
  "users_named us \<longleftrightarrow> list_all (\<lambda>u. au_name u = au_email u) us \<and> distinct (map au_name us) \<and> distinct (map au_id us)"

fun event_users_named :: "auth_event \<Rightarrow> bool" where
  "event_users_named (ChangeUsers us) = users_named us"
| "event_users_named _ = True"

definition active_sessions :: "auth_db \<Rightarrow> string \<Rightarrow> auth_session list" where
  "active_sessions db dg = filter (\<lambda>s. as_digest s = dg \<and> as_status s = ''active'') (ad_sessions db)"

definition session_ends :: "auth_db \<Rightarrow> string \<Rightarrow> (int \<times> int option) list" where
  "session_ends db dg = map (\<lambda>s. (as_user s, as_expires s)) (active_sessions db dg)"

definition shown_sessions :: "(int \<times> int) option \<Rightarrow> (int \<times> int option) list" where
  "shown_sessions x = (case x of None \<Rightarrow> [] | Some (u, e) \<Rightarrow> [(u, Some e)])"

end
