(* ===== verification/Auth_Guarantees.thy ===== *)
theory Auth_Guarantees
  imports Auth_Service
begin

text \<open>
  The session protocol against its abstract specification: the sessions the service accepts are exactly
  those a login gave, that have not ended and that nobody has logged out of.
\<close>

section \<open>What the operations do to the sessions\<close>

lemma users_named_found:
  assumes "users_named us" and "u \<in> set us"
  shows "find (\<lambda>v. au_name v = au_email u) us = Some u"
proof -
  have n: "au_name u = au_email u" using assms by (auto simp: users_named_def list_all_iff)
  obtain v where v: "find (\<lambda>v. au_name v = au_email u) us = Some v"
    using assms(2) n by (cases "find (\<lambda>v. au_name v = au_email u) us") (auto simp: find_None_iff)
  have "v \<in> set us" "au_name v = au_name u" using v n by (auto simp: find_Some_iff)
  then have "v = u" using assms unfolding users_named_def by (meson inj_onD distinct_map)
  then show ?thesis using v by simp
qed

lemma find_by_id:
  assumes "distinct (map au_id us)" and "u \<in> set us" and "au_enabled u"
  shows "find (\<lambda>v. au_id v = au_id u \<and> au_enabled v) us = Some u"
proof -
  obtain v where v: "find (\<lambda>v. au_id v = au_id u \<and> au_enabled v) us = Some v"
    using assms by (cases "find (\<lambda>v. au_id v = au_id u \<and> au_enabled v) us") (auto simp: find_None_iff)
  then have "v \<in> set us" "au_id v = au_id u" by (auto simp: find_Some_iff)
  then have "v = u" using assms by (meson inj_onD distinct_map)
  then show ?thesis using v by simp
qed

lemma find_in_set: "find p xs = Some x \<Longrightarrow> x \<in> set xs"
  by (auto simp: find_Some_iff)

lemma login_result:
  assumes "login env now (Some t) email password db = Inr ((u, t', x), db')"
  shows "x = now + session_ttl env" and "t' = t" and "u \<in> set (ad_users db)" and "create_session env now (au_email u) t db = Inr db'"
  using assms unfolding login_def by (auto split: option.splits if_splits elim!: bindR_InrE dest: find_in_set)

lemma session_ends_users [simp]: "session_ends (db\<lparr>ad_users := us\<rparr>) dg = session_ends db dg"
  by (simp add: session_ends_def active_sessions_def)

lemma session_ends_cons:
  "session_ends (db\<lparr>ad_sessions := xs @ [s]\<rparr>) dg
   = session_ends (db\<lparr>ad_sessions := xs\<rparr>) dg @ (if as_digest s = dg \<and> as_status s = ''active'' then [(as_user s, as_expires s)] else [])"
  by (simp add: session_ends_def active_sessions_def)

lemma login_session_ends:
  assumes "login env now (Some t) email password db = Inr ((u, t', x), db')" and "users_named (ad_users db)"
  shows "session_ends db' dg = session_ends db dg @ (if ae_digest env t = dg then [(au_id u, Some (stored_time x))] else [])"
    and "ad_users db' = ad_users db"
proof -
  have u: "u \<in> set (ad_users db)" "create_session env now (au_email u) t db = Inr db'" "x = now + session_ttl env"
    using login_result [OF assms(1)] by simp_all
  have "find (\<lambda>v. au_name v = au_email u) (ad_users db) = Some u" by (rule users_named_found [OF assms(2) u(1)])
  then show "session_ends db' dg = session_ends db dg @ (if ae_digest env t = dg then [(au_id u, Some (stored_time x))] else [])"
      "ad_users db' = ad_users db"
    using u(2,3) by (auto simp: create_session_def session_ends_cons)
qed

lemma map_keeps_session_ends:
  assumes "\<And>s. as_digest (f s) = as_digest s \<and> as_status (f s) = as_status s \<and> as_user (f s) = as_user s \<and> as_expires (f s) = as_expires s"
  shows "session_ends (db\<lparr>ad_sessions := map f (ad_sessions db)\<rparr>) dg = session_ends db dg"
  by (simp add: session_ends_def active_sessions_def filter_map comp_def assms)

lemma current_user_keeps:
  assumes "current_user env now t db = Inr (u, db')"
  shows "session_ends db' dg = session_ends db dg" and "ad_users db' = ad_users db"
  using assms unfolding current_user_def Let_def
  by (auto split: if_splits list.splits simp: touch_session_def intro!: map_keeps_session_ends)

lemma logout_session_ends:
  assumes "logout env t db = Inr db'"
  shows "session_ends db' dg = (if dg = ae_digest env (trim_space t) then [] else session_ends db dg)" and "ad_users db' = ad_users db"
proof -
  obtain f :: "auth_session \<Rightarrow> auth_session" where f: "f = (\<lambda>s. if as_digest s = ae_digest env (trim_space t) \<and> as_status s = ''active'' then s\<lparr>as_status := ''revoked''\<rparr> else s)"
    by simp
  have db': "db' = db\<lparr>ad_sessions := map f (ad_sessions db)\<rparr>" using assms unfolding f by (auto simp: logout_def Let_def split: if_splits)
  have "filter (\<lambda>s. as_digest s = dg \<and> as_status s = ''active'') (map f ss)
     = (if dg = ae_digest env (trim_space t) then [] else filter (\<lambda>s. as_digest s = dg \<and> as_status s = ''active'') ss)" for ss
    unfolding f by (induction ss) auto
  then show "session_ends db' dg = (if dg = ae_digest env (trim_space t) then [] else session_ends db dg)"
    unfolding db' session_ends_def active_sessions_def by simp
  show "ad_users db' = ad_users db" by (simp add: db')
qed

section \<open>The users stay well named\<close>

lemma next_id_new: "i \<in> set ids \<Longrightarrow> i < next_id ids"
  by (induction ids) (auto simp: next_id_def)

lemma next_id_image [simp]: "x \<in> set us \<Longrightarrow> next_id (map f us) \<noteq> f x"
  using next_id_new [of "f x" "map f us"] by auto

lemma setup_admin_users:
  assumes "setup_admin env email full_name password db = Inr (u, db')" and "users_named (ad_users db)"
  shows "users_named (ad_users db')" and "ad_sessions db' = ad_sessions db" and "u \<in> set (ad_users db')" and "au_administrator u"
proof -
  obtain mail where save: "save_admin env mail (trim_space full_name) password db = Inr (u, db')"
    using assms(1) unfolding setup_admin_def by (auto split: if_splits sum.splits elim!: bindR_InrE)
  show "users_named (ad_users db')" "ad_sessions db' = ad_sessions db" "u \<in> set (ad_users db')" "au_administrator u"
    using save assms(2) unfolding save_admin_def
    by (auto simp: Let_def users_named_def list_all_iff find_Some_iff comp_def if_distrib [of au_name] if_distrib [of au_id] if_distrib [of au_email]
        dest!: next_id_new split: option.splits if_splits cong: if_cong)
qed

section \<open>The simulation\<close>

definition sessions_shown :: "auth_env \<Rightarrow> string set \<Rightarrow> auth_db \<times> session_spec \<Rightarrow> bool" where
  "sessions_shown env T st \<longleftrightarrow> users_named (ad_users (fst st)) \<and> snd st [] = None \<and>
     (\<forall>t\<in>T. session_ends (fst st) (ae_digest env t) = shown_sessions (snd st t))"

lemma shown_none [simp]: "shown_sessions None = []" and shown_some [simp]: "shown_sessions (Some (u, e)) = [(u, Some e)]"
  by (simp_all add: shown_sessions_def)

lemma step_shown:
  assumes inv: "sessions_shown env T st"
    and inj: "inj_on (ae_digest env) T"
    and sub: "set (presented ev) \<subseteq> T"
    and fresh: "\<forall>t\<in>set (generated ev). snd st t = None \<and> t \<noteq> []"
    and named: "event_users_named ev"
  shows "sessions_shown env T (spec_step env st ev)"
proof (cases ev)
  case (Login now t email password)
  show ?thesis
  proof (cases "login env now (Some t) email password (fst st)")
    case (Inl e)
    then show ?thesis using inv by (simp add: Login spec_step_def auth_step_def sessions_shown_def)
  next
    case (Inr r)
    obtain u t' x db' where r: "r = ((u, t', x), db')" by (metis prod.exhaust)
    have un: "users_named (ad_users (fst st))" using inv by (simp add: sessions_shown_def)
    note l = login_session_ends [OF Inr [unfolded r] un]
    show ?thesis
      using inv inj sub fresh
      by (auto simp: Login spec_step_def auth_step_def Inr r sessions_shown_def l dest: inj_onD)
  qed
next
  case (Current now t)
  show ?thesis
  proof (cases "current_user env now t (fst st)")
    case (Inr r)
    obtain u db' where r: "r = (u, db')" by (metis prod.exhaust)
    note c = current_user_keeps [OF Inr [unfolded r]]
    show ?thesis using inv by (simp add: Current spec_step_def auth_step_def Inr r sessions_shown_def c)
  qed (use inv in \<open>simp add: Current spec_step_def auth_step_def sessions_shown_def\<close>)
next
  case (Logout t)
  show ?thesis
  proof (cases "logout env t (fst st)")
    case (Inl e)
    then have "trim_space t = []" by (simp add: logout_def Let_def split: if_splits)
    then show ?thesis using inv Inl by (simp add: Logout spec_step_def auth_step_def sessions_shown_def fun_upd_idem)
  next
    case (Inr db')
    note l = logout_session_ends [OF Inr]
    show ?thesis using inv inj sub by (auto simp: Logout spec_step_def auth_step_def Inr sessions_shown_def l dest: inj_onD)
  qed
next
  case (Setup email full_name password)
  show ?thesis
  proof (cases "setup_admin env email full_name password (fst st)")
    case (Inr r)
    obtain u db' where r: "r = (u, db')" by (metis prod.exhaust)
    have un: "users_named (ad_users (fst st))" using inv by (simp add: sessions_shown_def)
    note c = setup_admin_users [OF Inr [unfolded r] un]
    have "session_ends db' dg = session_ends (fst st) dg" for dg using c(2) by (simp add: session_ends_def active_sessions_def)
    then show ?thesis using inv c(1) by (simp add: Setup spec_step_def auth_step_def Inr r sessions_shown_def)
  qed (use inv in \<open>simp add: Setup spec_step_def auth_step_def sessions_shown_def\<close>)
next
  case (ChangeUsers us)
  then show ?thesis using inv named by (simp add: spec_step_def auth_step_def sessions_shown_def)
qed

lemma spec_step_fresh: "t \<notin> set (generated ev) \<Longrightarrow> snd st t = None \<Longrightarrow> snd (spec_step env st ev) t = None"
  by (cases ev) (auto simp: spec_step_def split: sum.splits)

lemma run_shown:
  assumes "sessions_shown env T st" and "inj_on (ae_digest env) T"
    and "set (concat (map presented evs)) \<subseteq> T"
    and "distinct (concat (map generated evs))"
    and "\<forall>t\<in>set (concat (map generated evs)). snd st t = None \<and> t \<noteq> []"
    and "list_all event_users_named evs"
  shows "sessions_shown env T (run_auth env evs st)"
  using assms
proof (induction evs arbitrary: st)
  case (Cons ev evs)
  have "sessions_shown env T (spec_step env st ev)" using Cons.prems by (intro step_shown) auto
  moreover have "\<forall>t\<in>set (concat (map generated evs)). snd (spec_step env st ev) t = None \<and> t \<noteq> []"
    using Cons.prems(4,5) by (auto intro!: spec_step_fresh)
  ultimately have "sessions_shown env T (run_auth env evs (spec_step env st ev))"
    using Cons.prems by (intro Cons.IH) auto
  then show ?case by (simp add: run_auth_def)
qed (simp add: run_auth_def)

section \<open>Which token is accepted\<close>

definition session_owner :: "int \<Rightarrow> auth_db \<Rightarrow> int \<times> int option \<Rightarrow> auth_user option" where
  "session_owner now db x =
     (if (case snd x of None \<Rightarrow> True | Some e \<Rightarrow> now < e) then find (\<lambda>u. au_id u = fst x \<and> au_enabled u) (ad_users db) else None)"

lemma joined_users:
  "map snd (List.map_filter (\<lambda>s. map_option (Pair s) (session_user now db dg s)) ss)
   = List.map_filter (\<lambda>x. session_owner now db x) (map (\<lambda>s. (as_user s, as_expires s)) (filter (\<lambda>s. as_digest s = dg \<and> as_status s = ''active'') ss))"
  by (induction ss) (auto simp: map_filter_simps session_user_def session_owner_def split: option.splits)

lemma current_user_outcome:
  "map_sum id fst (current_user env now t db)
   = (if trim_space t = [] then Inl unauthenticated
      else case List.map_filter (session_owner now db) (session_ends db (ae_digest env (trim_space t))) of
          [] \<Rightarrow> Inl unauthenticated | u # _ \<Rightarrow> Inr u)"
  using joined_users [of now db "ae_digest env (trim_space t)" "ad_sessions db"]
  by (auto simp: current_user_def Let_def session_ends_def active_sessions_def split: list.splits)


section \<open>Concrete runs\<close>

definition sample_auth :: auth_env where
  "sample_auth = \<lparr>ae_digest = Cons CHR ''d'', ae_compare = (=), ae_hash = (\<lambda>p. p), ae_ttl = 60000000000\<rparr>"

definition sample_user :: "int \<Rightarrow> string \<Rightarrow> string \<Rightarrow> string \<Rightarrow> auth_user" where
  "sample_user i name email password = \<lparr>au_id = i, au_name = name, au_email = email, au_full_name = name,
     au_enabled = True, au_administrator = False, au_password_hash = Some password\<rparr>"

definition sample_auth_db :: auth_db where
  "sample_auth_db = \<lparr>ad_users = [sample_user 1 ''a@x'' ''a@x'' ''pw'', sample_user 2 ''b@x'' ''b@x'' ''qw''], ad_sessions = []\<rparr>"

definition sample_auth_events :: "auth_event list" where
  "sample_auth_events =
     [Login 1500000000 ''t1'' '' A@X '' ''pw'', Login 2000000000 ''t2'' ''a@x'' ''bad'', Login 3000000000 ''t3'' ''b@x'' ''qw'',
      Current 4000000000 ''t1'', Logout ''t3'']"


text \<open>The session is linked by the e-mail address as the name of a Record: when two users have changed their
addresses, one of them signs in as the other.\<close>

lemma renamed_user_session:
  "(case login sample_auth 0 (Some ''t'') ''a@x'' ''qw''
        \<lparr>ad_users = [sample_user 1 ''a@x'' ''c@x'' ''pw'', sample_user 2 ''b@x'' ''a@x'' ''qw''], ad_sessions = []\<rparr> of
      Inr ((u, t, _), db) \<Rightarrow> (au_id u, map_sum id (au_id \<circ> fst) (current_user sample_auth 1 t db)) | Inl e \<Rightarrow> (0, Inl e))
   = (2, Inr 1)"
  by code_simp

end
