(* ===== verification/Record_Hooks.thy ===== *)
theory Record_Hooks
  imports Record_Prepare
begin

text \<open>
  Record hooks (\<^verbatim>\<open>internal/hookevents\<close>, \<^verbatim>\<open>internal/db/record_hooks.go\<close> and
  \<^verbatim>\<open>hiddenHookInput\<close> of \<^verbatim>\<open>record_secrets.go\<close>): the events, the registry, the order in
  which hooks run, and the secrets that are kept from them.  A hook is an argument: a function of its
  context, of the input and of the database, which may change the input and the database.
\<close>

section \<open>Events\<close>

record event_spec =
  es_name :: string
  es_mutates :: bool

definition hook_specs :: "event_spec list" where
  "hook_specs =
     [\<lparr>es_name = ''before-validate'', es_mutates = True\<rparr>, \<lparr>es_name = ''validate'', es_mutates = False\<rparr>,
      \<lparr>es_name = ''before-create'', es_mutates = True\<rparr>, \<lparr>es_name = ''after-create'', es_mutates = False\<rparr>,
      \<lparr>es_name = ''before-update'', es_mutates = True\<rparr>, \<lparr>es_name = ''after-update'', es_mutates = False\<rparr>,
      \<lparr>es_name = ''before-delete'', es_mutates = False\<rparr>, \<lparr>es_name = ''after-delete'', es_mutates = False\<rparr>]"

definition supported_event :: "string \<Rightarrow> bool" where
  "supported_event e = list_ex (\<lambda>s. es_name s = e) hook_specs"

definition mutates_input :: "string \<Rightarrow> bool" where
  "mutates_input e = (case find (\<lambda>s. es_name s = e) hook_specs of None \<Rightarrow> False | Some s \<Rightarrow> es_mutates s)"

section \<open>Contexts and the registry\<close>

text \<open>A change of a field: a write-only value is not shown.\<close>

datatype field_change = Redacted | Changed val val

record hook_context =
  hc_event :: string
  hc_operation :: string
  hc_entity_id :: int
  hc_app :: string
  hc_entity :: string
  hc_slug :: string
  hc_label :: string
  hc_table :: string
  hc_private :: bool
  hc_record :: int
  hc_old :: "rec_map option"
  hc_new :: "rec_map option"
  hc_changes :: "(string \<times> field_change) list"
  hc_snapshot :: "rec_map option"

definition new_hook_context :: "string \<Rightarrow> record_layout \<Rightarrow> hook_context" where
  "new_hook_context event l =
     (let h = ly_head l in
      \<lparr>hc_event = event, hc_operation = [], hc_entity_id = lh_entity_id h, hc_app = lh_app h, hc_entity = lh_entity h, hc_slug = lh_slug h,
       hc_label = lh_label h, hc_table = lh_table h, hc_private = lh_private h, hc_record = 0, hc_old = None, hc_new = None, hc_changes = [],
       hc_snapshot = None\<rparr>)"

text \<open>A hook fails with a record error or with any other error (\<open>None\<close>).  A failure ends the transaction, so it has no database.\<close>

type_synonym 'd hook_fn = "hook_context \<Rightarrow> record_input \<Rightarrow> 'd \<Rightarrow> record_error option + record_input \<times> 'd"

record 'd hook_def =
  hd_name :: string
  hd_fn :: "'d hook_fn"

type_synonym 'd event_hooks = "(string \<times> 'd hook_def list) list"

record 'd hook_registry =
  hr_global :: "'d event_hooks"
  hr_entity :: "(string \<times> 'd event_hooks) list"

definition empty_registry :: "'d hook_registry" where
  "empty_registry = \<lparr>hr_global = [], hr_entity = []\<rparr>"

definition hooks_of :: "'d event_hooks \<Rightarrow> string \<Rightarrow> 'd hook_def list" where
  "hooks_of m event = (case map_of m event of None \<Rightarrow> [] | Some hs \<Rightarrow> hs)"

definition entity_hooks :: "'d hook_registry \<Rightarrow> string \<Rightarrow> 'd event_hooks" where
  "entity_hooks r key = (case map_of (hr_entity r) key of None \<Rightarrow> [] | Some m \<Rightarrow> m)"

definition entity_key :: "string \<Rightarrow> string \<Rightarrow> string" where
  "entity_key app entity = app @ nul @ entity"

definition add_hook :: "string \<Rightarrow> 'd hook_def \<Rightarrow> 'd event_hooks \<Rightarrow> 'd event_hooks" where
  "add_hook event h m = AList.update event (hooks_of m event @ [h]) m"

definition validate_hook :: "string \<Rightarrow> string \<Rightarrow> 'd hook_fn option \<Rightarrow> (string \<times> string list) + 'd hook_fn" where
  "validate_hook event name fn =
     (if \<not> supported_event event then Inl (''record hook event %q is not supported'', [event])
      else if blank name then Inl (''record hook name is required'', [])
      else case fn of None \<Rightarrow> Inl (''record hook %q function is required'', [name]) | Some f \<Rightarrow> Inr f)"

definition register_global :: "'d hook_registry \<Rightarrow> string \<Rightarrow> string \<Rightarrow> 'd hook_fn option \<Rightarrow> (string \<times> string list) + 'd hook_registry" where
  "register_global r event name fn =
     bindR (validate_hook event name fn) (\<lambda>f. Inr (r\<lparr>hr_global := add_hook event \<lparr>hd_name = name, hd_fn = f\<rparr> (hr_global r)\<rparr>))"

definition register_entity :: "'d hook_registry \<Rightarrow> string \<Rightarrow> string \<Rightarrow> string \<Rightarrow> string \<Rightarrow> 'd hook_fn option \<Rightarrow> (string \<times> string list) + 'd hook_registry" where
  "register_entity r app entity event name fn =
     (if blank app then Inl (''record hook app is required'', [])
      else if blank entity then Inl (''record hook entity is required'', [])
      else bindR (validate_hook event name fn) (\<lambda>f. let key = entity_key app entity in
        Inr (r\<lparr>hr_entity := AList.update key (add_hook event \<lparr>hd_name = name, hd_fn = f\<rparr> (entity_hooks r key)) (hr_entity r)\<rparr>)))"

definition has_entity_hooks :: "'d hook_registry option \<Rightarrow> string \<Rightarrow> string \<Rightarrow> bool" where
  "has_entity_hooks r app entity = (case r of None \<Rightarrow> False | Some reg \<Rightarrow> entity_hooks reg (entity_key app entity) \<noteq> [])"

section \<open>Running hooks\<close>

text \<open>Old and new records reach a hook as copies, and so does the input of an event that must not change it.\<close>

definition run_hook :: "hook_context \<Rightarrow> record_input \<times> 'd \<Rightarrow> 'd hook_def \<Rightarrow> record_error + record_input \<times> 'd" where
  "run_hook ctx st h =
     (case hd_fn h ctx (fst st) (snd st) of
        Inl (Some e) \<Rightarrow> Inl e
      | Inl None \<Rightarrow> Inl (validation_error ''record hook failed''
          [(''entity'', hc_entity ctx), (''event'', hc_event ctx), (''hook'', hd_name h)])
      | Inr (input, db) \<Rightarrow> Inr (if mutates_input (hc_event ctx) then input else fst st, db))"

definition run_registry :: "'d hook_registry \<Rightarrow> hook_context \<Rightarrow> record_input \<times> 'd \<Rightarrow> record_error + record_input \<times> 'd" where
  "run_registry r ctx st =
     foldR (run_hook ctx) st
       (hooks_of (hr_global r) (hc_event ctx) @ hooks_of (entity_hooks r (entity_key (hc_app ctx) (hc_entity ctx))) (hc_event ctx))"

section \<open>Raw rows\<close>

text \<open>\<^verbatim>\<open>json.Marshal\<close> of decoded rows: raw members are compacted and HTML characters escaped, keys sorted.\<close>

definition html_escape :: "char \<Rightarrow> string" where
  "html_escape c = (if c \<in> {CHR ''<'', CHR ''>'', CHR ''&''} then quote_char c else [c])"

fun compact_raw :: "bool \<Rightarrow> string \<Rightarrow> string" where
  "compact_raw q [] = []"
| "compact_raw False (c # cs) =
     (if json_ws c then compact_raw False cs else c # compact_raw (c = CHR 0x22) cs)"
| "compact_raw True (c # cs) =
     (if c = CHR 0x5C then (case cs of [] \<Rightarrow> [c] | d # ds \<Rightarrow> c # d # compact_raw True ds)
      else html_escape c @ compact_raw (c \<noteq> CHR 0x22) cs)"

definition marshal_raw_row :: "record_input option \<Rightarrow> string" where
  "marshal_raw_row r =
     (case r of None \<Rightarrow> ''null''
      | Some m \<Rightarrow> ''{'' @ join '','' (map (\<lambda>k. marshal_string k @ '':'' @ compact_raw False (input_raw m k)) (sort (map fst m))) @ ''}'')"

definition marshal_raw_rows :: "record_input option list \<Rightarrow> string" where
  "marshal_raw_rows rows = ''['' @ join '','' (map marshal_raw_row rows) @ '']''"

section \<open>Secrets are hidden\<close>

lemma foldR_cong [fundef_cong]:
  assumes "s = t" "xs = ys" "\<And>x u. x \<in> set ys \<Longrightarrow> f u x = g u x"
  shows "foldR f s xs = foldR g t ys"
proof -
  have "foldR f u ys = foldR g u ys" for u using assms(3) by (induction ys arbitrary: u) (auto split: sum.splits)
  with assms(1,2) show ?thesis by simp
qed

definition has_secret_field :: "layout_head \<Rightarrow> bool" where
  "has_secret_field h = list_ex (\<lambda>f. rf_type f = ''secret'') (lh_fields h)"

definition secret_names :: "layout_head \<Rightarrow> string list" where
  "secret_names h = map rf_name (filter (\<lambda>f. rf_type f = ''secret'') (lh_fields h))"

fun layout_has_secrets :: "record_layout \<Rightarrow> bool"
  and collection_has_secrets :: "record_collection \<Rightarrow> bool" where
  "layout_has_secrets (RecordLayout h cs) \<longleftrightarrow> has_secret_field h \<or> list_ex (\<lambda>p. collection_has_secrets (snd p)) cs"
| "collection_has_secrets (RecordCollection f n l) \<longleftrightarrow> layout_has_secrets l"

definition collection_array_error :: "string \<Rightarrow> record_error" where
  "collection_array_error name = validation_error ''collection field must be an array'' [(''field'', name)]"

definition row_members :: "record_input option \<Rightarrow> record_input" where
  "row_members r = (case r of None \<Rightarrow> [] | Some m \<Rightarrow> m)"

text \<open>What a hook sees of an input.\<close>

fun hide_secrets :: "record_layout \<Rightarrow> record_input \<Rightarrow> record_error + record_input"
  and hide_collection :: "record_collection \<Rightarrow> string \<Rightarrow> record_input \<Rightarrow> record_input \<Rightarrow> record_error + record_input" where
  "hide_secrets (RecordLayout h cs) input =
     (if \<not> layout_has_secrets (RecordLayout h cs) then Inr input
      else foldR (\<lambda>clean p. hide_collection (snd p) (fst p) input clean) (filter (\<lambda>p. fst p \<notin> set (secret_names h)) input) cs)"
| "hide_collection (RecordCollection f n l) name input clean =
     (if \<not> layout_has_secrets l then Inr clean
      else case map_of input name of None \<Rightarrow> Inr clean
      | Some raw \<Rightarrow> (case raw_rows raw of None \<Rightarrow> Inl (collection_array_error name)
        | Some rows \<Rightarrow> bindR (mapR (\<lambda>r. hide_secrets l (row_members r)) rows) (\<lambda>rows'.
            Inr (AList.update name (marshal_raw_rows (map Some rows')) clean))))"

fun reject_hook_secrets :: "record_layout \<Rightarrow> record_input \<Rightarrow> record_error + unit"
  and reject_collection_secrets :: "record_collection \<Rightarrow> string \<Rightarrow> record_input \<Rightarrow> record_error + unit" where
  "reject_hook_secrets (RecordLayout h cs) input =
     bindR (foldR (\<lambda>_ n. guardR (map_of input n = None) (validation_error ''Hooks cannot submit secret fields'' [(''field'', n)])) () (secret_names h))
       (\<lambda>_. foldR (\<lambda>_ p. reject_collection_secrets (snd p) (fst p) input) () cs)"
| "reject_collection_secrets (RecordCollection f n l) name input =
     (if \<not> layout_has_secrets l then Inr ()
      else case map_of input name of None \<Rightarrow> Inr ()
      | Some raw \<Rightarrow> (case raw_rows raw of None \<Rightarrow> Inl (collection_array_error name)
        | Some rows \<Rightarrow> foldR (\<lambda>_ r. reject_hook_secrets l (row_members r)) () rows))"

definition structure_error :: "string \<Rightarrow> record_error" where
  "structure_error name = validation_error ''Hooks cannot change submitted collection row structure'' [(''field'', name)]"

definition reorder_error :: "string \<Rightarrow> record_error" where
  "reorder_error name = validation_error ''Hooks cannot reorder submitted collection rows'' [(''field'', name)]"

text \<open>The submitted secrets come back; everything else is what the hooks left.  A row \<^verbatim>\<open>null\<close> is a nil
  map in Go, to which nothing can be added.\<close>

definition nil_map_panic :: record_error where
  "nil_map_panic = internal_error ''assignment to entry in nil map'' []"

fun restore_secrets :: "record_layout \<Rightarrow> record_input \<Rightarrow> record_input \<Rightarrow> record_error + record_input"
  and restore_collection :: "record_collection \<Rightarrow> string \<Rightarrow> record_input \<Rightarrow> record_input \<Rightarrow> record_error + record_input" where
  "restore_secrets (RecordLayout h cs) input hooked =
     (if \<not> layout_has_secrets (RecordLayout h cs) then Inr hooked
      else bindR (reject_hook_secrets (RecordLayout h cs) hooked) (\<lambda>_.
        bindR (foldR (\<lambda>clean p. restore_collection (snd p) (fst p) input clean) hooked cs) (\<lambda>clean.
          Inr (clean @ filter (\<lambda>p. rf_type (field_or_zero (RecordLayout h cs) (fst p)) = ''secret'') input))))"
| "restore_collection (RecordCollection f n l) name input clean =
     (case (layout_has_secrets l, Option.bind (map_of input name) raw_rows) of
        (True, Some rows) \<Rightarrow>
          (case Option.bind (map_of clean name) raw_rows of
             None \<Rightarrow> Inl (structure_error name)
           | Some hooked_rows \<Rightarrow>
               if length hooked_rows \<noteq> length rows then Inl (structure_error name)
               else bindR (mapR (\<lambda>p.
                   if input_raw (row_members (snd p)) ''id'' \<noteq> input_raw (row_members (fst p)) ''id'' then Inl (reorder_error name)
                   else bindR (restore_secrets l (row_members (fst p)) (row_members (snd p))) (\<lambda>r.
                     if fst p \<noteq> None then Inr (Some r) else if r = [] then Inr None else Inl nil_map_panic)) (zip rows hooked_rows)) (\<lambda>rows'.
                 Inr (AList.update name (if map_of input name = Some ''null'' then ''null'' else marshal_raw_rows rows') clean)))
      | _ \<Rightarrow> Inr clean)"

section \<open>The hooks of a store\<close>

definition run_record_hooks :: "'d hook_registry option \<Rightarrow> record_layout \<Rightarrow> hook_context \<Rightarrow> record_input \<Rightarrow> 'd \<Rightarrow>
    record_error + record_input \<times> 'd" where
  "run_record_hooks hooks l ctx input db =
     (case hooks of None \<Rightarrow> Inr (input, db)
      | Some r \<Rightarrow>
          bindR (hide_secrets l input) (\<lambda>clean. bindR (run_registry r ctx (clean, db)) (\<lambda>(hooked, db').
            bindR (restore_secrets l input hooked) (\<lambda>input'. Inr (input', db')))))"

section \<open>What hooks can do to secrets\<close>

lemma foldR_guard_all: "foldR (\<lambda>_ x. guardR (P x) (e x)) () xs = Inr () \<longleftrightarrow> list_all P xs"
  by (induction xs) (auto simp: guardR_def)

lemma map_of_filter_key: "map_of (filter (\<lambda>p. Q (fst p)) xs) n = (if Q n then map_of xs n else None)"
  by (induction xs) auto

lemma hide_collection_other:
  assumes "hide_collection c name input clean = Inr clean'" and "n \<noteq> name"
  shows "map_of clean' n = map_of clean n"
proof -
  obtain f i l where c: "c = RecordCollection f i l" by (cases c)
  show ?thesis using assms by (auto simp: c bindR_Inr_iff update_conv' split: if_splits option.splits)
qed

lemma restore_collection_other:
  assumes "restore_collection c name input clean = Inr clean'" and "n \<noteq> name"
  shows "map_of clean' n = map_of clean n"
proof -
  obtain f i l where c: "c = RecordCollection f i l" by (cases c)
  show ?thesis using assms by (auto simp: c bindR_Inr_iff update_conv' Let_def split: if_splits option.splits bool.splits)
qed

definition secrets_apart :: "record_layout \<Rightarrow> bool" where
  "secrets_apart l \<longleftrightarrow> distinct (map rf_name (ly_fields l)) \<and> list_all (\<lambda>p. fst p \<notin> set (secret_names (ly_head l))) (ly_collections l)"

lemma hidden_is_hidden:
  assumes "hide_secrets l input = Inr clean" and "secrets_apart l" and "n \<in> set (secret_names (ly_head l))"
  shows "map_of clean n = None"
proof -
  obtain h cs where l: "l = RecordLayout h cs" by (cases l)
  have has: "layout_has_secrets l" using assms(3) by (auto simp: l has_secret_field_def secret_names_def list_ex_iff)
  then have run: "foldR (\<lambda>clean p. hide_collection (snd p) (fst p) input clean) (filter (\<lambda>p. fst p \<notin> set (secret_names h)) input) cs = Inr clean"
    using assms(1) by (auto simp: l split: if_splits)
  have apart: "n \<noteq> fst p" if "p \<in> set cs" for p using assms(2,3) that by (auto simp: l secrets_apart_def list_all_iff)
  show ?thesis
  proof (rule foldR_invariant [OF _ _ run, where P = "\<lambda>m. map_of m n = None"])
    show "map_of (filter (\<lambda>p. fst p \<notin> set (secret_names h)) input) n = None"
      using assms(3) by (simp add: map_of_filter_key [of "\<lambda>k. k \<notin> set (secret_names h)"] l)
  qed (use apart hide_collection_other in metis)
qed

lemma secret_type:
  assumes "distinct (map rf_name (ly_fields l))" and "n \<in> set (secret_names (ly_head l))"
  shows "rf_type (field_or_zero l n) = ''secret''"
proof -
  obtain f where f: "f \<in> set (ly_fields l)" "rf_name f = n" "rf_type f = ''secret''" using assms(2) by (auto simp: secret_names_def)
  have "field_by_name l n \<noteq> None" using f by (auto simp: field_by_name_def find_None_iff)
  then obtain g where g: "field_by_name l n = Some g" by blast
  then have "g \<in> set (ly_fields l)" "rf_name g = n" by (auto simp: field_by_name_def dest: find_SomeD)
  then have "g = f" using f assms(1) by (auto simp: distinct_map inj_on_def)
  with f g show ?thesis by (simp add: field_or_zero_def)
qed

lemma restored_secrets:
  assumes "restore_secrets l input hooked = Inr input'" and "secrets_apart l" and "n \<in> set (secret_names (ly_head l))"
  shows "map_of input' n = map_of input n"
proof -
  obtain h cs where l: "l = RecordLayout h cs" by (cases l)
  have has: "layout_has_secrets l" using assms(3) by (auto simp: l has_secret_field_def secret_names_def list_ex_iff)
  obtain clean where reject: "reject_hook_secrets l hooked = Inr ()"
    and run: "foldR (\<lambda>clean p. restore_collection (snd p) (fst p) input clean) hooked cs = Inr clean"
    and input': "input' = clean @ filter (\<lambda>p. rf_type (field_or_zero l (fst p)) = ''secret'') input"
    using assms(1) has by (auto simp: l bindR_Inr_iff simp del: reject_hook_secrets.simps split: if_splits)
  have "map_of hooked n = None"
    using reject assms(3) by (auto simp: l bindR_Inr_iff foldR_guard_all list_all_iff)
  have apart: "n \<noteq> fst p" if "p \<in> set cs" for p using assms(2,3) that by (auto simp: l secrets_apart_def list_all_iff)
  have "map_of clean n = None"
    by (rule foldR_invariant [OF _ _ run, where P = "\<lambda>m. map_of m n = None"])
      (use apart restore_collection_other \<open>map_of hooked n = None\<close> in metis)+
  moreover have "rf_type (field_or_zero l n) = ''secret''" using assms(2,3) by (auto simp: secrets_apart_def intro: secret_type)
  ultimately show ?thesis
    by (simp add: input' map_add_def map_of_filter_key [of "\<lambda>k. rf_type (field_or_zero l k) = ''secret''"])
qed


section \<open>Samples\<close>

definition sample_secret_layout :: record_layout where
  "sample_secret_layout = RecordLayout \<lparr>lh_entity_id = 4, lh_app = ''crm'', lh_entity = ''mailbox'', lh_slug = ''mailbox'', lh_label = ''Mailbox'',
     lh_single = False, lh_system = False, lh_collection = False, lh_private = False, lh_owner_field = [], lh_table = ''crm_mailbox'',
     lh_naming = default_record_naming, lh_tree = None,
     lh_fields = [name_record_field\<lparr>rf_name := ''host'', rf_column := ''host''\<rparr>,
       name_record_field\<lparr>rf_name := ''token'', rf_column := ''token'', rf_type := ''secret'', rf_write_only := True\<rparr>]\<rparr> []"

text \<open>A hook that writes the host and counts its calls.\<close>

definition sample_hooks :: "nat hook_registry" where
  "sample_hooks = empty_registry\<lparr>hr_global := [(''before-update'',
     [\<lparr>hd_name = ''host'', hd_fn = (\<lambda>hc input n. Inr (AList.update ''host'' ''\"h\"'' input, Suc n))\<rparr>])]\<rparr>"



text \<open>
  The Activity of Records (\<^verbatim>\<open>internal/db/records_activity.go\<close>): what a request says of its actor,
  the changes of an update, and the framework hook that writes one entry per mutation
  (\<^verbatim>\<open>DefaultRecordHookRegistry\<close>).  The values of an entry are kept as values; the code writes
  them as JSON.
\<close>

section \<open>The request\<close>

record activity_actor =
  aa_user :: int
  aa_email :: string
  aa_administrator :: bool

record activity_context =
  ax_actor :: "activity_actor option"
  ax_actor_name :: string
  ax_source :: string
  ax_reason :: string

definition no_activity_context :: activity_context where
  "no_activity_context = \<lparr>ax_actor = None, ax_actor_name = [], ax_source = [], ax_reason = []\<rparr>"

definition with_actor_name :: "activity_context \<Rightarrow> string \<Rightarrow> activity_context" where
  "with_actor_name cx name = (if blank name then cx else cx\<lparr>ax_actor_name := trim_space name\<rparr>)"

definition with_activity_actor :: "activity_context \<Rightarrow> int \<Rightarrow> string \<Rightarrow> bool \<Rightarrow> activity_context" where
  "with_activity_actor cx user email admin =
     (if user \<le> 0 then cx
      else with_actor_name (cx\<lparr>ax_actor := Some \<lparr>aa_user = user, aa_email = trim_space email, aa_administrator = admin\<rparr>\<rparr>) (trim_space email))"

definition with_activity_source :: "activity_context \<Rightarrow> string \<Rightarrow> activity_context" where
  "with_activity_source cx source = (if blank source then cx else cx\<lparr>ax_source := trim_space source\<rparr>)"

definition with_system_reason :: "activity_context \<Rightarrow> string \<Rightarrow> activity_context" where
  "with_system_reason cx reason = (if blank reason then cx else cx\<lparr>ax_reason := trim_space reason\<rparr>)"

definition activity_actor_of :: "activity_context \<Rightarrow> activity_actor option" where
  "activity_actor_of cx = (case ax_actor cx of Some a \<Rightarrow> if aa_user a > 0 then Some a else None | None \<Rightarrow> None)"

definition actor_name_of :: "activity_context \<Rightarrow> string option" where
  "actor_name_of cx = (if blank (ax_actor_name cx) then None else Some (ax_actor_name cx))"

definition activity_details :: "activity_context \<Rightarrow> (string \<times> string) list" where
  "activity_details cx =
     (if blank (ax_source cx) then [] else [(''source'', ax_source cx)])
     @ (if blank (ax_reason cx) then [] else [(''system-reason'', ax_reason cx)])"

section \<open>Changes\<close>

text \<open>A name that a record does not have reads as nil.\<close>

definition rec_value :: "rec_map \<Rightarrow> string \<Rightarrow> val" where
  "rec_value r n = (case map_of r n of None \<Rightarrow> VNull | Some v \<Rightarrow> v)"

definition activity_change :: "record_layout \<Rightarrow> rec_map \<Rightarrow> rec_map \<Rightarrow> string \<Rightarrow> (string \<times> field_change) option" where
  "activity_change l old new n =
     (if rf_write_only (field_or_zero l n) then Some (n, Redacted)
      else if rec_value old n = rec_value new n then None
      else Some (n, Changed (rec_value old n) (rec_value new n)))"

definition activity_changes :: "record_layout \<Rightarrow> record_input \<Rightarrow> rec_map \<Rightarrow> rec_map \<Rightarrow> (string \<times> field_change) list" where
  "activity_changes l input old new = List.map_filter (activity_change l old new) (sorted_input_names input)"

section \<open>Entries\<close>

record activity =
  av_kind :: string
  av_operation :: string
  av_status :: string
  av_entity :: string
  av_record :: int
  av_title :: string
  av_actor :: "string option"
  av_changes :: "(string \<times> field_change) list"
  av_snapshot :: rec_map
  av_details :: "(string \<times> string) list"

definition entity_record_name :: "string \<Rightarrow> string \<Rightarrow> string" where
  "entity_record_name app key = app @ ''.'' @ key"

definition activity_title :: "string \<Rightarrow> string \<Rightarrow> string \<Rightarrow> string" where
  "activity_title label entity operation =
     (let l = (if blank label then entity else trim_space label) in
      if operation = ''create'' then ''Created '' @ l else if operation = ''update'' then ''Updated '' @ l
      else if operation = ''delete'' then ''Deleted '' @ l else operation @ '' '' @ l)"

definition activity_of :: "activity_context \<Rightarrow> hook_context \<Rightarrow> activity" where
  "activity_of cx hc =
     \<lparr>av_kind = ''record'', av_operation = hc_operation hc, av_status = ''success'', av_entity = entity_record_name (hc_app hc) (hc_entity hc),
      av_record = hc_record hc, av_title = activity_title (hc_label hc) (hc_entity hc) (hc_operation hc), av_actor = actor_name_of cx,
      av_changes = hc_changes hc, av_snapshot = (case hc_snapshot hc of None \<Rightarrow> [] | Some r \<Rightarrow> r), av_details = activity_details cx\<rparr>"

text \<open>\<open>write\<close> creates the Activity record through the silent system writer.\<close>

definition record_activity_hook :: "activity_context \<Rightarrow> (activity \<Rightarrow> 'd \<Rightarrow> record_error + 'd) \<Rightarrow> 'd hook_fn" where
  "record_activity_hook cx write hc input db =
     (if hc_private hc \<or> hc_entity hc = ''activity'' \<or> hc_operation hc = ''update'' \<and> hc_changes hc = [] then Inr (input, db)
      else case write (activity_of cx hc) db of Inl e \<Rightarrow> Inl (Some e) | Inr db' \<Rightarrow> Inr (input, db'))"

definition activity_hook_def :: "activity_context \<Rightarrow> (activity \<Rightarrow> 'd \<Rightarrow> record_error + 'd) \<Rightarrow> 'd hook_def" where
  "activity_hook_def cx write = \<lparr>hd_name = ''activity-history'', hd_fn = record_activity_hook cx write\<rparr>"

definition default_hook_registry :: "activity_context \<Rightarrow> (activity \<Rightarrow> 'd \<Rightarrow> record_error + 'd) \<Rightarrow> 'd hook_registry" where
  "default_hook_registry cx write =
     empty_registry\<lparr>hr_global := map (\<lambda>e. (e, [activity_hook_def cx write])) [''after-create'', ''after-update'', ''after-delete'']\<rparr>"

end
