(* ===== verification/Record_Lifecycle.thy ===== *)
theory Record_Lifecycle
  imports Record_Hooks Record_Tree Record_Table
begin

text \<open>
  Creating, updating and deleting a Record (\<^verbatim>\<open>createRecordWithLayout\<close>,
  \<^verbatim>\<open>updateRecordWithLayout\<close>, \<^verbatim>\<open>deleteRecordWithLayout\<close> and their callers in
  \<^verbatim>\<open>internal/db/records.go\<close>, \<^verbatim>\<open>system_records.go\<close>): the order of the checks, the
  hooks, the statements and the collections, and the transaction around them.  What runs on the
  database is an argument, one operation per step, so that the order is the subject of this theory.
\<close>

section \<open>The operations of a store\<close>

text \<open>For one layout: the look-ups of a preparation, the check of a new tree parent, the insert, the collections,
  the read that locks the row, the update, the check of a tree delete and the delete.\<close>

record 'd record_ops =
  ro_lookups :: "'d \<Rightarrow> prepare_env"
  ro_tree_parent :: "int \<Rightarrow> record_input \<Rightarrow> 'd \<Rightarrow> record_error + unit"
  ro_insert :: "record_input \<Rightarrow> 'd \<Rightarrow> record_error + rec_map \<times> 'd"
  ro_save_collections :: "int \<Rightarrow> record_input \<Rightarrow> bool \<Rightarrow> 'd \<Rightarrow> record_error + 'd"
  ro_load_collections :: "rec_map \<Rightarrow> 'd \<Rightarrow> record_error + rec_map"
  ro_read :: "int \<Rightarrow> 'd \<Rightarrow> record_error + rec_map"
  ro_update :: "int \<Rightarrow> record_input \<Rightarrow> 'd \<Rightarrow> record_error + rec_map \<times> 'd"
  ro_tree_delete :: "int \<Rightarrow> 'd \<Rightarrow> record_error + unit"
  ro_delete_collections :: "int \<Rightarrow> 'd \<Rightarrow> record_error + 'd"
  ro_delete :: "int \<Rightarrow> 'd \<Rightarrow> record_error + nat \<times> 'd"

text \<open>A store inside its transaction.\<close>

record 'd store_env =
  st_hooks :: "'d hook_registry option"
  st_system :: bool
  st_layout :: "string \<Rightarrow> string \<Rightarrow> record_error + record_layout"
  st_ops :: "record_layout \<Rightarrow> 'd record_ops"
  st_find :: "record_layout \<Rightarrow> string \<Rightarrow> record_input \<Rightarrow> 'd \<Rightarrow> record_error + rec_map"

section \<open>Creating\<close>

definition create_record :: "'d store_env \<Rightarrow> record_layout \<Rightarrow> record_input \<Rightarrow> 'd \<Rightarrow> record_error + rec_map \<times> 'd" where
  "create_record st l input db =
     (let ops = st_ops st l; hc = (new_hook_context ''before-validate'' l)\<lparr>hc_operation := ''create''\<rparr> in
      bindR (lock_tree True l) (\<lambda>_.
      if lh_single (ly_head l) then Inl (single_operation_error l ''create'')
      else if lh_collection (ly_head l) then Inl (collection_operation_error l ''create'')
      else bindR (reject_system_mutation (st_system st) l ''create'') (\<lambda>_.
      bindR (run_record_hooks (st_hooks st) l hc input db) (\<lambda>(i1, d1).
      bindR (prepare_record_input (ro_lookups ops d1) l i1 None) (\<lambda>i2.
      bindR (run_record_hooks (st_hooks st) l (hc\<lparr>hc_event := ''validate''\<rparr>) i2 d1) (\<lambda>(i3, d2).
      bindR (run_record_hooks (st_hooks st) l (hc\<lparr>hc_event := ''before-create''\<rparr>) i3 d2) (\<lambda>(i4, d3).
      bindR (ro_tree_parent ops 0 i4 d3) (\<lambda>_.
      bindR (ro_insert ops i4 d3) (\<lambda>(r0, d4).
      bindR (activity_record_id r0) (\<lambda>rid.
      bindR (ro_save_collections ops rid i4 True d4) (\<lambda>d5.
      bindR (ro_load_collections ops r0 d5) (\<lambda>r.
      bindR (run_record_hooks (st_hooks st) l
          ((new_hook_context ''after-create'' l)\<lparr>hc_operation := ''create'', hc_record := rid, hc_new := Some r, hc_snapshot := Some r\<rparr>) i4 d5)
        (\<lambda>(_, d6). Inr (r, d6))))))))))))))"

section \<open>Updating\<close>

definition update_record :: "'d store_env \<Rightarrow> record_layout \<Rightarrow> int \<Rightarrow> record_input \<Rightarrow> 'd \<Rightarrow> record_error + rec_map \<times> 'd" where
  "update_record st l rid input db =
     (let ops = st_ops st l in
      bindR (lock_tree True l) (\<lambda>_.
      bindR (reject_system_mutation (st_system st) l ''update'') (\<lambda>_.
      bindR (ro_read ops rid db) (\<lambda>old.
      let hc = (new_hook_context ''before-validate'' l)\<lparr>hc_operation := ''update'', hc_record := rid, hc_old := Some old\<rparr> in
      bindR (run_record_hooks (st_hooks st) l hc input db) (\<lambda>(i1, d1).
      bindR (prepare_record_input (ro_lookups ops d1) l i1 (Some old)) (\<lambda>i2.
      bindR (run_record_hooks (st_hooks st) l (hc\<lparr>hc_event := ''validate''\<rparr>) i2 d1) (\<lambda>(i3, d2).
      bindR (run_record_hooks (st_hooks st) l (hc\<lparr>hc_event := ''before-update''\<rparr>) i3 d2) (\<lambda>(i4, d3).
      bindR (ro_tree_parent ops rid i4 d3) (\<lambda>_.
      bindR (ro_update ops rid i4 d3) (\<lambda>(r0, d4).
      bindR (activity_record_id r0) (\<lambda>rid'.
      bindR (ro_save_collections ops rid' i4 False d4) (\<lambda>d5.
      bindR (ro_load_collections ops r0 d5) (\<lambda>r.
      bindR (run_record_hooks (st_hooks st) l
          ((new_hook_context ''after-update'' l)\<lparr>hc_operation := ''update'', hc_record := rid', hc_old := Some old, hc_new := Some r,
             hc_changes := activity_changes l i4 old r\<rparr>) i4 d5)
        (\<lambda>(_, d6). Inr (r, d6)))))))))))))))"

section \<open>Deleting\<close>

definition delete_record :: "'d store_env \<Rightarrow> record_layout \<Rightarrow> string \<Rightarrow> int \<Rightarrow> 'd \<Rightarrow> record_error + 'd" where
  "delete_record st l entity rid db =
     (let ops = st_ops st l in
      bindR (lock_tree True l) (\<lambda>_.
      if lh_single (ly_head l) then Inl (single_operation_error l ''delete'')
      else if lh_collection (ly_head l) then Inl (collection_operation_error l ''delete'')
      else bindR (reject_system_mutation (st_system st) l ''delete'') (\<lambda>_.
      bindR (ro_read ops rid db) (\<lambda>old.
      let hc = (new_hook_context ''before-delete'' l)\<lparr>hc_operation := ''delete'', hc_record := rid, hc_old := Some old\<rparr> in
      bindR (run_record_hooks (st_hooks st) l hc [] db) (\<lambda>(_, d1).
      bindR (ro_tree_delete ops rid d1) (\<lambda>_.
      bindR (ro_delete_collections ops rid d1) (\<lambda>d2.
      bindR (ro_delete ops rid d2) (\<lambda>(n, d3).
      if n = 0 then Inl (not_found ''record not found'' [(''entity'', entity), (''id'', show_int rid)])
      else bindR (activity_record_id old) (\<lambda>rid'.
      bindR (run_record_hooks (st_hooks st) l
          ((new_hook_context ''after-delete'' l)\<lparr>hc_operation := ''delete'', hc_record := rid', hc_old := Some old, hc_snapshot := Some old\<rparr>) [] d3)
        (\<lambda>(_, d4). Inr d4))))))))))"

section \<open>Transactions\<close>

text \<open>\<open>commits\<close> tells whether the COMMIT works; a failure leaves the database as it was.\<close>

definition with_record_mutation :: "bool \<Rightarrow> ('d \<Rightarrow> record_error + 'a \<times> 'd) \<Rightarrow> 'd \<Rightarrow> (record_error + 'a) \<times> 'd" where
  "with_record_mutation commits f db =
     (case f db of Inl e \<Rightarrow> (Inl e, db)
      | Inr (a, db') \<Rightarrow> if commits then (Inr a, db') else (Inl (internal_error ''commit record transaction failed'' []), db))"

definition record_identity_name :: "string \<Rightarrow> string \<Rightarrow> string" where
  "record_identity_name app entity = app @ ''/'' @ entity"

definition create_by_identity :: "'d store_env \<Rightarrow> bool \<Rightarrow> string \<Rightarrow> string \<Rightarrow> record_input \<Rightarrow> 'd \<Rightarrow> (record_error + rec_map) \<times> 'd" where
  "create_by_identity st commits app entity input =
     with_record_mutation commits (\<lambda>db. bindR (st_layout st app entity) (\<lambda>l. create_record st l input db))"

definition update_by_identity :: "'d store_env \<Rightarrow> bool \<Rightarrow> string \<Rightarrow> string \<Rightarrow> int \<Rightarrow> record_input \<Rightarrow> 'd \<Rightarrow> (record_error + rec_map) \<times> 'd" where
  "update_by_identity st commits app entity rid input db =
     (if rid \<le> 0 then (Inl (invalid_record_id (record_identity_name app entity)), db)
      else with_record_mutation commits (\<lambda>db. bindR (st_layout st app entity) (\<lambda>l. update_record st l rid input db)) db)"

definition delete_by_identity :: "'d store_env \<Rightarrow> bool \<Rightarrow> string \<Rightarrow> string \<Rightarrow> int \<Rightarrow> 'd \<Rightarrow> (record_error + unit) \<times> 'd" where
  "delete_by_identity st commits app entity rid db =
     (if rid \<le> 0 then (Inl (invalid_record_id (record_identity_name app entity)), db)
      else with_record_mutation commits (\<lambda>db. bindR (st_layout st app entity) (\<lambda>l.
        bindR (delete_record st l (record_identity_name app entity) rid db) (\<lambda>db'. Inr ((), db')))) db)"

definition find_by_identity :: "'d store_env \<Rightarrow> string \<Rightarrow> string \<Rightarrow> record_input \<Rightarrow> 'd \<Rightarrow> record_error + rec_map" where
  "find_by_identity st app entity match db =
     (let identity = record_identity_name app entity in
      if match = [] then Inl (invalid_request ''at least one match field is required'' [(''entity'', identity)])
      else bindR (st_layout st app entity) (\<lambda>l. st_find st l identity match db))"

section \<open>The system writer\<close>

datatype mutation_policy = Bootstrap | Silent | Framework | Full | OtherPolicy string

definition mutation_store :: "activity_context \<Rightarrow> (activity \<Rightarrow> 'd \<Rightarrow> record_error + 'd) \<Rightarrow> 'd store_env \<Rightarrow> mutation_policy \<Rightarrow>
    record_error + 'd store_env" where
  "mutation_store cx write st policy =
     (let st' = st\<lparr>st_system := True\<rparr> in
      case policy of
        Bootstrap \<Rightarrow> Inr (st'\<lparr>st_hooks := None\<rparr>) | Silent \<Rightarrow> Inr (st'\<lparr>st_hooks := None\<rparr>)
      | Framework \<Rightarrow> Inr (st'\<lparr>st_hooks := Some (default_hook_registry cx write)\<rparr>)
      | Full \<Rightarrow> Inr st'
      | OtherPolicy p \<Rightarrow> Inl (invalid_request ''system mutation policy is invalid'' [(''policy'', p)]))"

definition upsert_record :: "'d store_env \<Rightarrow> string \<Rightarrow> string \<Rightarrow> record_input \<Rightarrow> record_input \<Rightarrow> 'd \<Rightarrow> record_error + rec_map \<times> 'd" where
  "upsert_record st app entity match input db =
     (case find_by_identity st app entity match db of
        Inl e \<Rightarrow> if rx_code e \<noteq> ''not_found'' then Inl e else bindR (st_layout st app entity) (\<lambda>l. create_record st l input db)
      | Inr r \<Rightarrow> bindR (activity_record_id r) (\<lambda>rid. bindR (st_layout st app entity) (\<lambda>l. update_record st l rid input db)))"

definition system_insert :: "activity_context \<Rightarrow> (activity \<Rightarrow> 'd \<Rightarrow> record_error + 'd) \<Rightarrow> 'd store_env \<Rightarrow> mutation_policy \<Rightarrow> bool \<Rightarrow>
    string \<Rightarrow> string \<Rightarrow> record_input \<Rightarrow> 'd \<Rightarrow> (record_error + rec_map) \<times> 'd" where
  "system_insert cx write st policy commits app entity input db =
     (case mutation_store cx write st policy of Inl e \<Rightarrow> (Inl e, db)
      | Inr st' \<Rightarrow> create_by_identity st' commits app entity input db)"

definition system_update :: "activity_context \<Rightarrow> (activity \<Rightarrow> 'd \<Rightarrow> record_error + 'd) \<Rightarrow> 'd store_env \<Rightarrow> mutation_policy \<Rightarrow> bool \<Rightarrow>
    string \<Rightarrow> string \<Rightarrow> int \<Rightarrow> record_input \<Rightarrow> 'd \<Rightarrow> (record_error + rec_map) \<times> 'd" where
  "system_update cx write st policy commits app entity rid input db =
     (case mutation_store cx write st policy of Inl e \<Rightarrow> (Inl e, db)
      | Inr st' \<Rightarrow> update_by_identity st' commits app entity rid input db)"

definition system_delete :: "activity_context \<Rightarrow> (activity \<Rightarrow> 'd \<Rightarrow> record_error + 'd) \<Rightarrow> 'd store_env \<Rightarrow> mutation_policy \<Rightarrow> bool \<Rightarrow>
    string \<Rightarrow> string \<Rightarrow> int \<Rightarrow> 'd \<Rightarrow> (record_error + unit) \<times> 'd" where
  "system_delete cx write st policy commits app entity rid db =
     (case mutation_store cx write st policy of Inl e \<Rightarrow> (Inl e, db)
      | Inr st' \<Rightarrow> with_record_mutation commits (\<lambda>db. bindR (st_layout st' app entity) (\<lambda>l.
          bindR (delete_record st' l (record_identity_name app entity) rid db) (\<lambda>db'. Inr ((), db')))) db)"

definition system_upsert :: "activity_context \<Rightarrow> (activity \<Rightarrow> 'd \<Rightarrow> record_error + 'd) \<Rightarrow> 'd store_env \<Rightarrow> mutation_policy \<Rightarrow> bool \<Rightarrow>
    string \<Rightarrow> string \<Rightarrow> record_input \<Rightarrow> record_input \<Rightarrow> 'd \<Rightarrow> (record_error + rec_map) \<times> 'd" where
  "system_upsert cx write st policy commits app entity match input db =
     (case mutation_store cx write st policy of Inl e \<Rightarrow> (Inl e, db)
      | Inr st' \<Rightarrow> with_record_mutation commits (upsert_record st' app entity match input) db)"


text \<open>
  The store on tables: the operations of \<open>Record_Lifecycle\<close> for the table of an Entity, the tables of
  its collections and the Activity, without a scope.  Saving, loading and deleting the collections of a
  record follow \<^verbatim>\<open>internal/db/records_collections.go\<close>.  How PostgreSQL answers a column,
  the other constraints and the other tables are arguments.
\<close>

record 's store_db =
  sd_table :: table_db
  sd_children :: "string \<Rightarrow> table_db"
  sd_names :: 's
  sd_activity :: "activity list"

record 's table_env =
  te_lookups :: "'s store_db \<Rightarrow> prepare_env"
  te_check :: row_check
  te_show :: "record_field \<Rightarrow> db_value \<Rightarrow> val"
  te_time :: "db_value \<Rightarrow> val"
  te_actor :: "int option"
  te_now :: db_value
  te_names :: "'s name_generator"
  te_child :: "string \<Rightarrow> 's save_env"
  te_refuse :: "activity \<Rightarrow> record_error option"
  te_context :: activity_context

section \<open>Reading\<close>

definition row_answer :: "'s table_env \<Rightarrow> record_layout \<Rightarrow> stored_row \<Rightarrow> val list" where
  "row_answer te l r =
     [VInt (sr_id r), te_show te name_record_field (cell_of r ''name''), te_time te (cell_of r ''created_at''), te_time te (cell_of r ''updated_at'')]
     @ map (\<lambda>f. te_show te f (cell_of r (rf_column f))) (selected_fields l)"

definition read_row :: "'s table_env \<Rightarrow> record_layout \<Rightarrow> int \<Rightarrow> 's store_db \<Rightarrow> record_error + rec_map" where
  "read_row te l rid db =
     (case find (\<lambda>r. sr_id r = rid) (tb_rows (sd_table db)) of
        None \<Rightarrow> Inl (not_found ''record not found'' [(''entity'', ly_entity l), (''id'', show_int rid)])
      | Some r \<Rightarrow> record_from_values l (row_answer te l r))"

definition child_table :: "record_collection \<Rightarrow> string" where
  "child_table c = ly_table (cn_layout c)"

definition child_env :: "'s table_env \<Rightarrow> record_collection \<Rightarrow> 's save_env" where
  "child_env te c = te_child te (child_table c)"

text \<open>The collections of a layout in the order they are visited.\<close>

definition visited :: "record_layout \<Rightarrow> (string \<times> record_collection) list" where
  "visited l = List.map_filter (\<lambda>n. map_option (Pair n) (map_of (ly_collections l) n)) (collection_names l)"

definition load_step :: "'s table_env \<Rightarrow> int \<Rightarrow> 's store_db \<Rightarrow> rec_map \<Rightarrow> string \<times> record_collection \<Rightarrow> record_error + rec_map" where
  "load_step te pid db r p =
     bindR (load_collection (sv_answer (child_env te (snd p))) (snd p) pid (sd_children db (child_table (snd p)))) (\<lambda>rows.
       Inr (AList.update (fst p) (VRows rows) r))"

definition load_record_collections :: "'s table_env \<Rightarrow> record_layout \<Rightarrow> rec_map \<Rightarrow> 's store_db \<Rightarrow> record_error + rec_map" where
  "load_record_collections te l r db =
     (if ly_collections l = [] then Inr r
      else bindR (activity_record_id r) (\<lambda>pid. foldR (load_step te pid db) r (visited l)))"

definition read_record :: "'s table_env \<Rightarrow> record_layout \<Rightarrow> int \<Rightarrow> 's store_db \<Rightarrow> record_error + rec_map" where
  "read_record te l rid db =
     (if lh_collection (ly_head l) then Inl (collection_operation_error l ''read'')
      else bindR (read_row te l rid db) (\<lambda>r. load_record_collections te l r db))"

text \<open>A NULL matches nothing; a second row makes the match ambiguous.\<close>

definition row_matches :: "record_mutation \<Rightarrow> stored_row \<Rightarrow> bool" where
  "row_matches m r = list_all (\<lambda>(k, v). v \<noteq> DNull \<and> cell_of r k = v) (mutation_cells m)"

definition find_record :: "'s table_env \<Rightarrow> record_layout \<Rightarrow> string \<Rightarrow> record_input \<Rightarrow> 's store_db \<Rightarrow> record_error + rec_map" where
  "find_record te l entity match db =
     (if lh_collection (ly_head l) then Inl (collection_operation_error l ''read'')
      else bindR (validate_match_fields l match) (\<lambda>_. bindR (match_mutation (pe_env (te_lookups te db)) l match) (\<lambda>m.
        case sort_key sr_id (filter (row_matches m) (tb_rows (sd_table db))) of
          [] \<Rightarrow> Inl (not_found ''record not found'' [(''entity'', entity)])
        | r # rest \<Rightarrow> bindR (record_from_values l (row_answer te l r)) (\<lambda>rec.
            if rest \<noteq> [] then Inl (validation_error ''record match is ambiguous'' [(''entity'', entity)])
            else load_record_collections te l rec db))))"

section \<open>Writing\<close>

definition insert_record :: "'s table_env \<Rightarrow> record_layout \<Rightarrow> record_input \<Rightarrow> 's store_db \<Rightarrow> record_error + rec_map \<times> 's store_db" where
  "insert_record te l input db =
     bindR (insert_row (pe_env (te_lookups te db)) l (te_check te) (te_actor te) (te_names te) Inr input (sd_table db) (sd_names db)) (\<lambda>((rid, t), s).
       let db' = db\<lparr>sd_table := t, sd_names := s\<rparr> in bindR (read_row te l rid db') (\<lambda>r. Inr (r, db')))"

definition update_row :: "'s table_env \<Rightarrow> record_layout \<Rightarrow> int \<Rightarrow> record_input \<Rightarrow> 's store_db \<Rightarrow> record_error + rec_map \<times> 's store_db" where
  "update_row te l rid input db =
     bindR (update_mutation (pe_env (te_lookups te db)) l input) (\<lambda>m.
       case table_update l (te_check te) (\<lambda>r. sr_id r = rid) (mutation_cells m @ [(''updated_at'', te_now te)]) (sd_table db) of
         Inl e \<Rightarrow> Inl (classify_db_error (Some e) (ly_entity l))
       | Inr (n, t) \<Rightarrow>
           if n = 0 then Inl (not_found ''record not found'' [(''entity'', ly_entity l)])
           else let db' = db\<lparr>sd_table := t\<rparr> in bindR (read_row te l rid db') (\<lambda>r. Inr (r, db')))"

definition delete_row :: "int \<Rightarrow> 's store_db \<Rightarrow> record_error + nat \<times> 's store_db" where
  "delete_row rid db = (case table_delete (\<lambda>r. sr_id r = rid) (sd_table db) of (n, t) \<Rightarrow> Inr (n, db\<lparr>sd_table := t\<rparr>))"

definition set_child :: "record_collection \<Rightarrow> table_db \<Rightarrow> 's store_db \<Rightarrow> 's store_db" where
  "set_child c t db = db\<lparr>sd_children := (sd_children db)(child_table c := t)\<rparr>"

definition save_step :: "'s table_env \<Rightarrow> record_layout \<Rightarrow> int \<Rightarrow> record_input \<Rightarrow> bool \<Rightarrow> 's store_db \<Rightarrow> string \<times> record_collection \<Rightarrow>
    record_error + 's store_db" where
  "save_step te l pid input create db p =
     (case map_of input (fst p) of None \<Rightarrow> Inr db
      | Some raw \<Rightarrow> bindR (collection_row_inputs l (fst p) raw (\<not> create)) (\<lambda>rows.
          bindR (save_collection_rows (child_env te (snd p)) (snd p) pid rows create (sd_names db, sd_children db (child_table (snd p)))) (\<lambda>(s, t).
            Inr (set_child (snd p) t (db\<lparr>sd_names := s\<rparr>)))))"

definition save_submitted_collections :: "'s table_env \<Rightarrow> record_layout \<Rightarrow> int \<Rightarrow> record_input \<Rightarrow> bool \<Rightarrow> 's store_db \<Rightarrow> record_error + 's store_db" where
  "save_submitted_collections te l pid input create db = foldR (save_step te l pid input create) db (visited l)"

definition delete_record_collections :: "record_layout \<Rightarrow> int \<Rightarrow> 's store_db \<Rightarrow> record_error + 's store_db" where
  "delete_record_collections l pid db =
     foldR (\<lambda>db p. Inr (set_child (snd p) (snd (table_delete (child_of (snd p) pid) (sd_children db (child_table (snd p))))) db)) db (visited l)"

text \<open>The Activity is written last, or refused.\<close>

definition write_activity :: "'s table_env \<Rightarrow> activity \<Rightarrow> 's store_db \<Rightarrow> record_error + 's store_db" where
  "write_activity te a db =
     (case te_refuse te a of Some e \<Rightarrow> Inl e | None \<Rightarrow> Inr (db\<lparr>sd_activity := sd_activity db @ [a]\<rparr>))"

section \<open>The tree\<close>

definition stored_tree :: "record_layout \<Rightarrow> 's store_db \<Rightarrow> tree_row list" where
  "stored_tree l db =
     (case lh_tree (ly_head l) of None \<Rightarrow> []
      | Some pf \<Rightarrow> map (\<lambda>r. \<lparr>tr_id = sr_id r,
          tr_parent = (case cell_of r (rf_column (field_or_zero l pf)) of DInt i \<Rightarrow> Some i | _ \<Rightarrow> None)\<rparr>) (tb_rows (sd_table db)))"

section \<open>The store\<close>

definition table_ops :: "'s table_env \<Rightarrow> record_layout \<Rightarrow> 's store_db record_ops" where
  "table_ops te l =
     \<lparr>ro_lookups = te_lookups te,
      ro_tree_parent = (\<lambda>rid input db. validate_tree_parent None (Inr None) (pe_env (te_lookups te db)) (\<lambda>_ i. read_record te l i db) (stored_tree l db) l rid input),
      ro_insert = insert_record te l,
      ro_save_collections = save_submitted_collections te l,
      ro_load_collections = load_record_collections te l,
      ro_read = read_record te l,
      ro_update = update_row te l,
      ro_tree_delete = (\<lambda>rid db. restrict_tree_delete (stored_tree l db) l rid),
      ro_delete_collections = delete_record_collections l,
      ro_delete = delete_row\<rparr>"

text \<open>\<^verbatim>\<open>NewRecordStore\<close>: the framework hooks only.\<close>

definition table_store :: "'s table_env \<Rightarrow> (string \<Rightarrow> string \<Rightarrow> record_error + record_layout) \<Rightarrow> 's store_db store_env" where
  "table_store te layouts =
     \<lparr>st_hooks = Some (default_hook_registry (te_context te) (write_activity te)), st_system = False, st_layout = layouts,
      st_ops = table_ops te, st_find = find_record te\<rparr>"

end
