(* ===== verification/Record_History.thy ===== *)
theory Record_History
  imports Record_Lifecycle Collection_Guarantees
begin

text \<open>
  The history of a Record: replaying the Activity entries of a Record gives the Record back.  The interface
  says what the history needs of a store, its lemmas prove the replay, and the store on tables provides it.
\<close>

section \<open>Replaying entries\<close>

definition apply_change :: "rec_map \<Rightarrow> string \<times> field_change \<Rightarrow> rec_map" where
  "apply_change m p = (case snd p of Redacted \<Rightarrow> m | Changed _ v \<Rightarrow> AList.update (fst p) v m)"

definition replay_entry :: "rec_map option \<Rightarrow> activity \<Rightarrow> rec_map option" where
  "replay_entry h a =
     (if av_operation a = ''create'' then Some (av_snapshot a)
      else if av_operation a = ''delete'' then None
      else map_option (\<lambda>m. foldl apply_change m (av_changes a)) h)"

definition concerns :: "record_layout \<Rightarrow> int \<Rightarrow> activity \<Rightarrow> bool" where
  "concerns l i a \<longleftrightarrow> av_entity a = entity_record_name (lh_app (ly_head l)) (ly_entity l) \<and> av_record a = i"

definition history_of :: "record_layout \<Rightarrow> int \<Rightarrow> activity list \<Rightarrow> rec_map option" where
  "history_of l i es = foldl replay_entry None (filter (concerns l i) es)"

text \<open>The time of the last change and write-only fields are not part of the history.\<close>

definition recorded_name :: "record_layout \<Rightarrow> string \<Rightarrow> bool" where
  "recorded_name l n \<longleftrightarrow> n \<noteq> ''updated-at'' \<and> \<not> rf_write_only (field_or_zero l n)"

definition shows_record :: "record_layout \<Rightarrow> record_error + rec_map \<Rightarrow> rec_map option \<Rightarrow> bool" where
  "shows_record l r h \<longleftrightarrow>
     (case (r, h) of (Inr r, Some h) \<Rightarrow> (\<forall>n. recorded_name l n \<longrightarrow> rec_value r n = rec_value h n) | (Inl _, None) \<Rightarrow> True | _ \<Rightarrow> False)"

lemma history_append: "history_of l i (es @ [a]) = (if concerns l i a then replay_entry (history_of l i es) a else history_of l i es)"
  by (simp add: history_of_def)

lemma rec_value_update: "rec_value (AList.update k v m) n = (if n = k then v else rec_value m n)"
  by (simp add: rec_value_def update_conv')

lemma apply_changes_names:
  assumes "\<not> rf_write_only (field_or_zero l n)"
  shows "rec_value (foldl apply_change m (List.map_filter (activity_change l old new) ns)) n
    = (if n \<in> set ns \<and> rec_value old n \<noteq> rec_value new n then rec_value new n else rec_value m n)"
proof (induction ns arbitrary: m)
  case (Cons k ns)
  show ?case
  proof (cases "activity_change l old new k")
    case None
    then have "k = n \<Longrightarrow> rec_value old n = rec_value new n" using assms by (auto simp: activity_change_def split: if_splits)
    then show ?thesis using Cons None by (auto simp: map_filter_simps)
  next
    case (Some c)
    have step: "rec_value (apply_change m c) n = (if k = n then rec_value new n else rec_value m n)"
      and changed: "k = n \<Longrightarrow> rec_value old n \<noteq> rec_value new n"
      using Some assms by (auto simp: activity_change_def apply_change_def rec_value_update split: if_splits)
    show ?thesis using Cons [of "apply_change m c"] Some step changed by (auto simp: map_filter_simps)
  qed
qed (simp add: map_filter_simps)

lemma apply_activity_changes:
  assumes "\<not> rf_write_only (field_or_zero l n)"
  shows "rec_value (foldl apply_change m (activity_changes l input old new)) n
    = (if n \<in> fst ` set input \<and> rec_value old n \<noteq> rec_value new n then rec_value new n else rec_value m n)"
  using apply_changes_names [OF assms] by (simp add: activity_changes_def sorted_input_names_def)

section \<open>The framework hooks\<close>

lemma default_hooks_before:
  assumes "run_record_hooks (Some (default_hook_registry cx wr)) l hc input db = Inr (input', db')"
    and "hc_event hc \<in> {''before-validate'', ''validate'', ''before-create'', ''before-update'', ''before-delete''}"
  shows "db' = db"
  using assms by (auto simp: run_record_hooks_def bindR_Inr_iff run_registry_def default_hook_registry_def empty_registry_def hooks_of_def entity_hooks_def)

lemma default_hooks_after:
  assumes "run_record_hooks (Some (default_hook_registry cx wr)) l hc input db = Inr (input', db')"
    and "hc_event hc \<in> {''after-create'', ''after-update'', ''after-delete''}" and "\<not> hc_private hc" and "hc_entity hc \<noteq> ''activity''"
  shows "if hc_operation hc = ''update'' \<and> hc_changes hc = [] then db' = db else wr (activity_of cx hc) db = Inr db'"
  using assms by (auto simp: run_record_hooks_def bindR_Inr_iff run_registry_def default_hook_registry_def empty_registry_def hooks_of_def
      entity_hooks_def run_hook_def activity_hook_def_def record_activity_hook_def split: sum.splits if_splits option.splits)

section \<open>What the history needs of a store\<close>

locale recorded_store =
  fixes ops :: "record_layout \<Rightarrow> 'd record_ops" and good :: "record_layout \<Rightarrow> bool" and wr :: "activity \<Rightarrow> 'd \<Rightarrow> record_error + 'd" and entries :: "'d \<Rightarrow> activity list"
  assumes read_id: "good l \<Longrightarrow> ro_read (ops l) i d = Inr r \<Longrightarrow> activity_record_id r = Inr i"
    and insert_others: "good l \<Longrightarrow> ro_insert (ops l) inp d = Inr (r, d') \<Longrightarrow> activity_record_id r = Inr i \<Longrightarrow> j \<noteq> i \<Longrightarrow> ro_read (ops l) j d' = ro_read (ops l) j d"
    and insert_entries: "good l \<Longrightarrow> ro_insert (ops l) inp d = Inr (r, d') \<Longrightarrow> entries d' = entries d"
    and insert_loads: "good l \<Longrightarrow> ro_insert (ops l) inp d = Inr (r0, d1) \<Longrightarrow> activity_record_id r0 = Inr i \<Longrightarrow> ro_save_collections (ops l) i inp' c d1 = Inr d2
      \<Longrightarrow> ro_load_collections (ops l) r0 d2 = Inr r \<Longrightarrow> ro_read (ops l) i d2 = Inr r"
    and update_id: "good l \<Longrightarrow> ro_update (ops l) i inp d = Inr (r, d') \<Longrightarrow> activity_record_id r = Inr i"
    and update_others: "good l \<Longrightarrow> ro_update (ops l) i inp d = Inr (r, d') \<Longrightarrow> j \<noteq> i \<Longrightarrow> ro_read (ops l) j d' = ro_read (ops l) j d"
    and update_entries: "good l \<Longrightarrow> ro_update (ops l) i inp d = Inr (r, d') \<Longrightarrow> entries d' = entries d"
    and update_loads: "good l \<Longrightarrow> ro_update (ops l) i inp d = Inr (r0, d1) \<Longrightarrow> ro_save_collections (ops l) i inp' c d1 = Inr d2
      \<Longrightarrow> ro_load_collections (ops l) r0 d2 = Inr r \<Longrightarrow> ro_read (ops l) i d2 = Inr r"
    and update_keeps: "good l \<Longrightarrow> ro_read (ops l) i d = Inr old \<Longrightarrow> ro_update (ops l) i inp d = Inr (r0, d1) \<Longrightarrow> ro_save_collections (ops l) i inp c d1 = Inr d2
      \<Longrightarrow> ro_read (ops l) i d2 = Inr r \<Longrightarrow> n \<notin> fst ` set inp \<Longrightarrow> n \<noteq> ''updated-at'' \<Longrightarrow> rec_value r n = rec_value old n"
    and save_others: "good l \<Longrightarrow> ro_save_collections (ops l) i inp c d = Inr d' \<Longrightarrow> j \<noteq> i \<Longrightarrow> ro_read (ops l) j d' = ro_read (ops l) j d"
    and save_entries: "good l \<Longrightarrow> ro_save_collections (ops l) i inp c d = Inr d' \<Longrightarrow> entries d' = entries d"
    and clear_others: "good l \<Longrightarrow> ro_delete_collections (ops l) i d = Inr d' \<Longrightarrow> j \<noteq> i \<Longrightarrow> ro_read (ops l) j d' = ro_read (ops l) j d"
    and clear_entries: "good l \<Longrightarrow> ro_delete_collections (ops l) i d = Inr d' \<Longrightarrow> entries d' = entries d"
    and delete_gone: "good l \<Longrightarrow> ro_delete (ops l) i d = Inr (k, d') \<Longrightarrow> \<exists>e. ro_read (ops l) i d' = Inl e"
    and delete_others: "good l \<Longrightarrow> ro_delete (ops l) i d = Inr (k, d') \<Longrightarrow> j \<noteq> i \<Longrightarrow> ro_read (ops l) j d' = ro_read (ops l) j d"
    and delete_entries: "good l \<Longrightarrow> ro_delete (ops l) i d = Inr (k, d') \<Longrightarrow> entries d' = entries d"
    and write_reads: "wr a d = Inr d' \<Longrightarrow> ro_read (ops l) j d' = ro_read (ops l) j d"
    and write_entries: "wr a d = Inr d' \<Longrightarrow> entries d' = entries d @ [a]"
begin

definition replayed :: "record_layout \<Rightarrow> 'd \<Rightarrow> bool" where
  "replayed l d \<longleftrightarrow> (\<forall>i. shows_record l (ro_read (ops l) i d) (history_of l i (entries d)))"

lemma written_entry:
  assumes "replayed l db" "\<And>j. j \<noteq> i \<Longrightarrow> ro_read (ops l) j d = ro_read (ops l) j db" "entries d = entries db"
    and "wr a d = Inr d'" "concerns l i a" "shows_record l (ro_read (ops l) i d) (replay_entry (history_of l i (entries db)) a)"
  shows "replayed l d'"
  unfolding replayed_def
proof
  fix j
  have es: "entries d' = entries db @ [a]" using write_entries [OF assms(4)] assms(3) by simp
  show "shows_record l (ro_read (ops l) j d') (history_of l j (entries d'))"
  proof (cases "j = i")
    case True
    then show ?thesis using assms(5,6) by (simp add: es history_append write_reads [OF assms(4)])
  next
    case False
    then have "\<not> concerns l j a" using assms(5) by (simp add: concerns_def)
    then show ?thesis using assms(1) False by (simp add: es history_append write_reads [OF assms(4)] assms(2) replayed_def)
  qed
qed

lemma create_replayed:
  assumes run: "create_record st l input db = Inr (r, db')" and inv: "replayed l db"
    and st: "st_hooks st = Some (default_hook_registry cx wr)" "st_ops st l = ops l"
    and l: "\<not> lh_private (ly_head l)" "ly_entity l \<noteq> ''activity''" and good: "good l"
  shows "replayed l db'"
proof -
  let ?hook = "run_record_hooks (st_hooks st) l"
  obtain h1 h2 h3 i0 i1 i2 i3 i4 d1 d2 d3 where before:
      "?hook h1 input db = Inr (i1, d1)" "hc_event h1 = ''before-validate''" "?hook h2 i2 d1 = Inr (i3, d2)" "hc_event h2 = ''validate''"
      "?hook h3 i3 d2 = Inr (i4, d3)" "hc_event h3 = ''before-create''"
    and rest: "\<exists>r0 d4 rid d5 i5. ro_insert (ops l) i4 d3 = Inr (r0, d4) \<and> activity_record_id r0 = Inr rid \<and> ro_save_collections (ops l) rid i4 True d4 = Inr d5
      \<and> ro_load_collections (ops l) r0 d5 = Inr r \<and> ?hook ((new_hook_context ''after-create'' l)\<lparr>hc_operation := ''create'', hc_record := rid,
          hc_new := Some r, hc_snapshot := Some r\<rparr>) i4 d5 = Inr (i5, db')"
    using run unfolding create_record_def Let_def st(2)
    by (auto elim!: bindR_InrE split: if_splits prod.splits simp: new_hook_context_def Let_def)
  have same: "d1 = db" "d2 = db" "d3 = db"
    using default_hooks_before [OF before(1) [unfolded st(1)]] default_hooks_before [OF before(3) [unfolded st(1)]]
      default_hooks_before [OF before(5) [unfolded st(1)]] before(2,4,6) by simp_all
  obtain r0 d4 rid d5 i5 where s: "ro_insert (ops l) i4 db = Inr (r0, d4)" "activity_record_id r0 = Inr rid" "ro_save_collections (ops l) rid i4 True d4 = Inr d5"
      "ro_load_collections (ops l) r0 d5 = Inr r"
    and after: "?hook ((new_hook_context ''after-create'' l)\<lparr>hc_operation := ''create'', hc_record := rid, hc_new := Some r, hc_snapshot := Some r\<rparr>) i4 d5 = Inr (i5, db')"
    using rest same by blast
  let ?hc = "(new_hook_context ''after-create'' l)\<lparr>hc_operation := ''create'', hc_record := rid, hc_new := Some r, hc_snapshot := Some r\<rparr>"
  have w: "wr (activity_of cx ?hc) d5 = Inr db'"
    using default_hooks_after [OF after [unfolded st(1)]] l by (simp add: new_hook_context_def Let_def)
  show ?thesis
  proof (rule written_entry [OF inv _ _ w])
    show "ro_read (ops l) j d5 = ro_read (ops l) j db" if "j \<noteq> rid" for j
      using insert_others [OF good s(1,2) that] save_others [OF good s(3) that] by simp
    show "entries d5 = entries db" using insert_entries [OF good s(1)] save_entries [OF good s(3)] by simp
    show "concerns l rid (activity_of cx ?hc)" by (simp add: concerns_def activity_of_def new_hook_context_def Let_def)
    show "shows_record l (ro_read (ops l) rid d5) (replay_entry (history_of l rid (entries db)) (activity_of cx ?hc))"
      using insert_loads [OF good s(1,2,3,4)] by (simp add: shows_record_def replay_entry_def activity_of_def)
  qed
qed

lemma update_replayed:
  assumes run: "update_record st l rid input db = Inr (r, db')" and inv: "replayed l db"
    and st: "st_hooks st = Some (default_hook_registry cx wr)" "st_ops st l = ops l"
    and l: "\<not> lh_private (ly_head l)" "ly_entity l \<noteq> ''activity''" and good: "good l"
  shows "replayed l db'"
proof -
  let ?hook = "run_record_hooks (st_hooks st) l"
  let ?hc = "\<lambda>i old r rid. (new_hook_context ''after-update'' l)\<lparr>hc_operation := ''update'', hc_record := rid, hc_old := Some old, hc_new := Some r,
      hc_changes := activity_changes l i old r\<rparr>"
  obtain old h1 h2 h3 i1 i2 i3 i4 d1 d2 d3 where read: "ro_read (ops l) rid db = Inr old" and before:
      "?hook h1 input db = Inr (i1, d1)" "hc_event h1 = ''before-validate''" "?hook h2 i2 d1 = Inr (i3, d2)" "hc_event h2 = ''validate''"
      "?hook h3 i3 d2 = Inr (i4, d3)" "hc_event h3 = ''before-update''"
    and rest: "\<exists>r0 d4 rid' d5 i5. ro_update (ops l) rid i4 d3 = Inr (r0, d4) \<and> activity_record_id r0 = Inr rid' \<and> ro_save_collections (ops l) rid' i4 False d4 = Inr d5
      \<and> ro_load_collections (ops l) r0 d5 = Inr r \<and> ?hook (?hc i4 old r rid') i4 d5 = Inr (i5, db')"
    using run unfolding update_record_def Let_def st(2)
    by (auto elim!: bindR_InrE split: if_splits prod.splits simp: new_hook_context_def Let_def)
  have same: "d1 = db" "d2 = db" "d3 = db"
    using default_hooks_before [OF before(1) [unfolded st(1)]] default_hooks_before [OF before(3) [unfolded st(1)]]
      default_hooks_before [OF before(5) [unfolded st(1)]] before(2,4,6) by simp_all
  obtain r0 d4 rid' d5 i5 where u: "ro_update (ops l) rid i4 db = Inr (r0, d4)" "activity_record_id r0 = Inr rid'"
      "ro_save_collections (ops l) rid' i4 False d4 = Inr d5" "ro_load_collections (ops l) r0 d5 = Inr r"
    and after: "?hook (?hc i4 old r rid') i4 d5 = Inr (i5, db')"
    using rest same by blast
  have rid': "rid' = rid" using update_id [OF good u(1)] u(2) by simp
  note s = u(1) u(3,4) [unfolded rid']
  have now: "ro_read (ops l) rid d5 = Inr r" by (rule update_loads [OF good s])
  have others: "ro_read (ops l) j d5 = ro_read (ops l) j db" if "j \<noteq> rid" for j
    using update_others [OF good s(1) that] save_others [OF good s(2) that] by simp
  have es: "entries d5 = entries db" using update_entries [OF good s(1)] save_entries [OF good s(2)] by simp
  obtain h where h: "history_of l rid (entries db) = Some h" and same_old: "\<And>n. recorded_name l n \<Longrightarrow> rec_value old n = rec_value h n"
    using inv read by (auto simp: replayed_def shows_record_def split: option.splits dest!: spec [of _ rid])
  have value_now: "rec_value r n = rec_value (foldl apply_change h (activity_changes l i4 old r)) n" if n: "recorded_name l n" for n
  proof -
    have "rec_value r n = rec_value old n" if "n \<notin> fst ` set i4"
      using update_keeps [OF good read s(1,2) now that] n by (simp add: recorded_name_def)
    then show ?thesis using n same_old [OF n] by (auto simp: apply_activity_changes recorded_name_def)
  qed
  let ?after = "?hc i4 old r rid"
  have w: "if activity_changes l i4 old r = [] then db' = d5 else wr (activity_of cx ?after) d5 = Inr db'"
    using default_hooks_after [OF after [unfolded st(1) rid']] l by (simp add: new_hook_context_def Let_def)
  show ?thesis
  proof (cases "activity_changes l i4 old r = []")
    case True
    then have "db' = d5" using w by simp
    moreover have "shows_record l (ro_read (ops l) j d5) (history_of l j (entries d5))" for j
      using inv value_now True others by (cases "j = rid") (auto simp: es replayed_def now h shows_record_def)
    ultimately show ?thesis by (simp add: replayed_def)
  next
    case False
    then have w: "wr (activity_of cx ?after) d5 = Inr db'" using w by simp
    show ?thesis
    proof (rule written_entry [OF inv others es w])
      show "concerns l rid (activity_of cx ?after)" by (simp add: concerns_def activity_of_def new_hook_context_def Let_def)
      show "shows_record l (ro_read (ops l) rid d5) (replay_entry (history_of l rid (entries db)) (activity_of cx ?after))"
        using value_now by (simp add: now h shows_record_def replay_entry_def activity_of_def)
    qed
  qed
qed

lemma delete_replayed:
  assumes run: "delete_record st l entity rid db = Inr db'" and inv: "replayed l db"
    and st: "st_hooks st = Some (default_hook_registry cx wr)" "st_ops st l = ops l"
    and l: "\<not> lh_private (ly_head l)" "ly_entity l \<noteq> ''activity''" and good: "good l"
  shows "replayed l db'"
proof -
  let ?hook = "run_record_hooks (st_hooks st) l"
  let ?hc = "\<lambda>old rid. (new_hook_context ''after-delete'' l)\<lparr>hc_operation := ''delete'', hc_record := rid, hc_old := Some old, hc_snapshot := Some old\<rparr>"
  obtain old hc i1 d1 where read: "ro_read (ops l) rid db = Inr old" and before: "?hook hc [] db = Inr (i1, d1)" "hc_event hc = ''before-delete''"
    and rest: "\<exists>d2 k d3 rid' i2. ro_delete_collections (ops l) rid d1 = Inr d2 \<and> ro_delete (ops l) rid d2 = Inr (k, d3) \<and> activity_record_id old = Inr rid'
      \<and> ?hook (?hc old rid') [] d3 = Inr (i2, db')"
    using run unfolding delete_record_def Let_def st(2)
    by (auto elim!: bindR_InrE split: if_splits prod.splits simp: new_hook_context_def Let_def)
  have "d1 = db" using default_hooks_before [OF before(1) [unfolded st(1)]] before(2) by simp
  then obtain d2 k d3 rid' i2 where s: "ro_delete_collections (ops l) rid db = Inr d2" "ro_delete (ops l) rid d2 = Inr (k, d3)" "activity_record_id old = Inr rid'"
    and after: "?hook (?hc old rid') [] d3 = Inr (i2, db')" using rest by blast
  have rid': "rid' = rid" using read_id [OF good read] s(3) by simp
  have w: "wr (activity_of cx (?hc old rid)) d3 = Inr db'"
    using default_hooks_after [OF after [unfolded st(1) rid']] l by (simp add: new_hook_context_def Let_def)
  show ?thesis
  proof (rule written_entry [OF inv _ _ w])
    show "ro_read (ops l) j d3 = ro_read (ops l) j db" if "j \<noteq> rid" for j
      using clear_others [OF good s(1) that] delete_others [OF good s(2) that] by simp
    show "entries d3 = entries db" using clear_entries [OF good s(1)] delete_entries [OF good s(2)] by simp
    show "concerns l rid (activity_of cx (?hc old rid))" by (simp add: concerns_def activity_of_def new_hook_context_def Let_def)
    show "shows_record l (ro_read (ops l) rid d3) (replay_entry (history_of l rid (entries db)) (activity_of cx (?hc old rid)))"
      using delete_gone [OF good s(2)] by (auto simp: shows_record_def replay_entry_def activity_of_def)
  qed
qed

end

section \<open>Calls\<close>

text \<open>A call of a client, and whether its COMMIT works.\<close>

datatype record_call = CreateCall record_input | UpdateCall int record_input | DeleteCall int

definition call_record :: "'d store_env \<Rightarrow> string \<Rightarrow> string \<Rightarrow> 'd \<Rightarrow> bool \<times> record_call \<Rightarrow> 'd" where
  "call_record st app entity db x =
     (case snd x of
        CreateCall input \<Rightarrow> snd (create_by_identity st (fst x) app entity input db)
      | UpdateCall rid input \<Rightarrow> snd (update_by_identity st (fst x) app entity rid input db)
      | DeleteCall rid \<Rightarrow> snd (delete_by_identity st (fst x) app entity rid db))"

context recorded_store
begin

lemma call_replayed:
  assumes inv: "replayed l db" and st: "st_hooks st = Some (default_hook_registry cx wr)" "st_ops st l = ops l" "st_layout st app entity = Inr l"
    and l: "\<not> lh_private (ly_head l)" "ly_entity l \<noteq> ''activity''" "good l"
  shows "replayed l (call_record st app entity db x)"
  using inv
  by (auto simp: call_record_def create_by_identity_def update_by_identity_def delete_by_identity_def with_record_mutation_def st(3) bindR_def
      split: record_call.splits sum.splits if_splits prod.splits
      intro: create_replayed [OF _ inv st(1,2) l] update_replayed [OF _ inv st(1,2) l] delete_replayed [OF _ inv st(1,2) l])

lemma calls_replayed:
  assumes "replayed l db" and "st_hooks st = Some (default_hook_registry cx wr)" "st_ops st l = ops l" "st_layout st app entity = Inr l"
    and "\<not> lh_private (ly_head l)" "ly_entity l \<noteq> ''activity''" "good l"
  shows "replayed l (foldl (call_record st app entity) db xs)"
  using assms(1) by (induction xs arbitrary: db) (auto intro!: call_replayed [OF _ assms(2-7)])

end


text \<open>
  The store on tables keeps the laws of \<open>recorded_store\<close>, so its Activity replays.
\<close>

section \<open>Layouts\<close>

text \<open>What a layout built from valid metadata has: one column for each stored field, the columns of the
  system kept for system fields, distinct ids of collection fields, and child columns of their own.\<close>

definition history_layout :: "record_layout \<Rightarrow> bool" where
  "history_layout l \<longleftrightarrow> \<not> lh_collection (ly_head l) \<and> distinct (map rf_name (ly_fields l))
     \<and> distinct (map rf_column (filter rf_storage (ly_fields l)))
     \<and> list_all (\<lambda>f. rf_storage f \<longrightarrow> rf_column f \<noteq> ''updated_at''
         \<and> (rf_column f \<in> {''name'', ''created_at''} \<longrightarrow> is_system_record_field (rf_name f))) (ly_fields l)
     \<and> distinct (map fst (visited l)) \<and> distinct (map (\<lambda>p. rf_id (cn_field (snd p))) (visited l))
     \<and> list_all (\<lambda>p. own_columns (cn_layout (snd p)) \<and> fst p \<noteq> ''id'') (visited l)"

section \<open>Children\<close>

lemma child_of_parent: "child_of c i r \<Longrightarrow> child_of c' j r \<Longrightarrow> i = j \<and> rf_id (cn_field c) = rf_id (cn_field c')"
  by (auto simp: child_of_def parent_cells_def)

definition children :: "record_collection \<Rightarrow> int \<Rightarrow> table_db \<Rightarrow> stored_row list" where
  "children c i t = filter (child_of c i) (tb_rows t)"

lemma save_row_others:
  assumes "save_row sv c pid existing (s, t) row = Inr (s', t')" and "own_columns (cn_layout c)"
  shows "filter (\<lambda>r. \<not> child_of c pid r) (tb_rows t') = filter (\<lambda>r. \<not> child_of c pid r) (tb_rows t)"
proof -
  obtain input where input: "prepare_record_input (sv_prepare sv t) (cn_layout c) (ri_input row) (map_of existing (ri_id row)) = Inr input"
    using assms(1) by (auto simp: save_row_def bindR_Inr_iff)
  show ?thesis
  proof (cases "ri_id row = 0")
    case True
    then have "insert_collection_row sv c pid (row\<lparr>ri_input := input\<rparr>) (s, t) = Inr (s', t')"
      using assms(1) input by (simp add: save_row_def)
    from insert_saves [OF this] show ?thesis by auto
  next
    case False
    then have "update_collection_row sv c pid (row\<lparr>ri_input := input\<rparr>) t = Inr t'"
      using assms(1) input by (auto simp: save_row_def bindR_Inr_iff)
    from update_saves [OF this assms(2)] show ?thesis by (auto intro!: filter_update_where_same)
  qed
qed

lemma save_rows_others:
  assumes "save_collection_rows sv c pid rows create (s, t) = Inr (s', t')" and own: "own_columns (cn_layout c)"
  shows "filter (\<lambda>r. \<not> child_of c pid r) (tb_rows t') = filter (\<lambda>r. \<not> child_of c pid r) (tb_rows t)"
proof -
  let ?others = "\<lambda>t. filter (\<lambda>r. \<not> child_of c pid r) (tb_rows t)"
  obtain existing t1 where del: "foldR (\<lambda>db i. if i \<in> set (map ri_id rows) then Inr db else delete_collection_row c pid i db) t (map fst existing) = Inr t1"
    and save: "foldR (save_row sv c pid existing) (s, t1) rows = Inr (s', t')"
    using assms(1) by (auto simp: save_collection_rows_def bindR_Inr_iff)
  have "?others t1 = ?others t" by (subst deleted_rows [OF del]) (auto intro: filter_cong)
  moreover have "?others (snd (s', t')) = ?others t1"
  proof (rule foldR_keeps [where P = "\<lambda>st. ?others (snd st) = ?others t1", OF save])
    fix st row st'
    assume "?others (snd st) = ?others t1" "save_row sv c pid existing st row = Inr st'"
    then show "?others (snd st') = ?others t1"
      using save_row_others [of sv c pid existing "fst st" "snd st" row "fst st'" "snd st'"] own by simp
  qed simp
  ultimately show ?thesis by simp
qed

lemma save_children:
  assumes "save_collection_rows sv c pid rows create (s, t) = Inr (s', t')" and "own_columns (cn_layout c)"
    and "j \<noteq> pid \<or> rf_id (cn_field c') \<noteq> rf_id (cn_field c)"
  shows "children c' j t' = children c' j t"
proof -
  have apart: "\<not> child_of c pid r" if "child_of c' j r" for r
    using child_of_parent [OF _ that, of c pid] assms(3) by auto
  have eq: "children c' j x = filter (child_of c' j) (filter (\<lambda>r. \<not> child_of c pid r) (tb_rows x))" for x
    unfolding children_def filter_filter by (rule filter_cong [OF refl]) (use apart in blast)
  show ?thesis by (simp only: eq save_rows_others [OF assms(1,2)])
qed

text \<open>What is loaded depends on the children of the record alone.\<close>

definition same_children :: "record_layout \<Rightarrow> int \<Rightarrow> 's store_db \<Rightarrow> 's store_db \<Rightarrow> bool" where
  "same_children l j db db' \<longleftrightarrow> (\<forall>p\<in>set (visited l). children (snd p) j (sd_children db' (child_table (snd p)))
     = children (snd p) j (sd_children db (child_table (snd p))))"

lemma load_collection_children: "children c j t' = children c j t \<Longrightarrow> load_collection f c j t' = load_collection f c j t"
  by (simp add: load_collection_def ordered_children_def children_def)

lemma load_same:
  assumes "activity_record_id r = Inr j" and "same_children l j db db'"
  shows "load_record_collections te l r db' = load_record_collections te l r db"
proof -
  have "load_step te j db' u p = load_step te j db u p" if "p \<in> set (visited l)" for u p
  proof -
    have "children (snd p) j (sd_children db' (child_table (snd p))) = children (snd p) j (sd_children db (child_table (snd p)))"
      using assms(2) that by (simp add: same_children_def)
    from load_collection_children [OF this] show ?thesis by (simp add: load_step_def)
  qed
  then have "foldR (load_step te j db') r (visited l) = foldR (load_step te j db) r (visited l)" by (rule foldR_cong [OF refl refl])
  then show ?thesis by (simp add: load_record_collections_def assms(1))
qed

lemma record_from_answer:
  "record_from_values l (row_answer te l r) = Inr (system_values (row_answer te l r)
     @ map (\<lambda>f. (rf_name f, normalize_record_value (rf_type f) (te_show te f (cell_of r (rf_column f))))) (selected_fields l))"
proof -
  have zip_map_self: "zip xs (map f xs) = map (\<lambda>x. (x, f x)) xs" for xs :: "record_field list" and f :: "record_field \<Rightarrow> val"
    by (induction xs) auto
  show ?thesis
    by (simp add: record_from_values_def row_answer_def record_value_count_def select_columns zip_map_self)
qed

lemma row_record_id: "record_from_values l (row_answer te l r) = Inr m \<Longrightarrow> activity_record_id m = Inr (sr_id r)"
  unfolding record_from_answer by (auto simp: activity_record_id_def system_values_def row_answer_def normalize_record_value_def)

lemma read_row_id: "read_row te l i db = Inr m \<Longrightarrow> activity_record_id m = Inr i"
  by (auto simp: read_row_def split: option.splits dest!: find_SomeD row_record_id)

lemma read_row_table: "sd_table db' = sd_table db \<Longrightarrow> read_row te l i db' = read_row te l i db"
  by (simp add: read_row_def)

lemma read_same:
  assumes "read_row te l j db' = read_row te l j db" and "same_children l j db db'"
  shows "read_record te l j db' = read_record te l j db"
proof (cases "read_row te l j db")
  case (Inr r)
  then show ?thesis using assms(1) load_same [OF read_row_id [OF Inr] assms(2)] by (simp add: read_record_def)
qed (use assms(1) in \<open>simp add: read_record_def\<close>)

lemma same_children_table [simp]: "same_children l j db (db\<lparr>sd_table := t, sd_names := s\<rparr>)" "same_children l j db (db\<lparr>sd_table := t\<rparr>)"
    "same_children l j db (db\<lparr>sd_activity := a\<rparr>)"
  by (simp_all add: same_children_def)

section \<open>The laws\<close>

lemma find_appended: "\<not> P x \<Longrightarrow> find P (xs @ [x]) = find P xs"
  by (induction xs) auto

lemma insert_record_facts:
  assumes "insert_record te l input db = Inr (r, db')"
  shows "\<exists>i. read_row te l i db' = Inr r \<and> activity_record_id r = Inr i \<and> sd_children db' = sd_children db \<and> sd_activity db' = sd_activity db
    \<and> (\<forall>j. j \<noteq> i \<longrightarrow> read_row te l j db' = read_row te l j db)"
proof -
  obtain i t s where ins: "insert_row (pe_env (te_lookups te db)) l (te_check te) (te_actor te) (te_names te) Inr input (sd_table db) (sd_names db) = Inr ((i, t), s)"
    and db': "db' = db\<lparr>sd_table := t, sd_names := s\<rparr>" and r: "read_row te l i db' = Inr r"
    using assms by (auto simp: insert_record_def Let_def bindR_Inr_iff)
  from insert_row_inserts [OF ins] obtain m where ti: "table_insert l (te_check te) m (sd_table db) = Inr (i, t)" by blast
  note t = table_insert_result [OF ti]
  have "find (\<lambda>r. sr_id r = j) (tb_rows t) = find (\<lambda>r. sr_id r = j) (tb_rows (sd_table db))" if "j \<noteq> i" for j
    unfolding t(3) using that by (simp add: find_appended)
  then have "read_row te l j db' = read_row te l j db" if "j \<noteq> i" for j using that by (simp add: read_row_def db')
  then show ?thesis using r read_row_id [OF r] by (auto simp: db')
qed

lemma find_update_where:
  assumes "\<And>r. sr_id (g r) = sr_id r"
  shows "find (\<lambda>r. sr_id r = j) (update_where (\<lambda>r. sr_id r = i) g rows)
    = (if j = i then map_option g (find (\<lambda>r. sr_id r = i) rows) else find (\<lambda>r. sr_id r = j) rows)"
  using assms by (induction rows) auto

lemma update_row_facts:
  assumes "update_row te l i input db = Inr (r, db')"
  shows "read_row te l i db' = Inr r" "activity_record_id r = Inr i" "sd_children db' = sd_children db" "sd_activity db' = sd_activity db"
    "j \<noteq> i \<Longrightarrow> read_row te l j db' = read_row te l j db"
    "\<exists>m. update_mutation (pe_env (te_lookups te db)) l input = Inr m \<and> find (\<lambda>r. sr_id r = i) (tb_rows (sd_table db'))
      = map_option (set_cells (mutation_cells m @ [(''updated_at'', te_now te)])) (find (\<lambda>r. sr_id r = i) (tb_rows (sd_table db)))"
proof -
  obtain m where m: "update_mutation (pe_env (te_lookups te db)) l input = Inr m"
    and run: "(case table_update l (te_check te) (\<lambda>r. sr_id r = i) (mutation_cells m @ [(''updated_at'', te_now te)]) (sd_table db) of
         Inl e \<Rightarrow> Inl (classify_db_error (Some e) (ly_entity l))
       | Inr (n, t) \<Rightarrow>
           if n = 0 then Inl (not_found ''record not found'' [(''entity'', ly_entity l)])
           else let db' = db\<lparr>sd_table := t\<rparr> in bindR (read_row te l i db') (\<lambda>r. Inr (r, db'))) = Inr (r, db')"
    using assms unfolding update_row_def bindR_Inr_iff by blast
  then obtain n t where up: "table_update l (te_check te) (\<lambda>r. sr_id r = i) (mutation_cells m @ [(''updated_at'', te_now te)]) (sd_table db) = Inr (n, t)"
    and db': "db' = db\<lparr>sd_table := t\<rparr>" and r: "read_row te l i db' = Inr r"
    by (auto simp: Let_def bindR_Inr_iff split: sum.splits if_splits prod.splits)
  let ?g = "set_cells (mutation_cells m @ [(''updated_at'', te_now te)])"
  have t: "find (\<lambda>r. sr_id r = j) (tb_rows (sd_table db')) = (if j = i then map_option ?g (find (\<lambda>r. sr_id r = i) (tb_rows (sd_table db)))
      else find (\<lambda>r. sr_id r = j) (tb_rows (sd_table db)))" for j
    unfolding db' table_update_result(3) [OF up] by (simp add: find_update_where)
  show "read_row te l i db' = Inr r" "activity_record_id r = Inr i" "sd_children db' = sd_children db" "sd_activity db' = sd_activity db"
    using r read_row_id [OF r] by (simp_all add: db')
  show "read_row te l j db' = read_row te l j db" if "j \<noteq> i" using that t [of j] by (simp add: read_row_def)
  show "\<exists>m. update_mutation (pe_env (te_lookups te db)) l input = Inr m \<and> find (\<lambda>r. sr_id r = i) (tb_rows (sd_table db'))
      = map_option (set_cells (mutation_cells m @ [(''updated_at'', te_now te)])) (find (\<lambda>r. sr_id r = i) (tb_rows (sd_table db)))"
    using m t [of i] by auto
qed

lemma delete_row_facts:
  assumes "delete_row i db = Inr (k, db')"
  shows "\<exists>e. read_row te l i db' = Inl e" "sd_children db' = sd_children db" "sd_activity db' = sd_activity db"
    "j \<noteq> i \<Longrightarrow> read_row te l j db' = read_row te l j db"
proof -
  have rows: "tb_rows (sd_table db') = filter (\<lambda>r. sr_id r \<noteq> i) (tb_rows (sd_table db))"
    using assms by (auto simp: delete_row_def table_delete_def)
  have none: "find (\<lambda>r. sr_id r = i) (tb_rows (sd_table db')) = None" by (simp add: rows find_None_iff)
  show "\<exists>e. read_row te l i db' = Inl e" by (simp add: read_row_def none)
  show "sd_children db' = sd_children db" "sd_activity db' = sd_activity db" using assms by (auto simp: delete_row_def table_delete_def)
  have other: "find (\<lambda>r. sr_id r = j) (filter (\<lambda>r. sr_id r \<noteq> i) rs) = find (\<lambda>r. sr_id r = j) rs" if "j \<noteq> i" for rs
    using that by (induction rs) auto
  show "read_row te l j db' = read_row te l j db" if "j \<noteq> i" by (simp only: read_row_def rows other [OF that])
qed

lemma set_child_simps [simp]:
  "sd_table (set_child c t db) = sd_table db" "sd_activity (set_child c t db) = sd_activity db" "sd_names (set_child c t db) = sd_names db"
  "sd_children (set_child c t db) k = (if k = child_table c then t else sd_children db k)"
  by (simp_all add: set_child_def)

text \<open>Saving touches the children of the parent in the submitted collections only.\<close>

definition kept_children :: "record_layout \<Rightarrow> int \<Rightarrow> record_input \<Rightarrow> 's store_db \<Rightarrow> 's store_db \<Rightarrow> bool" where
  "kept_children l pid input db db' \<longleftrightarrow> sd_table db' = sd_table db \<and> sd_activity db' = sd_activity db
     \<and> (\<forall>p\<in>set (visited l). \<forall>j. j \<noteq> pid \<or> fst p \<notin> fst ` set input
          \<longrightarrow> children (snd p) j (sd_children db' (child_table (snd p))) = children (snd p) j (sd_children db (child_table (snd p))))"

lemma kept_children_trans: "kept_children l i inp a b \<Longrightarrow> kept_children l i inp b c \<Longrightarrow> kept_children l i inp a c"
  by (simp add: kept_children_def)

lemma kept_children_refl: "kept_children l i inp db db"
  by (simp add: kept_children_def)

lemma visited_id_inj:
  assumes "history_layout l" "p \<in> set (visited l)" "q \<in> set (visited l)" "rf_id (cn_field (snd p)) = rf_id (cn_field (snd q))"
  shows "p = q"
  using assms by (auto simp: history_layout_def distinct_map inj_on_def)

lemma save_step_kept:
  assumes l: "history_layout l" and p: "p \<in> set (visited l)" and run: "save_step te l pid input create db p = Inr db'"
  shows "kept_children l pid input db db'"
proof (cases "map_of input (fst p)")
  case None
  then have "db' = db" using run by (simp add: save_step_def)
  then show ?thesis by (simp add: kept_children_refl)
next
  case (Some raw)
  let ?c = "snd p"
  obtain rows s t where save: "save_collection_rows (child_env te ?c) ?c pid rows create (sd_names db, sd_children db (child_table ?c)) = Inr (s, t)"
    and db': "db' = set_child ?c t (db\<lparr>sd_names := s\<rparr>)"
    using run Some by (auto simp: save_step_def bindR_Inr_iff)
  have own: "own_columns (cn_layout ?c)" using l p by (auto simp: history_layout_def list_all_iff)
  have in_input: "fst p \<in> fst ` set input" using Some by (metis map_of_eq_None_iff option.distinct(1))
  have "children (snd q) j (sd_children db' (child_table (snd q))) = children (snd q) j (sd_children db (child_table (snd q)))"
    if q: "q \<in> set (visited l)" "j \<noteq> pid \<or> fst q \<notin> fst ` set input" for q j
  proof (cases "child_table (snd q) = child_table ?c")
    case True
    have "j \<noteq> pid \<or> rf_id (cn_field (snd q)) \<noteq> rf_id (cn_field ?c)"
      using q in_input visited_id_inj [OF l q(1) p] by auto
    from save_children [OF save own this] show ?thesis by (simp add: db' True)
  qed (simp add: db')
  then show ?thesis by (simp add: kept_children_def db')
qed

lemma save_kept:
  assumes "history_layout l" and "save_submitted_collections te l pid input create db = Inr db'"
  shows "kept_children l pid input db db'"
proof (rule foldR_invariant [where P = "kept_children l pid input db", OF _ kept_children_refl assms(2) [unfolded save_submitted_collections_def]])
  fix d p d'
  assume "kept_children l pid input db d" "p \<in> set (visited l)" "save_step te l pid input create d p = Inr d'"
  then show "kept_children l pid input db d'" using save_step_kept [OF assms(1)] kept_children_trans by blast
qed

lemma clear_kept:
  assumes "delete_record_collections l pid db = Inr db'"
  shows "kept_children l pid (map (\<lambda>p. (fst p, [])) (visited l)) db db'"
proof -
  let ?step = "\<lambda>db p. set_child (snd p) (snd (table_delete (child_of (snd p) pid) (sd_children db (child_table (snd p))))) db"
  note run = assms [unfolded delete_record_collections_def]
  have step: "kept_children l pid (map (\<lambda>p. (fst p, [])) (visited l)) d (?step d p)" for d :: "'a store_db" and p
  proof -
    have apart: "child_of (snd q) j r \<and> \<not> child_of (snd p) pid r \<longleftrightarrow> child_of (snd q) j r" if "j \<noteq> pid" for q j r
      using that child_of_parent [of "snd p" pid r "snd q" j] by auto
    show ?thesis
      by (auto simp: kept_children_def table_delete_def children_def filter_filter apart image_iff conj_commute intro!: filter_cong)
        (use apart in force)+
  qed
  show ?thesis
    by (rule foldR_invariant [where P = "kept_children l pid (map (\<lambda>p. (fst p, [])) (visited l)) db", OF _ kept_children_refl run])
      (use step kept_children_trans in blast)
qed

lemma kept_same: "kept_children l pid input db db' \<Longrightarrow> j \<noteq> pid \<Longrightarrow> same_children l j db db'"
  by (simp add: kept_children_def same_children_def)

section \<open>An update keeps what is not submitted\<close>

lemma update_columns:
  assumes "update_mutation ev l input = Inr m" and "k \<in> fst ` set (mutation_cells m)"
  shows "\<exists>f\<in>set (ly_fields l). rf_storage f \<and> rf_column f = k \<and> rf_name f \<in> fst ` set input \<and> \<not> is_system_record_field (rf_name f)"
proof -
  have w: "write_mutation ev l input = Inr m" and v: "validate_update_fields l input = Inr ()"
    using assms(1) by (auto simp: update_mutation_def bindR_Inr_iff split: if_splits)
  obtain cells where c: "cells_of cells m" "list_all2 (written ev l input) (filter (writes l) (sorted_input_names input)) cells"
    using write_mutation_cells [OF w] by blast
  obtain x where x: "x \<in> set cells" "rf_column (fst x) = k" using assms(2) unfolding cells_of_cells [OF c(1)] by force
  obtain n where n: "n \<in> set (filter (writes l) (sorted_input_names input))" "written ev l input n x" using list_all2_right [OF c(2) x(1)] by blast
  have n_in: "n \<in> fst ` set input" using n(1) by (simp add: sorted_input_names_def)
  then obtain raw where "(n, raw) \<in> set input" by auto
  then have "check_field l False False n raw = Inr ()"
    using v by (auto simp: validate_update_fields_def validate_input_fields_def foldR_unit_all)
  then have "\<not> is_system_record_field n" by (auto simp: check_field_def Let_def split: if_splits)
  moreover have "fst x \<in> set (ly_fields l)" "rf_name (fst x) = n" "rf_storage (fst x)"
    using n(2) by (auto simp: written_def field_by_name_def dest!: find_SomeD)
  ultimately show ?thesis using x(2) n_in by blast
qed

lemma stored_column_inj:
  assumes "history_layout l" "f \<in> set (ly_fields l)" "g \<in> set (ly_fields l)" "rf_storage f" "rf_storage g" "rf_column f = rf_column g"
  shows "f = g"
  using assms by (auto simp: history_layout_def distinct_map inj_on_def)

lemma unsubmitted_cells:
  fixes now :: db_value
  assumes l: "history_layout l" and m: "update_mutation ev l input = Inr m"
  defines "cs \<equiv> mutation_cells m @ [(''updated_at'', now)]"
  shows "cell_of (set_cells cs r) ''name'' = cell_of r ''name''" "cell_of (set_cells cs r) ''created_at'' = cell_of r ''created_at''"
    "f \<in> set (selected_fields l) \<Longrightarrow> rf_name f \<notin> fst ` set input \<Longrightarrow> cell_of (set_cells cs r) (rf_column f) = cell_of r (rf_column f)"
proof -
  have cols: "list_all (\<lambda>f. rf_storage f \<longrightarrow> rf_column f \<noteq> ''updated_at''
      \<and> (rf_column f \<in> {''name'', ''created_at''} \<longrightarrow> is_system_record_field (rf_name f))) (ly_fields l)"
    using l by (simp only: history_layout_def)
  have sys: "k \<notin> set (map fst cs)" if k: "k = ''name'' \<or> k = ''created_at''" for k
  proof
    assume "k \<in> set (map fst cs)"
    then have "k \<in> fst ` set (mutation_cells m)" using k by (auto simp: cs_def)
    from update_columns [OF m this] show False using cols k by (auto simp: list_all_iff)
  qed
  show "cell_of (set_cells cs r) ''name'' = cell_of r ''name''" "cell_of (set_cells cs r) ''created_at'' = cell_of r ''created_at''"
    using sys by (auto intro!: set_cells_none)
  assume f: "f \<in> set (selected_fields l)" "rf_name f \<notin> fst ` set input"
  then have f': "f \<in> set (ly_fields l)" "rf_storage f" by (auto simp: selected_fields_def)
  have "rf_column f \<notin> set (map fst cs)"
  proof
    assume "rf_column f \<in> set (map fst cs)"
    then have "rf_column f \<in> fst ` set (mutation_cells m)" using cols f' by (auto simp: cs_def list_all_iff)
    from update_columns [OF m this] obtain g where "g \<in> set (ly_fields l)" "rf_storage g" "rf_column g = rf_column f" "rf_name g \<in> fst ` set input" by blast
    with stored_column_inj [OF l f'(1) _ f'(2)] f(2) show False by metis
  qed
  then show "cell_of (set_cells cs r) (rf_column f) = cell_of r (rf_column f)" by (rule set_cells_none)
qed

lemma answer_value_same:
  assumes "cell_of r' ''name'' = cell_of r ''name''" "cell_of r' ''created_at'' = cell_of r ''created_at''" "sr_id r' = sr_id r"
    and "\<And>f. f \<in> set (selected_fields l) \<Longrightarrow> rf_name f = n \<Longrightarrow> cell_of r' (rf_column f) = cell_of r (rf_column f)"
    and "n \<noteq> ''updated-at''" and "record_from_values l (row_answer te l r) = Inr b" and "record_from_values l (row_answer te l r') = Inr b'"
  shows "rec_value b' n = rec_value b n"
proof -
  let ?field = "\<lambda>r f. (rf_name f, normalize_record_value (rf_type f) (te_show te f (cell_of r (rf_column f))))"
  have "map_of (map (?field r') fs) n = map_of (map (?field r) fs) n" if "set fs \<subseteq> set (selected_fields l)" for fs
    using that by (induction fs) (auto simp: assms(4))
  then have fields: "map_of (map (?field r') (selected_fields l)) n = map_of (map (?field r) (selected_fields l)) n" by simp
  have b: "b = system_values (row_answer te l r) @ map (?field r) (selected_fields l)"
    and b': "b' = system_values (row_answer te l r') @ map (?field r') (selected_fields l)"
    using assms(6,7) by (simp_all add: record_from_answer)
  have "map_of (system_values (row_answer te l r')) n = map_of (system_values (row_answer te l r)) n"
    using assms(1-3,5) by (simp add: system_values_def row_answer_def)
  then show ?thesis unfolding b b' rec_value_def by (simp add: map_add_def fields split: option.split)
qed

lemma loaded_value:
  assumes "foldR (load_step te i db) b ps = Inr r" and "foldR (load_step te i db') b' ps = Inr r'" and "rec_value b' n = rec_value b n"
    and "\<And>p. p \<in> set ps \<Longrightarrow> fst p = n \<Longrightarrow> children (snd p) i (sd_children db' (child_table (snd p))) = children (snd p) i (sd_children db (child_table (snd p)))"
  shows "rec_value r' n = rec_value r n"
  using assms
proof (induction ps arbitrary: b b')
  case (Cons p ps)
  obtain b1 b1' where st: "load_step te i db b p = Inr b1" "load_step te i db' b' p = Inr b1'"
    and rest: "foldR (load_step te i db) b1 ps = Inr r" "foldR (load_step te i db') b1' ps = Inr r'"
    using Cons.prems(1,2) by (auto split: sum.splits)
  have "rec_value b1' n = rec_value b1 n"
  proof (cases "fst p = n")
    case True
    have "load_collection f (snd p) i (sd_children db' (child_table (snd p))) = load_collection f (snd p) i (sd_children db (child_table (snd p)))" for f
      using Cons.prems(4) [of p] True by (intro load_collection_children) simp
    then show ?thesis using st True by (auto simp: load_step_def bindR_Inr_iff rec_value_update)
  next
    case False
    then show ?thesis using st Cons.prems(3) by (auto simp: load_step_def bindR_Inr_iff rec_value_update)
  qed
  then show ?case by (rule Cons.IH [OF rest]) (use Cons.prems(4) in auto)
qed simp

lemma update_keeps_value:
  assumes l: "history_layout l" and old: "read_record te l i d = Inr old" and up: "update_row te l i input d = Inr (r0, d1)"
    and save: "save_submitted_collections te l i input c d1 = Inr d2" and new: "read_record te l i d2 = Inr r"
    and n: "n \<notin> fst ` set input" "n \<noteq> ''updated-at''"
  shows "rec_value r n = rec_value old n"
proof -
  note kept = save_kept [OF l save]
  obtain m where m: "update_mutation (pe_env (te_lookups te d)) l input = Inr m" and rows: "find (\<lambda>r. sr_id r = i) (tb_rows (sd_table d1))
      = map_option (set_cells (mutation_cells m @ [(''updated_at'', te_now te)])) (find (\<lambda>r. sr_id r = i) (tb_rows (sd_table d)))"
    using update_row_facts(6) [OF up] by blast
  let ?g = "set_cells (mutation_cells m @ [(''updated_at'', te_now te)])"
  obtain b0 where b0: "read_row te l i d = Inr b0" "load_record_collections te l b0 d = Inr old"
    using old by (auto simp: read_record_def bindR_Inr_iff split: if_splits)
  then obtain x where x: "find (\<lambda>r. sr_id r = i) (tb_rows (sd_table d)) = Some x" "record_from_values l (row_answer te l x) = Inr b0"
    by (auto simp: read_row_def split: option.splits)
  obtain b2 where b2: "read_row te l i d2 = Inr b2" "load_record_collections te l b2 d2 = Inr r"
    using new by (auto simp: read_record_def bindR_Inr_iff split: if_splits)
  have x2: "record_from_values l (row_answer te l (?g x)) = Inr b2"
    using b2(1) rows x(1) kept by (simp add: read_row_def kept_children_def)
  note cells = unsubmitted_cells [OF l m, where now = "te_now te" and r = x]
  have same: "rec_value b2 n = rec_value b0 n"
    by (rule answer_value_same [OF cells(1,2) _ _ n(2) x(2) x2]) (use cells(3) n(1) in auto)
  have ids: "activity_record_id b0 = Inr i" "activity_record_id b2 = Inr i" using read_row_id [OF b0(1)] read_row_id [OF b2(1)] by simp_all
  show ?thesis
  proof (cases "ly_collections l = []")
    case True
    then show ?thesis using b0(2) b2(2) same by (simp add: load_record_collections_def)
  next
    case False
    then have run: "foldR (load_step te i d) b0 (visited l) = Inr old" "foldR (load_step te i d2) b2 (visited l) = Inr r"
      using b0(2) b2(2) by (simp_all add: load_record_collections_def ids)
    show ?thesis
    proof (rule loaded_value [OF run same])
      fix p
      assume "p \<in> set (visited l)" "fst p = n"
      then show "children (snd p) i (sd_children d2 (child_table (snd p))) = children (snd p) i (sd_children d (child_table (snd p)))"
        using kept n(1) update_row_facts(3) [OF up] by (simp add: kept_children_def)
    qed
  qed
qed

section \<open>The store on tables\<close>

lemma table_ops_simps [simp]:
  "ro_insert (table_ops te l) = insert_record te l" "ro_read (table_ops te l) = read_record te l" "ro_update (table_ops te l) = update_row te l"
  "ro_save_collections (table_ops te l) = save_submitted_collections te l" "ro_load_collections (table_ops te l) = load_record_collections te l"
  "ro_delete_collections (table_ops te l) = delete_record_collections l" "ro_delete (table_ops te l) = delete_row"
  by (simp_all add: table_ops_def)

lemma read_record_id:
  assumes l: "history_layout l" and r: "read_record te l i db = Inr r"
  shows "activity_record_id r = Inr i"
proof -
  obtain b where b: "read_row te l i db = Inr b" "load_record_collections te l b db = Inr r"
    using r by (auto simp: read_record_def bindR_Inr_iff split: if_splits)
  note i = read_row_id [OF b(1)]
  show ?thesis
  proof (cases "ly_collections l = []")
    case True
    then show ?thesis using b(2) i by (simp add: load_record_collections_def)
  next
    case False
    then have run: "foldR (load_step te i db) b (visited l) = Inr r" using b(2) i by (simp add: load_record_collections_def)
    show ?thesis
    proof (rule foldR_invariant [where P = "\<lambda>r. activity_record_id r = Inr i", OF _ i run])
      fix u p u'
      assume "activity_record_id u = Inr i" "p \<in> set (visited l)" "load_step te i db u p = Inr u'"
      moreover have "fst p \<noteq> ''id''" using l calculation(2) by (auto simp: history_layout_def list_all_iff)
      ultimately show "activity_record_id u' = Inr i"
        by (auto simp: load_step_def bindR_Inr_iff activity_record_id_def update_conv')
    qed
  qed
qed

lemma read_loaded:
  assumes "history_layout l" and "read_row te l i d1 = Inr r0" and "save_submitted_collections te l i inp c d1 = Inr d2"
    and "load_record_collections te l r0 d2 = Inr r"
  shows "read_record te l i d2 = Inr r"
  using assms(1,2,4) save_kept [OF assms(1,3)] read_row_table [of d2 d1 te l i]
  by (simp add: read_record_def kept_children_def history_layout_def)

lemma read_kept:
  assumes "kept_children l i inp d d'" "j \<noteq> i"
  shows "read_record te l j d' = read_record te l j d"
  using read_same [OF _ kept_same [OF assms]] read_row_table [of d' d te l j] assms(1) by (simp add: kept_children_def)

lemma read_other:
  assumes "read_row te l j d' = read_row te l j d" "sd_children d' = sd_children d"
  shows "read_record te l j d' = read_record te l j d"
  by (rule read_same [OF assms(1)]) (simp add: same_children_def assms(2))

lemma inserted_others:
  assumes "insert_record te l inp d = Inr (r, d')" "activity_record_id r = Inr i" "j \<noteq> i"
  shows "read_record te l j d' = read_record te l j d"
  using insert_record_facts [OF assms(1)] assms(2,3) by (auto intro: read_other)

lemma deleted_gone:
  assumes "history_layout l" "delete_row i d = Inr (k, d')"
  shows "\<exists>e. read_record te l i d' = Inl e"
proof -
  obtain e where "read_row te l i d' = Inl e" using delete_row_facts(1) [OF assms(2)] by blast
  then show ?thesis using assms(1) by (simp add: read_record_def history_layout_def)
qed

lemma written_activity:
  assumes "write_activity te a d = Inr d'"
  shows "read_record te l j d' = read_record te l j d" "sd_activity d' = sd_activity d @ [a]"
  using assms by (auto simp: write_activity_def read_row_def split: option.splits intro!: read_other)

interpretation tables: recorded_store "table_ops te" history_layout "write_activity te" sd_activity
proof (unfold_locales, unfold table_ops_simps, goal_cases)
  case (9 l i d old inp r0 d1 c d2 r n)
  then show ?case by (rule update_keeps_value)
next
  case (4 l inp d r0 d1 i inp' c d2 r)
  then have "read_row te l i d1 = Inr r0" using insert_record_facts [OF 4(2)] by auto
  then show ?case by (rule read_loaded [OF 4(1) _ 4(4,5)])
next
  case (8 l i inp d r0 d1 inp' c d2 r)
  then show ?case by (intro read_loaded [OF 8(1) update_row_facts(1) [OF 8(2)] 8(3,4)])
qed (auto simp: kept_children_def dest: read_record_id inserted_others insert_record_facts update_row_facts delete_row_facts
    save_kept clear_kept deleted_gone written_activity intro: read_kept read_other)

section \<open>The history replays\<close>

text \<open>C39: nothing happens to a Record without its Activity.  Over an empty table, after any creates, updates and
deletes, rejected ones and ones whose COMMIT fails included, what a read of a Record returns is what replaying the
Activity of that Record gives: the same value of every field but the time of the change and the write-only ones,
and no Record exactly when the Activity ends in a delete or is empty.  The Entity is neither private nor the
Activity itself, and its layout has the columns and collections of its own that valid metadata gives it.\<close>

theorem history_replays:
  assumes "layouts app entity = Inr l" and "history_layout l" and "\<not> lh_private (ly_head l)" and "ly_entity l \<noteq> ''activity''"
    and "tb_rows (sd_table db) = []" and "sd_activity db = []"
    and "db' = foldl (call_record (table_store te layouts) app entity) db calls"
  shows "shows_record l (read_record te l i db') (history_of l i (sd_activity db'))"
proof -
  have "tables.replayed te l db"
    using assms(2,5,6) by (simp add: tables.replayed_def shows_record_def history_of_def read_record_def read_row_def history_layout_def)
  from tables.calls_replayed [OF this, of "table_store te layouts" "te_context te" app entity calls]
  have "tables.replayed te l db'" using assms(1-4) by (simp add: table_store_def assms(7))
  then show ?thesis by (simp add: tables.replayed_def)
qed

section \<open>Samples\<close>

definition sample_table_env :: "nat table_env" where
  "sample_table_env = \<lparr>te_lookups = (\<lambda>_. sv_prepare sample_items_env \<lparr>tb_rows = [], tb_next = 1, tb_defaults = []\<rparr>), te_check = (\<lambda>_. None),
     te_show = (\<lambda>_ v. case v of DText s \<Rightarrow> VText s | _ \<Rightarrow> VNull), te_time = (\<lambda>_. VNull), te_actor = None, te_now = DText ''now'',
     te_names = (\<lambda>_ n. Inr (show_nat n, Suc n)), te_child = (\<lambda>_. sample_items_env), te_refuse = (\<lambda>_. None),
     te_context = no_activity_context\<rparr>"

definition sample_store_db :: "nat store_db" where
  "sample_store_db = \<lparr>sd_table = \<lparr>tb_rows = [], tb_next = 1, tb_defaults = []\<rparr>,
     sd_children = (\<lambda>_. \<lparr>tb_rows = [], tb_next = 1, tb_defaults = []\<rparr>), sd_names = 3, sd_activity = []\<rparr>"

definition sample_layouts :: "string \<Rightarrow> string \<Rightarrow> record_error + record_layout" where
  "sample_layouts app entity = Inr sample_todo_layout"

text \<open>A create, an update, a delete that does not commit, and an update of a record that does not exist.\<close>

definition sample_calls :: "(bool \<times> record_call) list" where
  "sample_calls = [(True, CreateCall [(''title'', ''\"a\"'')]), (True, UpdateCall 1 [(''title'', ''\"b\"'')]), (False, DeleteCall 1),
     (True, UpdateCall 2 [(''title'', ''\"c\"'')])]"

definition sample_replayed :: "nat store_db" where
  "sample_replayed = foldl (call_record (table_store sample_table_env sample_layouts) ''crm'' ''todo'') sample_store_db sample_calls"

theorem history_replays_witness:
  "shows_record sample_todo_layout (read_record sample_table_env sample_todo_layout 1 sample_replayed)
     (history_of sample_todo_layout 1 (sd_activity sample_replayed))
   \<and> map av_operation (sd_activity sample_replayed) = [''create'', ''update'']
   \<and> map_option (\<lambda>h. rec_value h ''title'') (history_of sample_todo_layout 1 (sd_activity sample_replayed)) = Some (VText ''b'')"
proof -
  have ok: "history_layout sample_todo_layout \<and> \<not> lh_private (ly_head sample_todo_layout) \<and> ly_entity sample_todo_layout \<noteq> ''activity''
      \<and> tb_rows (sd_table sample_store_db) = [] \<and> sd_activity sample_store_db = []" by code_simp
  have run: "map av_operation (sd_activity sample_replayed) = [''create'', ''update'']
      \<and> map_option (\<lambda>h. rec_value h ''title'') (history_of sample_todo_layout 1 (sd_activity sample_replayed)) = Some (VText ''b'')" by code_simp
  have "sample_layouts ''crm'' ''todo'' = Inr sample_todo_layout" by (simp add: sample_layouts_def)
  from history_replays [OF this _ _ _ _ _ sample_replayed_def] ok run show ?thesis by blast
qed

end
