(* ===== verification/Spec2Isabelle.thy ===== *)
theory Spec2Isabelle
  imports Reserved_Words App_Order Schedules_Meta Job_Worker Catalog_Guarantees Access_Roundtrip Access_Guarantees Scope_Guarantees Schema_Sync Search_Guarantees Write_Guarantees Scoped_Reads Tree_Guarantees Collection_Guarantees Patch_Guarantees Secret_Guarantees Auth_Guarantees Record_History
begin

text \<open>
  A verification development for dygo, a metadata-driven business application framework in Go.
  Placeholder header.
\<close>

end
